(* ===== verification/Prelude.thy ===== *)
theory Prelude
  imports Main "HOL-Library.Sublist" "HOL-Library.Multiset" "HOL-Library.Signed_Division"
begin

text \<open>
  Shared vocabulary of the development: Go's machine integers, instants and durations, the
  string functions of the standard library that the code calls, maps and their expiry sweeps,
  bounded histories, and the lemmas on them that the component theories use.

  \<^item> An \<open>int\<close> or \<open>int64\<close> of the code is an \<open>int\<close> here; every addition, subtraction or
    multiplication the code performs on one is wrapped with \<open>i64\<close> (two's complement, 64 bits).
  \<^item> A \<open>time.Time\<close> is the number of nanoseconds since the Unix epoch (an \<open>int\<close>), a
    \<open>time.Duration\<close> a 64-bit number of nanoseconds. The current time is an argument of every
    operation that reads the clock.
  \<^item> A Go map is a map \<open>'k \<rightharpoonup> 'v\<close>. Where the code ranges over a map and the result depends on
    the order, the order the runtime picks is an argument (a list of the keys).
  \<^item> A Go string is a list of bytes (\<open>char list\<close>).
\<close>

named_theorems go_defs "definitions that component proofs unfold together"

section \<open>Machine integers\<close>

definition i64 :: "int \<Rightarrow> int" where
  "i64 x = (x + 2 ^ 63) mod 2 ^ 64 - 2 ^ 63"

definition in_i64 :: "int \<Rightarrow> bool" where
  "in_i64 x \<longleftrightarrow> - (2 ^ 63) \<le> x \<and> x < 2 ^ 63"

lemma in_i64_i64 [simp]: "in_i64 (i64 x)"
proof -
  have "0 \<le> (x + 2 ^ 63) mod 2 ^ 64" and "(x + 2 ^ 63) mod 2 ^ 64 < (2 :: int) ^ 64"
    by simp_all
  then show ?thesis by (simp add: in_i64_def i64_def)
qed

lemma i64_id: "in_i64 x \<Longrightarrow> i64 x = x"
  by (simp add: in_i64_def i64_def)

lemma i64_id_bounds: "- (2 ^ 63) \<le> x \<Longrightarrow> x < 2 ^ 63 \<Longrightarrow> i64 x = x"
  by (simp add: i64_def)

lemma i64_idem [simp]: "i64 (i64 x) = i64 x"
  by (simp add: i64_id)

lemma i64_succ: "in_i64 b \<Longrightarrow> 0 \<le> x \<Longrightarrow> x < b \<Longrightarrow> i64 (x + 1) = x + 1"
  by (simp add: in_i64_def i64_def)

lemma i64_0 [simp]: "i64 0 = 0" and i64_1 [simp]: "i64 1 = 1"
  by (simp_all add: i64_def)

section \<open>Instants and durations\<close>

type_synonym time = int
type_synonym duration = int

definition go_second :: duration where "go_second = 1000000000"
definition go_minute :: duration where "go_minute = 60000000000"
definition go_hour :: duration where "go_hour = 3600000000000"

text \<open>The zero \<open>time.Time\<close> is 1 January of the year 1, UTC.\<close>

definition zero_time :: time where
  "zero_time = - 62135596800 * 1000000000"

text \<open>\<open>Time.Sub\<close> saturates at the least and greatest durations.\<close>

definition time_sub :: "time \<Rightarrow> time \<Rightarrow> duration" where
  "time_sub t u = max (- (2 ^ 63)) (min (2 ^ 63 - 1) (t - u))"

lemma time_sub_exact: "in_i64 (t - u) \<Longrightarrow> time_sub t u = t - u"
  by (simp add: time_sub_def in_i64_def)

lemma time_sub_mono: "t \<le> t' \<Longrightarrow> time_sub t u \<le> time_sub t' u"
  by (simp add: time_sub_def)

section \<open>Strings\<close>

definition has_prefix :: "string \<Rightarrow> string \<Rightarrow> bool" where
  "has_prefix s p \<longleftrightarrow> take (length p) s = p"

definition has_suffix :: "string \<Rightarrow> string \<Rightarrow> bool" where
  "has_suffix s p \<longleftrightarrow> length p \<le> length s \<and> drop (length s - length p) s = p"

definition trim_prefix :: "string \<Rightarrow> string \<Rightarrow> string" where
  "trim_prefix s p = (if has_prefix s p then drop (length p) s else s)"

text \<open>\<open>strings.Index\<close>: \<open>None\<close> stands for the result -1.\<close>

fun str_index :: "string \<Rightarrow> string \<Rightarrow> nat option" where
  "str_index [] sub = (if sub = [] then Some 0 else None)"
| "str_index (c # cs) sub =
     (if has_prefix (c # cs) sub then Some 0 else map_option Suc (str_index cs sub))"

definition str_contains :: "string \<Rightarrow> string \<Rightarrow> bool" where
  "str_contains s sub \<longleftrightarrow> str_index s sub \<noteq> None"

text \<open>\<open>strings.ToLower\<close> on ASCII text; bytes above 127 are left as they are.\<close>

definition lower_char :: "char \<Rightarrow> char" where
  "lower_char c = (if 65 \<le> (of_char c :: nat) \<and> (of_char c :: nat) \<le> 90
     then char_of ((of_char c :: nat) + 32) else c)"

definition to_lower :: "string \<Rightarrow> string" where
  "to_lower s = map lower_char s"

lemma has_prefix_iff: "has_prefix s p \<longleftrightarrow> prefix p s"
  by (metis append_take_drop_id has_prefix_def prefix_def append_eq_conv_conj)

lemma has_suffix_iff: "has_suffix s p \<longleftrightarrow> suffix p s"
proof
  assume "has_suffix s p"
  then have "s = take (length s - length p) s @ p"
    by (metis append_take_drop_id has_suffix_def)
  then show "suffix p s" unfolding suffix_def by blast
next
  assume "suffix p s"
  then show "has_suffix s p" by (auto simp: suffix_def has_suffix_def)
qed

lemma str_index_Some:
  "str_index s sub = Some i \<Longrightarrow> s = take i s @ sub @ drop (i + length sub) s"
proof (induction s sub arbitrary: i rule: str_index.induct)
  case (1 sub)
  then show ?case by (auto split: if_splits)
next
  case (2 c cs sub)
  show ?case
  proof (cases "has_prefix (c # cs) sub")
    case True
    with "2.prems" have "i = 0" by simp
    with True show ?thesis by (metis add_0 append_take_drop_id has_prefix_def self_append_conv2 take_0)
  next
    case False
    with "2.prems" obtain j where "str_index cs sub = Some j" "i = Suc j" by auto
    with "2.IH"[OF False] show ?thesis by simp
  qed
qed

lemma str_index_None: "str_index s sub = None \<longleftrightarrow> \<not> sublist sub s"
  by (induction s sub rule: str_index.induct) (auto simp: has_prefix_iff sublist_Cons_right)

lemma str_contains_iff: "str_contains s sub \<longleftrightarrow> sublist sub s"
  by (simp add: str_contains_def str_index_None)

lemma str_index_single: "str_index s [c] = Some i \<Longrightarrow> c \<notin> set (take i s)"
proof (induction s "[c]" arbitrary: i rule: str_index.induct)
  case (2 d ds)
  then show ?case by (cases i) (auto simp: has_prefix_def split: if_splits)
qed simp

lemma str_index_single_None: "str_index s [c] = None \<longleftrightarrow> c \<notin> set s"
  by (simp add: str_index_None sublist_def) (metis append_Cons append_Nil in_set_conv_decomp)

lemma str_index_single_append:
  "c \<notin> set xs \<Longrightarrow> str_index (xs @ c # ys) [c] = Some (length xs)"
  by (induction xs) (auto simp: has_prefix_def)

text \<open>The decimal text of an integer, as \<open>fmt.Sprintf("%d", n)\<close> prints it.\<close>

fun show_nat :: "nat \<Rightarrow> string" where
  "show_nat n = (if n < 10 then [char_of (48 + n)]
     else show_nat (n div 10) @ [char_of (48 + n mod 10)])"

declare show_nat.simps [simp del]

definition show_int :: "int \<Rightarrow> string" where
  "show_int n = (if n < 0 then ''-'' @ show_nat (nat (- n)) else show_nat (nat n))"

text \<open>
  \<open>strconv.ParseInt(s, 10, 64)\<close>: the value and whether it parsed. A syntax error yields 0; a
  value out of range yields the nearest 64-bit integer; both with \<open>False\<close>.
\<close>

definition is_digit :: "char \<Rightarrow> bool" where
  "is_digit c \<longleftrightarrow> 48 \<le> (of_char c :: nat) \<and> (of_char c :: nat) \<le> 57"

fun parse_digits :: "nat \<Rightarrow> string \<Rightarrow> nat option" where
  "parse_digits acc [] = Some acc"
| "parse_digits acc (c # cs) =
     (if is_digit c then parse_digits (acc * 10 + (of_char c - 48)) cs else None)"

definition parse_sign :: "string \<Rightarrow> bool \<times> string" where
  "parse_sign s = (case s of [] \<Rightarrow> (False, [])
     | c # cs \<Rightarrow> if c = CHR ''-'' then (True, cs) else if c = CHR ''+'' then (False, cs) else (False, s))"

definition parse_int :: "string \<Rightarrow> int \<times> bool" where
  "parse_int s = (let (neg, ds) = parse_sign s
     in if ds = [] then (0, False)
        else case parse_digits 0 ds of
          None \<Rightarrow> (0, False)
        | Some n \<Rightarrow>
            let v = (if neg then - int n else int n)
            in if in_i64 v then (v, True)
               else (if neg then - (2 ^ 63) else 2 ^ 63 - 1, False))"

lemma parse_digits_append:
  "parse_digits acc (xs @ ys) = Option.bind (parse_digits acc xs) (\<lambda>a. parse_digits a ys)"
  by (induction xs arbitrary: acc) auto

lemma digit_char: "d < 10 \<Longrightarrow> is_digit (char_of (48 + d)) \<and> (of_char (char_of (48 + d) :: char) :: nat) = 48 + d"
  by (simp add: is_digit_def of_char_of)

lemma parse_show_nat: "parse_digits 0 (show_nat n) = Some n"
proof (induction n rule: show_nat.induct)
  case (1 n)
  show ?case
  proof (cases "n < 10")
    case True
    then show ?thesis using digit_char [of n] by (simp add: show_nat.simps [of n])
  next
    case False
    with 1 have "parse_digits 0 (show_nat (n div 10)) = Some (n div 10)" by simp
    with False show ?thesis using digit_char [of "n mod 10"]
      by (simp add: show_nat.simps [of n] parse_digits_append)
  qed
qed

lemma show_nat_head: "\<exists>c cs. show_nat n = c # cs \<and> is_digit c"
proof (induction n rule: show_nat.induct)
  case (1 n)
  then show ?case using digit_char [of n] by (cases "n < 10") (auto simp: show_nat.simps [of n])
qed

lemma parse_sign_show_nat: "parse_sign (show_nat n) = (False, show_nat n)"
proof -
  obtain c cs where c: "show_nat n = c # cs" "is_digit c" using show_nat_head by blast
  then have "c \<noteq> CHR ''-''" and "c \<noteq> CHR ''+''" by (auto simp: is_digit_def)
  with c show ?thesis by (simp add: parse_sign_def)
qed

lemma show_nat_nonempty [simp]: "show_nat n \<noteq> []"
  using show_nat_head [of n] by auto

lemma parse_show_int: "in_i64 n \<Longrightarrow> parse_int (show_int n) = (n, True)"
  by (cases "n < 0")
     (simp_all add: parse_int_def show_int_def parse_sign_show_nat parse_show_nat,
      simp add: parse_sign_def parse_show_nat)

section \<open>Maps and sweeps\<close>

text \<open>
  The loop \<open>for k, v := range m { if dead(v) { delete(m, k) } }\<close>: it visits every key once, in
  any order, and deletes those whose value is dead.
\<close>

definition purge :: "('v \<Rightarrow> bool) \<Rightarrow> ('k \<rightharpoonup> 'v) \<Rightarrow> ('k \<rightharpoonup> 'v)" where
  "purge dead m = (\<lambda>k. case m k of None \<Rightarrow> None | Some v \<Rightarrow> if dead v then None else Some v)"

text \<open>An order in which a \<open>range\<close> over the map may visit the keys.\<close>

definition range_order :: "'k list \<Rightarrow> ('k \<rightharpoonup> 'v) \<Rightarrow> bool" where
  "range_order ks m \<longleftrightarrow> distinct ks \<and> set ks = dom m"

lemma purge_Some: "purge dead m k = Some v \<longleftrightarrow> m k = Some v \<and> \<not> dead v"
  by (auto simp: purge_def split: option.splits)

lemma purge_None: "purge dead m k = None \<longleftrightarrow> (\<forall>v. m k = Some v \<longrightarrow> dead v)"
  by (auto simp: purge_def split: option.splits)

lemma dom_purge: "dom (purge dead m) \<subseteq> dom m"
  by (auto simp: purge_def split: option.splits)

lemma purge_purge: "(\<And>v. dead v \<Longrightarrow> dead' v) \<Longrightarrow> purge dead' (purge dead m) = purge dead' m"
  by (auto simp: purge_def fun_eq_iff split: option.splits)

text \<open>
  The contract between a store's lookup, which ignores stale entries, and its background sweep,
  which deletes entries that are gone: an entry that is gone at one instant is stale at that
  instant and for ever after. Then sweeping is invisible to every later lookup.
\<close>

locale expiring =
  fixes gone :: "time \<Rightarrow> 'v \<Rightarrow> bool"
    and stale :: "time \<Rightarrow> 'v \<Rightarrow> bool"
  assumes gone_stale: "gone t v \<Longrightarrow> t \<le> t' \<Longrightarrow> stale t' v"
begin

lemma fresh_after_sweep: "t \<le> t' \<Longrightarrow> purge (stale t') (purge (gone t) m) = purge (stale t') m"
  by (rule purge_purge) (rule gone_stale)

lemma lookup_after_sweep:
  assumes "t \<le> t'" and "m k = Some v" and "\<not> stale t' v"
  shows "purge (gone t) m k = Some v"
  using assms gone_stale by (auto simp: purge_Some)

lemma swept_entry_stale:
  assumes "t \<le> t'" and "m k = Some v" and "purge (gone t) m k = None"
  shows "stale t' v"
  using assms gone_stale by (auto simp: purge_None)

lemma swept_entry_fresh:
  "purge (gone t) m k = Some v \<Longrightarrow> m k = Some v \<and> \<not> gone t v"
  by (simp add: purge_Some)

end

section \<open>Bounded histories\<close>

text \<open>
  \<open>h = append(h, x); if len(h) > max { h = h[1:] }\<close>
\<close>

definition push_bounded :: "int \<Rightarrow> 'a \<Rightarrow> 'a list \<Rightarrow> 'a list" where
  "push_bounded mx x h = (let h' = h @ [x] in if int (length h') > mx then tl h' else h')"

lemma push_bounded_length:
  "0 \<le> mx \<Longrightarrow> int (length h) \<le> mx \<Longrightarrow> int (length (push_bounded mx x h)) \<le> mx"
  by (auto simp: push_bounded_def Let_def)

lemma push_bounded_keeps_last: "0 < mx \<Longrightarrow> last (push_bounded mx x h) = x"
  by (cases h) (auto simp: push_bounded_def Let_def)

lemma push_bounded_suffix: "suffix (push_bounded mx x h) (h @ [x])"
  unfolding push_bounded_def Let_def by (metis suffix_tl suffix_order.order_refl)

text \<open>A history fed one entry at a time holds the most recent entries, oldest first.\<close>

definition last_n :: "nat \<Rightarrow> 'a list \<Rightarrow> 'a list" where
  "last_n n xs = drop (length xs - n) xs"

lemma push_bounded_last_n:
  assumes "0 < n"
  shows "push_bounded (int n) x (last_n n xs) = last_n n (xs @ [x])"
proof (cases "length xs < n")
  case True
  then show ?thesis by (simp add: push_bounded_def last_n_def)
next
  case False
  with assms show ?thesis
    by (simp add: push_bounded_def last_n_def Suc_diff_le flip: drop_Suc tl_drop)
       (metis drop_Suc tl_append2 tl_drop linorder_not_less)
qed

lemma fold_push_bounded:
  "0 < n \<Longrightarrow> fold (push_bounded (int n)) xs [] = last_n n xs"
proof (induction xs rule: rev_induct)
  case Nil
  then show ?case by (simp add: last_n_def)
next
  case (snoc x xs)
  then show ?case by (simp add: push_bounded_last_n)
qed

section \<open>Sums over lists updated in place\<close>

lemma sum_list_map_upd:
  fixes f :: "'a \<Rightarrow> 'b :: comm_monoid_add"
  shows "i < length xs \<Longrightarrow> sum_list (map f (xs[i := y])) + f (xs ! i) = sum_list (map f xs) + f y"
proof (induction xs arbitrary: i)
  case (Cons x xs)
  then show ?case
  proof (cases i)
    case (Suc j)
    with Cons have "sum_list (map f (xs[j := y])) + f (xs ! j) = sum_list (map f xs) + f y" by simp
    with Suc show ?thesis by (simp add: add.assoc)
  qed (simp add: ac_simps)
qed simp

lemma member_le_sum_list_map:
  fixes f :: "'a \<Rightarrow> nat"
  shows "i < length xs \<Longrightarrow> f (xs ! i) \<le> sum_list (map f xs)"
  by (rule member_le_sum_list) auto

section \<open>Runs of operations that may panic\<close>

text \<open>One operation after the other, until one panics.\<close>

primrec run_opt :: "('e \<Rightarrow> 's \<Rightarrow> 's option) \<Rightarrow> 'e list \<Rightarrow> 's \<Rightarrow> 's option" where
  "run_opt f [] s = Some s"
| "run_opt f (e # es) s = Option.bind (f e s) (run_opt f es)"

lemma run_opt_append: "run_opt f (es @ fs) s = Option.bind (run_opt f es s) (run_opt f fs)"
  by (induction es arbitrary: s) (auto split: bind_splits)

lemma run_opt_preserves:
  assumes "\<And>e s s'. I s \<Longrightarrow> f e s = Some s' \<Longrightarrow> I s'"
  shows "I s \<Longrightarrow> run_opt f es s = Some s' \<Longrightarrow> I s'"
  by (induction es arbitrary: s) (auto split: bind_splits intro: assms)

text \<open>A simulation of single operations is one of runs: the abstract run panics when the concrete one does.\<close>

lemma run_opt_refines:
  assumes "\<And>e s. I s \<Longrightarrow> map_option a (f e s) = g e (a s) \<and> (\<forall>s'. f e s = Some s' \<longrightarrow> I s')"
  shows "I s \<Longrightarrow> map_option a (run_opt f es s) = run_opt g es (a s)"
proof (induction es arbitrary: s)
  case (Cons e es)
  then show ?case using assms [OF Cons.prems, of e] by (cases "f e s") (auto dest: sym)
qed simp

section \<open>Executions\<close>

text \<open>A schedule, written out as the list of states it passes through.\<close>

fun run_through :: "('s \<Rightarrow> 's \<Rightarrow> bool) \<Rightarrow> 's \<Rightarrow> 's list \<Rightarrow> bool" where
  "run_through R s [] = True"
| "run_through R s (t # ts) = (R s t \<and> run_through R t ts)"

lemma run_through_reaches: "run_through R s ts \<Longrightarrow> R\<^sup>*\<^sup>* s (last (s # ts))"
  by (induction ts arbitrary: s) (auto intro: converse_rtranclp_into_rtranclp)

text \<open>\<open>fmt.Sscanf(s, "%d", &x)\<close> into a 64-bit variable that is 0: leading spaces, a sign, digits; what
  follows is left unread, and a failure or a value out of range leaves 0.\<close>

definition scan_int :: "string \<Rightarrow> int" where
  "scan_int s = (let (neg, ds) = parse_sign (dropWhile (\<lambda>c. c = CHR '' '') s)
     in (case parse_digits 0 (takeWhile is_digit ds) of
          None \<Rightarrow> 0
        | Some n \<Rightarrow> let v = (if neg then - int n else int n) in if in_i64 v then v else 0))"

lemma show_nat_digits: "\<forall>c \<in> set (show_nat n). is_digit c"
proof (induction n rule: show_nat.induct)
  case (1 n)
  then show ?case using digit_char [of n] digit_char [of "n mod 10"]
    by (cases "n < 10") (auto simp: show_nat.simps [of n])
qed

lemma scan_show_int: "in_i64 n \<Longrightarrow> scan_int (show_int n) = n"
proof -
  assume n: "in_i64 n"
  have t: "takeWhile is_digit (show_nat k) = show_nat k" for k
    using show_nat_digits [of k] by (simp add: takeWhile_eq_all_conv)
  have dw: "dropWhile (\<lambda>c. c = CHR '' '') (show_nat k) = show_nat k" for k
  proof -
    obtain c cs where "show_nat k = c # cs" "is_digit c" using show_nat_head by blast
    then show ?thesis by (auto simp: is_digit_def)
  qed
  show ?thesis using n
    by (cases "n < 0") (simp_all add: scan_int_def show_int_def parse_sign_show_nat parse_show_nat t dw,
        simp add: parse_sign_def parse_show_nat t)
qed

section \<open>Order of strings\<close>

text \<open>Strings are compared byte by byte.\<close>

fun str_less :: "string \<Rightarrow> string \<Rightarrow> bool" where
  "str_less s [] = False"
| "str_less [] (d # t) = True"
| "str_less (c # s) (d # t) = (if (of_char c :: nat) < of_char d then True
     else if (of_char d :: nat) < of_char c then False else str_less s t)"

end
