(* ===== verification/Http.thy ===== *)
theory Http
  imports Prelude "HOL-Library.Word"
begin

text \<open>
  What the gateway's middlewares read of an HTTP request and what they decide, and the
  process-wide counters of \<open>gateway/metrics.go\<close>. The web framework (gin) is not part of the
  repository: a request is the record of the values its accessors return, and a middleware is
  a function from a request to \<open>Abort status message\<close> (\<open>c.AbortWithStatusJSON\<close>) or
  \<open>Next\<close> (\<open>c.Next()\<close>).
\<close>

section \<open>Requests and outcomes\<close>

record http_req =
  rq_method :: string
  rq_path :: string
  rq_clientIP :: string
  rq_header :: "string \<Rightarrow> string"
  rq_query :: "string \<Rightarrow> string"
  rq_contentLength :: int

datatype outcome = Abort int string | Next

text \<open>The credentials header: \<open>Authorization\<close>, else \<open>Proxy-Authorization\<close>.\<close>

definition auth_header :: "http_req \<Rightarrow> string" where
  "auth_header r = (let h = rq_header r ''Authorization''
     in if h = [] then rq_header r ''Proxy-Authorization'' else h)"

definition extractBearerToken :: "string \<Rightarrow> string" where
  "extractBearerToken auth =
     (if has_prefix auth ''Bearer '' then trim_prefix auth ''Bearer '' else '''')"

text \<open>The API key a request presents: the bearer token, else the whole header.\<close>

definition presented_key :: "string \<Rightarrow> string" where
  "presented_key auth = (let k = extractBearerToken auth in if k = [] then auth else k)"

lemma extractBearerToken_bearer [simp]: "extractBearerToken (''Bearer '' @ k) = k"
  by (simp add: extractBearerToken_def has_prefix_def trim_prefix_def)

section \<open>Handlers\<close>

text \<open>
  A handler answers with a status and either the text under \<open>"error"\<close> or what it serves. The result of
  \<open>ShouldBindJSON\<close>, the framework's, is an argument: the text of its error, or the body it read.
\<close>

type_synonym 'a resp = "int \<times> (string + 'a)"

definition bad_request :: "string \<Rightarrow> 'a resp" where
  "bad_request m = (400, Inl m)"

text \<open>\<open>fmt.Sscanf(s, "%d", &x)\<close> into a variable that holds \<open>d\<close>: a failure leaves it as it is.\<close>

definition scan_into :: "int \<Rightarrow> string \<Rightarrow> int" where
  "scan_into d s = (let (neg, ds) = parse_sign (dropWhile (\<lambda>c. c = CHR '' '') s)
     in (case takeWhile is_digit ds of [] \<Rightarrow> d
        | t \<Rightarrow> (case parse_digits 0 t of None \<Rightarrow> d
          | Some n \<Rightarrow> let v = (if neg then - int n else int n) in if in_i64 v then v else d)))"

text \<open>A query parameter \<open>limit\<close> with its default.\<close>

definition query_limit :: "int \<Rightarrow> string \<Rightarrow> int" where
  "query_limit d l = (if l = [] then d else scan_into d l)"

section \<open>Counters\<close>

type_synonym u64 = "64 word"

record metrics =
  mt_requestsTotal :: u64
  mt_requestsSuccess :: u64
  mt_requestsFailed :: u64
  mt_rateLimited :: u64
  mt_nodesSelected :: u64
  mt_activeSessions :: u64
  mt_latencyTotalMs :: u64
  mt_latencyCount :: u64

definition metrics_zero :: metrics where
  "metrics_zero = \<lparr>mt_requestsTotal = 0, mt_requestsSuccess = 0, mt_requestsFailed = 0,
     mt_rateLimited = 0, mt_nodesSelected = 0, mt_activeSessions = 0,
     mt_latencyTotalMs = 0, mt_latencyCount = 0\<rparr>"

definition IncRequestsTotal :: "metrics \<Rightarrow> metrics" where
  "IncRequestsTotal m = m\<lparr>mt_requestsTotal := mt_requestsTotal m + 1\<rparr>"

definition IncRequestsSuccess :: "metrics \<Rightarrow> metrics" where
  "IncRequestsSuccess m = m\<lparr>mt_requestsSuccess := mt_requestsSuccess m + 1\<rparr>"

definition IncRequestsFailed :: "metrics \<Rightarrow> metrics" where
  "IncRequestsFailed m = m\<lparr>mt_requestsFailed := mt_requestsFailed m + 1\<rparr>"

definition IncRateLimited :: "metrics \<Rightarrow> metrics" where
  "IncRateLimited m = m\<lparr>mt_rateLimited := mt_rateLimited m + 1\<rparr>"

definition IncNodesSelected :: "metrics \<Rightarrow> metrics" where
  "IncNodesSelected m = m\<lparr>mt_nodesSelected := mt_nodesSelected m + 1\<rparr>"

definition IncActiveSessions :: "metrics \<Rightarrow> metrics" where
  "IncActiveSessions m = m\<lparr>mt_activeSessions := mt_activeSessions m + 1\<rparr>"

text \<open>The code adds \<open>^uint64(0)\<close>, the greatest 64-bit word.\<close>

definition DecActiveSessions :: "metrics \<Rightarrow> metrics" where
  "DecActiveSessions m = m\<lparr>mt_activeSessions := mt_activeSessions m + not 0\<rparr>"

definition AddLatency :: "int \<Rightarrow> metrics \<Rightarrow> metrics" where
  "AddLatency ms m = m\<lparr>mt_latencyTotalMs := mt_latencyTotalMs m + word_of_int ms,
     mt_latencyCount := mt_latencyCount m + 1\<rparr>"

lemma rateLimited_inc [simp]:
  "mt_rateLimited (IncRateLimited m) = mt_rateLimited m + 1"
  by (simp add: IncRateLimited_def)

lemma sessions_dec_inc: "DecActiveSessions (IncActiveSessions m) = m"
  by (simp add: DecActiveSessions_def IncActiveSessions_def)

end
