(* ===== verification/Go_Float.thy ===== *)
theory Go_Float
  imports Prelude "HOL-Library.Log_Nat"
begin

text \<open>
  Go's \<open>float64\<close>: IEEE 754 binary64 with round to nearest, ties to even. A value is a rational, an
  infinity or NaN; the two signed zeros are identified. An arithmetic operation is the exact
  rational operation followed by \<open>round64\<close>. What the component proofs need of rounding is stated
  as the locale \<open>rounding\<close> (monotone, exact on the integers up to 2^53), proved once for
  \<open>round64\<close>, so that bounds on scores and amounts hold for the machine arithmetic itself.
  Fused multiply-add, which some architectures allow, is not modelled.
\<close>

section \<open>Rounding\<close>

definition rne :: "rat \<Rightarrow> int" where
  "rne y = (let f = \<lfloor>y\<rfloor>; d = y - of_int f
     in if d < 1 / 2 then f else if 1 / 2 < d then f + 1 else if even f then f else f + 1)"

text \<open>The exponent of a positive rational: the greatest \<open>e\<close> with \<open>2 powi e \<le> x\<close>.\<close>

definition flog2 :: "rat \<Rightarrow> int" where
  "flog2 x = (let (a, b) = quotient_of x;
       e = int (floorlog 2 (nat a)) - int (floorlog 2 (nat b))
     in if x < 2 powi e then e - 1 else e)"

definition fexp :: "rat \<Rightarrow> int" where
  "fexp x = max (flog2 \<bar>x\<bar> - 52) (- 1074)"

definition round64 :: "rat \<Rightarrow> rat" where
  "round64 x = (if x = 0 then 0 else of_int (rne (x / 2 powi fexp x)) * 2 powi fexp x)"

locale rounding =
  fixes rd :: "rat \<Rightarrow> rat"
  assumes rd_mono: "x \<le> y \<Longrightarrow> rd x \<le> rd y"
    and rd_int: "\<bar>n\<bar> \<le> 2 ^ 53 \<Longrightarrow> rd (of_int n) = of_int n"
begin

lemma rd_upper: "x \<le> of_int n \<Longrightarrow> \<bar>n\<bar> \<le> 2 ^ 53 \<Longrightarrow> rd x \<le> of_int n"
  using rd_mono [of x "of_int n"] by (simp add: rd_int)

lemma rd_lower: "of_int n \<le> x \<Longrightarrow> \<bar>n\<bar> \<le> 2 ^ 53 \<Longrightarrow> of_int n \<le> rd x"
  using rd_mono [of "of_int n" x] by (simp add: rd_int)

lemma rd_0: "rd 0 = 0"
  using rd_int [of 0] by simp

lemma rd_nonneg: "0 \<le> x \<Longrightarrow> 0 \<le> rd x"
  using rd_mono [of 0 x] by (simp add: rd_0)

lemma rd_nonpos: "x \<le> 0 \<Longrightarrow> rd x \<le> 0"
  using rd_mono [of x 0] by (simp add: rd_0)

lemma rd_between:
  "of_int a \<le> x \<Longrightarrow> x \<le> of_int b \<Longrightarrow> \<bar>a\<bar> \<le> 2 ^ 53 \<Longrightarrow> \<bar>b\<bar> \<le> 2 ^ 53 \<Longrightarrow>
    of_int a \<le> rd x \<and> rd x \<le> of_int b"
  by (simp add: rd_lower rd_upper)

end

lemma rne_of_int [simp]: "rne (of_int n) = n"
  by (simp add: rne_def)

lemma rne_mono: "x \<le> y \<Longrightarrow> rne x \<le> rne y"
proof (cases "\<lfloor>x\<rfloor> = \<lfloor>y\<rfloor>")
  case True
  then show "x \<le> y \<Longrightarrow> rne x \<le> rne y" by (auto simp: rne_def Let_def)
next
  case False
  assume "x \<le> y"
  with False have "\<lfloor>x\<rfloor> + 1 \<le> \<lfloor>y\<rfloor>" using floor_mono [of x y] by linarith
  moreover have "rne x \<le> \<lfloor>x\<rfloor> + 1" and "\<lfloor>y\<rfloor> \<le> rne y" by (simp_all add: rne_def Let_def)
  ultimately show "rne x \<le> rne y" by linarith
qed

lemma rne_minus: "rne (- y) = - rne y"
proof (cases "y = of_int \<lfloor>y\<rfloor>")
  case True
  then show ?thesis by (metis of_int_minus rne_of_int)
next
  case False
  then have "\<lfloor>- y\<rfloor> = - \<lfloor>y\<rfloor> - 1"
    using floor_correct [of y] by (intro floor_unique) (auto simp: less_le)
  moreover have "even (- \<lfloor>y\<rfloor> - 1) \<longleftrightarrow> odd \<lfloor>y\<rfloor>" by presburger
  ultimately show ?thesis by (auto simp: rne_def Let_def)
qed

lemma flog2_bounds:
  assumes "0 < x"
  shows "2 powi flog2 x \<le> x \<and> x < 2 powi (flog2 x + 1)"
proof -
  obtain a b where q: "quotient_of x = (a, b)" by (cases "quotient_of x")
  have b: "0 < b" using quotient_of_denom_pos [OF q] .
  have x: "x = of_int a / of_int b" using quotient_of_div [OF q] .
  with b assms have a: "0 < a" by (simp add: zero_less_divide_iff)
  define ka kb where "ka = floorlog 2 (nat a)" and "kb = floorlog 2 (nat b)"
  have fl: "2 ^ (floorlog 2 n - 1) \<le> n \<and> n < 2 ^ floorlog 2 n" if "0 < n" for n :: nat
    using that floorlog_bounds [of n 2] by simp
  have pos: "0 < ka" "0 < kb" using a b by (simp_all add: ka_def kb_def floorlog_def)
  have la: "(2::rat) ^ (ka - 1) \<le> of_int a" "of_int a < (2::rat) ^ ka"
    using fl [of "nat a"] a unfolding ka_def [symmetric]
    by (metis nat_less_iff of_int_less_iff of_int_numeral of_int_power of_nat_numeral of_nat_power
        nat_le_iff le_nat_iff less_imp_le of_int_le_iff zero_less_nat_eq)+
  have lb: "(2::rat) ^ (kb - 1) \<le> of_int b" "of_int b < (2::rat) ^ kb"
    using fl [of "nat b"] b unfolding kb_def [symmetric]
    by (metis nat_less_iff of_int_less_iff of_int_numeral of_int_power of_nat_numeral of_nat_power
        nat_le_iff le_nat_iff less_imp_le of_int_le_iff zero_less_nat_eq)+
  define e where "e = int ka - int kb"
  have lo: "2 powi (e - 1) \<le> x"
  proof -
    have "2 powi (e - 1) = (2::rat) ^ (ka - 1) / 2 ^ kb"
      using pos by (cases ka) (simp_all add: e_def power_int_diff)
    also have "\<dots> \<le> of_int a / of_int b" using la lb b a by (intro frac_le) auto
    finally show ?thesis by (simp add: x)
  qed
  have hi: "x < 2 powi (e + 1)"
  proof -
    have "of_int a / of_int b < (2::rat) ^ ka / 2 ^ (kb - 1)"
      using la lb b a by (intro frac_less) auto
    also have "\<dots> = 2 powi (e + 1)"
      using pos by (cases kb) (simp_all add: e_def power_int_diff power_int_add)
    finally show ?thesis by (simp add: x)
  qed
  show ?thesis using lo hi by (simp add: flog2_def q e_def ka_def kb_def Let_def)
qed

lemma two_powi_le: "(2::rat) powi a \<le> 2 powi b \<longleftrightarrow> a \<le> b"
  using power_int_increasing [of a b "2::rat"] power_int_strict_increasing [of b a "2::rat"]
  by (cases "a \<le> b") auto

lemma two_powi_less: "(2::rat) powi a < 2 powi b \<longleftrightarrow> a < b"
  using two_powi_le [of b a] by linarith

lemma flog2_unique:
  assumes "2 powi e \<le> x" and "x < 2 powi (e + 1)"
  shows "flog2 x = e"
proof -
  have "0 < x" using assms(1) by (rule less_le_trans [rotated]) simp
  then have f: "2 powi flog2 x \<le> x" "x < 2 powi (flog2 x + 1)"
    using flog2_bounds by blast+
  have "(2::rat) powi e < 2 powi (flog2 x + 1)" and "(2::rat) powi flog2 x < 2 powi (e + 1)"
    using assms f by linarith+
  then show ?thesis by (simp add: two_powi_less)
qed

lemma flog2_mono: "0 < x \<Longrightarrow> x \<le> y \<Longrightarrow> flog2 x \<le> flog2 y"
proof -
  assume "0 < x" "x \<le> y"
  then have "(2::rat) powi flog2 x < 2 powi (flog2 y + 1)"
    using flog2_bounds [of x] flog2_bounds [of y] by linarith
  then show ?thesis by (simp add: two_powi_less)
qed

section \<open>\<open>round64\<close> is a rounding\<close>

lemma round64_0 [simp]: "round64 0 = 0"
  by (simp add: round64_def)

lemma round64_minus: "round64 (- x) = - round64 x"
  by (simp add: round64_def fexp_def rne_minus flip: minus_divide_left)

lemma round64_eval:
  assumes "2 powi e \<le> x" and "x < 2 powi (e + 1)" and "- 1022 \<le> e"
  shows "round64 x = of_int (rne (x / 2 powi (e - 52))) * 2 powi (e - 52)"
proof -
  have "0 < x" using assms(1) by (rule less_le_trans [rotated]) simp
  then show ?thesis
    using flog2_unique [OF assms(1,2)] assms(3) by (simp add: round64_def fexp_def)
qed

lemma scaled_upper:
  assumes "0 < x"
  shows "x / 2 powi fexp x < 2 ^ 53"
proof -
  have "x < 2 powi (flog2 x + 1)" using flog2_bounds [OF assms] by simp
  also have "\<dots> \<le> 2 powi (fexp x + 53)"
    by (rule power_int_increasing) (use assms in \<open>auto simp: fexp_def\<close>)
  also have "\<dots> = 2 powi fexp x * 2 ^ 53" by (simp add: power_int_add)
  finally show ?thesis by (simp add: divide_less_eq mult.commute)
qed

lemma scaled_lower:
  assumes "0 < x" and "- 1074 < fexp x"
  shows "2 ^ 52 \<le> x / 2 powi fexp x"
proof -
  have e: "fexp x + 52 = flog2 x" using assms by (auto simp: fexp_def max_def split: if_splits)
  have "2 powi fexp x * 2 ^ 52 = (2::rat) powi (fexp x + 52)" by (simp add: power_int_add)
  also have "\<dots> \<le> x" using flog2_bounds [OF assms(1)] by (simp add: e)
  finally show ?thesis by (simp add: le_divide_eq mult.commute)
qed

lemma rne_le_int: "y \<le> of_int n \<Longrightarrow> rne y \<le> n" and int_le_rne: "of_int n \<le> y \<Longrightarrow> n \<le> rne y"
  using rne_mono [of y "of_int n"] rne_mono [of "of_int n" y] by simp_all

lemma round64_nonneg: "0 \<le> x \<Longrightarrow> 0 \<le> round64 x"
  using int_le_rne [of 0] by (auto simp: round64_def)

lemma round64_mono_pos:
  assumes "0 < x" and "x \<le> y"
  shows "round64 x \<le> round64 y"
proof (cases "fexp x = fexp y")
  case True
  have "rne (x / 2 powi fexp y) \<le> rne (y / 2 powi fexp y)"
    by (rule rne_mono) (use assms in \<open>auto intro: divide_right_mono\<close>)
  with True assms show ?thesis by (auto simp: round64_def intro: mult_right_mono)
next
  case False
  have "fexp x \<le> fexp y" using flog2_mono [OF assms] assms by (auto simp: fexp_def)
  with False have lt: "fexp x + 1 \<le> fexp y" by linarith
  then have "- 1074 < fexp y" by (auto simp: fexp_def)
  with assms have y: "2 ^ 52 \<le> rne (y / 2 powi fexp y)"
    using scaled_lower [of y] by (intro int_le_rne) simp
  have "rne (x / 2 powi fexp x) \<le> 2 ^ 53"
    using scaled_upper [OF assms(1)] by (intro rne_le_int) simp
  then have "(of_int (rne (x / 2 powi fexp x)) :: rat) \<le> of_int (2 ^ 53)"
    by (simp only: of_int_le_iff)
  then have "of_int (rne (x / 2 powi fexp x)) * 2 powi fexp x \<le> 2 ^ 53 * (2::rat) powi fexp x"
    by (intro mult_right_mono) simp_all
  also have "\<dots> = 2 ^ 52 * 2 powi (fexp x + 1)" by (simp add: power_int_add)
  also have "\<dots> \<le> 2 ^ 52 * 2 powi fexp y"
    by (intro mult_left_mono power_int_increasing) (use lt in auto)
  also have "\<dots> \<le> of_int (rne (y / 2 powi fexp y)) * 2 powi fexp y"
  proof (rule mult_right_mono)
    show "2 ^ 52 \<le> (of_int (rne (y / 2 powi fexp y)) :: rat)"
      using y by (metis of_int_le_iff of_int_numeral of_int_power)
  qed simp
  finally show ?thesis using assms by (simp add: round64_def)
qed

lemma round64_mono: "x \<le> y \<Longrightarrow> round64 x \<le> round64 y"
proof -
  assume le: "x \<le> y"
  consider "0 < x" | "x \<le> 0" "0 \<le> y" | "y < 0" by linarith
  then show ?thesis
  proof cases
    case 1
    then show ?thesis using le by (rule round64_mono_pos)
  next
    case 2
    then have "0 \<le> round64 (- x)" and "0 \<le> round64 y" by (simp_all add: round64_nonneg)
    then show ?thesis by (simp add: round64_minus)
  next
    case 3
    with le have "round64 (- y) \<le> round64 (- x)" by (intro round64_mono_pos) auto
    then show ?thesis by (simp add: round64_minus)
  qed
qed

lemma round64_pos_int:
  assumes "0 < n" and "n \<le> 2 ^ 53"
  shows "round64 (of_int n) = of_int n"
proof -
  define x :: rat where "x = of_int n"
  have x: "0 < x" "x \<le> 2 ^ 53" using assms by (auto simp: x_def)
  have "(2::rat) powi 0 \<le> x" using assms by (simp add: x_def)
  then have "(2::rat) powi 0 < 2 powi (flog2 x + 1)" using flog2_bounds [OF x(1)] by linarith
  then have lo: "0 \<le> flog2 x" by (simp only: two_powi_less)
  have "(2::rat) powi flog2 x \<le> 2 powi 53" using flog2_bounds [OF x(1)] x(2) by simp
  then have hi: "flog2 x \<le> 53" by (simp only: two_powi_le)
  have k: "fexp x = flog2 x - 52" using lo x by (simp add: fexp_def)
  show ?thesis
  proof (cases "flog2 x = 53")
    case True
    then have "2 ^ 53 \<le> x" using flog2_bounds [OF x(1)] by simp
    with x have "x = 2 ^ 53" by simp
    moreover have "rne ((2::rat) ^ 53 / 2) = 2 ^ 52"
      using rne_of_int [of "2 ^ 52"] by simp
    ultimately show ?thesis using k True by (simp add: round64_def flip: x_def)
  next
    case False
    with hi have "flog2 x \<le> 52" by simp
    then obtain j :: nat where j: "fexp x = - int j" using k by (metis diff_le_0_iff_le minus_minus nonpos_int_cases)
    have "x / 2 powi fexp x = x * 2 ^ j" unfolding j by (simp add: power_int_minus divide_inverse)
    then have "x / 2 powi fexp x = of_int (n * 2 ^ j)" by (simp add: x_def)
    then have "rne (x / 2 powi fexp x) = n * 2 ^ j" by (simp only: rne_of_int)
    then have "round64 x = of_int (n * 2 ^ j) * 2 powi fexp x" using x by (simp add: round64_def)
    then have "round64 x = x" unfolding j by (simp add: power_int_minus x_def)
    then show ?thesis by (simp add: x_def)
  qed
qed

lemma round64_int: "\<bar>n\<bar> \<le> 2 ^ 53 \<Longrightarrow> round64 (of_int n) = of_int n"
proof -
  assume n: "\<bar>n\<bar> \<le> 2 ^ 53"
  consider "n = 0" | "0 < n" | "n < 0" by linarith
  then show ?thesis
  proof cases
    case 3
    then have "round64 (of_int (- n)) = of_int (- n)" using n by (intro round64_pos_int) auto
    then show ?thesis by (simp add: round64_minus)
  qed (use n round64_pos_int in auto)
qed

interpretation r64: rounding round64
  by unfold_locales (simp_all add: round64_mono round64_int)

section \<open>Values and operations\<close>

datatype f64 = Fin rat | PInf | NInf | FNaN

definition f_round :: "rat \<Rightarrow> f64" where
  "f_round x = (let r = round64 x
     in if 2 ^ 1024 \<le> r then PInf else if r \<le> - (2 ^ 1024) then NInf else Fin r)"

definition f_int :: "int \<Rightarrow> f64" where
  "f_int n = f_round (of_int n)"

fun f_neg :: "f64 \<Rightarrow> f64" where
  "f_neg (Fin x) = Fin (- x)"
| "f_neg PInf = NInf"
| "f_neg NInf = PInf"
| "f_neg FNaN = FNaN"

fun f_add :: "f64 \<Rightarrow> f64 \<Rightarrow> f64" where
  "f_add (Fin x) (Fin y) = f_round (x + y)"
| "f_add FNaN y = FNaN"
| "f_add x FNaN = FNaN"
| "f_add PInf NInf = FNaN"
| "f_add NInf PInf = FNaN"
| "f_add PInf y = PInf"
| "f_add x PInf = PInf"
| "f_add NInf y = NInf"
| "f_add x NInf = NInf"

definition f_sub :: "f64 \<Rightarrow> f64 \<Rightarrow> f64" where
  "f_sub x y = f_add x (f_neg y)"

definition f_inf :: "rat \<Rightarrow> f64" where
  "f_inf s = (if s = 0 then FNaN else if 0 < s then PInf else NInf)"

fun f_sign :: "f64 \<Rightarrow> rat" where
  "f_sign (Fin x) = sgn x"
| "f_sign PInf = 1"
| "f_sign NInf = - 1"
| "f_sign FNaN = 0"

fun f_mul :: "f64 \<Rightarrow> f64 \<Rightarrow> f64" where
  "f_mul (Fin x) (Fin y) = f_round (x * y)"
| "f_mul FNaN y = FNaN"
| "f_mul x FNaN = FNaN"
| "f_mul x y = f_inf (f_sign x * f_sign y)"

text \<open>Division by zero yields an infinity of the dividend's sign, or NaN for \<open>0/0\<close>.\<close>

fun f_div :: "f64 \<Rightarrow> f64 \<Rightarrow> f64" where
  "f_div (Fin x) (Fin y) = (if y = 0 then f_inf x else f_round (x / y))"
| "f_div FNaN y = FNaN"
| "f_div x FNaN = FNaN"
| "f_div (Fin x) y = Fin 0"
| "f_div x (Fin y) = f_inf (f_sign x * (if y < 0 then - 1 else 1))"
| "f_div x y = FNaN"

fun f_lt :: "f64 \<Rightarrow> f64 \<Rightarrow> bool" where
  "f_lt (Fin x) (Fin y) = (x < y)"
| "f_lt FNaN y = False"
| "f_lt x FNaN = False"
| "f_lt NInf NInf = False"
| "f_lt NInf y = True"
| "f_lt x NInf = False"
| "f_lt PInf y = False"
| "f_lt x PInf = True"

definition f_le :: "f64 \<Rightarrow> f64 \<Rightarrow> bool" where
  "f_le x y \<longleftrightarrow> f_lt x y \<or> (x = y \<and> x \<noteq> FNaN)"

text \<open>The floating comparison \<open>==\<close>.\<close>

definition f_eq :: "f64 \<Rightarrow> f64 \<Rightarrow> bool" where
  "f_eq x y \<longleftrightarrow> x = y \<and> x \<noteq> FNaN"

lemma round64_fin: "\<bar>x\<bar> \<le> 2 ^ 53 \<Longrightarrow> \<bar>round64 x\<bar> \<le> 2 ^ 53"
  using r64.rd_between [of "- (2 ^ 53)" x "2 ^ 53"] by (simp add: abs_le_iff minus_le_iff)

lemma f_round_fin: "\<bar>x\<bar> \<le> 2 ^ 53 \<Longrightarrow> f_round x = Fin (round64 x)"
proof -
  assume "\<bar>x\<bar> \<le> 2 ^ 53"
  then have "\<bar>round64 x\<bar> < 2 ^ 1024" using round64_fin [of x] by simp
  then show ?thesis by (auto simp: f_round_def Let_def)
qed

lemma f_int_small: "\<bar>n\<bar> \<le> 2 ^ 53 \<Longrightarrow> f_int n = Fin (of_int n)"
proof -
  assume n: "\<bar>n\<bar> \<le> 2 ^ 53"
  then have "\<bar>of_int n :: rat\<bar> \<le> 2 ^ 53"
    by (metis of_int_abs of_int_le_iff of_int_numeral of_int_power)
  with n show ?thesis by (simp add: f_int_def f_round_fin round64_int)
qed

text \<open>A finite value in an interval with small integer ends.\<close>

definition f_between :: "int \<Rightarrow> int \<Rightarrow> f64 \<Rightarrow> bool" where
  "f_between a b v = (case v of Fin x \<Rightarrow> of_int a \<le> x \<and> x \<le> of_int b | _ \<Rightarrow> False)"

lemma f_betweenE:
  assumes "f_between a b v"
  obtains x where "v = Fin x" "of_int a \<le> x" "x \<le> of_int b"
  using assms by (auto simp: f_between_def split: f64.splits)

lemma f_round_between:
  assumes "of_int a \<le> x" "x \<le> of_int b" "\<bar>a\<bar> \<le> 2 ^ 53" "\<bar>b\<bar> \<le> 2 ^ 53"
  shows "f_between a b (f_round x)"
proof -
  have "- (2 ^ 53) \<le> (of_int a :: rat)" and "of_int b \<le> (2 ^ 53 :: rat)"
    using assms(3,4) by (metis abs_le_iff minus_le_iff of_int_le_iff of_int_minus of_int_numeral of_int_power)+
  with assms(1,2) have "\<bar>x\<bar> \<le> 2 ^ 53" by linarith
  then show ?thesis
    using r64.rd_between [OF assms] by (simp add: f_round_fin f_between_def)
qed

lemma f_add_between:
  assumes "f_between a b u" "f_between c d v" "\<bar>a + c\<bar> \<le> 2 ^ 53" "\<bar>b + d\<bar> \<le> 2 ^ 53"
  shows "f_between (a + c) (b + d) (f_add u v)"
proof -
  obtain x where x: "u = Fin x" "of_int a \<le> x" "x \<le> of_int b" using assms(1) by (rule f_betweenE)
  obtain y where y: "v = Fin y" "of_int c \<le> y" "y \<le> of_int d" using assms(2) by (rule f_betweenE)
  have "f_between (a + c) (b + d) (f_round (x + y))"
    by (rule f_round_between) (use x y assms in auto)
  with x y show ?thesis by simp
qed

section \<open>Scores\<close>

text \<open>A constant of the source, and operations whose exact result is small.\<close>

definition f_lit :: "rat \<Rightarrow> f64" where
  "f_lit q = f_round q"

lemma f_int_numeral [simp]: "f_int 0 = Fin 0" "f_int 1 = Fin 1"
    "numeral n \<le> (2 :: int) ^ 53 \<Longrightarrow> f_int (numeral n) = Fin (numeral n)"
  using f_int_small [of 0] f_int_small [of 1] f_int_small [of "numeral n"] by simp_all

lemma f_add_fin: "\<bar>x + y\<bar> \<le> 2 ^ 53 \<Longrightarrow> f_add (Fin x) (Fin y) = Fin (round64 (x + y))"
  and f_sub_fin: "\<bar>x - y\<bar> \<le> 2 ^ 53 \<Longrightarrow> f_sub (Fin x) (Fin y) = Fin (round64 (x - y))"
  and f_mul_fin: "\<bar>x * y\<bar> \<le> 2 ^ 53 \<Longrightarrow> f_mul (Fin x) (Fin y) = Fin (round64 (x * y))"
  and f_div_fin: "y \<noteq> 0 \<Longrightarrow> \<bar>x / y\<bar> \<le> 2 ^ 53 \<Longrightarrow> f_div (Fin x) (Fin y) = Fin (round64 (x / y))"
  by (simp_all add: f_round_fin f_sub_def)

text \<open>
  A percentage: a finite value between 0 and 100. Ratios of percentages, sums of weighted ones and
  the like stay in range because rounding is monotone and exact on the ends of the range.
\<close>

abbreviation percent :: "f64 \<Rightarrow> bool" where "percent \<equiv> f_between 0 100"

lemma f_between_Fin [simp]: "f_between a b (Fin x) \<longleftrightarrow> of_int a \<le> x \<and> x \<le> of_int b"
  by (simp add: f_between_def)

lemma percent_not_nan: "percent v \<Longrightarrow> v \<noteq> FNaN"
  by (auto simp: f_between_def)

lemma f_le_Fin [simp]: "f_le (Fin x) (Fin y) \<longleftrightarrow> x \<le> y"
  by (auto simp: f_le_def)

lemma f_le_refl: "x \<noteq> FNaN \<Longrightarrow> f_le x x"
  by (simp add: f_le_def)

lemma f_le_trans: "f_le x y \<Longrightarrow> f_le y z \<Longrightarrow> f_le x z"
  by (cases x; cases y; cases z) (auto simp: f_le_def)

lemma f_not_lt: "x \<noteq> FNaN \<Longrightarrow> y \<noteq> FNaN \<Longrightarrow> \<not> f_lt x y \<longleftrightarrow> f_le y x"
  by (cases x; cases y) (auto simp: f_le_def)

lemma f_lt_irrefl [simp]: "\<not> f_lt x x"
  by (cases x) auto

lemma f_lt_asym: "f_lt x y \<Longrightarrow> \<not> f_lt y x"
  by (cases x; cases y) auto

lemma f_lt_negtrans: "y \<noteq> FNaN \<Longrightarrow> \<not> f_lt x y \<Longrightarrow> \<not> f_lt y z \<Longrightarrow> \<not> f_lt x z"
  by (cases x; cases y; cases z) auto

lemma f_add_mono:
  assumes "f_between a b x" "f_between a b x'" "f_between c d y" "f_between c d y'" "f_le x x'" "f_le y y'"
    and "\<bar>a + c\<bar> \<le> 2 ^ 53" "\<bar>b + d\<bar> \<le> 2 ^ 53"
  shows "f_le (f_add x y) (f_add x' y')"
proof -
  obtain u u' v v' where v: "x = Fin u" "x' = Fin u'" "y = Fin v" "y' = Fin v'"
    using assms(1-4) by (metis f_betweenE)
  have "- (2 ^ 53) \<le> (of_int (a + c) :: rat)" and "of_int (b + d) \<le> (2 ^ 53 :: rat)"
    using assms(7,8) by (metis abs_le_iff minus_le_iff of_int_le_iff of_int_minus of_int_numeral of_int_power)+
  then have "\<bar>u + v\<bar> \<le> 2 ^ 53" and "\<bar>u' + v'\<bar> \<le> 2 ^ 53"
    using assms(1-4) v by (auto simp: abs_le_iff)
  then show ?thesis using assms(5,6) v by (simp only: f_add_fin f_le_Fin) (auto intro!: round64_mono add_mono)
qed

lemma f_mul_mono:
  assumes "percent x" "percent x'" "f_between 0 100 (Fin q)" "f_le x x'"
  shows "f_le (f_mul x (Fin q)) (f_mul x' (Fin q))"
proof -
  obtain u u' where v: "x = Fin u" "x' = Fin u'" using assms(1,2) by (metis f_betweenE)
  have b: "\<bar>w * q\<bar> \<le> 2 ^ 53" if "0 \<le> w" "w \<le> 100" for w
  proof -
    have "w * q \<le> 100 * 100" using that assms(3) by (intro mult_mono) auto
    moreover have "0 \<le> w * q" using that assms(3) by simp
    ultimately show ?thesis by simp
  qed
  have "u * q \<le> u' * q" using assms(3,4) v by (intro mult_right_mono) auto
  then show ?thesis using v b [of u] b [of u'] assms(1,2) by (simp add: f_round_fin round64_mono)
qed

text \<open>Arithmetic on small integers is exact.\<close>

lemma f_add_int: "\<bar>a + b\<bar> \<le> 2 ^ 53 \<Longrightarrow> f_add (Fin (of_int a)) (Fin (of_int b)) = Fin (of_int (a + b))"
  and f_sub_int: "\<bar>a - b\<bar> \<le> 2 ^ 53 \<Longrightarrow> f_sub (Fin (of_int a)) (Fin (of_int b)) = Fin (of_int (a - b))"
  and f_mul_int: "\<bar>a * b\<bar> \<le> 2 ^ 53 \<Longrightarrow> f_mul (Fin (of_int a)) (Fin (of_int b)) = Fin (of_int (a * b))"
  using f_int_small [of "a + b"] f_int_small [of "a - b"] f_int_small [of "a * b"]
  by (simp_all add: f_int_def f_sub_def)

text \<open>Evaluating a rounding by hand: the result is the nearest multiple of the last place.\<close>

lemma rne_near: "\<bar>y - of_int n\<bar> < 1 / 2 \<Longrightarrow> rne y = n"
proof -
  assume a: "\<bar>y - of_int n\<bar> < 1 / 2"
  show ?thesis
  proof (cases "of_int n \<le> y")
    case True
    then have "\<lfloor>y\<rfloor> = n" using a by (intro floor_unique) auto
    with a True show ?thesis by (simp add: rne_def Let_def)
  next
    case False
    then have "\<lfloor>y\<rfloor> = n - 1" using a by (intro floor_unique) auto
    with a False show ?thesis by (simp add: rne_def Let_def)
  qed
qed

lemma round64_near:
  assumes "2 powi e \<le> x" and "x < 2 powi (e + 1)" and "- 1022 \<le> e"
    and "\<bar>x / 2 powi (e - 52) - of_int n\<bar> < 1 / 2"
  shows "round64 x = of_int n * 2 powi (e - 52)"
  using round64_eval [OF assms(1-3)] rne_near [OF assms(4)] by simp

section \<open>Conversions\<close>

text \<open>\<open>int64(f)\<close> truncates; \<open>wild\<close> is what the machine gives for a float out of range.\<close>

definition f_to_i64 :: "(f64 \<Rightarrow> int) \<Rightarrow> f64 \<Rightarrow> int" where
  "f_to_i64 wild f = (case f of Fin r \<Rightarrow>
       (let t = (if r < 0 then - \<lfloor>- r\<rfloor> else \<lfloor>r\<rfloor>) in if in_i64 t then t else wild f)
     | _ \<Rightarrow> wild f)"

lemma f_to_i64_int: "in_i64 n \<Longrightarrow> f_to_i64 wild (Fin (of_int n)) = n"
proof -
  assume n: "in_i64 n"
  have "(if (of_int n :: rat) < 0 then - \<lfloor>- of_int n :: rat\<rfloor> else \<lfloor>of_int n :: rat\<rfloor>) = n"
    by (metis add.inverse_inverse floor_of_int of_int_minus)
  with n show ?thesis by (simp add: f_to_i64_def Let_def)
qed

lemma f_to_i64_between:
  assumes "f_between a b v" and "in_i64 a" and "in_i64 b"
  shows "a \<le> f_to_i64 wild v" and "f_to_i64 wild v \<le> b"
proof -
  obtain x where x: "v = Fin x" "of_int a \<le> x" "x \<le> of_int b" using assms(1) by (rule f_betweenE)
  have 1: "a \<le> \<lfloor>x\<rfloor>" "\<lfloor>x\<rfloor> \<le> b" using x by (simp_all add: le_floor_iff floor_le_iff)
  have 2: "a \<le> - \<lfloor>- x\<rfloor>" "- \<lfloor>- x\<rfloor> \<le> b"
    using x(2,3) by (simp_all add: ceiling_def [symmetric] le_ceiling_iff ceiling_le_iff)
  define t where "t = (if x < 0 then - \<lfloor>- x\<rfloor> else \<lfloor>x\<rfloor>)"
  have t: "a \<le> t" "t \<le> b" using 1 2 by (simp_all add: t_def)
  then have "in_i64 t" using assms(2,3) by (simp add: in_i64_def)
  then have "f_to_i64 wild v = t" by (simp add: f_to_i64_def x(1) t_def)
  with t show "a \<le> f_to_i64 wild v" "f_to_i64 wild v \<le> b" by simp_all
qed

lemma f_mul_between:
  assumes "f_between 0 b u" "f_between 0 d v" "b * d \<le> 2 ^ 53"
  shows "f_between 0 (b * d) (f_mul u v)"
proof -
  obtain x where x: "u = Fin x" "0 \<le> x" "x \<le> of_int b" using assms(1) by (auto elim: f_betweenE)
  obtain y where y: "v = Fin y" "0 \<le> y" "y \<le> of_int d" using assms(2) by (auto elim: f_betweenE)
  have "0 \<le> (of_int b :: rat)" "0 \<le> (of_int d :: rat)" using x y by linarith+
  then have bd: "0 \<le> b * d" by simp
  have "f_between 0 (b * d) (f_round (x * y))"
  proof (rule f_round_between)
    show "x * y \<le> of_int (b * d)" unfolding of_int_mult using x y by (intro mult_mono) linarith+
  qed (use x y bd assms(3) in simp_all)
  with x y show ?thesis by simp
qed

text \<open>\<open>Duration.Seconds()\<close>\<close>

definition duration_seconds :: "duration \<Rightarrow> f64" where
  "duration_seconds d = f_add (f_int (d sdiv go_second)) (f_div (f_int (d smod go_second)) (f_int go_second))"

lemma duration_seconds_between:
  assumes "0 \<le> d" and "d \<le> n * go_second" and "n < 2 ^ 52"
  shows "f_between 0 (n + 1) (duration_seconds d)"
proof -
  have q: "d sdiv go_second = d div go_second" "d smod go_second = d mod go_second"
    using assms(1) by (simp_all add: signed_divide_int_def signed_modulo_int_def go_second_def sgn_if)
  have b: "0 \<le> d div go_second" "d div go_second \<le> n" "0 \<le> d mod go_second" "d mod go_second < go_second"
    using assms(1,2) by (auto simp: go_second_def)
  have i: "f_int k = Fin (of_int k)" if "0 \<le> k" "k \<le> 2 ^ 53" for k using that by (simp add: f_int_small)
  have "f_between 0 1 (f_round (of_int (d mod go_second) / of_int go_second))"
    using b(3,4) by (intro f_round_between) (simp_all add: go_second_def)
  then have "f_between 0 1 (f_div (f_int (d mod go_second)) (f_int go_second))"
    using b(3,4) by (simp add: i go_second_def)
  moreover have "f_between 0 n (f_int (d div go_second))" using b(1,2) assms(3) by (simp add: i)
  ultimately show ?thesis unfolding duration_seconds_def q
    using f_add_between [of 0 n _ 0 1] b(1,2) assms(3) by simp
qed

end
