(* ===== verification/Redis_Api.thy ===== *)
theory Redis_Api
  imports Go_Float
begin

text \<open>
  The interface of the Redis server, which is not part of the repository. A client is a record
  of the commands the code issues; each command is a function of its arguments and of the
  server's state \<open>'r\<close>, and returns a reply or an error together with the next state. Nothing is
  assumed about them here: a theorem that depends on what a command does states it as a
  hypothesis, and every theorem without one holds for any server, failing ones included.

  Also here: the values of Go's type \<open>error\<close>.
\<close>

datatype redis_err = RedisNil | RedisErr string

text \<open>
  \<open>Err m\<close> is \<open>fmt.Errorf(m)\<close> or \<open>errors.New(m)\<close>; \<open>Wrap m e\<close> is \<open>fmt.Errorf(m + ": %w", e)\<close>.
\<close>

datatype go_err = Err string | Wrap string go_err | RErr redis_err

type_synonym ('a, 'r) redis_cmd = "'r \<Rightarrow> (redis_err + 'a) \<times> 'r"

text \<open>The commands the code queues on a pipeline, and the replies \<open>Exec\<close> returns.\<close>

datatype pipe_cmd =
    PZRemRangeByScore string string string
  | PZCard string
  | PZAdd string f64 string
  | PExpire string duration
  | PHIncrBy string string int
  | PSAdd string "string list"
  | PRPush string string
  | PLTrim string int int
  | PSet string string duration
  | PDel string

datatype pipe_reply = RInt int | RBool bool | ROk

record 'r redis =
  cGet :: "string \<Rightarrow> (string, 'r) redis_cmd"
  cSet :: "string \<Rightarrow> string \<Rightarrow> duration \<Rightarrow> (unit, 'r) redis_cmd"
  cSetEX :: "string \<Rightarrow> string \<Rightarrow> duration \<Rightarrow> (unit, 'r) redis_cmd"
  cDel :: "string list \<Rightarrow> (int, 'r) redis_cmd"
  cExists :: "string \<Rightarrow> (int, 'r) redis_cmd"
  cExpire :: "string \<Rightarrow> duration \<Rightarrow> (bool, 'r) redis_cmd"
  cTTL :: "string \<Rightarrow> (duration, 'r) redis_cmd"
  cKeys :: "string \<Rightarrow> (string list, 'r) redis_cmd"
  cIncr :: "string \<Rightarrow> (int, 'r) redis_cmd"
  cDecr :: "string \<Rightarrow> (int, 'r) redis_cmd"
  cSAdd :: "string \<Rightarrow> string \<Rightarrow> (int, 'r) redis_cmd"
  cSRem :: "string \<Rightarrow> string \<Rightarrow> (int, 'r) redis_cmd"
  cSIsMember :: "string \<Rightarrow> string \<Rightarrow> (bool, 'r) redis_cmd"
  cSMembers :: "string \<Rightarrow> (string list, 'r) redis_cmd"
  cHSet :: "string \<Rightarrow> (string \<times> string) list \<Rightarrow> (int, 'r) redis_cmd"
  cHGet :: "string \<Rightarrow> string \<Rightarrow> (string, 'r) redis_cmd"
  cHGetAll :: "string \<Rightarrow> ((string \<times> string) list, 'r) redis_cmd"
  cHLen :: "string \<Rightarrow> (int, 'r) redis_cmd"
  cHExists :: "string \<Rightarrow> string \<Rightarrow> (bool, 'r) redis_cmd"
  cHDel :: "string \<Rightarrow> string \<Rightarrow> (int, 'r) redis_cmd"
  cHIncrBy :: "string \<Rightarrow> string \<Rightarrow> int \<Rightarrow> (int, 'r) redis_cmd"
  cZAdd :: "string \<Rightarrow> f64 \<Rightarrow> string \<Rightarrow> (int, 'r) redis_cmd"
  cZRange :: "string \<Rightarrow> int \<Rightarrow> int \<Rightarrow> (string list, 'r) redis_cmd"
  cZRevRange :: "string \<Rightarrow> int \<Rightarrow> int \<Rightarrow> (string list, 'r) redis_cmd"
  cZScore :: "string \<Rightarrow> string \<Rightarrow> (f64, 'r) redis_cmd"
  cRPush :: "string \<Rightarrow> string \<Rightarrow> (int, 'r) redis_cmd"
  cLTrim :: "string \<Rightarrow> int \<Rightarrow> int \<Rightarrow> (unit, 'r) redis_cmd"
  cLRange :: "string \<Rightarrow> int \<Rightarrow> int \<Rightarrow> (string list, 'r) redis_cmd"
  cLLen :: "string \<Rightarrow> (int, 'r) redis_cmd"
  cIncrBy :: "string \<Rightarrow> int \<Rightarrow> (int, 'r) redis_cmd"
  cPublish :: "string \<Rightarrow> string \<Rightarrow> (int, 'r) redis_cmd"
  cScan :: "string \<Rightarrow> (string list, 'r) redis_cmd"
  cZCard :: "string \<Rightarrow> (int, 'r) redis_cmd"
  cZRemRangeByScore :: "string \<Rightarrow> string \<Rightarrow> string \<Rightarrow> (int, 'r) redis_cmd"
  cExec :: "pipe_cmd list \<Rightarrow> (pipe_reply list, 'r) redis_cmd"

text \<open>\<open>.Err()\<close> of a reply, as the error the code returns.\<close>

fun cmd_err :: "redis_err + 'a \<Rightarrow> go_err option" where
  "cmd_err (Inl e) = Some (RErr e)"
| "cmd_err (Inr x) = None"

text \<open>\<open>.Result()\<close> with the error ignored: the zero value \<open>z\<close> on an error.\<close>

fun reply_or :: "'a \<Rightarrow> redis_err + 'a \<Rightarrow> 'a" where
  "reply_or z (Inl e) = z"
| "reply_or z (Inr x) = x"

text \<open>\<open>.Int64()\<close> of a string reply.\<close>

fun reply_int64 :: "redis_err + string \<Rightarrow> go_err + int" where
  "reply_int64 (Inl e) = Inl (RErr e)"
| "reply_int64 (Inr s) = (case parse_int s of (v, True) \<Rightarrow> Inr v | (v, False) \<Rightarrow> Inl (Err ''strconv.ParseInt''))"

lemma cmd_err_None: "cmd_err x = None \<longleftrightarrow> (\<exists>y. x = Inr y)"
  by (cases x) auto

section \<open>Loops over keys\<close>

text \<open>
  \<open>for _, k := range keys { x, err := f(k); if err != nil { continue }; xs = append(xs, x) }\<close>: one
  command after the other on the server; the results that did not fail, in order.
\<close>

fun each :: "('k \<Rightarrow> 'r \<Rightarrow> 'a option \<times> 'r) \<Rightarrow> 'k list \<Rightarrow> 'r \<Rightarrow> 'a list \<times> 'r" where
  "each f [] st = ([], st)"
| "each f (k # ks) st = (case f k st of (x, st1) \<Rightarrow> (case each f ks st1 of (xs, st2) \<Rightarrow>
     ((case x of None \<Rightarrow> xs | Some y \<Rightarrow> y # xs), st2)))"

lemma each_in:
  "each f ks st = (xs, st') \<Longrightarrow> y \<in> set xs \<Longrightarrow> \<exists>k \<in> set ks. \<exists>st0. fst (f k st0) = Some y"
proof (induction ks arbitrary: st xs st')
  case (Cons k ks)
  obtain x st1 where f: "f k st = (x, st1)" by fastforce
  obtain ys st2 where r: "each f ks st1 = (ys, st2)" by fastforce
  have "xs = (case x of None \<Rightarrow> ys | Some y \<Rightarrow> y # ys)" using Cons.prems(1) f r by (simp split: option.splits)
  with Cons.prems(2) consider "y \<in> set ys" | "x = Some y" by (cases x) auto
  then show ?case
  proof cases
    case 1
    then show ?thesis using Cons.IH [OF r] by auto
  next
    case 2
    then show ?thesis using f by (metis fst_conv list.set_intros(1))
  qed
qed simp

section \<open>Laws a theorem may ask of a server\<close>

text \<open>
  A server that stores hashes: \<open>H s k\<close> is the hash at key \<open>k\<close>. Documented behaviour of HGETALL,
  HSET and EXPIRE, used only as a hypothesis: EXPIRE changes no field, and the key may be gone after it.
\<close>

definition hash_server :: "'r redis \<Rightarrow> ('r \<Rightarrow> string \<Rightarrow> (string \<times> string) list) \<Rightarrow> bool" where
  "hash_server R H \<longleftrightarrow> (\<forall>s k. cHGetAll R k s = (Inr (H s k), s)) \<and>
     (\<forall>s k fs. fs \<noteq> [] \<longrightarrow> (\<exists>m s'. cHSet R k fs s = (Inr m, s') \<and> H s' k \<noteq> [] \<and>
        (\<forall>f. map_of (H s' k) f = (case map_of fs f of Some v \<Rightarrow> Some v | None \<Rightarrow> map_of (H s k) f)) \<and>
        (\<forall>k'. k' \<noteq> k \<longrightarrow> H s' k' = H s k'))) \<and>
     (\<forall>s k d. H (snd (cExpire R k d s)) k = H s k \<or> H (snd (cExpire R k d s)) k = [])"

lemma hash_server_HSet:
  assumes "hash_server R H" and "cHSet R k fs s = (x, s')" and "fs \<noteq> []"
  shows "\<exists>m. x = Inr m" and "H s' k \<noteq> []"
    and "map_of (H s' k) f = (case map_of fs f of Some v \<Rightarrow> Some v | None \<Rightarrow> map_of (H s k) f)"
    and "k' \<noteq> k \<Longrightarrow> H s' k' = H s k'"
proof -
  obtain m t where "cHSet R k fs s = (Inr m, t)" and h: "H t k \<noteq> []"
      "\<forall>f. map_of (H t k) f = (case map_of fs f of Some v \<Rightarrow> Some v | None \<Rightarrow> map_of (H s k) f)"
      "\<forall>k'. k' \<noteq> k \<longrightarrow> H t k' = H s k'"
    using assms(1,3) unfolding hash_server_def by metis
  with assms(2) have "x = Inr m" "t = s'" by simp_all
  with h show "\<exists>m. x = Inr m" "H s' k \<noteq> []"
    "map_of (H s' k) f = (case map_of fs f of Some v \<Rightarrow> Some v | None \<Rightarrow> map_of (H s k) f)"
    "k' \<noteq> k \<Longrightarrow> H s' k' = H s k'" by blast+
qed

text \<open>The text of an error.\<close>

fun err_text :: "go_err \<Rightarrow> string" where
  "err_text (Err m) = m"
| "err_text (Wrap m e) = m @ '': '' @ err_text e"
| "err_text (RErr RedisNil) = ''redis: nil''"
| "err_text (RErr (RedisErr s)) = s"

end
