(* ===== verification/Rate_Limit.thy ===== *)
theory Rate_Limit
  imports Http Redis_Api
begin

text \<open>
  Request rate limiting: the \<open>RateLimiter\<close> interface and its local implementation
  (\<open>gateway/ratelimit.go\<close>), the Redis implementation (\<open>gateway/redis_ratelimit.go\<close>) and the
  tiered limiter that drives either (\<open>gateway/rate_limit_tiers.go\<close>). The interface's contract
  is the locale \<open>rate_limiter\<close>; the tiered limiter's lemmas are proved in it once.
  The concurrent behaviour of the tiered limiter, which changes the shared limit around each
  call, is a step relation over any number of requests in flight.
\<close>

section \<open>The interface\<close>

record 's rateLimiter =
  rl_Allow :: "time \<Rightarrow> string \<Rightarrow> 's \<times> metrics \<Rightarrow> (bool \<times> go_err option) \<times> 's \<times> metrics"
  rl_SetLimit :: "int \<Rightarrow> 's \<Rightarrow> 's"
  rl_GetLimit :: "'s \<Rightarrow> int"
  rl_SetWindow :: "duration \<Rightarrow> 's \<Rightarrow> 's"

text \<open>The client id every middleware of the limiters computes.\<close>

definition rate_client_id :: "http_req \<Rightarrow> string" where
  "rate_client_id r = (let h = auth_header r
     in if h \<noteq> [] then rq_clientIP r @ '':'' @ h else rq_clientIP r)"

section \<open>The local limiter\<close>

record clientRateLimit =
  rc_count :: int
  rc_resetTime :: time

record localLimiter =
  ll_requests :: "string \<rightharpoonup> clientRateLimit"
  ll_limit :: int
  ll_window :: duration

definition NewLocalRateLimiter :: "int \<Rightarrow> int \<Rightarrow> localLimiter" where
  "NewLocalRateLimiter requestsPerWindow windowSeconds =
     \<lparr>ll_requests = Map.empty, ll_limit = requestsPerWindow,
      ll_window = i64 (windowSeconds * go_second)\<rparr>"

text \<open>One tick of the cleanup loop.\<close>

definition local_cleanup :: "time \<Rightarrow> localLimiter \<Rightarrow> localLimiter" where
  "local_cleanup now l = l\<lparr>ll_requests := purge (\<lambda>c. rc_resetTime c < now) (ll_requests l)\<rparr>"

definition local_fresh :: "time \<Rightarrow> string \<Rightarrow> localLimiter \<Rightarrow> localLimiter" where
  "local_fresh now clientID l = l\<lparr>ll_requests := (ll_requests l)(clientID \<mapsto>
     \<lparr>rc_count = 1, rc_resetTime = now + ll_window l\<rparr>)\<rparr>"

definition local_Allow ::
    "time \<Rightarrow> string \<Rightarrow> localLimiter \<times> metrics \<Rightarrow> (bool \<times> go_err option) \<times> localLimiter \<times> metrics" where
  "local_Allow now clientID = (\<lambda>(l, m).
     case ll_requests l clientID of
       None \<Rightarrow> ((True, None), local_fresh now clientID l, m)
     | Some client \<Rightarrow>
         if now > rc_resetTime client then ((True, None), local_fresh now clientID l, m)
         else if rc_count client \<ge> ll_limit l then ((False, None), l, IncRateLimited m)
         else ((True, None),
               l\<lparr>ll_requests := (ll_requests l)(clientID \<mapsto>
                   client\<lparr>rc_count := i64 (rc_count client + 1)\<rparr>)\<rparr>, m))"

definition local_SetLimit :: "int \<Rightarrow> localLimiter \<Rightarrow> localLimiter" where
  "local_SetLimit n l = l\<lparr>ll_limit := n\<rparr>"

definition local_GetLimit :: "localLimiter \<Rightarrow> int" where
  "local_GetLimit l = ll_limit l"

definition local_SetWindow :: "duration \<Rightarrow> localLimiter \<Rightarrow> localLimiter" where
  "local_SetWindow w l = l\<lparr>ll_window := w\<rparr>"

definition local_limiter :: "localLimiter rateLimiter" where
  "local_limiter = \<lparr>rl_Allow = local_Allow, rl_SetLimit = local_SetLimit,
     rl_GetLimit = local_GetLimit, rl_SetWindow = local_SetWindow\<rparr>"

text \<open>The local middleware ignores the error.\<close>

definition local_Middleware ::
    "time \<Rightarrow> http_req \<Rightarrow> localLimiter \<times> metrics \<Rightarrow> outcome \<times> localLimiter \<times> metrics" where
  "local_Middleware now r s =
     (case local_Allow now (rate_client_id r) s of
        ((allowed, _), s') \<Rightarrow>
          (if \<not> allowed then Abort 429 ''Rate limit exceeded'' else Next, s'))"

section \<open>The Redis limiter\<close>

record 'r distLimiter =
  dl_redis :: 'r
  dl_limit :: int
  dl_window :: duration

definition NewDistributedRateLimiter :: "'r \<Rightarrow> int \<Rightarrow> int \<Rightarrow> 'r distLimiter" where
  "NewDistributedRateLimiter st requestsPerWindow windowSeconds =
     \<lparr>dl_redis = st, dl_limit = requestsPerWindow, dl_window = i64 (windowSeconds * go_second)\<rparr>"

text \<open>The commands one call queues, in order.\<close>

definition dist_pipe :: "time \<Rightarrow> string \<Rightarrow> duration \<Rightarrow> pipe_cmd list" where
  "dist_pipe now key window =
     [PZRemRangeByScore key ''0'' (show_int (now + i64 (- window))),
      PZCard key,
      PZAdd key (f_int now) (show_int now),
      PExpire key (i64 (window + go_second))]"

text \<open>
  \<open>results[1].(*redis.IntCmd).Val()\<close>: a missing reply or one of another type would panic, which
  is \<open>None\<close> here.
\<close>

definition dist_count :: "pipe_reply list \<Rightarrow> int option" where
  "dist_count results = (if 1 < length results
     then (case results ! 1 of RInt n \<Rightarrow> Some n | _ \<Rightarrow> None) else None)"

definition dist_Allow ::
    "'r redis \<Rightarrow> time \<Rightarrow> string \<Rightarrow> 'r distLimiter \<times> metrics
      \<Rightarrow> (bool \<times> go_err option) \<times> 'r distLimiter \<times> metrics" where
  "dist_Allow R now clientID = (\<lambda>(d, m).
     let key = ''ratelimit:'' @ clientID;
         (res, st) = cExec R (dist_pipe now key (dl_window d)) (dl_redis d);
         d' = d\<lparr>dl_redis := st\<rparr>
     in case res of
          Inl e \<Rightarrow> ((True, Some (RErr e)), d', m)
        | Inr results \<Rightarrow>
            (case dist_count results of
               None \<Rightarrow> ((False, Some (Err ''panic'')), d', m)
             | Some n \<Rightarrow> ((n < dl_limit d, None), d', m)))"

definition dist_SetLimit :: "int \<Rightarrow> 'r distLimiter \<Rightarrow> 'r distLimiter" where
  "dist_SetLimit n d = d\<lparr>dl_limit := n\<rparr>"

definition dist_GetLimit :: "'r distLimiter \<Rightarrow> int" where
  "dist_GetLimit d = dl_limit d"

definition dist_SetWindow :: "duration \<Rightarrow> 'r distLimiter \<Rightarrow> 'r distLimiter" where
  "dist_SetWindow w d = d\<lparr>dl_window := w\<rparr>"

definition dist_limiter :: "'r redis \<Rightarrow> 'r distLimiter rateLimiter" where
  "dist_limiter R = \<lparr>rl_Allow = dist_Allow R, rl_SetLimit = dist_SetLimit,
     rl_GetLimit = dist_GetLimit, rl_SetWindow = dist_SetWindow\<rparr>"

definition dist_Middleware ::
    "'r redis \<Rightarrow> time \<Rightarrow> http_req \<Rightarrow> 'r distLimiter \<times> metrics
      \<Rightarrow> outcome \<times> 'r distLimiter \<times> metrics" where
  "dist_Middleware R now r s =
     (case dist_Allow R now (rate_client_id r) s of
        ((allowed, err), (d, m)) \<Rightarrow>
          if err \<noteq> None then (Next, (d, m))
          else if \<not> allowed then (Abort 429 ''Rate limit exceeded'', (d, IncRateLimited m))
          else (Next, (d, m)))"

section \<open>Tiers\<close>

record rateLimitTier =
  tier_Name :: string
  tier_Requests :: int
  tier_WindowSec :: int

type_synonym tierTable = "string \<rightharpoonup> rateLimitTier"

definition mk_tier :: "string \<Rightarrow> int \<Rightarrow> int \<Rightarrow> rateLimitTier" where
  "mk_tier n r w = \<lparr>tier_Name = n, tier_Requests = r, tier_WindowSec = w\<rparr>"

definition NewRateLimitTiers :: tierTable where
  "NewRateLimitTiers = [''free'' \<mapsto> mk_tier ''free'' 10 60, ''basic'' \<mapsto> mk_tier ''basic'' 100 60,
     ''premium'' \<mapsto> mk_tier ''premium'' 1000 60, ''enterprise'' \<mapsto> mk_tier ''enterprise'' 10000 60]"

definition GetTier :: "tierTable \<Rightarrow> string \<Rightarrow> rateLimitTier" where
  "GetTier tiers tierName = (case tiers tierName of Some tier \<Rightarrow> tier
     | None \<Rightarrow> (case tiers ''free'' of Some tier \<Rightarrow> tier | None \<Rightarrow> mk_tier '''' 0 0))"

text \<open>The Redis handle is \<open>None\<close> where the code's pointer is nil.\<close>

definition GetTierForKey :: "'r redis option \<Rightarrow> string \<Rightarrow> 'r \<Rightarrow> string \<times> 'r" where
  "GetTierForKey h apiKey st = (case h of
       None \<Rightarrow> (''basic'', st)
     | Some R \<Rightarrow>
         if apiKey = '''' then (''basic'', st)
         else case cGet R (''key:tier:'' @ apiKey) st of
             (Inl _, st') \<Rightarrow> (''basic'', st')
           | (Inr tier, st') \<Rightarrow> (if tier = '''' then ''basic'' else tier, st'))"

definition SetKeyTier :: "'r redis option \<Rightarrow> string \<Rightarrow> string \<Rightarrow> 'r \<Rightarrow> go_err option \<times> 'r" where
  "SetKeyTier h apiKey tier st = (case h of
       None \<Rightarrow> (None, st)
     | Some R \<Rightarrow> (case cSet R (''key:tier:'' @ apiKey) tier 0 st of (res, st') \<Rightarrow> (cmd_err res, st')))"

definition ListTiers :: "string list \<Rightarrow> tierTable \<Rightarrow> rateLimitTier list" where
  "ListTiers order tiers = List.map_filter tiers order"

section \<open>The tiered limiter\<close>

record ('r, 's) tieredLimiter =
  tl_limiter :: 's
  tl_tiers :: tierTable
  tl_redis :: 'r

definition tiered_Allow ::
    "'s rateLimiter \<Rightarrow> 'r redis option \<Rightarrow> time \<Rightarrow> string \<Rightarrow> string
      \<Rightarrow> ('r, 's) tieredLimiter \<times> metrics
      \<Rightarrow> (bool \<times> go_err option) \<times> ('r, 's) tieredLimiter \<times> metrics" where
  "tiered_Allow L h now clientID apiKey = (\<lambda>(t, m).
     let (tierName, st) = GetTierForKey h apiKey (tl_redis t);
         tier = GetTier (tl_tiers t) tierName;
         originalLimit = rl_GetLimit L (tl_limiter t);
         s1 = rl_SetLimit L (tier_Requests tier) (tl_limiter t);
         (res, s2, m') = rl_Allow L now clientID (s1, m);
         s3 = rl_SetLimit L originalLimit s2
     in (res, t\<lparr>tl_limiter := s3, tl_redis := st\<rparr>, m'))"

definition tiered_Middleware ::
    "'s rateLimiter \<Rightarrow> 'r redis option \<Rightarrow> time \<Rightarrow> http_req
      \<Rightarrow> ('r, 's) tieredLimiter \<times> metrics \<Rightarrow> outcome \<times> ('r, 's) tieredLimiter \<times> metrics" where
  "tiered_Middleware L h now r s =
     (case tiered_Allow L h now (rate_client_id r) (auth_header r) s of
        ((allowed, err), (t, m)) \<Rightarrow>
          if err \<noteq> None then (Next, (t, m))
          else if \<not> allowed then (Abort 429 ''Rate limit exceeded'', (t, IncRateLimited m))
          else (Next, (t, m)))"

section \<open>The contract of the interface\<close>

text \<open>
  What a client of the interface may rely on: the limit read back is the limit set, setting the
  limit twice keeps the last, and a call leaves the limit alone.
\<close>

locale rate_limiter =
  fixes L :: "'s rateLimiter"
  assumes get_set: "rl_GetLimit L (rl_SetLimit L n s) = n"
    and set_set: "rl_SetLimit L n (rl_SetLimit L k s) = rl_SetLimit L n s"
    and set_get: "rl_SetLimit L (rl_GetLimit L s) s = s"
    and get_Allow: "rl_GetLimit L (fst (snd (rl_Allow L now c (s, m)))) = rl_GetLimit L s"
    and get_SetWindow: "rl_GetLimit L (rl_SetWindow L w s) = rl_GetLimit L s"
begin

lemma tiered_restores:
  "rl_GetLimit L (tl_limiter (fst (snd (tiered_Allow L h now c k (t, m))))) = rl_GetLimit L (tl_limiter t)"
  by (simp add: tiered_Allow_def get_set Let_def split: prod.splits)

text \<open>The answer is the one the limiter gives under the tier's own limit.\<close>

lemma tiered_answer:
  "fst (tiered_Allow L h now c k (t, m)) =
    fst (rl_Allow L now c (rl_SetLimit L (tier_Requests (GetTier (tl_tiers t)
      (fst (GetTierForKey h k (tl_redis t))))) (tl_limiter t), m))"
  by (simp add: tiered_Allow_def Let_def split: prod.splits)

lemma tiered_state:
  assumes "GetTierForKey h k (tl_redis t) = (tn, st)"
    and "tier_Requests (GetTier (tl_tiers t) tn) = n"
    and "rl_Allow L now c (rl_SetLimit L n (tl_limiter t), m) = (res, s', m')"
  shows "tiered_Allow L h now c k (t, m) =
    (res, t\<lparr>tl_limiter := rl_SetLimit L (rl_GetLimit L (tl_limiter t)) s', tl_redis := st\<rparr>, m')"
  using assms by (simp add: tiered_Allow_def Let_def)

end

lemmas local_defs = local_limiter_def local_Allow_def local_fresh_def local_SetLimit_def
  local_GetLimit_def local_SetWindow_def

lemmas dist_defs = dist_limiter_def dist_Allow_def dist_SetLimit_def dist_GetLimit_def
  dist_SetWindow_def

lemma local_Allow_limit: "ll_limit (fst (snd (local_Allow now c (l, m)))) = ll_limit l"
  by (simp add: local_Allow_def local_fresh_def split: option.splits)

lemma dist_Allow_limit: "dl_limit (fst (snd (dist_Allow R now c (d, m)))) = dl_limit d"
  by (simp add: dist_Allow_def Let_def split: prod.splits sum.splits option.splits)

interpretation local_rl: rate_limiter local_limiter
  by unfold_locales (simp_all add: local_limiter_def local_SetLimit_def local_GetLimit_def
      local_SetWindow_def local_Allow_limit)

interpretation dist_rl: rate_limiter "dist_limiter R" for R
  by unfold_locales (simp_all add: dist_limiter_def dist_SetLimit_def dist_GetLimit_def
      dist_SetWindow_def dist_Allow_limit)

interpretation local_expiry: expiring "\<lambda>t c. rc_resetTime c < t" "\<lambda>t c. rc_resetTime c < t"
  by unfold_locales simp

section \<open>How many requests the local limiter lets through\<close>

text \<open>The number of requests of client \<open>c\<close> allowed in a run of arrivals \<open>(time, client)\<close>.\<close>

fun allowed_count :: "string \<Rightarrow> (time \<times> string) list \<Rightarrow> localLimiter \<times> metrics \<Rightarrow> nat" where
  "allowed_count c [] s = 0"
| "allowed_count c ((t, d) # es) s =
     (let (res, s') = local_Allow t d s
      in (if fst res \<and> d = c then 1 else 0) + allowed_count c es s')"

fun arrivals :: "string \<Rightarrow> (time \<times> string) list \<Rightarrow> nat" where
  "arrivals c [] = 0"
| "arrivals c ((t, d) # es) = (if d = c then 1 else 0) + arrivals c es"

definition local_wf :: "localLimiter \<Rightarrow> bool" where
  "local_wf l \<longleftrightarrow> in_i64 (ll_limit l) \<and> (\<forall>c e. ll_requests l c = Some e \<longrightarrow> 1 \<le> rc_count e)"

lemma local_wf_count: "local_wf l \<Longrightarrow> ll_requests l c = Some e \<Longrightarrow> 1 \<le> rc_count e \<and> 0 \<le> rc_count e"
  by (fastforce simp: local_wf_def)

lemma local_Allow_other:
  assumes "d \<noteq> c" and "local_Allow t d (l, m) = (res, l', m')"
  shows "ll_requests l' c = ll_requests l c"
  using assms by (auto simp: local_Allow_def local_fresh_def split: option.splits if_splits)

lemma local_Allow_frame:
  assumes "local_Allow t d (l, m) = (res, l', m')"
  shows "ll_limit l' = ll_limit l" and "ll_window l' = ll_window l"
  using assms by (auto simp: local_Allow_def local_fresh_def split: option.splits if_splits)

lemma local_wf_Allow:
  assumes "local_wf l" and "local_Allow t d (l, m) = (res, l', m')"
  shows "local_wf l'"
proof -
  have "1 \<le> i64 (rc_count e + 1)" if "ll_requests l d = Some e" "rc_count e < ll_limit l" for e
  proof -
    have "1 \<le> rc_count e \<and> 0 \<le> rc_count e" using local_wf_count [OF assms(1) that(1)] .
    then show ?thesis using that assms(1) i64_succ [of "ll_limit l" "rc_count e"]
      by (simp add: local_wf_def)
  qed
  with assms show ?thesis
    by (auto simp: local_wf_def local_Allow_def local_fresh_def split: option.splits if_splits)
qed

text \<open>The three ways a call of the client itself can go.\<close>

lemma local_Allow_new:
  assumes "ll_requests l c = None \<or> (\<exists>e. ll_requests l c = Some e \<and> rc_resetTime e < t)"
  shows "local_Allow t c (l, m) = ((True, None), local_fresh t c l, m)"
  using assms by (auto simp: local_Allow_def)

lemma local_Allow_open:
  assumes "ll_requests l c = Some e" and "t \<le> rc_resetTime e" and "rc_count e < ll_limit l"
    and "local_wf l"
  shows "local_Allow t c (l, m) = ((True, None),
    l\<lparr>ll_requests := (ll_requests l)(c \<mapsto> e\<lparr>rc_count := rc_count e + 1\<rparr>)\<rparr>, m)"
proof -
  have "1 \<le> rc_count e \<and> 0 \<le> rc_count e" using local_wf_count [OF assms(4,1)] .
  then have "i64 (rc_count e + 1) = rc_count e + 1"
    using assms by (intro i64_succ [of "ll_limit l"]) (simp_all add: local_wf_def)
  with assms show ?thesis by (simp add: local_Allow_def)
qed

lemma local_Allow_full:
  assumes "ll_requests l c = Some e" and "t \<le> rc_resetTime e" and "ll_limit l \<le> rc_count e"
  shows "local_Allow t c (l, m) = ((False, None), l, IncRateLimited m)"
  using assms by (simp add: local_Allow_def)

text \<open>Inside a window already open, what is left of the limit is allowed, no more and no less.\<close>

lemma allowed_in_window:
  assumes "local_wf l" and "ll_requests l c = Some e" and "\<forall>(t, d) \<in> set es. t \<le> rc_resetTime e"
  shows "allowed_count c es (l, m) = min (arrivals c es) (nat (ll_limit l - rc_count e))"
  using assms
proof (induction es arbitrary: l m e)
  case Nil
  then show ?case by simp
next
  case (Cons x es)
  obtain t d where x: "x = (t, d)" by (cases x)
  obtain res l' m' where al: "local_Allow t d (l, m) = (res, l', m')" by (cases "local_Allow t d (l, m)")
  note wf' = local_wf_Allow [OF Cons.prems(1) al]
  note fr = local_Allow_frame [OF al]
  have t: "t \<le> rc_resetTime e" and ts: "\<forall>(t, d) \<in> set es. t \<le> rc_resetTime e"
    using Cons.prems(3) x by auto
  consider (other) "d \<noteq> c" | (room) "d = c" "rc_count e < ll_limit l"
    | (full) "d = c" "ll_limit l \<le> rc_count e" by linarith
  then show ?case
  proof cases
    case other
    have "ll_requests l' c = Some e" using local_Allow_other [OF other al] Cons.prems(2) by simp
    from Cons.IH [OF wf' this ts] show ?thesis using x al other fr by simp
  next
    case room
    note al' = local_Allow_open [OF Cons.prems(2) t room(2) Cons.prems(1), of m]
    let ?e = "e\<lparr>rc_count := rc_count e + 1\<rparr>"
    have "ll_requests l' c = Some ?e" and "fst res" and "m' = m" using al al' room by auto
    moreover have "\<forall>(t, d) \<in> set es. t \<le> rc_resetTime ?e" using ts by simp
    ultimately show ?thesis using Cons.IH [OF wf', of ?e m'] x al room fr by auto
  next
    case full
    note al' = local_Allow_full [OF Cons.prems(2) t full(2), of m]
    then show ?thesis using Cons.IH [OF Cons.prems(1,2) ts] x al full by auto
  qed
qed

text \<open>A window that opens during the run lasts at least to the end of it.\<close>

lemma allowed_from_closed:
  assumes "local_wf l"
    and "ll_requests l c = None \<or> (\<exists>e. ll_requests l c = Some e \<and> (\<forall>(t, d) \<in> set es. rc_resetTime e < t))"
    and "\<forall>(t, d) \<in> set es. t0 \<le> t \<and> t \<le> t0 + ll_window l"
  shows "allowed_count c es (l, m) = min (arrivals c es) (nat (max 1 (ll_limit l)))"
  using assms
proof (induction es arbitrary: l m)
  case Nil
  then show ?case by simp
next
  case (Cons x es)
  obtain t d where x: "x = (t, d)" by (cases x)
  obtain res l' m' where al: "local_Allow t d (l, m) = (res, l', m')" by (cases "local_Allow t d (l, m)")
  note wf' = local_wf_Allow [OF Cons.prems(1) al]
  note fr = local_Allow_frame [OF al]
  show ?case
  proof (cases "d = c")
    case False
    have "ll_requests l' c = ll_requests l c" using local_Allow_other [OF False al] .
    then show ?thesis using Cons.IH [OF wf', of m'] Cons.prems x al False fr by auto
  next
    case True
    have "ll_requests l c = None \<or> (\<exists>e. ll_requests l c = Some e \<and> rc_resetTime e < t)"
      using Cons.prems(2) x by auto
    then have al': "local_Allow t c (l, m) = ((True, None), local_fresh t c l, m)"
      by (rule local_Allow_new)
    define e where "e = \<lparr>rc_count = 1, rc_resetTime = t + ll_window l\<rparr>"
    have l': "l' = local_fresh t c l" "fst res" "m' = m" using al al' True by auto
    then have e: "ll_requests l' c = Some e" by (simp add: local_fresh_def e_def)
    have "\<forall>(t', d) \<in> set es. t' \<le> rc_resetTime e"
      using Cons.prems(3) x by (fastforce simp: e_def)
    from allowed_in_window [OF wf' e this, of m'] show ?thesis
      using x al True l' fr by (auto simp: e_def)
  qed
qed

text \<open>Whatever the state, a run no longer than the window meets at most one window change.\<close>

definition room_left :: "string \<Rightarrow> localLimiter \<Rightarrow> nat" where
  "room_left c l = (case ll_requests l c of None \<Rightarrow> 0 | Some e \<Rightarrow> nat (ll_limit l - rc_count e))"

lemma room_left_le: "local_wf l \<Longrightarrow> room_left c l \<le> nat (max 1 (ll_limit l))"
  by (auto simp: room_left_def local_wf_def split: option.splits)
     (smt (verit) nat_le_eq_zle nat_mono)

lemma allowed_room:
  assumes "local_wf l" and "sorted (map fst es)"
    and "\<forall>(t, d) \<in> set es. t0 \<le> t \<and> t \<le> t0 + ll_window l"
  shows "allowed_count c es (l, m) \<le> room_left c l + nat (max 1 (ll_limit l))"
  using assms
proof (induction es arbitrary: l m)
  case Nil
  then show ?case by simp
next
  case (Cons x es)
  obtain t d where x: "x = (t, d)" by (cases x)
  obtain res l' m' where al: "local_Allow t d (l, m) = (res, l', m')" by (cases "local_Allow t d (l, m)")
  note wf' = local_wf_Allow [OF Cons.prems(1) al]
  note fr = local_Allow_frame [OF al]
  have sorted': "sorted (map fst es)" and later: "\<forall>(t', d) \<in> set es. t \<le> t'"
    using Cons.prems(2) x by auto
  have ts: "\<forall>(t, d) \<in> set es. t0 \<le> t \<and> t \<le> t0 + ll_window l'" using Cons.prems(3) fr by simp
  note IH = Cons.IH [OF wf' sorted' ts, of m']
  consider (other) "d \<noteq> c"
    | (closed) "d = c" "ll_requests l c = None \<or> (\<exists>e. ll_requests l c = Some e \<and> rc_resetTime e < t)"
    | (room) e where "d = c" "ll_requests l c = Some e" "t \<le> rc_resetTime e" "rc_count e < ll_limit l"
    | (full) e where "d = c" "ll_requests l c = Some e" "t \<le> rc_resetTime e" "ll_limit l \<le> rc_count e"
    by (metis linorder_not_less not_None_eq)
  then show ?case
  proof cases
    case other
    have "room_left c l' = room_left c l"
      using local_Allow_other [OF other al] fr by (simp add: room_left_def split: option.splits)
    then show ?thesis using IH x al other fr by simp
  next
    case closed
    have "ll_requests l c = None \<or> (\<exists>e. ll_requests l c = Some e \<and> (\<forall>(t, d) \<in> set (x # es). rc_resetTime e < t))"
      using closed(2) later x by fastforce
    then have "allowed_count c (x # es) (l, m) = min (arrivals c (x # es)) (nat (max 1 (ll_limit l)))"
      using allowed_from_closed [OF Cons.prems(1) _ Cons.prems(3)] by blast
    then show ?thesis by linarith
  next
    case room
    note al' = local_Allow_open [OF room(2,3,4) Cons.prems(1), of m]
    have "room_left c l = Suc (room_left c l')"
      using al al' room by (auto simp: room_left_def nat_diff_distrib)
    then show ?thesis using IH x al al' room(1) fr by auto
  next
    case full
    note al' = local_Allow_full [OF full(2,3,4), of m]
    then show ?thesis using IH x al full(1) by auto
  qed
qed

section \<open>Requests in flight on the tiered limiter\<close>

text \<open>
  \<open>tiered_Allow\<close> is four accesses to the shared limiter, none of which is atomic with the next:
  read the limit, set the tier's, ask, put the old limit back. Any number of requests may be in
  flight; \<open>ts_pc i\<close> is how far request \<open>i\<close> has come, with the limit it read.
\<close>

datatype tpc = TIdle | TGot int | TSet int | TAsked int bool | TDone bool

record tsys =
  ts_lim :: localLimiter
  ts_metrics :: metrics
  ts_pc :: "nat \<Rightarrow> tpc"

definition tiered_start :: "localLimiter \<Rightarrow> tsys" where
  "tiered_start l = \<lparr>ts_lim = l, ts_metrics = metrics_zero, ts_pc = (\<lambda>_. TIdle)\<rparr>"

definition tiered_at :: "nat \<Rightarrow> tpc \<Rightarrow> tsys \<Rightarrow> tsys" where
  "tiered_at i p s = s\<lparr>ts_pc := (ts_pc s)(i := p)\<rparr>"

text \<open>Request \<open>i\<close> comes from \<open>client i\<close>, whose tier allows \<open>tier i\<close> requests.\<close>

inductive tiered_step :: "(nat \<Rightarrow> string) \<Rightarrow> (nat \<Rightarrow> int) \<Rightarrow> tsys \<Rightarrow> tsys \<Rightarrow> bool"
  for client tier where
  get_limit: "ts_pc s i = TIdle \<Longrightarrow>
    tiered_step client tier s (tiered_at i (TGot (local_GetLimit (ts_lim s))) s)"
| set_tier: "ts_pc s i = TGot n \<Longrightarrow>
    tiered_step client tier s (tiered_at i (TSet n) (s\<lparr>ts_lim := local_SetLimit (tier i) (ts_lim s)\<rparr>))"
| ask: "ts_pc s i = TSet n \<Longrightarrow>
    local_Allow now (client i) (ts_lim s, ts_metrics s) = ((ok, err), l, m) \<Longrightarrow>
    tiered_step client tier s (tiered_at i (TAsked n ok) (s\<lparr>ts_lim := l, ts_metrics := m\<rparr>))"
| put_back: "ts_pc s i = TAsked n ok \<Longrightarrow>
    tiered_step client tier s (tiered_at i (TDone ok) (s\<lparr>ts_lim := local_SetLimit n (ts_lim s)\<rparr>))"

text \<open>A call alone is the four steps in a row.\<close>

lemma tiered_alone:
  assumes "ts_pc s i = TIdle"
    and "tiered_Allow local_limiter None now (client i) k (\<lparr>tl_limiter = ts_lim s, tl_tiers = tt, tl_redis = ()\<rparr>, ts_metrics s)
      = ((ok, err), t, m)"
    and "tier i = tier_Requests (GetTier tt ''basic'')"
  shows "(tiered_step client tier)\<^sup>*\<^sup>* s (tiered_at i (TDone ok) (s\<lparr>ts_lim := tl_limiter t, ts_metrics := m\<rparr>))"
proof -
  let ?step = "tiered_step client tier"
  define l0 where "l0 = local_SetLimit (tier i) (ts_lim s)"
  obtain ok' err' l' m' where al: "local_Allow now (client i) (l0, ts_metrics s) = ((ok', err'), l', m')"
    by (metis prod.collapse)
  have res: "ok' = ok" "m' = m" "tl_limiter t = local_SetLimit (ll_limit (ts_lim s)) l'"
    using assms(2) al by (auto simp: tiered_Allow_def GetTierForKey_def Let_def local_limiter_def
        l0_def assms(3) local_GetLimit_def)
  define n where "n = local_GetLimit (ts_lim s)"
  define s1 where "s1 = tiered_at i (TGot n) s"
  define s2 where "s2 = tiered_at i (TSet n) (s1\<lparr>ts_lim := l0\<rparr>)"
  define s3 where "s3 = tiered_at i (TAsked n ok) (s2\<lparr>ts_lim := l', ts_metrics := m\<rparr>)"
  define s4 where "s4 = tiered_at i (TDone ok) (s3\<lparr>ts_lim := local_SetLimit n l'\<rparr>)"
  have "?step s s1" unfolding s1_def n_def using assms(1) by (rule get_limit)
  moreover have "?step s1 s2"
    using set_tier [of s1 i n client tier] by (simp add: s2_def s1_def tiered_at_def l0_def)
  moreover have "?step s2 s3"
    using ask [of s2 i n now client ok err' l' m tier] al res
    by (simp add: s3_def s2_def s1_def tiered_at_def)
  moreover have "?step s3 s4" unfolding s4_def
    using put_back [of s3 i n ok client tier] by (simp add: s3_def tiered_at_def)
  moreover have "s4 = tiered_at i (TDone ok) (s\<lparr>ts_lim := tl_limiter t, ts_metrics := m\<rparr>)"
    by (simp add: s4_def s3_def s2_def s1_def tiered_at_def res n_def local_GetLimit_def)
  ultimately show ?thesis using run_through_reaches [of ?step s "[s1, s2, s3, s4]"] by simp
qed

text \<open>Every limit in the system, saved or in force, is the initial one or a tier's.\<close>

fun tpc_orig :: "tpc \<Rightarrow> int option" where
  "tpc_orig (TGot n) = Some n"
| "tpc_orig (TSet n) = Some n"
| "tpc_orig (TAsked n ok) = Some n"
| "tpc_orig pc = None"

definition limits_known :: "int set \<Rightarrow> tsys \<Rightarrow> bool" where
  "limits_known A s \<longleftrightarrow> ll_limit (ts_lim s) \<in> A \<and> (\<forall>i n. tpc_orig (ts_pc s i) = Some n \<longrightarrow> n \<in> A)"

lemma limits_known_step:
  assumes "tiered_step client tier s s'" and "limits_known A s" and "range tier \<subseteq> A"
  shows "limits_known A s'"
  using assms
proof (induction rule: tiered_step.induct)
  case (ask s i n now ok err l m)
  then have "ll_limit l = ll_limit (ts_lim s)" by (rule_tac local_Allow_frame)
  moreover have "n \<in> A" using ask by (auto simp: limits_known_def dest: spec [of _ i])
  ultimately show ?case using ask by (auto simp: limits_known_def tiered_at_def)
next
  case (put_back s i n ok)
  then have "n \<in> A" by (auto simp: limits_known_def dest: spec [of _ i])
  with put_back show ?case by (auto simp: limits_known_def tiered_at_def local_SetLimit_def)
next
  case (set_tier s i n)
  then have "n \<in> A" by (auto simp: limits_known_def dest: spec [of _ i])
  with set_tier show ?case by (auto simp: limits_known_def tiered_at_def local_SetLimit_def)
qed (auto simp: limits_known_def tiered_at_def local_GetLimit_def)

lemma limits_known_steps:
  assumes "(tiered_step client tier)\<^sup>*\<^sup>* s s'" and "limits_known A s" and "range tier \<subseteq> A"
  shows "limits_known A s'"
  using assms by (induction rule: rtranclp_induct) (auto intro: limits_known_step)

section \<open>Properties\<close>

section \<open>Every answer of the local limiter\<close>

fun answers :: "string \<Rightarrow> (time \<times> string) list \<Rightarrow> localLimiter \<times> metrics \<Rightarrow> (bool \<times> go_err option) list" where
  "answers c [] s = []"
| "answers c ((t, d) # es) s =
     (let (res, s') = local_Allow t d s in (if d = c then [res] else []) @ answers c es s')"

definition own_times :: "string \<Rightarrow> (time \<times> string) list \<Rightarrow> time list" where
  "own_times c es = map fst (filter (\<lambda>(t, d). d = c) es)"

lemma own_times_simps [simp]:
  "own_times c [] = []" "own_times c ((t, d) # es) = (if d = c then [t] else []) @ own_times c es"
  by (simp_all add: own_times_def)

text \<open>A client's arrivals cut into windows of length \<open>w\<close>, each opened by its first arrival.\<close>

function windows_of :: "duration \<Rightarrow> time list \<Rightarrow> time list list" where
  "windows_of w [] = []"
| "windows_of w (t # ts) =
     (t # takeWhile (\<lambda>u. u \<le> t + w) ts) # windows_of w (dropWhile (\<lambda>u. u \<le> t + w) ts)"
  by pat_completeness auto
termination
  by (relation "measure (\<lambda>(w, ts). length ts)") (simp_all add: length_dropWhile_le le_imp_less_Suc)

definition win_answers :: "int \<Rightarrow> time list \<Rightarrow> (bool \<times> go_err option) list" where
  "win_answers n w = map (\<lambda>i. (int i < n, None)) [0..<length w]"

lemma win_answers_simps [simp]: "win_answers n [] = []" "win_answers n (t # ts) = (0 < n, None) # win_answers (n - 1) ts"
  by (simp_all add: win_answers_def map_upt_Suc less_diff_eq add.commute del: upt_Suc)

lemma win_answers_none: "n \<le> 0 \<Longrightarrow> k \<le> 0 \<Longrightarrow> win_answers n ts = win_answers k ts"
  by (simp add: win_answers_def)

text \<open>The answers to come, from the client's entry.\<close>

definition answers_in :: "int \<Rightarrow> duration \<Rightarrow> clientRateLimit option \<Rightarrow> time list \<Rightarrow> (bool \<times> go_err option) list" where
  "answers_in most w entry ts = (case entry of
       None \<Rightarrow> concat (map (win_answers (max 1 most)) (windows_of w ts))
     | Some e \<Rightarrow> win_answers (most - rc_count e) (takeWhile (\<lambda>u. u \<le> rc_resetTime e) ts) @
         concat (map (win_answers (max 1 most)) (windows_of w (dropWhile (\<lambda>u. u \<le> rc_resetTime e) ts))))"

lemma answers_in_fresh:
  assumes "entry = None \<or> (\<exists>e. entry = Some e \<and> rc_resetTime e < t)"
  shows "answers_in most w entry (t # ts) = (True, None) # answers_in most w (Some \<lparr>rc_count = 1, rc_resetTime = t + w\<rparr>) ts"
proof -
  have "win_answers (max 1 most - 1) ws = win_answers (most - 1) ws" for ws
    by (cases "1 \<le> most") (simp_all add: win_answers_none)
  with assms show ?thesis by (auto simp: answers_in_def)
qed

lemma answers_eq:
  assumes "local_wf l"
  shows "answers c es (l, m) = answers_in (ll_limit l) (ll_window l) (ll_requests l c) (own_times c es)"
  using assms
proof (induction es arbitrary: l m)
  case Nil
  then show ?case by (simp add: answers_in_def split: option.splits)
next
  case (Cons x es)
  obtain t d where x: "x = (t, d)" by (cases x)
  obtain res l' m' where al: "local_Allow t d (l, m) = (res, l', m')" by (cases "local_Allow t d (l, m)")
  note ih = Cons.IH [OF local_wf_Allow [OF Cons.prems al], of m'] and fr = local_Allow_frame [OF al]
  consider (other) "d \<noteq> c" | (fresh) "d = c" "ll_requests l c = None \<or> (\<exists>e. ll_requests l c = Some e \<and> rc_resetTime e < t)"
    | (room) e where "d = c" "ll_requests l c = Some e" "t \<le> rc_resetTime e" "rc_count e < ll_limit l"
    | (full) e where "d = c" "ll_requests l c = Some e" "t \<le> rc_resetTime e" "ll_limit l \<le> rc_count e"
    by (metis not_less option.exhaust)
  then show ?case
  proof cases
    case other
    then show ?thesis using ih fr al local_Allow_other [OF other al] by (simp add: x)
  next
    case fresh
    then have "res = (True, None)" "ll_requests l' c = Some \<lparr>rc_count = 1, rc_resetTime = t + ll_window l\<rparr>"
      using local_Allow_new [OF fresh(2), of m] al by (auto simp: local_fresh_def)
    then show ?thesis using ih fr al fresh(1) answers_in_fresh [OF fresh(2)] by (simp add: x)
  next
    case room
    then have "res = (True, None)" "ll_requests l' c = Some (e\<lparr>rc_count := rc_count e + 1\<rparr>)"
      using local_Allow_open [OF room(2-4) Cons.prems, of m] al by auto
    then show ?thesis using ih fr al room by (simp add: x answers_in_def algebra_simps)
  next
    case full
    then have "res = (False, None)" "l' = l" using local_Allow_full [OF full(2-4), of m] al by auto
    then show ?thesis using ih al full
      by (simp add: x answers_in_def win_answers_none [of "ll_limit l - rc_count e - 1" "ll_limit l - rc_count e"])
  qed
qed

lemmas rate_eval = local_defs NewLocalRateLimiter_def local_wf_def go_second_def in_i64_def i64_def
  metrics_zero_def

text \<open>C39: Every answer the local limiter gives a client, in any run of arrivals whatever their times and however other
  clients interleave, from any state it can be in (the limit an int, no count below one). The client's own arrivals fall into
  windows: one opens at the first arrival with no open entry and takes in those up to its length later; the next arrival opens
  the next. Each window allows exactly its first \<open>max 1 limit\<close> arrivals and refuses the rest, without an error; a window open at
  the start allows what its entry has left. (A limit of zero or less still lets one through.) Limit and window stay as they are during the run; the
  sweeps change no answer, by \<open>local_cleanup_invisible\<close>.\<close>

theorem local_limiter_exact:
  assumes "local_wf l"
  shows "answers c es (l, m) =
    (let ts = own_times c es;
         served = (\<lambda>n ws. concat (map (\<lambda>w. map (\<lambda>i. (int i < n, None)) [0..<length w]) ws))
     in case ll_requests l c of
          None \<Rightarrow> served (max 1 (ll_limit l)) (windows_of (ll_window l) ts)
        | Some e \<Rightarrow> served (ll_limit l - rc_count e) [takeWhile (\<lambda>u. u \<le> rc_resetTime e) ts] @
            served (max 1 (ll_limit l)) (windows_of (ll_window l) (dropWhile (\<lambda>u. u \<le> rc_resetTime e) ts)))"
  using answers_eq [OF assms, of c es m] by (simp add: answers_in_def win_answers_def [abs_def] Let_def split: option.splits)

theorem local_limiter_exact_witness:
  "answers ''a'' [(5, ''a''), (6, ''b''), (7, ''a''), (65, ''a''), (66, ''a''), (126, ''a'')]
      (\<lparr>ll_requests = Map.empty, ll_limit = 2, ll_window = 60\<rparr>, metrics_zero) =
    [(True, None), (True, None), (False, None), (True, None), (True, None)]"
  by (subst local_limiter_exact) (simp_all add: local_wf_def in_i64_def own_times_def upt_conv_Cons)

text \<open>In any stretch of time no longer than the window, whatever the limiter remembers at its
  start, a client gets at most twice its limit through: a fixed window bounds a burst by a factor
  of two.\<close>

theorem local_limiter_burst:
  assumes "local_wf l" and "sorted (map fst es)"
    and "\<forall>(t, d) \<in> set es. t0 \<le> t \<and> t \<le> t0 + ll_window l"
  shows "allowed_count c es (l, m) \<le> 2 * nat (max 1 (ll_limit l))"
  using allowed_room [OF assms, of c m] room_left_le [OF assms(1), of c] by linarith

theorem local_limiter_burst_witness:
  "allowed_count ''a'' [(9, ''a''), (10, ''a''), (11, ''a''), (12, ''a'')]
    (\<lparr>ll_requests = [''a'' \<mapsto> \<lparr>rc_count = 1, rc_resetTime = 10\<rparr>], ll_limit = 2, ll_window = 10\<rparr>, metrics_zero)
    \<le> 2 * 2"
proof -
  let ?l = "\<lparr>ll_requests = [''a'' \<mapsto> \<lparr>rc_count = 1, rc_resetTime = 10\<rparr>], ll_limit = 2, ll_window = 10\<rparr>"
  have "allowed_count ''a'' [(9, ''a''), (10, ''a''), (11, ''a''), (12, ''a'')] (?l, metrics_zero)
    \<le> 2 * nat (max 1 (ll_limit ?l))"
    by (rule local_limiter_burst [where ?t0.0 = 9]) (simp_all add: rate_eval)
  then show ?thesis by simp
qed

text \<open>The cleanup loop never changes an answer: a call at or after a cleanup gets the answer,
  and leaves the client the entry, it would have without the cleanup.\<close>

theorem local_cleanup_invisible:
  assumes "t \<le> t'"
  shows "fst (local_Allow t' c (local_cleanup t l, m)) = fst (local_Allow t' c (l, m)) \<and>
    ll_requests (fst (snd (local_Allow t' c (local_cleanup t l, m)))) c =
      ll_requests (fst (snd (local_Allow t' c (l, m)))) c"
proof (cases "ll_requests l c")
  case None
  then have "ll_requests (local_cleanup t l) c = None" by (simp add: local_cleanup_def purge_None)
  with None show ?thesis by (simp add: local_Allow_new local_fresh_def) (simp add: local_cleanup_def)
next
  case (Some e)
  show ?thesis
  proof (cases "rc_resetTime e < t'")
    case True
    have "ll_requests (local_cleanup t l) c = None \<or>
        (\<exists>e. ll_requests (local_cleanup t l) c = Some e \<and> rc_resetTime e < t')"
      using Some True by (auto simp: local_cleanup_def purge_def)
    with Some True show ?thesis by (simp add: local_Allow_new local_fresh_def) (simp add: local_cleanup_def)
  next
    case False
    have "purge (\<lambda>c. rc_resetTime c < t) (ll_requests l) c = Some e"
      using assms Some False by (rule local_expiry.lookup_after_sweep)
    with Some show ?thesis by (simp add: local_Allow_def local_fresh_def local_cleanup_def)
  qed
qed

theorem local_cleanup_invisible_witness:
  "fst (local_Allow 20 ''a'' (local_cleanup 15 (\<lparr>ll_requests = [''a'' \<mapsto> \<lparr>rc_count = 3, rc_resetTime = 18\<rparr>],
      ll_limit = 3, ll_window = 10\<rparr>), metrics_zero)) = (True, None)"
  using local_cleanup_invisible [of 15 20 "''a''"
      "\<lparr>ll_requests = [''a'' \<mapsto> \<lparr>rc_count = 3, rc_resetTime = 18\<rparr>], ll_limit = 3, ll_window = 10\<rparr>" metrics_zero]
  by (simp add: local_Allow_def)

text \<open>A tiered call made alone answers as the underlying limiter does under the limit of the
  key's tier, and leaves the limiter's own limit as it found it, for the local limiter and for the
  Redis limiter, whatever the server replies.\<close>

theorem tiered_allow_restores:
  "fst (tiered_Allow local_limiter h now c k (t, m)) =
      fst (local_Allow now c (local_SetLimit (tier_Requests (GetTier (tl_tiers t)
        (fst (GetTierForKey h k (tl_redis t))))) (tl_limiter t), m)) \<and>
    ll_limit (tl_limiter (fst (snd (tiered_Allow local_limiter h now c k (t, m))))) = ll_limit (tl_limiter t) \<and>
    fst (tiered_Allow (dist_limiter R) h now c k (t', m)) =
      fst (dist_Allow R now c (dist_SetLimit (tier_Requests (GetTier (tl_tiers t')
        (fst (GetTierForKey h k (tl_redis t'))))) (tl_limiter t'), m)) \<and>
    dl_limit (tl_limiter (fst (snd (tiered_Allow (dist_limiter R) h now c k (t', m))))) = dl_limit (tl_limiter t')"
  using local_rl.tiered_answer [of h now c k t m] local_rl.tiered_restores [of h now c k t m]
    dist_rl.tiered_answer [of R h now c k t' m] dist_rl.tiered_restores [of R h now c k t' m]
  by (simp add: local_limiter_def local_GetLimit_def dist_limiter_def dist_GetLimit_def)

text \<open>Two tiered calls in flight can lose the limiter's limit: whatever it was, there is an
  execution of both calls to the end that leaves the first caller's tier in its place.\<close>

theorem tiered_race_loses_limit:
  "\<exists>s ok0 ok1. (tiered_step client tier)\<^sup>*\<^sup>* (tiered_start l) s \<and>
    ts_pc s 0 = TDone ok0 \<and> ts_pc s 1 = TDone ok1 \<and> ll_limit (ts_lim s) = tier 0"
proof -
  let ?R = "tiered_step client tier"
  define s1 where "s1 = tiered_at 0 (TGot (ll_limit l)) (tiered_start l)"
  define s2 where "s2 = tiered_at 0 (TSet (ll_limit l)) (s1\<lparr>ts_lim := local_SetLimit (tier 0) l\<rparr>)"
  define s3 where "s3 = tiered_at 1 (TGot (tier 0)) s2"
  define s4 where "s4 = tiered_at 1 (TSet (tier 0)) (s3\<lparr>ts_lim := local_SetLimit (tier 1) (ts_lim s3)\<rparr>)"
  obtain ok0 e0 l5 m5 where a0: "local_Allow 0 (client 0) (ts_lim s4, ts_metrics s4) = ((ok0, e0), l5, m5)"
    by (metis prod.collapse)
  define s5 where "s5 = tiered_at 0 (TAsked (ll_limit l) ok0) (s4\<lparr>ts_lim := l5, ts_metrics := m5\<rparr>)"
  define s6 where "s6 = tiered_at 0 (TDone ok0) (s5\<lparr>ts_lim := local_SetLimit (ll_limit l) l5\<rparr>)"
  obtain ok1 e1 l7 m7 where a1: "local_Allow 0 (client 1) (ts_lim s6, ts_metrics s6) = ((ok1, e1), l7, m7)"
    by (metis prod.collapse)
  define s7 where "s7 = tiered_at 1 (TAsked (tier 0) ok1) (s6\<lparr>ts_lim := l7, ts_metrics := m7\<rparr>)"
  define s8 where "s8 = tiered_at 1 (TDone ok1) (s7\<lparr>ts_lim := local_SetLimit (tier 0) l7\<rparr>)"
  note defs = s1_def s2_def s3_def s4_def s5_def s6_def s7_def s8_def tiered_at_def tiered_start_def
    local_SetLimit_def local_GetLimit_def
  have "?R (tiered_start l) s1" using get_limit [of "tiered_start l" 0 client tier] by (simp add: defs)
  moreover have "?R s1 s2" using set_tier [of s1 0 "ll_limit l" client tier] by (simp add: defs)
  moreover have "?R s2 s3" using get_limit [of s2 1 client tier] by (simp add: defs)
  moreover have "?R s3 s4" using set_tier [of s3 1 "tier 0" client tier] by (simp add: defs)
  moreover have "?R s4 s5" unfolding s5_def using _ a0 by (rule ask) (simp add: defs)
  moreover have "?R s5 s6" using put_back [of s5 0 "ll_limit l" ok0 client tier] by (simp add: defs)
  moreover have "?R s6 s7" unfolding s7_def using _ a1 by (rule ask) (simp add: defs)
  moreover have "?R s7 s8" using put_back [of s7 1 "tier 0" ok1 client tier] by (simp add: defs)
  ultimately have "?R\<^sup>*\<^sup>* (tiered_start l) s8"
    using run_through_reaches [of ?R "tiered_start l" "[s1, s2, s3, s4, s5, s6, s7, s8]"] by simp
  moreover have "ts_pc s8 0 = TDone ok0 \<and> ts_pc s8 1 = TDone ok1 \<and> ll_limit (ts_lim s8) = tier 0"
    by (simp add: defs)
  ultimately show ?thesis by blast
qed

text \<open>However many tiered calls interleave, the limit in force is always the configured one or
  that of some request's tier, never another number.\<close>

theorem tiered_limit_is_known:
  assumes "(tiered_step client tier)\<^sup>*\<^sup>* (tiered_start l) s"
  shows "ll_limit (ts_lim s) \<in> insert (ll_limit l) (range tier)"
proof -
  have "limits_known (insert (ll_limit l) (range tier)) (tiered_start l)"
    by (simp add: limits_known_def tiered_start_def)
  with assms have "limits_known (insert (ll_limit l) (range tier)) s"
    by (rule limits_known_steps) auto
  then show ?thesis by (simp add: limits_known_def)
qed

theorem tiered_limit_is_known_witness:
  "ll_limit (ts_lim (tiered_at 0 (TGot 7) (tiered_start (NewLocalRateLimiter 7 60)))) \<in> insert 7 (range (\<lambda>i. int i))"
proof -
  have "tiered_step (\<lambda>i. ''a'') (\<lambda>i. int i) (tiered_start (NewLocalRateLimiter 7 60))
      (tiered_at 0 (TGot (local_GetLimit (ts_lim (tiered_start (NewLocalRateLimiter 7 60)))))
        (tiered_start (NewLocalRateLimiter 7 60)))"
    by (rule get_limit) (simp add: tiered_start_def)
  then have "(tiered_step (\<lambda>i. ''a'') (\<lambda>i. int i))\<^sup>*\<^sup>* (tiered_start (NewLocalRateLimiter 7 60))
      (tiered_at 0 (TGot 7) (tiered_start (NewLocalRateLimiter 7 60)))"
    by (simp add: tiered_start_def local_GetLimit_def NewLocalRateLimiter_def r_into_rtranclp)
  from tiered_limit_is_known [OF this] show ?thesis by (simp add: NewLocalRateLimiter_def)
qed

text \<open>With the local limiter, a request the tiered middleware refuses is counted twice: the
  rate-limited counter rises by two.\<close>

theorem tiered_rejection_counted_twice:
  assumes "tiered_Middleware local_limiter h now r (t, m) = (Abort code msg, t', m')"
  shows "code = 429 \<and> mt_rateLimited m' = mt_rateLimited m + 2"
  using assms
  by (auto simp: tiered_Middleware_def tiered_Allow_def local_limiter_def local_Allow_def local_SetLimit_def
      Let_def split: prod.splits if_splits option.splits)

theorem tiered_rejection_counted_twice_witness:
  "mt_rateLimited (snd (snd (tiered_Middleware local_limiter (None :: unit redis option) 5
      \<lparr>rq_method = ''GET'', rq_path = ''/'', rq_clientIP = ''1.2.3.4'', rq_header = (\<lambda>_. []),
        rq_query = (\<lambda>_. []), rq_contentLength = 0\<rparr>
      (\<lparr>tl_limiter = \<lparr>ll_requests = [''1.2.3.4'' \<mapsto> \<lparr>rc_count = 100, rc_resetTime = 10\<rparr>], ll_limit = 500, ll_window = 60\<rparr>,
        tl_tiers = NewRateLimitTiers, tl_redis = ()\<rparr>, metrics_zero)))) = 2"
proof -
  let ?r = "\<lparr>rq_method = ''GET'', rq_path = ''/'', rq_clientIP = ''1.2.3.4'', rq_header = (\<lambda>_. []),
        rq_query = (\<lambda>_. []), rq_contentLength = 0\<rparr>"
  let ?t = "\<lparr>tl_limiter = \<lparr>ll_requests = [''1.2.3.4'' \<mapsto> \<lparr>rc_count = 100, rc_resetTime = 10\<rparr>], ll_limit = 500, ll_window = 60\<rparr>,
        tl_tiers = NewRateLimitTiers, tl_redis = ()\<rparr>"
  obtain t' m' where e: "tiered_Middleware local_limiter (None :: unit redis option) 5 ?r (?t, metrics_zero)
      = (Abort 429 ''Rate limit exceeded'', t', m')"
    by (simp add: tiered_Middleware_def tiered_Allow_def local_limiter_def local_Allow_def local_SetLimit_def
        rate_client_id_def auth_header_def GetTierForKey_def GetTier_def NewRateLimitTiers_def mk_tier_def)
  from tiered_rejection_counted_twice [OF e] e show ?thesis by (simp add: metrics_zero_def)
qed

end
