(* ===== verification/Conn_Pool.thy ===== *)
theory Conn_Pool
  imports Redis_Api
begin

text \<open>
  The gateway's connection pool (\<open>gateway/connpool.go\<close>) and the table of pool settings
  (\<open>gateway/pool_config.go\<close>). First each operation as it runs alone; then any number of
  goroutines inside \<open>Get\<close>, \<open>Put\<close> and \<open>Close\<close> as a step relation over the shared pools, whose
  channels, counters and locks are touched one at a time. The invariants are counted over the
  goroutines in flight, by rule induction.

  A connection (\<open>net.Conn\<close>) is an identity; dialling is a parameter. A channel of capacity \<open>n\<close>
  is the list of its elements, at most \<open>n\<close>.
\<close>

type_synonym conn = nat

section \<open>The operations alone\<close>

record nodePool =
  np_conns :: "conn list"
  np_active :: int
  np_closed :: bool

record connPool =
  cp_pools :: "string \<rightharpoonup> nodePool"
  cp_maxSize :: int
  cp_timeout :: duration

definition NewConnPool :: "int \<Rightarrow> duration \<Rightarrow> connPool" where
  "NewConnPool maxPerNode dialTimeout =
     \<lparr>cp_pools = Map.empty, cp_maxSize = maxPerNode, cp_timeout = dialTimeout\<rparr>"

definition new_pool :: nodePool where
  "new_pool = \<lparr>np_conns = [], np_active = 0, np_closed = False\<rparr>"

text \<open>\<open>make(chan net.Conn, n)\<close> panics (\<open>None\<close>) when \<open>n\<close> is negative.\<close>

definition getPool :: "string \<Rightarrow> connPool \<Rightarrow> (nodePool \<times> connPool) option" where
  "getPool addr p = (case cp_pools p addr of
       Some pool \<Rightarrow> Some (pool, p)
     | None \<Rightarrow> if cp_maxSize p < 0 then None
         else Some (new_pool, p\<lparr>cp_pools := (cp_pools p)(addr \<mapsto> new_pool)\<rparr>))"

definition store_pool :: "string \<Rightarrow> nodePool \<Rightarrow> connPool \<Rightarrow> connPool" where
  "store_pool addr pool p = p\<lparr>cp_pools := (cp_pools p)(addr \<mapsto> pool)\<rparr>"

text \<open>Where the pool has no connection, \<open>dial addr timeout\<close> answers.\<close>

definition pool_Get ::
    "(string \<Rightarrow> duration \<Rightarrow> go_err + conn) \<Rightarrow> string \<Rightarrow> connPool \<Rightarrow> ((go_err + conn) \<times> connPool) option" where
  "pool_Get dial addr p = (case getPool addr p of
       None \<Rightarrow> None
     | Some (pool, p') \<Rightarrow> Some (case np_conns pool of
           c # cs \<Rightarrow> (Inr c, store_pool addr (pool\<lparr>np_conns := cs, np_active := np_active pool - 1\<rparr>) p')
         | [] \<Rightarrow> (case dial addr (cp_timeout p') of
               Inl e \<Rightarrow> (Inl (Wrap (''failed to connect to '' @ addr) e), p')
             | Inr c \<Rightarrow> (Inr c, p'))))"

text \<open>The connection closed, if any, and the pool; a nil connection is \<open>None\<close>.\<close>

definition pool_Put :: "string \<Rightarrow> conn option \<Rightarrow> connPool \<Rightarrow> (conn option \<times> connPool) option" where
  "pool_Put addr co p = (case co of None \<Rightarrow> Some (None, p) | Some c \<Rightarrow>
     (case getPool addr p of
        None \<Rightarrow> None
      | Some (pool, p') \<Rightarrow>
          if np_active pool \<ge> cp_maxSize p' then Some (Some c, p')
          else let pool1 = pool\<lparr>np_active := np_active pool + 1\<rparr>
            in if int (length (np_conns pool1)) < cp_maxSize p'
               then Some (None, store_pool addr (pool1\<lparr>np_conns := np_conns pool1 @ [c]\<rparr>) p')
               else Some (Some c, store_pool addr (pool1\<lparr>np_active := np_active pool1 - 1\<rparr>) p')))"

text \<open>The connections closed, in the order the runtime ranges over the pools.\<close>

definition pool_Close :: "string list \<Rightarrow> connPool \<Rightarrow> conn list \<times> connPool" where
  "pool_Close order p =
     (concat (map (\<lambda>a. case cp_pools p a of None \<Rightarrow> [] | Some pool \<Rightarrow> np_conns pool) order),
      p\<lparr>cp_pools := Map.empty\<rparr>)"

definition pool_Stats :: "connPool \<Rightarrow> (string \<rightharpoonup> int)" where
  "pool_Stats p = (\<lambda>a. map_option np_active (cp_pools p a))"

section \<open>Pool settings\<close>

record nodePoolConfig =
  npc_MaxIdle :: int
  npc_MaxActive :: int
  npc_IdleTimeout :: duration
  npc_Wait :: bool
  npc_MaxConnLife :: duration

definition zero_pool_config :: nodePoolConfig where
  "zero_pool_config = \<lparr>npc_MaxIdle = 0, npc_MaxActive = 0, npc_IdleTimeout = 0, npc_Wait = False,
     npc_MaxConnLife = 0\<rparr>"

text \<open>\<open>ApplyToPool\<close> reads the settings and assigns none.\<close>

definition ApplyToPool :: "nodePoolConfig \<Rightarrow> connPool \<Rightarrow> connPool" where
  "ApplyToPool npc p = p"

type_synonym poolConfigs = "string \<rightharpoonup> nodePoolConfig"

definition NewPoolConfigManager :: poolConfigs where "NewPoolConfigManager = Map.empty"

definition pool_SetConfig :: "string \<Rightarrow> nodePoolConfig \<Rightarrow> poolConfigs \<Rightarrow> poolConfigs" where
  "pool_SetConfig nodeID cfg m = m(nodeID \<mapsto> cfg)"

definition pool_GetConfig :: "string \<Rightarrow> poolConfigs \<Rightarrow> nodePoolConfig" where
  "pool_GetConfig nodeID m = (case m nodeID of Some cfg \<Rightarrow> cfg | None \<Rightarrow> zero_pool_config)"

definition pool_SetDefault :: "nodePoolConfig \<Rightarrow> poolConfigs \<Rightarrow> poolConfigs" where
  "pool_SetDefault cfg m = m(''_default'' \<mapsto> cfg)"

section \<open>Goroutines in flight\<close>

text \<open>
  Where a goroutine stands in \<open>Put\<close> (the pool found, the slot reserved, the send refused), in
  \<open>Get\<close> (the pool found, a connection received, dialling) or outside both. A pool is named by its
  index in the heap, since a goroutine keeps its pointer after \<open>Close\<close> has replaced the map.
\<close>

datatype ppc = Idle
  | PutGot nat conn | PutRes nat conn | PutDrop nat conn
  | GetGot nat | GetTook nat conn | GetDial
  | Panicked conn

text \<open>\<open>Close\<close> holds the write lock: one goroutine at most, and nobody looks up a pool meanwhile.\<close>

datatype closer = Closing "nat list" | Draining nat "nat list" | ClosePanicked

record psys =
  ps_pools :: "string \<rightharpoonup> nat"
  ps_heap :: "nodePool list"
  ps_pc :: "ppc list"
  ps_closer :: "closer option"
  ps_in :: "conn multiset"
  ps_shut :: "conn multiset"
  ps_out :: "conn multiset"

definition pool_init :: "nat \<Rightarrow> psys" where
  "pool_init n = \<lparr>ps_pools = Map.empty, ps_heap = [], ps_pc = replicate n Idle, ps_closer = None,
     ps_in = {#}, ps_shut = {#}, ps_out = {#}\<rparr>"

definition goto :: "nat \<Rightarrow> ppc \<Rightarrow> psys \<Rightarrow> psys" where
  "goto i pc s = s\<lparr>ps_pc := (ps_pc s)[i := pc]\<rparr>"

definition set_pool :: "nat \<Rightarrow> nodePool \<Rightarrow> psys \<Rightarrow> psys" where
  "set_pool k p s = s\<lparr>ps_heap := (ps_heap s)[k := p]\<rparr>"

text \<open>\<open>getPool\<close>: the double-checked lookup, which holds a lock at the instant it takes effect.\<close>

definition find_pool :: "string \<Rightarrow> psys \<Rightarrow> nat \<times> psys" where
  "find_pool addr s = (case ps_pools s addr of
       Some k \<Rightarrow> (k, s)
     | None \<Rightarrow> (length (ps_heap s), s\<lparr>ps_heap := ps_heap s @ [new_pool],
         ps_pools := (ps_pools s)(addr \<mapsto> length (ps_heap s))\<rparr>))"

abbreviation pc_at :: "psys \<Rightarrow> nat \<Rightarrow> ppc \<Rightarrow> bool" where
  "pc_at s i pc \<equiv> i < length (ps_pc s) \<and> ps_pc s ! i = pc"

inductive pool_step :: "nat \<Rightarrow> psys \<Rightarrow> psys \<Rightarrow> bool" for mx where
  put_find: "pc_at s i Idle \<Longrightarrow> ps_closer s = None \<Longrightarrow> find_pool addr s = (k, s') \<Longrightarrow>
    pool_step mx s (goto i (PutGot k c) (s'\<lparr>ps_in := ps_in s + {#c#}\<rparr>))"
| put_full: "pc_at s i (PutGot k c) \<Longrightarrow> np_active (ps_heap s ! k) \<ge> int mx \<Longrightarrow>
    pool_step mx s (goto i Idle (s\<lparr>ps_shut := ps_shut s + {#c#}\<rparr>))"
| put_reserve: "pc_at s i (PutGot k c) \<Longrightarrow> p = ps_heap s ! k \<Longrightarrow> np_active p < int mx \<Longrightarrow>
    pool_step mx s (goto i (PutRes k c) (set_pool k (p\<lparr>np_active := np_active p + 1\<rparr>) s))"
| put_send: "pc_at s i (PutRes k c) \<Longrightarrow> p = ps_heap s ! k \<Longrightarrow> \<not> np_closed p \<Longrightarrow>
    length (np_conns p) < mx \<Longrightarrow>
    pool_step mx s (goto i Idle (set_pool k (p\<lparr>np_conns := np_conns p @ [c]\<rparr>) s))"
| put_default: "pc_at s i (PutRes k c) \<Longrightarrow> p = ps_heap s ! k \<Longrightarrow> \<not> np_closed p \<Longrightarrow>
    length (np_conns p) \<ge> mx \<Longrightarrow> pool_step mx s (goto i (PutDrop k c) s)"
| put_panic: "pc_at s i (PutRes k c) \<Longrightarrow> np_closed (ps_heap s ! k) \<Longrightarrow>
    pool_step mx s (goto i (Panicked c) s)"
| put_undo: "pc_at s i (PutDrop k c) \<Longrightarrow> p = ps_heap s ! k \<Longrightarrow>
    pool_step mx s (goto i Idle (set_pool k (p\<lparr>np_active := np_active p - 1\<rparr>)
      (s\<lparr>ps_shut := ps_shut s + {#c#}\<rparr>)))"
| get_find: "pc_at s i Idle \<Longrightarrow> ps_closer s = None \<Longrightarrow> find_pool addr s = (k, s') \<Longrightarrow>
    pool_step mx s (goto i (GetGot k) s')"
| get_take: "pc_at s i (GetGot k) \<Longrightarrow> p = ps_heap s ! k \<Longrightarrow> np_conns p = c # cs \<Longrightarrow>
    pool_step mx s (goto i (GetTook k c) (set_pool k (p\<lparr>np_conns := cs\<rparr>) s))"
| get_empty: "pc_at s i (GetGot k) \<Longrightarrow> np_conns (ps_heap s ! k) = [] \<Longrightarrow>
    pool_step mx s (goto i GetDial s)"
| get_return: "pc_at s i (GetTook k c) \<Longrightarrow> p = ps_heap s ! k \<Longrightarrow>
    pool_step mx s (goto i Idle (set_pool k (p\<lparr>np_active := np_active p - 1\<rparr>)
      (s\<lparr>ps_out := ps_out s + {#c#}\<rparr>)))"
| get_dialled: "pc_at s i GetDial \<Longrightarrow> pool_step mx s (goto i Idle s)"
| close_lock: "ps_closer s = None \<Longrightarrow> range_order order (ps_pools s) \<Longrightarrow>
    pool_step mx s (s\<lparr>ps_closer := Some (Closing (map (\<lambda>a. the (ps_pools s a)) order))\<rparr>)"
| close_chan: "ps_closer s = Some (Closing (k # ks)) \<Longrightarrow> p = ps_heap s ! k \<Longrightarrow> \<not> np_closed p \<Longrightarrow>
    pool_step mx s (set_pool k (p\<lparr>np_closed := True\<rparr>) (s\<lparr>ps_closer := Some (Draining k ks)\<rparr>))"
| close_panic: "ps_closer s = Some (Closing (k # ks)) \<Longrightarrow> np_closed (ps_heap s ! k) \<Longrightarrow>
    pool_step mx s (s\<lparr>ps_closer := Some ClosePanicked\<rparr>)"
| close_drain: "ps_closer s = Some (Draining k ks) \<Longrightarrow> p = ps_heap s ! k \<Longrightarrow> np_conns p = c # cs \<Longrightarrow>
    pool_step mx s (set_pool k (p\<lparr>np_conns := cs\<rparr>) (s\<lparr>ps_shut := ps_shut s + {#c#}\<rparr>))"
| close_next: "ps_closer s = Some (Draining k ks) \<Longrightarrow> np_conns (ps_heap s ! k) = [] \<Longrightarrow>
    pool_step mx s (s\<lparr>ps_closer := Some (Closing ks)\<rparr>)"
| close_unlock: "ps_closer s = Some (Closing []) \<Longrightarrow>
    pool_step mx s (s\<lparr>ps_closer := None, ps_pools := Map.empty\<rparr>)"

text \<open>The slots goroutines hold in pool \<open>k\<close>, and the connections they carry.\<close>

fun slot :: "nat \<Rightarrow> ppc \<Rightarrow> nat" where
  "slot k (PutRes j c) = (if j = k then 1 else 0)"
| "slot k (PutDrop j c) = (if j = k then 1 else 0)"
| "slot k (GetTook j c) = (if j = k then 1 else 0)"
| "slot k pc = 0"

definition slots :: "nat \<Rightarrow> ppc list \<Rightarrow> nat" where
  "slots k pcs = sum_list (map (slot k) pcs)"

fun carried :: "ppc \<Rightarrow> conn multiset" where
  "carried (PutGot k c) = {#c#}"
| "carried (PutRes k c) = {#c#}"
| "carried (PutDrop k c) = {#c#}"
| "carried (GetTook k c) = {#c#}"
| "carried (Panicked c) = {#c#}"
| "carried pc = {#}"

definition in_flight :: "ppc list \<Rightarrow> conn multiset" where
  "in_flight pcs = sum_list (map carried pcs)"

definition pooled :: "nodePool list \<Rightarrow> conn multiset" where
  "pooled h = sum_list (map (\<lambda>p. mset (np_conns p)) h)"

fun pool_of :: "ppc \<Rightarrow> nat option" where
  "pool_of (PutGot k c) = Some k"
| "pool_of (PutRes k c) = Some k"
| "pool_of (PutDrop k c) = Some k"
| "pool_of (GetGot k) = Some k"
| "pool_of (GetTook k c) = Some k"
| "pool_of pc = None"


lemma slots_upd: "i < length pcs \<Longrightarrow> slots k (pcs[i := pc]) + slot k (pcs ! i) = slots k pcs + slot k pc"
  unfolding slots_def by (rule sum_list_map_upd)

lemma slots_ge: "i < length pcs \<Longrightarrow> slot k (pcs ! i) \<le> slots k pcs"
  unfolding slots_def by (rule member_le_sum_list_map)

lemma slots_none: "(\<forall>pc \<in> set pcs. pool_of pc \<noteq> Some k) \<Longrightarrow> slots k pcs = 0"
proof -
  have "slot k pc = 0" if "pool_of pc \<noteq> Some k" for pc using that by (cases pc) auto
  then show "\<forall>pc \<in> set pcs. pool_of pc \<noteq> Some k \<Longrightarrow> slots k pcs = 0" by (auto simp: slots_def)
qed

lemma in_flight_upd:
  "i < length pcs \<Longrightarrow> in_flight (pcs[i := pc]) + carried (pcs ! i) = in_flight pcs + carried pc"
  unfolding in_flight_def by (rule sum_list_map_upd)

lemma pooled_upd:
  "k < length h \<Longrightarrow> pooled (h[k := p]) + mset (np_conns (h ! k)) = pooled h + mset (np_conns p)"
  unfolding pooled_def by (rule sum_list_map_upd [where f = "\<lambda>p. mset (np_conns p)"])

text \<open>The accounting of one pool, and of the system.\<close>

definition counts :: "nat \<Rightarrow> nodePool list \<Rightarrow> ppc list \<Rightarrow> bool" where
  "counts mx h pcs \<longleftrightarrow> (\<forall>k < length h. \<not> np_closed (h ! k) \<longrightarrow>
     np_active (h ! k) = int (length (np_conns (h ! k)) + slots k pcs) \<and> np_active (h ! k) \<le> int mx)"

definition pcs_ok :: "nodePool list \<Rightarrow> ppc list \<Rightarrow> bool" where
  "pcs_ok h pcs \<longleftrightarrow> (\<forall>pc \<in> set pcs. (\<forall>k. pool_of pc = Some k \<longrightarrow> k < length h) \<and>
     (\<forall>k c. pc \<noteq> PutDrop k c))"

definition opens :: "nodePool list \<Rightarrow> nat list \<Rightarrow> bool" where
  "opens h ks \<longleftrightarrow> distinct ks \<and> (\<forall>k \<in> set ks. k < length h \<and> \<not> np_closed (h ! k))"

definition closer_ok :: "nodePool list \<Rightarrow> (string \<rightharpoonup> nat) \<Rightarrow> closer option \<Rightarrow> bool" where
  "closer_ok h ps cl \<longleftrightarrow> inj_on ps (dom ps) \<and> (\<forall>k \<in> ran ps. k < length h) \<and>
     (case cl of None \<Rightarrow> \<forall>k \<in> ran ps. \<not> np_closed (h ! k)
      | Some (Closing ks) \<Rightarrow> opens h ks
      | Some (Draining k ks) \<Rightarrow> k < length h \<and> np_closed (h ! k) \<and> k \<notin> set ks \<and> opens h ks
      | Some ClosePanicked \<Rightarrow> False)"

definition pool_inv :: "nat \<Rightarrow> psys \<Rightarrow> bool" where
  "pool_inv mx s \<longleftrightarrow> counts mx (ps_heap s) (ps_pc s) \<and> pcs_ok (ps_heap s) (ps_pc s) \<and>
     closer_ok (ps_heap s) (ps_pools s) (ps_closer s) \<and>
     ps_in s = pooled (ps_heap s) + in_flight (ps_pc s) + ps_shut s + ps_out s"

text \<open>A goroutine moves on without touching a pool.\<close>

lemma counts_goto:
  assumes "counts mx h pcs" and "i < length pcs" and "\<And>k. slot k pc = slot k (pcs ! i)"
  shows "counts mx h (pcs[i := pc])"
proof -
  have "slots k (pcs[i := pc]) = slots k pcs" for k
    using slots_upd [OF assms(2), of k pc] assms(3) [of k] by simp
  with assms(1) show ?thesis by (auto simp: counts_def)
qed

lemma pcs_ok_goto:
  "pcs_ok h pcs \<Longrightarrow> (\<And>k. pool_of pc = Some k \<Longrightarrow> k < length h) \<Longrightarrow> (\<And>k c. pc \<noteq> PutDrop k c) \<Longrightarrow>
    pcs_ok h (pcs[i := pc])"
  by (auto simp: pcs_ok_def dest!: subsetD [OF set_update_subset_insert])

lemma pcs_ok_at: "pcs_ok h pcs \<Longrightarrow> i < length pcs \<Longrightarrow> pool_of (pcs ! i) = Some k \<Longrightarrow> k < length h"
  by (auto simp: pcs_ok_def)

text \<open>A goroutine moves on and pool \<open>k\<close> changes with it.\<close>

lemma counts_set:
  assumes "counts mx h pcs" and "i < length pcs" and "k < length h"
    and "\<And>j. j \<noteq> k \<Longrightarrow> slot j pc = slot j (pcs ! i)"
    and "np_closed p = np_closed (h ! k)"
    and "\<not> np_closed p \<Longrightarrow> np_active p \<le> int mx"
    and "\<not> np_closed p \<Longrightarrow> np_active p + int (length (np_conns (h ! k))) + int (slot k (pcs ! i)) =
      np_active (h ! k) + int (length (np_conns p)) + int (slot k pc)"
  shows "counts mx (h[k := p]) (pcs[i := pc])"
proof -
  have same: "slots j (pcs[i := pc]) = slots j pcs" if "j \<noteq> k" for j
    using slots_upd [OF assms(2), of j pc] assms(4) [OF that] by simp
  have here: "int (slots k (pcs[i := pc])) + int (slot k (pcs ! i)) = int (slots k pcs) + int (slot k pc)"
    using slots_upd [OF assms(2), of k pc] by (metis of_nat_add)
  show ?thesis unfolding counts_def
  proof (intro allI impI)
    fix j assume j: "j < length (h[k := p])" "\<not> np_closed (h[k := p] ! j)"
    show "np_active (h[k := p] ! j) = int (length (np_conns (h[k := p] ! j)) + slots j (pcs[i := pc])) \<and>
      np_active (h[k := p] ! j) \<le> int mx"
    proof (cases "j = k")
      case True
      then have o: "\<not> np_closed p" using j assms(3) by simp
      then have "np_active (h ! k) = int (length (np_conns (h ! k))) + int (slots k pcs)"
        using assms(1,3,5) by (simp add: counts_def)
      then show ?thesis using True assms(3) assms(6,7) [OF o] here by simp
    next
      case False
      then show ?thesis using j assms(1) same [OF False] by (auto simp: counts_def)
    qed
  qed
qed

lemma closer_ok_set:
  "closer_ok h ps cl \<Longrightarrow> np_closed p = np_closed (h ! k) \<Longrightarrow> closer_ok (h[k := p]) ps cl"
proof -
  assume a: "closer_ok h ps cl" "np_closed p = np_closed (h ! k)"
  have c: "np_closed (h[k := p] ! j) = np_closed (h ! j)" for j
    using a(2) by (cases "k < length h"; cases "j = k") (auto simp: list_update_beyond)
  have "opens (h[k := p]) ks = opens h ks" for ks by (simp add: opens_def c)
  with a(1) show ?thesis unfolding closer_ok_def length_list_update c by presburger
qed

text \<open>Connections move between the places that hold them.\<close>

lemma flow_goto:
  assumes "i < length pcs" and "carried pc + X = carried (pcs ! i)"
  shows "in_flight (pcs[i := pc]) + X = in_flight pcs"
proof -
  have "in_flight (pcs[i := pc]) + X + carried (pcs ! i) = in_flight pcs + carried (pcs ! i)"
    using in_flight_upd [OF assms(1), of pc] assms(2) by (metis add.assoc add.commute)
  then show ?thesis by simp
qed

lemma flow_set:
  assumes "k < length h" and "mset (np_conns p) + X = mset (np_conns (h ! k)) + Y"
  shows "pooled (h[k := p]) + X = pooled h + Y"
proof -
  have "pooled (h[k := p]) + X + mset (np_conns (h ! k)) = pooled h + Y + mset (np_conns (h ! k))"
    using pooled_upd [OF assms(1), of p] assms(2) by (metis add.assoc add.commute)
  then show ?thesis by simp
qed

lemma pooled_new: "pooled (h @ [new_pool]) = pooled h"
  by (simp add: pooled_def new_pool_def)

text \<open>The three shapes of step: a goroutine alone, a goroutine with a pool, the closer.\<close>

lemma inv_goto:
  assumes "pool_inv mx s" and "i < length (ps_pc s)"
    and "\<And>k. slot k pc = slot k (ps_pc s ! i)"
    and "\<And>k. pool_of pc = Some k \<Longrightarrow> k < length (ps_heap s)" and "\<And>k c. pc \<noteq> PutDrop k c"
    and "carried pc + X = carried (ps_pc s ! i)"
  shows "pool_inv mx (goto i pc (s\<lparr>ps_shut := ps_shut s + X\<rparr>))"
proof -
  have "ps_in s = pooled (ps_heap s) + in_flight (ps_pc s) + ps_shut s + ps_out s"
    using assms(1) by (simp add: pool_inv_def)
  then have "ps_in s = pooled (ps_heap s) + in_flight ((ps_pc s)[i := pc]) + (ps_shut s + X) + ps_out s"
    using flow_goto [OF assms(2,6)] by (metis add.assoc add.commute)
  moreover have "counts mx (ps_heap s) ((ps_pc s)[i := pc])"
    using assms(1-3) by (intro counts_goto) (auto simp: pool_inv_def)
  moreover have "pcs_ok (ps_heap s) ((ps_pc s)[i := pc])"
    using assms(1,4,5) by (intro pcs_ok_goto) (auto simp: pool_inv_def)
  ultimately show ?thesis using assms(1) by (simp add: pool_inv_def goto_def)
qed

lemma inv_set:
  assumes "pool_inv mx s" and "i < length (ps_pc s)" and "pool_of (ps_pc s ! i) = Some k"
    and "\<And>j. j \<noteq> k \<Longrightarrow> slot j pc = slot j (ps_pc s ! i)"
    and "\<And>j. pool_of pc = Some j \<Longrightarrow> j = k" and "\<And>k c. pc \<noteq> PutDrop k c"
    and "np_closed p = np_closed (ps_heap s ! k)"
    and "\<not> np_closed p \<Longrightarrow> np_active p \<le> int mx"
    and "\<not> np_closed p \<Longrightarrow> np_active p + int (length (np_conns (ps_heap s ! k))) + int (slot k (ps_pc s ! i)) =
      np_active (ps_heap s ! k) + int (length (np_conns p)) + int (slot k pc)"
    and "mset (np_conns p) + carried pc + Y = mset (np_conns (ps_heap s ! k)) + carried (ps_pc s ! i)"
  shows "pool_inv mx (goto i pc (set_pool k p (s\<lparr>ps_out := ps_out s + Y\<rparr>)))"
proof -
  have k: "k < length (ps_heap s)" using assms(1-3) pcs_ok_at by (auto simp: pool_inv_def)
  have "pooled ((ps_heap s)[k := p]) + in_flight ((ps_pc s)[i := pc]) + Y = pooled (ps_heap s) + in_flight (ps_pc s)"
  proof (rule multiset_eqI)
    fix x
    show "count (pooled ((ps_heap s)[k := p]) + in_flight ((ps_pc s)[i := pc]) + Y) x =
        count (pooled (ps_heap s) + in_flight (ps_pc s)) x"
      using arg_cong [OF in_flight_upd [OF assms(2), of pc], of "\<lambda>M. count M x"]
        arg_cong [OF pooled_upd [OF k, of p], of "\<lambda>M. count M x"]
        arg_cong [OF assms(10), of "\<lambda>M. count M x"]
      by simp
  qed
  then have "ps_in s = pooled ((ps_heap s)[k := p]) + in_flight ((ps_pc s)[i := pc]) + ps_shut s + (ps_out s + Y)"
    using assms(1) by (simp add: pool_inv_def) (metis add.assoc add.commute)
  moreover have "counts mx ((ps_heap s)[k := p]) ((ps_pc s)[i := pc])"
    using assms(1,2,4,7-9) k by (intro counts_set) (auto simp: pool_inv_def)
  moreover have "pcs_ok ((ps_heap s)[k := p]) ((ps_pc s)[i := pc])"
    using assms(1,5,6) k by (intro pcs_ok_goto) (auto simp: pool_inv_def pcs_ok_def)
  moreover have "closer_ok ((ps_heap s)[k := p]) (ps_pools s) (ps_closer s)"
    using assms(1,7) by (intro closer_ok_set) (auto simp: pool_inv_def)
  ultimately show ?thesis using assms(1) by (simp add: pool_inv_def goto_def set_pool_def)
qed

lemma find_pool_same:
  "find_pool addr s = (k, s') \<Longrightarrow> ps_pc s' = ps_pc s \<and> ps_in s' = ps_in s \<and> ps_closer s' = ps_closer s"
  by (auto simp: find_pool_def split: option.splits)

lemma inv_find:
  assumes "pool_inv mx s" and "ps_closer s = None" and "find_pool addr s = (k, s')"
  shows "pool_inv mx s' \<and> k < length (ps_heap s')"
proof (cases "ps_pools s addr")
  case (Some j)
  then have "j < length (ps_heap s)" using assms(1) by (auto simp: pool_inv_def closer_ok_def ran_def)
  with Some assms show ?thesis by (auto simp: find_pool_def)
next
  case None
  let ?h = "ps_heap s" and ?n = "length (ps_heap s)"
  have s': "k = ?n" "s' = s\<lparr>ps_heap := ?h @ [new_pool], ps_pools := (ps_pools s)(addr \<mapsto> ?n)\<rparr>"
    using assms(3) None by (auto simp: find_pool_def)
  have pcs: "pcs_ok ?h (ps_pc s)" using assms(1) by (simp add: pool_inv_def)
  have "slots ?n (ps_pc s) = 0" by (rule slots_none) (use pcs in \<open>auto simp: pcs_ok_def\<close>)
  then have "counts mx (?h @ [new_pool]) (ps_pc s)"
    using assms(1) by (auto simp: pool_inv_def counts_def nth_append new_pool_def less_Suc_eq)
  moreover have "pcs_ok (?h @ [new_pool]) (ps_pc s)"
    using pcs by (auto simp: pcs_ok_def dest!: bspec)
  moreover have "closer_ok (?h @ [new_pool]) ((ps_pools s)(addr \<mapsto> ?n)) None"
  proof -
    have inj: "inj_on (ps_pools s) (dom (ps_pools s))" and ran: "\<forall>k \<in> ran (ps_pools s). k < ?n \<and> \<not> np_closed (?h ! k)"
      using assms(1,2) by (auto simp: pool_inv_def closer_ok_def)
    have "inj_on ((ps_pools s)(addr \<mapsto> ?n)) (dom ((ps_pools s)(addr \<mapsto> ?n)))"
      using inj ran None by (auto simp: inj_on_def dom_def ran_def)
    moreover have "ran ((ps_pools s)(addr \<mapsto> ?n)) = insert ?n (ran (ps_pools s))"
      using None by simp
    ultimately show ?thesis using ran by (auto simp: closer_ok_def nth_append new_pool_def)
  qed
  ultimately show ?thesis using assms(1,2) s' by (simp add: pool_inv_def pooled_new)
qed

lemma inv_put:
  assumes "pool_inv mx s" and "pc_at s i Idle" and "k < length (ps_heap s)"
  shows "pool_inv mx (goto i (PutGot k c) (s\<lparr>ps_in := ps_in s + {#c#}\<rparr>))"
proof -
  have "in_flight ((ps_pc s)[i := PutGot k c]) = in_flight (ps_pc s) + {#c#}"
    using in_flight_upd [of i "ps_pc s" "PutGot k c"] assms(2) by simp
  moreover have "counts mx (ps_heap s) ((ps_pc s)[i := PutGot k c])"
    using assms by (intro counts_goto) (auto simp: pool_inv_def)
  moreover have "pcs_ok (ps_heap s) ((ps_pc s)[i := PutGot k c])"
    using assms by (intro pcs_ok_goto) (auto simp: pool_inv_def)
  ultimately show ?thesis using assms(1) by (simp add: pool_inv_def goto_def)
qed

text \<open>The steps of \<open>Close\<close>.\<close>

lemma inv_lock:
  assumes "pool_inv mx s" and "ps_closer s = None" and "range_order order (ps_pools s)"
  shows "pool_inv mx (s\<lparr>ps_closer := Some (Closing (map (\<lambda>a. the (ps_pools s a)) order))\<rparr>)"
proof -
  have cl: "inj_on (ps_pools s) (dom (ps_pools s))"
      "\<forall>k \<in> ran (ps_pools s). k < length (ps_heap s) \<and> \<not> np_closed (ps_heap s ! k)"
    using assms(1,2) by (auto simp: pool_inv_def closer_ok_def)
  have "inj_on (\<lambda>a. the (ps_pools s a)) (set order)"
    using cl(1) assms(3) by (auto simp: inj_on_def range_order_def dom_def)
  then have "opens (ps_heap s) (map (\<lambda>a. the (ps_pools s a)) order)"
    using cl(2) assms(3) by (auto simp: opens_def range_order_def distinct_map ran_def)
  with assms(1,2) show ?thesis by (auto simp: pool_inv_def closer_ok_def)
qed

lemma inv_close:
  assumes "pool_inv mx s" and "ps_closer s = Some (Closing (k # ks))"
  shows "pool_inv mx (set_pool k ((ps_heap s ! k)\<lparr>np_closed := True\<rparr>) (s\<lparr>ps_closer := Some (Draining k ks)\<rparr>))"
proof -
  let ?p = "(ps_heap s ! k)\<lparr>np_closed := True\<rparr>"
  have k: "k < length (ps_heap s)" using assms by (simp add: pool_inv_def closer_ok_def opens_def)
  then have "pooled ((ps_heap s)[k := ?p]) = pooled (ps_heap s)" using pooled_upd [OF k, of ?p] by simp
  moreover have "counts mx ((ps_heap s)[k := ?p]) (ps_pc s)"
    using assms(1) k by (auto simp: pool_inv_def counts_def nth_list_update)
  moreover have "closer_ok ((ps_heap s)[k := ?p]) (ps_pools s) (Some (Draining k ks))"
    using assms k by (auto simp: pool_inv_def closer_ok_def opens_def nth_list_update)
  ultimately show ?thesis using assms by (simp add: pool_inv_def set_pool_def pcs_ok_def)
qed

lemma inv_drain:
  assumes "pool_inv mx s" and "ps_closer s = Some (Draining k ks)" and "np_conns (ps_heap s ! k) = c # cs"
  shows "pool_inv mx (set_pool k ((ps_heap s ! k)\<lparr>np_conns := cs\<rparr>) (s\<lparr>ps_shut := ps_shut s + {#c#}\<rparr>))"
proof -
  let ?p = "(ps_heap s ! k)\<lparr>np_conns := cs\<rparr>"
  have k: "k < length (ps_heap s)" "np_closed (ps_heap s ! k)"
    using assms by (simp_all add: pool_inv_def closer_ok_def)
  have "pooled ((ps_heap s)[k := ?p]) + {#c#} = pooled (ps_heap s)"
    using pooled_upd [OF k(1), of ?p] assms(3) by simp
  then have "ps_in s = pooled ((ps_heap s)[k := ?p]) + in_flight (ps_pc s) + (ps_shut s + {#c#}) + ps_out s"
    using assms(1) by (simp add: pool_inv_def)
  moreover have "counts mx ((ps_heap s)[k := ?p]) (ps_pc s)"
    using assms(1) k by (auto simp: pool_inv_def counts_def nth_list_update)
  moreover have "closer_ok ((ps_heap s)[k := ?p]) (ps_pools s) (ps_closer s)"
    using assms(1) by (intro closer_ok_set) (auto simp: pool_inv_def)
  ultimately show ?thesis using assms by (simp add: pool_inv_def set_pool_def pcs_ok_def)
qed

lemma reserved_room:
  assumes "pool_inv mx s" and "pc_at s i (PutRes k c)" and "\<not> np_closed (ps_heap s ! k)"
  shows "length (np_conns (ps_heap s ! k)) < mx"
proof -
  have "k < length (ps_heap s)" using assms(1,2) pcs_ok_at by (fastforce simp: pool_inv_def)
  moreover have "1 \<le> slots k (ps_pc s)" using slots_ge [of i "ps_pc s" k] assms(2) by simp
  ultimately show ?thesis using assms(1,3) by (fastforce simp: pool_inv_def counts_def)
qed

lemma pool_inv_init: "pool_inv mx (pool_init n)"
proof -
  have "sum_list (replicate n ({#} :: conn multiset)) = {#}" by (induction n) simp_all
  then show ?thesis
    by (auto simp: pool_inv_def pool_init_def counts_def pcs_ok_def closer_ok_def pooled_def in_flight_def)
qed

lemma pool_inv_step: "pool_step mx s s' \<Longrightarrow> pool_inv mx s \<Longrightarrow> pool_inv mx s'"
proof (induction rule: pool_step.induct)
  case (put_find s i addr k s' c)
  then have "pool_inv mx s'" "k < length (ps_heap s')" "pc_at s' i Idle" "ps_in s' = ps_in s"
    using inv_find find_pool_same by auto
  then show ?case using inv_put [of mx s' i k c] by simp
next
  case (put_full s i k c)
  then show ?case using inv_goto [of mx s i Idle "{#c#}"] by simp
next
  case (put_reserve s i k c p)
  then show ?case using inv_set [of mx s i k "PutRes k c" "p\<lparr>np_active := np_active p + 1\<rparr>" "{#}"] by simp
next
  case (put_send s i k c p)
  then have "\<not> np_closed p \<Longrightarrow> np_active p \<le> int mx"
    using pcs_ok_at [of "ps_heap s" "ps_pc s" i k] by (auto simp: pool_inv_def counts_def)
  with put_send show ?case using inv_set [of mx s i k Idle "p\<lparr>np_conns := np_conns p @ [c]\<rparr>" "{#}"] by simp
next
  case (put_default s i k c p)
  then show ?case using reserved_room [of mx s i k c] by simp
next
  case (put_panic s i k c)
  note * = put_panic
  have cs: "counts mx (ps_heap s) ((ps_pc s)[i := Panicked c])"
    unfolding counts_def
  proof (intro allI impI)
    fix j assume j: "j < length (ps_heap s)" "\<not> np_closed (ps_heap s ! j)"
    then have "slots j ((ps_pc s)[i := Panicked c]) = slots j (ps_pc s)"
      using slots_upd [of i "ps_pc s" j "Panicked c"] * by (cases "j = k") auto
    then show "np_active (ps_heap s ! j) = int (length (np_conns (ps_heap s ! j)) + slots j ((ps_pc s)[i := Panicked c])) \<and>
      np_active (ps_heap s ! j) \<le> int mx" using * j by (auto simp: pool_inv_def counts_def)
  qed
  moreover have "in_flight ((ps_pc s)[i := Panicked c]) = in_flight (ps_pc s)"
    using flow_goto [of i "ps_pc s" "Panicked c" "{#}"] * by simp
  moreover have "pcs_ok (ps_heap s) ((ps_pc s)[i := Panicked c])"
    using * by (intro pcs_ok_goto) (auto simp: pool_inv_def)
  ultimately show ?case using * by (simp add: pool_inv_def goto_def)
next
  case (put_undo s i k c p)
  then show ?case by (auto simp: pool_inv_def pcs_ok_def)
next
  case (get_find s i addr k s')
  then have "pool_inv mx s'" "k < length (ps_heap s')" "pc_at s' i Idle"
    using inv_find find_pool_same by auto
  then show ?case using inv_goto [of mx s' i "GetGot k" "{#}"] by simp
next
  case (get_take s i k p c cs)
  then have "\<not> np_closed p \<Longrightarrow> np_active p \<le> int mx"
    using pcs_ok_at [of "ps_heap s" "ps_pc s" i k] by (auto simp: pool_inv_def counts_def)
  with get_take show ?case using inv_set [of mx s i k "GetTook k c" "p\<lparr>np_conns := cs\<rparr>" "{#}"] by simp
next
  case (get_empty s i k)
  then show ?case using inv_goto [of mx s i GetDial "{#}"] by simp
next
  case (get_return s i k c p)
  then have "\<not> np_closed p \<Longrightarrow> np_active p \<le> int mx"
    using pcs_ok_at [of "ps_heap s" "ps_pc s" i k] by (auto simp: pool_inv_def counts_def)
  with get_return show ?case
    using inv_set [of mx s i k Idle "p\<lparr>np_active := np_active p - 1\<rparr>" "{#c#}"]
    by (simp add: goto_def set_pool_def) linarith
next
  case (get_dialled s i)
  then show ?case using inv_goto [of mx s i Idle "{#}"] by simp
next
  case (close_lock s order)
  then show ?case by (intro inv_lock)
next
  case (close_chan s k ks p)
  then show ?case using inv_close by simp
next
  case (close_panic s k ks)
  then show ?case by (auto simp: pool_inv_def closer_ok_def opens_def)
next
  case (close_drain s k ks p c cs)
  then show ?case using inv_drain by simp
next
  case (close_next s k ks)
  then show ?case by (auto simp: pool_inv_def closer_ok_def)
next
  case (close_unlock s)
  then show ?case by (auto simp: pool_inv_def closer_ok_def opens_def)
qed

lemma pool_inv_reachable: "(pool_step mx)\<^sup>*\<^sup>* (pool_init n) s \<Longrightarrow> pool_inv mx s"
  by (induction rule: rtranclp_induct) (auto intro: pool_inv_init pool_inv_step)

section \<open>Properties\<close>

text \<open>C3: However goroutines interleave in \<open>Get\<close>, \<open>Put\<close> and \<open>Close\<close>, the counter of an open pool is
  the number of connections in its channel plus the slots goroutines hold between the counter and
  the channel, and is at most the configured maximum, and so is the number of pooled
  connections.\<close>

theorem pool_bounded:
  assumes "(pool_step mx)\<^sup>*\<^sup>* (pool_init n) s" and "k < length (ps_heap s)" and "\<not> np_closed (ps_heap s ! k)"
  shows "np_active (ps_heap s ! k) = int (length (np_conns (ps_heap s ! k)) + slots k (ps_pc s)) \<and>
    np_active (ps_heap s ! k) \<le> int mx \<and> length (np_conns (ps_heap s ! k)) \<le> mx"
proof -
  have "pool_inv mx s" using assms(1) by (rule pool_inv_reachable)
  with assms(2,3) have "np_active (ps_heap s ! k) = int (length (np_conns (ps_heap s ! k)) + slots k (ps_pc s))"
      "np_active (ps_heap s ! k) \<le> int mx"
    by (auto simp: pool_inv_def counts_def)
  then show ?thesis by linarith
qed

text \<open>A first execution: one goroutine pools connection 7 for address \<open>a\<close>.\<close>

definition demo_got :: psys where
  "demo_got = (pool_init 1)\<lparr>ps_pools := [''a'' \<mapsto> 0], ps_heap := [new_pool], ps_pc := [PutGot 0 7], ps_in := {#7#}\<rparr>"

definition demo_reserved :: psys where
  "demo_reserved = demo_got\<lparr>ps_heap := [new_pool\<lparr>np_active := 1\<rparr>], ps_pc := [PutRes 0 7]\<rparr>"

lemmas demo_simps = demo_got_def demo_reserved_def pool_init_def new_pool_def goto_def set_pool_def find_pool_def

lemma demo_first: "pool_step 2 (pool_init 1) demo_got"
proof -
  have "pool_step 2 (pool_init 1) (goto 0 (PutGot 0 7) ((snd (find_pool ''a'' (pool_init 1)))\<lparr>ps_in := ps_in (pool_init 1) + {#7#}\<rparr>))"
    by (rule put_find [where addr = "''a''"]) (simp_all add: demo_simps)
  then show ?thesis by (simp add: demo_simps)
qed

lemma demo_second: "pool_step 2 demo_got demo_reserved"
proof -
  have "pool_step 2 demo_got (goto 0 (PutRes 0 7) (set_pool 0 (new_pool\<lparr>np_active := np_active new_pool + 1\<rparr>) demo_got))"
    by (rule put_reserve) (simp_all add: demo_simps)
  then show ?thesis by (simp add: demo_simps)
qed

lemma demo_reached: "(pool_step 2)\<^sup>*\<^sup>* (pool_init 1) demo_reserved"
  using run_through_reaches [of "pool_step 2" "pool_init 1" "[demo_got, demo_reserved]"] demo_first demo_second
  by simp

theorem pool_bounded_witness:
  "np_active (ps_heap demo_reserved ! 0) =
    int (length (np_conns (ps_heap demo_reserved ! 0)) + slots 0 (ps_pc demo_reserved))"
  using pool_bounded [OF demo_reached, of 0] by (simp add: demo_simps)

text \<open>A \<open>Put\<close> that has reserved its slot in an open pool always finds room in the channel: the
  \<open>default\<close> branch, which would give the slot back and close the connection, is never taken, and
  no goroutine is ever in it; and \<open>Close\<close> never closes a channel twice.\<close>

theorem put_has_room:
  assumes "(pool_step mx)\<^sup>*\<^sup>* (pool_init n) s"
  shows "(\<forall>i k c. pc_at s i (PutRes k c) \<and> \<not> np_closed (ps_heap s ! k) \<longrightarrow> length (np_conns (ps_heap s ! k)) < mx) \<and>
    (\<forall>i k c. \<not> pc_at s i (PutDrop k c)) \<and> ps_closer s \<noteq> Some ClosePanicked"
proof -
  have inv: "pool_inv mx s" using assms by (rule pool_inv_reachable)
  then have "\<forall>i k c. \<not> pc_at s i (PutDrop k c)" by (auto simp: pool_inv_def pcs_ok_def)
  moreover have "ps_closer s \<noteq> Some ClosePanicked" using inv by (auto simp: pool_inv_def closer_ok_def)
  ultimately show ?thesis using reserved_room [OF inv] by blast
qed

theorem put_has_room_witness: "length (np_conns (ps_heap demo_reserved ! 0)) < 2"
  using put_has_room [OF demo_reached] by (auto simp: demo_simps)

text \<open>C4: No connection is lost or duplicated: those handed to \<open>Put\<close> are, counted with
  multiplicity, those pooled, those goroutines are carrying, those closed and those \<open>Get\<close> has
  returned from a pool.\<close>

theorem pool_conserves:
  assumes "(pool_step mx)\<^sup>*\<^sup>* (pool_init n) s"
  shows "ps_in s = pooled (ps_heap s) + in_flight (ps_pc s) + ps_shut s + ps_out s"
  using pool_inv_reachable [OF assms] by (simp add: pool_inv_def)

theorem pool_conserves_witness: "ps_in demo_reserved = {#7#}"
  unfolding pool_conserves [OF demo_reached] by (simp add: demo_simps pooled_def in_flight_def)

text \<open>\<open>Close\<close> is not safe against a \<open>Put\<close> in flight: a goroutine that has reserved its slot when
  \<open>Close\<close> closes the channel panics with a send on a closed channel.\<close>

theorem put_close_race:
  "\<exists>s. (pool_step 2)\<^sup>*\<^sup>* (pool_init 1) s \<and> ps_pc s = [Panicked 7]"
proof -
  define s3 where "s3 = demo_reserved\<lparr>ps_closer := Some (Closing [0])\<rparr>"
  define s4 where "s4 = s3\<lparr>ps_heap := [new_pool\<lparr>np_active := 1, np_closed := True\<rparr>], ps_closer := Some (Draining 0 [])\<rparr>"
  define s5 where "s5 = s4\<lparr>ps_pc := [Panicked 7]\<rparr>"
  note d = s3_def s4_def s5_def demo_simps
  have "pool_step 2 demo_reserved s3"
    using close_lock [of demo_reserved "[''a'']" 2] by (simp add: d range_order_def)
  moreover have "pool_step 2 s3 s4" using close_chan [of s3 0 "[]" _ 2] by (simp add: d)
  moreover have "pool_step 2 s4 s5" using put_panic [of 0 s4 0 7 2] by (simp add: d)
  ultimately have "(pool_step 2)\<^sup>*\<^sup>* demo_reserved s5"
    using run_through_reaches [of "pool_step 2" demo_reserved "[s3, s4, s5]"] by simp
  with demo_reached have "(pool_step 2)\<^sup>*\<^sup>* (pool_init 1) s5" by (rule rtranclp_trans)
  moreover have "ps_pc s5 = [Panicked 7]" by (simp add: s5_def)
  ultimately show ?thesis by blast
qed

end
