(* ===== verification/Compliance.thy ===== *)
theory Compliance
  imports Http
begin

text \<open>
  What the gateway extracts from a request's target and whether it may be proxied: the
  compliance service (\<open>gateway/compliance.go\<close>) and the path helpers of \<open>gateway/service.go\<close>.
  A blocked pattern is specified by the predicate \<open>pattern_matches\<close> on hosts, which the loop over
  the patterns is proved to decide.
\<close>

section \<open>The compliance service\<close>

record complianceService =
  cs_BlockedDomains :: "string list"
  cs_KYCRequired :: bool

definition NewComplianceService :: "string list \<Rightarrow> bool \<Rightarrow> complianceService" where
  "NewComplianceService blocked kyc = \<lparr>cs_BlockedDomains = blocked, cs_KYCRequired = kyc\<rparr>"

text \<open>\<open>if idx := strings.Index(s, sep); idx != -1 { s = s[:idx] }\<close>\<close>

definition cut_at :: "string \<Rightarrow> string \<Rightarrow> string" where
  "cut_at sep s = (case str_index s sep of Some i \<Rightarrow> take i s | None \<Rightarrow> s)"

definition extractDomain :: "string \<Rightarrow> string" where
  "extractDomain target = cut_at ''/'' (trim_prefix (trim_prefix target ''http://'') ''https://'')"

text \<open>The body of the loop, for a domain in lower case: \<open>suffix := blocked[1:]\<close>.\<close>

definition domain_hit :: "string \<Rightarrow> string \<Rightarrow> bool" where
  "domain_hit domain pat = (let blocked = to_lower pat
     in if has_prefix blocked ''*.''
        then (let sfx = drop 1 blocked in has_suffix domain sfx \<or> domain = drop 1 sfx)
        else domain = blocked)"

fun any_hit :: "string \<Rightarrow> string list \<Rightarrow> bool" where
  "any_hit domain [] = False"
| "any_hit domain (b # bs) = (if domain_hit domain b then True else any_hit domain bs)"

definition IsBlocked :: "complianceService \<Rightarrow> string \<Rightarrow> bool" where
  "IsBlocked c target = (let domain = extractDomain target
     in if domain = '''' then False else any_hit (to_lower domain) (cs_BlockedDomains c))"

definition IsGovernmentDomain :: "string \<Rightarrow> bool" where
  "IsGovernmentDomain domain =
     (\<exists>d \<in> set [''.gov'', ''.mil'', ''.gov.uk'', ''.gov.au'', ''.gc.ca'']. has_suffix (to_lower domain) d)"

definition IsFinancialDomain :: "string \<Rightarrow> bool" where
  "IsFinancialDomain domain =
     (\<exists>p \<in> set [''bank'', ''chase'', ''wellsfargo'', ''bankofamerica'', ''citibank''].
        str_contains (to_lower domain) p)"

definition ValidateKYC :: "complianceService \<Rightarrow> string \<Rightarrow> bool" where
  "ValidateKYC c userID = (\<not> cs_KYCRequired c)"

section \<open>Path helpers\<close>

text \<open>The value of \<open>name-value-...\<close> in the path, else the query parameter.\<close>

definition extractTarget :: "string \<Rightarrow> (string \<Rightarrow> string) \<Rightarrow> string \<Rightarrow> string" where
  "extractTarget path query targetType =
     (let prefx = targetType @ ''-''
      in case str_index path prefx of
           Some idx \<Rightarrow> cut_at ''-'' (drop (idx + length prefx) path)
         | None \<Rightarrow> query targetType)"

definition extractSessionFromPath :: "string \<Rightarrow> string" where
  "extractSessionFromPath path = (if path = '''' then '''' else
     case str_index path ''session-'' of
       None \<Rightarrow> ''''
     | Some idx \<Rightarrow> (let rest = drop (idx + length ''session-'') path
         in case str_index rest ''-'' of Some e \<Rightarrow> take e rest
            | None \<Rightarrow> (case str_index rest ''/'' of Some e \<Rightarrow> take e rest | None \<Rightarrow> rest)))"

definition extractHostFromTarget :: "string \<Rightarrow> string" where
  "extractHostFromTarget target = (if target = '''' then '''' else
     cut_at ''?'' (cut_at ''/'' (trim_prefix (trim_prefix target ''http://'') ''https://'')))"

section \<open>Lemmas\<close>

lemma lower_char_idem [simp]: "lower_char (lower_char c) = lower_char c"
  by (auto simp: lower_char_def of_char_of)

lemma to_lower_idem [simp]: "to_lower (to_lower s) = to_lower s"
  by (simp add: to_lower_def)

lemma to_lower_append [simp]: "to_lower (s @ t) = to_lower s @ to_lower t"
  by (simp add: to_lower_def)

lemma to_lower_Nil [simp]: "to_lower [] = []"
  by (simp add: to_lower_def)

lemma any_hit_iff: "any_hit domain bs \<longleftrightarrow> (\<exists>b \<in> set bs. domain_hit domain b)"
  by (induction bs) auto

lemma cut_at_char: "cut_at [c] s = takeWhile (\<lambda>x. x \<noteq> c) s"
proof (cases "str_index s [c]")
  case None
  then have "c \<notin> set s" by (simp add: str_index_single_None)
  then have "takeWhile (\<lambda>x. x \<noteq> c) s = s" by (subst takeWhile_eq_all_conv) auto
  then show ?thesis unfolding cut_at_def None option.case by (rule sym)
next
  case (Some i)
  have s: "s = take i s @ [c] @ drop (i + length [c]) s" using Some by (rule str_index_Some)
  have "\<forall>x \<in> set (take i s). x \<noteq> c" using str_index_single [OF Some] by auto
  then have "takeWhile (\<lambda>x. x \<noteq> c) (take i s @ [c] @ drop (i + length [c]) s) = take i s"
    by (simp add: takeWhile_append2)
  then show ?thesis using Some s by (simp add: cut_at_def)
qed

text \<open>The host of \<open>http\<close> and \<open>https\<close> targets and of bare ones.\<close>

lemma extractDomain_no_slash: "CHR ''/'' \<notin> set (extractDomain target)"
  by (auto simp: extractDomain_def cut_at_char dest: set_takeWhileD)

lemma trim_prefix_self [simp]: "trim_prefix (p @ s) p = s"
  by (simp add: trim_prefix_def has_prefix_def)

lemma trim_prefix_id: "\<not> prefix p s \<Longrightarrow> trim_prefix s p = s"
  by (simp add: trim_prefix_def has_prefix_iff)

lemma plain_host:
  assumes "CHR ''/'' \<notin> set h" and "rest = [] \<or> hd rest = CHR ''/''"
  shows "extractDomain (''https://'' @ h @ rest) = h"
proof -
  have "takeWhile (\<lambda>x. x \<noteq> CHR ''/'') (h @ rest) = h"
    using assms by (cases rest) (auto simp: takeWhile_tail takeWhile_eq_all_conv)
  then have "cut_at ''/'' (h @ rest) = h" by (simp add: cut_at_char)
  moreover have "trim_prefix (''https://'' @ h @ rest) ''http://'' = ''https://'' @ h @ rest"
    by (rule trim_prefix_id) simp
  ultimately show ?thesis unfolding extractDomain_def by (simp only: trim_prefix_self)
qed

text \<open>The specification of a pattern: \<open>*.d\<close> stands for \<open>d\<close> and its subdomains.\<close>

definition pattern_matches :: "string \<Rightarrow> string \<Rightarrow> bool" where
  "pattern_matches pat host \<longleftrightarrow>
     (if prefix ''*.'' pat then (\<exists>d. to_lower pat = ''*.'' @ d \<and>
         (to_lower host = d \<or> (\<exists>sub. to_lower host = sub @ ''.'' @ d)))
      else to_lower host = to_lower pat)"

lemma lower_char_eq: "(of_char d :: nat) < 65 \<Longrightarrow> lower_char c = d \<longleftrightarrow> c = d"
proof -
  assume d: "(of_char d :: nat) < 65"
  have "char_of ((of_char c :: nat) + 32) \<noteq> d" if "65 \<le> (of_char c :: nat)" "(of_char c :: nat) \<le> 90"
  proof
    assume "char_of ((of_char c :: nat) + 32) = d"
    then have "(of_char d :: nat) = (of_char c + 32) mod 256" by (metis of_char_of)
    with that d show False by simp
  qed
  with d show ?thesis by (auto simp: lower_char_def)
qed

lemma lower_star_dot: "prefix ''*.'' (to_lower p) \<longleftrightarrow> prefix ''*.'' p"
proof -
  have "lower_char c = CHR ''*'' \<longleftrightarrow> c = CHR ''*''" and "lower_char c = CHR ''.'' \<longleftrightarrow> c = CHR ''.''" for c
    by (rule lower_char_eq; simp)+
  note lower = this
  show ?thesis
  proof (cases p)
    case (Cons c cs)
    then show ?thesis by (cases cs) (simp_all add: to_lower_def lower eq_commute [of "CHR ''*''"] eq_commute [of "CHR ''.''"])
  qed (simp add: to_lower_def)
qed

lemma domain_hit_iff: "domain_hit (to_lower host) pat \<longleftrightarrow> pattern_matches pat host"
proof (cases "prefix ''*.'' pat")
  case True
  then obtain d where d: "to_lower pat = ''*.'' @ d" by (metis lower_star_dot prefixE)
  then have "has_prefix (to_lower pat) ''*.''" by (simp add: has_prefix_def)
  with True d show ?thesis
    by (auto simp: domain_hit_def pattern_matches_def Let_def has_suffix_iff suffix_def)
next
  case False
  then have "\<not> has_prefix (to_lower pat) ''*.''" by (simp add: has_prefix_iff lower_star_dot)
  with False show ?thesis by (simp add: domain_hit_def pattern_matches_def Let_def)
qed

section \<open>Properties\<close>

text \<open>C6: A target is blocked exactly when its host is not empty and some configured pattern matches
  it: the host itself, or for a pattern \<open>*.d\<close> the domain \<open>d\<close> and every subdomain of it, both without
  regard to case.\<close>

theorem IsBlocked_spec:
  "IsBlocked c target \<longleftrightarrow> extractDomain target \<noteq> '''' \<and>
    (\<exists>pat \<in> set (cs_BlockedDomains c). pattern_matches pat (extractDomain target))"
  by (simp add: IsBlocked_def any_hit_iff domain_hit_iff Let_def)

lemma lower_mem: "(of_char x :: nat) < 65 \<Longrightarrow> x \<in> set (to_lower s) \<longleftrightarrow> x \<in> set s"
proof -
  assume "(of_char x :: nat) < 65"
  then have "lower_char c = x \<longleftrightarrow> c = x" for c by (rule lower_char_eq)
  then show ?thesis by (induction s) (simp_all add: to_lower_def eq_commute [of x])
qed

lemma colon_lower: "CHR '':'' \<in> set (to_lower s) \<longleftrightarrow> CHR '':'' \<in> set s"
  by (rule lower_mem) simp

lemma dot_lower: "CHR ''.'' \<in> set (to_lower s) \<longleftrightarrow> CHR ''.'' \<in> set s"
  by (rule lower_mem) simp

lemma pattern_port:
  assumes "CHR '':'' \<notin> set pat" and "CHR ''.'' \<notin> set port"
  shows "\<not> pattern_matches pat (h @ '':'' @ port)"
proof
  assume m: "pattern_matches pat (h @ '':'' @ port)"
  let ?host = "to_lower (h @ '':'' @ port)"
  have colon: "CHR '':'' \<in> set ?host" by (simp add: colon_lower del: to_lower_append)
  have nc: "CHR '':'' \<notin> set (to_lower pat)" using assms(1) by (simp add: colon_lower)
  from m consider "?host = to_lower pat"
    | d where "to_lower pat = ''*.'' @ d" "?host = d"
    | d sub where "to_lower pat = ''*.'' @ d" "?host = sub @ ''.'' @ d"
    unfolding pattern_matches_def by (metis (full_types))
  then show False
  proof cases
    case 1
    with colon nc show False by metis
  next
    case 2
    then have "set ?host \<subseteq> set (to_lower pat)" by auto
    with colon nc show False by blast
  next
    case 3
    then have d: "CHR '':'' \<notin> set (''.'' @ d)" using nc by auto
    have "to_lower h @ to_lower '':'' @ to_lower port = sub @ ''.'' @ d"
      using 3(2) by (simp only: to_lower_append)
    moreover have "to_lower '':'' = '':''" by (simp add: to_lower_def lower_char_def)
    ultimately have "(to_lower h @ '':'') @ to_lower port = sub @ (''.'' @ d)" by simp
    then obtain us where "(to_lower h @ '':'' = sub @ us \<and> us @ to_lower port = ''.'' @ d) \<or>
        ((to_lower h @ '':'') @ us = sub \<and> to_lower port = us @ (''.'' @ d))"
      by (auto simp only: append_eq_append_conv2)
    then show False
    proof
      assume a: "to_lower h @ '':'' = sub @ us \<and> us @ to_lower port = ''.'' @ d"
      then have "CHR '':'' \<notin> set us" using d by (metis Un_iff set_append)
      with a have "us = []" by (metis append_is_Nil_conv last_appendR last_in_set last_snoc list.simps(3))
      with a have "CHR ''.'' \<in> set (to_lower port)" by simp
      with assms(2) show False by (simp add: dot_lower)
    next
      assume "(to_lower h @ '':'') @ us = sub \<and> to_lower port = us @ (''.'' @ d)"
      then have "CHR ''.'' \<in> set (to_lower port)" by simp
      with assms(2) show False by (simp add: dot_lower)
    qed
  qed
qed

text \<open>Naming a port evades the block list: a target whose host ends in a colon and a port is never
  blocked by patterns without a colon, whatever they are.\<close>

theorem port_evades_block:
  assumes "\<forall>pat \<in> set (cs_BlockedDomains c). CHR '':'' \<notin> set pat"
    and "extractDomain target = h @ '':'' @ port" and "CHR ''.'' \<notin> set port"
  shows "\<not> IsBlocked c target"
  using assms pattern_port unfolding IsBlocked_def any_hit_iff domain_hit_iff Let_def by metis

theorem port_evades_block_witness:
  "IsBlocked (NewComplianceService [''*.bank.com''] False) ''https://www.bank.com/'' \<and>
    \<not> IsBlocked (NewComplianceService [''*.bank.com''] False) ''https://www.bank.com:443/''"
proof
  show "IsBlocked (NewComplianceService [''*.bank.com''] False) ''https://www.bank.com/''"
    by code_simp
  show "\<not> IsBlocked (NewComplianceService [''*.bank.com''] False) ''https://www.bank.com:443/''"
    by (rule port_evades_block [where h = "''www.bank.com''" and port = "''443''"])
      (simp add: NewComplianceService_def, code_simp, simp)
qed

end
