(* ===== verification/Go_Sort.thy ===== *)
theory Go_Sort
  imports Prelude
begin

text \<open>
  The in-place exchange sort the repository writes out wherever it ranks something:

    for i := 0; i < len(xs)-1; i++ {
      for j := i + 1; j < len(xs); j++ { if less(xs[j], xs[i]) { swap } } }

  The double loop over indices is proved equal to a recursive selection sort; permutation and
  order are proved for that once, in a locale that states what the comparison must satisfy on the
  elements compared (which a comparison of floats satisfies only away from NaN).
\<close>

section \<open>The loops\<close>

definition list_swap :: "nat \<Rightarrow> nat \<Rightarrow> 'a list \<Rightarrow> 'a list" where
  "list_swap i j xs = xs[i := xs ! j, j := xs ! i]"

function exch_inner :: "('a \<Rightarrow> 'a \<Rightarrow> bool) \<Rightarrow> nat \<Rightarrow> nat \<Rightarrow> 'a list \<Rightarrow> 'a list" where
  "exch_inner lt i j xs = (if j < length xs
     then exch_inner lt i (Suc j) (if lt (xs ! j) (xs ! i) then list_swap i j xs else xs) else xs)"
  by pat_completeness auto
termination by (relation "measure (\<lambda>(lt, i, j, xs). length xs - j)") (auto simp: list_swap_def)

declare exch_inner.simps [simp del]

lemma length_exch_inner [simp]: "length (exch_inner lt i j xs) = length xs"
proof (induction lt i j xs rule: exch_inner.induct)
  case (1 lt i j xs)
  then show ?case by (subst exch_inner.simps) (auto simp: list_swap_def)
qed

function exch_outer :: "('a \<Rightarrow> 'a \<Rightarrow> bool) \<Rightarrow> nat \<Rightarrow> 'a list \<Rightarrow> 'a list" where
  "exch_outer lt i xs = (if Suc i < length xs
     then exch_outer lt (Suc i) (exch_inner lt i (Suc i) xs) else xs)"
  by pat_completeness auto
termination by (relation "measure (\<lambda>(lt, i, xs). length xs - i)") auto

declare exch_outer.simps [simp del]

definition exchange_sort :: "('a \<Rightarrow> 'a \<Rightarrow> bool) \<Rightarrow> 'a list \<Rightarrow> 'a list" where
  "exchange_sort lt xs = exch_outer lt 0 xs"

section \<open>The reference\<close>

text \<open>One pass: the element that ends in front, and the others in the places the swaps leave them.\<close>

fun pull_min :: "('a \<Rightarrow> 'a \<Rightarrow> bool) \<Rightarrow> 'a \<Rightarrow> 'a list \<Rightarrow> 'a \<times> 'a list" where
  "pull_min lt x [] = (x, [])"
| "pull_min lt x (y # ys) = (if lt y x then (case pull_min lt y ys of (m, zs) \<Rightarrow> (m, x # zs))
     else (case pull_min lt x ys of (m, zs) \<Rightarrow> (m, y # zs)))"

lemma length_pull_min [simp]: "pull_min lt x ys = (m, zs) \<Longrightarrow> length zs = length ys"
  by (induction ys arbitrary: x m zs) (auto split: if_splits prod.splits)

function sel_sort :: "('a \<Rightarrow> 'a \<Rightarrow> bool) \<Rightarrow> 'a list \<Rightarrow> 'a list" where
  "sel_sort lt [] = []"
| "sel_sort lt (x # xs) = (case pull_min lt x xs of (m, zs) \<Rightarrow> m # sel_sort lt zs)"
  by pat_completeness auto
termination
  by (relation "measure (\<lambda>(lt, xs). length xs)") (simp_all add: length_pull_min [OF sym])

lemma inner_refines:
  assumes "pull_min lt x ys = (m, zs)"
  shows "exch_inner lt (length pre) (length pre + Suc (length mid)) (pre @ x # mid @ ys) = pre @ m # mid @ zs"
  using assms
proof (induction ys arbitrary: x mid m zs)
  case Nil
  then show ?case by (simp add: exch_inner.simps)
next
  case (Cons y ys)
  let ?xs = "pre @ x # mid @ y # ys"
  let ?j = "length pre + Suc (length mid)"
  have j: "?j = length (pre @ x # mid)" and e: "?xs = (pre @ x # mid) @ y # ys" by simp_all
  have "?xs ! ?j = ((pre @ x # mid) @ y # ys) ! length (pre @ x # mid)" by (simp only: j e)
  also have "\<dots> = y" by (rule nth_append_length)
  finally have at_j: "?xs ! Suc (length pre + length mid) = y" by (simp only: add_Suc_right)
  have at_i: "?xs ! length pre = x" by (rule nth_append_length)
  have sw: "list_swap (length pre) (Suc (length pre + length mid)) ?xs = pre @ y # mid @ x # ys"
    by (simp add: list_swap_def at_i at_j list_update_append)
  show ?case
  proof (cases "lt y x")
    case True
    then obtain zs' where z: "pull_min lt y ys = (m, zs')" "zs = x # zs'"
      using Cons.prems by (auto split: prod.splits)
    have "exch_inner lt (length pre) ?j ?xs = exch_inner lt (length pre) (Suc ?j) (pre @ y # mid @ x # ys)"
      using True by (subst exch_inner.simps) (simp add: at_i at_j sw)
    also have "\<dots> = pre @ m # mid @ zs"
      using Cons.IH [OF z(1), of "mid @ [x]"] z(2) by simp
    finally show ?thesis .
  next
    case False
    then obtain zs' where z: "pull_min lt x ys = (m, zs')" "zs = y # zs'"
      using Cons.prems by (auto split: prod.splits)
    have "exch_inner lt (length pre) ?j ?xs = exch_inner lt (length pre) (Suc ?j) ?xs"
      using False by (subst exch_inner.simps) (simp add: at_i at_j)
    also have "\<dots> = pre @ m # mid @ zs"
      using Cons.IH [OF z(1), of "mid @ [y]"] z(2) by simp
    finally show ?thesis .
  qed
qed

lemma outer_refines: "exch_outer lt (length pre) (pre @ xs) = pre @ sel_sort lt xs"
proof (induction "length xs" arbitrary: pre xs)
  case 0
  then show ?case by (simp add: exch_outer.simps)
next
  case (Suc n)
  then obtain x ys where xs: "xs = x # ys" by (cases xs) auto
  obtain m zs where p: "pull_min lt x ys = (m, zs)" by fastforce
  show ?case
  proof (cases ys)
    case Nil
    with xs p show ?thesis by (simp add: exch_outer.simps)
  next
    case (Cons y ys')
    have "exch_outer lt (length pre) (pre @ xs) = exch_outer lt (Suc (length pre)) (pre @ m # zs)"
      using inner_refines [OF p, of pre "[]"] Cons by (subst exch_outer.simps) (simp add: xs)
    also have "\<dots> = (pre @ [m]) @ sel_sort lt zs"
      using Suc.hyps(1) [of zs "pre @ [m]"] Suc.hyps(2) p xs by simp
    finally show ?thesis using xs p by simp
  qed
qed

lemma exchange_sort_sel: "exchange_sort lt xs = sel_sort lt xs"
  using outer_refines [of lt "[]" xs] by (simp add: exchange_sort_def)

section \<open>Permutation and order\<close>

lemma mset_pull_min: "pull_min lt x ys = (m, zs) \<Longrightarrow> add_mset m (mset zs) = add_mset x (mset ys)"
  by (induction ys arbitrary: x m zs) (fastforce split: if_splits prod.splits)+

lemma mset_exchange_sort [simp]: "mset (exchange_sort lt xs) = mset xs"
  unfolding exchange_sort_sel
  by (induction lt xs rule: sel_sort.induct) (auto split: prod.splits dest: mset_pull_min)

lemma set_exchange_sort [simp]: "set (exchange_sort lt xs) = set xs"
  by (metis mset_exchange_sort set_mset_mset)

lemma length_exchange_sort [simp]: "length (exchange_sort lt xs) = length xs"
  by (metis mset_exchange_sort size_mset)

lemma distinct_exchange_sort [simp]: "distinct (exchange_sort lt xs) = distinct xs"
  by (metis mset_exchange_sort mset_eq_imp_distinct_iff)

text \<open>What the comparison must satisfy on the elements it meets: a strict weak order.\<close>

locale weak_order =
  fixes lt :: "'a \<Rightarrow> 'a \<Rightarrow> bool" and A :: "'a set"
  assumes lt_asym: "x \<in> A \<Longrightarrow> y \<in> A \<Longrightarrow> lt x y \<Longrightarrow> \<not> lt y x"
    and lt_negtrans: "x \<in> A \<Longrightarrow> y \<in> A \<Longrightarrow> z \<in> A \<Longrightarrow> \<not> lt x y \<Longrightarrow> \<not> lt y z \<Longrightarrow> \<not> lt x z"
begin

lemma pull_min_least:
  assumes "pull_min lt x ys = (m, zs)" and "insert x (set ys) \<subseteq> A"
  shows "\<not> lt x m \<and> (\<forall>z \<in> set zs. \<not> lt z m) \<and> insert m (set zs) = insert x (set ys)"
  using assms
proof (induction ys arbitrary: x m zs)
  case Nil
  then show ?case using lt_asym [of x x] by auto
next
  case (Cons y ys)
  show ?case
  proof (cases "lt y x")
    case True
    then obtain zs' where z: "pull_min lt y ys = (m, zs')" "zs = x # zs'"
      using Cons.prems by (auto split: prod.splits)
    have IH: "\<not> lt y m \<and> (\<forall>z \<in> set zs'. \<not> lt z m) \<and> insert m (set zs') = insert y (set ys)"
      using Cons.IH [OF z(1)] Cons.prems(2) by simp
    then have "m \<in> A" using Cons.prems(2) by auto
    then have "\<not> lt x m" using lt_negtrans [of x y m] lt_asym [of y x] True IH Cons.prems(2) by auto
    with IH z show ?thesis by auto
  next
    case False
    then obtain zs' where z: "pull_min lt x ys = (m, zs')" "zs = y # zs'"
      using Cons.prems by (auto split: prod.splits)
    have IH: "\<not> lt x m \<and> (\<forall>z \<in> set zs'. \<not> lt z m) \<and> insert m (set zs') = insert x (set ys)"
      using Cons.IH [OF z(1)] Cons.prems(2) by simp
    then have "m \<in> A" using Cons.prems(2) by auto
    then have "\<not> lt y m" using lt_negtrans [of y x m] False IH Cons.prems(2) by auto
    with IH z show ?thesis by auto
  qed
qed

lemma exchange_sorted: "set xs \<subseteq> A \<Longrightarrow> sorted_wrt (\<lambda>x y. \<not> lt y x) (exchange_sort lt xs)"
  unfolding exchange_sort_sel
proof (induction "length xs" arbitrary: xs)
  case (Suc n)
  then obtain x ys where xs: "xs = x # ys" by (cases xs) auto
  obtain m zs where p: "pull_min lt x ys = (m, zs)" by fastforce
  have l: "\<forall>z \<in> set zs. \<not> lt z m" "insert m (set zs) = insert x (set ys)"
    using pull_min_least [OF p] Suc.prems xs by auto
  have "set zs \<subseteq> A" using l(2) Suc.prems xs by auto
  have "set (sel_sort lt zs) = set zs" using set_exchange_sort [of lt zs] by (simp add: exchange_sort_sel)
  moreover have "sorted_wrt (\<lambda>x y. \<not> lt y x) (sel_sort lt zs)"
    using Suc.hyps(1) [of zs] Suc.hyps(2) \<open>set zs \<subseteq> A\<close> p xs by simp
  ultimately show ?case using l(1) xs p by (simp only: sel_sort.simps prod.case sorted_wrt.simps)
qed simp

text \<open>What a cut of the ranking leaves out is no better than what it keeps.\<close>

lemma exchange_top:
  assumes "set xs \<subseteq> A" and "y \<in> set (take n (exchange_sort lt xs))" and "z \<in> set (drop n (exchange_sort lt xs))"
  shows "\<not> lt z y"
  using exchange_sorted [OF assms(1)] assms(2,3)
  by (metis append_take_drop_id sorted_wrt_append)

end

text \<open>Comparing by an integer key, either way.\<close>

interpretation int_key: weak_order "\<lambda>x y. (key x :: int) < key y" UNIV for key
  by unfold_locales auto

interpretation int_key_desc: weak_order "\<lambda>x y. (key x :: int) > key y" UNIV for key
  by unfold_locales auto

end
