(* ===== verification/Health.thy ===== *)
theory Health
  imports Go_Sort Redis_Api
begin

text \<open>
  Health of peers and of the system: composite scores (\<open>matchmaker/peer_health.go\<close>), the history
  of health reports (\<open>matchmaker/health_history.go\<close>), the node scores of \<open>gateway/batch.go\<close> and
  the component checks of \<open>health/service.go\<close>, whose three statuses are made a linear order so
  that the overall status is their maximum. Scores are computed in binary64; their bounds and
  monotonicity are proved for the rounded arithmetic.

  JSON text of a sample and the RFC 3339 text of an instant are library functions and are
  parameters (\<open>hlib\<close>).
\<close>

section \<open>Peer scores\<close>

record peerHealth =
  ph_NodeID :: string
  ph_ConnectionScore :: f64
  ph_LatencyScore :: f64
  ph_BandwidthScore :: f64
  ph_ReliabilityScore :: f64
  ph_OverallScore :: f64
  ph_LastChecked :: time

record healthScorePoint =
  hp_OverallScore :: f64
  hp_Timestamp :: time

record hlib =
  lib_marshal :: "healthScorePoint \<Rightarrow> string option"
  lib_unmarshal :: "string \<Rightarrow> healthScorePoint option"
  lib_float :: "f64 \<Rightarrow> string"
  lib_rfc3339 :: "time \<Rightarrow> string"

type_synonym peerScores = "string \<rightharpoonup> peerHealth"

definition NewPeerHealthScore :: peerScores where "NewPeerHealthScore = Map.empty"

definition healthScoreHistoryMax :: int where "healthScoreHistoryMax = 100"

definition peer_latencyScore :: "int \<Rightarrow> f64" where
  "peer_latencyScore latencyMs =
     (if latencyMs \<le> 30 then f_int 100 else if latencyMs \<ge> 500 then f_int 0
      else f_sub (f_int 100) (f_div (f_mul (f_sub (f_int latencyMs) (f_int 30)) (f_int 100)) (f_int 470)))"

definition peer_bandwidthScore :: "f64 \<Rightarrow> f64" where
  "peer_bandwidthScore mbps =
     (if f_le (f_int 100) mbps then f_int 100 else if f_le mbps (f_int 1) then f_int 0
      else f_mul (f_div mbps (f_int 100)) (f_int 100))"

definition peer_connectionScore :: "f64 \<Rightarrow> f64 \<Rightarrow> f64 \<Rightarrow> f64" where
  "peer_connectionScore latencyScore bandwidthScore reliabilityScore =
     f_div (f_add (f_add latencyScore bandwidthScore) reliabilityScore) (f_int 3)"

definition peer_overall :: "f64 \<Rightarrow> f64 \<Rightarrow> f64 \<Rightarrow> f64 \<Rightarrow> f64" where
  "peer_overall connectionScore latencyScore bandwidthScore reliabilityScore =
     f_add (f_add (f_add (f_mul connectionScore (f_lit (3 / 10))) (f_mul latencyScore (f_lit (1 / 4))))
       (f_mul bandwidthScore (f_lit (1 / 5)))) (f_mul reliabilityScore (f_lit (1 / 4)))"

definition peer_health_of :: "time \<Rightarrow> string \<Rightarrow> int \<Rightarrow> f64 \<Rightarrow> f64 \<Rightarrow> peerHealth" where
  "peer_health_of now nodeID latencyMs bandwidthMbps reliability =
     (let latencyScore = peer_latencyScore latencyMs;
          bandwidthScore = peer_bandwidthScore bandwidthMbps;
          reliabilityScore = f_mul reliability (f_int 100);
          connectionScore = peer_connectionScore latencyScore bandwidthScore reliabilityScore
      in \<lparr>ph_NodeID = nodeID, ph_ConnectionScore = connectionScore, ph_LatencyScore = latencyScore,
          ph_BandwidthScore = bandwidthScore, ph_ReliabilityScore = reliabilityScore,
          ph_OverallScore = peer_overall connectionScore latencyScore bandwidthScore reliabilityScore,
          ph_LastChecked = now\<rparr>)"

definition RecordHistory :: "hlib \<Rightarrow> 'r redis option \<Rightarrow> time \<Rightarrow> string \<Rightarrow> f64 \<Rightarrow> 'r \<Rightarrow> 'r" where
  "RecordHistory lib h now nodeID overall st = (case h of None \<Rightarrow> st | Some R \<Rightarrow>
     (case lib_marshal lib \<lparr>hp_OverallScore = overall, hp_Timestamp = now\<rparr> of
        None \<Rightarrow> st
      | Some data \<Rightarrow>
          let key = ''healthscore:history:'' @ nodeID;
              st1 = snd (cRPush R key data st)
          in snd (cLTrim R key (- healthScoreHistoryMax) (- 1) st1)))"

text \<open>The clock is read twice: for the score and for the history sample.\<close>

definition peer_UpdateScore ::
    "hlib \<Rightarrow> 'r redis option \<Rightarrow> time \<Rightarrow> time \<Rightarrow> string \<Rightarrow> int \<Rightarrow> f64 \<Rightarrow> f64
      \<Rightarrow> peerScores \<times> 'r \<Rightarrow> peerScores \<times> 'r" where
  "peer_UpdateScore lib h now now' nodeID latencyMs bandwidthMbps reliability = (\<lambda>(scores, st).
     let p = peer_health_of now nodeID latencyMs bandwidthMbps reliability;
         scores' = scores(nodeID \<mapsto> p)
     in case h of None \<Rightarrow> (scores', st)
        | Some R \<Rightarrow>
            let st1 = snd (cHSet R (''peer:health:'' @ nodeID)
                  [(''connection_score'', lib_float lib (ph_ConnectionScore p)),
                   (''latency_score'', lib_float lib (ph_LatencyScore p)),
                   (''bandwidth_score'', lib_float lib (ph_BandwidthScore p)),
                   (''reliability_score'', lib_float lib (ph_ReliabilityScore p)),
                   (''overall_score'', lib_float lib (ph_OverallScore p))] st)
            in (scores', RecordHistory lib h now' nodeID (ph_OverallScore p) st1))"

definition peer_GetHistory :: "hlib \<Rightarrow> 'r redis option \<Rightarrow> string \<Rightarrow> 'r \<Rightarrow> healthScorePoint list \<times> 'r" where
  "peer_GetHistory lib h nodeID st = (case h of None \<Rightarrow> ([], st) | Some R \<Rightarrow>
     (case cLRange R (''healthscore:history:'' @ nodeID) (- healthScoreHistoryMax) (- 1) st of
        (Inl e, st') \<Rightarrow> ([], st')
      | (Inr data, st') \<Rightarrow> (List.map_filter (lib_unmarshal lib) data, st')))"

definition peer_GetScore :: "string \<Rightarrow> peerScores \<Rightarrow> peerHealth option" where
  "peer_GetScore nodeID scores = scores nodeID"

text \<open>The peers in the order the map is ranged over; \<open>peers[:count]\<close> panics on a negative count.\<close>

definition peer_GetTopPeers :: "string list \<Rightarrow> int \<Rightarrow> peerScores \<Rightarrow> peerHealth list option" where
  "peer_GetTopPeers order topN scores =
     (let peers = exchange_sort (\<lambda>p q. f_lt (ph_OverallScore q) (ph_OverallScore p))
            (List.map_filter scores order)
      in if topN < int (length peers)
         then (if topN < 0 then None else Some (take (nat topN) peers)) else Some peers)"

section \<open>Health reports\<close>

record healthStatus =
  hs_NodeID :: string
  hs_Status :: string
  hs_Message :: string
  hs_LatencyMs :: int
  hs_Timestamp :: time

record healthHistory =
  hh_history :: "string \<Rightarrow> healthStatus list"
  hh_maxEntries :: int

definition NewHealthHistory :: "int \<Rightarrow> healthHistory" where
  "NewHealthHistory maxEntries = \<lparr>hh_history = (\<lambda>_. []),
     hh_maxEntries = (if maxEntries \<le> 0 then 100 else maxEntries)\<rparr>"

definition health_line :: "hlib \<Rightarrow> string \<Rightarrow> string \<Rightarrow> time \<Rightarrow> int \<Rightarrow> string" where
  "health_line lib status message now latencyMs =
     status @ ''|'' @ message @ ''|'' @ lib_rfc3339 lib now @ ''|'' @ show_int latencyMs @ ''|0''"

definition RecordHealth ::
    "hlib \<Rightarrow> 'r redis option \<Rightarrow> time \<Rightarrow> string \<Rightarrow> string \<Rightarrow> string \<Rightarrow> int
      \<Rightarrow> healthHistory \<times> 'r \<Rightarrow> healthHistory \<times> 'r" where
  "RecordHealth lib h now nodeID status message latencyMs = (\<lambda>(hh, st).
     let entry = \<lparr>hs_NodeID = nodeID, hs_Status = status, hs_Message = message,
           hs_LatencyMs = latencyMs, hs_Timestamp = now\<rparr>;
         hh' = hh\<lparr>hh_history := (hh_history hh)(nodeID :=
           push_bounded (hh_maxEntries hh) entry (hh_history hh nodeID))\<rparr>
     in case h of None \<Rightarrow> (hh', st)
        | Some R \<Rightarrow>
            let key = ''health:'' @ nodeID;
                st1 = snd (cRPush R key (health_line lib status message now latencyMs) st)
            in (hh', snd (cLTrim R key (- hh_maxEntries hh) (- 1) st1)))"

text \<open>
  \<open>fmt.Sscanf(d, "%s|...", ...)\<close>: the verb \<open>%s\<close> takes everything up to white space, so it
  leaves no bar for the format to match, and the scan stops with only the status set.
\<close>

definition scan_word :: "string \<Rightarrow> string" where
  "scan_word d = takeWhile (\<lambda>c. c \<noteq> CHR '' '') (dropWhile (\<lambda>c. c = CHR '' '') d)"

definition read_status :: "string \<Rightarrow> string \<Rightarrow> healthStatus" where
  "read_status nodeID d = \<lparr>hs_NodeID = nodeID, hs_Status = scan_word d, hs_Message = '''',
     hs_LatencyMs = 0, hs_Timestamp = zero_time\<rparr>"

definition hh_GetHistory ::
    "'r redis option \<Rightarrow> string \<Rightarrow> int \<Rightarrow> healthHistory \<Rightarrow> 'r \<Rightarrow> healthStatus list \<times> 'r" where
  "hh_GetHistory h nodeID limit0 hh st =
     (let limit = (if limit0 \<le> 0 \<or> limit0 > hh_maxEntries hh then hh_maxEntries hh else limit0);
          history = hh_history hh nodeID;
          (history', st') = (case h of
              Some R \<Rightarrow> if history = [] then
                  (case cLRange R (''health:'' @ nodeID) 0 (limit - 1) st of
                     (Inr data, st1) \<Rightarrow> (map (read_status nodeID) data, st1)
                   | (Inl e, st1) \<Rightarrow> (history, st1))
                else (history, st)
            | None \<Rightarrow> (history, st))
      in (if limit < int (length history') then take (nat limit) history' else history', st'))"

definition GetStatusTimeline :: "time \<Rightarrow> string \<Rightarrow> duration \<Rightarrow> healthHistory \<Rightarrow> healthStatus list" where
  "GetStatusTimeline now nodeID d hh =
     (let cutoff = now + i64 (- d) in filter (\<lambda>s. hs_Timestamp s > cutoff) (hh_history hh nodeID))"

definition GetUptimePercentage :: "time \<Rightarrow> string \<Rightarrow> duration \<Rightarrow> healthHistory \<Rightarrow> f64" where
  "GetUptimePercentage now nodeID d hh =
     (let timeline = GetStatusTimeline now nodeID d hh
      in if timeline = [] then f_int 0
         else f_mul (f_div (f_int (int (length (filter (\<lambda>s. hs_Status s = ''healthy'') timeline))))
                (f_int (int (length timeline)))) (f_int 100))"

definition GetAverageLatency :: "time \<Rightarrow> string \<Rightarrow> duration \<Rightarrow> healthHistory \<Rightarrow> int" where
  "GetAverageLatency now nodeID d hh =
     (let timeline = GetStatusTimeline now nodeID d hh
      in if timeline = [] then 0
         else fold (\<lambda>s acc. i64 (acc + hs_LatencyMs s)) timeline 0 sdiv int (length timeline))"

section \<open>Node scores of the batch service\<close>

record healthWeights =
  w_Latency :: f64
  w_Load :: f64
  w_SuccessRate :: f64
  w_Reputation :: f64
  w_Uptime :: f64

record nodeScore =
  ns_NodeID :: string
  ns_TotalScore :: f64
  ns_LatencyScore :: f64
  ns_LoadScore :: f64
  ns_SuccessScore :: f64
  ns_Reputation :: f64
  ns_UptimeScore :: f64
  ns_LastUpdate :: time

record nodeHealthScore =
  nhs_scores :: "string \<rightharpoonup> nodeScore"
  nhs_weights :: healthWeights

definition NewNodeHealthScore :: "healthWeights \<Rightarrow> nodeHealthScore" where
  "NewNodeHealthScore weights = \<lparr>nhs_scores = Map.empty,
     nhs_weights = (if f_eq (w_Latency weights) (f_int 0)
       then \<lparr>w_Latency = f_int 30, w_Load = f_int 20, w_SuccessRate = f_int 30,
             w_Reputation = f_int 15, w_Uptime = f_int 5\<rparr> else weights)\<rparr>"

definition node_latencyScore :: "int \<Rightarrow> f64" where
  "node_latencyScore latencyMs =
     (if latencyMs \<le> 50 then f_int 100 else if latencyMs \<ge> 500 then f_int 0
      else f_sub (f_int 100) (f_div (f_mul (f_sub (f_int latencyMs) (f_int 50)) (f_int 100)) (f_int 450)))"

definition node_loadScore :: "int \<Rightarrow> f64" where
  "node_loadScore load =
     (if load \<le> 10 then f_int 100 else if load \<ge> 100 then f_int 0
      else f_sub (f_int 100) (f_div (f_mul (f_int load) (f_int 100)) (f_int 90)))"

definition node_uptimeScore :: "f64 \<Rightarrow> f64" where
  "node_uptimeScore uptimeHours =
     (if f_le (f_int 720) uptimeHours then f_int 100
      else f_mul (f_div uptimeHours (f_int 720)) (f_int 100))"

definition weighted :: "f64 \<Rightarrow> f64 \<Rightarrow> f64" where
  "weighted score weight = f_div (f_mul score weight) (f_int 100)"

definition CalculateScore ::
    "time \<Rightarrow> string \<Rightarrow> int \<Rightarrow> int \<Rightarrow> f64 \<Rightarrow> f64 \<Rightarrow> f64 \<Rightarrow> nodeHealthScore \<Rightarrow> f64 \<times> nodeHealthScore" where
  "CalculateScore now nodeID latencyMs load successRate reputation uptimeHours nhs =
     (let latencyScore = node_latencyScore latencyMs;
          loadScore = node_loadScore load;
          successScore = f_mul successRate (f_int 100);
          uptimeScore = node_uptimeScore uptimeHours;
          w = nhs_weights nhs;
          totalScore = f_add (f_add (f_add (f_add (weighted latencyScore (w_Latency w))
            (weighted loadScore (w_Load w))) (weighted successScore (w_SuccessRate w)))
            (weighted reputation (w_Reputation w))) (weighted uptimeScore (w_Uptime w))
      in (totalScore, nhs\<lparr>nhs_scores := (nhs_scores nhs)(nodeID \<mapsto>
           \<lparr>ns_NodeID = nodeID, ns_TotalScore = totalScore, ns_LatencyScore = latencyScore,
            ns_LoadScore = loadScore, ns_SuccessScore = successScore, ns_Reputation = reputation,
            ns_UptimeScore = uptimeScore, ns_LastUpdate = now\<rparr>)\<rparr>))"

definition node_GetScore :: "string \<Rightarrow> nodeHealthScore \<Rightarrow> nodeScore option" where
  "node_GetScore nodeID nhs = nhs_scores nhs nodeID"

definition node_GetAllScores :: "string list \<Rightarrow> nodeHealthScore \<Rightarrow> nodeScore list" where
  "node_GetAllScores order nhs = List.map_filter (nhs_scores nhs) order"

definition node_GetTopNodes :: "string list \<Rightarrow> int \<Rightarrow> nodeHealthScore \<Rightarrow> string list option" where
  "node_GetTopNodes order topN nhs = (if topN < 0 then None
     else Some (map ns_NodeID (take (nat topN) (exchange_sort
       (\<lambda>p q. f_lt (ns_TotalScore q) (ns_TotalScore p)) (node_GetAllScores order nhs)))))"

section \<open>System checks\<close>

datatype status = StatusHealthy | StatusDegraded | StatusUnhealthy

text \<open>Statuses in order of severity.\<close>

fun severity :: "status \<Rightarrow> nat" where
  "severity StatusHealthy = 0"
| "severity StatusDegraded = 1"
| "severity StatusUnhealthy = 2"

instantiation status :: linorder
begin

definition less_eq_status :: "status \<Rightarrow> status \<Rightarrow> bool" where
  "less_eq_status a b \<longleftrightarrow> severity a \<le> severity b"

definition less_status :: "status \<Rightarrow> status \<Rightarrow> bool" where
  "less_status a b \<longleftrightarrow> severity a < severity b"

instance
proof
  fix a b :: status
  show "a \<le> b \<Longrightarrow> b \<le> a \<Longrightarrow> a = b"
    by (cases a; cases b) (simp_all add: less_eq_status_def)
qed (auto simp: less_eq_status_def less_status_def)

end

datatype component = ComponentRedis | ComponentMemory | ComponentDisk | ComponentGateway

record healthCheck =
  hc_Component :: component
  hc_Status :: status
  hc_LatencyMs :: int
  hc_Message :: string

record healthService =
  sv_memThreshold :: f64
  sv_diskThreshold :: f64

definition NewHealthService :: healthService where
  "NewHealthService = \<lparr>sv_memThreshold = f_int 90, sv_diskThreshold = f_int 90\<rparr>"

definition SetThresholds :: "f64 \<Rightarrow> f64 \<Rightarrow> healthService \<Rightarrow> healthService" where
  "SetThresholds memPct diskPct s = \<lparr>sv_memThreshold = memPct, sv_diskThreshold = diskPct\<rparr>"

definition mk_check :: "component \<Rightarrow> status \<Rightarrow> int \<Rightarrow> string \<Rightarrow> healthCheck" where
  "mk_check c s l m = \<lparr>hc_Component = c, hc_Status = s, hc_LatencyMs = l, hc_Message = m\<rparr>"

text \<open>The outcome of the ping (an error text, if any) and how long it took.\<close>

definition CheckRedis :: "string option \<Rightarrow> int \<Rightarrow> healthCheck" where
  "CheckRedis err latency = (case err of
       Some e \<Rightarrow> mk_check ComponentRedis StatusUnhealthy latency (''Redis connection failed: '' @ e)
     | None \<Rightarrow> if latency > 1000 then mk_check ComponentRedis StatusDegraded latency ''High latency''
         else mk_check ComponentRedis StatusHealthy latency ''Connected'')"

definition CheckMemory :: "int \<Rightarrow> int \<Rightarrow> healthService \<Rightarrow> healthCheck" where
  "CheckMemory alloc sys s =
     (let usedPercent = f_mul (f_div (f_int alloc) (f_int sys)) (f_int 100)
      in if f_lt (sv_memThreshold s) usedPercent
         then mk_check ComponentMemory StatusUnhealthy 0 ''Memory usage critical''
         else if f_lt (f_mul (sv_memThreshold s) (f_lit (7 / 10))) usedPercent
         then mk_check ComponentMemory StatusDegraded 0 ''Memory usage elevated''
         else mk_check ComponentMemory StatusHealthy 0 ''Memory usage normal'')"

definition CheckDisk :: healthCheck where
  "CheckDisk = mk_check ComponentDisk StatusHealthy 0 ''Disk check not available on this platform''"

text \<open>The loop over the checks, with its \<open>break\<close>.\<close>

fun overall_loop :: "status \<Rightarrow> healthCheck list \<Rightarrow> status" where
  "overall_loop overall [] = overall"
| "overall_loop overall (c # cs) =
     (if hc_Status c = StatusUnhealthy then StatusUnhealthy
      else overall_loop (if hc_Status c = StatusDegraded then StatusDegraded else overall) cs)"

definition CheckAll :: "(string option \<times> int) option \<Rightarrow> int \<Rightarrow> int \<Rightarrow> healthService \<Rightarrow> status \<times> healthCheck list" where
  "CheckAll ping alloc sys s =
     (let checks = (case ping of Some (err, latency) \<Rightarrow> [CheckRedis err latency] | None \<Rightarrow> [])
            @ [CheckMemory alloc sys s, CheckDisk]
      in (overall_loop StatusHealthy checks, checks))"

section \<open>Lemmas\<close>

lemma peer_latency_fin:
  assumes "30 < ms" and "ms < 500"
  shows "peer_latencyScore ms = Fin (round64 (100 - round64 (of_int ((ms - 30) * 100) / 470)))"
    and "0 \<le> round64 (of_int ((ms - 30) * 100) / 470)" and "round64 (of_int ((ms - 30) * 100) / 470) \<le> 100"
proof -
  let ?q = "of_int ((ms - 30) * 100) / 470 :: rat"
  have "(ms - 30) * 100 \<le> 47000" and "0 \<le> (ms - 30) * 100" using assms by simp_all
  then have "of_int ((ms - 30) * 100) \<le> (47000 :: rat)" and "0 \<le> (of_int ((ms - 30) * 100) :: rat)"
    by (simp_all only: of_int_le_iff [where 'a = rat, symmetric] of_int_numeral of_int_0)
  then have q: "0 \<le> ?q" "?q \<le> 100" by simp_all
  show r: "0 \<le> round64 ?q" "round64 ?q \<le> 100"
    using r64.rd_between [of 0 ?q 100] q by simp_all
  have a: "f_sub (f_int ms) (f_int 30) = Fin (of_int (ms - 30))"
    using round64_int [of "ms - 30"] assms by (simp add: f_int_small f_sub_fin)
  have b: "f_mul (Fin (of_int (ms - 30))) (f_int 100) = Fin (of_int ((ms - 30) * 100))"
    using f_mul_int [of "ms - 30" 100] assms by simp
  have c: "f_div (Fin (of_int ((ms - 30) * 100))) (f_int 470) = Fin (round64 ?q)"
  proof -
    have "\<bar>?q\<bar> \<le> 100" using q(2) unfolding abs_of_nonneg [OF q(1)] .
    then have "\<bar>?q\<bar> \<le> 2 ^ 53" by (rule order_trans) simp
    then have "f_div (Fin (of_int ((ms - 30) * 100))) (Fin 470) = Fin (round64 ?q)"
      by (intro f_div_fin) simp_all
    then show ?thesis by simp
  qed
  show "peer_latencyScore ms = Fin (round64 (100 - round64 ?q))"
    unfolding peer_latencyScore_def a b c using assms r by (simp add: f_sub_fin)
qed

lemma peer_latency_percent: "percent (peer_latencyScore ms)"
proof (cases "30 < ms \<and> ms < 500")
  case True
  then have m: "30 < ms" "ms < 500" by simp_all
  show ?thesis unfolding peer_latency_fin(1) [OF m]
    using r64.rd_between [of 0 "100 - round64 (of_int ((ms - 30) * 100) / 470)" 100] peer_latency_fin(2,3) [OF m]
    by simp
next
  case False
  then show ?thesis by (auto simp: peer_latencyScore_def)
qed

lemma peer_latency_antimono: "ms \<le> ms' \<Longrightarrow> f_le (peer_latencyScore ms') (peer_latencyScore ms)"
proof -
  assume le: "ms \<le> ms'"
  obtain x where x: "peer_latencyScore ms = Fin x" "0 \<le> x" "x \<le> 100"
    using peer_latency_percent [of ms] by (auto elim: f_betweenE)
  obtain x' where x': "peer_latencyScore ms' = Fin x'" "0 \<le> x'" "x' \<le> 100"
    using peer_latency_percent [of ms'] by (auto elim: f_betweenE)
  consider "ms \<le> 30" | "500 \<le> ms'" | "30 < ms" "ms < 500" "30 < ms'" "ms' < 500" using le by linarith
  then show ?thesis
  proof cases
    case 1
    then have "x = 100" using x by (simp add: peer_latencyScore_def)
    with x x' show ?thesis by simp
  next
    case 2
    then have "x' = 0" using x' by (simp add: peer_latencyScore_def)
    with x x' show ?thesis by simp
  next
    case 3
    have "round64 (of_int ((ms - 30) * 100) / 470) \<le> round64 (of_int ((ms' - 30) * 100) / 470)"
      using le by (intro round64_mono divide_right_mono) simp_all
    then show ?thesis unfolding peer_latency_fin(1) [OF 3(1,2)] peer_latency_fin(1) [OF 3(3,4)]
      by (auto intro!: round64_mono)
  qed
qed

lemma peer_bandwidth_cases:
  assumes "mbps \<noteq> FNaN"
  obtains "f_le (f_int 100) mbps" "peer_bandwidthScore mbps = Fin 100"
    | "f_le mbps (f_int 1)" "peer_bandwidthScore mbps = Fin 0"
    | x where "mbps = Fin x" "1 < x" "x < 100" "peer_bandwidthScore mbps = Fin (round64 (round64 (x / 100) * 100))"
        "0 \<le> round64 (x / 100)" "round64 (x / 100) \<le> 1"
proof -
  consider "f_le (f_int 100) mbps" | "f_le mbps (f_int 1)" | x where "mbps = Fin x" "1 < x" "x < 100"
  proof (cases mbps)
    case (Fin x)
    then show ?thesis using that by (cases "100 \<le> x"; cases "x \<le> 1") auto
  qed (use assms that in \<open>auto simp: f_le_def\<close>)
  then show ?thesis
  proof cases
    case 1
    then show ?thesis using that(1) by (simp add: peer_bandwidthScore_def)
  next
    case 2
    moreover have "\<not> f_le (f_int 100) mbps" using 2 by (cases mbps) (auto simp: f_le_def)
    ultimately show ?thesis using that(2) by (simp add: peer_bandwidthScore_def)
  next
    case (3 x)
    have r: "0 \<le> round64 (x / 100)" "round64 (x / 100) \<le> 1"
      using r64.rd_between [of 0 "x / 100" 1] 3 by simp_all
    have "peer_bandwidthScore mbps = Fin (round64 (round64 (x / 100) * 100))"
      using 3 r by (simp add: peer_bandwidthScore_def f_round_fin)
    with 3 r show ?thesis using that(3) by blast
  qed
qed

lemma peer_bandwidth_percent:
  assumes "mbps \<noteq> FNaN"
  shows "percent (peer_bandwidthScore mbps)"
  using assms
proof (cases rule: peer_bandwidth_cases)
  case (3 x)
  then show ?thesis using r64.rd_between [of 0 "round64 (x / 100) * 100" 100] by simp
qed simp_all

lemma peer_bandwidth_mono:
  assumes "mbps \<noteq> FNaN" and "mbps' \<noteq> FNaN" and "f_le mbps mbps'"
  shows "f_le (peer_bandwidthScore mbps) (peer_bandwidthScore mbps')"
proof -
  obtain y where y: "peer_bandwidthScore mbps = Fin y" "0 \<le> y" "y \<le> 100"
    using peer_bandwidth_percent [OF assms(1)] by (auto elim: f_betweenE)
  obtain y' where y': "peer_bandwidthScore mbps' = Fin y'" "0 \<le> y'" "y' \<le> 100"
    using peer_bandwidth_percent [OF assms(2)] by (auto elim: f_betweenE)
  from assms(2) show ?thesis
  proof (cases rule: peer_bandwidth_cases)
    case 1
    with y show ?thesis by simp
  next
    case 2
    then have "f_le mbps (f_int 1)" using assms(3) f_le_trans by blast
    moreover have "\<not> f_le (f_int 100) mbps" using calculation by (cases mbps) (auto simp: f_le_def)
    ultimately have "peer_bandwidthScore mbps = Fin 0" by (simp add: peer_bandwidthScore_def)
    with y' show ?thesis by simp
  next
    case (3 x')
    note c' = 3
    from assms(1) show ?thesis
    proof (cases rule: peer_bandwidth_cases)
      case 1
      then have "f_le (f_int 100) mbps'" using assms(3) f_le_trans by blast
      with c' show ?thesis by simp
    next
      case 2
      with y' show ?thesis by simp
    next
      case (3 x)
      then have "x \<le> x'" using assms(3) c' by simp
      then have "round64 (x / 100) \<le> round64 (x' / 100)" by (intro round64_mono) simp
      then show ?thesis using 3(4) c'(4) by (auto intro!: round64_mono)
    qed
  qed
qed

text \<open>
  The weights of the composite score. The constants 0.3 and 0.2 are rounded, but 100 times each
  rounds to the weight it stands for.
\<close>

definition is_weight :: "int \<Rightarrow> f64 \<Rightarrow> bool" where
  "is_weight k v \<longleftrightarrow> (\<exists>q. v = Fin q \<and> 0 \<le> q \<and> q \<le> 1 \<and> round64 (100 * q) = of_int k)"

lemma is_weight_Fin: "is_weight k (Fin q) \<longleftrightarrow> 0 \<le> q \<and> q \<le> 1 \<and> round64 (100 * q) = of_int k"
  by (simp add: is_weight_def)

lemma round64_3_10: "round64 (3 / 10) = 5404319552844595 / 18014398509481984" by code_simp
lemma round64_1_5: "round64 (1 / 5) = 3602879701896397 / 18014398509481984" by code_simp
lemma round64_1_4: "round64 (1 / 4) = 1 / 4" by code_simp

lemma is_weights: "is_weight 30 (f_lit (3 / 10))" "is_weight 20 (f_lit (1 / 5))" "is_weight 25 (f_lit (1 / 4))"
proof -
  have "f_lit q = Fin (round64 q)" if "\<bar>q\<bar> \<le> 1" for q
  proof -
    have "\<bar>q\<bar> \<le> 2 ^ 53" using that by (rule order_trans) simp
    then show ?thesis by (simp add: f_lit_def f_round_fin)
  qed
  then have l: "f_lit (3 / 10) = Fin (5404319552844595 / 18014398509481984)"
      "f_lit (1 / 5) = Fin (3602879701896397 / 18014398509481984)" "f_lit (1 / 4) = Fin (1 / 4)"
    using round64_3_10 round64_1_5 round64_1_4 by simp_all
  have "round64 (100 * (5404319552844595 / 18014398509481984)) = 30"
    using round64_near [of 4 "100 * (5404319552844595 / 18014398509481984)" "30 * 2 ^ 48"]
    by (simp add: power_int_minus)
  moreover have "round64 (100 * (3602879701896397 / 18014398509481984)) = 20"
    using round64_near [of 4 "100 * (3602879701896397 / 18014398509481984)" "20 * 2 ^ 48"]
    by (simp add: power_int_minus)
  moreover have "round64 (100 * (1 / 4)) = 25" using round64_int [of 25] by simp
  ultimately show "is_weight 30 (f_lit (3 / 10))" "is_weight 20 (f_lit (1 / 5))" "is_weight 25 (f_lit (1 / 4))"
    unfolding l is_weight_Fin by auto
qed

lemma weight_between:
  assumes "percent v" and "is_weight k w"
  shows "f_between 0 k (f_mul v w)"
proof -
  obtain x where x: "v = Fin x" "0 \<le> x" "x \<le> 100" using assms(1) by (auto elim: f_betweenE)
  obtain q where q: "w = Fin q" "0 \<le> q" "q \<le> 1" "round64 (100 * q) = of_int k"
    using assms(2) by (auto simp: is_weight_def)
  have "x * q \<le> 100 * q" using x q by (intro mult_right_mono) auto
  then have "round64 (x * q) \<le> of_int k" using round64_mono q(4) by metis
  moreover have "0 \<le> x * q" using x q by simp
  moreover have "x * q \<le> 100" using \<open>x * q \<le> 100 * q\<close> q by linarith
  ultimately show ?thesis using x q round64_nonneg [of "x * q"] by (simp add: f_round_fin)
qed

lemma weight_mono:
  assumes "percent v" and "percent v'" and "is_weight k w" and "f_le v v'"
  shows "f_le (f_mul v w) (f_mul v' w)"
proof -
  obtain q where q: "w = Fin q" "0 \<le> q" "q \<le> 1" using assms(3) by (auto simp: is_weight_def)
  then show ?thesis using f_mul_mono [OF assms(1,2) _ assms(4), of q] by simp
qed

lemma connection_percent:
  assumes "percent l" "percent b" "percent r"
  shows "percent (peer_connectionScore l b r)"
proof -
  have "f_between 0 300 (f_add (f_add l b) r)"
    using f_add_between [OF f_add_between [OF assms(1,2)] assms(3)] by simp
  then obtain x where x: "f_add (f_add l b) r = Fin x" "0 \<le> x" "x \<le> 300" by (auto elim: f_betweenE)
  then have "\<bar>x / 3\<bar> \<le> 2 ^ 53" by simp
  with x show ?thesis using r64.rd_between [of 0 "x / 3" 100]
    by (simp add: peer_connectionScore_def f_round_fin)
qed

lemma connection_mono:
  assumes "percent l" "percent b" "percent r" "percent l'" "percent b'" "percent r'"
    and "f_le l l'" "f_le b b'" "f_le r r'"
  shows "f_le (peer_connectionScore l b r) (peer_connectionScore l' b' r')"
proof -
  have lb: "f_between 0 200 (f_add l b)" "f_between 0 200 (f_add l' b')" "f_le (f_add l b) (f_add l' b')"
    using f_add_between [OF assms(1,2)] f_add_between [OF assms(4,5)]
      f_add_mono [OF assms(1,4,2,5,7,8)] by simp_all
  have s: "f_between 0 300 (f_add (f_add l b) r)" "f_between 0 300 (f_add (f_add l' b') r')"
      "f_le (f_add (f_add l b) r) (f_add (f_add l' b') r')"
    using f_add_between [OF lb(1) assms(3)] f_add_between [OF lb(2) assms(6)]
      f_add_mono [OF lb(1,2) assms(3,6) lb(3) assms(9)] by simp_all
  obtain x x' where x: "f_add (f_add l b) r = Fin x" "0 \<le> x" "x \<le> 300"
      "f_add (f_add l' b') r' = Fin x'" "0 \<le> x'" "x' \<le> 300"
    using s(1,2) by (auto elim!: f_betweenE)
  then have "\<bar>x / 3\<bar> \<le> 2 ^ 53" "\<bar>x' / 3\<bar> \<le> 2 ^ 53" by simp_all
  with x s(3) show ?thesis by (simp add: peer_connectionScore_def f_round_fin round64_mono)
qed

lemma overall_percent:
  assumes "percent c" "percent l" "percent b" "percent r"
  shows "percent (peer_overall c l b r)"
  using f_add_between [OF f_add_between [OF f_add_between [OF weight_between [OF assms(1) is_weights(1)]
        weight_between [OF assms(2) is_weights(3)]] weight_between [OF assms(3) is_weights(2)]]
      weight_between [OF assms(4) is_weights(3)]]
  by (simp add: peer_overall_def)

lemma overall_mono:
  assumes "percent c" "percent l" "percent b" "percent r" "percent c'" "percent l'" "percent b'" "percent r'"
    and "f_le c c'" "f_le l l'" "f_le b b'" "f_le r r'"
  shows "f_le (peer_overall c l b r) (peer_overall c' l' b' r')"
proof -
  note w = weight_between [OF assms(1) is_weights(1)] weight_between [OF assms(5) is_weights(1)]
    weight_between [OF assms(2) is_weights(3)] weight_between [OF assms(6) is_weights(3)]
    weight_between [OF assms(3) is_weights(2)] weight_between [OF assms(7) is_weights(2)]
    weight_between [OF assms(4) is_weights(3)] weight_between [OF assms(8) is_weights(3)]
  note m = weight_mono [OF assms(1,5) is_weights(1) assms(9)] weight_mono [OF assms(2,6) is_weights(3) assms(10)]
    weight_mono [OF assms(3,7) is_weights(2) assms(11)] weight_mono [OF assms(4,8) is_weights(3) assms(12)]
  have s1: "f_le (f_add (f_mul c (f_lit (3 / 10))) (f_mul l (f_lit (1 / 4))))
      (f_add (f_mul c' (f_lit (3 / 10))) (f_mul l' (f_lit (1 / 4))))"
    by (rule f_add_mono [OF w(1-4) m(1,2)]) simp_all
  note b1 = f_add_between [OF w(1,3), simplified] f_add_between [OF w(2,4), simplified]
  have s2: "f_le (f_add (f_add (f_mul c (f_lit (3 / 10))) (f_mul l (f_lit (1 / 4)))) (f_mul b (f_lit (1 / 5))))
      (f_add (f_add (f_mul c' (f_lit (3 / 10))) (f_mul l' (f_lit (1 / 4)))) (f_mul b' (f_lit (1 / 5))))"
    by (rule f_add_mono [OF b1 w(5,6) s1 m(3)]) simp_all
  note b2 = f_add_between [OF b1(1) w(5), simplified] f_add_between [OF b1(2) w(6), simplified]
  show ?thesis unfolding peer_overall_def
    by (rule f_add_mono [OF b2 w(7,8) s2 m(4)]) simp_all
qed

text \<open>Scores other than NaN are ranked by a strict weak order.\<close>

interpretation score_desc: weak_order "\<lambda>p q. f_lt (key q) (key p)" "{x. key x \<noteq> FNaN}" for key
proof unfold_locales
  fix x y z
  show "f_lt (key y) (key x) \<Longrightarrow> \<not> f_lt (key x) (key y)" by (rule f_lt_asym)
  assume "y \<in> {x. key x \<noteq> FNaN}" "\<not> f_lt (key y) (key x)" "\<not> f_lt (key z) (key y)"
  then show "\<not> f_lt (key z) (key x)" using f_lt_negtrans [of "key y" "key z" "key x"] by simp
qed

lemma set_map_filter_order: "range_order order m \<Longrightarrow> set (List.map_filter m order) = ran m"
proof -
  assume "range_order order m"
  then have o: "set order = dom m" by (simp add: range_order_def)
  have "set (List.map_filter m ks) = {v. \<exists>k \<in> set ks. m k = Some v}" for ks
    by (induction ks) (auto simp: List.map_filter_simps split: option.splits)
  then show ?thesis using o by (auto simp: ran_def)
qed

lemma node_load_negative: "90 < load \<Longrightarrow> load < 100 \<Longrightarrow> f_between (- 11) (- 1) (node_loadScore load)"
proof -
  assume l: "90 < load" "load < 100"
  have "f_mul (f_int load) (f_int 100) = Fin (of_int (load * 100))"
    using l f_mul_int [of load 100] by (simp add: f_int_small)
  moreover have "9100 \<le> load * 100" "load * 100 \<le> 9900" using l by simp_all
  then have b: "9100 \<le> (of_int (load * 100) :: rat)" "of_int (load * 100) \<le> (9900 :: rat)"
    using l by simp_all
  then have q: "101 \<le> (of_int (load * 100) :: rat) / 90" "(of_int (load * 100) :: rat) / 90 \<le> 111" by simp_all
  then have "\<bar>(of_int (load * 100) :: rat) / 90\<bar> \<le> 111" by (simp only: abs_le_iff) simp
  then have "\<bar>(of_int (load * 100) :: rat) / 90\<bar> \<le> 2 ^ 53" by (rule order_trans) simp
  then have "f_div (Fin (of_int (load * 100))) (Fin 90) = Fin (round64 (of_int (load * 100) / 90))"
    by (intro f_div_fin) simp_all
  moreover have r: "101 \<le> round64 (of_int (load * 100) / 90)" "round64 (of_int (load * 100) / 90) \<le> 111"
    using r64.rd_between [of 101 "of_int (load * 100) / 90" 111] q by simp_all
  moreover have "f_between (- 11) (- 1) (f_round (100 - round64 (of_int (load * 100) / 90)))"
    using r by (intro f_round_between) simp_all
  ultimately show ?thesis using l by (simp add: node_loadScore_def f_sub_def)
qed

text \<open>The loop over the checks computes the maximum.\<close>

lemma status_le: "StatusHealthy \<le> s" "s \<le> StatusUnhealthy"
  by (cases s; simp add: less_eq_status_def)+

lemma overall_loop_max:
  "s \<noteq> StatusUnhealthy \<Longrightarrow> overall_loop s cs = Max (insert s (hc_Status ` set cs))"
proof (induction cs arbitrary: s)
  case (Cons c cs)
  let ?S = "hc_Status ` set cs"
  show ?case
  proof (cases "hc_Status c")
    case StatusHealthy
    then have "Max (insert s (insert StatusHealthy ?S)) = Max (insert s ?S)"
      using status_le by (simp add: insert_commute [of s] max_absorb2)
    with StatusHealthy Cons show ?thesis by simp
  next
    case StatusDegraded
    have "max s StatusDegraded = StatusDegraded"
      using Cons.prems by (cases s) (simp_all add: max_def less_eq_status_def)
    moreover have "Max (insert s (insert StatusDegraded ?S)) = Max (insert StatusDegraded ?S)"
    proof (cases "?S = {}")
      case False
      then have "Max (insert s (insert StatusDegraded ?S)) = max (max s StatusDegraded) (Max ?S)"
        by (simp add: max.assoc)
      with False calculation show ?thesis by simp
    qed (use calculation in simp)
    ultimately show ?thesis using StatusDegraded Cons.IH [of StatusDegraded] by simp
  next
    case StatusUnhealthy
    have "Max (insert s (insert StatusUnhealthy ?S)) = StatusUnhealthy"
      by (rule Max_eqI) (auto simp: status_le)
    with StatusUnhealthy show ?thesis by simp
  qed
qed simp

text \<open>A run of health reports.\<close>

type_synonym health_report = "time \<times> string \<times> string \<times> string \<times> int"

fun report_entry :: "health_report \<Rightarrow> healthStatus" where
  "report_entry (now, nodeID, status, message, ms) = \<lparr>hs_NodeID = nodeID, hs_Status = status,
     hs_Message = message, hs_LatencyMs = ms, hs_Timestamp = now\<rparr>"

fun record_all :: "hlib \<Rightarrow> 'r redis option \<Rightarrow> health_report list \<Rightarrow> healthHistory \<times> 'r \<Rightarrow> healthHistory \<times> 'r" where
  "record_all lib h [] s = s"
| "record_all lib h ((now, nodeID, status, message, ms) # es) s =
     record_all lib h es (RecordHealth lib h now nodeID status message ms s)"

lemma RecordHealth_history:
  assumes "RecordHealth lib h now nodeID status message ms (hh, st) = (hh', st')"
  shows "hh_maxEntries hh' = hh_maxEntries hh" and "hh_history hh' = (hh_history hh)(nodeID :=
    push_bounded (hh_maxEntries hh) (report_entry (now, nodeID, status, message, ms)) (hh_history hh nodeID))"
  using assms by (auto simp: RecordHealth_def Let_def split: option.splits)

lemma record_all_history:
  "hh_history (fst (record_all lib h es (hh, st))) n =
    fold (push_bounded (hh_maxEntries hh)) (map report_entry (filter (\<lambda>(now, d, r). d = n) es)) (hh_history hh n)"
proof (induction es arbitrary: hh st)
  case (Cons e es)
  obtain now d s m l where e: "e = (now, d, s, m, l)" by (cases e)
  obtain hh' st' where r: "RecordHealth lib h now d s m l (hh, st) = (hh', st')" by fastforce
  show ?case using Cons.IH [of hh' st'] RecordHealth_history [OF r] r e by simp
qed simp

lemma f_nan: "f_add x FNaN = FNaN" "f_mul x FNaN = FNaN"
  by (cases x; simp)+

section \<open>Properties\<close>

text \<open>C38: The five scores of a peer in machine arithmetic, whatever the latency and the bandwidth, for a reliability between
  0 and 1: the scores of latency and reliability are finite and between 0 and 100. If the bandwidth is not NaN, so are those of
  bandwidth and connection and the weighted overall score, infinite bandwidth included, and although the weights 0.3 and 0.2
  are not exact. A bandwidth of NaN passes both of its guards and makes exactly those three scores NaN.\<close>

theorem peer_scores_in_range:
  assumes "f_between 0 1 reliability"
  shows "percent (ph_LatencyScore (peer_health_of now n ms mbps reliability)) \<and>
    percent (ph_ReliabilityScore (peer_health_of now n ms mbps reliability)) \<and>
    (if mbps = FNaN
     then ph_BandwidthScore (peer_health_of now n ms mbps reliability) = FNaN \<and>
       ph_ConnectionScore (peer_health_of now n ms mbps reliability) = FNaN \<and>
       ph_OverallScore (peer_health_of now n ms mbps reliability) = FNaN
     else percent (ph_BandwidthScore (peer_health_of now n ms mbps reliability)) \<and>
       percent (ph_ConnectionScore (peer_health_of now n ms mbps reliability)) \<and>
       percent (ph_OverallScore (peer_health_of now n ms mbps reliability)))"
proof -
  obtain x where x: "reliability = Fin x" "0 \<le> x" "x \<le> 1" using assms by (auto elim: f_betweenE)
  have r: "percent (f_mul reliability (f_int 100))"
    using x f_round_between [of 0 "x * 100" 100] by simp
  obtain l where l: "peer_latencyScore ms = Fin l" using peer_latency_percent [of ms] by (auto elim: f_betweenE)
  show ?thesis
  proof (cases "mbps = FNaN")
    case True
    have nan: "peer_bandwidthScore FNaN = FNaN" by (simp add: peer_bandwidthScore_def f_le_def)
    show ?thesis using r peer_latency_percent [of ms] l
      by (simp add: True nan peer_health_of_def peer_connectionScore_def peer_overall_def Let_def f_nan)
  next
    case False
    note parts = peer_latency_percent [of ms] peer_bandwidth_percent [OF False] r
    note c = connection_percent [OF parts]
    show ?thesis using parts c overall_percent [OF c parts] False by (simp add: peer_health_of_def Let_def)
  qed
qed

theorem peer_scores_in_range_witness:
  "percent (ph_OverallScore (peer_health_of 0 ''n'' 120 (Fin 55) (Fin (1 / 2)))) \<and>
   ph_OverallScore (peer_health_of 0 ''n'' 120 FNaN (Fin (1 / 2))) = FNaN"
proof -
  have "f_between 0 1 (Fin (1 / 2))" by simp
  from peer_scores_in_range [of _ _ _ _ "Fin 55", OF this] peer_scores_in_range [of _ _ _ _ FNaN, OF this]
  show ?thesis by simp
qed

text \<open>The overall score is monotone in machine arithmetic: a peer with a latency no higher, a
  bandwidth no lower and a reliability no lower never scores lower.\<close>

theorem peer_overall_monotone:
  assumes "ms' \<le> ms" and "mbps \<noteq> FNaN" and "mbps' \<noteq> FNaN" and "f_le mbps mbps'"
    and "f_between 0 1 r" and "f_between 0 1 r'" and "f_le r r'"
  shows "f_le (ph_OverallScore (peer_health_of now n ms mbps r))
    (ph_OverallScore (peer_health_of now' n' ms' mbps' r'))"
proof -
  obtain x x' where x: "r = Fin x" "0 \<le> x" "x \<le> 1" "r' = Fin x'" "0 \<le> x'" "x' \<le> 1"
    using assms(5,6) by (auto elim!: f_betweenE)
  have r: "percent (f_mul r (f_int 100))" "percent (f_mul r' (f_int 100))"
    using x f_round_between [of 0 "x * 100" 100] f_round_between [of 0 "x' * 100" 100] by simp_all
  have "f_le (f_mul r (f_int 100)) (f_mul r' (f_int 100))"
  proof -
    have "\<bar>x * 100\<bar> \<le> 2 ^ 53" "\<bar>x' * 100\<bar> \<le> 2 ^ 53" using x by simp_all
    then show ?thesis using x assms(7) by (simp add: f_round_fin round64_mono)
  qed
  note le = peer_latency_antimono [OF assms(1)] peer_bandwidth_mono [OF assms(2,3,4)] this
  note p = peer_latency_percent [of ms] peer_bandwidth_percent [OF assms(2)] r(1)
  note p' = peer_latency_percent [of ms'] peer_bandwidth_percent [OF assms(3)] r(2)
  show ?thesis
    using overall_mono [OF connection_percent [OF p] p connection_percent [OF p'] p' connection_mono [OF p p' le] le]
    by (simp add: peer_health_of_def Let_def)
qed

theorem peer_overall_monotone_witness:
  "f_le (ph_OverallScore (peer_health_of 0 ''a'' 80 (Fin 20) (Fin (1 / 2))))
    (ph_OverallScore (peer_health_of 0 ''b'' 40 (Fin 30) (Fin 1)))"
  by (rule peer_overall_monotone) simp_all

text \<open>The ranking of peers: \<open>GetTopPeers\<close> returns, in whatever order the map is ranged over, the
  right number of known peers, best first, and every peer it leaves out scores no better than any it
  returns.\<close>

theorem top_peers_best:
  assumes "range_order order scores" and "\<forall>p \<in> ran scores. ph_OverallScore p \<noteq> FNaN" and "0 \<le> n"
  shows "\<exists>top. peer_GetTopPeers order n scores = Some top \<and>
    length top = min (nat n) (length order) \<and> set top \<subseteq> ran scores \<and>
    sorted_wrt (\<lambda>p q. f_le (ph_OverallScore q) (ph_OverallScore p)) top \<and>
    (\<forall>p \<in> ran scores - set top. \<forall>q \<in> set top. f_le (ph_OverallScore p) (ph_OverallScore q))"
proof -
  let ?lt = "\<lambda>p q. f_lt (ph_OverallScore q) (ph_OverallScore p)"
  define ps where "ps = exchange_sort ?lt (List.map_filter scores order)"
  have set: "set ps = ran scores" using set_map_filter_order [OF assms(1)] by (simp add: ps_def)
  have nan: "set (List.map_filter scores order) \<subseteq> {p. ph_OverallScore p \<noteq> FNaN}"
    using assms(2) set_map_filter_order [OF assms(1)] by auto
  have le: "\<not> f_lt (ph_OverallScore a) (ph_OverallScore b) \<Longrightarrow> a \<in> set ps \<Longrightarrow> b \<in> set ps \<Longrightarrow>
      f_le (ph_OverallScore b) (ph_OverallScore a)" for a b
    using assms(2) set f_not_lt by blast
  have "\<forall>k \<in> set order. scores k \<noteq> None" using assms(1) by (auto simp: range_order_def)
  then have "length (List.map_filter scores order) = length order"
    by (induction order) (auto simp: List.map_filter_def)
  then have len: "length ps = length order" by (simp add: ps_def)
  have r: "peer_GetTopPeers order n scores = Some (take (nat n) ps)"
    using assms(3) by (auto simp: peer_GetTopPeers_def Let_def simp flip: ps_def)
  have sorted: "sorted_wrt (\<lambda>p q. \<not> ?lt q p) ps"
    unfolding ps_def by (rule score_desc.exchange_sorted [OF nan])
  then have "sorted_wrt (\<lambda>p q. f_le (ph_OverallScore q) (ph_OverallScore p)) ps"
    by (rule sorted_wrt_mono_rel [rotated]) (blast intro: le)
  then have "sorted_wrt (\<lambda>p q. f_le (ph_OverallScore q) (ph_OverallScore p)) (take (nat n) ps)"
    by (rule sorted_wrt_take)
  moreover have "f_le (ph_OverallScore p) (ph_OverallScore q)"
    if "p \<in> ran scores - set (take (nat n) ps)" "q \<in> set (take (nat n) ps)" for p q
  proof -
    have "p \<in> set (take (nat n) ps @ drop (nat n) ps)" using that(1) set by (simp only: append_take_drop_id) simp
    then have p: "p \<in> set (drop (nat n) ps)" using that(1) by (simp only: set_append) blast
    then have "\<not> ?lt p q" using score_desc.exchange_top [OF nan, of q "nat n" p] that(2) by (simp add: ps_def)
    then show ?thesis using le [of q p] in_set_takeD [OF that(2)] in_set_dropD [OF p] by simp
  qed
  moreover have "set (take (nat n) ps) \<subseteq> ran scores" using set set_take_subset by metis
  moreover have "length (take (nat n) ps) = min (nat n) (length order)" using len by simp
  ultimately show ?thesis using r by blast
qed

theorem top_peers_best_witness:
  "\<exists>top. peer_GetTopPeers [''b'', ''a''] 1
      [''a'' \<mapsto> peer_health_of 0 ''a'' 20 PInf (Fin 1), ''b'' \<mapsto> peer_health_of 0 ''b'' 600 (Fin 0) (Fin 0)] = Some top
    \<and> length top = 1"
proof -
  let ?s = "[''a'' \<mapsto> peer_health_of 0 ''a'' 20 PInf (Fin 1), ''b'' \<mapsto> peer_health_of 0 ''b'' 600 (Fin 0) (Fin 0)]"
  have a: "ph_OverallScore (peer_health_of 0 ''a'' 20 PInf (Fin 1)) \<noteq> FNaN"
    by (rule percent_not_nan) (simp add: peer_health_of_def Let_def overall_percent connection_percent
        peer_latency_percent peer_bandwidth_percent f_round_between [of 0 _ 100, simplified])
  have b: "ph_OverallScore (peer_health_of 0 ''b'' 600 (Fin 0) (Fin 0)) \<noteq> FNaN"
    by (rule percent_not_nan) (simp add: peer_health_of_def Let_def overall_percent connection_percent
        peer_latency_percent peer_bandwidth_percent f_round_between [of 0 _ 100, simplified])
  have "\<forall>p \<in> ran ?s. ph_OverallScore p \<noteq> FNaN" using a b by (auto simp: ran_def split: if_splits)
  moreover have "range_order [''b'', ''a''] ?s" by (auto simp: range_order_def)
  ultimately show ?thesis using top_peers_best [of "[''b'', ''a'']" ?s 1] by auto
qed

text \<open>The load score of \<open>gateway/batch.go\<close> is not a percentage and not monotone: between 91
  and 99 it is negative (down to about -10), below the score 0 of a load of 100 or more.\<close>

theorem load_score_negative:
  assumes "90 < load" and "load < 100"
  shows "f_between (- 11) (- 1) (node_loadScore load) \<and> f_lt (node_loadScore load) (node_loadScore 100)"
  using node_load_negative [OF assms] by (auto elim!: f_betweenE simp: node_loadScore_def [of 100])

theorem load_score_negative_witness: "f_lt (node_loadScore 99) (Fin 0)"
  using load_score_negative [of 99] by (simp add: node_loadScore_def [of 100])

text \<open>The overall status of the system is the worst status of its checks.\<close>

theorem overall_is_worst:
  "fst (CheckAll ping alloc sys s) = Max (hc_Status ` set (snd (CheckAll ping alloc sys s)))"
proof -
  let ?cs = "snd (CheckAll ping alloc sys s)"
  have "fst (CheckAll ping alloc sys s) = Max (insert StatusHealthy (hc_Status ` set ?cs))"
    by (simp add: CheckAll_def overall_loop_max)
  moreover have "hc_Status ` set ?cs \<noteq> {}" by (simp add: CheckAll_def Let_def)
  moreover have "Max (insert StatusHealthy A) = Max A" if "finite A" "A \<noteq> {}" for A
    using that status_le(1) by (simp add: max_absorb2)
  ultimately show ?thesis by simp
qed

text \<open>After any sequence of health reports about any nodes, with or without Redis and whatever it
  answers, the history of a node is its most recent reports, oldest first, as many as the maximum.\<close>

theorem history_is_recent:
  "hh_history (fst (record_all lib h es (NewHealthHistory mx, st))) n =
    last_n (nat (if mx \<le> 0 then 100 else mx)) (map report_entry (filter (\<lambda>(now, d, r). d = n) es))"
proof -
  define k where "k = (if mx \<le> 0 then 100 else mx)"
  have "0 < k" by (simp add: k_def)
  moreover have "hh_maxEntries (NewHealthHistory mx) = k" by (simp add: NewHealthHistory_def k_def)
  moreover have "hh_history (NewHealthHistory mx) n = []" by (simp add: NewHealthHistory_def)
  ultimately show ?thesis unfolding record_all_history k_def [symmetric]
    using fold_push_bounded [of "nat k"] by simp
qed

end
