(* ===== verification/Node_Store.thy ===== *)
theory Node_Store
  imports Redis_Api
begin

text \<open>
  The matchmaker's store of nodes, cooldowns, sessions, loads and bandwidth on Redis
  (\<open>matchmaker/redis_client.go\<close>), the node records of \<open>internal/models/models.go\<close> and the
  cooldown service (\<open>matchmaker/cooldown.go\<close>). Every operation is the sequence of commands the
  code issues, on a server that is a parameter, with the error paths the code has.
\<close>

section \<open>Records\<close>

record node =
  nd_ID :: string
  nd_NodeType :: string
  nd_Country :: string
  nd_City :: string
  nd_ISP :: string
  nd_IP :: string
  nd_IPv6Subnet :: string
  nd_OS :: string
  nd_Battery :: int
  nd_IsCharging :: bool
  nd_CPUUsage :: f64
  nd_LastSeen :: time
  nd_Reputation :: f64

definition zero_node :: node where
  "zero_node = \<lparr>nd_ID = '''', nd_NodeType = '''', nd_Country = '''', nd_City = '''', nd_ISP = '''',
     nd_IP = '''', nd_IPv6Subnet = '''', nd_OS = '''', nd_Battery = 0, nd_IsCharging = False,
     nd_CPUUsage = Fin 0, nd_LastSeen = zero_time, nd_Reputation = Fin 0\<rparr>"

record nodeMeta =
  nm_NodeID :: string
  nm_ISP :: string
  nm_Battery :: int
  nm_OS :: string
  nm_LastSeen :: time

record bandwidthData =
  bd_BytesSent :: int
  bd_BytesReceived :: int
  bd_DurationSeconds :: int

definition zero_bandwidth :: bandwidthData where
  "zero_bandwidth = \<lparr>bd_BytesSent = 0, bd_BytesReceived = 0, bd_DurationSeconds = 0\<rparr>"

section \<open>Nodes\<close>

text \<open>\<open>t.Unix()\<close> and \<open>time.Unix(s, 0)\<close>.\<close>

definition unix_seconds :: "time \<Rightarrow> int" where "unix_seconds t = t div go_second"
definition of_unix :: "int \<Rightarrow> time" where "of_unix s = s * go_second"

text \<open>A command whose error the code returns wrapped.\<close>

definition wrap_err :: "string \<Rightarrow> go_err option \<Rightarrow> go_err option" where
  "wrap_err m e = map_option (Wrap m) e"

definition AddNode :: "'r redis \<Rightarrow> node \<Rightarrow> 'r \<Rightarrow> go_err option \<times> 'r" where
  "AddNode R n st =
     (case cZAdd R (''nodes:'' @ nd_Country n) (nd_Reputation n) (nd_ID n) st of
        (Inl e, st1) \<Rightarrow> (Some (Wrap ''failed to add node to sorted set'' (RErr e)), st1)
      | (Inr _, st1) \<Rightarrow>
          (case (if nd_City n \<noteq> '''' then
                   (case cZAdd R (''nodes:'' @ nd_Country n @ '':'' @ nd_City n) (nd_Reputation n) (nd_ID n) st1 of
                      (res, st2) \<Rightarrow> (wrap_err ''failed to add node to city sorted set'' (cmd_err res), st2))
                 else (None, st1)) of
             (Some e, st2) \<Rightarrow> (Some e, st2)
           | (None, st2) \<Rightarrow>
               (case cHSet R (''node_meta:'' @ nd_ID n)
                     [(''isp'', nd_ISP n), (''battery'', show_int (nd_Battery n)), (''os'', nd_OS n),
                      (''city'', nd_City n), (''country'', nd_Country n),
                      (''lastSeen'', show_int (unix_seconds (nd_LastSeen n)))] st2 of
                  (res, st3) \<Rightarrow> (cmd_err res, st3))))"

definition GetTopNodes :: "'r redis \<Rightarrow> string \<Rightarrow> int \<Rightarrow> 'r \<Rightarrow> (go_err + string list) \<times> 'r" where
  "GetTopNodes R country n st = (case cZRevRange R (''nodes:'' @ country) 0 (i64 (n - 1)) st of
       (Inl e, st') \<Rightarrow> (Inl (Wrap ''failed to get top nodes'' (RErr e)), st')
     | (Inr nodes, st') \<Rightarrow> (Inr nodes, st'))"

definition GetNodesByCity :: "'r redis \<Rightarrow> string \<Rightarrow> string \<Rightarrow> int \<Rightarrow> 'r \<Rightarrow> (go_err + string list) \<times> 'r" where
  "GetNodesByCity R country city n st =
     (case cZRevRange R (''nodes:'' @ country @ '':'' @ city) 0 (i64 (n - 1)) st of
        (Inl RedisNil, st') \<Rightarrow> (Inr [], st')
      | (Inl e, st') \<Rightarrow> (Inl (Wrap ''failed to get nodes by city'' (RErr e)), st')
      | (Inr nodes, st') \<Rightarrow> (Inr nodes, st'))"

text \<open>A field that is absent or does not parse keeps the default.\<close>

definition field_int :: "int \<Rightarrow> string option \<Rightarrow> int" where
  "field_int d f = (case f of None \<Rightarrow> d | Some s \<Rightarrow> (case parse_int s of (v, ok) \<Rightarrow> if ok then v else d))"

definition field_str :: "string option \<Rightarrow> string" where
  "field_str f = (case f of None \<Rightarrow> '''' | Some s \<Rightarrow> s)"

definition field_time :: "time \<Rightarrow> string option \<Rightarrow> time" where
  "field_time now f = (case f of None \<Rightarrow> now | Some s \<Rightarrow> (case parse_int s of (v, ok) \<Rightarrow> if ok then of_unix v else now))"

definition GetNodeMeta :: "'r redis \<Rightarrow> time \<Rightarrow> string \<Rightarrow> 'r \<Rightarrow> (go_err + nodeMeta) \<times> 'r" where
  "GetNodeMeta R now nodeID st = (case cHGetAll R (''node_meta:'' @ nodeID) st of
       (Inl e, st') \<Rightarrow> (Inl (RErr e), st')
     | (Inr data, st') \<Rightarrow>
         if data = [] then (Inl (Err ''node meta not found''), st')
         else (Inr \<lparr>nm_NodeID = nodeID, nm_ISP = field_str (map_of data ''isp''),
                 nm_Battery = field_int 0 (map_of data ''battery''), nm_OS = field_str (map_of data ''os''),
                 nm_LastSeen = field_time now (map_of data ''lastSeen'')\<rparr>, st'))"

text \<open>The code queries the score of the node in every \<open>nodes:*\<close> set and drops the answers.\<close>

definition GetNode :: "'r redis \<Rightarrow> time \<Rightarrow> string \<Rightarrow> 'r \<Rightarrow> (go_err + node) \<times> 'r" where
  "GetNode R now nodeID st = (case cHGetAll R (''node_meta:'' @ nodeID) st of
       (Inl e, st1) \<Rightarrow> (Inl (RErr e), st1)
     | (Inr data, st1) \<Rightarrow>
         if data = [] then (Inl (Err ''node not found''), st1)
         else (case cKeys R ''nodes:*'' st1 of (ks, st2) \<Rightarrow>
           (Inr (zero_node\<lparr>nd_ID := nodeID, nd_ISP := field_str (map_of data ''isp''),
                   nd_OS := field_str (map_of data ''os''), nd_Battery := field_int 0 (map_of data ''battery''),
                   nd_LastSeen := field_time now (map_of data ''lastSeen'')\<rparr>),
            snd (each (\<lambda>k s. case cZScore R k nodeID s of (_, s') \<Rightarrow> (None :: unit option, s')) (reply_or [] ks) st2))))"

text \<open>\<open>fmt\<close> is the text the client library sends for a float; a bool is sent as 1 or 0.\<close>

definition UpdateNodeStatus ::
    "'r redis \<Rightarrow> (f64 \<Rightarrow> string) \<Rightarrow> time \<Rightarrow> string \<Rightarrow> int \<Rightarrow> f64 \<Rightarrow> bool \<Rightarrow> 'r \<Rightarrow> go_err option \<times> 'r" where
  "UpdateNodeStatus R fmt now nodeID battery cpuUsage isCharging st =
     (let key = ''node_meta:'' @ nodeID in case cExists R key st of
        (Inl e, st1) \<Rightarrow> (Some (Err (''node not found: '' @ nodeID)), st1)
      | (Inr n, st1) \<Rightarrow>
          if n = 0 then (Some (Err (''node not found: '' @ nodeID)), st1)
          else (case cHSet R key [(''lastSeen'', show_int (unix_seconds now)), (''battery'', show_int battery),
                  (''cpuUsage'', fmt cpuUsage), (''isCharging'', if isCharging then ''1'' else ''0'')] st1 of
              (res, st2) \<Rightarrow> (cmd_err res, st2)))"

definition RemoveNode :: "'r redis \<Rightarrow> string \<Rightarrow> 'r \<Rightarrow> go_err option \<times> 'r" where
  "RemoveNode R nodeID st = (case cKeys R (''*'' @ nodeID @ ''*'') st of
       (Inl e, st1) \<Rightarrow> (Some (RErr e), st1)
     | (Inr ks, st1) \<Rightarrow>
         if ks \<noteq> [] then (case cDel R ks st1 of (res, st2) \<Rightarrow> (cmd_err res, st2)) else (None, st1))"

text \<open>The keys listed matched \<open>node_meta:*\<close>, so the slice is in range.\<close>

definition GetAllNodes :: "'r redis \<Rightarrow> 'r \<Rightarrow> (go_err + string list) \<times> 'r" where
  "GetAllNodes R st = (case cKeys R ''node_meta:*'' st of
       (Inl e, st') \<Rightarrow> (Inl (RErr e), st')
     | (Inr ks, st') \<Rightarrow> (Inr (map (drop (length ''node_meta:'')) ks), st'))"

section \<open>Loads and reputation\<close>

definition GetNodeLoad :: "'r redis \<Rightarrow> string \<Rightarrow> 'r \<Rightarrow> (int \<times> go_err option) \<times> 'r" where
  "GetNodeLoad R nodeID st = (case cGet R (''node_load:'' @ nodeID) st of (res, st') \<Rightarrow>
     ((case reply_int64 res of
         Inl e \<Rightarrow> if e = RErr RedisNil then (0, None) else (case res of
             Inl _ \<Rightarrow> (0, Some e) | Inr s \<Rightarrow> (fst (parse_int s), Some e))
       | Inr n \<Rightarrow> (n, None)), st'))"

definition GetNodeReputation :: "'r redis \<Rightarrow> string \<Rightarrow> string \<Rightarrow> 'r \<Rightarrow> (f64 \<times> go_err option) \<times> 'r" where
  "GetNodeReputation R nodeID country st = (case cZScore R (''nodes:'' @ country) nodeID st of
       (Inl RedisNil, st') \<Rightarrow> ((f_int 100, None), st')
     | (Inl e, st') \<Rightarrow> ((Fin 0, Some (RErr e)), st')
     | (Inr score, st') \<Rightarrow> ((score, None), st'))"

definition UpdateNodeReputation :: "'r redis \<Rightarrow> string \<Rightarrow> string \<Rightarrow> f64 \<Rightarrow> 'r \<Rightarrow> go_err option \<times> 'r" where
  "UpdateNodeReputation R nodeID country score st =
     (case cZAdd R (''nodes:'' @ country) score nodeID st of (res, st') \<Rightarrow> (cmd_err res, st'))"

definition IncrementNodeLoad :: "'r redis \<Rightarrow> string \<Rightarrow> 'r \<Rightarrow> go_err option \<times> 'r" where
  "IncrementNodeLoad R nodeID st = (case cIncr R (''node_load:'' @ nodeID) st of (res, st') \<Rightarrow> (cmd_err res, st'))"

definition DecrementNodeLoad :: "'r redis \<Rightarrow> string \<Rightarrow> 'r \<Rightarrow> go_err option \<times> 'r" where
  "DecrementNodeLoad R nodeID st = (case cDecr R (''node_load:'' @ nodeID) st of (res, st') \<Rightarrow> (cmd_err res, st'))"

section \<open>Cooldowns\<close>

definition AddToCooldown :: "'r redis \<Rightarrow> string \<Rightarrow> string \<Rightarrow> 'r \<Rightarrow> go_err option \<times> 'r" where
  "AddToCooldown R target nodeID st =
     (case cSAdd R (''cooldown:'' @ target) nodeID st of (res, st') \<Rightarrow> (cmd_err res, st'))"

definition IsInCooldown :: "'r redis \<Rightarrow> string \<Rightarrow> string \<Rightarrow> 'r \<Rightarrow> (redis_err + bool) \<times> 'r" where
  "IsInCooldown R target nodeID st = cSIsMember R (''cooldown:'' @ target) nodeID st"

definition AddToCooldownWithTTL :: "'r redis \<Rightarrow> string \<Rightarrow> string \<Rightarrow> duration \<Rightarrow> 'r \<Rightarrow> go_err option \<times> 'r" where
  "AddToCooldownWithTTL R target nodeID ttl st =
     (let key = ''cooldown:'' @ target in case cSAdd R key nodeID st of
        (Inl e, st1) \<Rightarrow> (Some (RErr e), st1)
      | (Inr _, st1) \<Rightarrow> (case cExpire R key ttl st1 of (res, st2) \<Rightarrow> (cmd_err res, st2)))"

definition RemoveFromCooldown :: "'r redis \<Rightarrow> string \<Rightarrow> string \<Rightarrow> 'r \<Rightarrow> go_err option \<times> 'r" where
  "RemoveFromCooldown R target nodeID st =
     (case cSRem R (''cooldown:'' @ target) nodeID st of (res, st') \<Rightarrow> (cmd_err res, st'))"

text \<open>The map the loop builds, as the list of its entries: a key listed later wins.\<close>

definition GetCooldownEntries :: "'r redis \<Rightarrow> 'r \<Rightarrow> (go_err + (string \<times> string list) list) \<times> 'r" where
  "GetCooldownEntries R st = (case cKeys R ''cooldown:*'' st of
       (Inl e, st1) \<Rightarrow> (Inl (RErr e), st1)
     | (Inr ks, st1) \<Rightarrow>
         (case each (\<lambda>k s. case cSMembers R k s of (Inl _, s') \<Rightarrow> (None, s')
                | (Inr ms, s') \<Rightarrow> (Some (drop (length ''cooldown:'') k, ms), s')) ks st1 of
            (entries, st2) \<Rightarrow> (Inr (rev entries), st2)))"

record cooldownService =
  cd_ttl :: duration

definition NewCooldownService :: "duration \<Rightarrow> cooldownService" where
  "NewCooldownService ttl = \<lparr>cd_ttl = ttl\<rparr>"

definition AddCooldown :: "'r redis \<Rightarrow> string \<Rightarrow> string \<Rightarrow> cooldownService \<Rightarrow> 'r \<Rightarrow> go_err option \<times> 'r" where
  "AddCooldown R target nodeID c st = AddToCooldownWithTTL R target nodeID (cd_ttl c) st"

definition cooldown_sweep_key :: "'r redis \<Rightarrow> string \<Rightarrow> 'r \<Rightarrow> unit option \<times> 'r" where
  "cooldown_sweep_key R key st = (case cTTL R key st of
       (Inl e, st1) \<Rightarrow> (None, st1)
     | (Inr ttl, st1) \<Rightarrow> (None, if ttl \<le> 0 then snd (cDel R [key] st1) else st1))"

definition cleanupExpired :: "'r redis \<Rightarrow> 'r \<Rightarrow> 'r" where
  "cleanupExpired R st = (case cKeys R ''cooldown:*'' st of
       (Inl e, st1) \<Rightarrow> st1
     | (Inr ks, st1) \<Rightarrow> snd (each (cooldown_sweep_key R) ks st1))"

definition cd_SetTTL :: "duration \<Rightarrow> cooldownService \<Rightarrow> cooldownService" where
  "cd_SetTTL ttl c = c\<lparr>cd_ttl := ttl\<rparr>"

section \<open>Sessions\<close>

definition GetSessionNode :: "'r redis \<Rightarrow> string \<Rightarrow> 'r \<Rightarrow> (go_err + string) \<times> 'r" where
  "GetSessionNode R sessionID st = (case cGet R (''session:'' @ sessionID) st of
       (Inl RedisNil, st') \<Rightarrow> (Inr '''', st')
     | (Inl e, st') \<Rightarrow> (Inl (RErr e), st')
     | (Inr nodeID, st') \<Rightarrow> (Inr nodeID, st'))"

definition SetSessionNode :: "'r redis \<Rightarrow> string \<Rightarrow> string \<Rightarrow> int \<Rightarrow> 'r \<Rightarrow> go_err option \<times> 'r" where
  "SetSessionNode R sessionID nodeID ttlSeconds st =
     (let ttl = (if ttlSeconds \<le> 0 then 3600 else ttlSeconds)
      in case cSetEX R (''session:'' @ sessionID) nodeID (i64 (ttl * go_second)) st of (res, st') \<Rightarrow> (cmd_err res, st'))"

text \<open>\<open>dur\<close> is the text of a duration.\<close>

definition ListSessions :: "'r redis \<Rightarrow> (duration \<Rightarrow> string) \<Rightarrow> 'r \<Rightarrow> (go_err + (string \<times> string \<times> string) list) \<times> 'r" where
  "ListSessions R dur st = (case cKeys R ''session:*'' st of
       (Inl e, st1) \<Rightarrow> (Inl (RErr e), st1)
     | (Inr ks, st1) \<Rightarrow>
         (case each (\<lambda>k s. case cGet R k s of (Inl _, s1) \<Rightarrow> (None, s1)
                | (Inr nodeID, s1) \<Rightarrow> (case cTTL R k s1 of (ttl, s2) \<Rightarrow>
                    (Some (drop (length ''session:'') k, nodeID, dur (reply_or 0 ttl)), s2))) ks st1 of
            (sessions, st2) \<Rightarrow> (Inr sessions, st2)))"

definition DeleteSession :: "'r redis \<Rightarrow> string \<Rightarrow> 'r \<Rightarrow> go_err option \<times> 'r" where
  "DeleteSession R sessionID st = (case cDel R [''session:'' @ sessionID] st of (res, st') \<Rightarrow> (cmd_err res, st'))"

section \<open>Bandwidth, payouts and referrals\<close>

text \<open>\<open>today\<close> is the date \<open>time.Now().Format("2006-01-02")\<close> yields.\<close>

definition bandwidth_pipe :: "string \<Rightarrow> string \<Rightarrow> int \<Rightarrow> int \<Rightarrow> int \<Rightarrow> pipe_cmd list" where
  "bandwidth_pipe today nodeID sent received secs =
     (let key = ''bandwidth:'' @ nodeID
      in [PHIncrBy key ''bytes_sent'' sent, PHIncrBy key ''bytes_received'' received,
          PHIncrBy key ''duration_seconds'' secs, PSAdd (''bandwidth_dates:'' @ nodeID) [today],
          PExpire key (30 * 24 * go_hour)])"

definition RecordBandwidth :: "'r redis \<Rightarrow> string \<Rightarrow> string \<Rightarrow> int \<Rightarrow> int \<Rightarrow> int \<Rightarrow> 'r \<Rightarrow> go_err option \<times> 'r" where
  "RecordBandwidth R today nodeID sent received secs st =
     (case cExec R (bandwidth_pipe today nodeID sent received secs) st of (res, st') \<Rightarrow> (cmd_err res, st'))"

text \<open>\<open>v, _ = strconv.ParseInt(...)\<close> keeps the value returned with the error.\<close>

definition raw_int :: "string option \<Rightarrow> int" where
  "raw_int f = (case f of None \<Rightarrow> 0 | Some s \<Rightarrow> fst (parse_int s))"

definition bandwidth_of :: "(string \<times> string) list \<Rightarrow> bandwidthData" where
  "bandwidth_of data = \<lparr>bd_BytesSent = raw_int (map_of data ''bytes_sent''),
     bd_BytesReceived = raw_int (map_of data ''bytes_received''),
     bd_DurationSeconds = raw_int (map_of data ''duration_seconds'')\<rparr>"

text \<open>\<open>float64(n) / 1_073_741_824\<close>, as the readers of a bandwidth write it.\<close>

definition gigabytes :: "int \<Rightarrow> f64" where
  "gigabytes n = f_div (f_int n) (f_int 1073741824)"

definition GetBandwidth :: "'r redis \<Rightarrow> string \<Rightarrow> 'r \<Rightarrow> (go_err + bandwidthData) \<times> 'r" where
  "GetBandwidth R nodeID st = (case cHGetAll R (''bandwidth:'' @ nodeID) st of
       (Inl e, st') \<Rightarrow> (Inl (RErr e), st')
     | (Inr data, st') \<Rightarrow> (Inr (bandwidth_of data), st'))"

definition GetBandwidthHistory :: "'r redis \<Rightarrow> string \<Rightarrow> 'r \<Rightarrow> (go_err + (string \<times> bandwidthData) list) \<times> 'r" where
  "GetBandwidthHistory R nodeID st = (case cSMembers R (''bandwidth_dates:'' @ nodeID) st of
       (Inl e, st1) \<Rightarrow> (Inl (RErr e), st1)
     | (Inr dates, st1) \<Rightarrow>
         (case each (\<lambda>d s. case cHGetAll R (''bandwidth:'' @ nodeID @ '':'' @ d) s of
                  (Inl _, s') \<Rightarrow> (None, s') | (Inr data, s') \<Rightarrow> (Some (d, bandwidth_of data), s')) dates st1 of
            (history, st2) \<Rightarrow> (Inr history, st2)))"

text \<open>Append to a list of JSON texts and keep the last 48; the text is the marshaller's result.\<close>

definition push_json :: "'r redis \<Rightarrow> string \<Rightarrow> go_err + string \<Rightarrow> 'r \<Rightarrow> go_err option \<times> 'r" where
  "push_json R key data st = (case data of Inl e \<Rightarrow> (Some e, st)
     | Inr d \<Rightarrow> (case cExec R [PRPush key d, PLTrim key (- 48) (- 1)] st of (res, st') \<Rightarrow> (cmd_err res, st')))"

definition StoreBandwidthSnapshot :: "'r redis \<Rightarrow> string \<Rightarrow> go_err + string \<Rightarrow> 'r \<Rightarrow> go_err option \<times> 'r" where
  "StoreBandwidthSnapshot R nodeID data st = push_json R (''bw_snapshots:'' @ nodeID) data st"

definition RecordPayout :: "'r redis \<Rightarrow> string \<Rightarrow> go_err + string \<Rightarrow> 'r \<Rightarrow> go_err option \<times> 'r" where
  "RecordPayout R nodeID data st = push_json R (''payout:'' @ nodeID) data st"

definition read_json :: "'r redis \<Rightarrow> (string \<Rightarrow> 'a option) \<Rightarrow> string \<Rightarrow> int \<Rightarrow> 'r \<Rightarrow> (go_err + 'a list) \<times> 'r" where
  "read_json R dec key n st = (case cLRange R key (i64 (- n)) (- 1) st of
       (Inl e, st') \<Rightarrow> (Inl (RErr e), st')
     | (Inr data, st') \<Rightarrow> (Inr (List.map_filter dec data), st'))"

definition GetBandwidthSnapshots :: "'r redis \<Rightarrow> (string \<Rightarrow> 'a option) \<Rightarrow> string \<Rightarrow> int \<Rightarrow> 'r \<Rightarrow> (go_err + 'a list) \<times> 'r" where
  "GetBandwidthSnapshots R dec nodeID n st = read_json R dec (''bw_snapshots:'' @ nodeID) n st"

definition GetPayoutHistory :: "'r redis \<Rightarrow> (string \<Rightarrow> 'a option) \<Rightarrow> string \<Rightarrow> int \<Rightarrow> 'r \<Rightarrow> (go_err + 'a list) \<times> 'r" where
  "GetPayoutHistory R dec nodeID n st = read_json R dec (''payout:'' @ nodeID) n st"

definition RecordReferral :: "'r redis \<Rightarrow> string \<Rightarrow> string \<Rightarrow> 'r \<Rightarrow> go_err option \<times> 'r" where
  "RecordReferral R code nodeID st = (case cRPush R (''referrals:'' @ code) nodeID st of (res, st') \<Rightarrow> (cmd_err res, st'))"

definition GetReferrals :: "'r redis \<Rightarrow> string \<Rightarrow> 'r \<Rightarrow> (redis_err + string list) \<times> 'r" where
  "GetReferrals R code st = cLRange R (''referrals:'' @ code) 0 (- 1) st"

definition GetReferralCount :: "'r redis \<Rightarrow> string \<Rightarrow> 'r \<Rightarrow> (redis_err + int) \<times> 'r" where
  "GetReferralCount R code st = cLLen R (''referrals:'' @ code) st"

end
