(* ===== verification/Redis_Mem.thy ===== *)
theory Redis_Mem
  imports Go_Sort Redis_Api
begin

text \<open>
  A small in-memory server, for the witnesses only: it shows that the hypotheses some theorems make
  about the server can hold. No definition that models the code uses it. Expiry is not kept.
\<close>

record mem =
  m_str :: "string \<rightharpoonup> string"
  m_set :: "string \<Rightarrow> string list"
  m_hash :: "string \<Rightarrow> (string \<times> string) list"
  m_zset :: "string \<Rightarrow> (string \<times> f64) list"
  m_list :: "string \<Rightarrow> string list"

definition mem_empty :: mem where
  "mem_empty = \<lparr>m_str = Map.empty, m_set = (\<lambda>_. []), m_hash = (\<lambda>_. []), m_zset = (\<lambda>_. []), m_list = (\<lambda>_. [])\<rparr>"

definition mem_get :: "string \<Rightarrow> (string, mem) redis_cmd" where
  "mem_get k s = (case m_str s k of None \<Rightarrow> Inl RedisNil | Some v \<Rightarrow> Inr v, s)"

definition mem_put :: "string \<Rightarrow> string \<Rightarrow> (unit, mem) redis_cmd" where
  "mem_put k v s = (Inr (), s\<lparr>m_str := (m_str s)(k \<mapsto> v)\<rparr>)"

definition mem_counter :: "string \<Rightarrow> mem \<Rightarrow> int" where
  "mem_counter k s = (case m_str s k of None \<Rightarrow> 0 | Some v \<Rightarrow> fst (parse_int v))"

definition mem_add :: "int \<Rightarrow> string \<Rightarrow> (int, mem) redis_cmd" where
  "mem_add d k s = (let n = mem_counter k s + d in (Inr n, s\<lparr>m_str := (m_str s)(k \<mapsto> show_int n)\<rparr>))"

definition mem_sadd :: "string \<Rightarrow> string \<Rightarrow> (int, mem) redis_cmd" where
  "mem_sadd k v s = (if v \<in> set (m_set s k) then (Inr 0, s)
     else (Inr 1, s\<lparr>m_set := (m_set s)(k := v # m_set s k)\<rparr>))"

definition mem_hset :: "string \<Rightarrow> (string \<times> string) list \<Rightarrow> (int, mem) redis_cmd" where
  "mem_hset k fs s = (Inr (int (length fs)), s\<lparr>m_hash := (m_hash s)(k := fs @ m_hash s k)\<rparr>)"

definition mem_zadd :: "string \<Rightarrow> f64 \<Rightarrow> string \<Rightarrow> (int, mem) redis_cmd" where
  "mem_zadd k x v s = (Inr 1, s\<lparr>m_zset := (m_zset s)(k := (v, x) # filter (\<lambda>p. fst p \<noteq> v) (m_zset s k))\<rparr>)"

definition mem_zrevrange :: "string \<Rightarrow> int \<Rightarrow> int \<Rightarrow> (string list, mem) redis_cmd" where
  "mem_zrevrange k a b s = (Inr (take (nat (b - a + 1)) (drop (nat a)
     (map fst (exchange_sort (\<lambda>p q. f_lt (snd q) (snd p)) (m_zset s k))))), s)"

definition mem_redis :: "mem redis" where
  "mem_redis = \<lparr>cGet = mem_get, cSet = (\<lambda>k v _. mem_put k v), cSetEX = (\<lambda>k v _. mem_put k v),
     cDel = (\<lambda>ks s. (Inr (int (length ks)), s\<lparr>m_str := (\<lambda>k. if k \<in> set ks then None else m_str s k),
        m_hash := (\<lambda>k. if k \<in> set ks then [] else m_hash s k)\<rparr>)),
     cExists = (\<lambda>k s. (Inr (if m_hash s k = [] \<and> m_str s k = None then 0 else 1), s)),
     cExpire = (\<lambda>k d s. (Inr True, s)), cTTL = (\<lambda>k s. (Inr 1, s)), cKeys = (\<lambda>p s. (Inr [], s)),
     cIncr = mem_add 1, cDecr = mem_add (- 1),
     cSAdd = mem_sadd,
     cSRem = (\<lambda>k v s. (Inr 1, s\<lparr>m_set := (m_set s)(k := filter (\<lambda>x. x \<noteq> v) (m_set s k))\<rparr>)),
     cSIsMember = (\<lambda>k v s. (Inr (v \<in> set (m_set s k)), s)), cSMembers = (\<lambda>k s. (Inr (m_set s k), s)),
     cHSet = mem_hset,
     cHGet = (\<lambda>k f s. (case map_of (m_hash s k) f of None \<Rightarrow> Inl RedisNil | Some v \<Rightarrow> Inr v, s)),
     cHGetAll = (\<lambda>k s. (Inr (m_hash s k), s)), cHLen = (\<lambda>k s. (Inr (int (card (fst ` set (m_hash s k)))), s)),
     cHExists = (\<lambda>k f s. (Inr (map_of (m_hash s k) f \<noteq> None), s)),
     cHDel = (\<lambda>k f s. (Inr 1, s\<lparr>m_hash := (m_hash s)(k := filter (\<lambda>p. fst p \<noteq> f) (m_hash s k))\<rparr>)),
     cHIncrBy = (\<lambda>k f n s. (Inr n, s)),
     cZAdd = mem_zadd, cZRange = (\<lambda>k a b s. (Inr (map fst (m_zset s k)), s)), cZRevRange = mem_zrevrange,
     cZScore = (\<lambda>k v s. (case map_of (m_zset s k) v of None \<Rightarrow> Inl RedisNil | Some x \<Rightarrow> Inr x, s)),
     cRPush = (\<lambda>k v s. (Inr 1, s\<lparr>m_list := (m_list s)(k := m_list s k @ [v])\<rparr>)),
     cLTrim = (\<lambda>k a b s. (Inr (), s)), cLRange = (\<lambda>k a b s. (Inr (m_list s k), s)),
     cLLen = (\<lambda>k s. (Inr (int (length (m_list s k))), s)), cIncrBy = (\<lambda>k d. mem_add d k),
     cPublish = (\<lambda>k v s. (Inr 0, s)), cScan = (\<lambda>p s. (Inr [], s)),
     cZCard = (\<lambda>k s. (Inr (int (length (m_zset s k))), s)), cZRemRangeByScore = (\<lambda>k a b s. (Inr 0, s)), cExec = (\<lambda>cs s. (Inr [], s))\<rparr>"

text \<open>The commands of the server, one by one.\<close>

lemma mem_sel [simp]:
  "cGet mem_redis = mem_get"
  "cSet mem_redis = (\<lambda>k v _. mem_put k v)"
  "cSetEX mem_redis = (\<lambda>k v _. mem_put k v)"
  "cDel mem_redis = (\<lambda>ks s. (Inr (int (length ks)), s\<lparr>m_str := (\<lambda>k. if k \<in> set ks then None else m_str s k), m_hash := (\<lambda>k. if k \<in> set ks then [] else m_hash s k)\<rparr>))"
  "cExists mem_redis = (\<lambda>k s. (Inr (if m_hash s k = [] \<and> m_str s k = None then 0 else 1), s))"
  "cExpire mem_redis = (\<lambda>k d s. (Inr True, s))"
  "cTTL mem_redis = (\<lambda>k s. (Inr 1, s))"
  "cKeys mem_redis = (\<lambda>p s. (Inr [], s))"
  "cIncr mem_redis = mem_add 1"
  "cDecr mem_redis = mem_add (- 1)"
  "cSAdd mem_redis = mem_sadd"
  "cSRem mem_redis = (\<lambda>k v s. (Inr 1, s\<lparr>m_set := (m_set s)(k := filter (\<lambda>x. x \<noteq> v) (m_set s k))\<rparr>))"
  "cSIsMember mem_redis = (\<lambda>k v s. (Inr (v \<in> set (m_set s k)), s))"
  "cSMembers mem_redis = (\<lambda>k s. (Inr (m_set s k), s))"
  "cHSet mem_redis = mem_hset"
  "cHGet mem_redis = (\<lambda>k f s. (case map_of (m_hash s k) f of None \<Rightarrow> Inl RedisNil | Some v \<Rightarrow> Inr v, s))"
  "cHGetAll mem_redis = (\<lambda>k s. (Inr (m_hash s k), s))"
  "cHLen mem_redis = (\<lambda>k s. (Inr (int (card (fst ` set (m_hash s k)))), s))"
  "cHExists mem_redis = (\<lambda>k f s. (Inr (map_of (m_hash s k) f \<noteq> None), s))"
  "cHDel mem_redis = (\<lambda>k f s. (Inr 1, s\<lparr>m_hash := (m_hash s)(k := filter (\<lambda>p. fst p \<noteq> f) (m_hash s k))\<rparr>))"
  "cHIncrBy mem_redis = (\<lambda>k f n s. (Inr n, s))"
  "cZAdd mem_redis = mem_zadd"
  "cZRange mem_redis = (\<lambda>k a b s. (Inr (map fst (m_zset s k)), s))"
  "cZRevRange mem_redis = mem_zrevrange"
  "cZScore mem_redis = (\<lambda>k v s. (case map_of (m_zset s k) v of None \<Rightarrow> Inl RedisNil | Some x \<Rightarrow> Inr x, s))"
  "cRPush mem_redis = (\<lambda>k v s. (Inr 1, s\<lparr>m_list := (m_list s)(k := m_list s k @ [v])\<rparr>))"
  "cLTrim mem_redis = (\<lambda>k a b s. (Inr (), s))"
  "cLRange mem_redis = (\<lambda>k a b s. (Inr (m_list s k), s))"
  "cLLen mem_redis = (\<lambda>k s. (Inr (int (length (m_list s k))), s))"
  "cIncrBy mem_redis = (\<lambda>k d. mem_add d k)"
  "cPublish mem_redis = (\<lambda>k v s. (Inr 0, s))"
  "cScan mem_redis = (\<lambda>p s. (Inr [], s))"
  "cZCard mem_redis = (\<lambda>k s. (Inr (int (length (m_zset s k))), s))"
  "cZRemRangeByScore mem_redis = (\<lambda>k a b s. (Inr 0, s))"
  "cExec mem_redis = (\<lambda>cs s. (Inr [], s))"
  by (simp_all add: mem_redis_def)

lemmas mem_defs = mem_get_def mem_put_def mem_counter_def mem_add_def mem_sadd_def mem_hset_def
  mem_zadd_def mem_zrevrange_def mem_empty_def

lemma mem_hash_server: "hash_server mem_redis m_hash"
  by (auto simp: hash_server_def mem_hset_def map_add_def split: option.splits)

end
