(* ===== verification/Matchmaker.thy ===== *)
theory Matchmaker
  imports Health Node_Store Redis_Mem
begin

text \<open>
  The matchmaker (\<open>matchmaker/service.go\<close>): which node a request is given. Its state is the
  circuit breaker of every node, the peers' health and the cooldown time; the rest is on the
  server. The breaker's behaviour over any history of reports is characterised exactly, and what
  \<open>SelectNode\<close> may return is proved for every server, failing ones included.

  Parameters: \<open>math.Exp\<close>, the random index, the clock readings (\<open>now\<close> for the call's own
  reading, \<open>tick\<close> for those made per node).
\<close>

section \<open>State\<close>

record circuitBreaker =
  cb_FailureCount :: int
  cb_Threshold :: int
  cb_LastFailure :: time
  cb_State :: string

record matchmaker =
  mm_health :: peerScores
  mm_circuit :: "string \<rightharpoonup> circuitBreaker"
  mm_threshold :: int
  mm_cooldownTTL :: duration

definition NewMatchmaker :: "int \<Rightarrow> int \<Rightarrow> matchmaker" where
  "NewMatchmaker threshold cooldownTTLMinutes =
     \<lparr>mm_health = NewPeerHealthScore, mm_circuit = Map.empty, mm_threshold = threshold,
      mm_cooldownTTL = (if cooldownTTLMinutes > 0 then i64 (cooldownTTLMinutes * go_minute) else 15 * go_minute)\<rparr>"

definition SetCooldownTTL :: "duration \<Rightarrow> matchmaker \<Rightarrow> matchmaker" where
  "SetCooldownTTL ttl m = m\<lparr>mm_cooldownTTL := ttl\<rparr>"

section \<open>Circuit breakers\<close>

definition isNodeHealthy :: "matchmaker \<Rightarrow> string \<Rightarrow> bool" where
  "isNodeHealthy m nodeID = (case mm_circuit m nodeID of None \<Rightarrow> True | Some cb \<Rightarrow> cb_State cb = ''closed'')"

definition RecordFailure :: "string \<Rightarrow> matchmaker \<Rightarrow> matchmaker" where
  "RecordFailure nodeID m =
     (let cb = (case mm_circuit m nodeID of Some cb \<Rightarrow> cb
            | None \<Rightarrow> \<lparr>cb_FailureCount = 0, cb_Threshold = mm_threshold m, cb_LastFailure = zero_time, cb_State = ''closed''\<rparr>);
          cb1 = cb\<lparr>cb_FailureCount := i64 (cb_FailureCount cb + 1)\<rparr>;
          cb2 = (if cb_FailureCount cb1 \<ge> cb_Threshold cb1 then cb1\<lparr>cb_State := ''open''\<rparr> else cb1)
      in m\<lparr>mm_circuit := (mm_circuit m)(nodeID \<mapsto> cb2)\<rparr>)"

definition RecordSuccess :: "string \<Rightarrow> matchmaker \<Rightarrow> matchmaker" where
  "RecordSuccess nodeID m = (case mm_circuit m nodeID of None \<Rightarrow> m
     | Some cb \<Rightarrow> m\<lparr>mm_circuit := (mm_circuit m)(nodeID \<mapsto> cb\<lparr>cb_FailureCount := 0, cb_State := ''closed''\<rparr>)\<rparr>)"

definition ResetCircuitBreaker :: "string \<Rightarrow> matchmaker \<Rightarrow> matchmaker" where
  "ResetCircuitBreaker nodeID m = (case mm_circuit m nodeID of None \<Rightarrow> m
     | Some cb \<Rightarrow> m\<lparr>mm_circuit := (mm_circuit m)(nodeID \<mapsto> cb\<lparr>cb_FailureCount := 0, cb_State := ''closed''\<rparr>)\<rparr>)"

definition GetCircuitBreakers :: "matchmaker \<Rightarrow> (string \<rightharpoonup> circuitBreaker)" where
  "GetCircuitBreakers m = mm_circuit m"

section \<open>Selection\<close>

definition filterEligibleNodes :: "'r redis \<Rightarrow> matchmaker \<Rightarrow> string \<Rightarrow> string list \<Rightarrow> 'r \<Rightarrow> string list \<times> 'r" where
  "filterEligibleNodes R m targetDomain candidates st =
     each (\<lambda>nodeID s. if isNodeHealthy m nodeID
         then (case IsInCooldown R targetDomain nodeID s of
             (Inr inCooldown, s') \<Rightarrow> (if \<not> inCooldown then Some nodeID else None, s')
           | (Inl _, s') \<Rightarrow> (None, s'))
         else (None, s)) candidates st"

text \<open>\<open>Duration.Hours()\<close>\<close>

definition duration_hours :: "duration \<Rightarrow> f64" where
  "duration_hours d = f_add (f_int (d sdiv go_hour)) (f_div (f_int (d smod go_hour)) (f_int go_hour))"

definition decayed :: "(f64 \<Rightarrow> f64) \<Rightarrow> time \<Rightarrow> time \<Rightarrow> f64 \<Rightarrow> f64" where
  "decayed mexp now lastSeen reputation = (if lastSeen = zero_time then reputation
     else f_mul reputation (mexp (f_div (f_neg (duration_hours (time_sub now lastSeen))) (f_int 24))))"

definition load_weight :: "f64 \<Rightarrow> f64 \<Rightarrow> int \<Rightarrow> f64" where
  "load_weight reputation healthFactor load =
     f_div (f_mul reputation healthFactor) (f_add (f_int load) (f_int 1))"

definition node_weight ::
    "'r redis \<Rightarrow> (f64 \<Rightarrow> f64) \<Rightarrow> time \<Rightarrow> (string \<Rightarrow> time) \<Rightarrow> matchmaker \<Rightarrow> string \<Rightarrow> 'r \<Rightarrow> f64 \<times> 'r" where
  "node_weight R mexp now tick m nodeID st =
     (case GetNodeLoad R nodeID st of ((load, _), st1) \<Rightarrow>
      case GetNodeReputation R nodeID '''' st1 of ((reputation0, _), st2) \<Rightarrow>
      case GetNode R (tick nodeID) nodeID st2 of (nd, st3) \<Rightarrow>
        let reputation = (case nd of Inl _ \<Rightarrow> reputation0 | Inr n \<Rightarrow> decayed mexp now (nd_LastSeen n) reputation0);
            healthFactor = (case peer_GetScore nodeID (mm_health m) of None \<Rightarrow> f_int 1
              | Some h \<Rightarrow> f_div (ph_OverallScore h) (f_int 100))
        in (load_weight reputation healthFactor load, st3))"

fun pick_best :: "f64 \<Rightarrow> string \<Rightarrow> (string \<times> f64) list \<Rightarrow> string" where
  "pick_best bestWeight selected [] = selected"
| "pick_best bestWeight selected ((i, w) # cs) =
     (if f_lt bestWeight w then pick_best w i cs else pick_best bestWeight selected cs)"

text \<open>\<open>rnd n\<close> is \<open>rand.Int(rand.Reader, n)\<close>: an index below \<open>n\<close>, or an error.\<close>

definition randomSelect :: "(nat \<Rightarrow> go_err + nat) \<Rightarrow> string list \<Rightarrow> go_err + string" where
  "randomSelect rnd nodes = (if nodes = [] then Inl (Err ''no nodes to select from'')
     else (case rnd (length nodes) of Inl e \<Rightarrow> Inl e | Inr idx \<Rightarrow> Inr (nodes ! idx)))"

definition node_weights ::
    "'r redis \<Rightarrow> (f64 \<Rightarrow> f64) \<Rightarrow> time \<Rightarrow> (string \<Rightarrow> time) \<Rightarrow> matchmaker \<Rightarrow> string list \<Rightarrow> 'r \<Rightarrow> (string \<times> f64) list \<times> 'r" where
  "node_weights R mexp now tick m nodes st =
     each (\<lambda>nodeID s. case node_weight R mexp now tick m nodeID s of (w, s') \<Rightarrow> (Some (nodeID, w), s')) nodes st"

definition selectByLoad ::
    "'r redis \<Rightarrow> (f64 \<Rightarrow> f64) \<Rightarrow> (nat \<Rightarrow> go_err + nat) \<Rightarrow> time \<Rightarrow> (string \<Rightarrow> time) \<Rightarrow> matchmaker
      \<Rightarrow> string list \<Rightarrow> 'r \<Rightarrow> (go_err + string) \<times> 'r" where
  "selectByLoad R mexp rnd now tick m nodes st =
     (case node_weights R mexp now tick m nodes st of (candidates, st') \<Rightarrow>
        let selected = pick_best (f_int (- 1)) '''' candidates
        in (if selected = '''' then randomSelect rnd nodes else Inr selected, st'))"

definition SelectNode ::
    "'r redis \<Rightarrow> (f64 \<Rightarrow> f64) \<Rightarrow> (nat \<Rightarrow> go_err + nat) \<Rightarrow> time \<Rightarrow> (string \<Rightarrow> time) \<Rightarrow> matchmaker
      \<Rightarrow> string \<Rightarrow> string \<Rightarrow> string \<Rightarrow> 'r \<Rightarrow> (go_err + node) \<times> 'r" where
  "SelectNode R mexp rnd now tick m country city targetDomain st =
     (case (if city \<noteq> '''' then GetNodesByCity R country city 50 st else (Inr [], st)) of
        (Inl e, st1) \<Rightarrow> (Inl (Wrap ''failed to get city nodes'' e), st1)
      | (Inr cityNodes, st1) \<Rightarrow>
      (case (if cityNodes = [] then GetTopNodes R country 50 st1 else (Inr cityNodes, st1)) of
        (Inl e, st2) \<Rightarrow> (Inl (Wrap ''failed to get candidates'' e), st2)
      | (Inr candidates, st2) \<Rightarrow>
          if candidates = [] then (Inl (Err (''no nodes available for country: '' @ country)), st2) else
          (case filterEligibleNodes R m targetDomain candidates st2 of (eligibleNodes, st3) \<Rightarrow>
             if eligibleNodes = [] then (Inl (Err ''no eligible nodes after filtering''), st3) else
             (case selectByLoad R mexp rnd now tick m eligibleNodes st3 of
                (Inl e, st4) \<Rightarrow> (Inl e, st4)
              | (Inr selectedID, st4) \<Rightarrow>
                  (case IncrementNodeLoad R selectedID st4 of (_, st5) \<Rightarrow>
                  (case GetNodeMeta R (tick selectedID) selectedID st5 of
                     (Inl e, st6) \<Rightarrow> (Inl e, st6)
                   | (Inr meta, st6) \<Rightarrow>
                       (Inr (zero_node\<lparr>nd_ID := selectedID, nd_Country := country, nd_City := city,
                               nd_ISP := nm_ISP meta, nd_OS := nm_OS meta, nd_LastSeen := nm_LastSeen meta\<rparr>), st6)))))))"

section \<open>Registration and heartbeats\<close>

record registration =
  rg_NodeID :: string
  rg_NodeType :: string
  rg_Country :: string
  rg_City :: string
  rg_ISP :: string
  rg_IP :: string
  rg_IPv6Subnet :: string
  rg_OS :: string
  rg_ReferralCode :: string

text \<open>The country of the request, filled in by the lookup function if there is one.\<close>

definition resolve_country :: "(string \<Rightarrow> string) option \<Rightarrow> registration \<Rightarrow> string" where
  "resolve_country geoip req = (case geoip of
     Some f \<Rightarrow> if rg_Country req = '''' then f (rg_IP req) else rg_Country req | None \<Rightarrow> rg_Country req)"

definition node_of_registration :: "time \<Rightarrow> string \<Rightarrow> registration \<Rightarrow> node" where
  "node_of_registration now country req = zero_node\<lparr>nd_ID := rg_NodeID req, nd_NodeType := rg_NodeType req,
     nd_Country := country, nd_City := rg_City req, nd_ISP := rg_ISP req, nd_IP := rg_IP req,
     nd_IPv6Subnet := rg_IPv6Subnet req, nd_OS := rg_OS req, nd_LastSeen := now, nd_Reputation := f_int 100\<rparr>"

definition RegisterNode ::
    "'r redis \<Rightarrow> (string \<Rightarrow> string) option \<Rightarrow> time \<Rightarrow> registration \<Rightarrow> 'r \<Rightarrow> go_err option \<times> 'r" where
  "RegisterNode R geoip now req st =
     (if rg_NodeID req = '''' then (Some (Err ''node_id is required''), st)
      else if rg_IP req = '''' then (Some (Err ''ip is required''), st)
      else let country = resolve_country geoip req
        in if country = '''' then (Some (Err ''country is required (could not auto-detect from IP)''), st)
           else (case AddNode R (node_of_registration now country req) st of
               (Some e, st1) \<Rightarrow> (Some (Wrap ''failed to register node'' e), st1)
             | (None, st1) \<Rightarrow> (None,
                 if rg_ReferralCode req \<noteq> ''''
                 then snd (RecordReferral R (rg_ReferralCode req) (rg_NodeID req) st1) else st1)))"

definition Heartbeat ::
    "'r redis \<Rightarrow> (f64 \<Rightarrow> string) \<Rightarrow> time \<Rightarrow> string \<Rightarrow> int \<Rightarrow> f64 \<Rightarrow> bool \<Rightarrow> 'r \<Rightarrow> go_err option \<times> 'r" where
  "Heartbeat R fmt now nodeID battery cpuUsage isCharging st =
     (if nodeID = '''' then (Some (Err ''node_id is required''), st)
      else UpdateNodeStatus R fmt now nodeID battery cpuUsage isCharging st)"

definition DeregisterNode :: "'r redis \<Rightarrow> string \<Rightarrow> 'r \<Rightarrow> go_err option \<times> 'r" where
  "DeregisterNode R nodeID st = (if nodeID = '''' then (Some (Err ''node_id is required''), st)
     else RemoveNode R nodeID st)"

definition mm_AddToCooldown :: "'r redis \<Rightarrow> matchmaker \<Rightarrow> string \<Rightarrow> string \<Rightarrow> 'r \<Rightarrow> go_err option \<times> 'r" where
  "mm_AddToCooldown R m target nodeID st = AddToCooldownWithTTL R target nodeID (mm_cooldownTTL m) st"

definition mm_GetSessionNode :: "'r redis \<Rightarrow> string \<Rightarrow> 'r \<Rightarrow> (go_err + string) \<times> 'r" where
  "mm_GetSessionNode R sessionID st = (if sessionID = '''' then (Inl (Err ''session_id is required''), st)
     else GetSessionNode R sessionID st)"

definition mm_SetSessionNode :: "'r redis \<Rightarrow> string \<Rightarrow> string \<Rightarrow> int \<Rightarrow> 'r \<Rightarrow> go_err option \<times> 'r" where
  "mm_SetSessionNode R sessionID nodeID ttlSeconds st =
     (if sessionID = '''' \<or> nodeID = '''' then (Some (Err ''session_id and node_id are required''), st)
      else SetSessionNode R sessionID nodeID ttlSeconds st)"

section \<open>Background loops\<close>

definition pingNode :: "'r redis \<Rightarrow> time \<Rightarrow> (string \<Rightarrow> time) \<Rightarrow> string \<Rightarrow> 'r \<Rightarrow> bool \<times> 'r" where
  "pingNode R now tick nodeID st = (case GetNodeMeta R (tick nodeID) nodeID st of
       (Inl e, st') \<Rightarrow> (False, st')
     | (Inr meta, st') \<Rightarrow> (time_sub now (nm_LastSeen meta) < 5 * go_minute, st'))"

fun ping_all :: "'r redis \<Rightarrow> (string \<Rightarrow> time) \<Rightarrow> (string \<Rightarrow> time) \<Rightarrow> string list \<Rightarrow> matchmaker \<times> 'r \<Rightarrow> matchmaker \<times> 'r" where
  "ping_all R now tick [] s = s"
| "ping_all R now tick (n # ns) (m, st) = (case pingNode R (now n) tick n st of (ok, st') \<Rightarrow>
     ping_all R now tick ns (if ok then m else RecordFailure n m, st'))"

definition check_country ::
    "'r redis \<Rightarrow> (string \<Rightarrow> time) \<Rightarrow> (string \<Rightarrow> time) \<Rightarrow> string \<Rightarrow> matchmaker \<times> 'r \<Rightarrow> matchmaker \<times> 'r" where
  "check_country R now tick country = (\<lambda>(m, st). case GetTopNodes R country 20 st of
       (Inl e, st') \<Rightarrow> (m, st')
     | (Inr nodes, st') \<Rightarrow> ping_all R now tick nodes (m, st'))"

definition checkNodeHealth ::
    "'r redis \<Rightarrow> (string \<Rightarrow> time) \<Rightarrow> (string \<Rightarrow> time) \<Rightarrow> matchmaker \<times> 'r \<Rightarrow> matchmaker \<times> 'r" where
  "checkNodeHealth R now tick s =
     fold (check_country R now tick) [''US'', ''GB'', ''DE'', ''FR'', ''CA'', ''AU'', ''JP''] s"

text \<open>One tick of the cooldown loop: a failed listing is an empty one, a failed TTL is 0.\<close>

definition mm_cooldown_tick :: "'r redis \<Rightarrow> 'r \<Rightarrow> 'r" where
  "mm_cooldown_tick R st = (case cKeys R ''cooldown:*'' st of (ks, st1) \<Rightarrow>
     snd (each (\<lambda>k s. case cTTL R k s of (ttl, s1) \<Rightarrow>
       (None :: unit option, if reply_or 0 ttl \<le> 0 then snd (cDel R [k] s1) else s1)) (reply_or [] ks) st1))"

section \<open>Lemmas\<close>

text \<open>The reports a breaker receives.\<close>

datatype cb_event = Fail string | Succeed string | Reset string

fun cb_apply :: "cb_event \<Rightarrow> matchmaker \<Rightarrow> matchmaker" where
  "cb_apply (Fail n) m = RecordFailure n m"
| "cb_apply (Succeed n) m = RecordSuccess n m"
| "cb_apply (Reset n) m = ResetCircuitBreaker n m"

text \<open>The failures of node \<open>n\<close> since its last success or reset, \<open>k\<close> of them before the list.\<close>

fun fails_since :: "string \<Rightarrow> cb_event list \<Rightarrow> nat \<Rightarrow> nat" where
  "fails_since n [] k = k"
| "fails_since n (Fail d # es) k = fails_since n es (if d = n then Suc k else k)"
| "fails_since n (Succeed d # es) k = fails_since n es (if d = n then 0 else k)"
| "fails_since n (Reset d # es) k = fails_since n es (if d = n then 0 else k)"

definition cb_is :: "matchmaker \<Rightarrow> string \<Rightarrow> nat \<Rightarrow> bool" where
  "cb_is m n k \<longleftrightarrow> (case mm_circuit m n of None \<Rightarrow> k = 0
     | Some cb \<Rightarrow> cb_FailureCount cb = int k \<and> cb_Threshold cb = mm_threshold m \<and>
         cb_State cb = (if 1 \<le> k \<and> mm_threshold m \<le> int k then ''open'' else ''closed''))"

lemma cb_threshold [simp]: "mm_threshold (cb_apply e m) = mm_threshold m"
  by (cases e) (auto simp: RecordFailure_def RecordSuccess_def ResetCircuitBreaker_def Let_def split: option.splits)

lemma cb_is_fail: "cb_is m n k \<Longrightarrow> int k + 1 < 2 ^ 63 \<Longrightarrow> cb_is (RecordFailure n m) n (Suc k)"
  by (auto simp: cb_is_def RecordFailure_def Let_def i64_id_bounds add.commute split: option.splits)

lemma cb_is_close:
  "cb_is m n k \<Longrightarrow> cb_is (RecordSuccess n m) n 0" "cb_is m n k \<Longrightarrow> cb_is (ResetCircuitBreaker n m) n 0"
  by (auto simp: cb_is_def RecordSuccess_def ResetCircuitBreaker_def split: option.splits)

lemma cb_is_other:
  "d \<noteq> n \<Longrightarrow> cb_is m n k \<Longrightarrow> cb_is (RecordFailure d m) n k"
  "d \<noteq> n \<Longrightarrow> cb_is m n k \<Longrightarrow> cb_is (RecordSuccess d m) n k"
  "d \<noteq> n \<Longrightarrow> cb_is m n k \<Longrightarrow> cb_is (ResetCircuitBreaker d m) n k"
  by (auto simp: cb_is_def RecordFailure_def RecordSuccess_def ResetCircuitBreaker_def Let_def split: option.splits)

lemma cb_is_fold:
  "cb_is m n k \<Longrightarrow> int k + int (length es) < 2 ^ 63 \<Longrightarrow> cb_is (fold cb_apply es m) n (fails_since n es k)"
proof (induction es arbitrary: m k)
  case (Cons e es)
  show ?case
  proof (cases e)
    case (Fail d)
    show ?thesis
    proof (cases "d = n")
      case True
      have "cb_is (RecordFailure n m) n (Suc k)" using cb_is_fail Cons.prems by simp
      from Cons.IH [OF this] show ?thesis using True Fail Cons.prems(2) by simp
    qed (use Fail Cons cb_is_other(1) [of d n m k] in simp)
  next
    case (Succeed d)
    then show ?thesis using Cons cb_is_other(2) [of d n m k] cb_is_close(1) [of m n k] by (cases "d = n") auto
  next
    case (Reset d)
    then show ?thesis using Cons cb_is_other(3) [of d n m k] cb_is_close(2) [of m n k] by (cases "d = n") auto
  qed
qed simp

lemma cb_is_healthy: "cb_is m n k \<Longrightarrow> isNodeHealthy m n \<longleftrightarrow> \<not> (1 \<le> k \<and> mm_threshold m \<le> int k)"
  by (auto simp: cb_is_def isNodeHealthy_def split: option.splits if_splits)

lemma fold_threshold [simp]: "mm_threshold (fold cb_apply es m) = mm_threshold m"
  by (induction es arbitrary: m) simp_all

text \<open>Selection.\<close>

lemma eligible_sound:
  assumes "filterEligibleNodes R m tgt cands st = (el, st')" and "n \<in> set el"
  shows "n \<in> set cands \<and> isNodeHealthy m n \<and> (\<exists>s. fst (IsInCooldown R tgt n s) = Inr False)"
proof -
  from each_in [OF assms(1) [unfolded filterEligibleNodes_def] assms(2)]
  obtain k s where k: "k \<in> set cands" and f: "fst (if isNodeHealthy m k
       then (case IsInCooldown R tgt k s of (Inr inC, s') \<Rightarrow> (if \<not> inC then Some k else None, s') | (Inl _, s') \<Rightarrow> (None, s'))
       else (None, s)) = Some n" by blast
  from f have h: "isNodeHealthy m k" by (simp split: if_splits)
  obtain r s' where r: "IsInCooldown R tgt k s = (r, s')" by fastforce
  with f h have "r = Inr False \<and> k = n" by (cases r) (auto split: if_splits)
  with k h r show ?thesis by (metis fst_conv)
qed

lemma each_total:
  "(\<And>k s. fst (f k s) = Some (g k s)) \<Longrightarrow> each f ks st = (xs, st') \<Longrightarrow> length xs = length ks"
proof (induction ks arbitrary: st xs st')
  case (Cons k ks)
  obtain s1 where f: "f k st = (Some (g k st), s1)" using Cons.prems(1) [of k st] by (cases "f k st") auto
  obtain ys s2 where r: "each f ks s1 = (ys, s2)" by fastforce
  then have "length ys = length ks" using Cons.IH Cons.prems(1) by blast
  with Cons.prems(2) f r show ?case by auto
qed simp

lemma node_weights_ids:
  "node_weights R mexp now tick m ns st = (ws, st') \<Longrightarrow> map fst ws = ns"
proof (induction ns arbitrary: st ws st')
  case (Cons n ns)
  obtain w s1 where w: "node_weight R mexp now tick m n st = (w, s1)" by fastforce
  obtain vs s2 where r: "node_weights R mexp now tick m ns s1 = (vs, s2)" by fastforce
  then have "map fst vs = ns" using Cons.IH by blast
  with Cons.prems w r show ?case by (auto simp: node_weights_def)
qed (simp add: node_weights_def)

lemma pick_best_in: "pick_best b s cs = s \<or> pick_best b s cs \<in> fst ` set cs"
  by (induction b s cs rule: pick_best.induct) auto

text \<open>The pick beats the initial bound, and nothing beats it.\<close>

lemma f_lt_trans: "f_lt x y \<Longrightarrow> f_lt y z \<Longrightarrow> f_lt x z"
  by (cases x; cases y; cases z) auto

lemma f_lt_le_trans: "f_lt x y \<Longrightarrow> \<not> f_lt z y \<Longrightarrow> z \<noteq> FNaN \<Longrightarrow> f_lt x z"
  by (cases x; cases y; cases z) auto

lemma pick_best_run:
  "b \<noteq> FNaN \<Longrightarrow> \<exists>W. W \<noteq> FNaN \<and> \<not> f_lt W b \<and> (\<forall>(j, v) \<in> set cs. \<not> f_lt W v) \<and>
    ((pick_best b s cs = s \<and> W = b) \<or> ((pick_best b s cs, W) \<in> set cs \<and> f_lt b W))"
proof (induction b s cs rule: pick_best.induct)
  case (2 b s i w cs)
  show ?case
  proof (cases "f_lt b w")
    case True
    then have "w \<noteq> FNaN" by (cases b; cases w) auto
    from "2.IH"(1) [OF True this] obtain W where W: "W \<noteq> FNaN" "\<not> f_lt W w" "\<forall>(j, v) \<in> set cs. \<not> f_lt W v"
        "(pick_best w i cs = i \<and> W = w) \<or> ((pick_best w i cs, W) \<in> set cs \<and> f_lt w W)" by blast
    have "f_lt b W" using True W(2,1) by (rule f_lt_le_trans)
    moreover have "\<not> f_lt W b" using calculation by (rule f_lt_asym)
    ultimately show ?thesis using W True by (intro exI [of _ W]) auto
  next
    case False
    from "2.IH"(2) [OF False "2.prems"] obtain W where W: "W \<noteq> FNaN" "\<not> f_lt W b" "\<forall>(j, v) \<in> set cs. \<not> f_lt W v"
        "(pick_best b s cs = s \<and> W = b) \<or> ((pick_best b s cs, W) \<in> set cs \<and> f_lt b W)" by blast
    have "\<not> f_lt W w" using f_lt_negtrans [OF "2.prems" W(2) False] .
    with W False show ?thesis by (intro exI [of _ W]) auto
  qed
qed auto

lemma f_int_minus_1 [simp]: "f_int (- 1) = Fin (- 1)"
  using f_int_small [of "- 1"] by simp

lemma random_in:
  "randomSelect rnd ns = Inr i \<Longrightarrow> (\<And>k j. 0 < k \<Longrightarrow> rnd k = Inr j \<Longrightarrow> j < k) \<Longrightarrow> i \<in> set ns"
  by (auto simp: randomSelect_def split: if_splits sum.splits)

lemma selected_in:
  assumes "selectByLoad R mexp rnd now tick m ns st = (Inr i, st')" and "\<And>k j. 0 < k \<Longrightarrow> rnd k = Inr j \<Longrightarrow> j < k"
  shows "i \<in> set ns"
proof -
  obtain ws s1 where w: "node_weights R mexp now tick m ns st = (ws, s1)" by fastforce
  have ids: "map fst ws = ns" using node_weights_ids [OF w] .
  show ?thesis
  proof (cases "pick_best (f_int (- 1)) '''' ws = ''''")
    case True
    then show ?thesis using assms w random_in by (auto simp: selectByLoad_def)
  next
    case False
    then have "i = pick_best (f_int (- 1)) '''' ws" using assms(1) w by (simp add: selectByLoad_def)
    moreover have "pick_best (f_int (- 1)) '''' ws \<in> fst ` set ws" using pick_best_in False by blast
    ultimately show ?thesis using ids by (metis list.set_map)
  qed
qed

text \<open>The path of a successful selection.\<close>

lemma SelectNode_path:
  assumes "SelectNode R mexp rnd now tick m country city tgt st = (Inr n, st')"
  obtains ns s1 el s3 s4 where
    "(\<exists>s. fst (cZRevRange R (''nodes:'' @ country @ '':'' @ city) 0 49 s) = Inr ns) \<or>
     (\<exists>s. fst (cZRevRange R (''nodes:'' @ country) 0 49 s) = Inr ns)"
    and "filterEligibleNodes R m tgt ns s1 = (el, s3)"
    and "selectByLoad R mexp rnd now tick m el s3 = (Inr (nd_ID n), s4)"
    and "nd_IP n = ''''" and "nd_IPv6Subnet n = ''''"
proof -
  have i: "i64 49 = 49" by (simp add: i64_def)
  obtain cn s1 where c: "(if city \<noteq> '''' then GetNodesByCity R country city 50 st else (Inr [], st)) = (Inr cn, s1)"
    using assms by (auto simp: SelectNode_def split: prod.splits sum.splits if_splits)
  obtain ns s2 where t: "(if cn = [] then GetTopNodes R country 50 s1 else (Inr cn, s1)) = (Inr ns, s2)"
    using assms c by (auto simp: SelectNode_def split: prod.splits sum.splits if_splits)
  obtain el s3 where f: "filterEligibleNodes R m tgt ns s2 = (el, s3)" by fastforce
  have ne: "ns \<noteq> []" "el \<noteq> []" using assms c t f by (auto simp: SelectNode_def split: if_splits)
  obtain sid s4 where sel: "selectByLoad R mexp rnd now tick m el s3 = (Inr sid, s4)"
    using assms c t f ne by (auto simp: SelectNode_def split: prod.splits sum.splits)
  have n: "nd_ID n = sid" "nd_IP n = ''''" "nd_IPv6Subnet n = ''''"
    using assms c t f ne sel by (auto simp: SelectNode_def zero_node_def split: prod.splits sum.splits)
  have "(\<exists>s. fst (cZRevRange R (''nodes:'' @ country @ '':'' @ city) 0 49 s) = Inr ns) \<or>
     (\<exists>s. fst (cZRevRange R (''nodes:'' @ country) 0 49 s) = Inr ns)"
  proof (cases "cn = []")
    case True
    with t have "GetTopNodes R country 50 s1 = (Inr ns, s2)" by simp
    then have "fst (cZRevRange R (''nodes:'' @ country) 0 49 s1) = Inr ns"
      by (auto simp: GetTopNodes_def i split: prod.splits sum.splits)
    then show ?thesis by blast
  next
    case False
    with t have "ns = cn" by simp
    moreover have "GetNodesByCity R country city 50 st = (Inr cn, s1)" using c False by (auto split: if_splits)
    ultimately have "fst (cZRevRange R (''nodes:'' @ country @ '':'' @ city) 0 49 st) = Inr ns"
      using False by (auto simp: GetNodesByCity_def i split: prod.splits sum.splits redis_err.splits)
    then show ?thesis by blast
  qed
  then show ?thesis using that f sel n by blast
qed

section \<open>Properties\<close>

text \<open>C5: The breaker of a node, after any history of failures, successes and resets of any nodes,
  is open exactly when the node has failed at least once and at least as often as the threshold
  since its last success or reset.\<close>

theorem breaker_exact:
  assumes "int (length es) < 2 ^ 63"
  shows "isNodeHealthy (fold cb_apply es (NewMatchmaker threshold ttl)) n \<longleftrightarrow>
    \<not> (1 \<le> fails_since n es 0 \<and> threshold \<le> int (fails_since n es 0))"
proof -
  have "cb_is (NewMatchmaker threshold ttl) n 0" by (simp add: cb_is_def NewMatchmaker_def)
  then have "cb_is (fold cb_apply es (NewMatchmaker threshold ttl)) n (fails_since n es 0)"
    by (rule cb_is_fold) (use assms in simp)
  from cb_is_healthy [OF this] show ?thesis by (simp add: NewMatchmaker_def)
qed

theorem breaker_exact_witness:
  "\<not> isNodeHealthy (fold cb_apply [Fail ''a'', Fail ''b'', Fail ''a''] (NewMatchmaker 2 15)) ''a'' \<and>
    isNodeHealthy (fold cb_apply [Fail ''a'', Fail ''a'', Succeed ''a'', Fail ''a''] (NewMatchmaker 2 15)) ''a''"
  using breaker_exact [of "[Fail ''a'', Fail ''b'', Fail ''a'']" 2 15 "''a''"]
    breaker_exact [of "[Fail ''a'', Fail ''a'', Succeed ''a'', Fail ''a'']" 2 15 "''a''"] by simp

text \<open>C1: Whatever the server answers, a node \<open>SelectNode\<close> returns was listed by the server for the
  country or the city, has a closed breaker, and was reported by the server as not in cooldown for
  the target.\<close>

theorem SelectNode_sound:
  assumes "SelectNode R mexp rnd now tick m country city tgt st = (Inr n, st')"
    and "\<And>k j. 0 < k \<Longrightarrow> rnd k = Inr j \<Longrightarrow> j < k"
  shows "isNodeHealthy m (nd_ID n) \<and>
    (\<exists>s. fst (cSIsMember R (''cooldown:'' @ tgt) (nd_ID n) s) = Inr False) \<and>
    (\<exists>s ns. nd_ID n \<in> set ns \<and>
      (fst (cZRevRange R (''nodes:'' @ country @ '':'' @ city) 0 49 s) = Inr ns \<or>
       fst (cZRevRange R (''nodes:'' @ country) 0 49 s) = Inr ns))"
  using assms(1)
proof (rule SelectNode_path)
  fix ns s1 el s3 s4
  assume f: "filterEligibleNodes R m tgt ns s1 = (el, s3)"
    and sel: "selectByLoad R mexp rnd now tick m el s3 = (Inr (nd_ID n), s4)"
    and ns: "(\<exists>s. fst (cZRevRange R (''nodes:'' @ country @ '':'' @ city) 0 49 s) = Inr ns) \<or>
     (\<exists>s. fst (cZRevRange R (''nodes:'' @ country) 0 49 s) = Inr ns)"
  have "nd_ID n \<in> set el" using selected_in [OF sel assms(2)] .
  from eligible_sound [OF f this] ns show ?thesis unfolding IsInCooldown_def by blast
qed

text \<open>Two nodes of a country, the better one in cooldown for one target.\<close>

definition demo_server :: mem where
  "demo_server = mem_empty\<lparr>
     m_zset := (\<lambda>_. [])(''nodes:US'' := [(''n1'', Fin 100), (''n2'', Fin 90)]),
     m_set := (\<lambda>_. [])(''cooldown:t'' := [''n1'']),
     m_hash := (\<lambda>_. [])(''node_meta:n1'' := [(''isp'', ''x'')], ''node_meta:n2'' := [(''isp'', ''y''), (''lastSeen'', ''5'')])\<rparr>"

lemma demo_select:
  "\<exists>n st'. SelectNode mem_redis (\<lambda>x. Fin 1) (\<lambda>n. Inr 0) 0 (\<lambda>_. 0) (NewMatchmaker 3 15) ''US'' '''' ''t'' demo_server = (Inr n, st')
    \<and> nd_ID n = ''n2''"
proof -
  have e: "GetTopNodes mem_redis ''US'' 50 demo_server = (Inr [''n1'', ''n2''], demo_server)"
    by (simp add: GetTopNodes_def mem_defs demo_server_def i64_def exchange_sort_sel)
  have f: "filterEligibleNodes mem_redis (NewMatchmaker 3 15) ''t'' [''n1'', ''n2''] demo_server = ([''n2''], demo_server)"
    by (simp add: filterEligibleNodes_def isNodeHealthy_def NewMatchmaker_def IsInCooldown_def mem_defs demo_server_def)
  have s: "\<exists>st'. selectByLoad mem_redis (\<lambda>x. Fin 1) (\<lambda>n. Inr 0) 0 (\<lambda>_. 0) (NewMatchmaker 3 15) [''n2''] demo_server = (Inr ''n2'', st')
      \<and> m_hash st' = m_hash demo_server"
  proof -
    obtain ws st' where w: "node_weights mem_redis (\<lambda>x. Fin 1) 0 (\<lambda>_. 0) (NewMatchmaker 3 15) [''n2''] demo_server = (ws, st')"
      by fastforce
    then have "map fst ws = [''n2'']" by (rule node_weights_ids)
    then obtain v where v: "ws = [(''n2'', v)]" by (cases ws) auto
    have "m_hash st' = m_hash demo_server"
      using w by (auto simp: node_weights_def node_weight_def GetNodeLoad_def GetNodeReputation_def GetNode_def
          mem_defs demo_server_def Let_def split: prod.splits)
    then show ?thesis using w v by (auto simp: selectByLoad_def randomSelect_def)
  qed
  then obtain st' where s: "selectByLoad mem_redis (\<lambda>x. Fin 1) (\<lambda>n. Inr 0) 0 (\<lambda>_. 0) (NewMatchmaker 3 15) [''n2''] demo_server = (Inr ''n2'', st')"
      and h: "m_hash st' = m_hash demo_server" by blast
  have "\<exists>meta st2. GetNodeMeta mem_redis 0 ''n2'' (snd (IncrementNodeLoad mem_redis ''n2'' st')) = (Inr meta, st2)"
    by (simp add: GetNodeMeta_def IncrementNodeLoad_def mem_add_def Let_def h) (simp add: demo_server_def)
  then show ?thesis using e f s by (auto simp: SelectNode_def split: prod.splits)
qed

theorem SelectNode_sound_witness:
  "isNodeHealthy (NewMatchmaker 3 15) ''n2'' \<and> (\<exists>s. fst (cSIsMember mem_redis ''cooldown:t'' ''n2'' s) = Inr False)"
proof -
  obtain n st' where n: "SelectNode mem_redis (\<lambda>x. Fin 1) (\<lambda>n. Inr 0) 0 (\<lambda>_. 0) (NewMatchmaker 3 15) ''US'' '''' ''t'' demo_server = (Inr n, st')"
    "nd_ID n = ''n2''" using demo_select by blast
  from SelectNode_sound [OF n(1)] show ?thesis by (simp add: n(2))
qed

text \<open>Selection by load takes a heaviest candidate: either the node chosen has a weight above -1
  that no candidate's exceeds, or no candidate with a name has a weight above -1 (all are below, or
  NaN) and the choice is random.\<close>

theorem selectByLoad_best:
  assumes "node_weights R mexp now tick m nodes st = (ws, st')"
  shows "selectByLoad R mexp rnd now tick m nodes st = (r, s) \<Longrightarrow>
    (\<exists>i w. r = Inr i \<and> (i, w) \<in> set ws \<and> f_lt (Fin (- 1)) w \<and> (\<forall>(j, v) \<in> set ws. \<not> f_lt w v)) \<or>
    r = randomSelect rnd nodes \<and> ('''' \<in> set nodes \<or> (\<forall>(j, v) \<in> set ws. \<not> f_lt (Fin (- 1)) v))"
proof -
  assume r: "selectByLoad R mexp rnd now tick m nodes st = (r, s)"
  let ?p = "pick_best (Fin (- 1)) '''' ws"
  obtain W where W: "\<forall>(j, v) \<in> set ws. \<not> f_lt W v"
      "(?p = '''' \<and> W = Fin (- 1)) \<or> ((?p, W) \<in> set ws \<and> f_lt (Fin (- 1)) W)"
    using pick_best_run [of "Fin (- 1)" ws "''''"] by auto
  have ids: "map fst ws = nodes" using node_weights_ids [OF assms] .
  show ?thesis
  proof (cases "?p = ''''")
    case True
    then have "r = randomSelect rnd nodes" using r assms by (simp add: selectByLoad_def)
    moreover have "'''' \<in> set nodes \<or> (\<forall>(j, v) \<in> set ws. \<not> f_lt (Fin (- 1)) v)"
    proof (cases "W = Fin (- 1)")
      case True
      with W(1) show ?thesis by blast
    next
      case False
      then have "('''', W) \<in> set ws" using W(2) \<open>?p = ''''\<close> by auto
      then have "'''' \<in> set (map fst ws)" by force
      with ids show ?thesis by simp
    qed
    ultimately show ?thesis by blast
  next
    case False
    then have "r = Inr ?p" using r assms by (simp add: selectByLoad_def)
    with False W show ?thesis by blast
  qed
qed

theorem selectByLoad_best_witness:
  "\<exists>i w. (i, w) \<in> set (fst (node_weights mem_redis (\<lambda>x. Fin 1) 0 (\<lambda>_. 0) (NewMatchmaker 3 15) [''n1'', ''n2''] demo_server))
    \<and> (\<forall>(j, v) \<in> set (fst (node_weights mem_redis (\<lambda>x. Fin 1) 0 (\<lambda>_. 0) (NewMatchmaker 3 15) [''n1'', ''n2''] demo_server)). \<not> f_lt w v)"
proof -
  let ?ws = "node_weights mem_redis (\<lambda>x. Fin 1) 0 (\<lambda>_. 0) (NewMatchmaker 3 15) [''n1'', ''n2''] demo_server"
  obtain ws st' where w: "?ws = (ws, st')" by fastforce
  obtain r s where r: "selectByLoad mem_redis (\<lambda>x. Fin 1) (\<lambda>n. Inr 0) 0 (\<lambda>_. 0) (NewMatchmaker 3 15) [''n1'', ''n2''] demo_server = (r, s)"
    by fastforce
  have load: "GetNodeLoad mem_redis i s = ((0, None), s)" if "m_str s = Map.empty" for i s
    using that by (simp add: GetNodeLoad_def mem_defs)
  have rep: "GetNodeReputation mem_redis i '''' s = ((Fin 100, None), s)" if "m_zset s ''nodes:'' = []" for i s
    using that by (simp add: GetNodeReputation_def mem_defs)
  have wt: "fst (node_weight mem_redis (\<lambda>x. Fin 1) 0 (\<lambda>_. 0) (NewMatchmaker 3 15) i demo_server) = Fin 100
      \<and> snd (node_weight mem_redis (\<lambda>x. Fin 1) 0 (\<lambda>_. 0) (NewMatchmaker 3 15) i demo_server) = demo_server"
    if "i = ''n1'' \<or> i = ''n2''" for i
  proof -
    have d: "m_str demo_server = Map.empty" "m_zset demo_server ''nodes:'' = []"
      by (simp_all add: demo_server_def mem_empty_def)
    obtain n where "GetNode mem_redis 0 i demo_server = (Inr n, demo_server)"
    proof -
      have "m_hash demo_server (''node_meta:'' @ i) \<noteq> []"
        using \<open>i = ''n1'' \<or> i = ''n2''\<close> by (auto simp: demo_server_def)
      then have "\<exists>n. GetNode mem_redis 0 i demo_server = (Inr n, demo_server)" by (simp add: GetNode_def)
      then show thesis using \<open>\<And>n. GetNode mem_redis 0 i demo_server = (Inr n, demo_server) \<Longrightarrow> thesis\<close> by blast
    qed
    moreover have "f_mul (Fin 100) (Fin 1) = Fin 100" and "f_add (Fin 0) (Fin 1) = Fin 1"
        and "f_div (Fin 100) (Fin 1) = Fin 100"
      using f_mul_int [of 100 1] f_add_int [of 0 1] f_int_small [of 100] by (simp_all add: f_int_def)
    ultimately show ?thesis using load [OF d(1)] rep [OF d(2)]
      by (simp add: node_weight_def peer_GetScore_def NewMatchmaker_def NewPeerHealthScore_def
          decayed_def load_weight_def Let_def)
  qed
  obtain s1 s2 where "node_weight mem_redis (\<lambda>x. Fin 1) 0 (\<lambda>_. 0) (NewMatchmaker 3 15) ''n1'' demo_server = (Fin 100, demo_server)"
      "node_weight mem_redis (\<lambda>x. Fin 1) 0 (\<lambda>_. 0) (NewMatchmaker 3 15) ''n2'' demo_server = (Fin 100, demo_server)"
    using wt [of "''n1''"] wt [of "''n2''"] by (metis prod.collapse)
  then have ws: "ws = [(''n1'', Fin 100), (''n2'', Fin 100)]" using w by (simp add: node_weights_def)
  from selectByLoad_best [OF w r] show ?thesis unfolding w by (auto simp: ws)
qed

text \<open>What registration stores can be read back, the address excepted: after a node registers on a
  server that stores hash fields, its status carries the provider, the system and the time of
  registration to the second, but an empty IP address and subnet, which are never stored.\<close>

theorem register_then_status:
  assumes server: "\<And>k fs s. fs \<noteq> [] \<Longrightarrow> \<exists>m s' d. cHSet R k fs s = (Inr m, s') \<and> cHGetAll R k s' = (Inr d, s') \<and> d \<noteq> [] \<and>
      (\<forall>f v. map_of fs f = Some v \<longrightarrow> map_of d f = Some v)"
    and reg: "RegisterNode R geoip now req st = (None, st')" and "rg_ReferralCode req = ''''"
    and "in_i64 (unix_seconds now)"
  shows "\<exists>n st2. GetNode R now' (rg_NodeID req) st' = (Inr n, st2) \<and> nd_ID n = rg_NodeID req \<and>
    nd_ISP n = rg_ISP req \<and> nd_OS n = rg_OS req \<and> nd_LastSeen n = of_unix (unix_seconds now) \<and>
    nd_IP n = '''' \<and> nd_IPv6Subnet n = ''''"
proof -
  define nd where "nd = node_of_registration now (resolve_country geoip req) req"
  have add: "AddNode R nd st = (None, st')"
    using reg assms(3) by (auto simp: RegisterNode_def nd_def Let_def split: if_splits prod.splits option.splits)
  define fs where "fs = [(''isp'', nd_ISP nd), (''battery'', show_int (nd_Battery nd)), (''os'', nd_OS nd),
      (''city'', nd_City nd), (''country'', nd_Country nd), (''lastSeen'', show_int (unix_seconds (nd_LastSeen nd)))]"
  obtain s2 m where h: "cHSet R (''node_meta:'' @ nd_ID nd) fs s2 = (Inr m, st')"
    using add unfolding fs_def by (auto simp: AddNode_def cmd_err_None wrap_err_def split: prod.splits sum.splits option.splits if_splits)
  obtain d where d: "cHGetAll R (''node_meta:'' @ nd_ID nd) st' = (Inr d, st')" "d \<noteq> []"
      "\<And>f v. map_of fs f = Some v \<Longrightarrow> map_of d f = Some v"
    using server [of fs "''node_meta:'' @ nd_ID nd" s2] h by (auto simp: fs_def)
  have id: "nd_ID nd = rg_NodeID req" "nd_ISP nd = rg_ISP req" "nd_OS nd = rg_OS req" "nd_LastSeen nd = now"
    by (simp_all add: nd_def node_of_registration_def zero_node_def)
  have "map_of d ''isp'' = Some (rg_ISP req)" "map_of d ''os'' = Some (rg_OS req)"
      "map_of d ''lastSeen'' = Some (show_int (unix_seconds now))"
    by (rule d(3); simp add: fs_def id)+
  then show ?thesis using d(1,2) assms(4) id(1)
    by (auto simp: GetNode_def field_str_def field_time_def parse_show_int zero_node_def split: prod.splits)
qed

theorem register_then_status_witness:
  "\<exists>n st2. GetNode mem_redis 9 ''n7'' (snd (RegisterNode mem_redis None 3000000000
      \<lparr>rg_NodeID = ''n7'', rg_NodeType = '''', rg_Country = ''US'', rg_City = '''', rg_ISP = ''isp1'',
       rg_IP = ''10.0.0.7'', rg_IPv6Subnet = '''', rg_OS = ''linux'', rg_ReferralCode = ''''\<rparr> mem_empty)) = (Inr n, st2)
    \<and> nd_ISP n = ''isp1'' \<and> nd_IP n = ''''"
proof -
  let ?req = "\<lparr>rg_NodeID = ''n7'', rg_NodeType = '''', rg_Country = ''US'', rg_City = '''', rg_ISP = ''isp1'',
       rg_IP = ''10.0.0.7'', rg_IPv6Subnet = '''', rg_OS = ''linux'', rg_ReferralCode = ''''\<rparr>"
  obtain st' where r: "RegisterNode mem_redis None 3000000000 ?req mem_empty = (None, st')"
    by (simp add: RegisterNode_def resolve_country_def AddNode_def node_of_registration_def zero_node_def
        mem_zadd_def mem_hset_def Let_def)
  have "\<exists>n st2. GetNode mem_redis 9 (rg_NodeID ?req) st' = (Inr n, st2) \<and> nd_ID n = rg_NodeID ?req \<and>
    nd_ISP n = rg_ISP ?req \<and> nd_OS n = rg_OS ?req \<and> nd_LastSeen n = of_unix (unix_seconds 3000000000) \<and>
    nd_IP n = '''' \<and> nd_IPv6Subnet n = ''''"
  proof (rule register_then_status [OF _ r])
    show "\<exists>m s' d. cHSet mem_redis k fs s = (Inr m, s') \<and> cHGetAll mem_redis k s' = (Inr d, s') \<and> d \<noteq> [] \<and>
      (\<forall>f v. map_of fs f = Some v \<longrightarrow> map_of d f = Some v)" if "fs \<noteq> []" for k fs s
      using that by (simp add: mem_hset_def)
  qed (simp_all add: unix_seconds_def go_second_def in_i64_def)
  then show ?thesis unfolding r by auto
qed

end
