(* ===== verification/Keys.thy ===== *)
theory Keys
  imports Http Redis_Mem
begin

text \<open>
  API keys: creation, validation, revocation and scopes (\<open>gateway/apikey.go\<close>), and the expiry
  manager and bandwidth quotas of \<open>gateway/keyquota.go\<close>. SHA-256 (with its hexadecimal text), the
  random bytes, the RFC 3339 text and the calendar's next month are library functions and are
  parameters. Days are 24 hours (UTC).
\<close>

section \<open>Scopes\<close>

definition validScopes :: "string list" where
  "validScopes = [''read'', ''write'', ''admin'', ''*'']"

definition scopeLevel :: "string \<Rightarrow> int" where
  "scopeLevel scope = (if scope = ''read'' then 1 else if scope = ''write'' then 2
     else if scope = ''admin'' then 3 else if scope = ''*'' then 99 else 0)"

section \<open>The key service\<close>

record apiKey =
  ak_Key :: string
  ak_Name :: string
  ak_Scope :: string
  ak_CreatedAt :: time
  ak_ExpiresAt :: time

definition unix_now :: "time \<Rightarrow> int" where "unix_now t = t div go_second"

definition add_days :: "time \<Rightarrow> int \<Rightarrow> time" where "add_days t d = t + d * 24 * go_hour"

definition apikey_key :: "(string \<Rightarrow> string) \<Rightarrow> string \<Rightarrow> string" where
  "apikey_key sha rawKey = ''apikey:'' @ sha rawKey"

text \<open>\<open>rawKey\<close> is the text \<open>generateKey(32)\<close> drew; \<open>now\<close> is the instant of the call.\<close>

definition CreateKey ::
    "'r redis \<Rightarrow> (string \<Rightarrow> string) \<Rightarrow> string \<Rightarrow> time \<Rightarrow> string \<Rightarrow> int \<Rightarrow> string \<Rightarrow> 'r \<Rightarrow> (go_err + apiKey) \<times> 'r" where
  "CreateKey R sha rawKey now name ttlDays scope0 st =
     (let scope = (if scope0 \<in> set validScopes then scope0 else ''read'');
          key = \<lparr>ak_Key = rawKey, ak_Name = name, ak_Scope = scope, ak_CreatedAt = now, ak_ExpiresAt = zero_time\<rparr>;
          redisKey = apikey_key sha rawKey;
          data = [(''name'', name), (''scope'', scope), (''created_at'', show_int (unix_now now))]
      in if ttlDays \<noteq> 0 then
           (let expires = add_days now ttlDays;
                key' = key\<lparr>ak_ExpiresAt := expires\<rparr>
            in case cHSet R redisKey (data @ [(''expires_at'', show_int (unix_now expires))]) st of
                 (Inl e, st1) \<Rightarrow> (Inl (RErr e), st1)
               | (Inr _, st1) \<Rightarrow>
                   (Inr key', if ttlDays > 0 then snd (cExpire R redisKey (time_sub expires now) st1) else st1))
         else (case cHSet R redisKey data st of
             (Inl e, st1) \<Rightarrow> (Inl (RErr e), st1) | (Inr _, st1) \<Rightarrow> (Inr key, st1)))"

text \<open>A service that is nil or has no client is \<open>None\<close>.\<close>

definition ValidateKey ::
    "'r redis option \<Rightarrow> (string \<Rightarrow> string) \<Rightarrow> time \<Rightarrow> string \<Rightarrow> 'r \<Rightarrow> (string \<times> go_err option) \<times> 'r" where
  "ValidateKey h sha now rawKey st = (case h of
       None \<Rightarrow> (('''', Some (Err ''api key service not initialized'')), st)
     | Some R \<Rightarrow>
         let redisKey = apikey_key sha rawKey in
         (case cHGetAll R redisKey st of
            (Inl e, st1) \<Rightarrow> (('''', Some (RErr e)), st1)
          | (Inr data, st1) \<Rightarrow>
              if data = [] then (('''', None), st1)
              else if (case map_of data ''expires_at'' of None \<Rightarrow> False | Some s \<Rightarrow> unix_now now > scan_int s)
              then (('''', None), snd (cDel R [redisKey] st1))
              else ((case map_of data ''scope'' of Some s \<Rightarrow> s | None \<Rightarrow> '''', None),
                    snd (cHSet R (redisKey @ '':meta'') [(''last_used'', show_int (unix_now now))] st1))))"

definition RevokeKey :: "'r redis \<Rightarrow> (string \<Rightarrow> string) \<Rightarrow> string \<Rightarrow> 'r \<Rightarrow> go_err option \<times> 'r" where
  "RevokeKey R sha rawKey st = (case cDel R [apikey_key sha rawKey] st of (res, st') \<Rightarrow> (cmd_err res, st'))"

definition RevokeKeyByHash :: "'r redis \<Rightarrow> string \<Rightarrow> 'r \<Rightarrow> go_err option \<times> 'r" where
  "RevokeKeyByHash R hash st = (case cDel R [''apikey:'' @ hash] st of (res, st') \<Rightarrow> (cmd_err res, st'))"

definition UpdateScope :: "'r redis \<Rightarrow> string \<Rightarrow> string \<Rightarrow> 'r \<Rightarrow> go_err option \<times> 'r" where
  "UpdateScope R hash newScope st =
     (if newScope \<notin> set validScopes then (Some (Err (''invalid scope: '' @ newScope)), st)
      else (case cHSet R (''apikey:'' @ hash) [(''scope'', newScope)] st of (res, st') \<Rightarrow> (cmd_err res, st')))"

definition ListKeys :: "'r redis \<Rightarrow> 'r \<Rightarrow> (go_err + (string \<times> string) list list) \<times> 'r" where
  "ListKeys R st = (case cKeys R ''apikey:*'' st of
       (Inl e, st1) \<Rightarrow> (Inl (RErr e), st1)
     | (Inr ks, st1) \<Rightarrow>
         (case each (\<lambda>k s. if has_suffix k '':meta'' then (None, s)
                else (case cHGetAll R k s of (Inl _, s') \<Rightarrow> (None, s')
                  | (Inr data, s') \<Rightarrow> (Some ((''hash'', drop (length ''apikey:'') k) # data), s'))) ks st1 of
            (result, st2) \<Rightarrow> (Inr result, st2)))"

definition HasScope :: "'r redis option \<Rightarrow> (string \<Rightarrow> string) \<Rightarrow> time \<Rightarrow> string \<Rightarrow> string \<Rightarrow> 'r \<Rightarrow> bool \<times> 'r" where
  "HasScope h sha now rawKey requiredScope st = (if h = None then (False, st) else
     (case ValidateKey h sha now rawKey st of ((scope, err), st') \<Rightarrow>
        (if err \<noteq> None \<or> scope = '''' then False else if scope = ''*'' then True else scope = requiredScope, st')))"

definition HasMinScope :: "'r redis option \<Rightarrow> (string \<Rightarrow> string) \<Rightarrow> time \<Rightarrow> string \<Rightarrow> string \<Rightarrow> 'r \<Rightarrow> bool \<times> 'r" where
  "HasMinScope h sha now rawKey minScope st = (if h = None then (False, st) else
     (case ValidateKey h sha now rawKey st of ((scope, err), st') \<Rightarrow>
        (if err \<noteq> None \<or> scope = '''' then False else if scope = ''*'' then True
         else scopeLevel scope \<ge> scopeLevel minScope, st')))"

definition SetKeyRateLimit :: "'r redis \<Rightarrow> (string \<Rightarrow> string) \<Rightarrow> string \<Rightarrow> int \<Rightarrow> int \<Rightarrow> 'r \<Rightarrow> go_err option \<times> 'r" where
  "SetKeyRateLimit R sha rawKey requests windowSeconds st =
     (case cHSet R (''apikey_rl:'' @ sha rawKey)
         [(''requests'', show_int requests), (''window'', show_int windowSeconds)] st of (res, st') \<Rightarrow> (cmd_err res, st'))"

definition GetKeyRateLimit ::
    "'r redis \<Rightarrow> (string \<Rightarrow> string) \<Rightarrow> string \<Rightarrow> 'r \<Rightarrow> (int \<times> int \<times> go_err option) \<times> 'r" where
  "GetKeyRateLimit R sha rawKey st = (case cHGetAll R (''apikey_rl:'' @ sha rawKey) st of
       (Inl e, st') \<Rightarrow> ((0, 0, Some (RErr e)), st')
     | (Inr data, st') \<Rightarrow> ((if data = [] then (0, 0, None)
         else (scan_int (case map_of data ''requests'' of Some s \<Rightarrow> s | None \<Rightarrow> ''''),
               scan_int (case map_of data ''window'' of Some s \<Rightarrow> s | None \<Rightarrow> ''''), None)), st'))"

section \<open>Key expiry\<close>

record keyInfo =
  ki_Key :: string
  ki_Name :: string
  ki_CreatedAt :: time
  ki_ExpiresAt :: time
  ki_RenewalPeriod :: int
  ki_LastRenewed :: time

type_synonym keyTable = "string \<rightharpoonup> keyInfo"

definition kem_line :: "(time \<Rightarrow> string) \<Rightarrow> keyInfo \<Rightarrow> string" where
  "kem_line rfc info = ki_Name info @ ''|'' @ rfc (ki_ExpiresAt info) @ ''|'' @ show_int (ki_RenewalPeriod info)
     @ ''|'' @ show_int (unix_now (ki_LastRenewed info))"

definition kem_CreateKey ::
    "'r redis option \<Rightarrow> (time \<Rightarrow> string) \<Rightarrow> time \<Rightarrow> string \<Rightarrow> string \<Rightarrow> int \<Rightarrow> int \<Rightarrow> keyTable \<times> 'r \<Rightarrow> keyTable \<times> 'r" where
  "kem_CreateKey h rfc now key name ttlDays renewalPeriod = (\<lambda>(keys, st).
     let info = \<lparr>ki_Key = key, ki_Name = name, ki_CreatedAt = now, ki_ExpiresAt = add_days now ttlDays,
           ki_RenewalPeriod = renewalPeriod, ki_LastRenewed = now\<rparr>
     in (keys(key \<mapsto> info), case h of None \<Rightarrow> st
         | Some R \<Rightarrow> snd (cSet R (''key:expiry:'' @ key) (kem_line rfc info) (i64 (ttlDays * 24 * go_hour)) st)))"

definition IsExpired :: "'r redis option \<Rightarrow> time \<Rightarrow> string \<Rightarrow> keyTable \<times> 'r \<Rightarrow> bool \<times> 'r" where
  "IsExpired h now key = (\<lambda>(keys, st). case keys key of
       Some info \<Rightarrow> (now > ki_ExpiresAt info, st)
     | None \<Rightarrow> (case h of None \<Rightarrow> (False, st)
         | Some R \<Rightarrow> (case cExists R (''key:expiry:'' @ key) st of (res, st') \<Rightarrow> (reply_or 0 res = 0, st'))))"

definition RenewKey ::
    "'r redis option \<Rightarrow> time \<Rightarrow> string \<Rightarrow> int \<Rightarrow> keyTable \<times> 'r \<Rightarrow> go_err option \<times> keyTable \<times> 'r" where
  "RenewKey h now key newTTLDays = (\<lambda>(keys, st). case keys key of
       None \<Rightarrow> (Some (Err ''key not found''), keys, st)
     | Some info \<Rightarrow> (None,
         keys(key \<mapsto> info\<lparr>ki_ExpiresAt := add_days now newTTLDays, ki_LastRenewed := now\<rparr>),
         case h of None \<Rightarrow> st
         | Some R \<Rightarrow> snd (cSet R (''key:expiry:'' @ key) (ki_Name info) (i64 (newTTLDays * 24 * go_hour)) st)))"

definition GetExpiry :: "string \<Rightarrow> keyTable \<Rightarrow> time" where
  "GetExpiry key keys = (case keys key of Some info \<Rightarrow> ki_ExpiresAt info | None \<Rightarrow> zero_time)"

definition kem_sweep :: "time \<Rightarrow> keyTable \<Rightarrow> keyTable" where
  "kem_sweep now keys = purge (\<lambda>info. now > ki_ExpiresAt info) keys"

definition kem_Middleware :: "'r redis option \<Rightarrow> time \<Rightarrow> http_req \<Rightarrow> keyTable \<times> 'r \<Rightarrow> outcome \<times> 'r" where
  "kem_Middleware h now r s = (let auth = auth_header r in
     if auth \<noteq> '''' then (case IsExpired h now (presented_key auth) s of (expired, st') \<Rightarrow>
        (if expired then Abort 401 ''API key expired'' else Next, st'))
     else (Next, snd s))"

section \<open>Bandwidth quotas\<close>

record quotaInfo =
  q_NodeID :: string
  q_MonthlyGB :: int
  q_UsedGB :: int
  q_ResetAt :: time
  q_HardLimit :: bool

type_synonym quotaTable = "string \<rightharpoonup> quotaInfo"

text \<open>\<open>next_reset now\<close> is the next reset after \<open>now\<close>; it is computed in \<open>Quota_Calendar\<close>.\<close>

definition SetQuota ::
    "'r redis option \<Rightarrow> (time \<Rightarrow> time) \<Rightarrow> time \<Rightarrow> string \<Rightarrow> int \<Rightarrow> bool \<Rightarrow> quotaTable \<times> 'r \<Rightarrow> quotaTable \<times> 'r" where
  "SetQuota h next_reset now nodeID monthlyGB hardLimit = (\<lambda>(qs, st).
     (qs(nodeID \<mapsto> \<lparr>q_NodeID = nodeID, q_MonthlyGB = monthlyGB, q_UsedGB = 0, q_ResetAt = next_reset now,
        q_HardLimit = hardLimit\<rparr>),
      case h of None \<Rightarrow> st
      | Some R \<Rightarrow> let key = ''quota:'' @ nodeID;
            st1 = snd (cHSet R key [(''monthly_gb'', show_int monthlyGB)] st);
            st2 = snd (cHSet R key [(''used_gb'', ''0'')] st1)
          in snd (cHSet R key [(''hard_limit'', if hardLimit then ''1'' else ''0'')] st2)))"

definition quota_rollover :: "(time \<Rightarrow> time) \<Rightarrow> time \<Rightarrow> quotaInfo \<Rightarrow> quotaInfo" where
  "quota_rollover next_reset now q = (if now > q_ResetAt q
     then q\<lparr>q_UsedGB := 0, q_ResetAt := next_reset now\<rparr> else q)"

definition CheckQuota ::
    "(time \<Rightarrow> time) \<Rightarrow> time \<Rightarrow> string \<Rightarrow> int \<Rightarrow> quotaTable \<Rightarrow> (bool \<times> go_err option) \<times> quotaTable" where
  "CheckQuota next_reset now nodeID additionalGB qs = (case qs nodeID of
       None \<Rightarrow> ((True, None), qs)
     | Some quota0 \<Rightarrow>
         let quota = quota_rollover next_reset now quota0;
             qs' = qs(nodeID \<mapsto> quota);
             newUsed = i64 (q_UsedGB quota + additionalGB)
         in if newUsed > q_MonthlyGB quota
            then (if q_HardLimit quota then ((False, Some (Err ''bandwidth quota exceeded'')), qs')
                  else ((True, None), qs'))
            else ((True, None), qs'))"

definition RecordUsage ::
    "'r redis option \<Rightarrow> (time \<Rightarrow> time) \<Rightarrow> time \<Rightarrow> string \<Rightarrow> int \<Rightarrow> quotaTable \<times> 'r \<Rightarrow> quotaTable \<times> 'r" where
  "RecordUsage h next_reset now nodeID additionalGB = (\<lambda>(qs, st). case qs nodeID of
       None \<Rightarrow> (qs, st)
     | Some quota0 \<Rightarrow>
         let quota = quota_rollover next_reset now quota0
         in (qs(nodeID \<mapsto> quota\<lparr>q_UsedGB := i64 (q_UsedGB quota + additionalGB)\<rparr>),
             case h of None \<Rightarrow> st
             | Some R \<Rightarrow> snd (cHIncrBy R (''quota:'' @ nodeID) ''used_gb'' (i64 (additionalGB * 1024 * 1024 * 1024)) st)))"

definition GetRemainingQuota :: "string \<Rightarrow> quotaTable \<Rightarrow> int" where
  "GetRemainingQuota nodeID qs = (case qs nodeID of None \<Rightarrow> - 1
     | Some quota \<Rightarrow> let remaining = i64 (q_MonthlyGB quota - q_UsedGB quota) in if remaining < 0 then 0 else remaining)"

definition GetQuotaInfo :: "string \<Rightarrow> quotaTable \<Rightarrow> quotaInfo option" where
  "GetQuotaInfo nodeID qs = qs nodeID"

section \<open>Lemmas\<close>

text \<open>What creation stores, field by field.\<close>

lemma CreateKey_stores:
  assumes "hash_server R H" and "CreateKey R sha rawKey now name ttlDays scope0 st = (Inr k, st1)"
  shows "ak_Scope k = (if scope0 \<in> set validScopes then scope0 else ''read'')"
    and "ttlDays \<le> 0 \<Longrightarrow> H st1 (apikey_key sha rawKey) \<noteq> []"
    and "H st1 (apikey_key sha rawKey) \<noteq> [] \<Longrightarrow> map_of (H st1 (apikey_key sha rawKey)) ''scope'' = Some (ak_Scope k)"
    and "H st1 (apikey_key sha rawKey) \<noteq> [] \<Longrightarrow> map_of (H st1 (apikey_key sha rawKey)) ''expires_at'' =
      (if ttlDays \<noteq> 0 then Some (show_int (unix_now (add_days now ttlDays)))
       else map_of (H st (apikey_key sha rawKey)) ''expires_at'')"
proof -
  let ?k = "apikey_key sha rawKey"
  let ?scope = "if scope0 \<in> set validScopes then scope0 else ''read''"
  define fs where "fs = [(''name'', name), (''scope'', ?scope), (''created_at'', show_int (unix_now now))]
    @ (if ttlDays \<noteq> 0 then [(''expires_at'', show_int (unix_now (add_days now ttlDays)))] else [])"
  have ne: "fs \<noteq> []" by (simp add: fs_def)
  obtain x s' where h: "cHSet R ?k fs st = (x, s')" by fastforce
  have ex: "H (snd (cExpire R j d s)) j = H s j \<or> H (snd (cExpire R j d s)) j = []" for j d s
    using assms(1) unfolding hash_server_def by blast
  obtain m where "x = Inr m" using hash_server_HSet(1) [OF assms(1) h ne] by blast
  then have s1: "ak_Scope k = ?scope" "st1 = (if 0 < ttlDays then snd (cExpire R ?k (time_sub (add_days now ttlDays) now) s') else s')"
    using assms(2) h by (cases "ttlDays = 0"; auto simp: CreateKey_def Let_def fs_def)+
  then have st1: "H st1 ?k \<noteq> [] \<Longrightarrow> H st1 ?k = H s' ?k" "ttlDays \<le> 0 \<Longrightarrow> H st1 ?k = H s' ?k"
    using ex by (auto split: if_splits)
  show "ak_Scope k = ?scope" using s1(1) .
  show "H st1 ?k \<noteq> []" if "ttlDays \<le> 0" using hash_server_HSet(2) [OF assms(1) h ne] st1(2) that by simp
  show "map_of (H st1 ?k) ''scope'' = Some (ak_Scope k)" if "H st1 ?k \<noteq> []"
    using hash_server_HSet(3) [OF assms(1) h ne, of "''scope''"] st1(1) [OF that] s1(1) by (simp add: fs_def)
  show "map_of (H st1 ?k) ''expires_at'' = (if ttlDays \<noteq> 0 then Some (show_int (unix_now (add_days now ttlDays)))
       else map_of (H st ?k) ''expires_at'')" if "H st1 ?k \<noteq> []"
    using hash_server_HSet(3) [OF assms(1) h ne, of "''expires_at''"] st1(1) [OF that] by (simp add: fs_def)
qed

lemma ValidateKey_hash:
  assumes "hash_server R H" and "H st (apikey_key sha rawKey) \<noteq> []"
  shows "fst (ValidateKey (Some R) sha now rawKey st) =
    (if (case map_of (H st (apikey_key sha rawKey)) ''expires_at'' of None \<Rightarrow> False | Some s \<Rightarrow> unix_now now > scan_int s)
     then '''' else (case map_of (H st (apikey_key sha rawKey)) ''scope'' of Some s \<Rightarrow> s | None \<Rightarrow> ''''), None)"
  using assms by (simp add: ValidateKey_def hash_server_def Let_def)

text \<open>A check reserves nothing: two uses that are both checked before either is recorded exceed a hard limit together.\<close>

lemma checks_reserve_nothing:
  assumes "qs n = Some q" and "now \<le> q_ResetAt q" and "0 \<le> q_UsedGB q" and "q_MonthlyGB q < 2 ^ 62"
    and "q_UsedGB q + gb \<le> q_MonthlyGB q" and "q_MonthlyGB q < q_UsedGB q + 2 * gb"
  shows "CheckQuota nr now n gb qs = ((True, None), qs) \<and>
    fst (RecordUsage h nr now n gb (RecordUsage h nr now n gb (qs, st))) n = Some (q\<lparr>q_UsedGB := q_UsedGB q + 2 * gb\<rparr>)"
proof -
  have "i64 (q_UsedGB q + gb) = q_UsedGB q + gb" "i64 (q_UsedGB q + gb + gb) = q_UsedGB q + 2 * gb"
    using assms by (auto intro!: trans [OF i64_id_bounds])
  with assms show ?thesis by (auto simp: CheckQuota_def RecordUsage_def quota_rollover_def Let_def)
qed

section \<open>Properties\<close>

text \<open>C27: A key that was just created, where none was, is accepted with the scope it was created with (\<open>read\<close> if that was
  not one of the four) for as long as the server has it and the second of its expiry has not passed; created without an
  expiry it has none of the latter, and the server has it. Seen from any later state in which nobody wrote the key: either
  its hash is still there, or the server has removed it, as it does at the time EXPIRE set; then, as after its expiry,
  it is refused without an error.\<close>

theorem key_roundtrip:
  assumes "hash_server R H" and "CreateKey R sha rawKey now name ttlDays scope0 st = (Inr k, st1)"
    and "in_i64 (unix_now (add_days now ttlDays))" and "H st (apikey_key sha rawKey) = []"
    and "H st2 (apikey_key sha rawKey) \<in> {H st1 (apikey_key sha rawKey), []}"
  shows "fst (ValidateKey (Some R) sha now' rawKey st2) =
      (if H st2 (apikey_key sha rawKey) = [] \<or> ttlDays \<noteq> 0 \<and> unix_now now' > unix_now (add_days now ttlDays) then ''''
       else if scope0 \<in> set validScopes then scope0 else ''read'', None) \<and>
    (ttlDays \<le> 0 \<longrightarrow> H st1 (apikey_key sha rawKey) \<noteq> [])"
proof (cases "H st2 (apikey_key sha rawKey) = []")
  case True
  then show ?thesis using CreateKey_stores(2) [OF assms(1,2)] assms(1) by (simp add: ValidateKey_def hash_server_def Let_def)
next
  case False
  with assms(5) have h: "H st2 (apikey_key sha rawKey) = H st1 (apikey_key sha rawKey)" "H st1 (apikey_key sha rawKey) \<noteq> []" by auto
  show ?thesis
    using ValidateKey_hash [OF assms(1) False, of now'] CreateKey_stores(1) [OF assms(1,2)]
      CreateKey_stores(3,4) [OF assms(1,2) h(2)] assms(3,4) h
    by (simp add: scan_show_int)
qed

text \<open>For seven days: accepted after five, refused after eight, and refused after five where the server has removed it.\<close>

theorem key_roundtrip_witness:
  "\<exists>st1. st1 = snd (CreateKey mem_redis id ''k'' 0 ''n'' 7 ''write'' mem_empty) \<and>
    fst (ValidateKey (Some mem_redis) id (5 * 24 * 3600 * 1000000000) ''k'' st1) = (''write'', None) \<and>
    fst (ValidateKey (Some mem_redis) id (8 * 24 * 3600 * 1000000000) ''k'' st1) = ('''', None) \<and>
    fst (ValidateKey (Some mem_redis) id (5 * 24 * 3600 * 1000000000) ''k'' mem_empty) = ('''', None)"
proof -
  obtain k st1 where c: "CreateKey mem_redis id ''k'' 0 ''n'' 7 ''write'' mem_empty = (Inr k, st1)"
    by (auto simp: CreateKey_def mem_hset_def Let_def)
  have e: "unix_now (add_days 0 7) = 604800" by (simp add: unix_now_def add_days_def go_hour_def go_second_def)
  have n: "m_hash st1 (apikey_key id ''k'') \<noteq> []" using c by (auto simp: CreateKey_def mem_hset_def Let_def)
  have "fst (ValidateKey (Some mem_redis) id now' ''k'' st2) =
      (if m_hash st2 (apikey_key id ''k'') = [] \<or> unix_now now' > 604800 then '''' else ''write'', None)"
    if "m_hash st2 (apikey_key id ''k'') \<in> {m_hash st1 (apikey_key id ''k''), []}" for now' st2
    using key_roundtrip [OF mem_hash_server c _ _ that, of now'] by (simp add: e in_i64_def mem_empty_def validScopes_def id_def)
  note v = this
  have u: "\<not> unix_now (5 * 24 * 3600 * 1000000000) > 604800" "unix_now (8 * 24 * 3600 * 1000000000) > 604800"
    by (simp_all add: unix_now_def go_second_def)
  have m: "m_hash mem_empty (apikey_key id ''k'') = []" by (simp add: mem_empty_def)
  have "snd (CreateKey mem_redis id ''k'' 0 ''n'' 7 ''write'' mem_empty) = st1" by (simp only: c snd_conv)
  moreover have "fst (ValidateKey (Some mem_redis) id (5 * 24 * 3600 * 1000000000) ''k'' st1) = (''write'', None)"
    by (subst v) (use n u in \<open>simp_all only: insert_iff simp_thms if_False\<close>)
  moreover have "fst (ValidateKey (Some mem_redis) id (8 * 24 * 3600 * 1000000000) ''k'' st1) = ('''', None)"
    by (subst v) (use u in \<open>simp_all only: insert_iff simp_thms if_True\<close>)
  moreover have "fst (ValidateKey (Some mem_redis) id (5 * 24 * 3600 * 1000000000) ''k'' mem_empty) = ('''', None)"
    by (subst v) (use m in \<open>simp_all only: insert_iff simp_thms if_True\<close>)
  ultimately show ?thesis by blast
qed

text \<open>The expiry manager's hourly sweep brings expired keys back to life: without Redis, a key
  that has expired is refused before the sweep and accepted after it.\<close>

theorem sweep_revives_key:
  assumes "keys key = Some info" and "ki_ExpiresAt info < t" and "t \<le> t'"
  shows "fst (IsExpired None t' key (keys, st)) \<and> \<not> fst (IsExpired None t' key (kem_sweep t keys, st))"
  using assms by (simp add: IsExpired_def kem_sweep_def purge_def)

theorem sweep_revives_key_witness:
  "\<not> fst (IsExpired (None :: unit redis option) 20 ''k''
    (kem_sweep 15 [''k'' \<mapsto> \<lparr>ki_Key = ''k'', ki_Name = '''', ki_CreatedAt = 0, ki_ExpiresAt = 10, ki_RenewalPeriod = 0, ki_LastRenewed = 0\<rparr>], ()))"
  using sweep_revives_key [of "[''k'' \<mapsto> \<lparr>ki_Key = ''k'', ki_Name = '''', ki_CreatedAt = 0, ki_ExpiresAt = 10, ki_RenewalPeriod = 0, ki_LastRenewed = 0\<rparr>]" "''k''" _ 15 20 "()"]
  by simp

text \<open>The check is on wrapped sums: a request large enough to overflow passes a hard limit.\<close>

lemma quota_overflow:
  assumes "qs n = Some q" and "\<not> now > q_ResetAt q" and "q_UsedGB q = 1" and "0 \<le> q_MonthlyGB q"
  shows "fst (CheckQuota nr now n (2 ^ 63 - 1) qs) = (True, None)"
  using assms by (simp add: CheckQuota_def quota_rollover_def i64_def Let_def)

end
