(* ===== verification/Gateway.thy ===== *)
theory Gateway
  imports Rate_Limit Conn_Pool Compliance Matchmaker Keys
begin

text \<open>
  The gateway (\<open>gateway/service.go\<close>): authentication and scope checks, the proxy handler with
  everything it calls (compliance, sessions, the matchmaker, the connection pool, the failure
  counters and metrics), and the live application of a configuration. The handler is one function
  from the gateway's and the server's state to a response and the next states.

  Parameters, besides the server: \<open>math.Exp\<close>, the random index, the clock, dialling and writing
  on a connection, and the parsing and printing of IP addresses.
\<close>

section \<open>Authentication\<close>

definition auth_exempt :: "string \<Rightarrow> bool" where
  "auth_exempt path \<longleftrightarrow>
     path = ''/'' \<or> path = ''/docs.html'' \<or> path = ''/health'' \<or> path = ''/metrics'' \<or> path = ''/dashboard'' \<or>
     path = ''/peer'' \<or> has_prefix path ''/peer/'' \<or> has_prefix path ''/api/'' \<or>
     path = ''/favicon.ico'' \<or> path = ''/ws'' \<or>
     path = ''/v1/health'' \<or> path = ''/v1/metrics'' \<or> path = ''/v1/dashboard'' \<or> has_prefix path ''/v1/api/''"

text \<open>What the middleware leaves in the request's context: the key and its scope.\<close>

record authContext =
  ax_key :: "string option"
  ax_scope :: "string option"

definition no_context :: authContext where
  "no_context = \<lparr>ax_key = None, ax_scope = None\<rparr>"

text \<open>\<open>svc\<close> is \<open>None\<close> when the gateway has no key service; inside, the client may be nil too.\<close>

definition authMiddleware ::
    "'r redis option option \<Rightarrow> (string \<Rightarrow> string) \<Rightarrow> time \<Rightarrow> http_req \<Rightarrow> 'r \<Rightarrow> (outcome \<times> authContext) \<times> 'r" where
  "authMiddleware svc sha now r st =
     (if auth_exempt (rq_path r) then ((Next, no_context), st)
      else if auth_header r = '''' then ((Abort 401 ''Missing authentication'', no_context), st)
      else case svc of
          None \<Rightarrow> ((Next, no_context), st)
        | Some h \<Rightarrow>
            let key = presented_key (auth_header r)
            in (case ValidateKey h sha now key st of ((scope, err), st') \<Rightarrow>
                 if err \<noteq> None \<or> scope = '''' then ((Abort 401 ''Invalid API key'', no_context), st')
                 else ((Next, \<lparr>ax_key = Some key, ax_scope = Some scope\<rparr>), st')))"

definition requireScope ::
    "'r redis option option \<Rightarrow> (string \<Rightarrow> string) \<Rightarrow> time \<Rightarrow> string \<Rightarrow> authContext \<Rightarrow> 'r \<Rightarrow> outcome \<times> 'r" where
  "requireScope svc sha now requiredScope ctx st = (case svc of None \<Rightarrow> (Next, st) | Some h \<Rightarrow>
     (case ax_key ctx of None \<Rightarrow> (Abort 401 ''Missing API key'', st)
      | Some rawKey \<Rightarrow> (case HasScope h sha now rawKey requiredScope st of (ok, st') \<Rightarrow>
          (if \<not> ok then Abort 403 ''Insufficient scope'' else Next, st'))))"

definition requireMinScope :: "'r redis option option \<Rightarrow> string \<Rightarrow> authContext \<Rightarrow> outcome" where
  "requireMinScope svc minScope ctx = (case svc of None \<Rightarrow> Next | Some h \<Rightarrow>
     (case ax_scope ctx of None \<Rightarrow> Abort 401 ''Missing API key''
      | Some scope \<Rightarrow>
          if scope = '''' then Abort 401 ''Missing API key scope''
          else if scopeLevel scope < scopeLevel minScope then Abort 403 ''Insufficient scope'' else Next))"

section \<open>The gateway's state\<close>

record gateway =
  gw_mm :: matchmaker
  gw_compliance :: complianceService
  gw_connPool :: connPool
  gw_circuitBreakerThreshold :: int
  gw_nodeFailures :: "string \<Rightarrow> int"
  gw_metrics :: metrics

text \<open>The library functions of one request.\<close>

record genv =
  ge_exp :: "f64 \<Rightarrow> f64"
  ge_rnd :: "nat \<Rightarrow> go_err + nat"
  ge_now :: time
  ge_tick :: "string \<Rightarrow> time"
  ge_elapsed :: int
  ge_dial :: "string \<Rightarrow> duration \<Rightarrow> go_err + conn"
  ge_write :: "conn \<Rightarrow> string \<Rightarrow> bool"
  ge_parseIP :: "string \<Rightarrow> nat list option"
  ge_ipString :: "nat list \<Rightarrow> string"

datatype reply = Refused int string | Connected string string string

definition NewGateway :: "int \<Rightarrow> matchmaker \<Rightarrow> complianceService \<Rightarrow> gateway" where
  "NewGateway threshold mm cs = \<lparr>gw_mm = mm, gw_compliance = cs,
     gw_connPool = NewConnPool 10 (5 * go_second), gw_circuitBreakerThreshold = threshold,
     gw_nodeFailures = (\<lambda>_. 0), gw_metrics = metrics_zero\<rparr>"

definition gw_count :: "(metrics \<Rightarrow> metrics) \<Rightarrow> gateway \<Rightarrow> gateway" where
  "gw_count f g = g\<lparr>gw_metrics := f (gw_metrics g)\<rparr>"

section \<open>Failure counters\<close>

definition recordFailure :: "string \<Rightarrow> gateway \<Rightarrow> gateway" where
  "recordFailure nodeID g =
     (let n = i64 (gw_nodeFailures g nodeID + 1);
          g1 = gw_count IncRequestsFailed (g\<lparr>gw_nodeFailures := (gw_nodeFailures g)(nodeID := n)\<rparr>)
      in if n \<ge> gw_circuitBreakerThreshold g
         then g1\<lparr>gw_mm := RecordFailure nodeID (gw_mm g1)\<rparr> else g1)"

definition recordSuccess :: "string \<Rightarrow> gateway \<Rightarrow> gateway" where
  "recordSuccess nodeID g =
     (let g1 = gw_count IncRequestsSuccess (g\<lparr>gw_nodeFailures := (gw_nodeFailures g)(nodeID := 0)\<rparr>)
      in g1\<lparr>gw_mm := RecordSuccess nodeID (gw_mm g1)\<rparr>)"

section \<open>Forwarding\<close>

text \<open>The last byte of the local address is taken from the clock.\<close>

definition bindToIPv6Subnet :: "genv \<Rightarrow> node \<Rightarrow> string" where
  "bindToIPv6Subnet E nd = (if nd_IPv6Subnet nd \<noteq> '''' then
       (case ge_parseIP E (nd_IPv6Subnet nd) of
          Some ip \<Rightarrow> ge_ipString E (ip[15 := nat (ge_now E mod 256)])
        | None \<Rightarrow> nd_IP nd)
     else nd_IP nd)"

text \<open>
  The connection is closed and the node's load decremented when the handler returns, on every path.
  A panic of the pool is answered by the recovery middleware.
\<close>

definition connect_text :: "string \<Rightarrow> string" where
  "connect_text targetHost = ''CONNECT '' @ targetHost @ '' HTTP/1.1'' @ [CHR 0x0D, CHR 0x0A] @ ''Host: '' @ targetHost
     @ [CHR 0x0D, CHR 0x0A, CHR 0x0D, CHR 0x0A]"

definition forward_body ::
    "genv \<Rightarrow> http_req \<Rightarrow> string \<Rightarrow> node \<Rightarrow> string \<Rightarrow> gateway \<Rightarrow> reply \<times> gateway" where
  "forward_body E r param nd localAddr g =
     (let target = (if rq_query r ''url'' = '''' then param else rq_query r ''url'');
          host = extractHostFromTarget target;
          targetHost = (if host = '''' then ''80.80.80.80:80'' else host)
      in case pool_Get (ge_dial E) (nd_IP nd) (gw_connPool g) of
           None \<Rightarrow> (Refused 500 '''', g)
         | Some (Inl err, p) \<Rightarrow>
             (Refused 502 (''Failed to connect to node: '' @ err_text err),
              recordFailure (nd_ID nd) (g\<lparr>gw_connPool := p\<rparr>))
         | Some (Inr c, p) \<Rightarrow>
             if \<not> ge_write E c (connect_text targetHost)
             then (Refused 502 ''Failed to send CONNECT to node'', recordFailure (nd_ID nd) (g\<lparr>gw_connPool := p\<rparr>))
             else (Connected (nd_ID nd) localAddr targetHost, recordSuccess (nd_ID nd) (g\<lparr>gw_connPool := p\<rparr>)))"

definition forwardRequest ::
    "'r redis \<Rightarrow> genv \<Rightarrow> http_req \<Rightarrow> string \<Rightarrow> node \<Rightarrow> string \<Rightarrow> gateway \<times> 'r \<Rightarrow> reply \<times> gateway \<times> 'r" where
  "forwardRequest R E r param nd localAddr = (\<lambda>(g, st).
     case forward_body E r param nd localAddr g of (rep, g') \<Rightarrow>
       (rep, g', snd (DecrementNodeLoad R (nd_ID nd) st)))"

section \<open>The proxy handler\<close>

definition proxy_target :: "http_req \<Rightarrow> string \<Rightarrow> string" where
  "proxy_target r param = (let t1 = (if param = '''' then rq_query r ''url'' else param)
     in if t1 = '''' then rq_path r else t1)"

definition proxy_session :: "http_req \<Rightarrow> string \<Rightarrow> string" where
  "proxy_session r target = (if rq_query r ''session'' = '''' then extractSessionFromPath target
     else rq_query r ''session'')"

text \<open>The gateway's own check of a node's health and of a user's KYC always succeed.\<close>

definition gw_isNodeHealthy :: "string \<Rightarrow> bool" where "gw_isNodeHealthy nodeID = True"
definition gw_validateKYC :: "string \<Rightarrow> bool" where "gw_validateKYC username = True"

text \<open>The node a session is pinned to, if it is known.\<close>

definition session_node :: "'r redis \<Rightarrow> genv \<Rightarrow> string \<Rightarrow> 'r \<Rightarrow> node option \<times> 'r" where
  "session_node R E sessionID st = (if sessionID = '''' then (None, st) else
     (case mm_GetSessionNode R sessionID st of
        (Inl e, st1) \<Rightarrow> (None, st1)
      | (Inr nodeID, st1) \<Rightarrow>
          if nodeID = '''' then (None, st1) else
          (case GetNode R (ge_tick E nodeID) nodeID st1 of
             (Inl e, st2) \<Rightarrow> (None, st2)
           | (Inr nd, st2) \<Rightarrow> (if gw_isNodeHealthy (nd_ID nd) then Some nd else None, st2))))"

definition choose_node ::
    "'r redis \<Rightarrow> genv \<Rightarrow> gateway \<Rightarrow> string \<Rightarrow> string \<Rightarrow> string \<Rightarrow> string \<Rightarrow> 'r \<Rightarrow> (go_err + node) \<times> 'r" where
  "choose_node R E g country city target sessionID st =
     (case session_node R E sessionID st of
        (Some nd, st1) \<Rightarrow> (Inr nd, st1)
      | (None, st1) \<Rightarrow>
          (case SelectNode R (ge_exp E) (ge_rnd E) (ge_now E) (ge_tick E) (gw_mm g) country city target st1 of
             (Inl e, st2) \<Rightarrow> (Inl e, st2)
           | (Inr nd, st2) \<Rightarrow>
               (Inr nd, if sessionID \<noteq> '''' then snd (mm_SetSessionNode R sessionID (nd_ID nd) 3600 st2) else st2)))"

text \<open>\<open>user\<close> is the name basic authentication gives, if the request has it.\<close>

definition proxyHandler ::
    "'r redis \<Rightarrow> genv \<Rightarrow> http_req \<Rightarrow> string \<Rightarrow> string option \<Rightarrow> gateway \<times> 'r \<Rightarrow> reply \<times> gateway \<times> 'r" where
  "proxyHandler R E r param basic = (\<lambda>(g0, st).
     let target = proxy_target r param;
         user = (case basic of Some u \<Rightarrow> u | None \<Rightarrow> rq_query r ''user'');
         sessionID = proxy_session r target;
         country = extractTarget param (rq_query r) ''country'';
         city = extractTarget param (rq_query r) ''city'';
         g = gw_count IncRequestsTotal g0
     in if IsBlocked (gw_compliance g) target then (Refused 403 ''Target domain is blocked'', g, st)
        else if cs_KYCRequired (gw_compliance g) \<and> \<not> gw_validateKYC user
        then (Refused 403 ''KYC verification required'', g, st)
        else case choose_node R E g country city target sessionID st of
             (Inl e, st1) \<Rightarrow> (Refused 503 (err_text e), g, st1)
           | (Inr nd, st1) \<Rightarrow>
               let g1 = gw_count (AddLatency (ge_elapsed E)) (gw_count IncNodesSelected g)
               in forwardRequest R E r param nd (bindToIPv6Subnet E nd) (g1, st1))"

text \<open>
  The chain in front of it, in the order the routes are set up: the tiered rate limiter, the key,
  the scope. The server's state is the one the limiter holds.
\<close>

definition proxy_chain ::
    "'s rateLimiter \<Rightarrow> 'r redis option \<Rightarrow> 'r redis option option \<Rightarrow> (string \<Rightarrow> string) \<Rightarrow> 'r redis \<Rightarrow> genv
      \<Rightarrow> http_req \<Rightarrow> string \<Rightarrow> string option \<Rightarrow> gateway \<times> ('r, 's) tieredLimiter \<Rightarrow> reply \<times> gateway \<times> ('r, 's) tieredLimiter" where
  "proxy_chain L rh svc sha R E r param basic = (\<lambda>(g, t).
     case tiered_Middleware L rh (ge_now E) r (t, gw_metrics g) of
       (Abort code msg, (t1, m1)) \<Rightarrow> (Refused code msg, g\<lparr>gw_metrics := m1\<rparr>, t1)
     | (Next, (t1, m1)) \<Rightarrow>
       let g1 = g\<lparr>gw_metrics := m1\<rparr> in
       (case authMiddleware svc sha (ge_now E) r (tl_redis t1) of
          ((Abort code msg, _), st1) \<Rightarrow> (Refused code msg, g1, t1\<lparr>tl_redis := st1\<rparr>)
        | ((Next, ctx), st1) \<Rightarrow>
          (case requireMinScope svc ''read'' ctx of
             Abort code msg \<Rightarrow> (Refused code msg, g1, t1\<lparr>tl_redis := st1\<rparr>)
           | Next \<Rightarrow> (case proxyHandler R E r param basic (g1, st1) of (rep, g2, st2) \<Rightarrow>
               (rep, g2, t1\<lparr>tl_redis := st2\<rparr>)))))"

section \<open>Live configuration\<close>

record liveConfig =
  lc_RateLimitRequests :: int
  lc_RateLimitWindowSeconds :: int
  lc_CircuitBreakerThreshold :: int
  lc_CooldownTTLMinutes :: int
  lc_BlockedDomains :: "string list"
  lc_KYCRequired :: bool

definition ApplyConfig ::
    "'s rateLimiter \<Rightarrow> liveConfig \<Rightarrow> gateway \<times> 's \<Rightarrow> gateway \<times> 's" where
  "ApplyConfig L cfg = (\<lambda>(g, l).
     (g\<lparr>gw_circuitBreakerThreshold := lc_CircuitBreakerThreshold cfg,
        gw_mm := SetCooldownTTL (i64 (lc_CooldownTTLMinutes cfg * go_minute)) (gw_mm g),
        gw_compliance := NewComplianceService (lc_BlockedDomains cfg) (lc_KYCRequired cfg)\<rparr>,
      rl_SetWindow L (i64 (lc_RateLimitWindowSeconds cfg * go_second))
        (rl_SetLimit L (lc_RateLimitRequests cfg) l)))"

definition ReloadCompliance :: "string list \<Rightarrow> bool \<Rightarrow> gateway \<Rightarrow> gateway" where
  "ReloadCompliance blocked kyc g = g\<lparr>gw_compliance := NewComplianceService blocked kyc\<rparr>"

section \<open>Lemmas\<close>

text \<open>No node the handler forwards to has an address.\<close>

lemma GetNode_no_address: "GetNode R now nodeID st = (Inr n, st') \<Longrightarrow> nd_IP n = '''' \<and> nd_IPv6Subnet n = ''''"
  by (auto simp: GetNode_def zero_node_def split: prod.splits sum.splits if_splits)

lemma session_node_no_address: "session_node R E sid st = (Some n, st') \<Longrightarrow> nd_IP n = '''' \<and> nd_IPv6Subnet n = ''''"
  by (auto simp: session_node_def split: prod.splits sum.splits if_splits dest!: GetNode_no_address)

lemma choose_node_no_address:
  "choose_node R E g country city target sid st = (Inr n, st') \<Longrightarrow> nd_IP n = '''' \<and> nd_IPv6Subnet n = ''''"
proof -
  assume a: "choose_node R E g country city target sid st = (Inr n, st')"
  obtain s st1 where s: "session_node R E sid st = (s, st1)" by fastforce
  show ?thesis
  proof (cases s)
    case None
    then obtain st2 where "SelectNode R (ge_exp E) (ge_rnd E) (ge_now E) (ge_tick E) (gw_mm g) country city target st1 = (Inr n, st2)"
      using a s by (auto simp: choose_node_def split: prod.splits sum.splits)
    then show ?thesis by (rule SelectNode_path) blast
  next
    case (Some nd)
    then have "nd = n" using a s by (simp add: choose_node_def)
    with s Some show ?thesis using session_node_no_address [of R E sid st n st1] by simp
  qed
qed

lemma pool_Get_dial:
  "(\<And>t. d '''' t = d' '''' t) \<Longrightarrow> pool_Get d '''' p = pool_Get d' '''' p"
  by (simp add: pool_Get_def split: option.splits list.splits)

lemma forward_dial:
  assumes "\<And>t. ge_dial E '''' t = d' '''' t" and "nd_IP n = ''''"
  shows "forwardRequest R E r param n a s = forwardRequest R (E\<lparr>ge_dial := d'\<rparr>) r param n a s"
proof -
  have "pool_Get (ge_dial E) '''' p = pool_Get (ge_dial (E\<lparr>ge_dial := d'\<rparr>)) '''' p" for p
    using pool_Get_dial [of "ge_dial E" d'] assms(1) by simp
  moreover have "ge_write (E\<lparr>ge_dial := d'\<rparr>) = ge_write E" by simp
  ultimately show ?thesis unfolding forwardRequest_def forward_body_def assms(2) by (simp only:)
qed

text \<open>The handler's decision, step by step.\<close>

lemma proxyHandler_allowed:
  assumes "\<not> IsBlocked (gw_compliance g) (proxy_target r param)"
    and "choose_node R E (gw_count IncRequestsTotal g) (extractTarget param (rq_query r) ''country'')
      (extractTarget param (rq_query r) ''city'') (proxy_target r param) (proxy_session r (proxy_target r param)) st = (Inr n, st1)"
  shows "proxyHandler R E r param basic (g, st) = forwardRequest R E r param n (bindToIPv6Subnet E n)
    (gw_count (AddLatency (ge_elapsed E)) (gw_count IncNodesSelected (gw_count IncRequestsTotal g)), st1)"
  using assms by (simp add: proxyHandler_def gw_validateKYC_def Let_def) (simp add: gw_count_def)

lemma forward_target:
  assumes "forwardRequest R E r param n a s = (Connected i la t, s')" and "rq_query r ''url'' \<noteq> ''''"
  shows "t = (if extractHostFromTarget (rq_query r ''url'') = '''' then ''80.80.80.80:80''
    else extractHostFromTarget (rq_query r ''url''))"
  using assms by (auto simp: forwardRequest_def forward_body_def Let_def split: prod.splits option.splits sum.splits if_splits)

text \<open>Failures in a row.\<close>

lemma fails_replicate: "fails_since n (replicate j (Fail n)) k = k + j"
  by (induction j arbitrary: k) auto

lemma recordFailure_fields:
  "gw_nodeFailures (recordFailure n g) n = i64 (gw_nodeFailures g n + 1)"
  "gw_circuitBreakerThreshold (recordFailure n g) = gw_circuitBreakerThreshold g"
  "gw_mm (recordFailure n g) = (if gw_circuitBreakerThreshold g \<le> i64 (gw_nodeFailures g n + 1)
     then RecordFailure n (gw_mm g) else gw_mm g)"
  by (simp_all add: recordFailure_def gw_count_def Let_def)

lemma recordFailure_run:
  assumes "1 \<le> T" and "int k < 2 ^ 63" and "gw_circuitBreakerThreshold g = T" and "gw_nodeFailures g n = 0"
  shows "gw_nodeFailures ((recordFailure n ^^ k) g) n = int k \<and>
    gw_circuitBreakerThreshold ((recordFailure n ^^ k) g) = T \<and>
    gw_mm ((recordFailure n ^^ k) g) = fold cb_apply (replicate (nat (int k - T + 1)) (Fail n)) (gw_mm g)"
  using assms(2)
proof (induction k)
  case 0
  then show ?case using assms by simp
next
  case (Suc k)
  let ?g = "(recordFailure n ^^ k) g"
  have IH: "gw_nodeFailures ?g n = int k" "gw_circuitBreakerThreshold ?g = T"
      "gw_mm ?g = fold cb_apply (replicate (nat (int k - T + 1)) (Fail n)) (gw_mm g)"
    using Suc by simp_all
  have i: "i64 (int k + 1) = int k + 1" using Suc.prems by (intro i64_id_bounds) simp_all
  show ?case
  proof (cases "T \<le> int k + 1")
    case True
    then have "nat (int (Suc k) - T + 1) = Suc (nat (int k - T + 1))" by simp
    moreover have "fold cb_apply (replicate (Suc j) (Fail n)) m = RecordFailure n (fold cb_apply (replicate j (Fail n)) m)" for j m
      by (induction j arbitrary: m) simp_all
    ultimately show ?thesis using True IH i by (simp only: funpow.simps o_apply recordFailure_fields) simp
  next
    case False
    then have "nat (int (Suc k) - T + 1) = 0" "nat (int k - T + 1) = 0" by simp_all
    then show ?thesis using False IH i by (simp only: funpow.simps o_apply recordFailure_fields) simp
  qed
qed

lemma env_other:
  "ge_exp (E\<lparr>ge_dial := d\<rparr>) = ge_exp E" "ge_rnd (E\<lparr>ge_dial := d\<rparr>) = ge_rnd E" "ge_now (E\<lparr>ge_dial := d\<rparr>) = ge_now E"
  "ge_tick (E\<lparr>ge_dial := d\<rparr>) = ge_tick E" "ge_elapsed (E\<lparr>ge_dial := d\<rparr>) = ge_elapsed E"
  "ge_parseIP (E\<lparr>ge_dial := d\<rparr>) = ge_parseIP E" "ge_ipString (E\<lparr>ge_dial := d\<rparr>) = ge_ipString E"
  by simp_all

lemma env_dial_only:
  "choose_node R (E\<lparr>ge_dial := d\<rparr>) = choose_node R E"
  "bindToIPv6Subnet (E\<lparr>ge_dial := d\<rparr>) = bindToIPv6Subnet E"
  by (intro ext, simp only: choose_node_def session_node_def bindToIPv6Subnet_def env_other)+

text \<open>What a node's load counter becomes. \<open>ld s n\<close> is the value of the counter of node \<open>n\<close>; INCR and
  DECR change it by one inside 64 bits and no other command of a request touches it.\<close>

definition load_server :: "'r redis \<Rightarrow> ('r \<Rightarrow> string \<Rightarrow> int) \<Rightarrow> bool" where
  "load_server R ld \<longleftrightarrow>
     (\<forall>n s. ld s n + 1 < 2 ^ 63 \<longrightarrow> ld (snd (cIncr R (''node_load:'' @ n) s)) = (ld s)(n := ld s n + 1)) \<and>
     (\<forall>n s. - (2 ^ 63) \<le> ld s n - 1 \<longrightarrow> ld (snd (cDecr R (''node_load:'' @ n) s)) = (ld s)(n := ld s n - 1)) \<and>
     (\<forall>k s. ld (snd (cGet R k s)) = ld s) \<and> (\<forall>k s. ld (snd (cHGetAll R k s)) = ld s) \<and>
     (\<forall>k s. ld (snd (cKeys R k s)) = ld s) \<and> (\<forall>k v s. ld (snd (cZScore R k v s)) = ld s) \<and>
     (\<forall>k v s. ld (snd (cSIsMember R k v s)) = ld s) \<and> (\<forall>k a b s. ld (snd (cZRevRange R k a b s)) = ld s) \<and>
     (\<forall>k v d s. ld (snd (cSetEX R (''session:'' @ k) v d s)) = ld s)"

lemma load_serverD:
  assumes "load_server R ld"
  shows "ld s n + 1 < 2 ^ 63 \<Longrightarrow> cIncr R (''node_load:'' @ n) s = (xi, s1) \<Longrightarrow> ld s1 = (ld s)(n := ld s n + 1)"
    and "- (2 ^ 63) \<le> ld s n - 1 \<Longrightarrow> cDecr R (''node_load:'' @ n) s = (xi, s1) \<Longrightarrow> ld s1 = (ld s)(n := ld s n - 1)"
    and "cGet R k s = (xg, s1) \<Longrightarrow> ld s1 = ld s" and "cHGetAll R k s = (xh, s1) \<Longrightarrow> ld s1 = ld s"
    and "cKeys R k s = (xk, s1) \<Longrightarrow> ld s1 = ld s" and "cZScore R k v s = (xz, s1) \<Longrightarrow> ld s1 = ld s"
    and "cSIsMember R k v s = (xm, s1) \<Longrightarrow> ld s1 = ld s" and "cZRevRange R k a b s = (xr, s1) \<Longrightarrow> ld s1 = ld s"
    and "cSetEX R (''session:'' @ k) v d s = (xs, s1) \<Longrightarrow> ld s1 = ld s"
  using assms unfolding load_server_def by (metis snd_conv)+

lemma each_frame:
  assumes "\<And>k s x s'. f k s = (x, s') \<Longrightarrow> p s' = p s" and "each f ks st = (xs, st')"
  shows "p st' = p st"
  using assms(2)
proof (induction ks arbitrary: st xs)
  case (Cons k ks)
  then show ?case using assms(1) by (auto split: prod.splits)
qed simp

lemma each_kept: "(\<And>k s. p (snd (f k s)) = p s) \<Longrightarrow> p (snd (each f ks st)) = p st"
  using each_frame [of f p ks st "fst (each f ks st)" "snd (each f ks st)"] by (metis prod.collapse snd_conv)

lemma load_kept:
  assumes "load_server R ld"
  shows "ld (snd (cGet R k s)) = ld s" and "ld (snd (cHGetAll R k s)) = ld s" and "ld (snd (cKeys R k s)) = ld s"
    and "ld (snd (cZScore R k v s)) = ld s" and "ld (snd (cSIsMember R k v s)) = ld s"
    and "ld (snd (cZRevRange R k a b s)) = ld s" and "ld (snd (cSetEX R (''session:'' @ k) v d s)) = ld s"
  using assms unfolding load_server_def by blast+

lemma read_load:
  assumes "load_server R ld"
  shows "ld (snd (GetNode R now n s)) = ld s" and "ld (snd (GetNodeMeta R now n s)) = ld s"
    and "ld (snd (GetNodeLoad R n s)) = ld s" and "ld (snd (GetNodeReputation R n country s)) = ld s"
    and "ld (snd (GetTopNodes R country m s)) = ld s" and "ld (snd (GetNodesByCity R country city m s)) = ld s"
    and "ld (snd (mm_GetSessionNode R sid s)) = ld s" and "ld (snd (mm_SetSessionNode R sid n t s)) = ld s"
    and "ld (snd (IsInCooldown R tgt n s)) = ld s"
proof -
  note k = load_serverD(3-) [OF assms]
  have z: "ld (snd (each (\<lambda>k s. case cZScore R k n s of (_, s') \<Rightarrow> (None :: unit option, s')) ks s)) = ld s" for ks s
    by (rule each_kept) (auto split: prod.splits dest: k)
  show "ld (snd (GetNode R now n s)) = ld s"
    using z by (auto simp: GetNode_def split: prod.splits sum.splits dest!: k)
  show "ld (snd (GetNodeMeta R now n s)) = ld s"
    by (auto simp: GetNodeMeta_def split: prod.splits sum.splits dest!: k)
  show "ld (snd (GetNodeLoad R n s)) = ld s"
    by (auto simp: GetNodeLoad_def split: prod.splits dest!: k)
  show "ld (snd (GetNodeReputation R n country s)) = ld s"
    by (auto simp: GetNodeReputation_def split: prod.splits sum.splits redis_err.splits dest!: k)
  show "ld (snd (GetTopNodes R country m s)) = ld s"
    by (auto simp: GetTopNodes_def split: prod.splits sum.splits dest!: k)
  show "ld (snd (GetNodesByCity R country city m s)) = ld s"
    by (auto simp: GetNodesByCity_def split: prod.splits sum.splits redis_err.splits dest!: k)
  show "ld (snd (mm_GetSessionNode R sid s)) = ld s"
    by (auto simp: mm_GetSessionNode_def GetSessionNode_def split: prod.splits sum.splits redis_err.splits dest!: k)
  show "ld (snd (mm_SetSessionNode R sid n t s)) = ld s"
    by (auto simp: mm_SetSessionNode_def SetSessionNode_def Let_def split: prod.splits dest: k(7) [simplified])
  show "ld (snd (IsInCooldown R tgt n s)) = ld s" using load_kept(5) [OF assms] by (simp add: IsInCooldown_def)
qed

lemma sndD: "p (snd x) = v \<Longrightarrow> x = (a, b) \<Longrightarrow> p b = v"
  by simp

lemma session_node_load:
  assumes "load_server R ld"
  shows "ld (snd (session_node R E sid s)) = ld s"
proof -
  note k = read_load [OF assms, THEN sndD [where p = ld]]
  show ?thesis by (auto simp: session_node_def split: prod.splits sum.splits dest!: k(7) k(1))
qed

lemma select_load:
  assumes "load_server R ld"
  shows "ld (snd (filterEligibleNodes R m tgt ns s)) = ld s"
    and "ld (snd (selectByLoad R mexp rnd now tick m ns s)) = ld s"
proof -
  note k = read_load [OF assms, THEN sndD [where p = ld]]
  show "ld (snd (filterEligibleNodes R m tgt ns s)) = ld s"
    unfolding filterEligibleNodes_def by (rule each_kept) (auto split: prod.splits sum.splits dest!: k(9))
  have "ld (snd (node_weight R mexp now tick m i s)) = ld s" for i s
    by (auto simp: node_weight_def Let_def split: prod.splits dest!: k(1) k(3) k(4))
  then have "ld (snd (node_weights R mexp now tick m ns s)) = ld s"
    unfolding node_weights_def by (intro each_kept) (auto split: prod.splits dest!: sndD [where p = ld])
  then show "ld (snd (selectByLoad R mexp rnd now tick m ns s)) = ld s"
    by (auto simp: selectByLoad_def Let_def split: prod.splits)
qed

text \<open>The node that a selection counts, before it reads the node's record.\<close>

definition counted :: "'r redis \<Rightarrow> genv \<Rightarrow> matchmaker \<Rightarrow> string \<Rightarrow> string \<Rightarrow> string \<Rightarrow> 'r \<Rightarrow> string option" where
  "counted R E m country city target st =
     (case (if city \<noteq> '''' then GetNodesByCity R country city 50 st else (Inr [], st)) of
        (Inl e, st1) \<Rightarrow> None
      | (Inr cityNodes, st1) \<Rightarrow>
      (case (if cityNodes = [] then GetTopNodes R country 50 st1 else (Inr cityNodes, st1)) of
        (Inl e, st2) \<Rightarrow> None
      | (Inr candidates, st2) \<Rightarrow>
          (case filterEligibleNodes R m target candidates st2 of (eligible, st3) \<Rightarrow>
             if candidates = [] \<or> eligible = [] then None
             else (case selectByLoad R (ge_exp E) (ge_rnd E) (ge_now E) (ge_tick E) m eligible st3 of
                (Inl e, st4) \<Rightarrow> None | (Inr i, st4) \<Rightarrow> Some i))))"

lemma SelectNode_load:
  assumes "load_server R ld" and "\<And>i. ld st i + 1 < 2 ^ 63"
    and "SelectNode R (ge_exp E) (ge_rnd E) (ge_now E) (ge_tick E) m country city tgt st = (res, st')"
  shows "(case counted R E m country city tgt st of None \<Rightarrow> ld st' = ld st \<and> (\<exists>e. res = Inl e)
    | Some i \<Rightarrow> ld st' = (ld st)(i := ld st i + 1) \<and> (\<forall>n. res = Inr n \<longrightarrow> nd_ID n = i))"
proof -
  note k = read_load [OF assms(1), THEN sndD [where p = ld]] select_load [OF assms(1), THEN sndD [where p = ld]]
  have i: "ld s' = (ld st)(j := ld st j + 1)" if "IncrementNodeLoad R j s = (x, s')" and e: "ld s = ld st" for j s x s'
  proof -
    have "s' = snd (cIncr R (''node_load:'' @ j) s)"
      using that(1) by (auto simp: IncrementNodeLoad_def split: prod.splits)
    then show ?thesis using load_serverD(1) [OF assms(1)] assms(2) [of j] e by (metis prod.collapse)
  qed
  obtain xc s1 where c: "(if city \<noteq> '''' then GetNodesByCity R country city 50 st else (Inr [], st)) = (xc, s1)" by fastforce
  have l1: "ld s1 = ld st" using c by (auto split: if_splits dest: k(6))
  show ?thesis
  proof (cases xc)
    case (Inl e)
    then show ?thesis using assms(3) c l1 by (auto simp: SelectNode_def counted_def)
  next
    case cn: (Inr cn)
    obtain xt s2 where t: "(if cn = [] then GetTopNodes R country 50 s1 else (Inr cn, s1)) = (xt, s2)" by fastforce
    have l2: "ld s2 = ld st" using t l1 by (auto split: if_splits dest: k(5))
    show ?thesis
    proof (cases xt)
      case (Inl e)
      then show ?thesis using assms(3) c cn t l2 by (auto simp: SelectNode_def counted_def)
    next
      case ns: (Inr ns)
      obtain el s3 where f: "filterEligibleNodes R m tgt ns s2 = (el, s3)" by fastforce
      have l3: "ld s3 = ld st" using k(10) [OF f] l2 by simp
      obtain xs s4 where sel: "selectByLoad R (ge_exp E) (ge_rnd E) (ge_now E) (ge_tick E) m el s3 = (xs, s4)" by fastforce
      have l4: "ld s4 = ld st" using k(11) [OF sel] l3 by simp
      note path = c cn t ns f sel
      show ?thesis
      proof (cases "ns = [] \<or> el = [] \<or> (\<exists>e. xs = Inl e)")
        case True
        then show ?thesis using assms(3) path l2 l3 l4 by (auto simp: SelectNode_def counted_def split: if_splits)
      next
        case False
        then obtain sid where sid: "xs = Inr sid" by (cases xs) auto
        obtain x s5 where inc: "IncrementNodeLoad R sid s4 = (x, s5)" by fastforce
        obtain mt s6 where mt: "GetNodeMeta R (ge_tick E sid) sid s5 = (mt, s6)" by fastforce
        have "counted R E m country city tgt st = Some sid" using path sid False by (simp add: counted_def)
        moreover have "st' = s6" and "\<forall>n. res = Inr n \<longrightarrow> nd_ID n = sid"
          using assms(3) path sid inc mt False by (auto simp: SelectNode_def split: sum.splits)
        ultimately show ?thesis using i [OF inc l4] k(2) [OF mt] by simp
      qed
    qed
  qed
qed

lemma forward_load:
  assumes "load_server R ld" and "- (2 ^ 63) \<le> ld s (nd_ID n) - 1"
    and "forwardRequest R E r param n a (g, s) = (rep, g', s')"
  shows "ld s' = (ld s)(nd_ID n := ld s (nd_ID n) - 1)"
proof -
  have "s' = snd (cDecr R (''node_load:'' @ nd_ID n) s)"
    using assms(3) by (auto simp: forwardRequest_def DecrementNodeLoad_def split: prod.splits)
  then show ?thesis using load_serverD(2) [OF assms(1,2)] by (metis prod.collapse)
qed

lemma forward_node: "forwardRequest R E r param n a s = (Connected i b t, s') \<Longrightarrow> i = nd_ID n"
  by (auto simp: forwardRequest_def forward_body_def Let_def split: prod.splits option.splits sum.splits if_splits)

lemma choose_node_load:
  assumes "load_server R ld" and "\<And>i. ld st i + 1 < 2 ^ 63"
    and "session_node R E sid st = (pinned, s1)" and "choose_node R E g country city tgt sid st = (res, st')"
  shows "(case pinned of Some n \<Rightarrow> res = Inr n \<and> ld st' = ld st
    | None \<Rightarrow> (case counted R E (gw_mm g) country city tgt s1 of None \<Rightarrow> ld st' = ld st \<and> (\<exists>e. res = Inl e)
      | Some i \<Rightarrow> ld st' = (ld st)(i := ld st i + 1) \<and> (\<forall>n. res = Inr n \<longrightarrow> nd_ID n = i)))"
proof -
  have l: "ld s1 = ld st" using session_node_load [OF assms(1), of E sid st] assms(3) by simp
  show ?thesis
  proof (cases pinned)
    case None
    obtain x s2 where s: "SelectNode R (ge_exp E) (ge_rnd E) (ge_now E) (ge_tick E) (gw_mm g) country city tgt s1 = (x, s2)" by fastforce
    have "res = x" and "ld st' = ld s2"
      using assms(3,4) None s read_load(8) [OF assms(1)] by (auto simp: choose_node_def split: sum.splits if_splits)
    then show ?thesis using SelectNode_load [OF assms(1) _ s] assms(2) l None by (simp split: option.splits)
  qed (use assms(3,4) l in \<open>simp add: choose_node_def\<close>)
qed

lemma proxyHandler_connected:
  assumes "proxyHandler R E r param basic (g, st) = (Connected i a t, g', st')"
  obtains n st1 where "\<not> IsBlocked (gw_compliance g) (proxy_target r param)"
    and "choose_node R E (gw_count IncRequestsTotal g) (extractTarget param (rq_query r) ''country'')
      (extractTarget param (rq_query r) ''city'') (proxy_target r param) (proxy_session r (proxy_target r param)) st = (Inr n, st1)"
    and "forwardRequest R E r param n (bindToIPv6Subnet E n)
      (gw_count (AddLatency (ge_elapsed E)) (gw_count IncNodesSelected (gw_count IncRequestsTotal g)), st1) = (Connected i a t, g', st')"
proof -
  let ?c = "choose_node R E (gw_count IncRequestsTotal g) (extractTarget param (rq_query r) ''country'')
      (extractTarget param (rq_query r) ''city'') (proxy_target r param) (proxy_session r (proxy_target r param)) st"
  have b: "\<not> IsBlocked (gw_compliance g) (proxy_target r param)"
    using assms by (auto simp: proxyHandler_def Let_def gw_count_def split: if_splits)
  obtain x st1 where c: "?c = (x, st1)" by fastforce
  have "\<exists>n. x = Inr n"
    using assms b c by (cases x) (auto simp: proxyHandler_def Let_def gw_count_def gw_validateKYC_def split: if_splits)
  then obtain n where "x = Inr n" by blast
  with c have c': "?c = (Inr n, st1)" by simp
  show ?thesis using that [OF b c'] assms proxyHandler_allowed [OF b c', of basic] by simp
qed

section \<open>Properties\<close>

text \<open>C13: No node's address is ever dialled. Whatever the server stores and whatever node is chosen,
  the handler's reply and next states depend on the dial function only at the empty address: \<open>nd_IP\<close>
  is empty on every path, so two dialling environments that agree there are indistinguishable.\<close>

theorem gateway_dials_nothing:
  assumes "\<And>t. ge_dial E '''' t = d' '''' t"
  shows "proxyHandler R E r param basic (g, st) = proxyHandler R (E\<lparr>ge_dial := d'\<rparr>) r param basic (g, st)"
proof -
  have f: "forwardRequest R E r param n a s = forwardRequest R (E\<lparr>ge_dial := d'\<rparr>) r param n a s"
    if "choose_node R E g' cn ci t sid st' = (Inr n, st1)" for n a s g' cn ci t sid st' st1
    by (rule forward_dial, rule assms) (use choose_node_no_address [OF that] in simp)
  show ?thesis
    by (auto simp: proxyHandler_def Let_def env_dial_only split: prod.splits sum.splits dest: f)
qed


text \<open>C18: The block list is applied to the path and the connection is made to the query. When the
  path and the query both name a target, the reply is the same for every block list that treats the
  path alike, whatever it says of the query's \<open>url\<close>, and a connection goes to the host of \<open>url\<close>.\<close>

theorem url_parameter_unchecked:
  assumes "param \<noteq> ''''" and "rq_query r ''url'' \<noteq> ''''"
    and "IsBlocked cs param = IsBlocked (gw_compliance g) param"
  shows "fst (proxyHandler R E r param basic (g\<lparr>gw_compliance := cs\<rparr>, st)) = fst (proxyHandler R E r param basic (g, st))
    \<and> (\<forall>i a t. fst (proxyHandler R E r param basic (g, st)) = Connected i a t \<longrightarrow>
      extractHostFromTarget (rq_query r ''url'') \<noteq> '''' \<longrightarrow> t = extractHostFromTarget (rq_query r ''url''))"
proof
  have p: "proxy_target r param = param" using assms(1) by (simp add: proxy_target_def)
  have f: "fst (forwardRequest R E r param n a (g\<lparr>gw_compliance := cs, gw_metrics := m\<rparr>, s))
      = fst (forwardRequest R E r param n a (g\<lparr>gw_metrics := m\<rparr>, s))" for n a g s m
    by (simp add: forwardRequest_def forward_body_def recordFailure_def recordSuccess_def gw_count_def Let_def
        split: prod.splits option.splits sum.splits)
  show "fst (proxyHandler R E r param basic (g\<lparr>gw_compliance := cs\<rparr>, st)) = fst (proxyHandler R E r param basic (g, st))"
    using assms(3) f
    by (auto simp: proxyHandler_def p gw_validateKYC_def choose_node_def gw_count_def Let_def split: prod.splits sum.splits option.splits)
  show "\<forall>i a t. fst (proxyHandler R E r param basic (g, st)) = Connected i a t \<longrightarrow>
      extractHostFromTarget (rq_query r ''url'') \<noteq> '''' \<longrightarrow> t = extractHostFromTarget (rq_query r ''url'')"
    by (metis prod.collapse proxyHandler_connected forward_target [OF _ assms(2)])
qed

text \<open>The two breakers are in series: the gateway counts failures itself and tells the matchmaker
  only from its own threshold on, so a node is taken out of the selection after the sum of the two
  thresholds less one failures in a row, not after either of them.\<close>

theorem breaker_needs_both:
  assumes "1 \<le> gT" and "1 \<le> mT" and "int k < 2 ^ 62"
  shows "isNodeHealthy (gw_mm ((recordFailure n ^^ k) (NewGateway gT (NewMatchmaker mT ttl) cs))) n
    \<longleftrightarrow> int k < gT + mT - 1"
proof -
  let ?j = "nat (int k - gT + 1)"
  have "gw_mm ((recordFailure n ^^ k) (NewGateway gT (NewMatchmaker mT ttl) cs))
      = fold cb_apply (replicate ?j (Fail n)) (NewMatchmaker mT ttl)"
    using recordFailure_run [of gT k "NewGateway gT (NewMatchmaker mT ttl) cs" n] assms by (simp add: NewGateway_def)
  moreover have "cb_is (fold cb_apply (replicate ?j (Fail n)) (NewMatchmaker mT ttl)) n (fails_since n (replicate ?j (Fail n)) 0)"
    by (rule cb_is_fold) (use assms in \<open>simp_all add: cb_is_def NewMatchmaker_def\<close>)
  then have "isNodeHealthy (fold cb_apply (replicate ?j (Fail n)) (NewMatchmaker mT ttl)) n \<longleftrightarrow> \<not> (1 \<le> ?j \<and> mT \<le> int ?j)"
    unfolding fails_replicate add_0_left by (simp only: cb_is_healthy fold_threshold) (simp add: NewMatchmaker_def)
  ultimately show ?thesis using assms by auto
qed

theorem breaker_needs_both_witness:
  "isNodeHealthy (gw_mm ((recordFailure ''a'' ^^ 8) (NewGateway 5 (NewMatchmaker 5 15) (NewComplianceService [] False)))) ''a'' \<and>
   \<not> isNodeHealthy (gw_mm ((recordFailure ''a'' ^^ 9) (NewGateway 5 (NewMatchmaker 5 15) (NewComplianceService [] False)))) ''a''"
  using breaker_needs_both [of 5 5 8 "''a''" 15 "NewComplianceService [] False"]
    breaker_needs_both [of 5 5 9 "''a''" 15 "NewComplianceService [] False"] by simp

text \<open>C7: No connection without a key: when the gateway has a key service, a request that is connected
  presented a key that the service validated and whose scope is at least reading. Paths that the
  authentication exempts are no way around it.\<close>

theorem proxy_requires_key:
  assumes "fst (proxy_chain L rh (Some h) sha R E r param basic s) = Connected i a t"
  shows "\<exists>st scope. fst (ValidateKey h sha (ge_now E) (presented_key (auth_header r)) st) = (scope, None)
    \<and> scope \<noteq> '''' \<and> scopeLevel ''read'' \<le> scopeLevel scope"
proof -
  obtain g tl where s: "s = (g, tl)" by fastforce
  obtain ou t1 m1 where m: "tiered_Middleware L rh (ge_now E) r (tl, gw_metrics g) = (ou, (t1, m1))" by (metis prod.collapse)
  obtain ou2 ctx st1 where au: "authMiddleware (Some h) sha (ge_now E) r (tl_redis t1) = ((ou2, ctx), st1)" by (metis prod.collapse)
  have n: "ou = Next" "ou2 = Next" and q: "requireMinScope (Some h) ''read'' ctx = Next"
    using assms by (auto simp: s proxy_chain_def m au Let_def split: outcome.splits prod.splits)
  obtain scope where c: "ax_scope ctx = Some scope" and l: "scope \<noteq> ''''" "scopeLevel ''read'' \<le> scopeLevel scope"
    using q by (auto simp: requireMinScope_def split: option.splits if_splits)
  then have "fst (ValidateKey h sha (ge_now E) (presented_key (auth_header r)) (tl_redis t1)) = (scope, None)"
    using au n by (auto simp: authMiddleware_def no_context_def Let_def split: if_splits prod.splits)
  with l show ?thesis by blast
qed

lemma forward_codes:
  "forwardRequest R E r param n a s = (Refused code msg, s') \<Longrightarrow> code = 500 \<or> code = 502"
  by (auto simp: forwardRequest_def forward_body_def Let_def split: prod.splits option.splits sum.splits if_splits)

text \<open>C11: What a request leaves on the nodes' load counters, whatever its outcome, on a server that carries out the
  counter commands within 64 bits. Refused by the block list (403), nothing. Refused because no node was selected
  (503), nothing, unless the selection had counted its node and then failed to read the node's record: that
  node keeps one too many for ever. Otherwise a node was chosen, and whether the request was connected, the node could not be
  reached or written to (502), or the pool panicked (500): a selected node gets back exactly the load it took, and one
  that a session pinned loses one that it never took.\<close>

theorem load_accounting:
  assumes "load_server R ld" and "\<And>i. ld st i + 1 < 2 ^ 63" and "\<And>i. - (2 ^ 63) < ld st i"
    and "proxyHandler R E r param basic (g, st) = (rep, g', st')"
    and "session_node R E (proxy_session r (proxy_target r param)) st = (pinned, st1)"
  shows "ld st' =
    (if \<exists>msg. rep = Refused 403 msg then ld st
     else if \<exists>msg. rep = Refused 503 msg then
       (case counted R E (gw_mm g) (extractTarget param (rq_query r) ''country'') (extractTarget param (rq_query r) ''city'')
               (proxy_target r param) st1 of
          None \<Rightarrow> ld st | Some i \<Rightarrow> (ld st)(i := ld st i + 1))
     else (case pinned of None \<Rightarrow> ld st | Some n \<Rightarrow> (ld st)(nd_ID n := ld st (nd_ID n) - 1)))"
proof (cases "IsBlocked (gw_compliance g) (proxy_target r param)")
  case True
  then have "rep = Refused 403 ''Target domain is blocked'' \<and> st' = st"
    using assms(4) by (simp add: proxyHandler_def gw_count_def Let_def)
  then show ?thesis by simp
next
  case False
  obtain x s2 where c: "choose_node R E (gw_count IncRequestsTotal g) (extractTarget param (rq_query r) ''country'')
      (extractTarget param (rq_query r) ''city'') (proxy_target r param) (proxy_session r (proxy_target r param)) st = (x, s2)" by fastforce
  have m: "gw_mm (gw_count IncRequestsTotal g) = gw_mm g" by (simp add: gw_count_def)
  note l = choose_node_load [OF assms(1,2,5) c, unfolded m]
  show ?thesis
  proof (cases x)
    case (Inl e)
    then have "rep = Refused 503 (err_text e) \<and> st' = s2"
      using assms(4) False c by (simp add: proxyHandler_def gw_count_def gw_validateKYC_def Let_def)
    then show ?thesis using l Inl by (auto split: option.splits)
  next
    case (Inr n)
    note f = proxyHandler_allowed [OF False c [unfolded Inr], of basic, unfolded assms(4), symmetric]
    have "- (2 ^ 63) \<le> ld s2 (nd_ID n) - 1"
      using l Inr assms(3) [of "nd_ID n"] by (auto split: option.splits)
    from forward_load [OF assms(1) this f] l Inr have "ld st' = (case pinned of None \<Rightarrow> ld st | Some n \<Rightarrow> (ld st)(nd_ID n := ld st (nd_ID n) - 1))"
      by (auto split: option.splits)
    moreover have "rep \<noteq> Refused 403 msg" "rep \<noteq> Refused 503 msg" for msg using forward_codes f by fastforce+
    ultimately show ?thesis by simp
  qed
qed

section \<open>Witnesses\<close>

definition demo_env :: genv where
  "demo_env = \<lparr>ge_exp = (\<lambda>x. Fin 1), ge_rnd = (\<lambda>n. Inr 0), ge_now = 0, ge_tick = (\<lambda>_. 0), ge_elapsed = 0,
     ge_dial = (\<lambda>a t. if a = '''' then Inr 1 else Inl (Err ''refused'')), ge_write = (\<lambda>c s. True),
     ge_parseIP = (\<lambda>_. None), ge_ipString = (\<lambda>_. '''')\<rparr>"

definition demo_request :: "string \<Rightarrow> http_req" where
  "demo_request sess = \<lparr>rq_method = ''GET'', rq_path = ''/t'', rq_clientIP = ''1.2.3.4'', rq_header = (\<lambda>_. ''k''),
     rq_query = (\<lambda>_. '''')(''url'' := ''http://evil.com/x'', ''country'' := ''US'', ''session'' := sess), rq_contentLength = 0\<rparr>"

definition demo_gateway :: gateway where
  "demo_gateway = NewGateway 5 (NewMatchmaker 3 15) (NewComplianceService [''evil.com''] False)"

lemma demo_target:
  "proxy_target (demo_request sess) ''t'' = ''t''" "proxy_session (demo_request sess) ''t'' = sess"
  "extractTarget ''t'' (rq_query (demo_request sess)) ''country'' = ''US''"
  "extractTarget ''t'' (rq_query (demo_request sess)) ''city'' = ''''"
  "rq_query (demo_request sess) ''url'' = ''http://evil.com/x''"
  "extractHostFromTarget ''http://evil.com/x'' = ''evil.com''" "\<not> IsBlocked (gw_compliance demo_gateway) ''t''"
  "IsBlocked (gw_compliance demo_gateway) ''http://evil.com/x''"
proof -
  show "\<not> IsBlocked (gw_compliance demo_gateway) ''t''" "IsBlocked (gw_compliance demo_gateway) ''http://evil.com/x''"
    "extractHostFromTarget ''http://evil.com/x'' = ''evil.com''" by code_simp+
  have "extractSessionFromPath ''t'' = ''''" by code_simp
  then show "proxy_session (demo_request sess) ''t'' = sess"
    by (cases "sess = ''''") (simp_all add: proxy_session_def demo_request_def)
qed (simp_all add: proxy_target_def demo_request_def extractTarget_def has_prefix_def)

lemma demo_connect:
  assumes "choose_node mem_redis demo_env (gw_count IncRequestsTotal demo_gateway) ''US'' '''' ''t'' sess st = (Inr n, st1)"
    and "nd_IP n = ''''"
  shows "\<exists>g' st'. proxyHandler mem_redis demo_env (demo_request sess) ''t'' None (demo_gateway, st) = (Connected (nd_ID n) '''' ''evil.com'', g', st')"
proof -
  have p: "proxyHandler mem_redis demo_env (demo_request sess) ''t'' None (demo_gateway, st) =
      forwardRequest mem_redis demo_env (demo_request sess) ''t'' n (bindToIPv6Subnet demo_env n)
        (gw_count (AddLatency (ge_elapsed demo_env)) (gw_count IncNodesSelected (gw_count IncRequestsTotal demo_gateway)), st1)"
    by (rule proxyHandler_allowed) (use assms(1) in \<open>simp_all only: demo_target not_False_eq_True\<close>)
  have b: "bindToIPv6Subnet demo_env n = ''''" using assms(2) by (simp add: bindToIPv6Subnet_def demo_env_def)
  let ?g = "gw_count (AddLatency (ge_elapsed demo_env)) (gw_count IncNodesSelected (gw_count IncRequestsTotal demo_gateway))"
  have "gw_connPool ?g = NewConnPool 10 (5 * go_second)" by (simp add: demo_gateway_def NewGateway_def gw_count_def)
  then obtain q where q: "pool_Get (ge_dial demo_env) '''' (gw_connPool ?g) = Some (Inr 1, q)"
    by (simp add: NewConnPool_def pool_Get_def getPool_def new_pool_def demo_env_def)
  have w: "ge_write demo_env c x" for c x by (simp add: demo_env_def)
  have "forward_body demo_env (demo_request sess) ''t'' n '''' ?g =
      (Connected (nd_ID n) '''' ''evil.com'', recordSuccess (nd_ID n) (?g\<lparr>gw_connPool := q\<rparr>))"
    unfolding forward_body_def Let_def assms(2) q by (simp add: w demo_target)
  then show ?thesis unfolding p b forwardRequest_def by simp
qed

lemma demo_fresh:
  "\<exists>g' st'. proxyHandler mem_redis demo_env (demo_request '''') ''t'' None (demo_gateway, demo_server) = (Connected ''n2'' '''' ''evil.com'', g', st')"
proof -
  obtain n st' where s: "SelectNode mem_redis (\<lambda>x. Fin 1) (\<lambda>n. Inr 0) 0 (\<lambda>_. 0) (NewMatchmaker 3 15) ''US'' '''' ''t'' demo_server = (Inr n, st')"
    "nd_ID n = ''n2''" using demo_select by blast
  have "choose_node mem_redis demo_env (gw_count IncRequestsTotal demo_gateway) ''US'' '''' ''t'' '''' demo_server = (Inr n, st')"
    using s(1) by (simp add: choose_node_def session_node_def demo_env_def demo_gateway_def gw_count_def NewGateway_def)
  then show ?thesis using demo_connect choose_node_no_address s(2) by metis
qed

theorem gateway_dials_nothing_witness:
  "\<exists>g' st'. proxyHandler mem_redis (demo_env\<lparr>ge_dial := (\<lambda>a t. Inr 1)\<rparr>) (demo_request '''') ''t'' None (demo_gateway, demo_server)
    = (Connected ''n2'' '''' ''evil.com'', g', st')"
  using demo_fresh gateway_dials_nothing [of demo_env "\<lambda>a t. Inr 1" mem_redis "demo_request ''''" "''t''" None demo_gateway demo_server]
  by (simp add: demo_env_def)

theorem url_parameter_unchecked_witness:
  "IsBlocked (gw_compliance demo_gateway) ''http://evil.com/x'' \<and>
    fst (proxyHandler mem_redis demo_env (demo_request '''') ''t'' None (demo_gateway\<lparr>gw_compliance := NewComplianceService [] False\<rparr>, demo_server))
      = Connected ''n2'' '''' ''evil.com''"
proof -
  have "IsBlocked (NewComplianceService [] False) ''t'' = IsBlocked (gw_compliance demo_gateway) ''t''" by code_simp
  moreover have "rq_query (demo_request '''') ''url'' \<noteq> ''''" unfolding demo_target by simp
  ultimately have "fst (proxyHandler mem_redis demo_env (demo_request '''') ''t'' None (demo_gateway\<lparr>gw_compliance := NewComplianceService [] False\<rparr>, demo_server))
      = fst (proxyHandler mem_redis demo_env (demo_request '''') ''t'' None (demo_gateway, demo_server))"
    using url_parameter_unchecked [of "''t''" "demo_request ''''" "NewComplianceService [] False" demo_gateway mem_redis demo_env None demo_server]
    by blast
  then show ?thesis using demo_fresh demo_target(8) by (metis fst_conv)
qed

lemma mem_counter_i64: "in_i64 (mem_counter k s)"
  by (auto simp: mem_counter_def parse_int_def Let_def in_i64_def split: option.splits prod.splits)

lemma mem_load_server: "load_server mem_redis (\<lambda>s n. mem_counter (''node_load:'' @ n) s)"
proof -
  have k: "mem_counter k (snd (mem_add d j s)) = (if k = j then mem_counter j s + d else mem_counter k s)"
    if "in_i64 (mem_counter j s + d)" for k j d s
    using parse_show_int [OF that] by (simp add: mem_add_def mem_counter_def Let_def)
  show ?thesis unfolding load_server_def
  proof (intro conjI allI impI)
    fix n s assume "mem_counter (''node_load:'' @ n) s + 1 < 2 ^ 63"
    then have "in_i64 (mem_counter (''node_load:'' @ n) s + 1)"
      using mem_counter_i64 [of "''node_load:'' @ n" s] by (simp add: in_i64_def)
    then show "(\<lambda>m. mem_counter (''node_load:'' @ m) (snd (cIncr mem_redis (''node_load:'' @ n) s)))
        = (\<lambda>n. mem_counter (''node_load:'' @ n) s)(n := mem_counter (''node_load:'' @ n) s + 1)"
      by (intro ext) (simp only: mem_sel k append_eq_append_conv fun_upd_apply same_append_eq)
  next
    fix n s assume "- (2 ^ 63) \<le> mem_counter (''node_load:'' @ n) s - 1"
    then have "in_i64 (mem_counter (''node_load:'' @ n) s + - 1)"
      using mem_counter_i64 [of "''node_load:'' @ n" s] by (simp add: in_i64_def)
    then show "(\<lambda>m. mem_counter (''node_load:'' @ m) (snd (cDecr mem_redis (''node_load:'' @ n) s)))
        = (\<lambda>n. mem_counter (''node_load:'' @ n) s)(n := mem_counter (''node_load:'' @ n) s - 1)"
      by (intro ext) (simp only: mem_sel k append_eq_append_conv fun_upd_apply same_append_eq, simp)
  qed (simp_all add: mem_get_def mem_zrevrange_def mem_put_def mem_counter_def)
qed

definition pinned_server :: mem where
  "pinned_server = demo_server\<lparr>m_str := [''session:s1'' \<mapsto> ''n2'', ''node_load:n2'' \<mapsto> ''0'']\<rparr>"

lemma demo_pinned:
  "\<exists>n. session_node mem_redis demo_env ''s1'' pinned_server = (Some n, pinned_server) \<and> nd_ID n = ''n2''"
  by (simp add: session_node_def mm_GetSessionNode_def GetSessionNode_def GetNode_def gw_isNodeHealthy_def
      pinned_server_def mem_get_def) (simp add: demo_server_def)

theorem load_accounting_witness:
  "\<exists>g' st'. proxyHandler mem_redis demo_env (demo_request ''s1'') ''t'' None (demo_gateway, pinned_server)
      = (Connected ''n2'' '''' ''evil.com'', g', st') \<and> mem_counter ''node_load:n2'' st' = - 1"
proof -
  let ?ld = "\<lambda>s n. mem_counter (''node_load:'' @ n) s"
  obtain n where n: "session_node mem_redis demo_env ''s1'' pinned_server = (Some n, pinned_server)" "nd_ID n = ''n2''"
    using demo_pinned by blast
  then have "choose_node mem_redis demo_env (gw_count IncRequestsTotal demo_gateway) ''US'' '''' ''t'' ''s1'' pinned_server = (Inr n, pinned_server)"
    by (simp add: choose_node_def)
  from demo_connect [OF this] choose_node_no_address [OF this] n(2) obtain g' st' where
    p: "proxyHandler mem_redis demo_env (demo_request ''s1'') ''t'' None (demo_gateway, pinned_server)
      = (Connected ''n2'' '''' ''evil.com'', g', st')" by auto
  have z: "?ld pinned_server i = 0" for i
    by (simp add: mem_counter_def pinned_server_def demo_server_def mem_empty_def) (code_simp)
  have "session_node mem_redis demo_env (proxy_session (demo_request ''s1'') (proxy_target (demo_request ''s1'') ''t'')) pinned_server = (Some n, pinned_server)"
    unfolding demo_target by (rule n(1))
  from load_accounting [OF mem_load_server _ _ p this]
  have "?ld st' = (?ld pinned_server)(''n2'' := ?ld pinned_server ''n2'' - 1)" using z n(2) by simp
  then have "?ld st' ''n2'' = - 1" unfolding z by (drule_tac x = "''n2''" in fun_cong) simp
  with p show ?thesis by auto
qed

definition key_server :: mem where
  "key_server = pinned_server\<lparr>m_hash := (m_hash demo_server)(apikey_key id ''k'' := [(''scope'', ''write'')])\<rparr>"

definition demo_limiter :: "(mem, localLimiter) tieredLimiter" where
  "demo_limiter = \<lparr>tl_limiter = \<lparr>ll_requests = Map.empty, ll_limit = 500, ll_window = 60\<rparr>,
     tl_tiers = NewRateLimitTiers, tl_redis = key_server\<rparr>"

lemma demo_chain:
  "\<exists>g' t'. proxy_chain local_limiter (None :: mem redis option) (Some (Some mem_redis)) id mem_redis demo_env (demo_request ''s1'') ''t'' None
    (demo_gateway, demo_limiter) = (Connected ''n2'' '''' ''evil.com'', g', t')"
proof -
  obtain l' where m: "tiered_Middleware local_limiter (None :: mem redis option) (ge_now demo_env) (demo_request ''s1'') (demo_limiter, gw_metrics demo_gateway)
      = (Next, (demo_limiter\<lparr>tl_limiter := l'\<rparr>, gw_metrics demo_gateway))"
    by (simp add: tiered_Middleware_def tiered_Allow_def local_limiter_def local_Allow_def local_SetLimit_def demo_limiter_def
        rate_client_id_def auth_header_def GetTierForKey_def GetTier_def NewRateLimitTiers_def mk_tier_def demo_request_def)
  let ?t = "demo_limiter\<lparr>tl_limiter := l'\<rparr>"
  define s1 where "s1 = snd (cHSet mem_redis (apikey_key id ''k'' @ '':meta'') [(''last_used'', show_int (unix_now (ge_now demo_env)))] key_server)"
  have au: "authMiddleware (Some (Some mem_redis)) id (ge_now demo_env) (demo_request ''s1'') (tl_redis ?t) =
      ((Next, \<lparr>ax_key = Some ''k'', ax_scope = Some ''write''\<rparr>), s1)"
    by (simp add: authMiddleware_def auth_exempt_def auth_header_def presented_key_def extractBearerToken_def has_prefix_def
        demo_request_def demo_limiter_def ValidateKey_def key_server_def s1_def Let_def)
  have "\<exists>n. session_node mem_redis demo_env ''s1'' s1 = (Some n, s1) \<and> nd_ID n = ''n2''"
    by (simp add: session_node_def mm_GetSessionNode_def GetSessionNode_def GetNode_def gw_isNodeHealthy_def
        s1_def mem_hset_def key_server_def pinned_server_def mem_get_def apikey_key_def) (simp add: demo_server_def)
  then obtain n where n: "session_node mem_redis demo_env ''s1'' s1 = (Some n, s1)" "nd_ID n = ''n2''" by blast
  then have c: "choose_node mem_redis demo_env (gw_count IncRequestsTotal demo_gateway) ''US'' '''' ''t'' ''s1'' s1 = (Inr n, s1)"
    by (simp add: choose_node_def)
  obtain g' s2 where p: "proxyHandler mem_redis demo_env (demo_request ''s1'') ''t'' None (demo_gateway, s1)
      = (Connected ''n2'' '''' ''evil.com'', g', s2)"
    using demo_connect [OF c] choose_node_no_address [OF c] n(2) by auto
  show ?thesis unfolding proxy_chain_def prod.case m outcome.case Let_def au
    by (simp add: requireMinScope_def scopeLevel_def p)
qed

theorem proxy_requires_key_witness:
  "\<exists>st scope. fst (ValidateKey (Some mem_redis) id (ge_now demo_env) (presented_key (auth_header (demo_request ''s1''))) st) = (scope, None)
    \<and> scope \<noteq> '''' \<and> scopeLevel ''read'' \<le> scopeLevel scope"
proof -
  obtain g' t' where c: "proxy_chain local_limiter (None :: mem redis option) (Some (Some mem_redis)) id mem_redis demo_env (demo_request ''s1'') ''t'' None
    (demo_gateway, demo_limiter) = (Connected ''n2'' '''' ''evil.com'', g', t')" using demo_chain by blast
  show ?thesis by (rule proxy_requires_key [OF arg_cong [where f = fst, OF c, unfolded fst_conv]])
qed

end
