(* ===== verification/Rbac.thy ===== *)
theory Rbac
  imports Http Redis_Api
begin

text \<open>
  The administrators' accounts (\<open>admin/rbac/service.go\<close>): users by name, roles and their
  permissions, logging in, and the two middlewares. A user the code hands out is a pointer into the
  map; here it is the value the map holds. The random user id is a parameter.
\<close>

unbundle bit_operations_syntax

section \<open>Roles and users\<close>

type_synonym role = string

abbreviation RoleSuperAdmin :: role where "RoleSuperAdmin \<equiv> ''superadmin''"
abbreviation RoleAdmin :: role where "RoleAdmin \<equiv> ''admin''"
abbreviation RoleOperator :: role where "RoleOperator \<equiv> ''operator''"
abbreviation RoleViewer :: role where "RoleViewer \<equiv> ''viewer''"

record rbacUser =
  us_ID :: string
  us_Username :: string
  us_Password :: string
  us_Roles :: "role list"
  us_Email :: string
  us_CreatedAt :: time
  us_UpdatedAt :: time
  us_LastLogin :: time
  us_Active :: bool

record permission =
  pm_Resource :: string
  pm_Actions :: "string list"

record rbacConfig =
  rc_DefaultRole :: role
  rc_MinPasswordLen :: int
  rc_MaxLoginAttempts :: int
  rc_LockoutDuration :: int

record rbacService =
  rb_users :: "string \<rightharpoonup> rbacUser"
  rb_perms :: "role \<rightharpoonup> permission list"
  rb_cfg :: rbacConfig

definition mk_perm :: "string \<Rightarrow> string list \<Rightarrow> permission" where
  "mk_perm r as = \<lparr>pm_Resource = r, pm_Actions = as\<rparr>"

definition initPermissions :: "role \<rightharpoonup> permission list" where
  "initPermissions = [
     RoleSuperAdmin \<mapsto> [mk_perm ''*'' [''*'']],
     RoleAdmin \<mapsto> [mk_perm ''nodes'' [''*''], mk_perm ''keys'' [''*''], mk_perm ''sessions'' [''*''],
        mk_perm ''cooldowns'' [''*''], mk_perm ''subnets'' [''*''], mk_perm ''capacity'' [''read'', ''write''],
        mk_perm ''audit'' [''read'']],
     RoleOperator \<mapsto> [mk_perm ''nodes'' [''read'', ''write''], mk_perm ''keys'' [''read'', ''write''],
        mk_perm ''sessions'' [''read'', ''delete''], mk_perm ''cooldowns'' [''read''], mk_perm ''capacity'' [''read'']],
     RoleViewer \<mapsto> [mk_perm ''nodes'' [''read''], mk_perm ''keys'' [''read''], mk_perm ''capacity'' [''read'']]]"

definition default_rbac_config :: rbacConfig where
  "default_rbac_config = \<lparr>rc_DefaultRole = RoleViewer, rc_MinPasswordLen = 8, rc_MaxLoginAttempts = 5, rc_LockoutDuration = 15\<rparr>"

definition NewRBACService :: "rbacConfig option \<Rightarrow> rbacService" where
  "NewRBACService cfg = \<lparr>rb_users = Map.empty, rb_perms = initPermissions,
     rb_cfg = (case cfg of None \<Rightarrow> default_rbac_config | Some c \<Rightarrow> c)\<rparr>"

section \<open>Passwords\<close>

definition hex_digit :: "nat \<Rightarrow> char" where
  "hex_digit d = char_of (if d < 10 then 48 + d else 87 + d)"

definition hex_encode :: "string \<Rightarrow> string" where
  "hex_encode s = concat (map (\<lambda>c. [hex_digit (of_char c div 16), hex_digit (of_char c mod 16)]) s)"

definition xor_5A :: "char \<Rightarrow> char" where
  "xor_5A c = char_of ((of_char c :: nat) XOR 0x5A)"

definition hashPassword :: "string \<Rightarrow> string" where
  "hashPassword password = hex_encode (map xor_5A password)"

definition verifyPassword :: "string \<Rightarrow> string \<Rightarrow> bool" where
  "verifyPassword password hash \<longleftrightarrow> hashPassword password = hash"

section \<open>Operations\<close>

definition CreateUser ::
    "string \<Rightarrow> time \<Rightarrow> string \<Rightarrow> string \<Rightarrow> string \<Rightarrow> role list \<Rightarrow> rbacService \<Rightarrow> (go_err + rbacUser) \<times> rbacService" where
  "CreateUser newID now username password email roles s =
     (if username = '''' \<or> password = '''' then (Inl (Err ''username and password required''), s)
      else if int (length password) < rc_MinPasswordLen (rb_cfg s)
      then (Inl (Err (''password must be at least '' @ show_int (rc_MinPasswordLen (rb_cfg s)) @ '' characters'')), s)
      else let roles = (if roles = [] then [rc_DefaultRole (rb_cfg s)] else roles)
      in if rb_users s username \<noteq> None then (Inl (Err ''user already exists''), s)
      else let user = \<lparr>us_ID = newID, us_Username = username, us_Password = hashPassword password, us_Roles = roles,
              us_Email = email, us_CreatedAt = now, us_UpdatedAt = now, us_LastLogin = zero_time, us_Active = True\<rparr>
      in (Inr user, s\<lparr>rb_users := (rb_users s)(username \<mapsto> user)\<rparr>))"

definition GetUser :: "string \<Rightarrow> rbacService \<Rightarrow> go_err + rbacUser" where
  "GetUser username s = (case rb_users s username of None \<Rightarrow> Inl (Err ''user not found'') | Some u \<Rightarrow> Inr u)"

definition UpdateUserRoles :: "time \<Rightarrow> string \<Rightarrow> role list \<Rightarrow> rbacService \<Rightarrow> go_err option \<times> rbacService" where
  "UpdateUserRoles now username roles s = (case rb_users s username of
       None \<Rightarrow> (Some (Err ''user not found''), s)
     | Some u \<Rightarrow> (None, s\<lparr>rb_users := (rb_users s)(username \<mapsto> u\<lparr>us_Roles := roles, us_UpdatedAt := now\<rparr>)\<rparr>))"

definition DeactivateUser :: "time \<Rightarrow> string \<Rightarrow> rbacService \<Rightarrow> go_err option \<times> rbacService" where
  "DeactivateUser now username s = (case rb_users s username of
       None \<Rightarrow> (Some (Err ''user not found''), s)
     | Some u \<Rightarrow> (None, s\<lparr>rb_users := (rb_users s)(username \<mapsto> u\<lparr>us_Active := False, us_UpdatedAt := now\<rparr>)\<rparr>))"

definition Authenticate :: "time \<Rightarrow> string \<Rightarrow> string \<Rightarrow> rbacService \<Rightarrow> (go_err + rbacUser) \<times> rbacService" where
  "Authenticate now username password s = (case rb_users s username of
       None \<Rightarrow> (Inl (Err ''invalid credentials''), s)
     | Some u \<Rightarrow>
         if \<not> us_Active u then (Inl (Err ''account deactivated''), s)
         else if \<not> verifyPassword password (us_Password u) then (Inl (Err ''invalid credentials''), s)
         else let u' = u\<lparr>us_LastLogin := now\<rparr> in (Inr u', s\<lparr>rb_users := (rb_users s)(username \<mapsto> u')\<rparr>))"

definition perm_covers :: "string \<Rightarrow> string \<Rightarrow> permission \<Rightarrow> bool" where
  "perm_covers resource action p \<longleftrightarrow>
     (pm_Resource p = ''*'' \<or> pm_Resource p = resource) \<and> (\<exists>a \<in> set (pm_Actions p). a = ''*'' \<or> a = action)"

definition HasPermission :: "rbacService \<Rightarrow> rbacUser \<Rightarrow> string \<Rightarrow> string \<Rightarrow> bool" where
  "HasPermission s u resource action \<longleftrightarrow> (\<exists>r \<in> set (us_Roles u). case rb_perms s r of
       None \<Rightarrow> False | Some ps \<Rightarrow> (\<exists>p \<in> set ps. perm_covers resource action p))"

section \<open>Middlewares\<close>

text \<open>\<open>ctx\<close> is the user the context carries, if any.\<close>

definition RequirePermission :: "rbacService \<Rightarrow> string \<Rightarrow> string \<Rightarrow> rbacUser option \<Rightarrow> outcome" where
  "RequirePermission s resource action ctx = (case ctx of
       None \<Rightarrow> Abort 401 ''Unauthorized''
     | Some u \<Rightarrow> if \<not> HasPermission s u resource action then Abort 403 ''Insufficient permissions'' else Next)"

definition rbac_credentials :: "http_req \<Rightarrow> string \<times> string" where
  "rbac_credentials r =
     (let username = rq_header r ''X-Admin-User''; password = rq_header r ''X-Admin-Password''
      in if (username = '''' \<or> password = '''') \<and> rq_header r ''Authorization'' \<noteq> ''''
         then (''admin'', rq_header r ''Authorization'') else (username, password))"

definition rbac_Authenticate :: "time \<Rightarrow> http_req \<Rightarrow> rbacService \<Rightarrow> (outcome \<times> rbacUser option) \<times> rbacService" where
  "rbac_Authenticate now r s = (case rbac_credentials r of (username, password) \<Rightarrow>
     if username = '''' then ((Abort 401 ''Missing credentials'', None), s)
     else (case Authenticate now username password s of
         (Inl e, s') \<Rightarrow> ((Abort 401 (err_text e), None), s')
       | (Inr u, s') \<Rightarrow> ((Next, Some u), s')))"

text \<open>The two together, as the admin routes use them.\<close>

definition rbac_guard :: "time \<Rightarrow> string \<Rightarrow> string \<Rightarrow> http_req \<Rightarrow> rbacService \<Rightarrow> outcome \<times> rbacService" where
  "rbac_guard now resource action r s = (case rbac_Authenticate now r s of
       ((Abort c m, _), s') \<Rightarrow> (Abort c m, s')
     | ((Next, ctx), s') \<Rightarrow> (RequirePermission s' resource action ctx, s'))"

section \<open>Listings\<close>

text \<open>In the order in which the maps are ranged over.\<close>

definition ListUsers :: "string list \<Rightarrow> rbacService \<Rightarrow> rbacUser list" where
  "ListUsers order s = List.map_filter (rb_users s) order"

definition rbac_GetConfig :: "rbacService \<Rightarrow> rbacConfig" where
  "rbac_GetConfig s = rb_cfg s"

text \<open>The fields of a user that are encoded: the password is not.\<close>

record userView =
  uv_ID :: string
  uv_Username :: string
  uv_Roles :: "role list"
  uv_Email :: string
  uv_CreatedAt :: time
  uv_UpdatedAt :: time
  uv_LastLogin :: time
  uv_Active :: bool

definition user_view :: "rbacUser \<Rightarrow> userView" where
  "user_view u = \<lparr>uv_ID = us_ID u, uv_Username = us_Username u, uv_Roles = us_Roles u, uv_Email = us_Email u,
     uv_CreatedAt = us_CreatedAt u, uv_UpdatedAt = us_UpdatedAt u, uv_LastLogin = us_LastLogin u, uv_Active = us_Active u\<rparr>"

record rbacView =
  rv_config :: rbacConfig
  rv_users :: "userView list"
  rv_roles :: "role list"

definition rbac_MarshalJSON :: "string list \<Rightarrow> role list \<Rightarrow> rbacService \<Rightarrow> rbacView" where
  "rbac_MarshalJSON order roles s = \<lparr>rv_config = rb_cfg s, rv_users = map user_view (ListUsers order s),
     rv_roles = filter (\<lambda>r. rb_perms s r \<noteq> None) roles\<rparr>"

text \<open>What a handler behind the middleware finds in the context.\<close>

definition GetRBACUser :: "rbacUser option \<Rightarrow> rbacUser option" where
  "GetRBACUser ctx = ctx"

definition GetRBACRoles :: "rbacUser option \<Rightarrow> role list" where
  "GetRBACRoles ctx = (case ctx of None \<Rightarrow> [] | Some u \<Rightarrow> us_Roles u)"

section \<open>Lemmas\<close>

lemma xor_5A_code: "(of_char (xor_5A c) :: nat) = of_char c XOR 0x5A"
proof -
  have "take_bit 8 ((of_char c :: nat) XOR 0x5A) = of_char c XOR 0x5A"
    by (simp add: take_bit_nat_eq_self)
  then have "(of_char c :: nat) XOR 0x5A < 2 ^ 8" by (simp only: take_bit_nat_eq_self_iff)
  then show ?thesis by (simp add: xor_5A_def of_char_of)
qed

lemma xor_5A_self [simp]: "xor_5A (xor_5A c) = c"
proof -
  have "xor_5A (xor_5A c) = char_of ((of_char (xor_5A c) :: nat) XOR 0x5A)" by (simp only: xor_5A_def [of "xor_5A c"])
  then show ?thesis by (simp add: xor_5A_code xor.assoc)
qed

text \<open>Reading a stored password back.\<close>

definition hex_value :: "char \<Rightarrow> nat" where
  "hex_value c = (if (of_char c :: nat) < 58 then of_char c - 48 else of_char c - 87)"

fun hex_decode :: "string \<Rightarrow> string" where
  "hex_decode (a # b # cs) = char_of (16 * hex_value a + hex_value b) # hex_decode cs"
| "hex_decode cs = []"

definition reveal :: "string \<Rightarrow> string" where
  "reveal hash = map xor_5A (hex_decode hash)"

lemma hex_value_digit: "d < 16 \<Longrightarrow> hex_value (hex_digit d) = d"
  by (auto simp: hex_value_def hex_digit_def of_char_of)

lemma hex_decode_encode: "hex_decode (hex_encode s) = s"
proof (induction s)
  case (Cons c s)
  have "(of_char c :: nat) < 256" using of_char_mod_256 [where 'a = nat, of c] by (metis mod_less_divisor zero_less_numeral)
  then have "(of_char c :: nat) div 16 < 16" by (simp add: div_less_iff_less_mult)
  then have "char_of (16 * hex_value (hex_digit (of_char c div 16)) + hex_value (hex_digit (of_char c mod 16))) = c"
    using hex_value_digit [of "of_char c div 16"] hex_value_digit [of "of_char c mod 16"] by simp
  with Cons show ?case by (simp add: hex_encode_def)
qed (simp add: hex_encode_def)

lemma reveal_hash: "reveal (hashPassword p) = p"
  by (simp add: reveal_def hashPassword_def hex_decode_encode comp_def)

lemma verify_exact: "verifyPassword q (hashPassword p) \<longleftrightarrow> q = p"
  by (metis verifyPassword_def reveal_hash)

section \<open>Sequences of operations\<close>

datatype rbac_op =
    OpCreate string time string string string "role list"
  | OpRoles time string "role list"
  | OpDeactivate time string
  | OpLogin time string string

fun rbac_apply :: "rbac_op \<Rightarrow> rbacService \<Rightarrow> rbacService" where
  "rbac_apply (OpCreate i now n p e rs) s = snd (CreateUser i now n p e rs s)"
| "rbac_apply (OpRoles now n rs) s = snd (UpdateUserRoles now n rs s)"
| "rbac_apply (OpDeactivate now n) s = snd (DeactivateUser now n s)"
| "rbac_apply (OpLogin now n p) s = snd (Authenticate now n p s)"

definition is_user :: "string \<Rightarrow> string \<Rightarrow> bool \<Rightarrow> rbacService \<Rightarrow> bool" where
  "is_user n h a s \<longleftrightarrow> (\<exists>u. rb_users s n = Some u \<and> us_Password u = h \<and> us_Active u = a)"

lemma is_user_apply:
  "is_user n h a s \<Longrightarrow> is_user n h (a \<and> (\<forall>t. e \<noteq> OpDeactivate t n)) (rbac_apply e s)"
  by (cases e) (auto simp: is_user_def CreateUser_def UpdateUserRoles_def DeactivateUser_def Authenticate_def Let_def
      split: option.splits)

lemma is_user_fold:
  "is_user n h a s \<Longrightarrow> is_user n h (a \<and> (\<forall>t. OpDeactivate t n \<notin> set es)) (fold rbac_apply es s)"
proof (induction es arbitrary: a s)
  case (Cons e es)
  have "(a \<and> (\<forall>t. e \<noteq> OpDeactivate t n)) \<and> (\<forall>t. OpDeactivate t n \<notin> set es) \<longleftrightarrow> a \<and> (\<forall>t. OpDeactivate t n \<notin> set (e # es))"
    by auto
  then show ?case using Cons.IH [OF is_user_apply [OF Cons.prems, of e]] by simp
qed simp

section \<open>Properties\<close>

text \<open>C31: An account answers to its password and to nothing else, until it is deactivated: after a user
  is created, no sequence of other creations, role changes, deactivations and logins, failed ones
  included, changes whether a login succeeds. The configured limit on attempts never locks it.\<close>

theorem login_exact:
  assumes "CreateUser i t n p e rs s = (Inr u, s1)"
  shows "(\<exists>v. fst (Authenticate now n q (fold rbac_apply ops s1)) = Inr v) \<longleftrightarrow> q = p \<and> (\<forall>d. OpDeactivate d n \<notin> set ops)"
proof -
  have "is_user n (hashPassword p) True s1"
    using assms by (auto simp: CreateUser_def is_user_def Let_def split: if_splits)
  from is_user_fold [OF this, of ops] show ?thesis
    by (cases "q = p") (auto simp: is_user_def Authenticate_def verify_exact Let_def)
qed

theorem login_exact_witness:
  "\<exists>v. fst (Authenticate 9 ''eve'' ''password1'' (fold rbac_apply (replicate 100 (OpLogin 5 ''eve'' ''guess''))
    (snd (CreateUser ''id'' 0 ''eve'' ''password1'' '''' [] (NewRBACService None))))) = Inr v"
proof -
  obtain u s1 where c: "CreateUser ''id'' 0 ''eve'' ''password1'' '''' [] (NewRBACService None) = (Inr u, s1)"
    by (simp add: CreateUser_def NewRBACService_def default_rbac_config_def Let_def)
  then have "snd (CreateUser ''id'' 0 ''eve'' ''password1'' '''' [] (NewRBACService None)) = s1" by simp
  moreover have "OpDeactivate d ''eve'' \<notin> set (replicate 100 (OpLogin 5 ''eve'' ''guess''))" for d
    by (simp only: in_set_replicate) simp
  ultimately show ?thesis using login_exact [OF c, of 9 "''password1''" "replicate 100 (OpLogin 5 ''eve'' ''guess'')"] by simp
qed

definition role_rank :: "role \<Rightarrow> nat" where
  "role_rank r = (if r = RoleViewer then 1 else if r = RoleOperator then 2 else if r = RoleAdmin then 3
     else if r = RoleSuperAdmin then 4 else 0)"

lemma role_cases: "1 \<le> role_rank r \<Longrightarrow> r = RoleViewer \<or> r = RoleOperator \<or> r = RoleAdmin \<or> r = RoleSuperAdmin"
  by (auto simp: role_rank_def split: if_splits)

lemma init_perms:
  "initPermissions RoleSuperAdmin = Some [mk_perm ''*'' [''*'']]"
  "initPermissions RoleAdmin = Some [mk_perm ''nodes'' [''*''], mk_perm ''keys'' [''*''], mk_perm ''sessions'' [''*''],
        mk_perm ''cooldowns'' [''*''], mk_perm ''subnets'' [''*''], mk_perm ''capacity'' [''read'', ''write''],
        mk_perm ''audit'' [''read'']]"
  "initPermissions RoleOperator = Some [mk_perm ''nodes'' [''read'', ''write''], mk_perm ''keys'' [''read'', ''write''],
        mk_perm ''sessions'' [''read'', ''delete''], mk_perm ''cooldowns'' [''read''], mk_perm ''capacity'' [''read'']]"
  "initPermissions RoleViewer = Some [mk_perm ''nodes'' [''read''], mk_perm ''keys'' [''read''], mk_perm ''capacity'' [''read'']]"
  by (simp_all add: initPermissions_def)

text \<open>The four roles form a hierarchy: what a role allows, every higher one allows (viewer, operator,
  admin, superadmin), and a user whose only role is viewer can do nothing but read.\<close>

theorem roles_hierarchy:
  assumes "1 \<le> role_rank r" and "role_rank r \<le> role_rank r'" and "us_Roles u = [r]" and "us_Roles u' = [r']"
  shows "(HasPermission (NewRBACService c) u res act \<longrightarrow> HasPermission (NewRBACService c) u' res act) \<and>
    (r = RoleViewer \<longrightarrow> HasPermission (NewRBACService c) u res act \<longrightarrow> act = ''read'')"
proof -
  note d = HasPermission_def NewRBACService_def assms(3,4) init_perms perm_covers_def mk_perm_def
  have "1 \<le> role_rank r'" using assms(1,2) by simp
  from role_cases [OF assms(1)] role_cases [OF this] assms(2) show ?thesis
    by (elim disjE) (auto simp: d role_rank_def)
qed

theorem roles_hierarchy_witness:
  "HasPermission (NewRBACService None) (\<lparr>us_ID = '''', us_Username = '''', us_Password = '''', us_Roles = [''admin''],
    us_Email = '''', us_CreatedAt = 0, us_UpdatedAt = 0, us_LastLogin = 0, us_Active = True\<rparr>) ''keys'' ''write''"
proof -
  let ?u = "\<lambda>r. \<lparr>us_ID = '''', us_Username = '''', us_Password = '''', us_Roles = [r],
    us_Email = '''', us_CreatedAt = 0, us_UpdatedAt = 0, us_LastLogin = 0, us_Active = True\<rparr>"
  have "HasPermission (NewRBACService None) (?u ''operator'') ''keys'' ''write''"
    by (simp add: HasPermission_def NewRBACService_def init_perms perm_covers_def mk_perm_def)
  then show ?thesis
    using roles_hierarchy [of "''operator''" "''admin''" "?u ''operator''" "?u ''admin''" None "''keys''" "''write''"]
    by (simp add: role_rank_def)
qed

end
