(* ===== verification/Latency.thy ===== *)
theory Latency
  imports Go_Sort Redis_Api "HOL-Library.Signed_Division"
begin

text \<open>
  \<open>matchmaker/latency.go\<close>: the sliding window of latencies per node, the queues of requests that
  wait for a node (a buffered channel is the list of its elements and its capacity), and reputations
  that decay. The background loops are one function per tick.
\<close>

section \<open>Latency windows\<close>

record nodeLatency =
  la_samples :: "int list"
  la_sum :: int
  la_avgLatency :: int
  la_lastUpdate :: time

record latencyTracker =
  lt_latencies :: "string \<rightharpoonup> nodeLatency"
  lt_windowSize :: duration
  lt_maxSamples :: int

definition NewLatencyTracker :: "duration \<Rightarrow> int \<Rightarrow> latencyTracker" where
  "NewLatencyTracker windowSize maxSamples =
     \<lparr>lt_latencies = Map.empty, lt_windowSize = windowSize, lt_maxSamples = maxSamples\<rparr>"

text \<open>One sample more; \<open>None\<close> is the panic of the division when no sample is kept.\<close>

definition add_sample :: "int \<Rightarrow> time \<Rightarrow> int \<Rightarrow> nodeLatency \<Rightarrow> nodeLatency option" where
  "add_sample maxSamples now latencyMs l =
     (let samples = la_samples l @ [latencyMs];
          sum = i64 (la_sum l + latencyMs);
          (samples', sum') = (if int (length samples) > maxSamples then (tl samples, i64 (sum - hd samples)) else (samples, sum))
      in if samples' = [] then None
         else Some \<lparr>la_samples = samples', la_sum = sum', la_avgLatency = sum' sdiv int (length samples'), la_lastUpdate = now\<rparr>)"

definition new_latency :: "time \<Rightarrow> nodeLatency" where
  "new_latency now = \<lparr>la_samples = [], la_sum = 0, la_avgLatency = 0, la_lastUpdate = now\<rparr>"

definition RecordLatency ::
    "'r redis option \<Rightarrow> time \<Rightarrow> string \<Rightarrow> int \<Rightarrow> latencyTracker \<times> 'r \<Rightarrow> (latencyTracker \<times> 'r) option" where
  "RecordLatency h now nodeID latencyMs = (\<lambda>(lt, st).
     let old = (case lt_latencies lt nodeID of Some l \<Rightarrow> l | None \<Rightarrow> new_latency now)
     in case add_sample (lt_maxSamples lt) now latencyMs old of
          None \<Rightarrow> None
        | Some l \<Rightarrow> Some (lt\<lparr>lt_latencies := (lt_latencies lt)(nodeID \<mapsto> l)\<rparr>,
            (case h of None \<Rightarrow> st
             | Some R \<Rightarrow> (case cHSet R ''latency:ranking'' [(nodeID, show_int (la_avgLatency l))] st of
                 (_, st1) \<Rightarrow> snd (cExpire R ''latency:ranking'' (lt_windowSize lt) st1)))))"

definition GetAvgLatency :: "string \<Rightarrow> latencyTracker \<Rightarrow> int" where
  "GetAvgLatency nodeID lt = (case lt_latencies lt nodeID of Some l \<Rightarrow> la_avgLatency l | None \<Rightarrow> 0)"

text \<open>\<open>order\<close> is the order in which the map is ranged over; a negative \<open>count\<close> panics.\<close>

definition lt_local_top :: "string list \<Rightarrow> int \<Rightarrow> latencyTracker \<Rightarrow> string list option" where
  "lt_local_top order n lt =
     (let pairs = exchange_sort (\<lambda>p q. snd p < snd q)
            (List.map_filter (\<lambda>k. map_option (\<lambda>l. (k, la_avgLatency l)) (lt_latencies lt k)) order)
      in if n < 0 then None else Some (map fst (take (nat n) pairs)))"

definition lt_GetTopNodes ::
    "'r redis option \<Rightarrow> string list \<Rightarrow> int \<Rightarrow> latencyTracker \<Rightarrow> 'r \<Rightarrow> string list option \<times> 'r" where
  "lt_GetTopNodes h order n lt st = (case h of
       None \<Rightarrow> (lt_local_top order n lt, st)
     | Some R \<Rightarrow> (case cZRange R ''latency:ranking'' 0 (i64 (n - 1)) st of
         (Inr results, st1) \<Rightarrow> (Some results, st1)
       | (Inl e, st1) \<Rightarrow> (lt_local_top order n lt, st1)))"

text \<open>Average, least and greatest; \<open>samples[0]\<close> panics when there is none.\<close>

definition GetLatencyStats :: "string \<Rightarrow> latencyTracker \<Rightarrow> (int \<times> int \<times> int) option" where
  "GetLatencyStats nodeID lt = (case lt_latencies lt nodeID of
       None \<Rightarrow> Some (0, 0, 0)
     | Some l \<Rightarrow> (case la_samples l of [] \<Rightarrow> None
         | s # ss \<Rightarrow> Some (la_avgLatency l, fold (\<lambda>x m. if x < m then x else m) (s # ss) s,
             fold (\<lambda>x m. if x > m then x else m) (s # ss) s)))"

definition lt_cleanup :: "time \<Rightarrow> latencyTracker \<Rightarrow> latencyTracker" where
  "lt_cleanup now lt = lt\<lparr>lt_latencies :=
     purge (\<lambda>l. time_sub now (la_lastUpdate l) > i64 (lt_windowSize lt * 2)) (lt_latencies lt)\<rparr>"

section \<open>Request queues\<close>

record 'a requestQueue =
  rqs_queues :: "string \<rightharpoonup> 'a list \<times> nat"
  rqs_maxQueueSize :: int

definition NewRequestQueue :: "int \<Rightarrow> 'a requestQueue" where
  "NewRequestQueue maxQueueSize = \<lparr>rqs_queues = Map.empty, rqs_maxQueueSize = maxQueueSize\<rparr>"

definition Enqueue :: "string \<Rightarrow> 'a \<Rightarrow> 'a requestQueue \<Rightarrow> bool \<times> 'a requestQueue" where
  "Enqueue nodeID req q =
     (let (ch, cap) = (case rqs_queues q nodeID of Some c \<Rightarrow> c
            | None \<Rightarrow> ([], nat (if rqs_maxQueueSize q \<le> 0 then 100 else rqs_maxQueueSize q)))
      in if length ch < cap
         then (True, q\<lparr>rqs_queues := (rqs_queues q)(nodeID \<mapsto> (ch @ [req], cap))\<rparr>)
         else (False, q\<lparr>rqs_queues := (rqs_queues q)(nodeID \<mapsto> (ch, cap))\<rparr>))"

definition Dequeue :: "string \<Rightarrow> 'a requestQueue \<Rightarrow> 'a option \<times> 'a requestQueue" where
  "Dequeue nodeID q = (case rqs_queues q nodeID of
       Some (x # ch, cap) \<Rightarrow> (Some x, q\<lparr>rqs_queues := (rqs_queues q)(nodeID \<mapsto> (ch, cap))\<rparr>)
     | _ \<Rightarrow> (None, q))"

definition GetQueueSize :: "string \<Rightarrow> 'a requestQueue \<Rightarrow> int" where
  "GetQueueSize nodeID q = (case rqs_queues q nodeID of None \<Rightarrow> 0 | Some (ch, _) \<Rightarrow> int (length ch))"

definition RemoveQueue :: "string \<Rightarrow> 'a requestQueue \<Rightarrow> 'a requestQueue" where
  "RemoveQueue nodeID q = q\<lparr>rqs_queues := (rqs_queues q)(nodeID := None)\<rparr>"

section \<open>Reputations that decay\<close>

record reputationState =
  rp_score :: f64
  rp_lastDecay :: time

record reputationDecay =
  rd_reputations :: "string \<rightharpoonup> reputationState"
  rd_decayRate :: f64
  rd_decayInterval :: duration
  rd_minReputation :: f64

definition NewReputationDecay :: "f64 \<Rightarrow> duration \<Rightarrow> f64 \<Rightarrow> reputationDecay" where
  "NewReputationDecay decayRate decayInterval minReputation = \<lparr>rd_reputations = Map.empty,
     rd_decayRate = decayRate, rd_decayInterval = decayInterval, rd_minReputation = minReputation\<rparr>"

definition GetReputation :: "string \<Rightarrow> reputationDecay \<Rightarrow> f64" where
  "GetReputation nodeID rd = (case rd_reputations rd nodeID of Some s \<Rightarrow> rp_score s | None \<Rightarrow> f_int 100)"

definition SetReputation :: "time \<Rightarrow> string \<Rightarrow> f64 \<Rightarrow> reputationDecay \<Rightarrow> reputationDecay" where
  "SetReputation now nodeID score rd =
     rd\<lparr>rd_reputations := (rd_reputations rd)(nodeID \<mapsto> \<lparr>rp_score = score, rp_lastDecay = now\<rparr>)\<rparr>"

definition IncrementReputation :: "time \<Rightarrow> string \<Rightarrow> f64 \<Rightarrow> reputationDecay \<Rightarrow> reputationDecay" where
  "IncrementReputation now nodeID amount rd =
     (let s = (case rd_reputations rd nodeID of Some s \<Rightarrow> s | None \<Rightarrow> \<lparr>rp_score = f_int 100, rp_lastDecay = now\<rparr>);
          score = f_add (rp_score s) amount;
          score' = (if f_lt (f_int 100) score then f_int 100 else score)
      in rd\<lparr>rd_reputations := (rd_reputations rd)(nodeID \<mapsto> s\<lparr>rp_score := score'\<rparr>)\<rparr>)"

definition decay_state :: "reputationDecay \<Rightarrow> time \<Rightarrow> reputationState \<Rightarrow> reputationState" where
  "decay_state rd now s = (if time_sub now (rp_lastDecay s) \<ge> rd_decayInterval rd
     then (let score = f_mul (rp_score s) (f_sub (f_int 1) (rd_decayRate rd))
       in s\<lparr>rp_score := (if f_lt score (rd_minReputation rd) then rd_minReputation rd else score), rp_lastDecay := now\<rparr>)
     else s)"

definition decay_tick :: "time \<Rightarrow> reputationDecay \<Rightarrow> reputationDecay" where
  "decay_tick now rd = rd\<lparr>rd_reputations := (\<lambda>k. map_option (decay_state rd now) (rd_reputations rd k))\<rparr>"

section \<open>Lemmas\<close>

lemma i64_add_i64: "i64 (i64 a + b) = i64 (a + b)"
  by (simp add: i64_def mod_simps algebra_simps)

lemma i64_diff_i64: "i64 (i64 a - b) = i64 (a - b)"
  using i64_add_i64 [of a "- b"] by simp

definition window :: "nat \<Rightarrow> time \<Rightarrow> int list \<Rightarrow> nodeLatency \<Rightarrow> bool" where
  "window m now xs l \<longleftrightarrow> la_samples l = last_n m xs \<and> la_sum l = i64 (sum_list (last_n m xs)) \<and> la_lastUpdate l = now"

lemma add_sample_window:
  assumes "0 < m" and "window m t xs l"
  shows "\<exists>l'. add_sample (int m) now x l = Some l' \<and> window m now (xs @ [x]) l' \<and>
    la_avgLatency l' = la_sum l' sdiv int (length (la_samples l'))"
proof -
  have p: "last_n m (xs @ [x]) = (if int (length (last_n m xs @ [x])) > int m then tl (last_n m xs @ [x]) else last_n m xs @ [x])"
    using push_bounded_last_n [OF assms(1), of x xs] unfolding push_bounded_def Let_def by (rule sym)
  have ne: "last_n m (xs @ [x]) \<noteq> []" using assms(1) by (simp add: last_n_def)
  have s: "sum_list (tl (last_n m xs @ [x])) = sum_list (last_n m xs) + x - hd (last_n m xs @ [x])"
    by (cases "last_n m xs") auto
  show ?thesis using assms(2) ne
    by (cases "int (length (last_n m xs @ [x])) > int m")
       (auto simp: add_sample_def window_def p s i64_add_i64 i64_diff_i64 Let_def)
qed

text \<open>A run of records, of any nodes in any order.\<close>

definition record_all :: "'r redis option \<Rightarrow> (time \<times> string \<times> int) list \<Rightarrow> latencyTracker \<times> 'r \<Rightarrow> (latencyTracker \<times> 'r) option" where
  "record_all h rs s = fold (\<lambda>(t, n, x) o1. Option.bind o1 (RecordLatency h t n x)) rs (Some s)"

definition samples_of :: "string \<Rightarrow> (time \<times> string \<times> int) list \<Rightarrow> int list" where
  "samples_of n rs = map (\<lambda>(t, k, x). x) (filter (\<lambda>(t, k, x). k = n) rs)"

definition window_at :: "nat \<Rightarrow> int list \<Rightarrow> nodeLatency option \<Rightarrow> bool" where
  "window_at m xs ol = (case ol of None \<Rightarrow> xs = []
     | Some l \<Rightarrow> xs \<noteq> [] \<and> (\<exists>t. window m t xs l) \<and> la_avgLatency l = la_sum l sdiv int (length (la_samples l)))"

definition windows :: "nat \<Rightarrow> (time \<times> string \<times> int) list \<Rightarrow> latencyTracker \<Rightarrow> bool" where
  "windows m rs lt \<longleftrightarrow> lt_maxSamples lt = int m \<and> (\<forall>n. window_at m (samples_of n rs) (lt_latencies lt n))"

lemma RecordLatency_windows:
  assumes "0 < m" and "windows m rs lt"
  shows "\<exists>lt' st'. RecordLatency h t n x (lt, st) = Some (lt', st') \<and> windows m (rs @ [(t, n, x)]) lt'"
proof -
  let ?old = "case lt_latencies lt n of Some l \<Rightarrow> l | None \<Rightarrow> new_latency t"
  have "\<exists>t'. window m t' (samples_of n rs) ?old"
    using assms(2) by (auto simp: windows_def window_at_def window_def new_latency_def last_n_def dest!: spec [of _ n] split: option.splits)
  then obtain t' where "window m t' (samples_of n rs) ?old" ..
  from add_sample_window [OF assms(1) this, of t x] obtain l' where
    l': "add_sample (int m) t x ?old = Some l'" "window m t (samples_of n rs @ [x]) l'"
      "la_avgLatency l' = la_sum l' sdiv int (length (la_samples l'))" by blast
  have m: "lt_maxSamples lt = int m" using assms(2) by (simp add: windows_def)
  have s: "samples_of k (rs @ [(t, n, x)]) = (if k = n then samples_of n rs @ [x] else samples_of k rs)" for k
    by (simp add: samples_of_def)
  obtain st' where "RecordLatency h t n x (lt, st) = Some (lt\<lparr>lt_latencies := (lt_latencies lt)(n \<mapsto> l')\<rparr>, st')"
    using l'(1) by (simp add: RecordLatency_def Let_def m)
  moreover have "windows m (rs @ [(t, n, x)]) (lt\<lparr>lt_latencies := (lt_latencies lt)(n \<mapsto> l')\<rparr>)"
    using assms(2) l'(2,3) by (auto simp: windows_def s window_at_def [of m "samples_of n rs @ [x]" "Some l'"])
  ultimately show ?thesis by blast
qed

lemma record_all_windows:
  "0 < m \<Longrightarrow> \<exists>lt st'. record_all h rs (NewLatencyTracker w (int m), st) = Some (lt, st') \<and> windows m rs lt"
proof (induction rs rule: rev_induct)
  case Nil
  then show ?case by (simp add: record_all_def windows_def NewLatencyTracker_def samples_of_def window_at_def)
next
  case (snoc r rs)
  obtain t n x where r: "r = (t, n, x)" by (cases r)
  obtain lt st' where "record_all h rs (NewLatencyTracker w (int m), st) = Some (lt, st')" "windows m rs lt"
    using snoc by blast
  then show ?case using RecordLatency_windows [OF snoc.prems, of rs lt h t n x st'] by (simp add: record_all_def r)
qed

text \<open>With no room for a sample the first record panics.\<close>

lemma no_samples_panics: "lt_maxSamples lt = 0 \<Longrightarrow> lt_latencies lt n = None \<Longrightarrow> RecordLatency h t n x (lt, st) = None"
  by (simp add: RecordLatency_def add_sample_def new_latency_def)

section \<open>The queues as logs\<close>

datatype 'a queue_op = QEnq string 'a | QDeq string | QRemove string

text \<open>What became of an accepted request.\<close>

datatype 'a fate = Delivered 'a | Dropped 'a

fun fate_item :: "'a fate \<Rightarrow> 'a" where
  "fate_item (Delivered x) = x"
| "fate_item (Dropped x) = x"

definition waiting :: "string \<Rightarrow> 'a requestQueue \<Rightarrow> 'a list" where
  "waiting n q = (case rqs_queues q n of None \<Rightarrow> [] | Some (ch, _) \<Rightarrow> ch)"

record 'a queue_log =
  ql_queue :: "'a requestQueue"
  ql_accepted :: "string \<Rightarrow> 'a list"
  ql_fates :: "string \<Rightarrow> 'a fate list"

fun queue_step :: "'a queue_op \<Rightarrow> 'a queue_log \<Rightarrow> 'a queue_log" where
  "queue_step (QEnq n x) s = (case Enqueue n x (ql_queue s) of (ok, q) \<Rightarrow>
     s\<lparr>ql_queue := q, ql_accepted := (ql_accepted s)(n := ql_accepted s n @ (if ok then [x] else []))\<rparr>)"
| "queue_step (QDeq n) s = (case Dequeue n (ql_queue s) of (r, q) \<Rightarrow>
     s\<lparr>ql_queue := q, ql_fates := (ql_fates s)(n := ql_fates s n @ (case r of None \<Rightarrow> [] | Some x \<Rightarrow> [Delivered x]))\<rparr>)"
| "queue_step (QRemove n) s = s\<lparr>ql_queue := RemoveQueue n (ql_queue s),
     ql_fates := (ql_fates s)(n := ql_fates s n @ map Dropped (waiting n (ql_queue s)))\<rparr>"

definition queue_start :: "int \<Rightarrow> 'a queue_log" where
  "queue_start m = \<lparr>ql_queue = NewRequestQueue m, ql_accepted = (\<lambda>_. []), ql_fates = (\<lambda>_. [])\<rparr>"

definition queue_cap :: "int \<Rightarrow> nat" where
  "queue_cap m = nat (if m \<le> 0 then 100 else m)"

definition capped :: "int \<Rightarrow> 'a requestQueue \<Rightarrow> bool" where
  "capped m q \<longleftrightarrow> rqs_maxQueueSize q = m \<and>
     (\<forall>n ch c. rqs_queues q n = Some (ch, c) \<longrightarrow> c = queue_cap m \<and> length ch \<le> c)"

lemma capped_step:
  assumes "capped m q"
  shows "capped m (snd (Enqueue n x q))" and "capped m (snd (Dequeue n q))" and "capped m (RemoveQueue n q)"
proof -
  show "capped m (snd (Enqueue n x q))" "capped m (RemoveQueue n q)"
    using assms by (auto simp: capped_def Enqueue_def RemoveQueue_def queue_cap_def Let_def split: option.splits prod.splits if_splits)
  have n: "\<And>y ch c. rqs_queues q n = Some (y # ch, c) \<Longrightarrow> c = queue_cap m \<and> length ch \<le> c"
    using assms by (fastforce simp: capped_def)
  show "capped m (snd (Dequeue n q))"
  proof (cases "\<exists>y ch c. rqs_queues q n = Some (y # ch, c)")
    case True
    then obtain y ch c where o1: "rqs_queues q n = Some (y # ch, c)" by blast
    from n [OF this] assms show ?thesis by (simp add: capped_def Dequeue_def o1)
  next
    case False
    then have "snd (Dequeue n q) = q" by (auto simp: Dequeue_def split: option.splits list.splits)
    with assms show ?thesis by simp
  qed
qed

lemma waiting_step:
  "waiting k (snd (Enqueue n x q)) = (if k = n \<and> fst (Enqueue n x q) then waiting n q @ [x] else waiting k q)"
  "waiting k (snd (Dequeue n q)) = (if k = n then tl (waiting n q) else waiting k q)"
  "fst (Dequeue n q) = (case waiting n q of [] \<Rightarrow> None | y # ys \<Rightarrow> Some y)"
  "waiting k (RemoveQueue n q) = (if k = n then [] else waiting k q)"
  by (auto simp: waiting_def Enqueue_def Dequeue_def RemoveQueue_def Let_def split: option.splits prod.splits list.splits if_splits)

definition queue_inv :: "int \<Rightarrow> 'a queue_log \<Rightarrow> bool" where
  "queue_inv m s \<longleftrightarrow> capped m (ql_queue s) \<and>
     (\<forall>n. ql_accepted s n = map fate_item (ql_fates s n) @ waiting n (ql_queue s))"

lemma map_fate_Dropped [simp]: "map (fate_item \<circ> Dropped) xs = xs"
  by (induction xs) simp_all

lemma queue_inv_step:
  assumes "queue_inv m s"
  shows "queue_inv m (queue_step e s)"
proof (cases e)
  case (QEnq n x)
  then show ?thesis using assms capped_step(1) [of m "ql_queue s" n x] waiting_step(1) [of _ n x "ql_queue s"]
    by (auto simp: queue_inv_def split: prod.splits)
next
  case (QDeq n)
  then show ?thesis using assms capped_step(2) [of m "ql_queue s" n] waiting_step(2) [of _ n "ql_queue s"]
      waiting_step(3) [of n "ql_queue s"]
    by (auto simp: queue_inv_def split: prod.splits list.splits)
next
  case (QRemove n)
  then show ?thesis using assms capped_step(3) [of m "ql_queue s" n]
    by (auto simp: queue_inv_def waiting_step(4))
qed

lemma queue_inv_run: "queue_inv m (fold queue_step es (queue_start m))"
proof (induction es rule: rev_induct)
  case Nil
  then show ?case by (simp add: queue_inv_def capped_def queue_start_def NewRequestQueue_def waiting_def)
qed (simp add: queue_inv_step)

lemma Enqueue_accepts:
  "queue_inv m s \<Longrightarrow> fst (Enqueue n x (ql_queue s)) \<longleftrightarrow> length (waiting n (ql_queue s)) < queue_cap m"
  by (auto simp: queue_inv_def capped_def Enqueue_def waiting_def queue_cap_def Let_def split: option.splits prod.splits)

section \<open>Properties\<close>

text \<open>The average reported for a node is exactly the truncated mean of its most recent samples, at
  most \<open>maxSamples\<close> of them, whatever was recorded for other nodes in between and however the 64-bit
  sum overflowed on the way; recording never panics when at least one sample is kept.\<close>

theorem latency_window:
  assumes "0 < m"
  shows "\<exists>lt st'. record_all h rs (NewLatencyTracker w (int m), st) = Some (lt, st') \<and>
    (\<forall>n. GetAvgLatency n lt = (let ys = last_n m (samples_of n rs) in
       if ys = [] then 0 else i64 (sum_list ys) sdiv int (length ys)))"
proof -
  from record_all_windows [OF assms, of h rs w st] obtain lt st' where
    r: "record_all h rs (NewLatencyTracker w (int m), st) = Some (lt, st')" and i: "windows m rs lt" by blast
  have e: "last_n m ys = [] \<longleftrightarrow> ys = []" for ys :: "int list" using assms by (cases ys) (auto simp: last_n_def)
  have "GetAvgLatency n lt = (let ys = last_n m (samples_of n rs) in
       if ys = [] then 0 else i64 (sum_list ys) sdiv int (length ys))" for n
    using i by (auto simp: windows_def window_at_def window_def GetAvgLatency_def e Let_def dest!: spec [of _ n] split: option.splits)
  with r show ?thesis by blast
qed

theorem latency_window_witness:
  "\<exists>lt st'. record_all (None :: unit redis option) [(1, ''a'', 10), (2, ''b'', 5), (3, ''a'', 20), (4, ''a'', 31)] (NewLatencyTracker 60 2, ()) = Some (lt, st') \<and>
    GetAvgLatency ''a'' lt = 25 \<and> GetAvgLatency ''b'' lt = 5 \<and> GetAvgLatency ''c'' lt = 0"
proof -
  have s: "samples_of ''a'' [(1, ''a'', 10), (2, ''b'', 5), (3, ''a'', 20), (4, ''a'', 31)] = [10, 20, 31]"
    "samples_of ''b'' [(1, ''a'', 10), (2, ''b'', 5), (3, ''a'', 20), (4, ''a'', 31)] = [5]"
    "samples_of ''c'' [(1, ''a'', 10), (2, ''b'', 5), (3, ''a'', 20), (4, ''a'', 31)] = []"
    by (simp_all add: samples_of_def)
  obtain lt st' where l: "record_all (None :: unit redis option) [(1, ''a'', 10), (2, ''b'', 5), (3, ''a'', 20), (4, ''a'', 31)] (NewLatencyTracker 60 (int 2), ()) = Some (lt, st')"
    "\<forall>n. GetAvgLatency n lt = (let ys = last_n 2 (samples_of n [(1, ''a'', 10), (2, ''b'', 5), (3, ''a'', 20), (4, ''a'', 31)]) in
       if ys = [] then 0 else i64 (sum_list ys) sdiv int (length ys))"
    using latency_window [of 2 "None :: unit redis option" "[(1, ''a'', 10), (2, ''b'', 5), (3, ''a'', 20), (4, ''a'', 31)]" 60 "()"] by auto
  have "GetAvgLatency ''a'' lt = 25 \<and> GetAvgLatency ''b'' lt = 5 \<and> GetAvgLatency ''c'' lt = 0"
    by (simp add: l(2) s last_n_def Let_def i64_def signed_divide_int_def)
  with l(1) show ?thesis by simp
qed

text \<open>C33: A node's queue is a bounded first-in-first-out buffer: through any operations on any nodes,
  the requests accepted for a node are, in order, those delivered or dropped with a removed queue
  followed by those waiting; at most the capacity wait, and a request is refused exactly when as many
  as the capacity wait.\<close>

theorem queue_fifo:
  "let s = fold queue_step es (queue_start m) in
    ql_accepted s n = map fate_item (ql_fates s n) @ waiting n (ql_queue s) \<and>
    length (waiting n (ql_queue s)) \<le> queue_cap m \<and>
    (fst (Enqueue n x (ql_queue s)) \<longleftrightarrow> length (waiting n (ql_queue s)) < queue_cap m)"
proof -
  let ?s = "fold queue_step es (queue_start m)"
  have i: "queue_inv m ?s" by (rule queue_inv_run)
  then have "length (waiting n (ql_queue ?s)) \<le> queue_cap m"
    by (auto simp: queue_inv_def capped_def waiting_def split: option.splits)
  with i Enqueue_accepts [OF i, of n x] show ?thesis by (simp add: queue_inv_def)
qed

end
