(* ===== verification/Subnet.thy ===== *)
theory Subnet
  imports Redis_Mem
begin

text \<open>
  IPv6 subnets for nodes (\<open>internal/subnet/allocator.go\<close>). An address is its sixteen bytes; parsing
  and printing addresses are parameters (\<open>net.ParseIP\<close> followed by \<open>To16\<close>, \<open>IP.String\<close>).
\<close>

unbundle bit_operations_syntax

section \<open>The subnet of an index\<close>

text \<open>\<open>1 << uint(n)\<close> of an \<open>int\<close>: a negative count becomes a huge one, and the result 0.\<close>

definition go_shl1 :: "int \<Rightarrow> int" where
  "go_shl1 n = (if 0 \<le> n \<and> n < 64 then i64 (2 ^ nat n) else 0)"

text \<open>
  The loop: the bytes of the index from the lowest, into the bytes \<open>15 - byteStart\<close>,
  \<open>14 - byteStart\<close> and so on. \<open>byteStart\<close> is not negative when the loop is entered, since a prefix
  length below zero leaves no subnet.
\<close>

fun put_index :: "nat \<Rightarrow> int \<Rightarrow> nat list \<Rightarrow> nat list" where
  "put_index byteStart i ip = (if i > 0 \<and> byteStart < 16
     then put_index (Suc byteStart) (i div 256) (ip[15 - byteStart := (ip ! (15 - byteStart)) OR nat (i mod 256)])
     else ip)"

declare put_index.simps [simp del]

definition subnet_bytes :: "int \<Rightarrow> int \<Rightarrow> nat list \<Rightarrow> nat list" where
  "subnet_bytes prefixLen index ip = put_index (nat (prefixLen sdiv 8)) index ip"

definition calculateSubnet ::
    "(string \<Rightarrow> nat list option) \<Rightarrow> (nat list \<Rightarrow> string) \<Rightarrow> string \<Rightarrow> int \<Rightarrow> int \<Rightarrow> go_err + string" where
  "calculateSubnet parseIP ipString prefx prefixLen index = (case parseIP prefx of
       None \<Rightarrow> Inl (Err (''invalid prefix: '' @ prefx))
     | Some ip \<Rightarrow>
         let subnetLen = 64;
             hostBits = i64 (subnetLen - prefixLen);
             maxSubnets = go_shl1 hostBits
         in if index \<ge> maxSubnets
            then Inl (Err (''no more subnets available (max: '' @ show_int maxSubnets @ '')''))
            else Inr (ipString (subnet_bytes prefixLen index ip) @ ''/'' @ show_int subnetLen))"

section \<open>The allocator\<close>

definition pool_name :: "string \<Rightarrow> int \<Rightarrow> string" where
  "pool_name prefx prefixLen = prefx @ ''/'' @ show_int prefixLen"

definition RegisterPool ::
    "'r redis \<Rightarrow> (string \<Rightarrow> nat list option) \<Rightarrow> string \<Rightarrow> int \<Rightarrow> 'r \<Rightarrow> go_err option \<times> 'r" where
  "RegisterPool R parseIP prefx prefixLen st =
     (if prefixLen < 48 \<or> prefixLen > 64 then (Some (Err ''prefix length must be between 48 and 64''), st)
      else if parseIP prefx = None then (Some (Err (''invalid IPv6 prefix: '' @ prefx)), st)
      else case cHSet R (''subnet_pool:'' @ pool_name prefx prefixLen)
          [(''prefix'', prefx), (''prefix_len'', show_int prefixLen), (''allocated'', ''0'')] st of
        (res, st') \<Rightarrow> (cmd_err res, st'))"

definition Allocate ::
    "'r redis \<Rightarrow> (string \<Rightarrow> nat list option) \<Rightarrow> (nat list \<Rightarrow> string) \<Rightarrow> string \<Rightarrow> string \<Rightarrow> int \<Rightarrow> 'r \<Rightarrow> (go_err + string) \<times> 'r" where
  "Allocate R parseIP ipString nodeID prefx prefixLen st =
     (let poolKey = ''subnet_pool:'' @ pool_name prefx prefixLen;
          allocKey = ''subnet_alloc:'' @ pool_name prefx prefixLen
      in case cExists R poolKey st of (ex, st1) \<Rightarrow>
      if reply_or 0 ex = 0 then (Inl (Err (''subnet pool not found: '' @ pool_name prefx prefixLen)), st1) else
      (case cHGet R allocKey nodeID st1 of (existing, st2) \<Rightarrow>
       if reply_or '''' existing \<noteq> '''' then (Inr (reply_or '''' existing), st2) else
       (case cHLen R allocKey st2 of
          (Inl e, st3) \<Rightarrow> (Inl (RErr e), st3)
        | (Inr n, st3) \<Rightarrow>
            (case calculateSubnet parseIP ipString prefx prefixLen n of
               Inl e \<Rightarrow> (Inl e, st3)
             | Inr subnet \<Rightarrow>
                 (case cHSet R allocKey [(nodeID, subnet)] st3 of
                    (Inl e, st4) \<Rightarrow> (Inl (RErr e), st4)
                  | (Inr _, st4) \<Rightarrow> (Inr subnet, snd (cHIncrBy R poolKey ''allocated'' 1 st4)))))))"

text \<open>The key of the pool, from that of its allocations.\<close>

definition pool_of_alloc :: "string \<Rightarrow> string" where
  "pool_of_alloc key = (case str_index key ''subnet_alloc:'' of None \<Rightarrow> key
     | Some i \<Rightarrow> take i key @ ''subnet_pool:'' @ drop (i + 13) key)"

definition alloc_of_pool :: "string \<Rightarrow> string" where
  "alloc_of_pool key = (case str_index key ''subnet_pool:'' of None \<Rightarrow> key
     | Some i \<Rightarrow> take i key @ ''subnet_alloc:'' @ drop (i + 12) key)"

fun dealloc_loop :: "'r redis \<Rightarrow> string \<Rightarrow> string list \<Rightarrow> 'r \<Rightarrow> go_err option \<times> 'r" where
  "dealloc_loop R nodeID [] st = (None, st)"
| "dealloc_loop R nodeID (k # ks) st = (case cHExists R k nodeID st of (ex, st1) \<Rightarrow>
     if \<not> reply_or False ex then dealloc_loop R nodeID ks st1
     else (case cHDel R k nodeID st1 of
         (Inl e, st2) \<Rightarrow> (Some (RErr e), st2)
       | (Inr _, st2) \<Rightarrow> (None, snd (cHIncrBy R (pool_of_alloc k) ''allocated'' (- 1) st2))))"

definition Deallocate :: "'r redis \<Rightarrow> string \<Rightarrow> 'r \<Rightarrow> go_err option \<times> 'r" where
  "Deallocate R nodeID st = (case cKeys R ''subnet_alloc:*'' st of
       (Inl e, st1) \<Rightarrow> (Some (RErr e), st1)
     | (Inr keys, st1) \<Rightarrow> dealloc_loop R nodeID keys st1)"

fun subnet_lookup :: "'r redis \<Rightarrow> string \<Rightarrow> string list \<Rightarrow> 'r \<Rightarrow> (go_err + string) \<times> 'r" where
  "subnet_lookup R nodeID [] st = (Inl (Err (''no subnet allocated for node: '' @ nodeID)), st)"
| "subnet_lookup R nodeID (k # ks) st = (case cHGet R k nodeID st of (res, st1) \<Rightarrow>
     if reply_or '''' res \<noteq> '''' then (Inr (reply_or '''' res), st1) else subnet_lookup R nodeID ks st1)"

definition GetNodeSubnet :: "'r redis option \<Rightarrow> string \<Rightarrow> 'r \<Rightarrow> (go_err + string) \<times> 'r" where
  "GetNodeSubnet h nodeID st = (case h of
       None \<Rightarrow> (Inl (Err ''redis client not initialized''), st)
     | Some R \<Rightarrow> (case cKeys R ''subnet_alloc:*'' st of
         (Inl e, st1) \<Rightarrow> (Inl (RErr e), st1)
       | (Inr keys, st1) \<Rightarrow> subnet_lookup R nodeID keys st1))"

record subnetPoolInfo =
  sp_Prefix :: string
  sp_PrefixLen :: string
  sp_Allocated :: string
  sp_Allocations :: "(string \<times> string) list"

definition or_empty :: "string option \<Rightarrow> string" where
  "or_empty x = (case x of None \<Rightarrow> '''' | Some s \<Rightarrow> s)"

definition ListPools :: "'r redis \<Rightarrow> 'r \<Rightarrow> (go_err + subnetPoolInfo list) \<times> 'r" where
  "ListPools R st = (case cKeys R ''subnet_pool:*'' st of
       (Inl e, st1) \<Rightarrow> (Inl (RErr e), st1)
     | (Inr keys, st1) \<Rightarrow> (case each (\<lambda>k s. case cHGetAll R k s of
           (Inl e, s1) \<Rightarrow> (None, s1)
         | (Inr data, s1) \<Rightarrow> (case cHGetAll R (alloc_of_pool k) s1 of (al, s2) \<Rightarrow>
             (Some \<lparr>sp_Prefix = or_empty (map_of data ''prefix''), sp_PrefixLen = or_empty (map_of data ''prefix_len''),
                sp_Allocated = or_empty (map_of data ''allocated''), sp_Allocations = reply_or [] al\<rparr>, s2))) keys st1 of
         (infos, st2) \<Rightarrow> (Inr infos, st2)))"

section \<open>Lemmas\<close>

lemma put_index_length [simp]: "length (put_index b i ip) = length ip"
  by (induction b i ip rule: put_index.induct) (subst put_index.simps, simp)

lemma put_index_0: "put_index b 0 ip = ip"
  by (subst put_index.simps) simp

lemma put_index_byte:
  assumes "0 \<le> i" and "i < 256" and "b < 16"
  shows "put_index b i ip = ip[15 - b := (ip ! (15 - b)) OR nat i]"
proof (cases "i = 0")
  case True
  then show ?thesis by (simp add: put_index_0)
next
  case False
  with assms have "i div 256 = 0" "i mod 256 = i" "i > 0" by simp_all
  with assms show ?thesis by (subst put_index.simps) (simp add: put_index_0)
qed

lemma put_index_bytes:
  assumes "0 \<le> i" and "i < 65536" and "b < 15"
  shows "put_index b i ip = ip[15 - b := (ip ! (15 - b)) OR nat (i mod 256), 14 - b := (ip ! (14 - b)) OR nat (i div 256)]"
proof (cases "i = 0")
  case True
  then show ?thesis by (simp add: put_index_0)
next
  case False
  have "put_index b i ip = put_index (Suc b) (i div 256) (ip[15 - b := (ip ! (15 - b)) OR nat (i mod 256)])"
    using assms False by (subst put_index.simps) simp
  also have "\<dots> = ip[15 - b := (ip ! (15 - b)) OR nat (i mod 256), 14 - b := (ip ! (14 - b)) OR nat (i div 256)]"
    using assms by (subst put_index_byte) (auto simp: nth_list_update)
  finally show ?thesis .
qed

text \<open>The index that fits the pool, and the bytes it goes to.\<close>

lemma subnet_bytes_fit:
  assumes "48 \<le> pl" and "pl \<le> 64" and "0 \<le> i" and "i < 2 ^ nat (64 - pl)" and "length ip = 16"
  shows "take 8 (subnet_bytes pl i ip) = take 8 ip"
    and "ip ! 8 = 0 \<Longrightarrow> ip ! 9 = 0 \<Longrightarrow>
      i = (if pl < 56 then int (subnet_bytes pl i ip ! 9) + 256 * int (subnet_bytes pl i ip ! 8) else int (subnet_bytes pl i ip ! 8))"
proof -
  consider "pl < 56" | "56 \<le> pl" "pl < 64" | "pl = 64" using assms(2) by linarith
  then have "take 8 (subnet_bytes pl i ip) = take 8 ip \<and> (ip ! 8 = 0 \<longrightarrow> ip ! 9 = 0 \<longrightarrow>
      i = (if pl < 56 then int (subnet_bytes pl i ip ! 9) + 256 * int (subnet_bytes pl i ip ! 8) else int (subnet_bytes pl i ip ! 8)))"
  proof cases
    case 1
    have "pl sdiv 8 = 6" using 1 assms(1) by (simp add: signed_divide_int_def sgn_if)
    moreover have "i < 2 ^ 16" using assms(1,4) power_increasing [of "nat (64 - pl)" 16 "2 :: int"] by (simp add: nat_le_iff)
    moreover have "0 \<le> i div 256" using assms(3) by simp
    ultimately show ?thesis using assms(3,5) 1 by (simp add: subnet_bytes_def put_index_bytes)
  next
    case 2
    have "pl sdiv 8 = 7" using 2 by (simp add: signed_divide_int_def sgn_if)
    moreover have "i < 2 ^ 8" using 2 assms(4) power_increasing [of "nat (64 - pl)" 8 "2 :: int"] by (simp add: nat_le_iff)
    ultimately show ?thesis using assms(3,5) 2 by (simp add: subnet_bytes_def put_index_byte)
  next
    case 3
    then have "i = 0" using assms(3,4) by simp
    then show ?thesis using 3 by (simp add: subnet_bytes_def put_index_0)
  qed
  then show "take 8 (subnet_bytes pl i ip) = take 8 ip"
    "ip ! 8 = 0 \<Longrightarrow> ip ! 9 = 0 \<Longrightarrow>
      i = (if pl < 56 then int (subnet_bytes pl i ip ! 9) + 256 * int (subnet_bytes pl i ip ! 8) else int (subnet_bytes pl i ip ! 8))"
    by blast+
qed

lemma calculateSubnet_ok:
  assumes "calculateSubnet parseIP ipString p pl i = Inr s" and "parseIP p = Some ip" and "48 \<le> pl" and "pl \<le> 64"
  shows "i < 2 ^ nat (64 - pl)" and "s = ipString (subnet_bytes pl i ip) @ ''/64''"
proof -
  have h: "i64 (64 - pl) = 64 - pl" using assms(3,4) by (simp add: i64_def)
  have "(2 :: int) ^ nat (64 - pl) \<le> 2 ^ 16" using assms(3) by (intro power_increasing) simp_all
  then have l: "(2 :: int) ^ nat (64 - pl) < 2 ^ 63" by simp
  have "- (2 ^ 63) \<le> (0 :: int)" "(0 :: int) \<le> 2 ^ nat (64 - pl)" by simp_all
  then have "- (2 ^ 63) \<le> (2 :: int) ^ nat (64 - pl)" by (rule order_trans)
  then have "i64 (2 ^ nat (64 - pl)) = 2 ^ nat (64 - pl)" using l by (rule i64_id_bounds)
  moreover have "show_int 64 = ''64''" by code_simp
  ultimately show "i < 2 ^ nat (64 - pl)" "s = ipString (subnet_bytes pl i ip) @ ''/64''"
    using assms h by (auto simp: calculateSubnet_def go_shl1_def Let_def split: if_splits)
qed

text \<open>A server that keeps hashes as maps: \<open>M s k\<close> is the hash at \<open>k\<close>.\<close>

definition map_server :: "'r redis \<Rightarrow> ('r \<Rightarrow> string \<Rightarrow> string \<Rightarrow> string option) \<Rightarrow> bool" where
  "map_server R M \<longleftrightarrow>
     (\<forall>s k f. cHGet R k f s = (case M s k f of None \<Rightarrow> Inl RedisNil | Some v \<Rightarrow> Inr v, s)) \<and>
     (\<forall>s k. cHLen R k s = (Inr (int (card (dom (M s k)))), s)) \<and>
     (\<forall>s k. M s k \<noteq> Map.empty \<longrightarrow> cExists R k s = (Inr 1, s)) \<and>
     (\<forall>s k f. cHExists R k f s = (Inr (M s k f \<noteq> None), s)) \<and>
     (\<forall>s k f v. \<exists>x s'. cHSet R k [(f, v)] s = (Inr x, s') \<and> M s' = (M s)(k := (M s k)(f \<mapsto> v))) \<and>
     (\<forall>s k f. \<exists>x s'. cHDel R k f s = (Inr x, s') \<and> M s' = (M s)(k := (M s k)(f := None))) \<and>
     (\<forall>s k f d. (\<forall>j. j \<noteq> k \<longrightarrow> M (snd (cHIncrBy R k f d s)) j = M s j) \<and>
        (M s k \<noteq> Map.empty \<longrightarrow> M (snd (cHIncrBy R k f d s)) k \<noteq> Map.empty))"

lemma map_serverD:
  assumes "map_server R M"
  shows "cHGet R k f s = (case M s k f of None \<Rightarrow> Inl RedisNil | Some v \<Rightarrow> Inr v, s)"
    and "cHLen R k s = (Inr (int (card (dom (M s k)))), s)" and "M s k \<noteq> Map.empty \<Longrightarrow> cExists R k s = (Inr 1, s)"
    and "cHExists R k f s = (Inr (M s k f \<noteq> None), s)"
    and "\<exists>x s'. cHSet R k [(f, v)] s = (Inr x, s') \<and> M s' = (M s)(k := (M s k)(f \<mapsto> v))"
    and "\<exists>x s'. cHDel R k f s = (Inr x, s') \<and> M s' = (M s)(k := (M s k)(f := None))"
    and "j \<noteq> k \<Longrightarrow> M (snd (cHIncrBy R k f d s)) j = M s j"
    and "M s k \<noteq> Map.empty \<Longrightarrow> M (snd (cHIncrBy R k f d s)) k \<noteq> Map.empty"
  using assms unfolding map_server_def by simp_all

lemma has_prefix_app [simp]: "has_prefix (p @ s) p"
  by (simp add: has_prefix_def)

lemma pool_of_alloc_app: "pool_of_alloc (''subnet_alloc:'' @ n) = ''subnet_pool:'' @ n"
  by (simp add: pool_of_alloc_def has_prefix_def)

lemma dealloc_loop_finds:
  assumes "map_server R M" and "a1 \<in> set ks" and "M st a1 n \<noteq> None" and "\<forall>k \<in> set ks. k \<noteq> a1 \<longrightarrow> M st k n = None"
  shows "\<exists>x s1. cHDel R a1 n st = (Inr x, s1) \<and> dealloc_loop R n ks st = (None, snd (cHIncrBy R (pool_of_alloc a1) ''allocated'' (- 1) s1))"
proof -
  note he = map_serverD(4) [OF assms(1)]
  obtain x s1 where d: "cHDel R a1 n st = (Inr x, s1)" using map_serverD(6) [OF assms(1)] by blast
  have "dealloc_loop R n ks st = (None, snd (cHIncrBy R (pool_of_alloc a1) ''allocated'' (- 1) s1))"
    using assms(2,4)
  proof (induction ks)
    case (Cons k ks)
    then show ?case using assms(3) by (cases "k = a1") (auto simp: he d)
  qed simp
  with d show ?thesis by blast
qed

lemma Allocate_new:
  assumes "pk = ''subnet_pool:'' @ pool_name p pl" and "ak = ''subnet_alloc:'' @ pool_name p pl"
    and "cExists R pk st = (Inr 1, st)" and "cHGet R ak n st = (Inl RedisNil, st)" and "cHLen R ak st = (Inr k, st)"
    and "cHSet R ak [(n, sub)] st = (Inr y, st3)" and "calculateSubnet parseIP ipString p pl k = Inr sub"
  shows "Allocate R parseIP ipString n p pl st = (Inr sub, snd (cHIncrBy R pk ''allocated'' 1 st3))"
  using assms(3-) unfolding Allocate_def Let_def assms(1,2) by (simp only: prod.case reply_or.simps sum.case one_neq_zero if_False simp_thms)

section \<open>Properties\<close>

text \<open>The subnets of a pool are different addresses of one network: the index is written below the
  first 64 bits, so two nodes get different bytes but both are in the /64 of the prefix itself.\<close>

theorem subnets_share_network:
  assumes "parseIP p = Some ip" and "length ip = 16" and "ip ! 8 = 0" and "ip ! 9 = 0" and "48 \<le> pl" and "pl \<le> 64"
    and "calculateSubnet parseIP ipString p pl i = Inr s" and "calculateSubnet parseIP ipString p pl j = Inr t"
    and "0 \<le> i" and "i < j"
  shows "s = ipString (subnet_bytes pl i ip) @ ''/64'' \<and> t = ipString (subnet_bytes pl j ip) @ ''/64'' \<and>
    subnet_bytes pl i ip \<noteq> subnet_bytes pl j ip \<and>
    take 8 (subnet_bytes pl i ip) = take 8 ip \<and> take 8 (subnet_bytes pl j ip) = take 8 ip"
proof -
  note c = calculateSubnet_ok [OF assms(7,1,5,6)] calculateSubnet_ok [OF assms(8,1,5,6)]
  have j: "0 \<le> j" using assms(9,10) by simp
  note f = subnet_bytes_fit [OF assms(5,6,9) c(1) assms(2)] and g = subnet_bytes_fit [OF assms(5,6) j c(3) assms(2)]
  have "subnet_bytes pl i ip \<noteq> subnet_bytes pl j ip"
    using f(2) [OF assms(3,4)] g(2) [OF assms(3,4)] assms(10) by (metis less_irrefl)
  with c f(1) g(1) show ?thesis by blast
qed

theorem subnets_share_network_witness:
  "\<exists>s t. calculateSubnet (\<lambda>_. Some ([32, 1, 13, 184] @ replicate 12 0)) (map char_of) ''2001:db8::'' 48 1 = Inr s \<and>
    calculateSubnet (\<lambda>_. Some ([32, 1, 13, 184] @ replicate 12 0)) (map char_of) ''2001:db8::'' 48 2 = Inr t \<and>
    take 8 (subnet_bytes 48 1 ([32, 1, 13, 184] @ replicate 12 0)) = take 8 (subnet_bytes 48 2 ([32, 1, 13, 184] @ replicate 12 0))"
proof -
  let ?ip = "[32, 1, 13, 184] @ replicate 12 0 :: nat list"
  have ip: "length ?ip = 16" "?ip ! 8 = 0" "?ip ! 9 = 0" by (simp_all add: numeral_eq_Suc)
  obtain s t where st: "calculateSubnet (\<lambda>_. Some ?ip) (map char_of) ''2001:db8::'' 48 1 = Inr s"
    "calculateSubnet (\<lambda>_. Some ?ip) (map char_of) ''2001:db8::'' 48 2 = Inr t"
    by (simp add: calculateSubnet_def go_shl1_def i64_def Let_def)
  then show ?thesis using subnets_share_network [OF refl ip _ _ st] by simp
qed

text \<open>After a node gives its subnet back, the next one allocated is a subnet still in use: the index
  is the number of allocations left, which is that of the node allocated last.\<close>

theorem deallocated_index_collides:
  assumes "map_server R M" and "ak = ''subnet_alloc:'' @ pool_name p pl"
    and "M st (''subnet_pool:'' @ pool_name p pl) \<noteq> Map.empty"
    and "cKeys R ''subnet_alloc:*'' st = (Inr ks, st)" and "ak \<in> set ks" and "\<forall>k \<in> set ks. k \<noteq> ak \<longrightarrow> M st k a = None"
    and "finite (dom (M st ak))" and "M st ak a \<noteq> None" and "M st ak c = None" and "a \<noteq> b" and "M st ak b = Some sub"
    and "calculateSubnet parseIP ipString p pl (int (card (dom (M st ak))) - 1) = Inr sub"
    and "Deallocate R a st = (err, s1)" and "Allocate R parseIP ipString c p pl s1 = (res, s2)"
  shows "err = None \<and> res = Inr sub \<and> M s2 ak b = Some sub \<and> M s2 ak c = Some sub"
proof -
  let ?pk = "''subnet_pool:'' @ pool_name p pl"
  have pk: "?pk \<noteq> ak" by (simp add: assms(2))
  from dealloc_loop_finds [OF assms(1,5,8,6)] obtain x s0 where d: "cHDel R ak a st = (Inr x, s0)"
    and l: "dealloc_loop R a ks st = (None, snd (cHIncrBy R ?pk ''allocated'' (- 1) s0))"
    by (auto simp: assms(2) pool_of_alloc_app simp del: append.simps append_Cons)
  have s1: "err = None" "s1 = snd (cHIncrBy R ?pk ''allocated'' (- 1) s0)"
    using assms(13) l by (simp_all add: Deallocate_def assms(4))
  have m0: "M s0 = (M st)(ak := (M st ak)(a := None))" using map_serverD(6) [OF assms(1), of ak a st] d by auto
  have m1: "M s1 ak = (M st ak)(a := None)"
    unfolding s1 using map_serverD(7) [OF assms(1), of ak ?pk] pk m0 by simp
  have "M s0 ?pk \<noteq> Map.empty" using m0 pk assms(3) by simp
  then have p1: "M s1 ?pk \<noteq> Map.empty" unfolding s1 by (rule map_serverD(8) [OF assms(1)])
  have "dom (M s1 ak) = dom (M st ak) - {a}" using m1 by auto
  moreover have "a \<in> dom (M st ak)" using assms(8) by blast
  ultimately have n: "int (card (dom (M s1 ak))) = int (card (dom (M st ak))) - 1"
    using card_Suc_Diff1 [OF assms(7), of a] by simp
  have g: "cHGet R ak c s1 = (Inl RedisNil, s1)"
    using map_serverD(1) [OF assms(1), of ak c s1] m1 assms(9) by simp
  have ln: "cHLen R ak s1 = (Inr (int (card (dom (M st ak))) - 1), s1)"
    using map_serverD(2) [OF assms(1), of ak s1] n by simp
  obtain y s3 where h: "cHSet R ak [(c, sub)] s1 = (Inr y, s3)" and m3: "M s3 = (M s1)(ak := (M s1 ak)(c \<mapsto> sub))"
    using map_serverD(5) [OF assms(1)] by blast
  have "Allocate R parseIP ipString c p pl s1 = (Inr sub, snd (cHIncrBy R ?pk ''allocated'' 1 s3))"
    by (rule Allocate_new [OF refl assms(2) map_serverD(3) [OF assms(1), OF p1] g ln h assms(12)])
  then have r: "res = Inr sub" "s2 = snd (cHIncrBy R ?pk ''allocated'' 1 s3)" using assms(14) by simp_all
  have "M s2 ak = M s3 ak" unfolding r using map_serverD(7) [OF assms(1), of ak ?pk] pk by simp
  then show ?thesis using m3 m1 s1(1) r(1) assms(10,11) by simp
qed

definition subnet_redis :: "mem redis" where
  "subnet_redis = mem_redis\<lparr>cKeys := (\<lambda>p s. (Inr [''subnet_alloc:p/48''], s))\<rparr>"

lemma subnet_map_server: "map_server subnet_redis (\<lambda>s k. map_of (m_hash s k))"
proof -
  have f: "map_of (filter (\<lambda>p. fst p \<noteq> x) xs) = (map_of xs)(x := None)" for x and xs :: "(string \<times> string) list"
    by (induction xs) (auto simp: fun_eq_iff)
  have d: "dom (map_of xs) = fst ` set xs" for xs :: "(string \<times> string) list" by (rule dom_map_of_conv_image_fst)
  show ?thesis unfolding map_server_def
    by (auto simp: subnet_redis_def mem_hset_def d f fun_eq_iff split: option.splits)
qed

definition subnet_demo :: mem where
  "subnet_demo = mem_empty\<lparr>m_hash := (\<lambda>_. [])(''subnet_pool:p/48'' := [(''allocated'', ''2'')],
     ''subnet_alloc:p/48'' := [(''a'', ''x''), (''b'', map char_of (subnet_bytes 48 1 (replicate 16 0)) @ ''/64'')])\<rparr>"

theorem deallocated_index_collides_witness:
  "\<exists>s1 s2 sub. Deallocate subnet_redis ''a'' subnet_demo = (None, s1) \<and>
    Allocate subnet_redis (\<lambda>_. Some (replicate 16 0)) (map char_of) ''c'' ''p'' 48 s1 = (Inr sub, s2) \<and>
    map_of (m_hash s2 ''subnet_alloc:p/48'') ''b'' = Some sub"
proof -
  let ?M = "\<lambda>s k. map_of (m_hash s k)" and ?sub = "map char_of (subnet_bytes 48 1 (replicate 16 0)) @ ''/64''"
  have pn: "pool_name ''p'' 48 = ''p/48''" by code_simp
  obtain err s1 where d: "Deallocate subnet_redis ''a'' subnet_demo = (err, s1)" by fastforce
  obtain res s2 where a: "Allocate subnet_redis (\<lambda>_. Some (replicate 16 0)) (map char_of) ''c'' ''p'' 48 s1 = (res, s2)" by fastforce
  have "err = None \<and> res = Inr ?sub \<and> ?M s2 ''subnet_alloc:p/48'' ''b'' = Some ?sub \<and> ?M s2 ''subnet_alloc:p/48'' ''c'' = Some ?sub"
  proof (rule deallocated_index_collides [OF subnet_map_server, where a = "''a''" and p = "''p''" and pl = 48 and st = subnet_demo
        and ks = "[''subnet_alloc:p/48'']"])
    have "show_int 64 = ''64''" by code_simp
    then show "calculateSubnet (\<lambda>_. Some (replicate 16 0)) (map char_of) ''p'' 48 (int (card (dom (?M subnet_demo ''subnet_alloc:p/48''))) - 1) = Inr ?sub"
      by (simp add: subnet_demo_def calculateSubnet_def go_shl1_def i64_def Let_def)
  qed (use d a in \<open>simp_all add: pn subnet_demo_def subnet_redis_def\<close>)
  with d a show ?thesis by auto
qed

end
