(* ===== verification/Sessions.thy ===== *)
theory Sessions
  imports Http Redis_Api Keys
begin

text \<open>
  Sessions: those that pin a client to a node and survive the loss of the node
  (\<open>matchmaker/session_persist.go\<close>), the administrators' sessions and the request schemas
  (\<open>gateway/schema_session.go\<close>). A \<open>sync.RWMutex\<close> held for reading is the number of times it is held:
  releasing it when it is not held is a fatal error that no handler recovers from.
\<close>

section \<open>Sessions pinned to a node\<close>

record sessionInfo =
  se_SessionID :: string
  se_NodeID :: string
  se_UserID :: string
  se_CreatedAt :: time
  se_LastUsedAt :: time
  se_ExpiresAt :: time
  se_FailoverNode :: string

record sessionPersistence =
  sp_sessions :: "string \<rightharpoonup> sessionInfo"
  sp_defaultTTL :: duration

definition serializeSession :: "sessionInfo \<Rightarrow> string" where
  "serializeSession s = se_SessionID s @ ''|'' @ se_NodeID s @ ''|'' @ se_UserID s @ ''|'' @
     show_int (unix_now (se_CreatedAt s)) @ ''|'' @ show_int (unix_now (se_ExpiresAt s)) @ ''|'' @ se_FailoverNode s"

definition persist_key :: "string \<Rightarrow> string" where
  "persist_key sessionID = ''session_persist:'' @ sessionID"

definition CreateSession ::
    "'r redis option \<Rightarrow> time \<Rightarrow> string \<Rightarrow> string \<Rightarrow> string \<Rightarrow> string \<Rightarrow> sessionPersistence \<times> 'r \<Rightarrow> sessionPersistence \<times> 'r" where
  "CreateSession h now sessionID nodeID userID failoverNode = (\<lambda>(sp, st).
     let session = \<lparr>se_SessionID = sessionID, se_NodeID = nodeID, se_UserID = userID, se_CreatedAt = now,
           se_LastUsedAt = now, se_ExpiresAt = now + sp_defaultTTL sp, se_FailoverNode = failoverNode\<rparr>
     in (sp\<lparr>sp_sessions := (sp_sessions sp)(sessionID \<mapsto> session)\<rparr>,
         (case h of None \<Rightarrow> st
          | Some R \<Rightarrow> snd (cSet R (persist_key sessionID) (serializeSession session) (sp_defaultTTL sp) st))))"

text \<open>The lock, as the number of readers that hold it.\<close>

definition RLock :: "nat \<Rightarrow> nat" where "RLock n = Suc n"

definition RUnlock :: "nat \<Rightarrow> nat option" where
  "RUnlock n = (case n of 0 \<Rightarrow> None | Suc m \<Rightarrow> Some m)"

text \<open>
  The second half of the lookup, when the session is not in memory or has expired there: the inner
  block locks again, and releases twice when it finds a session that has expired. \<open>now2\<close> is the
  instant of the second reading of the clock.
\<close>

definition persist_retry ::
    "time \<Rightarrow> string \<Rightarrow> nat \<Rightarrow> sessionPersistence \<Rightarrow> (string option \<times> nat) option" where
  "persist_retry now2 sessionID n0 sp =
     (let n1 = RLock n0
      in case sp_sessions sp sessionID of
           Some session \<Rightarrow> Option.bind (RUnlock n1) (\<lambda>n2.
             if now2 < se_ExpiresAt session then Some (Some (se_NodeID session), n2)
             else Option.bind (RUnlock n2) (\<lambda>n3. Some (None, n3)))
         | None \<Rightarrow> Option.bind (RUnlock n1) (\<lambda>n2. Some (None, n2)))"

text \<open>The lookup with \<open>n\<close> other readers holding the lock; \<open>None\<close> is the fatal error.\<close>

definition GetNodeForSession ::
    "'r redis option \<Rightarrow> time \<Rightarrow> time \<Rightarrow> string \<Rightarrow> nat \<Rightarrow> sessionPersistence \<times> 'r
      \<Rightarrow> (string option \<times> nat \<times> sessionPersistence \<times> 'r) option" where
  "GetNodeForSession h now now2 sessionID n = (\<lambda>(sp, st).
     let n0 = RLock n;
         done = (\<lambda>res k sp' st'. map_option (\<lambda>k'. (res, k', sp', st')) (RUnlock k));
         again = (case h of
             None \<Rightarrow> done None n0 sp st
           | Some R \<Rightarrow> (case cGet R (persist_key sessionID) st of
               (Inl e, st1) \<Rightarrow> done None n0 sp st1
             | (Inr _, st1) \<Rightarrow> Option.bind (persist_retry now2 sessionID n0 sp) (\<lambda>(res, k). done res k sp st1)))
     in case sp_sessions sp sessionID of
          Some session \<Rightarrow>
            if now < se_ExpiresAt session
            then done (Some (se_NodeID session)) n0
              (sp\<lparr>sp_sessions := (sp_sessions sp)(sessionID \<mapsto> session\<lparr>se_LastUsedAt := now\<rparr>)\<rparr>) st
            else again
        | None \<Rightarrow> again)"

definition GetFailoverNode :: "string \<Rightarrow> sessionPersistence \<Rightarrow> string" where
  "GetFailoverNode sessionID sp = (case sp_sessions sp sessionID of Some s \<Rightarrow> se_FailoverNode s | None \<Rightarrow> '''')"

definition Failover :: "string \<Rightarrow> sessionPersistence \<Rightarrow> bool \<times> sessionPersistence" where
  "Failover sessionID sp = (case sp_sessions sp sessionID of
       None \<Rightarrow> (False, sp)
     | Some s \<Rightarrow> if se_FailoverNode s \<noteq> ''''
         then (True, sp\<lparr>sp_sessions := (sp_sessions sp)(sessionID \<mapsto> s\<lparr>se_NodeID := se_FailoverNode s, se_FailoverNode := ''''\<rparr>)\<rparr>)
         else (False, sp))"

definition sp_DeleteSession :: "'r redis option \<Rightarrow> string \<Rightarrow> sessionPersistence \<times> 'r \<Rightarrow> sessionPersistence \<times> 'r" where
  "sp_DeleteSession h sessionID = (\<lambda>(sp, st). (sp\<lparr>sp_sessions := (sp_sessions sp)(sessionID := None)\<rparr>,
     (case h of None \<Rightarrow> st | Some R \<Rightarrow> snd (cDel R [persist_key sessionID] st))))"

text \<open>One tick of the sweep; the expired sessions are deleted from Redis too, in the order \<open>order\<close>.\<close>

definition sp_cleanup :: "'r redis option \<Rightarrow> string list \<Rightarrow> time \<Rightarrow> sessionPersistence \<times> 'r \<Rightarrow> sessionPersistence \<times> 'r" where
  "sp_cleanup h order now = (\<lambda>(sp, st).
     let gone = (\<lambda>s. se_ExpiresAt s < now)
     in (sp\<lparr>sp_sessions := purge gone (sp_sessions sp)\<rparr>,
         (case h of None \<Rightarrow> st
          | Some R \<Rightarrow> fold (\<lambda>k st. snd (cDel R [persist_key k] st))
              (filter (\<lambda>k. case sp_sessions sp k of None \<Rightarrow> False | Some s \<Rightarrow> gone s) order) st)))"

section \<open>Administrators' sessions\<close>

record adminSession =
  as_ID :: string
  as_Username :: string
  as_IP :: string
  as_UserAgent :: string
  as_CreatedAt :: time
  as_ExpiresAt :: time
  as_LastActive :: time

record adminSessions =
  asm_sessions :: "string \<rightharpoonup> adminSession"
  asm_timeout :: duration

definition NewAdminSessionManager :: "duration \<Rightarrow> adminSessions" where
  "NewAdminSessionManager timeout = \<lparr>asm_sessions = Map.empty, asm_timeout = (if timeout = 0 then 24 * go_hour else timeout)\<rparr>"

text \<open>The identifier is the time in nanoseconds since 1970, the model's instant.\<close>

definition asm_CreateSession :: "time \<Rightarrow> string \<Rightarrow> string \<Rightarrow> string \<Rightarrow> adminSessions \<Rightarrow> string \<times> adminSessions" where
  "asm_CreateSession now username ip userAgent m =
     (let sessionID = ''admin-'' @ show_int (i64 now);
          session = \<lparr>as_ID = sessionID, as_Username = username, as_IP = ip, as_UserAgent = userAgent,
            as_CreatedAt = now, as_ExpiresAt = now + asm_timeout m, as_LastActive = now\<rparr>
      in (sessionID, m\<lparr>asm_sessions := (asm_sessions m)(sessionID \<mapsto> session)\<rparr>))"

definition asm_GetSession :: "time \<Rightarrow> string \<Rightarrow> adminSessions \<Rightarrow> adminSession option \<times> adminSessions" where
  "asm_GetSession now sessionID m = (case asm_sessions m sessionID of
       None \<Rightarrow> (None, m)
     | Some s \<Rightarrow> if as_ExpiresAt s < now then (None, m)
         else (let s' = s\<lparr>as_LastActive := now\<rparr> in (Some s', m\<lparr>asm_sessions := (asm_sessions m)(sessionID \<mapsto> s')\<rparr>)))"

definition asm_DeleteSession :: "string \<Rightarrow> adminSessions \<Rightarrow> adminSessions" where
  "asm_DeleteSession sessionID m = m\<lparr>asm_sessions := (asm_sessions m)(sessionID := None)\<rparr>"

definition asm_ListSessions :: "string list \<Rightarrow> time \<Rightarrow> adminSessions \<Rightarrow> adminSession list" where
  "asm_ListSessions order now m = filter (\<lambda>s. now < as_ExpiresAt s) (List.map_filter (asm_sessions m) order)"

definition asm_cleanup :: "time \<Rightarrow> adminSessions \<Rightarrow> adminSessions" where
  "asm_cleanup now m = m\<lparr>asm_sessions := purge (\<lambda>s. as_ExpiresAt s < now) (asm_sessions m)\<rparr>"

text \<open>The outcome and the user the context carries on.\<close>

definition asm_Middleware :: "time \<Rightarrow> http_req \<Rightarrow> adminSessions \<Rightarrow> (outcome \<times> string option) \<times> adminSessions" where
  "asm_Middleware now r m = (let sessionID = rq_header r ''X-Admin-Session'' in
     if sessionID = '''' then ((Next, None), m)
     else (case asm_GetSession now sessionID m of
         (None, m') \<Rightarrow> ((Abort 401 ''Invalid or expired session'', None), m')
       | (Some s, m') \<Rightarrow> ((Next, Some (as_Username s)), m')))"

section \<open>Request schemas\<close>

text \<open>
  A rule of a schema: an object with a boolean \<open>required\<close>, an object without one, or something else,
  on which the type assertion panics.
\<close>

datatype schema_rule = RuleRequired bool | RuleOther | RuleNotObject

type_synonym schema = "(string \<times> schema_rule) list"

definition schema_key :: "string \<Rightarrow> string \<Rightarrow> string" where
  "schema_key endpoint meth = meth @ '':'' @ endpoint"

definition RegisterSchema :: "string \<Rightarrow> string \<Rightarrow> schema \<Rightarrow> (string \<rightharpoonup> schema) \<Rightarrow> (string \<rightharpoonup> schema)" where
  "RegisterSchema endpoint meth schema sv = sv(schema_key endpoint meth \<mapsto> schema)"

text \<open>The fields in the order the map is ranged over. The outer \<open>None\<close> is the panic.\<close>

fun check_fields :: "schema \<Rightarrow> string set \<Rightarrow> go_err option option" where
  "check_fields [] data = Some None"
| "check_fields ((field, rule) # rest) data = (case rule of
       RuleNotObject \<Rightarrow> None
     | RuleRequired True \<Rightarrow> if field \<notin> data then Some (Some (Err (''missing required field: '' @ field))) else check_fields rest data
     | _ \<Rightarrow> check_fields rest data)"

definition sv_Validate :: "(string \<rightharpoonup> schema) \<Rightarrow> string \<Rightarrow> string \<Rightarrow> string set \<Rightarrow> go_err option option" where
  "sv_Validate sv endpoint meth data = (case sv (schema_key endpoint meth) of
       None \<Rightarrow> Some None | Some schema \<Rightarrow> check_fields schema data)"

text \<open>\<open>body\<close> is the set of fields of the JSON object in the body, if it is one; a panic is answered with 500.\<close>

definition sv_Middleware :: "(string \<rightharpoonup> schema) \<Rightarrow> http_req \<Rightarrow> string set option \<Rightarrow> outcome" where
  "sv_Middleware sv r body =
     (if rq_method r = ''GET'' \<or> rq_method r = ''DELETE'' then Next
      else case body of None \<Rightarrow> Next
        | Some data \<Rightarrow> (case sv_Validate sv (rq_path r) (rq_method r) data of
            None \<Rightarrow> Abort 500 ''''
          | Some None \<Rightarrow> Next
          | Some (Some e) \<Rightarrow> Abort 400 ''Validation failed''))"

section \<open>Expiry\<close>

text \<open>Both stores keep the contract of lookups and sweeps.\<close>

interpretation persist_expiry: expiring "\<lambda>t s. se_ExpiresAt s < t" "\<lambda>t s. \<not> t < se_ExpiresAt s"
  by unfold_locales simp

interpretation admin_expiry: expiring "\<lambda>t s. as_ExpiresAt s < t" "\<lambda>t s. as_ExpiresAt s < t"
  by unfold_locales simp

lemma failover_once:
  assumes "sp_sessions sp i = Some s" and "se_FailoverNode s \<noteq> ''''"
  shows "\<exists>sp'. Failover i sp = (True, sp') \<and> fst (Failover i sp') = False \<and> GetFailoverNode i sp' = '''' \<and>
    (now < se_ExpiresAt s \<longrightarrow> (\<exists>x. GetNodeForSession h now now2 i n (sp', st) = Some (Some (se_FailoverNode s), n, x)))"
  using assms by (auto simp: Failover_def GetFailoverNode_def GetNodeForSession_def RLock_def RUnlock_def Let_def)

lemma create_then_lookup:
  assumes "now < t + sp_defaultTTL sp"
  shows "\<exists>x. GetNodeForSession h now now2 i n (CreateSession h t i nd u f (sp, st)) = Some (Some nd, n, x)"
  using assms by (simp add: CreateSession_def GetNodeForSession_def RLock_def RUnlock_def Let_def)

lemma admin_sweep_invisible:
  assumes "t \<le> t'"
  shows "fst (asm_GetSession t' i (asm_cleanup t m)) = fst (asm_GetSession t' i m)"
proof (cases "asm_sessions m i")
  case (Some s)
  then show ?thesis
    using assms by (auto simp: asm_GetSession_def asm_cleanup_def purge_def Let_def)
qed (simp add: asm_GetSession_def asm_cleanup_def purge_def)

section \<open>Properties\<close>

text \<open>The lookup of a session gives the lock back exactly as it found it, except when the session has
  expired in memory while its Redis key is still there: then one release too many is a fatal error of
  the process if nobody else is reading, and takes another reader's hold away otherwise.\<close>

theorem session_lookup_lock:
  "if \<exists>s v. sp_sessions sp i = Some s \<and> se_ExpiresAt s \<le> now \<and> se_ExpiresAt s \<le> now2 \<and> fst (cGet R (persist_key i) st) = Inr v
   then GetNodeForSession (Some R) now now2 i n (sp, st) = (if n = 0 then None
        else Some (None, n - 1, sp, snd (cGet R (persist_key i) st)))
   else \<exists>r x. GetNodeForSession (Some R) now now2 i n (sp, st) = Some (r, n, x)"
proof (cases "sp_sessions sp i")
  case None
  then show ?thesis
    by (auto simp: GetNodeForSession_def persist_retry_def RLock_def RUnlock_def Let_def split: prod.splits sum.splits)
next
  case (Some s)
  then show ?thesis
    by (cases n) (auto simp: GetNodeForSession_def persist_retry_def RLock_def RUnlock_def Let_def split: prod.splits sum.splits)
qed

end
