(* ===== verification/Retry.thy ===== *)
theory Retry
  imports Redis_Api
begin

text \<open>
  Retrying: \<open>gateway/retry.go\<close>, the node retry handler of \<open>gateway/cache.go\<close> and the delivery loop of
  \<open>gateway/timeout_webhook.go\<close>. The operation retried is a function of the attempt and of a state of
  its own; a context is what its \<open>Done\<close> channel says before each attempt and during each pause.
  \<open>math.Pow\<close> is a parameter, and so is the conversion of a float that does not fit 64 bits. Attempts
  are counted in \<open>int\<close>: a loop of \<open>2 ^ 63\<close> attempts is not told from an endless one.
\<close>

section \<open>Which errors are retried\<close>

fun contains_from :: "nat \<Rightarrow> string \<Rightarrow> string \<Rightarrow> bool" where
  "contains_from k s sub = (take (length sub) s = sub \<or> (case k of 0 \<Rightarrow> False | Suc j \<Rightarrow> contains_from j (drop 1 s) sub))"

declare contains_from.simps [simp del]

text \<open>The loop \<open>for i := 0; i <= len(s)-len(substr); i++\<close> over the suffixes of \<open>s\<close>.\<close>

definition containsAny :: "string \<Rightarrow> string \<Rightarrow> bool" where
  "containsAny s sub \<longleftrightarrow> length sub \<le> length s \<and> contains_from (length s - length sub) s sub"

definition containsString :: "string \<Rightarrow> string \<Rightarrow> bool" where
  "containsString s sub \<longleftrightarrow> length sub \<le> length s \<and>
     (s = sub \<or> (length sub < length s \<and>
       (take (length sub) s = sub \<or> drop (length s - length sub) s = sub \<or> containsAny s sub)))"

record retryConfig =
  rt_MaxRetries :: int
  rt_InitialDelay :: duration
  rt_MaxDelay :: duration
  rt_Multiplier :: f64
  rt_MaxJitter :: duration
  rt_RetryableErrors :: "string list"

definition DefaultRetryConfig :: retryConfig where
  "DefaultRetryConfig = \<lparr>rt_MaxRetries = 3, rt_InitialDelay = 100000000, rt_MaxDelay = 5 * go_second,
     rt_Multiplier = f_int 2, rt_MaxJitter = 100000000,
     rt_RetryableErrors = [''connection refused'', ''connection reset'', ''timeout'', ''i/o timeout'',
       ''no route to host'', ''network unreachable'']\<rparr>"

definition NewRetryHandler :: "retryConfig \<Rightarrow> retryConfig" where
  "NewRetryHandler config = (if rt_MaxRetries config = 0 then DefaultRetryConfig else config)"

text \<open>The error itself when it is not to be retried.\<close>

definition isRetryableError :: "retryConfig \<Rightarrow> go_err option \<Rightarrow> go_err option" where
  "isRetryableError cfg err = (case err of None \<Rightarrow> None
     | Some e \<Rightarrow> if \<exists>p \<in> set (rt_RetryableErrors cfg). containsString (err_text e) p then None else Some e)"

definition SetMaxRetries :: "int \<Rightarrow> retryConfig \<Rightarrow> retryConfig" where
  "SetMaxRetries n cfg = cfg\<lparr>rt_MaxRetries := n\<rparr>"

definition SetRetryableErrors :: "string list \<Rightarrow> retryConfig \<Rightarrow> retryConfig" where
  "SetRetryableErrors es cfg = cfg\<lparr>rt_RetryableErrors := es\<rparr>"

section \<open>Delays\<close>

definition backoff :: "(f64 \<Rightarrow> nat \<Rightarrow> f64) \<Rightarrow> (f64 \<Rightarrow> int) \<Rightarrow> retryConfig \<Rightarrow> nat \<Rightarrow> duration" where
  "backoff mpow wild cfg n =
     (let d = i64 (rt_InitialDelay cfg * f_to_i64 wild (mpow (rt_Multiplier cfg) n))
      in if d > rt_MaxDelay cfg then rt_MaxDelay cfg else d)"

definition calculateDelay :: "(f64 \<Rightarrow> nat \<Rightarrow> f64) \<Rightarrow> (f64 \<Rightarrow> int) \<Rightarrow> retryConfig \<Rightarrow> nat \<Rightarrow> duration" where
  "calculateDelay mpow wild cfg attempt =
     (let delay = backoff mpow wild cfg attempt
      in if rt_MaxJitter cfg > 0 then i64 (delay + rt_MaxJitter cfg div (int attempt + 1)) else delay)"

section \<open>The retry loop\<close>

record retryContext =
  cx_done :: "nat \<Rightarrow> bool"
  cx_pause :: "nat \<Rightarrow> bool"
  cx_err :: go_err

text \<open>The result, the calls of \<open>onRetry\<close> and the state of the operation.\<close>

function retry_loop ::
    "retryConfig \<Rightarrow> (nat \<Rightarrow> duration) \<Rightarrow> retryContext \<Rightarrow> (nat \<Rightarrow> 's \<Rightarrow> (go_err + 'n) \<times> 's) \<Rightarrow> nat \<Rightarrow> go_err option \<Rightarrow> 's
      \<Rightarrow> (go_err + 'n) \<times> (nat \<times> duration \<times> go_err) list \<times> 's" where
  "retry_loop cfg delay C fn attempt lastErr st =
     (if int attempt \<le> rt_MaxRetries cfg then
        if cx_done C attempt then (Inl (cx_err C), [], st) else
        (case fn attempt st of
           (Inr nd, st') \<Rightarrow> (Inr nd, [], st')
         | (Inl e, st') \<Rightarrow>
             if isRetryableError cfg (Some e) \<noteq> None then (Inl e, [], st')
             else if int attempt < rt_MaxRetries cfg then
               if cx_pause C attempt then (Inl (cx_err C), [(attempt, delay attempt, e)], st')
               else (case retry_loop cfg delay C fn (Suc attempt) (Some e) st' of (res, calls, st'') \<Rightarrow>
                 (res, (attempt, delay attempt, e) # calls, st''))
             else retry_loop cfg delay C fn (Suc attempt) (Some e) st')
      else (Inl (case lastErr of None \<Rightarrow> Err ''max retries exceeded: %!w(<nil>)''
             | Some e \<Rightarrow> Wrap ''max retries exceeded'' e), [], st))"
  by pat_completeness auto
termination
  by (relation "measure (\<lambda>(cfg, delay, C, fn, attempt, lastErr, st). nat (rt_MaxRetries cfg + 1 - int attempt))") auto

declare retry_loop.simps [simp del]

definition ExecuteWithRetry ::
    "(f64 \<Rightarrow> nat \<Rightarrow> f64) \<Rightarrow> (f64 \<Rightarrow> int) \<Rightarrow> retryConfig \<Rightarrow> retryContext \<Rightarrow> (nat \<Rightarrow> 's \<Rightarrow> (go_err + 'n) \<times> 's) \<Rightarrow> 's
      \<Rightarrow> (go_err + 'n) \<times> (nat \<times> duration \<times> go_err) list \<times> 's" where
  "ExecuteWithRetry mpow wild cfg C fn st = retry_loop cfg (calculateDelay mpow wild cfg) C fn 0 None st"

section \<open>Backoff of a node\<close>

record nodeRetryState =
  nr_consecutiveFailures :: int
  nr_lastFailure :: time
  nr_backoffUntil :: time

definition nr_RecordFailure :: "time \<Rightarrow> nodeRetryState \<Rightarrow> nodeRetryState" where
  "nr_RecordFailure now s = s\<lparr>nr_consecutiveFailures := i64 (nr_consecutiveFailures s + 1), nr_lastFailure := now\<rparr>"

definition nr_RecordSuccess :: "nodeRetryState \<Rightarrow> nodeRetryState" where
  "nr_RecordSuccess s = s\<lparr>nr_consecutiveFailures := 0, nr_backoffUntil := zero_time\<rparr>"

definition IsBackedOff :: "time \<Rightarrow> nodeRetryState \<Rightarrow> bool" where
  "IsBackedOff now s \<longleftrightarrow> now < nr_backoffUntil s"

definition GetBackoffDuration :: "(f64 \<Rightarrow> nat \<Rightarrow> f64) \<Rightarrow> (f64 \<Rightarrow> int) \<Rightarrow> nodeRetryState \<Rightarrow> duration" where
  "GetBackoffDuration mpow wild s = backoff mpow wild DefaultRetryConfig (nat (nr_consecutiveFailures s))"

definition SetBackoff :: "time \<Rightarrow> duration \<Rightarrow> nodeRetryState \<Rightarrow> nodeRetryState" where
  "SetBackoff now delay s = s\<lparr>nr_backoffUntil := now + delay\<rparr>"

section \<open>The node retry handler\<close>

record nodeRetryHandler =
  nh_maxRetries :: int
  nh_backoffBase :: duration
  nh_fallbackNodes :: "string \<rightharpoonup> string list"

definition NewNodeRetryHandler :: "int \<Rightarrow> duration \<Rightarrow> nodeRetryHandler" where
  "NewNodeRetryHandler maxRetries backoffBase =
     \<lparr>nh_maxRetries = maxRetries, nh_backoffBase = backoffBase, nh_fallbackNodes = Map.empty\<rparr>"

definition SetFallback :: "string \<Rightarrow> string list \<Rightarrow> nodeRetryHandler \<Rightarrow> nodeRetryHandler" where
  "SetFallback primaryNode fallbacks h = h\<lparr>nh_fallbackNodes := (nh_fallbackNodes h)(primaryNode \<mapsto> fallbacks)\<rparr>"

definition GetFallback :: "string \<Rightarrow> nodeRetryHandler \<Rightarrow> string" where
  "GetFallback primaryNode h = (case nh_fallbackNodes h primaryNode of Some (f # _) \<Rightarrow> f | _ \<Rightarrow> '''')"

text \<open>The operation is always called with the empty node; the pauses are the second component.\<close>

function nh_loop :: "nodeRetryHandler \<Rightarrow> (string \<Rightarrow> 's \<Rightarrow> go_err option \<times> 's) \<Rightarrow> nat \<Rightarrow> go_err option \<Rightarrow> 's
    \<Rightarrow> go_err option \<times> duration list \<times> 's" where
  "nh_loop h fn attempt lastErr st =
     (if int attempt \<le> nh_maxRetries h then
        (case fn '''' st of
           (None, st') \<Rightarrow> (None, [], st')
         | (Some e, st') \<Rightarrow> (case nh_loop h fn (Suc attempt) (Some e) st' of (res, ds, st'') \<Rightarrow>
             (res, (if int attempt < nh_maxRetries h then [i64 (nh_backoffBase h * (int attempt + 1))] else []) @ ds, st'')))
      else (Some (case lastErr of None \<Rightarrow> Err ''max retries exceeded: %!w(<nil>)''
             | Some e \<Rightarrow> Wrap ''max retries exceeded'' e), [], st))"
  by pat_completeness auto
termination
  by (relation "measure (\<lambda>(h, fn, attempt, lastErr, st). nat (nh_maxRetries h + 1 - int attempt))") auto

declare nh_loop.simps [simp del]

definition nh_ExecuteWithRetry :: "nodeRetryHandler \<Rightarrow> (string \<Rightarrow> 's \<Rightarrow> go_err option \<times> 's) \<Rightarrow> 's \<Rightarrow> go_err option \<times> duration list \<times> 's" where
  "nh_ExecuteWithRetry h fn st = nh_loop h fn 0 None st"

section \<open>Lemmas\<close>

lemma contains_from_iff:
  "k \<le> length s \<Longrightarrow> contains_from k s sub \<longleftrightarrow> (\<exists>i \<le> k. take (length sub) (drop i s) = sub)"
proof (induction k arbitrary: s)
  case 0
  then show ?case by (simp add: contains_from.simps)
next
  case (Suc k)
  have "contains_from (Suc k) s sub \<longleftrightarrow> take (length sub) s = sub \<or> contains_from k (drop 1 s) sub"
    by (simp add: contains_from.simps)
  also have "\<dots> \<longleftrightarrow> take (length sub) s = sub \<or> (\<exists>i \<le> k. take (length sub) (drop (Suc i) s) = sub)"
    using Suc.IH [of "drop 1 s"] Suc.prems by simp
  also have "\<dots> \<longleftrightarrow> (\<exists>i \<le> Suc k. take (length sub) (drop i s) = sub)"
    by (metis (no_types) Suc_le_mono drop0 le0 not0_implies_Suc)
  finally show ?case .
qed

lemma containsAny_iff: "containsAny s sub \<longleftrightarrow> sublist sub s"
proof
  assume "containsAny s sub"
  then obtain i where "take (length sub) (drop i s) = sub" by (auto simp: containsAny_def contains_from_iff)
  then show "sublist sub s" by (metis append_take_drop_id sublist_def append.assoc)
next
  assume "sublist sub s"
  then obtain xs ys where s: "s = xs @ sub @ ys" by (auto simp: sublist_def)
  then have "take (length sub) (drop (length xs) s) = sub" by simp
  moreover have "length xs \<le> length s - length sub" and "length sub \<le> length s" using s by simp_all
  ultimately show "containsAny s sub" unfolding containsAny_def
    using contains_from_iff [of "length s - length sub" s sub] by auto
qed

lemma containsString_sublist: "containsString s sub \<longleftrightarrow> sublist sub s"
proof
  assume "containsString s sub"
  then show "sublist sub s"
    unfolding containsString_def containsAny_iff
    by (metis append_take_drop_id prefixI prefix_imp_sublist sublist_order.order_refl suffix_drop suffix_imp_sublist)
next
  assume s: "sublist sub s"
  then have l: "length sub \<le> length s" by (rule sublist_length_le)
  show "containsString s sub"
  proof (cases "length sub = length s")
    case True
    obtain xs ys where "s = xs @ sub @ ys" using s by (auto simp: sublist_def)
    with True have "s = sub" by simp
    then show ?thesis by (simp add: containsString_def)
  next
    case False
    with s l show ?thesis by (simp add: containsString_def containsAny_iff)
  qed
qed

text \<open>An attempt that ends the loop: a success, or an error that is not to be retried.\<close>

definition stops :: "retryConfig \<Rightarrow> go_err + 'n \<Rightarrow> bool" where
  "stops cfg r \<longleftrightarrow> (case r of Inr _ \<Rightarrow> True | Inl e \<Rightarrow> isRetryableError cfg (Some e) \<noteq> None)"

definition err_of :: "go_err + 'n \<Rightarrow> go_err option" where
  "err_of r = (case r of Inl e \<Rightarrow> Some e | Inr _ \<Rightarrow> None)"

text \<open>The operation whose attempt \<open>a\<close> has the outcome \<open>f a\<close> and which records its attempts.\<close>

definition recorded :: "(nat \<Rightarrow> go_err + 'n) \<Rightarrow> nat \<Rightarrow> nat list \<Rightarrow> (go_err + 'n) \<times> nat list" where
  "recorded f a st = (f a, st @ [a])"

definition patient :: "go_err \<Rightarrow> retryContext" where
  "patient e = \<lparr>cx_done = (\<lambda>_. False), cx_pause = (\<lambda>_. False), cx_err = e\<rparr>"

definition retry_spec :: "retryConfig \<Rightarrow> (nat \<Rightarrow> duration) \<Rightarrow> (nat \<Rightarrow> go_err + 'n) \<Rightarrow> nat \<Rightarrow> nat
    \<Rightarrow> (go_err + 'n) \<times> (nat \<times> duration \<times> go_err) list \<times> nat list \<Rightarrow> bool" where
  "retry_spec cfg delay f a m r = (case r of (res, calls, tried) \<Rightarrow>
     (case find (\<lambda>k. stops cfg (f k)) [a..<Suc m] of
        Some k \<Rightarrow> res = f k \<and> tried = [a..<Suc k] \<and> map (\<lambda>(i, d, e). (i, d)) calls = map (\<lambda>i. (i, delay i)) [a..<k]
      | None \<Rightarrow> (\<exists>e. f m = Inl e \<and> res = Inl (Wrap ''max retries exceeded'' e)) \<and> tried = [a..<Suc m] \<and>
          map (\<lambda>(i, d, e). (i, d)) calls = map (\<lambda>i. (i, delay i)) [a..<m]))"

lemma retry_loop_spec:
  assumes "rt_MaxRetries cfg = int m" and "a \<le> m"
  shows "\<exists>res calls tried. retry_loop cfg delay (patient c) (recorded f) a l st = (res, calls, st @ tried)
    \<and> retry_spec cfg delay f a m (res, calls, tried)"
  using assms(2)
proof (induction "m - a" arbitrary: a l st)
  case 0
  then have a: "a = m" by simp
  show ?case
    by (cases "f m") (auto simp: a retry_loop.simps [of cfg delay _ _ m] retry_loop.simps [of cfg delay _ _ "Suc m"]
        assms(1) patient_def recorded_def retry_spec_def stops_def)
next
  case (Suc d)
  then have lt: "a < m" and "d = m - Suc a" "Suc a \<le> m" by simp_all
  have u: "[a..<Suc m] = a # [Suc a..<Suc m]" "[a..<m] = a # [Suc a..<m]" using lt by (simp_all add: upt_conv_Cons)
  have one: "[a..<Suc a] = [a]" by simp
  show ?case
  proof (cases "stops cfg (f a)")
    case True
    then show ?thesis using lt
      by (cases "f a") (auto simp: retry_loop.simps [of cfg delay _ _ a] assms(1) patient_def recorded_def retry_spec_def
          stops_def u one simp del: upt_Suc)
  next
    case False
    then obtain e where e: "f a = Inl e" "isRetryableError cfg (Some e) = None" by (cases "f a") (auto simp: stops_def)
    from Suc.hyps(1) [OF \<open>d = m - Suc a\<close> \<open>Suc a \<le> m\<close>, of "Some e" "st @ [a]"] obtain res calls tried where
      r: "retry_loop cfg delay (patient c) (recorded f) (Suc a) (Some e) (st @ [a]) = (res, calls, (st @ [a]) @ tried)"
      and s: "retry_spec cfg delay f (Suc a) m (res, calls, tried)" by blast
    have "retry_loop cfg delay (patient c) (recorded f) a l st = (res, (a, delay a, e) # calls, st @ a # tried)"
      using lt e r by (subst retry_loop.simps) (simp add: assms(1) patient_def recorded_def)
    moreover have "retry_spec cfg delay f a m (res, (a, delay a, e) # calls, a # tried)"
    proof (cases "find (\<lambda>k. stops cfg (f k)) [Suc a..<Suc m]")
      case None
      then show ?thesis using s False by (simp add: retry_spec_def u del: upt_Suc)
    next
      case (Some k)
      then have "Suc a \<le> k" by (auto simp: find_Some_iff simp del: upt_Suc)
      then have "[a..<k] = a # [Suc a..<k]" "[a..<Suc k] = a # [Suc a..<Suc k]" by (simp_all add: upt_conv_Cons)
      then show ?thesis using s False Some by (simp add: retry_spec_def u del: upt_Suc)
    qed
    ultimately show ?thesis by blast
  qed
qed

section \<open>Properties\<close>

text \<open>The errors retried are exactly those whose text contains one of the configured patterns: the
  comparison the code writes out by hand is the substring relation.\<close>

theorem retryable_exact:
  "isRetryableError cfg (Some e) = None \<longleftrightarrow> (\<exists>p \<in> set (rt_RetryableErrors cfg). sublist p (err_text e))"
  by (simp add: isRetryableError_def containsString_sublist)

text \<open>C14: Retrying ends and has one outcome: with a context that is never done, the attempts are made in
  order from the first up to the first that succeeds or fails for good, at most \<open>MaxRetries + 1\<close> of
  them; that attempt's outcome is the result, or the last error wrapped when every attempt failed; and
  the callback saw each pause with its delay.\<close>

theorem retry_exact:
  assumes "rt_MaxRetries cfg = int m"
  shows "retry_spec cfg (calculateDelay mpow wild cfg) f 0 m (ExecuteWithRetry mpow wild cfg (patient c) (recorded f) [])"
  using retry_loop_spec [OF assms, of 0 "calculateDelay mpow wild cfg" c f None "[]"] by (auto simp: ExecuteWithRetry_def)

theorem retry_exact_witness:
  "retry_spec DefaultRetryConfig (calculateDelay (\<lambda>_ _. Fin 1) (\<lambda>_. 0) DefaultRetryConfig)
      (\<lambda>a. if a = 2 then Inr ''n'' else Inl (Err ''dial: i/o timeout'')) 0 3
      (ExecuteWithRetry (\<lambda>_ _. Fin 1) (\<lambda>_. 0) DefaultRetryConfig (patient (Err ''c''))
        (recorded (\<lambda>a. if a = 2 then Inr ''n'' else Inl (Err ''dial: i/o timeout''))) [])"
  by (rule retry_exact) (simp add: DefaultRetryConfig_def)

text \<open>The backoff of a failing node doubles up to five seconds and then, from the 37th failure in a
  row, is negative: the product wraps before it is compared with the maximum, so that the node that
  failed most is not backed off at all.\<close>

theorem backoff_wraps:
  assumes "\<And>k. k \<le> 62 \<Longrightarrow> mpow (Fin 2) k = Fin (of_int (2 ^ k))"
    and "nr_consecutiveFailures s = int n"
  shows "(n \<le> 36 \<longrightarrow> GetBackoffDuration mpow wild s = min (100000000 * 2 ^ n) (5 * go_second)) \<and>
    (n = 37 \<longrightarrow> GetBackoffDuration mpow wild s < 0 \<and> \<not> IsBackedOff now (SetBackoff now (GetBackoffDuration mpow wild s) s))"
proof -
  have d: "GetBackoffDuration mpow wild s = (let d = i64 (100000000 * 2 ^ n) in if d > 5 * go_second then 5 * go_second else d)"
    if "n \<le> 37"
  proof -
    have "(2 :: int) ^ n \<le> 2 ^ 37" using that by (intro power_increasing) simp_all
    then have "in_i64 ((2 :: int) ^ n)" by (auto simp: in_i64_def intro: order_trans [of _ 0])
    then have "f_to_i64 wild (mpow (Fin 2) n) = 2 ^ n" using assms(1) [of n] that f_to_i64_int [of "2 ^ n"] by simp
    then show ?thesis by (simp add: GetBackoffDuration_def backoff_def DefaultRetryConfig_def assms(2) f_int_small Let_def)
  qed
  have "GetBackoffDuration mpow wild s = min (100000000 * 2 ^ n) (5 * go_second)" if "n \<le> 36"
  proof -
    have "(2 :: int) ^ n \<le> 2 ^ 36" using that by (intro power_increasing) simp_all
    then have "i64 (100000000 * 2 ^ n) = 100000000 * 2 ^ n"
      by (intro i64_id_bounds) (auto intro: order_trans [of _ 0])
    with d that show ?thesis by (simp add: Let_def)
  qed
  moreover have "GetBackoffDuration mpow wild s < 0" if "n = 37" using d that by (simp add: i64_def Let_def go_second_def)
  ultimately show ?thesis by (auto simp: IsBackedOff_def SetBackoff_def)
qed

theorem backoff_wraps_witness:
  "GetBackoffDuration (\<lambda>_ k. Fin (of_int (2 ^ k))) (\<lambda>_. 0) \<lparr>nr_consecutiveFailures = 5, nr_lastFailure = 0, nr_backoffUntil = 0\<rparr> = 3200000000
   \<and> GetBackoffDuration (\<lambda>_ k. Fin (of_int (2 ^ k))) (\<lambda>_. 0) \<lparr>nr_consecutiveFailures = 37, nr_lastFailure = 0, nr_backoffUntil = 0\<rparr> < 0"
  using backoff_wraps [of "\<lambda>_ k. Fin (of_int (2 ^ k))" "\<lparr>nr_consecutiveFailures = 5, nr_lastFailure = 0, nr_backoffUntil = 0\<rparr>" 5 "\<lambda>_. 0"]
    backoff_wraps [of "\<lambda>_ k. Fin (of_int (2 ^ k))" "\<lparr>nr_consecutiveFailures = 37, nr_lastFailure = 0, nr_backoffUntil = 0\<rparr>" 37 "\<lambda>_. 0"]
  by (simp add: go_second_def)

end
