(* ===== verification/Dedup.thy ===== *)
theory Dedup
  imports Http Redis_Api
begin

text \<open>
  Requests answered once: the deduplication of requests in flight (\<open>gateway/request_dedup.go\<close>), that
  of recent requests (\<open>gateway/dedup_tiers.go\<close>) and the cache of responses (\<open>gateway/cache.go\<close>). SHA-256
  and the JSON text of a cache entry are parameters. A \<open>done\<close> channel is named by its number; the
  heap says which have been closed.
\<close>

section \<open>Requests in flight\<close>

record inflightRequest =
  if_done :: nat
  if_err :: "go_err option"
  if_nodeID :: string
  if_refCount :: int

record requestDeduplicator =
  rd_inflight :: "string \<rightharpoonup> inflightRequest"
  rd_ttl :: duration

text \<open>The channels made so far, each open (\<open>True\<close>) or closed.\<close>

type_synonym chans = "bool list"

definition dd_getKey :: "(string \<Rightarrow> string) \<Rightarrow> string \<Rightarrow> string \<Rightarrow> string \<Rightarrow> string \<Rightarrow> string" where
  "dd_getKey sha meth target country city = sha (meth @ '':'' @ target @ '':'' @ country @ '':'' @ city)"

record beginResult =
  bg_key :: string
  bg_done :: nat
  bg_nodeID :: string
  bg_isDuplicate :: bool

definition BeginKey :: "string \<Rightarrow> requestDeduplicator \<times> chans \<Rightarrow> beginResult \<times> requestDeduplicator \<times> chans" where
  "BeginKey key = (\<lambda>(rd, cs). case rd_inflight rd key of
       Some e \<Rightarrow>
         (\<lparr>bg_key = key, bg_done = if_done e, bg_nodeID = if_nodeID e, bg_isDuplicate = True\<rparr>,
          rd\<lparr>rd_inflight := (rd_inflight rd)(key \<mapsto> e\<lparr>if_refCount := i64 (if_refCount e + 1)\<rparr>)\<rparr>, cs)
     | None \<Rightarrow>
         (\<lparr>bg_key = key, bg_done = length cs, bg_nodeID = '''', bg_isDuplicate = False\<rparr>,
          rd\<lparr>rd_inflight := (rd_inflight rd)(key \<mapsto> \<lparr>if_done = length cs, if_err = None, if_nodeID = '''', if_refCount = 1\<rparr>)\<rparr>,
          cs @ [True]))"

definition BeginRequest ::
    "(string \<Rightarrow> string) \<Rightarrow> string \<Rightarrow> string \<Rightarrow> string \<Rightarrow> string \<Rightarrow> requestDeduplicator \<times> chans
      \<Rightarrow> beginResult \<times> requestDeduplicator \<times> chans" where
  "BeginRequest sha meth target country city = BeginKey (dd_getKey sha meth target country city)"

text \<open>Closing a channel twice panics: \<open>None\<close>.\<close>

definition close_chan :: "nat \<Rightarrow> chans \<Rightarrow> chans option" where
  "close_chan c cs = (if c < length cs \<and> cs ! c then Some (cs[c := False]) else None)"

definition CompleteRequest ::
    "string \<Rightarrow> string \<Rightarrow> go_err option \<Rightarrow> requestDeduplicator \<times> chans \<Rightarrow> (requestDeduplicator \<times> chans) option" where
  "CompleteRequest key nodeID err = (\<lambda>(rd, cs). case rd_inflight rd key of
       None \<Rightarrow> Some (rd, cs)
     | Some e \<Rightarrow> map_option (\<lambda>cs'. (rd\<lparr>rd_inflight := (rd_inflight rd)(key := None)\<rparr>, cs')) (close_chan (if_done e) cs))"

definition GetNodeForRequest :: "string \<Rightarrow> requestDeduplicator \<Rightarrow> string" where
  "GetNodeForRequest key rd = (case rd_inflight rd key of Some e \<Rightarrow> if_nodeID e | None \<Rightarrow> '''')"

definition dd_cleanup :: "requestDeduplicator \<Rightarrow> requestDeduplicator" where
  "dd_cleanup rd = rd\<lparr>rd_inflight := purge (\<lambda>e. if_refCount e \<le> 0) (rd_inflight rd)\<rparr>"

text \<open>The entries in the order the map is ranged over.\<close>

definition dd_Stats :: "string list \<Rightarrow> requestDeduplicator \<Rightarrow> nat \<times> nat" where
  "dd_Stats order rd = (let es = List.map_filter (rd_inflight rd) order
     in (length es, length (filter (\<lambda>e. if_refCount e > 1) es)))"

section \<open>Recent requests\<close>

record dedupRequest =
  dr_Hash :: string
  dr_CreatedAt :: time
  dr_NodeID :: string

record requestDedup =
  dp_requests :: "string \<rightharpoonup> dedupRequest"
  dp_ttl :: duration

definition NewRequestDedup :: "duration \<Rightarrow> requestDedup" where
  "NewRequestDedup ttl = \<lparr>dp_requests = Map.empty, dp_ttl = (if ttl \<le> 0 then 30 * go_second else ttl)\<rparr>"

definition ComputeHash :: "(string \<Rightarrow> string) \<Rightarrow> string \<Rightarrow> string \<Rightarrow> string \<Rightarrow> string \<Rightarrow> string" where
  "ComputeHash sha meth url body user = sha (meth @ ''|'' @ url @ ''|'' @ body @ ''|'' @ user)"

text \<open>New, or the node of the earlier request.\<close>

definition CheckAndMark :: "time \<Rightarrow> string \<Rightarrow> string \<Rightarrow> requestDedup \<Rightarrow> (bool \<times> string) \<times> requestDedup" where
  "CheckAndMark now hash nodeID d = (case dp_requests d hash of
       Some e \<Rightarrow> if time_sub now (dr_CreatedAt e) < dp_ttl d then ((False, dr_NodeID e), d)
         else ((True, ''''), d\<lparr>dp_requests := (dp_requests d)(hash \<mapsto> \<lparr>dr_Hash = hash, dr_CreatedAt = now, dr_NodeID = nodeID\<rparr>)\<rparr>)
     | None \<Rightarrow> ((True, ''''), d\<lparr>dp_requests := (dp_requests d)(hash \<mapsto> \<lparr>dr_Hash = hash, dr_CreatedAt = now, dr_NodeID = nodeID\<rparr>)\<rparr>))"

text \<open>The headers \<open>X-Dedup\<close> and \<open>X-Dedup-Node\<close>; the request goes on in both cases. \<open>url\<close> is the text of the URL.\<close>

definition dedup_Middleware :: "(string \<Rightarrow> string) \<Rightarrow> time \<Rightarrow> string \<Rightarrow> http_req \<Rightarrow> requestDedup
    \<Rightarrow> (outcome \<times> (string \<times> string) list) \<times> requestDedup" where
  "dedup_Middleware sha now url r d =
     (let hash = ComputeHash sha (rq_method r) url (rq_header r ''Content-Type'') (rq_header r ''X-User'');
          n0 = rq_header r ''X-Node-ID'';
          nodeID = (if n0 = '''' then ''unknown'' else n0)
      in case CheckAndMark now hash nodeID d of
           ((isNew, existingNode), d') \<Rightarrow>
             ((Next, if \<not> isNew then [(''X-Dedup'', ''HIT''), (''X-Dedup-Node'', existingNode)] else [(''X-Dedup'', ''MISS'')]), d'))"

definition dedup_cleanup :: "time \<Rightarrow> requestDedup \<Rightarrow> requestDedup" where
  "dedup_cleanup now d = d\<lparr>dp_requests := purge (\<lambda>e. time_sub now (dr_CreatedAt e) > dp_ttl d) (dp_requests d)\<rparr>"

section \<open>The response cache\<close>

record cacheEntry =
  ce_Response :: string
  ce_ContentType :: string
  ce_Expiry :: time

record responseCache =
  rcc_local :: "string \<rightharpoonup> cacheEntry"
  rcc_ttl :: duration

definition NewResponseCache :: "duration \<Rightarrow> responseCache" where
  "NewResponseCache ttl = \<lparr>rcc_local = Map.empty, rcc_ttl = ttl\<rparr>"

definition local_get :: "time \<Rightarrow> string \<Rightarrow> responseCache \<Rightarrow> (string \<times> string) option \<times> responseCache" where
  "local_get now key c = (case rcc_local c key of
       None \<Rightarrow> (None, c)
     | Some e \<Rightarrow> if now < ce_Expiry e then (Some (ce_Response e, ce_ContentType e), c)
         else (None, c\<lparr>rcc_local := (rcc_local c)(key := None)\<rparr>))"

text \<open>\<open>unmarshal\<close> reads a JSON text.\<close>

definition cache_Get ::
    "'r redis option \<Rightarrow> (string \<Rightarrow> cacheEntry option) \<Rightarrow> time \<Rightarrow> string \<Rightarrow> responseCache \<times> 'r
      \<Rightarrow> (string \<times> string) option \<times> responseCache \<times> 'r" where
  "cache_Get h unmarshal now key = (\<lambda>(c, st). case h of
       None \<Rightarrow> (case local_get now key c of (x, c') \<Rightarrow> (x, c', st))
     | Some R \<Rightarrow> (case cGet R (''cache:'' @ key) st of (res, st1) \<Rightarrow>
         (case (case res of Inl _ \<Rightarrow> None | Inr data \<Rightarrow> unmarshal data) of
            Some e \<Rightarrow> if now < ce_Expiry e then (Some (ce_Response e, ce_ContentType e), c, st1)
              else (case local_get now key c of (x, c') \<Rightarrow> (x, c', st1))
          | None \<Rightarrow> (case local_get now key c of (x, c') \<Rightarrow> (x, c', st1)))))"

definition cache_Set ::
    "'r redis option \<Rightarrow> (cacheEntry \<Rightarrow> string) \<Rightarrow> time \<Rightarrow> string \<Rightarrow> string \<Rightarrow> string \<Rightarrow> responseCache \<times> 'r \<Rightarrow> responseCache \<times> 'r" where
  "cache_Set h marshal now key response contentType = (\<lambda>(c, st).
     let e = \<lparr>ce_Response = response, ce_ContentType = contentType, ce_Expiry = now + rcc_ttl c\<rparr>
     in (c\<lparr>rcc_local := (rcc_local c)(key \<mapsto> e)\<rparr>,
         (case h of None \<Rightarrow> st | Some R \<Rightarrow> snd (cSet R (''cache:'' @ key) (marshal e) (rcc_ttl c) st))))"

definition drop_stars :: "string \<Rightarrow> string" where
  "drop_stars = filter (\<lambda>c. c \<noteq> CHR ''*'')"

definition cache_Invalidate :: "'r redis option \<Rightarrow> string \<Rightarrow> responseCache \<times> 'r \<Rightarrow> responseCache \<times> 'r" where
  "cache_Invalidate h pattern = (\<lambda>(c, st).
     (c\<lparr>rcc_local := (if str_contains pattern ''*''
         then (\<lambda>k. if str_contains k (drop_stars pattern) then None else rcc_local c k)
         else (rcc_local c)(pattern := None))\<rparr>,
      (case h of None \<Rightarrow> st
       | Some R \<Rightarrow> (case cKeys R (''cache:'' @ pattern) st of (ks, st1) \<Rightarrow>
           fold (\<lambda>k s. snd (cDel R [k] s)) (reply_or [] ks) st1))))"

definition cache_cleanup :: "time \<Rightarrow> responseCache \<Rightarrow> responseCache" where
  "cache_cleanup now c = c\<lparr>rcc_local := purge (\<lambda>e. ce_Expiry e < now) (rcc_local c)\<rparr>"

text \<open>A cached response ends the request; nothing here ever fills the cache.\<close>

datatype cache_outcome = CacheHit string string | CacheMiss | CacheSkip

definition cache_Middleware ::
    "'r redis option \<Rightarrow> (string \<Rightarrow> cacheEntry option) \<Rightarrow> time \<Rightarrow> (http_req \<Rightarrow> string) \<Rightarrow> http_req \<Rightarrow> responseCache \<times> 'r
      \<Rightarrow> cache_outcome \<times> responseCache \<times> 'r" where
  "cache_Middleware h unmarshal now keyFunc r s =
     (if rq_method r \<noteq> ''GET'' \<or> keyFunc r = '''' then (CacheSkip, s)
      else (case cache_Get h unmarshal now (keyFunc r) s of
          (Some (response, contentType), s') \<Rightarrow> (CacheHit response contentType, s')
        | (None, s') \<Rightarrow> (CacheMiss, s')))"

interpretation cache_expiry: expiring "\<lambda>t e. ce_Expiry e < t" "\<lambda>t e. \<not> t < ce_Expiry e"
  by unfold_locales simp

interpretation dedup_expiry: expiring "\<lambda>t e. time_sub t (dr_CreatedAt e) > ttl" "\<lambda>t e. \<not> time_sub t (dr_CreatedAt e) < ttl" for ttl
  by unfold_locales (metis less_le_trans not_less_iff_gr_or_eq time_sub_mono)

section \<open>Runs of the deduplicator\<close>

datatype dd_op = DBegin string | DComplete string string "go_err option" | DCleanup

fun dd_step :: "dd_op \<Rightarrow> requestDeduplicator \<times> chans \<Rightarrow> (requestDeduplicator \<times> chans) option" where
  "dd_step (DBegin k) s = Some (snd (BeginKey k s))"
| "dd_step (DComplete k n e) s = CompleteRequest k n e s"
| "dd_step DCleanup s = Some (dd_cleanup (fst s), snd s)"

definition dd_run :: "dd_op list \<Rightarrow> requestDeduplicator \<times> chans \<Rightarrow> (requestDeduplicator \<times> chans) option" where
  "dd_run = run_opt dd_step"

text \<open>The sweeps come from a ticker at intervals of \<open>ttl\<close>, which has to be positive: \<open>NewTicker\<close> panics otherwise, in the
  goroutine of the sweeps.\<close>

definition dd_start :: "duration \<Rightarrow> requestDeduplicator \<times> chans" where
  "dd_start ttl = (\<lparr>rd_inflight = Map.empty, rd_ttl = ttl\<rparr>, [])"

lemma dd_run_simps [simp]:
  "dd_run [] s = Some s"
  "dd_run (e # es) s = Option.bind (dd_step e s) (dd_run es)"
  by (simp_all add: dd_run_def)

text \<open>
  Entries and open channels belong to each other one to one; an entry has at least one request and at
  most \<open>n\<close>, and no node yet.
\<close>

definition dd_entry :: "nat \<Rightarrow> chans \<Rightarrow> inflightRequest \<Rightarrow> bool" where
  "dd_entry n cs e \<longleftrightarrow> if_done e < length cs \<and> cs ! if_done e \<and> if_nodeID e = '''' \<and> 1 \<le> if_refCount e \<and> if_refCount e \<le> int n"

definition dd_inv :: "nat \<Rightarrow> requestDeduplicator \<times> chans \<Rightarrow> bool" where
  "dd_inv n = (\<lambda>(rd, cs). (\<forall>k e. rd_inflight rd k = Some e \<longrightarrow> dd_entry n cs e) \<and>
     (\<forall>k k' e e'. rd_inflight rd k = Some e \<longrightarrow> rd_inflight rd k' = Some e' \<longrightarrow> if_done e = if_done e' \<longrightarrow> k = k'))"

lemma dd_entryD: "dd_inv n (rd, cs) \<Longrightarrow> rd_inflight rd k = Some e \<Longrightarrow> dd_entry n cs e"
  by (simp add: dd_inv_def)

lemma dd_injD: "dd_inv n (rd, cs) \<Longrightarrow> rd_inflight rd k = Some e \<Longrightarrow> rd_inflight rd k' = Some e' \<Longrightarrow> if_done e = if_done e' \<Longrightarrow> k = k'"
  by (simp add: dd_inv_def)

lemma dd_invI:
  assumes "\<And>k e. rd_inflight rd k = Some e \<Longrightarrow> dd_entry n cs e"
    and "\<And>k k' e e'. rd_inflight rd k = Some e \<Longrightarrow> rd_inflight rd k' = Some e' \<Longrightarrow> if_done e = if_done e' \<Longrightarrow> k = k'"
  shows "dd_inv n (rd, cs)"
  using assms by (auto simp: dd_inv_def)

lemma dd_entry_grows: "dd_entry n cs e \<Longrightarrow> dd_entry (Suc n) cs e" "dd_entry n cs e \<Longrightarrow> dd_entry (Suc n) (cs @ [True]) e"
  by (simp_all add: dd_entry_def nth_append)

lemma dd_inv_mono:
  assumes "dd_inv n s"
  shows "dd_inv (Suc n) s"
proof (cases s)
  case (Pair rd cs)
  show ?thesis unfolding Pair
    by (rule dd_invI) (use assms dd_entryD [of n rd cs] dd_entry_grows(1) dd_injD [of n rd cs] in \<open>auto simp: Pair\<close>)
qed

lemma dd_inv_begin:
  assumes "dd_inv n (rd, cs)" and "int n + 1 < 2 ^ 63"
  shows "dd_inv (Suc n) (snd (BeginKey k (rd, cs)))"
proof (cases "rd_inflight rd k")
  case None
  let ?e = "\<lparr>if_done = length cs, if_err = None, if_nodeID = '''', if_refCount = 1\<rparr>"
  have r: "snd (BeginKey k (rd, cs)) = (rd\<lparr>rd_inflight := (rd_inflight rd)(k \<mapsto> ?e)\<rparr>, cs @ [True])"
    using None by (simp add: BeginKey_def)
  have new: "dd_entry (Suc n) (cs @ [True]) ?e" by (simp add: dd_entry_def)
  have f: "if_done e \<noteq> length cs" if "rd_inflight rd j = Some e" for j e
    using dd_entryD [OF assms(1) that] by (simp add: dd_entry_def)
  show ?thesis unfolding r
  proof (rule dd_invI)
    fix j e assume "rd_inflight (rd\<lparr>rd_inflight := (rd_inflight rd)(k \<mapsto> ?e)\<rparr>) j = Some e"
    then show "dd_entry (Suc n) (cs @ [True]) e"
      using new dd_entryD [OF assms(1)] dd_entry_grows(2) by (cases "j = k") auto
  next
    fix i j e e'
    assume a: "rd_inflight (rd\<lparr>rd_inflight := (rd_inflight rd)(k \<mapsto> ?e)\<rparr>) i = Some e"
      "rd_inflight (rd\<lparr>rd_inflight := (rd_inflight rd)(k \<mapsto> ?e)\<rparr>) j = Some e'" "if_done e = if_done e'"
    then show "i = j" using f [of i e] f [of j e'] dd_injD [OF assms(1), of i e j e'] by (auto split: if_splits)
  qed
next
  case (Some e0)
  let ?e = "e0\<lparr>if_refCount := i64 (if_refCount e0 + 1)\<rparr>"
  have r: "snd (BeginKey k (rd, cs)) = (rd\<lparr>rd_inflight := (rd_inflight rd)(k \<mapsto> ?e)\<rparr>, cs)"
    using Some by (simp add: BeginKey_def)
  have o1: "dd_entry n cs e0" using dd_entryD [OF assms(1) Some] .
  then have "i64 (if_refCount e0 + 1) = if_refCount e0 + 1"
    using assms(2) by (intro i64_id_bounds) (auto simp: dd_entry_def)
  with o1 have new: "dd_entry (Suc n) cs ?e" by (simp add: dd_entry_def)
  show ?thesis unfolding r
  proof (rule dd_invI)
    fix j e assume "rd_inflight (rd\<lparr>rd_inflight := (rd_inflight rd)(k \<mapsto> ?e)\<rparr>) j = Some e"
    then show "dd_entry (Suc n) cs e"
      using new dd_entryD [OF assms(1)] dd_entry_grows(1) by (cases "j = k") auto
  next
    fix i j e e'
    assume a: "rd_inflight (rd\<lparr>rd_inflight := (rd_inflight rd)(k \<mapsto> ?e)\<rparr>) i = Some e"
      "rd_inflight (rd\<lparr>rd_inflight := (rd_inflight rd)(k \<mapsto> ?e)\<rparr>) j = Some e'" "if_done e = if_done e'"
    consider "i = k" "j = k" | "i = k" "j \<noteq> k" | "i \<noteq> k" "j = k" | "i \<noteq> k" "j \<noteq> k" by blast
    then show "i = j"
    proof cases
      case 2
      then have "if_done e0 = if_done e'" "rd_inflight rd j = Some e'" using a by auto
      then show ?thesis using dd_injD [OF assms(1) Some, of j e'] 2 by simp
    next
      case 3
      then have "if_done e = if_done e0" "rd_inflight rd i = Some e" using a by auto
      then show ?thesis using dd_injD [OF assms(1) _ Some, of i e] 3 by simp
    next
      case 4
      then show ?thesis using a dd_injD [OF assms(1), of i e j e'] by simp
    qed simp
  qed
qed

lemma dd_inv_complete:
  assumes "dd_inv n (rd, cs)"
  shows "\<exists>s'. CompleteRequest k nd er (rd, cs) = Some s' \<and> dd_inv n s'"
proof (cases "rd_inflight rd k")
  case None
  then show ?thesis using assms by (simp add: CompleteRequest_def)
next
  case (Some e0)
  have e0: "if_done e0 < length cs" "cs ! if_done e0" using dd_entryD [OF assms Some] by (simp_all add: dd_entry_def)
  have "dd_inv n (rd\<lparr>rd_inflight := (rd_inflight rd)(k := None)\<rparr>, cs[if_done e0 := False])"
  proof (rule dd_invI)
    fix j e assume "rd_inflight (rd\<lparr>rd_inflight := (rd_inflight rd)(k := None)\<rparr>) j = Some e"
    then have j: "j \<noteq> k" "rd_inflight rd j = Some e" by (simp_all split: if_splits)
    then have "if_done e0 \<noteq> if_done e" using dd_injD [OF assms Some j(2)] by auto
    then show "dd_entry n (cs[if_done e0 := False]) e" using dd_entryD [OF assms j(2)] by (simp add: dd_entry_def)
  qed (use dd_injD [OF assms] in \<open>auto split: if_splits\<close>)
  then show ?thesis using Some e0 by (simp add: CompleteRequest_def close_chan_def)
qed

lemma dd_cleanup_idle:
  assumes "dd_inv n (rd, cs)"
  shows "dd_cleanup rd = rd"
proof -
  have "purge (\<lambda>e. if_refCount e \<le> 0) (rd_inflight rd) k = rd_inflight rd k" for k
    using dd_entryD [OF assms, of k] by (auto simp: purge_def dd_entry_def split: option.splits)
  then have "purge (\<lambda>e. if_refCount e \<le> 0) (rd_inflight rd) = rd_inflight rd" by blast
  then show ?thesis by (simp add: dd_cleanup_def)
qed

lemma dd_inv_step:
  assumes "dd_inv n s" and "int n + 1 < 2 ^ 63"
  shows "\<exists>s'. dd_step e s = Some s' \<and> dd_inv (Suc n) s'"
proof (cases s)
  case (Pair rd cs)
  then have i: "dd_inv n (rd, cs)" using assms(1) by simp
  show ?thesis
  proof (cases e)
    case (DComplete k nd er)
    then show ?thesis using dd_inv_complete [OF i, of k nd er] dd_inv_mono by (auto simp: Pair)
  qed (use dd_inv_begin [OF i assms(2)] dd_cleanup_idle [OF i] dd_inv_mono [OF i] in \<open>simp_all add: Pair\<close>)
qed

text \<open>How one step treats the channel of a key in flight, and a closed one.\<close>

lemma dd_step_open:
  assumes "dd_inv n (rd, cs)" and "rd_inflight rd k = Some e" and "if_done e = c" and "dd_step x (rd, cs) = Some (rd', cs')"
  shows "if \<exists>nd er. x = DComplete k nd er then c < length cs' \<and> \<not> cs' ! c
    else \<exists>e'. rd_inflight rd' k = Some e' \<and> if_done e' = c"
proof (cases x)
  case (DBegin j)
  then show ?thesis using assms by (auto simp: BeginKey_def split: option.splits if_splits)
next
  case (DComplete j nd er)
  have c: "c < length cs" "cs ! c" using dd_entryD [OF assms(1,2)] assms(3) by (auto simp: dd_entry_def)
  then show ?thesis using assms(2-4) DComplete
    by (cases "j = k") (auto simp: CompleteRequest_def close_chan_def split: option.splits if_splits)
next
  case DCleanup
  then show ?thesis using assms dd_cleanup_idle [OF assms(1)] by auto
qed

lemma dd_step_closed:
  "dd_step x (rd, cs) = Some (rd', cs') \<Longrightarrow> c < length cs \<Longrightarrow> \<not> cs ! c \<Longrightarrow> c < length cs' \<and> \<not> cs' ! c"
  by (cases x) (auto simp: BeginKey_def CompleteRequest_def close_chan_def nth_append nth_list_update
      split: option.splits if_splits)

lemma dd_run_closed:
  "dd_run es (rd, cs) = Some (rd', cs') \<Longrightarrow> c < length cs \<Longrightarrow> \<not> cs ! c \<Longrightarrow> c < length cs' \<and> \<not> cs' ! c"
proof (induction es arbitrary: rd cs)
  case (Cons e es)
  then obtain rd1 cs1 where "dd_step e (rd, cs) = Some (rd1, cs1)" "dd_run es (rd1, cs1) = Some (rd', cs')"
    by (auto split: bind_splits)
  then show ?case using Cons.IH dd_step_closed Cons.prems(2,3) by blast
qed simp

lemma dd_run_inv: "dd_inv n s \<Longrightarrow> int n + int (length es) < 2 ^ 63 \<Longrightarrow> \<exists>s'. dd_run es s = Some s' \<and> dd_inv (n + length es) s'"
proof (induction es arbitrary: n s)
  case (Cons e es)
  then obtain s1 where s1: "dd_step e s = Some s1" "dd_inv (Suc n) s1" using dd_inv_step [of n s e] by auto
  with Cons.IH [of "Suc n" s1] Cons.prems(2) show ?case by auto
qed simp

lemma dd_run_open:
  assumes "dd_inv n (rd, cs)" and "int n + int (length es) < 2 ^ 63" and "rd_inflight rd k = Some e" and "if_done e = c"
  shows "\<exists>rd' cs'. dd_run es (rd, cs) = Some (rd', cs') \<and> c < length cs' \<and> (cs' ! c \<longleftrightarrow> (\<forall>nd er. DComplete k nd er \<notin> set es))"
  using assms
proof (induction es arbitrary: n rd cs e)
  case Nil
  then show ?case using dd_entryD [OF Nil.prems(1,3)] by (auto simp: dd_entry_def)
next
  case (Cons x es)
  obtain rd1 cs1 where s1: "dd_step x (rd, cs) = Some (rd1, cs1)" and i1: "dd_inv (Suc n) (rd1, cs1)"
    using dd_inv_step [OF Cons.prems(1), of x] Cons.prems(2) by auto
  note st = dd_step_open [OF Cons.prems(1,3,4) s1]
  show ?case
  proof (cases "\<exists>nd er. x = DComplete k nd er")
    case True
    obtain rd' cs' where r: "dd_run es (rd1, cs1) = Some (rd', cs')"
      using dd_run_inv [OF i1, of es] Cons.prems(2) by auto
    have "c < length cs1 \<and> \<not> cs1 ! c" using st True by simp
    from dd_run_closed [OF r] this have "c < length cs' \<and> \<not> cs' ! c" by blast
    then show ?thesis using r s1 True by auto
  next
    case False
    then obtain e' where e': "rd_inflight rd1 k = Some e'" "if_done e' = c" using st by auto
    from Cons.IH [OF i1 _ e'] Cons.prems(2) show ?thesis using s1 False by auto
  qed
qed

section \<open>Properties\<close>

text \<open>C32: Waiting on a request in flight is live exactly as far as its owner is: after any history, a
  request is given a channel that is closed if and only if its key is completed afterwards, whatever
  else happens, sweeps included; nothing ever panics. But a duplicate learns no node: the node it is
  told is always empty.\<close>

theorem dedup_wakes:
  assumes "dd_run hist (dd_start ttl) = Some s" and "BeginKey k s = (b, s1)" and "length hist + length es < 2 ^ 62"
  shows "\<exists>rd cs. dd_run es s1 = Some (rd, cs) \<and> bg_done b < length cs \<and>
    (cs ! bg_done b \<longleftrightarrow> (\<forall>nd er. DComplete k nd er \<notin> set es)) \<and> bg_nodeID b = ''''"
proof -
  obtain rd0 cs0 where s: "s = (rd0, cs0)" by fastforce
  have "dd_inv 0 (dd_start ttl)" by (simp add: dd_inv_def dd_start_def)
  from dd_run_inv [OF this, of hist] assms(1,3) have i: "dd_inv (length hist) (rd0, cs0)"
    by (auto simp: s)
  obtain rd1 cs1 where s1: "s1 = (rd1, cs1)" by fastforce
  have i1: "dd_inv (Suc (length hist)) (rd1, cs1)"
    using dd_inv_begin [OF i, of k] assms(2,3) by (auto simp: s s1)
  obtain e where e: "rd_inflight rd1 k = Some e" "if_done e = bg_done b"
    using assms(2) by (auto simp: BeginKey_def s s1 split: option.splits)
  have "bg_nodeID b = ''''"
    using assms(2) dd_entryD [OF i, of k] by (auto simp: BeginKey_def s dd_entry_def split: option.splits)
  with dd_run_open [OF i1 _ e, of es] assms(3) show ?thesis by (auto simp: s1)
qed

theorem dedup_wakes_witness:
  "\<exists>rd cs. dd_run [DBegin ''k'', DCleanup, DComplete ''j'' ''n'' None] (snd (BeginKey ''k'' (dd_start 60))) = Some (rd, cs) \<and> cs ! 0"
proof -
  obtain b s1 where b: "BeginKey ''k'' (dd_start 60) = (b, s1)" by (cases "BeginKey ''k'' (dd_start 60)")
  have z: "bg_done b = 0" using b by (auto simp: BeginKey_def dd_start_def)
  from dedup_wakes [of "[]" 60 "dd_start 60" "''k''" b s1 "[DBegin ''k'', DCleanup, DComplete ''j'' ''n'' None]"] b
  show ?thesis by (auto simp: z simp del: dd_run_simps(2))
qed

end
