(* ===== verification/Go_Chan.thy ===== *)
theory Go_Chan
  imports Prelude
begin

text \<open>
  Go's buffered channels, as the code uses them: made, sent to without blocking, closed. A channel is
  named by its number in the list of all channels made so far; the nil channel is \<open>None\<close>. Sending on a
  closed channel and closing a closed or nil one panic, which is the result \<open>None\<close>.
\<close>

record 'a chan =
  ch_open :: bool
  ch_cap :: nat
  ch_buf :: "'a list"

type_synonym 'a chans = "'a chan list"

definition make_chan :: "nat \<Rightarrow> 'a chans \<Rightarrow> nat \<times> 'a chans" where
  "make_chan n cs = (length cs, cs @ [\<lparr>ch_open = True, ch_cap = n, ch_buf = []\<rparr>])"

text \<open>\<open>select { case ch <- m: default: }\<close>: whether it was sent.\<close>

definition try_send :: "nat option \<Rightarrow> 'a \<Rightarrow> 'a chans \<Rightarrow> (bool \<times> 'a chans) option" where
  "try_send ch m cs = (case ch of
       None \<Rightarrow> Some (False, cs)
     | Some i \<Rightarrow> if \<not> i < length cs \<or> \<not> ch_open (cs ! i) then None
         else if length (ch_buf (cs ! i)) < ch_cap (cs ! i)
         then Some (True, cs[i := (cs ! i)\<lparr>ch_buf := ch_buf (cs ! i) @ [m]\<rparr>])
         else Some (False, cs))"

definition go_close :: "nat option \<Rightarrow> 'a chans \<Rightarrow> 'a chans option" where
  "go_close ch cs = (case ch of
       None \<Rightarrow> None
     | Some i \<Rightarrow> if i < length cs \<and> ch_open (cs ! i) then Some (cs[i := (cs ! i)\<lparr>ch_open := False\<rparr>]) else None)"

text \<open>Channel \<open>i\<close> has been made and not closed.\<close>

definition live_chan :: "'a chans \<Rightarrow> nat \<Rightarrow> bool" where
  "live_chan cs i \<longleftrightarrow> i < length cs \<and> ch_open (cs ! i)"

lemma live_chanD [dest]: "live_chan cs i \<Longrightarrow> i < length cs"
  by (simp add: live_chan_def)

lemma make_chan_live [simp]: "live_chan (snd (make_chan n cs)) i \<longleftrightarrow> live_chan cs i \<or> i = length cs"
  by (auto simp: make_chan_def live_chan_def nth_append)

lemma fst_make_chan [simp]: "fst (make_chan n cs) = length cs"
  by (simp add: make_chan_def)

lemma length_make_chan [simp]: "length (snd (make_chan n cs)) = Suc (length cs)"
  by (simp add: make_chan_def)

lemma try_send_live:
  "live_chan cs i \<Longrightarrow> \<exists>b cs'. try_send (Some i) m cs = Some (b, cs')"
  by (auto simp: try_send_def live_chan_def)

lemma try_send_keeps:
  "try_send c m cs = Some (b, cs') \<Longrightarrow> live_chan cs' i = live_chan cs i"
  by (auto simp: try_send_def live_chan_def nth_list_update split: option.splits if_splits)

lemma try_send_other:
  "try_send (Some j) m cs = Some (b, cs') \<Longrightarrow> i \<noteq> j \<Longrightarrow> cs' ! i = cs ! i"
  by (auto simp: try_send_def split: if_splits)

lemma try_send_length: "try_send c m cs = Some (b, cs') \<Longrightarrow> length cs' = length cs"
  by (auto simp: try_send_def split: option.splits if_splits)

lemma try_send_buf:
  "live_chan cs i \<Longrightarrow> try_send (Some i) m cs = Some (b, cs') \<Longrightarrow>
   ch_buf (cs' ! i) = (if length (ch_buf (cs ! i)) < ch_cap (cs ! i) then ch_buf (cs ! i) @ [m] else ch_buf (cs ! i))"
  by (auto simp: try_send_def live_chan_def split: if_splits)

lemma go_close_live: "go_close (Some i) cs = (if live_chan cs i then Some (cs[i := (cs ! i)\<lparr>ch_open := False\<rparr>]) else None)"
  by (simp add: go_close_def live_chan_def)

lemma go_close_nil [simp]: "go_close None cs = None"
  by (simp add: go_close_def)

lemma live_after_close: "live_chan (cs[i := (cs ! i)\<lparr>ch_open := False\<rparr>]) j \<longleftrightarrow> live_chan cs j \<and> j \<noteq> i"
  by (cases "i = j") (auto simp: live_chan_def)

section \<open>Tables of channels\<close>

text \<open>The loop that sends to every channel of a map without blocking, in the order of the range.\<close>

fun send_all :: "('k \<Rightarrow> nat option) \<Rightarrow> 'a \<Rightarrow> 'k list \<Rightarrow> 'a chans \<Rightarrow> 'a chans option" where
  "send_all ch m [] cs = Some cs"
| "send_all ch m (n # ns) cs = (case ch n of
       None \<Rightarrow> send_all ch m ns cs
     | Some i \<Rightarrow> (case try_send (Some i) m cs of None \<Rightarrow> None | Some (_, cs') \<Rightarrow> send_all ch m ns cs'))"

text \<open>Every channel of the table is live, and no two keys share one.\<close>

definition chan_table :: "('k \<Rightarrow> nat option) \<Rightarrow> 'a chans \<Rightarrow> bool" where
  "chan_table t cs \<longleftrightarrow> (\<forall>k i. t k = Some i \<longrightarrow> live_chan cs i) \<and> (\<forall>k k' i. t k = Some i \<longrightarrow> t k' = Some i \<longrightarrow> k = k')"

lemma chan_table_live: "chan_table t cs \<Longrightarrow> t k = Some i \<Longrightarrow> live_chan cs i"
  and chan_table_inj: "chan_table t cs \<Longrightarrow> t k = Some i \<Longrightarrow> t k' = Some i \<Longrightarrow> k = k'"
  by (auto simp: chan_table_def)

lemma chan_table_empty [simp]: "chan_table (\<lambda>_. None) cs" "chan_table Map.empty cs"
  by (simp_all add: chan_table_def)

lemma chan_table_add:
  assumes "chan_table t cs"
  shows "chan_table (t(k \<mapsto> length cs)) (snd (make_chan n cs))"
proof -
  have "t j \<noteq> Some (length cs)" for j using chan_table_live [OF assms, of j "length cs"] by auto
  with assms show ?thesis by (auto simp: chan_table_def)
qed

lemma chan_table_close:
  assumes "chan_table t cs" and "t k = Some i"
  shows "\<exists>cs'. go_close (Some i) cs = Some cs' \<and> chan_table (t(k := None)) cs'"
  using assms by (auto simp: go_close_live chan_table_def live_after_close)

lemma chan_table_send:
  assumes "chan_table t cs"
  shows "try_send (t k) m cs \<noteq> None" and "try_send c m cs = Some (b, cs') \<Longrightarrow> chan_table t cs'"
proof -
  show "try_send (t k) m cs \<noteq> None"
  proof (cases "t k")
    case None
    then show ?thesis by (simp add: try_send_def)
  next
    case (Some i)
    then show ?thesis using try_send_live [OF chan_table_live [OF assms Some]] by auto
  qed
  show "chan_table t cs'" if "try_send c m cs = Some (b, cs')"
    using assms try_send_keeps [OF that] by (simp add: chan_table_def)
qed

lemma chan_table_send_all:
  "chan_table t cs \<Longrightarrow> \<exists>cs'. send_all t m order cs = Some cs' \<and> chan_table t cs' \<and> length cs' = length cs"
proof (induction order arbitrary: cs)
  case (Cons k ks)
  show ?case
  proof (cases "t k")
    case (Some i)
    obtain b cs1 where s: "try_send (Some i) m cs = Some (b, cs1)"
      using try_send_live [OF chan_table_live [OF Cons.prems Some]] by blast
    from Cons.IH [OF chan_table_send(2) [OF Cons.prems s]] s try_send_length [OF s] Some show ?thesis by simp
  qed (use Cons in simp)
qed simp

text \<open>What a reader finds: each channel the loop meets holds the message behind what it held, if it had room.\<close>

lemma send_all_untouched:
  "send_all t m order cs = Some cs' \<Longrightarrow> \<forall>k \<in> set order. t k \<noteq> Some i \<Longrightarrow> cs' ! i = cs ! i"
proof (induction order arbitrary: cs)
  case (Cons k ks)
  then show ?case
    by (cases "t k") (auto split: option.splits prod.splits dest: try_send_other [where i = i])
qed simp

lemma send_all_buf:
  assumes "chan_table t cs" and "distinct order" and "k \<in> set order" and "t k = Some i" and "send_all t m order cs = Some cs'"
  shows "ch_buf (cs' ! i) = (if length (ch_buf (cs ! i)) < ch_cap (cs ! i) then ch_buf (cs ! i) @ [m] else ch_buf (cs ! i))"
  using assms
proof (induction order arbitrary: cs)
  case (Cons j js)
  show ?case
  proof (cases "t j")
    case None
    then show ?thesis using Cons.IH [OF Cons.prems(1)] Cons.prems by auto
  next
    case (Some l)
    obtain b cs1 where s: "try_send (Some l) m cs = Some (b, cs1)"
      using try_send_live [OF chan_table_live [OF Cons.prems(1) Some]] by blast
    have r: "send_all t m js cs1 = Some cs'" using Cons.prems(5) s Some by simp
    show ?thesis
    proof (cases "j = k")
      case True
      then have l: "l = i" using Some Cons.prems(4) by simp
      have "t k' \<noteq> Some i" if "k' \<in> set js" for k'
        using chan_table_inj [OF Cons.prems(1), of k' i k] Cons.prems(2,4) that True by auto
      with send_all_untouched [OF r, of i] have "cs' ! i = cs1 ! i" by blast
      with try_send_buf [OF chan_table_live [OF Cons.prems(1,4)] s [unfolded l]] show ?thesis by simp
    next
      case False
      then have "i \<noteq> l" using chan_table_inj [OF Cons.prems(1) Some, of k] Cons.prems(4) by auto
      with try_send_other [OF s] have "cs1 ! i = cs ! i" .
      with Cons.IH [OF chan_table_send(2) [OF Cons.prems(1) s] _ _ Cons.prems(4) r] Cons.prems(2,3) False
      show ?thesis by simp
    qed
  qed
qed simp

end
