(* ===== verification/Events.thy ===== *)
theory Events
  imports Http Redis_Api Go_Chan
begin

text \<open>
  Messages to peers and admins (\<open>gateway/broadcast.go\<close>): the broadcaster with its history, the notifier
  of configuration changes, and the decision to compress a response. The JSON text of a message is a
  parameter; compressing itself is the standard library's.
\<close>

section \<open>The broadcaster\<close>

record broadcastMessage =
  bm_ID :: string
  bm_Type :: string
  bm_Payload :: string
  bm_Target :: string
  bm_SentAt :: time

text \<open>The two-level map of subscribers holds channel numbers.\<close>

record peerBroadcaster =
  pb_subs :: "string \<rightharpoonup> (string \<rightharpoonup> nat)"
  pb_history :: "broadcastMessage list"
  pb_maxHistory :: int

type_synonym pb_state = "peerBroadcaster \<times> string chans"

definition NewPeerBroadcaster :: "int \<Rightarrow> peerBroadcaster" where
  "NewPeerBroadcaster maxHistory =
     \<lparr>pb_subs = Map.empty, pb_history = [], pb_maxHistory = (if maxHistory \<le> 0 then 100 else maxHistory)\<rparr>"

definition pb_Subscribe :: "string \<Rightarrow> pb_state \<Rightarrow> nat \<times> pb_state" where
  "pb_Subscribe nodeID = (\<lambda>(pb, cs). case make_chan 10 cs of (ch, cs') \<Rightarrow>
     let m = (case pb_subs pb nodeID of None \<Rightarrow> Map.empty | Some m \<Rightarrow> m)
     in (ch, pb\<lparr>pb_subs := (pb_subs pb)(nodeID \<mapsto> m(''default'' \<mapsto> ch))\<rparr>, cs'))"

text \<open>The node's map stays behind, empty: closing once more closes a nil channel.\<close>

definition pb_Unsubscribe :: "string \<Rightarrow> pb_state \<Rightarrow> pb_state option" where
  "pb_Unsubscribe nodeID = (\<lambda>(pb, cs). case pb_subs pb nodeID of
       None \<Rightarrow> Some (pb, cs)
     | Some m \<Rightarrow> map_option (\<lambda>cs'. (pb\<lparr>pb_subs := (pb_subs pb)(nodeID \<mapsto> m(''default'' := None))\<rparr>, cs'))
         (go_close (m ''default'') cs))"

definition new_message :: "time \<Rightarrow> string \<Rightarrow> string \<Rightarrow> string \<Rightarrow> broadcastMessage" where
  "new_message now msgType payload target =
     \<lparr>bm_ID = ''msg-'' @ show_int now, bm_Type = msgType, bm_Payload = payload, bm_Target = target, bm_SentAt = now\<rparr>"

definition remember :: "broadcastMessage \<Rightarrow> peerBroadcaster \<Rightarrow> peerBroadcaster" where
  "remember msg pb = pb\<lparr>pb_history := push_bounded (pb_maxHistory pb) msg (pb_history pb)\<rparr>"

text \<open>The channel of a node, when it has one.\<close>

definition pb_chan :: "peerBroadcaster \<Rightarrow> string \<Rightarrow> nat option" where
  "pb_chan pb nodeID = (case pb_subs pb nodeID of None \<Rightarrow> None | Some m \<Rightarrow> m ''default'')"


definition publish :: "'r redis option \<Rightarrow> (broadcastMessage \<Rightarrow> string) \<Rightarrow> string \<Rightarrow> broadcastMessage \<Rightarrow> 'r \<Rightarrow> 'r" where
  "publish h marshal channel msg st = (case h of None \<Rightarrow> st | Some R \<Rightarrow> snd (cPublish R channel (marshal msg) st))"

definition pb_Broadcast ::
    "'r redis option \<Rightarrow> (broadcastMessage \<Rightarrow> string) \<Rightarrow> time \<Rightarrow> string list \<Rightarrow> string \<Rightarrow> string
      \<Rightarrow> pb_state \<times> 'r \<Rightarrow> (pb_state \<times> 'r) option" where
  "pb_Broadcast h marshal now order msgType payload = (\<lambda>((pb, cs), st).
     let msg = new_message now msgType payload '''';
         pb' = remember msg pb
     in map_option (\<lambda>cs'. ((pb', cs'), publish h marshal ''peer:broadcast'' msg st))
          (send_all (pb_chan pb') payload order cs))"

definition SendToNode ::
    "'r redis option \<Rightarrow> (broadcastMessage \<Rightarrow> string) \<Rightarrow> time \<Rightarrow> string \<Rightarrow> string \<Rightarrow> string
      \<Rightarrow> pb_state \<times> 'r \<Rightarrow> (go_err option \<times> pb_state \<times> 'r) option" where
  "SendToNode h marshal now nodeID msgType payload = (\<lambda>((pb, cs), st).
     let msg = new_message now msgType payload nodeID;
         pb' = remember msg pb;
         st' = publish h marshal (''peer:'' @ nodeID @ '':broadcast'') msg st
     in map_option (\<lambda>(sent, cs'). (if sent then None else Some (Err (''node '' @ nodeID @ '' not connected'')), (pb', cs'), st'))
          (try_send (pb_chan pb' nodeID) payload cs))"

definition pb_GetHistory :: "int \<Rightarrow> peerBroadcaster \<Rightarrow> broadcastMessage list" where
  "pb_GetHistory limit pb =
     (let n = (if limit \<le> 0 \<or> limit > int (length (pb_history pb)) then int (length (pb_history pb)) else limit)
      in take (nat n) (pb_history pb))"

text \<open>The handlers; a body is its type and its payload.\<close>

definition broadcastHandler ::
    "'r redis option \<Rightarrow> (broadcastMessage \<Rightarrow> string) \<Rightarrow> time \<Rightarrow> string list \<Rightarrow> string + string \<times> string
      \<Rightarrow> pb_state \<times> 'r \<Rightarrow> (string resp \<times> pb_state \<times> 'r) option" where
  "broadcastHandler h marshal now order body s = (case body of
       Inl e \<Rightarrow> Some (bad_request e, s)
     | Inr (ty, payload) \<Rightarrow> map_option (Pair (200, Inr ''broadcast sent'')) (pb_Broadcast h marshal now order ty payload s))"

definition sendToNodeHandler ::
    "'r redis option \<Rightarrow> (broadcastMessage \<Rightarrow> string) \<Rightarrow> time \<Rightarrow> string \<Rightarrow> string + string \<times> string
      \<Rightarrow> pb_state \<times> 'r \<Rightarrow> (string resp \<times> pb_state \<times> 'r) option" where
  "sendToNodeHandler h marshal now nodeID body s = (case body of
       Inl e \<Rightarrow> Some (bad_request e, s)
     | Inr (ty, payload) \<Rightarrow> map_option (\<lambda>(err, s'). (case err of Some e \<Rightarrow> (404, Inl (err_text e)) | None \<Rightarrow> (200, Inr ''message sent''), s'))
         (SendToNode h marshal now nodeID ty payload s))"

definition historyHandler :: "string \<Rightarrow> peerBroadcaster \<Rightarrow> broadcastMessage list resp" where
  "historyHandler l pb = (200, Inr (pb_GetHistory (query_limit 20 l) pb))"

section \<open>The configuration notifier\<close>

type_synonym cn_state = "(string \<rightharpoonup> nat) \<times> string chans"

definition NewConfigNotifier :: "string \<rightharpoonup> nat" where
  "NewConfigNotifier = Map.empty"

definition cn_Subscribe :: "string \<Rightarrow> cn_state \<Rightarrow> nat \<times> cn_state" where
  "cn_Subscribe clientID = (\<lambda>(cn, cs). case make_chan 5 cs of (ch, cs') \<Rightarrow> (ch, cn(clientID \<mapsto> ch), cs'))"

definition cn_Unsubscribe :: "string \<Rightarrow> cn_state \<Rightarrow> cn_state option" where
  "cn_Unsubscribe clientID = (\<lambda>(cn, cs). case cn clientID of
       None \<Rightarrow> Some (cn, cs)
     | Some ch \<Rightarrow> map_option (Pair (cn(clientID := None))) (go_close (Some ch) cs))"

definition cn_Notify :: "string list \<Rightarrow> string \<Rightarrow> cn_state \<Rightarrow> cn_state option" where
  "cn_Notify order message = (\<lambda>(cn, cs). map_option (Pair cn) (send_all cn message order cs))"

definition NotifyConfigReload :: "string list \<Rightarrow> cn_state \<Rightarrow> cn_state option" where
  "NotifyConfigReload order = cn_Notify order ''config_reloaded''"

section \<open>Compression\<close>

record responseCompressor =
  rz_enabled :: bool
  rz_level :: int

definition skipPrefixes :: "string list" where
  "skipPrefixes = [''/ws'', ''/api/peer/stream'', ''/metrics'', ''/v1/metrics'']"

definition NewResponseCompressor :: "bool \<Rightarrow> int \<Rightarrow> responseCompressor" where
  "NewResponseCompressor enabled level = \<lparr>rz_enabled = enabled, rz_level = (if level \<le> 0 then 5 else level)\<rparr>"

definition shouldSkip :: "string \<Rightarrow> bool" where
  "shouldSkip path = list_ex (has_prefix path) skipPrefixes"

text \<open>Whether the response is written through gzip, and the headers set then; \<open>encoded\<close> is the
  \<open>Content-Encoding\<close> already there. The writer refuses a level above 9.\<close>

definition compress_Middleware :: "responseCompressor \<Rightarrow> http_req \<Rightarrow> string \<Rightarrow> (string \<times> string) list option" where
  "compress_Middleware rz r encoded =
     (if \<not> rz_enabled rz then None
      else if \<not> str_contains (rq_header r ''Accept-Encoding'') ''gzip'' \<or> encoded \<noteq> '''' \<or> shouldSkip (rq_path r) then None
      else if rz_level rz > 9 then None
      else Some [(''Content-Encoding'', ''gzip''), (''Vary'', ''Accept-Encoding''), (''Content-Length'', '''')])"

section \<open>Runs\<close>

datatype pb_op = PSub string | PUnsub string | PCast time "string list" string string | PTo time string string string

fun pb_step :: "'r redis option \<Rightarrow> (broadcastMessage \<Rightarrow> string) \<Rightarrow> pb_op \<Rightarrow> pb_state \<times> 'r \<Rightarrow> (pb_state \<times> 'r) option" where
  "pb_step h js (PSub n) (s, st) = Some (snd (pb_Subscribe n s), st)"
| "pb_step h js (PUnsub n) (s, st) = map_option (\<lambda>s'. (s', st)) (pb_Unsubscribe n s)"
| "pb_step h js (PCast now order ty p) s = pb_Broadcast h js now order ty p s"
| "pb_step h js (PTo now n ty p) s = map_option snd (SendToNode h js now n ty p s)"

text \<open>What the broadcaster promises: who has ever subscribed, and who still is.\<close>

fun conn_step :: "pb_op \<Rightarrow> (string \<rightharpoonup> bool) \<Rightarrow> (string \<rightharpoonup> bool) option" where
  "conn_step (PSub n) c = Some (c(n \<mapsto> True))"
| "conn_step (PUnsub n) c = (case c n of None \<Rightarrow> Some c | Some b \<Rightarrow> if b then Some (c(n \<mapsto> False)) else None)"
| "conn_step (PCast now order ty p) c = Some c"
| "conn_step (PTo now n ty p) c = Some c"

definition conn_of :: "pb_state \<times> 'r \<Rightarrow> (string \<rightharpoonup> bool)" where
  "conn_of s n = map_option (\<lambda>m. m ''default'' \<noteq> None) (pb_subs (fst (fst s)) n)"

fun op_message :: "pb_op \<Rightarrow> broadcastMessage list" where
  "op_message (PCast now order ty p) = [new_message now ty p '''']"
| "op_message (PTo now n ty p) = [new_message now ty p n]"
| "op_message _ = []"

definition pb_ok :: "pb_state \<times> 'r \<Rightarrow> bool" where
  "pb_ok s \<longleftrightarrow> chan_table (pb_chan (fst (fst s))) (snd (fst s))"

lemma pb_chan_upd [simp]:
  "pb_chan (pb\<lparr>pb_subs := (pb_subs pb)(n \<mapsto> m)\<rparr>) = (pb_chan pb)(n := m ''default'')"
  "pb_chan (remember msg pb) = pb_chan pb"
  "pb_subs (remember msg pb) = pb_subs pb"
  "pb_chan (NewPeerBroadcaster k) = Map.empty"
  by (auto simp: pb_chan_def remember_def NewPeerBroadcaster_def)

lemma pb_step_refines:
  assumes "pb_ok s"
  shows "map_option conn_of (pb_step h js e s) = conn_step e (conn_of s)
    \<and> (\<forall>s'. pb_step h js e s = Some s' \<longrightarrow> pb_ok s')"
proof -
  obtain pb cs st where s: "s = ((pb, cs), st)" by (metis prod.collapse)
  have t: "chan_table (pb_chan pb) cs" using assms by (simp add: pb_ok_def s)
  show ?thesis
  proof (cases e)
    case (PSub n)
    then show ?thesis using chan_table_add [OF t, of n 10]
      by (auto simp: s pb_Subscribe_def pb_ok_def conn_of_def split: prod.splits)
         (simp_all add: make_chan_def)
  next
    case (PUnsub n)
    show ?thesis
    proof (cases "pb_chan pb n")
      case None
      then show ?thesis using t
        by (auto simp: s PUnsub pb_Unsubscribe_def pb_ok_def conn_of_def pb_chan_def split: option.splits)
    next
      case (Some i)
      then obtain m where "pb_subs pb n = Some m" "m ''default'' = Some i" by (auto simp: pb_chan_def split: option.splits)
      with chan_table_close [OF t Some] show ?thesis
        by (auto simp: s PUnsub pb_Unsubscribe_def pb_ok_def conn_of_def fun_eq_iff)
    qed
  next
    case (PCast now order ty p)
    then show ?thesis using chan_table_send_all [OF t, of p order]
      by (auto simp: s pb_Broadcast_def pb_ok_def conn_of_def Let_def fun_eq_iff)
  next
    case (PTo now n ty p)
    then show ?thesis using chan_table_send(1) [OF t, of n p] chan_table_send(2) [OF t]
      by (auto simp: s SendToNode_def pb_ok_def conn_of_def Let_def fun_eq_iff)
  qed
qed

lemma pb_step_history:
  "pb_step h js e s = Some s' \<Longrightarrow> pb_maxHistory (fst (fst s')) = pb_maxHistory (fst (fst s)) \<and>
   pb_history (fst (fst s')) = fold (push_bounded (pb_maxHistory (fst (fst s)))) (op_message e) (pb_history (fst (fst s)))"
  by (cases s; cases e)
     (auto simp: pb_Subscribe_def pb_Unsubscribe_def pb_Broadcast_def SendToNode_def Let_def remember_def
       split: prod.splits option.splits)

lemma pb_run_history:
  "run_opt (pb_step h js) es s = Some s' \<Longrightarrow> pb_history (fst (fst s')) =
     fold (push_bounded (pb_maxHistory (fst (fst s)))) (concat (map op_message es)) (pb_history (fst (fst s)))"
proof (induction es arbitrary: s)
  case (Cons e es)
  then obtain s1 where s1: "pb_step h js e s = Some s1" "run_opt (pb_step h js) es s1 = Some s'"
    by (auto split: bind_splits)
  from Cons.IH [OF s1(2)] pb_step_history [OF s1(1)] show ?case by simp
qed simp

text \<open>The notifier, with the same table of channels: here the entry itself is deleted.\<close>

datatype cn_op = CSub string | CUnsub string | CNotify "string list" string

fun cn_step :: "cn_op \<Rightarrow> cn_state \<Rightarrow> cn_state option" where
  "cn_step (CSub c) s = Some (snd (cn_Subscribe c s))"
| "cn_step (CUnsub c) s = cn_Unsubscribe c s"
| "cn_step (CNotify order m) s = cn_Notify order m s"

lemma cn_step_ok:
  assumes "chan_table (fst s) (snd s)"
  shows "\<exists>s'. cn_step e s = Some s' \<and> chan_table (fst s') (snd s')"
proof (cases s)
  case (Pair cn cs)
  then have t: "chan_table cn cs" using assms by simp
  show ?thesis
  proof (cases e)
    case (CSub c)
    then show ?thesis using chan_table_add [OF t, of c 5] by (simp add: Pair cn_Subscribe_def make_chan_def)
  next
    case (CUnsub c)
    then show ?thesis using t chan_table_close [OF t, of c]
      by (cases "cn c") (auto simp: Pair cn_Unsubscribe_def)
  next
    case (CNotify order m)
    then show ?thesis using chan_table_send_all [OF t, of m order] by (auto simp: Pair cn_Notify_def)
  qed
qed

lemma cn_run_ok:
  "chan_table (fst s) (snd s) \<Longrightarrow> \<exists>s'. run_opt cn_step es s = Some s' \<and> chan_table (fst s') (snd s')"
proof (induction es arbitrary: s)
  case (Cons e es)
  obtain s1 where "cn_step e s = Some s1" "chan_table (fst s1) (snd s1)" using cn_step_ok [OF Cons.prems] by blast
  with Cons.IH [of s1] show ?case by simp
qed simp

section \<open>Properties\<close>

text \<open>C12: The broadcaster does what its table of subscribers says, whatever the sequence of calls and the
  order in which the map is ranged over: no message is ever sent to a closed channel, and the one thing
  that panics is to unsubscribe a node again that is already unsubscribed (its empty inner map is kept,
  and the missing channel is closed).\<close>

theorem broadcaster_refines:
  "map_option conn_of (run_opt (pb_step h js) es ((NewPeerBroadcaster n, []), st)) = run_opt conn_step es Map.empty"
proof -
  have "pb_ok ((NewPeerBroadcaster n, []), st)" by (simp add: pb_ok_def)
  moreover have "conn_of ((NewPeerBroadcaster n, []), st) = Map.empty"
    by (simp add: conn_of_def NewPeerBroadcaster_def fun_eq_iff)
  ultimately show ?thesis
    using run_opt_refines [where f = "pb_step h js" and g = conn_step and a = conn_of and I = pb_ok, OF pb_step_refines] by metis
qed

text \<open>The history of the broadcaster holds the latest messages, as many as it is made for (100
  when it is made for none), but reading it with a limit serves the oldest of them.\<close>

theorem history_serves_oldest:
  assumes "run_opt (pb_step h js) es ((NewPeerBroadcaster n, []), st) = Some ((pb, cs), st')"
  shows "pb_GetHistory limit pb =
    (let kept = last_n (nat (if n \<le> 0 then 100 else n)) (concat (map op_message es))
     in if 0 < limit then take (nat limit) kept else kept)"
proof -
  let ?n = "if n \<le> 0 then 100 else n"
  have "pb_history pb = fold (push_bounded (int (nat ?n))) (concat (map op_message es)) []"
    using pb_run_history [OF assms] by (simp add: NewPeerBroadcaster_def)
  also have "\<dots> = last_n (nat ?n) (concat (map op_message es))" by (rule fold_push_bounded) simp
  finally have "pb_history pb = last_n (nat ?n) (concat (map op_message es))" .
  then show ?thesis by (simp add: pb_GetHistory_def Let_def)
qed

theorem history_serves_oldest_witness:
  "\<exists>pb cs. run_opt (pb_step (None :: unit redis option) bm_ID) [PTo 1 ''a'' ''t'' ''x'', PCast 2 [] ''t'' ''y'', PTo 3 ''b'' ''t'' ''z'']
      ((NewPeerBroadcaster 2, []), ()) = Some ((pb, cs), ()) \<and> map bm_Payload (pb_GetHistory 1 pb) = [''y'']"
proof -
  let ?es = "[PTo 1 ''a'' ''t'' ''x'', PCast 2 [] ''t'' ''y'', PTo 3 ''b'' ''t'' ''z'']"
  obtain pb cs where r: "run_opt (pb_step (None :: unit redis option) bm_ID) ?es ((NewPeerBroadcaster 2, []), ()) = Some ((pb, cs), ())"
    by (simp add: SendToNode_def pb_Broadcast_def Let_def NewPeerBroadcaster_def pb_chan_def remember_def try_send_def)
  from history_serves_oldest [OF this, of 1] r show ?thesis by (simp add: Let_def last_n_def new_message_def)
qed

text \<open>The notifier of configuration changes never panics: every sequence of subscriptions,
  unsubscriptions and notifications runs to its end, and the channels it holds are open and its own.\<close>

theorem notifier_never_panics:
  "\<exists>cn cs. run_opt cn_step es (NewConfigNotifier, []) = Some (cn, cs) \<and> chan_table cn cs"
  using cn_run_ok [of "(NewConfigNotifier, [])" es] by (auto simp: NewConfigNotifier_def)

end
