(* ===== verification/Webhooks.thy ===== *)
theory Webhooks
  imports Http Redis_Api
begin

text \<open>
  Timeouts per endpoint, the webhooks of a node and the dashboard of admin activity
  (\<open>gateway/timeout_webhook.go\<close>). Sending an HTTP request is a parameter, as is the JSON text of a
  payload; the goroutines that \<open>TriggerEvent\<close> starts are the list of the calls they make.
\<close>

section \<open>Timeouts of endpoints\<close>

type_synonym endpointTimeout = "string \<rightharpoonup> duration"

definition NewEndpointTimeout :: endpointTimeout where "NewEndpointTimeout = Map.empty"

definition et_SetTimeout :: "string \<Rightarrow> duration \<Rightarrow> endpointTimeout \<Rightarrow> endpointTimeout" where
  "et_SetTimeout endpoint d et = et(endpoint \<mapsto> d)"

definition et_GetTimeout :: "string \<Rightarrow> endpointTimeout \<Rightarrow> duration" where
  "et_GetTimeout endpoint et = (case et endpoint of None \<Rightarrow> 0 | Some d \<Rightarrow> d)"

text \<open>
  The answers possible when the rest of the chain takes the time \<open>d\<close> (\<open>None\<close>: it never ends). Only the
  answer is given up: the chain goes on in its goroutine.
\<close>

definition et_Middleware :: "http_req \<Rightarrow> duration option \<Rightarrow> endpointTimeout \<Rightarrow> outcome list" where
  "et_Middleware r took et =
     (let timeout = et_GetTimeout (rq_path r) et in
      if timeout > 0 then
        (case took of Some d \<Rightarrow> if d \<le> timeout then [Next] else [] | None \<Rightarrow> []) @
        (case took of Some d \<Rightarrow> if timeout \<le> d then [Abort 504 ''Request timeout''] else []
          | None \<Rightarrow> [Abort 504 ''Request timeout''])
      else (case took of Some d \<Rightarrow> [Next] | None \<Rightarrow> []))"

text \<open>A body is an endpoint and a number of seconds; the product is taken in 64 bits.\<close>

definition setTimeoutHandler :: "string + string \<times> int \<Rightarrow> endpointTimeout \<Rightarrow> string resp \<times> endpointTimeout" where
  "setTimeoutHandler body et = (case body of
       Inl e \<Rightarrow> (bad_request e, et)
     | Inr (endpoint, secs) \<Rightarrow> ((200, Inr ''success''), et_SetTimeout endpoint (i64 (secs * go_second)) et))"

text \<open>\<open>show_dur\<close> is \<open>Duration.String\<close>.\<close>

definition listTimeoutsHandler :: "(duration \<Rightarrow> string) \<Rightarrow> endpointTimeout \<Rightarrow> (string \<rightharpoonup> string) resp" where
  "listTimeoutsHandler show_dur et = (200, Inr (map_option show_dur \<circ> et))"

section \<open>Webhooks\<close>

record webhookConfig =
  wc_URL :: string
  wc_Secret :: string
  wc_Events :: "string list"

record webhookPayload =
  wp_Event :: string
  wp_NodeID :: string
  wp_State :: string
  wp_Timestamp :: time

record nodeWebhook =
  nw_webhooks :: "string \<rightharpoonup> webhookConfig list"
  nw_failCount :: "string \<rightharpoonup> int"
  nw_maxRetries :: int

definition NewNodeWebhook :: "int \<Rightarrow> nodeWebhook" where
  "NewNodeWebhook maxRetries = \<lparr>nw_webhooks = Map.empty, nw_failCount = Map.empty, nw_maxRetries = maxRetries\<rparr>"

definition GetWebhooks :: "string \<Rightarrow> nodeWebhook \<Rightarrow> webhookConfig list" where
  "GetWebhooks nodeID nw = (case nw_webhooks nw nodeID of None \<Rightarrow> [] | Some ws \<Rightarrow> ws)"

definition RegisterWebhook :: "string \<Rightarrow> webhookConfig \<Rightarrow> nodeWebhook \<Rightarrow> nodeWebhook" where
  "RegisterWebhook nodeID config nw = nw\<lparr>nw_webhooks := (nw_webhooks nw)(nodeID \<mapsto> GetWebhooks nodeID nw @ [config])\<rparr>"

definition GetAllWebhooks :: "nodeWebhook \<Rightarrow> (string \<rightharpoonup> webhookConfig list)" where
  "GetAllWebhooks nw = nw_webhooks nw"

definition ClearWebhooks :: "string \<Rightarrow> nodeWebhook \<Rightarrow> nodeWebhook" where
  "ClearWebhooks nodeID nw = nw\<lparr>nw_webhooks := (nw_webhooks nw)(nodeID := None)\<rparr>"

text \<open>The loop over the events of one webhook, left at the first that matches.\<close>

fun subscribed :: "string \<Rightarrow> string list \<Rightarrow> bool" where
  "subscribed event [] = False"
| "subscribed event (e # es) = (if e = event \<or> e = ''*'' then True else subscribed event es)"

definition TriggerEvent :: "time \<Rightarrow> string \<Rightarrow> string \<Rightarrow> string \<Rightarrow> nodeWebhook \<Rightarrow> (string \<times> webhookPayload) list" where
  "TriggerEvent now nodeID event state nw =
     (let payload = \<lparr>wp_Event = event, wp_NodeID = nodeID, wp_State = state, wp_Timestamp = now\<rparr>
      in map (\<lambda>wh. (wc_URL wh, payload)) (filter (\<lambda>wh. subscribed event (wc_Events wh)) (GetWebhooks nodeID nw)))"

definition WebhookFailCount :: "string \<Rightarrow> nodeWebhook \<Rightarrow> int" where
  "WebhookFailCount url nw = (case nw_failCount nw url of None \<Rightarrow> 0 | Some n \<Rightarrow> n)"

definition nw_recordSuccess :: "string \<Rightarrow> nodeWebhook \<Rightarrow> nodeWebhook" where
  "nw_recordSuccess url nw = nw\<lparr>nw_failCount := (nw_failCount nw)(url \<mapsto> 0)\<rparr>"

definition nw_recordFailure :: "string \<Rightarrow> nodeWebhook \<Rightarrow> nodeWebhook" where
  "nw_recordFailure url nw = nw\<lparr>nw_failCount := (nw_failCount nw)(url \<mapsto> i64 (WebhookFailCount url nw + 1))\<rparr>"

text \<open>
  The attempts. \<open>post\<close> makes one request: building or sending it fails, or it has a status. The first
  argument is the number of attempts left, \<open>first\<close> says that none has been made; the result says
  whether one succeeded, the last error, and the pauses taken.
\<close>

fun send_loop :: "('w \<Rightarrow> (go_err + int) \<times> 'w) \<Rightarrow> nat \<Rightarrow> bool \<Rightarrow> duration \<Rightarrow> go_err option \<Rightarrow> 'w
    \<Rightarrow> (bool \<times> go_err option \<times> duration list) \<times> 'w" where
  "send_loop post 0 first backoff lastErr w = ((False, lastErr, []), w)"
| "send_loop post (Suc n) first backoff lastErr w =
     (let pauses = (if first then [] else [backoff]);
          backoff' = (if first then backoff else i64 (backoff * 2))
      in case post w of (reply, w1) \<Rightarrow>
        (case reply of
           Inr status \<Rightarrow> if 200 \<le> status \<and> status < 300 then ((True, None, pauses), w1)
             else (case send_loop post n False backoff' (Some (Err (''webhook returned status '' @ show_int status))) w1 of
               ((ok, err, ps), w2) \<Rightarrow> ((ok, err, pauses @ ps), w2))
         | Inl e \<Rightarrow> (case send_loop post n False backoff' (Some e) w1 of
               ((ok, err, ps), w2) \<Rightarrow> ((ok, err, pauses @ ps), w2))))"

text \<open>\<open>post url data event\<close>. Attempts are numbered 0 to \<open>maxRetries\<close>: there is none when it is negative.\<close>

definition sendWebhook ::
    "(webhookPayload \<Rightarrow> go_err + string) \<Rightarrow> (string \<Rightarrow> string \<Rightarrow> string \<Rightarrow> 'w \<Rightarrow> (go_err + int) \<times> 'w)
      \<Rightarrow> string \<Rightarrow> webhookPayload \<Rightarrow> nodeWebhook \<times> 'w \<Rightarrow> (go_err option \<times> duration list) \<times> nodeWebhook \<times> 'w" where
  "sendWebhook marshal post url payload = (\<lambda>(nw, w). case marshal payload of
       Inl e \<Rightarrow> ((Some e, []), nw, w)
     | Inr data \<Rightarrow> (case send_loop (post url data (wp_Event payload)) (nat (nw_maxRetries nw + 1)) True 500000000 None w of
         ((True, _, ps), w') \<Rightarrow> ((None, ps), nw_recordSuccess url nw, w')
       | ((False, err, ps), w') \<Rightarrow> ((err, ps), nw_recordFailure url nw, w')))"

section \<open>The dashboard of activity\<close>

record activity =
  ac_ID :: string
  ac_Type :: string
  ac_User :: string
  ac_Action :: string
  ac_Details :: string
  ac_Timestamp :: time
  ac_IP :: string

record activityDashboard =
  ad_activities :: "activity list"
  ad_maxEntries :: int

definition NewActivityDashboard :: "int \<Rightarrow> activityDashboard" where
  "NewActivityDashboard maxEntries = \<lparr>ad_activities = [], ad_maxEntries = (if maxEntries \<le> 0 then 500 else maxEntries)\<rparr>"

definition ad_Record :: "time \<Rightarrow> activity \<Rightarrow> activityDashboard \<Rightarrow> activityDashboard" where
  "ad_Record now a ad = ad\<lparr>ad_activities := push_bounded (ad_maxEntries ad)
     (a\<lparr>ac_ID := ''act-'' @ show_int now, ac_Timestamp := now\<rparr>) (ad_activities ad)\<rparr>"

definition GetActivities :: "int \<Rightarrow> activityDashboard \<Rightarrow> activity list" where
  "GetActivities limit ad =
     (let n = (if limit \<le> 0 \<or> limit > int (length (ad_activities ad)) then int (length (ad_activities ad)) else limit)
      in drop (length (ad_activities ad) - nat n) (ad_activities ad))"

fun by_user_loop :: "string \<Rightarrow> int \<Rightarrow> activity list \<Rightarrow> activity list \<Rightarrow> activity list" where
  "by_user_loop user limit result [] = result"
| "by_user_loop user limit result (a # as) =
     (if ac_User a = user then
        if int (length (result @ [a])) \<ge> limit then result @ [a] else by_user_loop user limit (result @ [a]) as
      else by_user_loop user limit result as)"

definition GetByUser :: "string \<Rightarrow> int \<Rightarrow> activityDashboard \<Rightarrow> activity list" where
  "GetByUser user limit ad = by_user_loop user limit [] (ad_activities ad)"

text \<open>\<open>status\<close> is the status the rest of the chain has written.\<close>

definition ad_Middleware :: "time \<Rightarrow> http_req \<Rightarrow> int \<Rightarrow> activityDashboard \<Rightarrow> activityDashboard" where
  "ad_Middleware now r status ad =
     (let u = rq_header r ''X-User''; user = (if u = '''' then ''anonymous'' else u) in
      if rq_method r = ''GET'' \<or> rq_path r = ''/health'' then ad
      else ad_Record now \<lparr>ac_ID = '''', ac_Type = ''api_request'', ac_User = user, ac_Action = rq_method r @ '' '' @ rq_path r,
        ac_Details = (if status \<ge> 400 then ''failed with status '' @ show_int status else ''''),
        ac_Timestamp = zero_time, ac_IP = rq_clientIP r\<rparr> ad)"

definition ad_listHandler :: "string \<Rightarrow> activityDashboard \<Rightarrow> activity list resp" where
  "ad_listHandler l ad = (200, Inr (GetActivities (query_limit 50 l) ad))"

definition ad_userHandler :: "string \<Rightarrow> string \<Rightarrow> activityDashboard \<Rightarrow> (string \<times> activity list) resp" where
  "ad_userHandler user l ad = (200, Inr (user, GetByUser user (query_limit 20 l) ad))"

section \<open>Lemmas\<close>

lemma subscribed_iff: "subscribed event es \<longleftrightarrow> event \<in> set es \<or> ''*'' \<in> set es"
  by (induction es) auto

lemma by_user_loop_eq:
  "by_user_loop user limit result as = result @
     (let mine = filter (\<lambda>a. ac_User a = user) as in take (max 1 (nat (limit - int (length result)))) mine)"
proof (induction as arbitrary: result)
  case (Cons a as)
  show ?case
  proof (cases "ac_User a = user \<and> limit > int (length result) + 1")
    case True
    then have "max 1 (nat (limit - int (length result))) = Suc (max 1 (nat (limit - int (length (result @ [a])))))" by auto
    with True Cons.IH [of "result @ [a]"] show ?thesis by (simp add: Let_def)
  next
    case False
    then have "ac_User a = user \<Longrightarrow> max 1 (nat (limit - int (length result))) = 1" by auto
    with False Cons.IH [of result] show ?thesis by (auto simp: Let_def)
  qed
qed simp

text \<open>An attempt succeeds when it has a status from 200 to 299.\<close>

definition delivered :: "go_err + int \<Rightarrow> bool" where
  "delivered reply = (case reply of Inl _ \<Rightarrow> False | Inr status \<Rightarrow> 200 \<le> status \<and> status < 300)"

definition delivery_error :: "go_err + int \<Rightarrow> go_err" where
  "delivery_error reply = (case reply of Inl e \<Rightarrow> e | Inr status \<Rightarrow> Err (''webhook returned status '' @ show_int status))"

lemma send_loop_Suc:
  "send_loop post (Suc n) first b lastErr w = (case post w of (reply, w1) \<Rightarrow>
     if delivered reply then ((True, None, if first then [] else [b]), w1)
     else (case send_loop post n False (if first then b else i64 (b * 2)) (Some (delivery_error reply)) w1 of
       ((ok, err, ps), w2) \<Rightarrow> ((ok, err, (if first then [] else [b]) @ ps), w2)))"
proof (cases "post w")
  case (Pair reply w1)
  then show ?thesis
    by (cases reply) (simp_all add: delivered_def delivery_error_def Let_def)
qed

declare send_loop.simps(2) [simp del]

text \<open>A server that answers the attempts by number; the world counts them.\<close>

definition scripted :: "(nat \<Rightarrow> go_err + int) \<Rightarrow> nat \<Rightarrow> (go_err + int) \<times> nat" where
  "scripted reply k = (reply k, Suc k)"

lemma send_loop_scripted:
  assumes "\<forall>i < n. (0::int) < b * 2 ^ i \<and> b * 2 ^ i < 2 ^ 63"
  shows "send_loop (scripted reply) n False b err k =
    (let bad = takeWhile (\<lambda>i. \<not> delivered (reply (k + i))) [0..<n]; m = length bad; ok = m < n; tries = (if ok then Suc m else n)
     in ((ok, if ok then None else if n = 0 then err else Some (delivery_error (reply (k + n - 1))), map (\<lambda>i. b * 2 ^ i) [0..<tries]), k + tries))"
  using assms
proof (induction n arbitrary: b err k)
  case (Suc n)
  have tw: "takeWhile (\<lambda>i. \<not> delivered (reply (k + i))) [0..<Suc n] =
     (if delivered (reply k) then [] else 0 # map Suc (takeWhile (\<lambda>i. \<not> delivered (reply (Suc k + i))) [0..<n]))"
    by (simp add: upt_conv_Cons map_Suc_upt [symmetric] takeWhile_map comp_def del: upt_Suc)
  show ?case
  proof (cases "delivered (reply k)")
    case True
    then show ?thesis by (simp add: send_loop_Suc scripted_def [of reply k] tw del: upt_Suc) (simp add: upt_rec)
  next
    case False
    have b: "i64 (b * 2) = b * 2" if "0 < n"
      using Suc.prems that by (intro i64_id_bounds) (auto dest: spec [of _ 1])
    have IH: "send_loop (scripted reply) n False (i64 (b * 2)) (Some (delivery_error (reply k))) (Suc k) =
      (let bad = takeWhile (\<lambda>i. \<not> delivered (reply (Suc k + i))) [0..<n]; m = length bad; ok = m < n; tries = (if ok then Suc m else n)
       in ((ok, if ok then None else if n = 0 then Some (delivery_error (reply k)) else Some (delivery_error (reply (Suc k + n - 1))), map (\<lambda>i. b * 2 * 2 ^ i) [0..<tries]), Suc k + tries))"
    proof (cases "n = 0")
      case False
      then show ?thesis unfolding b [OF False [THEN neq0_conv [THEN iffD1]]]
        using Suc.prems by (intro Suc.IH) (auto dest: spec [of _ "Suc _"] simp: mult.assoc)
    qed simp
    have m: "map (\<lambda>i. b * 2 ^ i) [0..<Suc t] = b * 1 # map (\<lambda>i. b * 2 * 2 ^ i) [0..<t]" for t
      by (simp add: upt_conv_Cons map_Suc_upt [symmetric] comp_def mult.assoc del: upt_Suc)
    show ?thesis using False
      by (simp add: send_loop_Suc scripted_def [of reply k] IH tw m Let_def del: upt_Suc)
  qed
qed simp

section \<open>Properties\<close>

text \<open>C34: Delivering a webhook ends, with at most one attempt more than the retries allowed and up to
  33 of them at any setting: it stops at the first answer from 200 to 299, the pauses before the further
  attempts are half a second doubled each time, and the failure count of the URL is then cleared, or else
  grows by one and the error of the last attempt is returned.\<close>

theorem webhook_delivery:
  assumes "marshal p = Inr data" and "0 \<le> nw_maxRetries nw" and "nw_maxRetries nw \<le> 33"
  shows "sendWebhook marshal (\<lambda>_ _ _. scripted reply) url p (nw, 0) =
    (let n = nat (nw_maxRetries nw); first = length (takeWhile (\<lambda>i. \<not> delivered (reply i)) [0..<Suc n]);
         ok = first \<le> n; tries = (if ok then Suc first else Suc n)
     in ((if ok then None else Some (delivery_error (reply n)), map (\<lambda>i. 500000000 * 2 ^ i) [0..<tries - 1]),
         if ok then nw_recordSuccess url nw else nw_recordFailure url nw, tries))"
proof -
  let ?n = "nat (nw_maxRetries nw)"
  have m: "nat (nw_maxRetries nw + 1) = Suc ?n" using assms(2) by simp
  have b: "\<forall>i < ?n. (0::int) < 500000000 * 2 ^ i \<and> (500000000::int) * 2 ^ i < 2 ^ 63"
  proof (intro allI impI)
    fix i assume "i < ?n"
    then have "i \<le> 32" using assms(3) by simp
    then have "(2::int) ^ i \<le> 2 ^ 32" by (intro power_increasing) auto
    then show "(0::int) < 500000000 * 2 ^ i \<and> (500000000::int) * 2 ^ i < 2 ^ 63" by simp
  qed
  have tw: "takeWhile (\<lambda>i. \<not> delivered (reply i)) [0..<Suc ?n] =
     (if delivered (reply 0) then [] else 0 # map Suc (takeWhile (\<lambda>i. \<not> delivered (reply (Suc i))) [0..<?n]))"
    by (simp add: upt_conv_Cons map_Suc_upt [symmetric] takeWhile_map comp_def del: upt_Suc)
  show ?thesis
  proof (cases "delivered (reply 0)")
    case True
    then show ?thesis using assms(1) m by (simp add: sendWebhook_def send_loop_Suc scripted_def [of reply 0] tw del: upt_Suc)
  next
    case False
    show ?thesis using assms(1) m False send_loop_scripted [OF b, of reply "Some (delivery_error (reply 0))" "Suc 0"]
      by (simp add: sendWebhook_def send_loop_Suc scripted_def [of reply 0] tw Let_def del: upt_Suc)
  qed
qed

theorem webhook_delivery_witness:
  "sendWebhook (\<lambda>_. Inr ''data'') (\<lambda>_ _ _. scripted (\<lambda>i. if i = 0 then Inr 500 else Inr 204)) ''u''
      \<lparr>wp_Event = ''down'', wp_NodeID = ''n'', wp_State = ''s'', wp_Timestamp = 0\<rparr> (NewNodeWebhook 3, 0) =
    ((None, [500000000]), nw_recordSuccess ''u'' (NewNodeWebhook 3), 2)"
proof -
  have "[0..<Suc (nat 3)] = [0, 1, 2, 3]" by (simp add: upt_rec)
  then show ?thesis
    using webhook_delivery [of "\<lambda>_. Inr ''data''" "\<lparr>wp_Event = ''down'', wp_NodeID = ''n'', wp_State = ''s'', wp_Timestamp = 0\<rparr>"
      "''data''" "NewNodeWebhook 3" "\<lambda>i. if i = 0 then Inr 500 else Inr 204" "''u''"]
    by (simp add: NewNodeWebhook_def delivered_def Let_def upt_conv_Cons del: upt_Suc)
qed

text \<open>Only the activities of the user asked for are listed, oldest first, and at least one of them
  even when the limit is zero or negative.\<close>

theorem user_activities:
  "GetByUser user limit ad = take (max 1 (nat limit)) (filter (\<lambda>a. ac_User a = user) (ad_activities ad))"
  by (simp add: GetByUser_def by_user_loop_eq Let_def)

text \<open>With no retry allowed below zero, nothing is sent and no error returned, but a failure is counted.\<close>

lemma negative_retries_silent:
  "marshal p = Inr data \<Longrightarrow> nw_maxRetries nw < 0 \<Longrightarrow>
   sendWebhook marshal post url p (nw, w) = ((None, []), nw_recordFailure url nw, w)"
  by (simp add: sendWebhook_def)

end
