(* ===== verification/Hub.thy ===== *)
theory Hub
  imports Go_Chan Http Node_Store
begin

text \<open>
  The hub of live connections (\<open>gateway/websocket.go\<close>): three queues, the loop \<open>Run\<close> that serves them
  in no fixed order, and the handlers that connect and disconnect. \<open>setupWebSocket\<close> and \<open>NewGateway\<close> each
  start \<open>Run\<close> on the same hub, so two loops serve it. A step relation interleaves the goroutines at the
  points where they touch shared state: \<open>pending.Add\<close>, each channel operation, each stretch under the
  lock, each client of a broadcast, \<open>pending.Done\<close>. A panic is the successor \<open>None\<close>. JSON texts are
  parameters.
\<close>

section \<open>State\<close>

record wsClient =
  cl_send :: nat
  cl_ip :: "string option"
  cl_prefix :: string

record hub =
  hb_clients :: "wsClient \<rightharpoonup> bool"
  hb_broadcast :: "string list"
  hb_register :: "wsClient list"
  hb_unregister :: "wsClient list"
  hb_pending :: int
  hb_mu :: bool

record nodeUpdate =
  nu_NodeID :: string
  nu_Status :: string
  nu_Country :: string
  nu_Load :: int
  nu_Timestamp :: int

record metricsUpdate =
  mu_Requests :: u64
  mu_Success :: u64
  mu_Failed :: u64
  mu_LatencyAvg :: f64
  mu_Timestamp :: int

record wsMessage =
  wm_Type :: string
  wm_Payload :: string

definition NewHub :: hub where
  "NewHub = \<lparr>hb_clients = Map.empty, hb_broadcast = [], hb_register = [], hb_unregister = [],
     hb_pending = 0, hb_mu = False\<rparr>"

definition getIP :: "wsClient \<Rightarrow> string" where
  "getIP c = (case cl_ip c of Some ip \<Rightarrow> ip | None \<Rightarrow> ''unknown'')"

section \<open>Operations\<close>

text \<open>\<open>Register\<close> and \<open>Unregister\<close> first count their work, then send. The three queues hold 64, 64 and 256
  messages; a sender waits while its queue is full (\<open>None\<close>).\<close>

definition pending_Add :: "hub \<Rightarrow> hub" where
  "pending_Add h = h\<lparr>hb_pending := hb_pending h + 1\<rparr>"

definition Register_send :: "wsClient \<Rightarrow> hub \<Rightarrow> hub option" where
  "Register_send c h = (if length (hb_register h) < 64 then Some (h\<lparr>hb_register := hb_register h @ [c]\<rparr>) else None)"

definition Unregister_send :: "wsClient \<Rightarrow> hub \<Rightarrow> hub option" where
  "Unregister_send c h = (if length (hb_unregister h) < 64 then Some (h\<lparr>hb_unregister := hb_unregister h @ [c]\<rparr>) else None)"

definition hub_Broadcast :: "string \<Rightarrow> hub \<Rightarrow> hub option" where
  "hub_Broadcast m h = (if length (hb_broadcast h) < 256 then Some (h\<lparr>hb_broadcast := hb_broadcast h @ [m]\<rparr>) else None)"

definition ClientCount :: "hub \<Rightarrow> nat" where
  "ClientCount h = card {c. hb_clients h c \<noteq> None}"

text \<open>\<open>Sync\<close> returns once nothing is pending.\<close>

definition hub_synced :: "hub \<Rightarrow> bool" where
  "hub_synced h \<longleftrightarrow> hb_pending h = 0"

text \<open>\<open>pending.Done()\<close> panics below zero.\<close>

definition pending_Done :: "hub \<Rightarrow> hub option" where
  "pending_Done h = (if hb_pending h \<le> 0 then None else Some (h\<lparr>hb_pending := hb_pending h - 1\<rparr>))"

text \<open>Where a loop of \<open>Run\<close> is: at \<open>select\<close>, about to lock with the message it has received, ranging over
  the clients that are left of a broadcast (with the lock), or about to call \<open>pending.Done()\<close>.\<close>

datatype run_pc = AtSelect | GotRegister wsClient | GotUnregister wsClient | GotBroadcast string
  | InBroadcast string "wsClient list" | AtDone

text \<open>\<open>select\<close> picks any of the queues that is not empty.\<close>

datatype run_case = OnRegister | OnUnregister | OnBroadcast

definition run_receive :: "run_case \<Rightarrow> hub \<Rightarrow> (run_pc \<times> hub) option" where
  "run_receive pick h = (case pick of
       OnRegister \<Rightarrow> (case hb_register h of [] \<Rightarrow> None | c # q \<Rightarrow> Some (GotRegister c, h\<lparr>hb_register := q\<rparr>))
     | OnUnregister \<Rightarrow> (case hb_unregister h of [] \<Rightarrow> None | c # q \<Rightarrow> Some (GotUnregister c, h\<lparr>hb_unregister := q\<rparr>))
     | OnBroadcast \<Rightarrow> (case hb_broadcast h of [] \<Rightarrow> None | m # q \<Rightarrow> Some (GotBroadcast m, h\<lparr>hb_broadcast := q\<rparr>)))"

text \<open>What each case does with the lock held. A client whose buffer is full is dropped; an entry that is
  gone is not visited.\<close>

definition run_register :: "wsClient \<Rightarrow> hub \<Rightarrow> hub" where
  "run_register c h = h\<lparr>hb_clients := (hb_clients h)(c \<mapsto> True)\<rparr>"

definition run_unregister :: "wsClient \<Rightarrow> hub \<times> string chans \<Rightarrow> (hub \<times> string chans) option" where
  "run_unregister c = (\<lambda>(h, cs).
     (if hb_clients h c \<noteq> None
      then map_option (Pair (h\<lparr>hb_clients := (hb_clients h)(c := None)\<rparr>)) (go_close (Some (cl_send c)) cs)
      else Some (h, cs)))"

definition run_broadcast :: "string \<Rightarrow> wsClient \<Rightarrow> hub \<times> string chans \<Rightarrow> (hub \<times> string chans) option" where
  "run_broadcast m c = (\<lambda>(h, cs).
     (if hb_clients h c = None then Some (h, cs)
      else (case try_send (Some (cl_send c)) m cs of
          None \<Rightarrow> None
        | Some (True, cs1) \<Rightarrow> Some (h, cs1)
        | Some (False, cs1) \<Rightarrow> map_option (Pair (h\<lparr>hb_clients := (hb_clients h)(c := None)\<rparr>)) (go_close (Some (cl_send c)) cs1))))"

text \<open>One step of a loop after it has received; \<open>order\<close> is the order in which a broadcast will range over
  the clients.\<close>

definition run_ready :: "wsClient list \<Rightarrow> run_pc \<Rightarrow> hub \<Rightarrow> bool" where
  "run_ready order pc h \<longleftrightarrow> (case pc of AtSelect \<Rightarrow> False | GotRegister c \<Rightarrow> \<not> hb_mu h | GotUnregister c \<Rightarrow> \<not> hb_mu h
     | GotBroadcast m \<Rightarrow> \<not> hb_mu h \<and> distinct order \<and> set order = dom (hb_clients h)
     | InBroadcast m cs \<Rightarrow> True | AtDone \<Rightarrow> True)"

definition hub_turn :: "wsClient list \<Rightarrow> run_pc \<Rightarrow> hub \<times> string chans \<Rightarrow> (run_pc \<times> hub \<times> string chans) option" where
  "hub_turn order pc = (\<lambda>(h, cs). case pc of
       AtSelect \<Rightarrow> Some (AtSelect, h, cs)
     | GotRegister c \<Rightarrow> Some (AtDone, run_register c h, cs)
     | GotUnregister c \<Rightarrow> map_option (Pair AtDone) (run_unregister c (h, cs))
     | GotBroadcast m \<Rightarrow> Some (InBroadcast m order, h\<lparr>hb_mu := True\<rparr>, cs)
     | InBroadcast m [] \<Rightarrow> Some (AtSelect, h\<lparr>hb_mu := False\<rparr>, cs)
     | InBroadcast m (c # rest) \<Rightarrow> map_option (Pair (InBroadcast m rest)) (run_broadcast m c (h, cs))
     | AtDone \<Rightarrow> map_option (\<lambda>h'. (AtSelect, h', cs)) (pending_Done h))"

text \<open>What \<open>BroadcastNodeUpdate\<close> and \<open>BroadcastMetricsUpdate\<close> queue; \<open>js\<close> and \<open>jm\<close> are the JSON texts.\<close>

definition BroadcastNodeUpdate :: "(nodeUpdate \<Rightarrow> string) \<Rightarrow> (wsMessage \<Rightarrow> string) \<Rightarrow> nodeUpdate \<Rightarrow> hub \<Rightarrow> hub option" where
  "BroadcastNodeUpdate js jm u = hub_Broadcast (jm \<lparr>wm_Type = ''node_update'', wm_Payload = js u\<rparr>)"

definition BroadcastMetricsUpdate :: "(metricsUpdate \<Rightarrow> string) \<Rightarrow> (wsMessage \<Rightarrow> string) \<Rightarrow> metricsUpdate \<Rightarrow> hub \<Rightarrow> hub option" where
  "BroadcastMetricsUpdate js jm u = hub_Broadcast (jm \<lparr>wm_Type = ''metrics_update'', wm_Payload = js u\<rparr>)"

text \<open>The client that \<open>wsHandler\<close> makes for a connection, and the start of its registration.\<close>

definition ws_connect :: "string \<Rightarrow> hub \<times> string chans \<Rightarrow> wsClient \<times> hub \<times> string chans" where
  "ws_connect ip = (\<lambda>(h, cs). case make_chan 256 cs of (ch, cs') \<Rightarrow>
     (\<lparr>cl_send = ch, cl_ip = Some ip, cl_prefix = ''admin''\<rparr>, pending_Add h, cs'))"

text \<open>One tick of \<open>StartNodeBroadcast\<close>: the updates it broadcasts. Every node is reported healthy.\<close>

definition node_update :: "'r redis \<Rightarrow> (unit \<Rightarrow> time) \<Rightarrow> string \<Rightarrow> 'r \<Rightarrow> nodeUpdate option \<times> 'r" where
  "node_update R now nodeID st = (case GetNode R (now ()) nodeID st of
       (Inl e, st1) \<Rightarrow> (None, st1)
     | (Inr node, st1) \<Rightarrow> (case GetNodeLoad R nodeID st1 of ((load, _), st2) \<Rightarrow>
         (Some \<lparr>nu_NodeID = nodeID, nu_Status = ''healthy'', nu_Country = nd_Country node, nu_Load = load,
            nu_Timestamp = unix_seconds (now ())\<rparr>, st2)))"

definition node_broadcast_tick :: "'r redis \<Rightarrow> (unit \<Rightarrow> time) \<Rightarrow> hub \<Rightarrow> 'r \<Rightarrow> nodeUpdate list \<times> 'r" where
  "node_broadcast_tick R now h st =
     (if ClientCount h = 0 then ([], st)
      else (case GetAllNodes R st of
          (Inl e, st1) \<Rightarrow> ([], st1)
        | (Inr nodes, st1) \<Rightarrow> each (node_update R now) nodes st1))"

section \<open>Interleavings\<close>

text \<open>\<open>ws_arriving\<close> are the connections between their \<open>pending.Add\<close> and the send of their registration,
  \<open>ws_live\<close> those whose handler serves them, \<open>ws_leaving\<close> those that have counted their disconnection and
  not yet sent it; \<open>ws_loops\<close> are the loops of \<open>Run\<close>.\<close>

record ws_sys =
  ws_hub :: hub
  ws_chans :: "string chans"
  ws_loops :: "run_pc list"
  ws_arriving :: "wsClient list"
  ws_live :: "wsClient list"
  ws_leaving :: "wsClient list"

definition ws_start :: ws_sys where
  "ws_start = \<lparr>ws_hub = NewHub, ws_chans = [], ws_loops = [AtSelect, AtSelect], ws_arriving = [], ws_live = [], ws_leaving = []\<rparr>"

definition ws_upd :: "hub \<Rightarrow> string chans \<Rightarrow> ws_sys \<Rightarrow> ws_sys" where
  "ws_upd h cs s = s\<lparr>ws_hub := h, ws_chans := cs\<rparr>"

inductive ws_step :: "ws_sys \<Rightarrow> ws_sys option \<Rightarrow> bool" where
  ws_up: "ws_connect ip (ws_hub s, ws_chans s) = (c, h', cs') \<Longrightarrow>
     ws_step s (Some ((ws_upd h' cs' s)\<lparr>ws_arriving := c # ws_arriving s\<rparr>))"
| ws_registers: "c \<in> set (ws_arriving s) \<Longrightarrow> Register_send c (ws_hub s) = Some h' \<Longrightarrow>
     ws_step s (Some (s\<lparr>ws_hub := h', ws_arriving := remove1 c (ws_arriving s), ws_live := c # ws_live s\<rparr>))"
| ws_down: "c \<in> set (ws_live s) \<Longrightarrow>
     ws_step s (Some (s\<lparr>ws_hub := pending_Add (ws_hub s), ws_live := remove1 c (ws_live s), ws_leaving := c # ws_leaving s\<rparr>))"
| ws_unregisters: "c \<in> set (ws_leaving s) \<Longrightarrow> Unregister_send c (ws_hub s) = Some h' \<Longrightarrow>
     ws_step s (Some (s\<lparr>ws_hub := h', ws_leaving := remove1 c (ws_leaving s)\<rparr>))"
| ws_cast: "hub_Broadcast m (ws_hub s) = Some h' \<Longrightarrow> ws_step s (Some (s\<lparr>ws_hub := h'\<rparr>))"
| ws_receive: "i < length (ws_loops s) \<Longrightarrow> ws_loops s ! i = AtSelect \<Longrightarrow> run_receive pick (ws_hub s) = Some (pc, h') \<Longrightarrow>
     ws_step s (Some (s\<lparr>ws_hub := h', ws_loops := (ws_loops s)[i := pc]\<rparr>))"
| ws_turn: "i < length (ws_loops s) \<Longrightarrow> run_ready order (ws_loops s ! i) (ws_hub s) \<Longrightarrow>
     ws_step s (map_option (\<lambda>(pc, h', cs'). (ws_upd h' cs' s)\<lparr>ws_loops := (ws_loops s)[i := pc]\<rparr>)
       (hub_turn order (ws_loops s ! i) (ws_hub s, ws_chans s)))"
| ws_read: "i < length (ws_chans s) \<Longrightarrow> ch_buf (ws_chans s ! i) = x # xs \<Longrightarrow>
     ws_step s (Some (s\<lparr>ws_chans := (ws_chans s)[i := (ws_chans s ! i)\<lparr>ch_buf := xs\<rparr>]\<rparr>))"

inductive ws_reach :: "ws_sys \<Rightarrow> bool" where
  ws_init: "ws_reach ws_start"
| ws_more: "ws_reach s \<Longrightarrow> ws_step s (Some s') \<Longrightarrow> ws_reach s'"

section \<open>The invariant\<close>

text \<open>\<open>hub_tab m q\<close> are the channels of the clients in the table \<open>m\<close> and of those in \<open>q\<close>, on their way
  into it.\<close>

definition hub_tab :: "(wsClient \<rightharpoonup> bool) \<Rightarrow> wsClient list \<Rightarrow> wsClient \<Rightarrow> nat option" where
  "hub_tab m q c = (if m c \<noteq> None \<or> c \<in> set q then Some (cl_send c) else None)"

definition hub_ok :: "(wsClient \<rightharpoonup> bool) \<Rightarrow> wsClient list \<Rightarrow> string chans \<Rightarrow> bool" where
  "hub_ok m q cs \<longleftrightarrow> chan_table (hub_tab m q) cs \<and> distinct q \<and> (\<forall>c \<in> set q. m c = None)"

fun pc_brings :: "run_pc \<Rightarrow> wsClient list" where
  "pc_brings (GotRegister c) = [c]"
| "pc_brings pc = []"

text \<open>Whether a loop is between receiving a connection or disconnection and its \<open>pending.Done()\<close>.\<close>

fun pc_serves :: "run_pc \<Rightarrow> bool" where
  "pc_serves (GotRegister c) = True"
| "pc_serves (GotUnregister c) = True"
| "pc_serves AtDone = True"
| "pc_serves pc = False"

definition ws_coming :: "ws_sys \<Rightarrow> wsClient list" where
  "ws_coming s = ws_arriving s @ hb_register (ws_hub s) @ concat (map pc_brings (ws_loops s))"

definition ws_owed :: "ws_sys \<Rightarrow> nat" where
  "ws_owed s = length (ws_arriving s) + length (hb_register (ws_hub s)) + length (ws_leaving s) +
     length (hb_unregister (ws_hub s)) + length (filter pc_serves (ws_loops s))"

definition ws_ok :: "ws_sys \<Rightarrow> bool" where
  "ws_ok s \<longleftrightarrow> hub_ok (hb_clients (ws_hub s)) (ws_coming s) (ws_chans s) \<and> hb_pending (ws_hub s) = int (ws_owed s)"

lemma hub_okD:
  assumes "hub_ok m q cs"
  shows "chan_table (hub_tab m q) cs" and "distinct q" and "c \<in> set q \<Longrightarrow> m c = None"
    and "hub_tab m q c = Some i \<Longrightarrow> live_chan cs i"
  using assms by (auto simp: hub_ok_def chan_table_def)

lemma hub_client_live: "hub_ok m q cs \<Longrightarrow> m c \<noteq> None \<Longrightarrow> live_chan cs (cl_send c)"
  by (rule hub_okD(4) [where c = c]) (auto simp: hub_tab_def simp del: not_None_eq)

lemma hub_ok_set: "hub_ok m q cs \<Longrightarrow> set q' = set q \<Longrightarrow> distinct q' \<Longrightarrow> hub_ok m q' cs"
  by (simp add: hub_ok_def hub_tab_def [abs_def])

lemma hub_tab_drop:
  "hub_ok m q cs \<Longrightarrow> m c \<noteq> None \<Longrightarrow> hub_tab (m(c := None)) q = (hub_tab m q)(c := None)"
  using hub_okD(3) by (fastforce simp: hub_tab_def)

text \<open>Dropping a client: its channel is closed, once.\<close>

lemma hub_ok_drop:
  assumes "hub_ok m q cs" and "m c \<noteq> None"
  shows "\<exists>cs'. go_close (Some (cl_send c)) cs = Some cs' \<and> hub_ok (m(c := None)) q cs'"
proof -
  have "hub_tab m q c = Some (cl_send c)" using assms(2) by (simp add: hub_tab_def)
  from chan_table_close [OF hub_okD(1) [OF assms(1)] this] obtain cs' where
    "go_close (Some (cl_send c)) cs = Some cs'" "chan_table ((hub_tab m q)(c := None)) cs'" by blast
  with assms show ?thesis by (auto simp: hub_tab_drop hub_ok_def)
qed

lemma run_unregister_ok:
  assumes "hub_ok (hb_clients h) q cs"
  shows "\<exists>m cs'. run_unregister c (h, cs) = Some (h\<lparr>hb_clients := m\<rparr>, cs') \<and> hub_ok m q cs'"
proof (cases "hb_clients h c = None")
  case True
  then show ?thesis using assms by (intro exI [of _ "hb_clients h"]) (simp add: run_unregister_def)
next
  case False
  then show ?thesis using hub_ok_drop [OF assms False] by (auto simp: run_unregister_def)
qed

lemma run_broadcast_ok:
  assumes "hub_ok (hb_clients h) q cs"
  shows "\<exists>m' cs'. run_broadcast msg c (h, cs) = Some (h\<lparr>hb_clients := m'\<rparr>, cs') \<and> hub_ok m' q cs'"
proof (cases "hb_clients h c = None")
  case True
  then show ?thesis using assms by (intro exI [of _ "hb_clients h"]) (simp add: run_broadcast_def)
next
  case False
  obtain b cs1 where s: "try_send (Some (cl_send c)) msg cs = Some (b, cs1)"
    using try_send_live [OF hub_client_live [OF assms False]] by blast
  have ok1: "hub_ok (hb_clients h) q cs1"
    using assms chan_table_send(2) [OF hub_okD(1) [OF assms] s] by (simp add: hub_ok_def)
  show ?thesis
  proof (cases b)
    case True
    then show ?thesis using ok1 s False by (intro exI [of _ "hb_clients h"]) (auto simp: run_broadcast_def)
  next
    case b: False
    then show ?thesis using hub_ok_drop [OF ok1 False] s False by (auto simp: run_broadcast_def)
  qed
qed

lemma hub_ok_register: "hub_ok m q cs \<Longrightarrow> set q = insert c (set q') \<Longrightarrow> distinct q' \<Longrightarrow> c \<notin> set q' \<Longrightarrow> hub_ok (m(c \<mapsto> b)) q' cs"
proof -
  assume a: "hub_ok m q cs" "set q = insert c (set q')" "distinct q'" "c \<notin> set q'"
  then have "hub_tab (m(c \<mapsto> b)) q' = hub_tab m q" by (auto simp: hub_tab_def fun_eq_iff)
  with a show ?thesis by (auto simp: hub_ok_def)
qed

text \<open>Replacing the position of one loop.\<close>

lemma loops_split:
  assumes "i < length xs"
  obtains before after where "xs = before @ xs ! i # after" and "i = length before"
  using assms by (metis id_take_nth_drop length_take min.absorb4)

lemma run_receive_ok:
  assumes "ws_ok s" and "i < length (ws_loops s)" and "ws_loops s ! i = AtSelect" and "run_receive pick (ws_hub s) = Some (pc, h')"
  shows "ws_ok (s\<lparr>ws_hub := h', ws_loops := (ws_loops s)[i := pc]\<rparr>)"
proof -
  obtain before after where l: "ws_loops s = before @ AtSelect # after" "i = length before"
    using loops_split [OF assms(2)] assms(3) by metis
  have h: "hub_ok (hb_clients (ws_hub s)) (ws_coming s) (ws_chans s)" "hb_pending (ws_hub s) = int (ws_owed s)"
    using assms(1) by (simp_all add: ws_ok_def)
  show ?thesis
  proof (cases pick)
    case OnRegister
    then obtain c q where q: "hb_register (ws_hub s) = c # q" "pc = GotRegister c" "h' = (ws_hub s)\<lparr>hb_register := q\<rparr>"
      using assms(4) by (auto simp: run_receive_def split: list.splits)
    have "hub_ok (hb_clients (ws_hub s)) (ws_arriving s @ q @ concat (map pc_brings (before @ pc # after))) (ws_chans s)"
      by (rule hub_ok_set [OF h(1)]) (use hub_okD(2) [OF h(1)] in \<open>auto simp: ws_coming_def l q\<close>)
    then show ?thesis using h(2) by (simp add: ws_ok_def ws_coming_def ws_owed_def l q)
  qed (use assms(4) h in \<open>auto simp: run_receive_def ws_ok_def ws_coming_def ws_owed_def l split: list.splits\<close>)
qed

lemma hub_turn_ok:
  assumes "ws_ok s" and "i < length (ws_loops s)" and "run_ready order (ws_loops s ! i) (ws_hub s)"
  shows "\<exists>pc h' cs'. hub_turn order (ws_loops s ! i) (ws_hub s, ws_chans s) = Some (pc, h', cs') \<and>
    ws_ok ((ws_upd h' cs' s)\<lparr>ws_loops := (ws_loops s)[i := pc]\<rparr>)"
proof -
  obtain before after pc where l: "ws_loops s = before @ pc # after" "i = length before"
    using loops_split [OF assms(2)] by metis
  have h: "hub_ok (hb_clients (ws_hub s)) (ws_coming s) (ws_chans s)" "hb_pending (ws_hub s) = int (ws_owed s)"
    using assms(1) by (simp_all add: ws_ok_def)
  note ws = ws_ok_def ws_coming_def ws_owed_def ws_upd_def l
  show ?thesis
  proof (cases pc)
    case (GotRegister c)
    have "hub_ok ((hb_clients (ws_hub s))(c \<mapsto> True))
        (ws_arriving s @ hb_register (ws_hub s) @ concat (map pc_brings (before @ AtDone # after))) (ws_chans s)"
      by (rule hub_ok_register [OF h(1)]) (use hub_okD(2) [OF h(1)] in \<open>auto simp: ws_coming_def l GotRegister\<close>)
    then show ?thesis using h(2) by (simp add: GotRegister hub_turn_def run_register_def ws)
  next
    case (GotUnregister c)
    from run_unregister_ok [OF h(1)] obtain m cs' where
      "run_unregister c (ws_hub s, ws_chans s) = Some ((ws_hub s)\<lparr>hb_clients := m\<rparr>, cs')" "hub_ok m (ws_coming s) cs'" by blast
    then show ?thesis using h(2) by (simp add: GotUnregister hub_turn_def ws)
  next
    case (GotBroadcast m)
    then show ?thesis using h by (simp add: GotBroadcast hub_turn_def ws)
  next
    case (InBroadcast m clients)
    show ?thesis
    proof (cases clients)
      case Nil
      then show ?thesis using h by (simp add: InBroadcast hub_turn_def ws)
    next
      case (Cons c rest)
      from run_broadcast_ok [OF h(1)] obtain m' cs' where
        "run_broadcast m c (ws_hub s, ws_chans s) = Some ((ws_hub s)\<lparr>hb_clients := m'\<rparr>, cs')" "hub_ok m' (ws_coming s) cs'" by blast
      then show ?thesis using h(2) by (simp add: Cons InBroadcast hub_turn_def ws)
    qed
  next
    case AtDone
    then show ?thesis using h by (simp add: AtDone hub_turn_def pending_Done_def ws)
  qed (use assms(3) in \<open>simp add: run_ready_def l\<close>)
qed

lemma ws_connect_ok:
  assumes "ws_ok s" and "ws_connect ip (ws_hub s, ws_chans s) = (c, h', cs')"
  shows "ws_ok ((ws_upd h' cs' s)\<lparr>ws_arriving := c # ws_arriving s\<rparr>)"
proof -
  let ?m = "hb_clients (ws_hub s)" and ?q = "ws_coming s"
  have h: "hub_ok ?m ?q (ws_chans s)" "hb_pending (ws_hub s) = int (ws_owed s)"
    using assms(1) by (simp_all add: ws_ok_def)
  have c: "cl_send c = length (ws_chans s)" "cs' = snd (make_chan 256 (ws_chans s))" "h' = pending_Add (ws_hub s)"
    using assms(2) by (auto simp: ws_connect_def make_chan_def)
  have "\<not> live_chan (ws_chans s) (length (ws_chans s))" by (simp add: live_chan_def)
  then have "hub_tab ?m ?q c \<noteq> Some (length (ws_chans s))" using hub_okD(4) [OF h(1)] by blast
  then have n: "?m c = None" "c \<notin> set ?q" using c(1) by (simp_all add: hub_tab_def split: if_splits)
  have "hub_tab ?m (c # ?q) = (hub_tab ?m ?q)(c \<mapsto> length (ws_chans s))" by (auto simp: c hub_tab_def)
  then have "chan_table (hub_tab ?m (c # ?q)) cs'" using chan_table_add [OF hub_okD(1) [OF h(1)]] by (simp add: c(2))
  with n h have "hub_ok ?m (c # ?q) cs'" by (auto simp: hub_ok_def)
  with h(2) show ?thesis by (simp add: ws_ok_def ws_coming_def ws_owed_def ws_upd_def c(3) pending_Add_def)
qed

lemma chan_table_read:
  "chan_table t (cs[i := (cs ! i)\<lparr>ch_buf := xs\<rparr>]) = chan_table t cs"
proof -
  have "live_chan (cs[i := (cs ! i)\<lparr>ch_buf := xs\<rparr>]) j = live_chan cs j" for j
    by (cases "i = j") (auto simp: live_chan_def)
  then show ?thesis by (simp add: chan_table_def)
qed

lemma ws_step_ok:
  assumes "ws_step s o1" and "ws_ok s"
  shows "\<exists>s'. o1 = Some s' \<and> ws_ok s'"
  using assms(1)
proof cases
  case (ws_up ip c h' cs')
  then show ?thesis using ws_connect_ok [OF assms(2)] by auto
next
  case (ws_registers c h')
  have h: "hub_ok (hb_clients (ws_hub s)) (ws_coming s) (ws_chans s)" using assms(2) by (simp add: ws_ok_def)
  have h': "h' = (ws_hub s)\<lparr>hb_register := hb_register (ws_hub s) @ [c]\<rparr>"
    using ws_registers by (simp add: Register_send_def split: if_splits)
  have d: "distinct (ws_arriving s)" using hub_okD(2) [OF h] by (simp add: ws_coming_def)
  have "hub_ok (hb_clients (ws_hub s)) (remove1 c (ws_arriving s) @ (hb_register (ws_hub s) @ [c]) @ concat (map pc_brings (ws_loops s))) (ws_chans s)"
    by (rule hub_ok_set [OF h]) (use hub_okD(2) [OF h] d ws_registers(2) in \<open>auto simp: ws_coming_def\<close>)
  moreover have "length (ws_arriving s) = Suc (length (remove1 c (ws_arriving s)))"
    using ws_registers(2) by (metis One_nat_def Suc_pred length_pos_if_in_set length_remove1)
  ultimately show ?thesis using assms(2) ws_registers(1) by (simp add: ws_ok_def ws_coming_def ws_owed_def h')
next
  case (ws_down c)
  then show ?thesis using assms(2) by (simp add: pending_Add_def ws_ok_def ws_coming_def ws_owed_def)
next
  case (ws_unregisters c h')
  moreover have "length (ws_leaving s) = Suc (length (remove1 c (ws_leaving s)))"
    using ws_unregisters(2) by (metis One_nat_def Suc_pred length_pos_if_in_set length_remove1)
  ultimately show ?thesis using assms(2)
    by (auto simp: Unregister_send_def ws_ok_def ws_coming_def ws_owed_def split: if_splits)
next
  case (ws_cast m h')
  then show ?thesis using assms(2) by (auto simp: hub_Broadcast_def ws_ok_def ws_coming_def ws_owed_def split: if_splits)
next
  case (ws_receive i pick pc h')
  then show ?thesis using run_receive_ok [OF assms(2)] by blast
next
  case (ws_turn i order)
  then show ?thesis using hub_turn_ok [OF assms(2), of i order] by auto
next
  case (ws_read i x xs)
  then show ?thesis using assms(2) by (simp add: ws_ok_def hub_ok_def ws_coming_def ws_owed_def chan_table_read)
qed

lemma ws_reach_ok: "ws_reach s \<Longrightarrow> ws_ok s"
proof (induction rule: ws_reach.induct)
  case ws_init
  then show ?case by (simp add: ws_start_def NewHub_def ws_ok_def hub_ok_def ws_coming_def ws_owed_def hub_tab_def [abs_def])
next
  case (ws_more s s')
  then show ?case using ws_step_ok by fastforce
qed

inductive_cases ws_step_panics: "ws_step s None"

section \<open>A run\<close>

text \<open>One client connects and is gone before a loop has served anything; its disconnection is served first.\<close>

definition ws_client :: wsClient where
  "ws_client = \<lparr>cl_send = 0, cl_ip = Some ''ip'', cl_prefix = ''admin''\<rparr>"

definition ws_demo :: "(wsClient \<rightharpoonup> bool) \<Rightarrow> wsClient list \<Rightarrow> wsClient list \<Rightarrow> int \<Rightarrow> run_pc \<Rightarrow> ws_sys" where
  "ws_demo m r u p pc = \<lparr>ws_hub = \<lparr>hb_clients = m, hb_broadcast = [], hb_register = r, hb_unregister = u, hb_pending = p, hb_mu = False\<rparr>,
     ws_chans = [\<lparr>ch_open = True, ch_cap = 256, ch_buf = []\<rparr>], ws_loops = [pc, AtSelect],
     ws_arriving = [], ws_live = [], ws_leaving = []\<rparr>"

lemmas ws_demo_simps = ws_demo_def ws_upd_def pending_Add_def pending_Done_def Register_send_def Unregister_send_def
  run_receive_def run_ready_def hub_turn_def run_register_def run_unregister_def

lemma ws_reach_queued: "ws_reach (ws_demo Map.empty [ws_client] [ws_client] 2 AtSelect)"
proof -
  let ?s = "ws_demo Map.empty [] [] 1 AtSelect" and ?r = "ws_demo Map.empty [ws_client] [] 1 AtSelect"
  have 1: "ws_reach (?s\<lparr>ws_arriving := [ws_client]\<rparr>)"
    using ws_more [OF ws_init ws_up [of "''ip''" ws_start ws_client "ws_hub ?s" "ws_chans ?s"]]
    by (simp add: ws_start_def NewHub_def ws_connect_def make_chan_def ws_demo_simps ws_client_def)
  have 2: "ws_reach (?r\<lparr>ws_live := [ws_client]\<rparr>)"
    using ws_more [OF 1 ws_registers [of ws_client _ "ws_hub ?r"]] by (simp add: ws_demo_simps)
  have 3: "ws_reach ((ws_demo Map.empty [ws_client] [] 2 AtSelect)\<lparr>ws_leaving := [ws_client]\<rparr>)"
    using ws_more [OF 2 ws_down [of ws_client]] by (simp add: ws_demo_simps)
  show ?thesis
    using ws_more [OF 3 ws_unregisters [of ws_client _ "ws_hub (ws_demo Map.empty [ws_client] [ws_client] 2 AtSelect)"]]
    by (simp add: ws_demo_simps)
qed

text \<open>What a loop does from a state of the run.\<close>

lemma ws_demo_receive:
  "ws_reach (ws_demo m r u p AtSelect) \<Longrightarrow> run_receive pick (ws_hub (ws_demo m r u p AtSelect)) = Some (pc, ws_hub (ws_demo m r' u' p AtSelect)) \<Longrightarrow>
   ws_reach (ws_demo m r' u' p pc)"
  using ws_more [OF _ ws_receive [of 0 "ws_demo m r u p AtSelect" pick pc]] by (simp add: ws_demo_def)

lemma ws_demo_turn:
  "ws_reach (ws_demo m r u p pc) \<Longrightarrow> run_ready [] pc (ws_hub (ws_demo m r u p pc)) \<Longrightarrow>
   hub_turn [] pc (ws_hub (ws_demo m r u p pc), ws_chans (ws_demo m r u p pc)) =
     Some (pc', ws_hub (ws_demo m' r u p' pc), ws_chans (ws_demo m r u p pc)) \<Longrightarrow>
   ws_reach (ws_demo m' r u p' pc')"
  using ws_more [of "ws_demo m r u p pc" "ws_demo m' r u p' pc'"] ws_turn [of 0 "ws_demo m r u p pc" "[]"]
  by (simp add: ws_demo_def ws_upd_def)

lemma ws_reach_left_over: "ws_reach (ws_demo [ws_client \<mapsto> True] [] [] 0 AtSelect)"
proof -
  have 1: "ws_reach (ws_demo Map.empty [ws_client] [] 2 (GotUnregister ws_client))"
    by (rule ws_demo_receive [OF ws_reach_queued, of OnUnregister]) (simp add: ws_demo_simps)
  have 2: "ws_reach (ws_demo Map.empty [ws_client] [] 2 AtDone)"
    by (rule ws_demo_turn [OF 1]) (simp_all add: ws_demo_simps)
  have 3: "ws_reach (ws_demo Map.empty [ws_client] [] 1 AtSelect)"
    by (rule ws_demo_turn [OF 2]) (simp_all add: ws_demo_simps)
  have 4: "ws_reach (ws_demo Map.empty [] [] 1 (GotRegister ws_client))"
    by (rule ws_demo_receive [OF 3, of OnRegister]) (simp add: ws_demo_simps)
  have 5: "ws_reach (ws_demo [ws_client \<mapsto> True] [] [] 1 AtDone)"
    by (rule ws_demo_turn [OF 4]) (simp_all add: ws_demo_simps)
  show ?thesis by (rule ws_demo_turn [OF 5]) (simp_all add: ws_demo_simps)
qed

section \<open>Properties\<close>

text \<open>C2: The hub never panics, in any interleaving of connections, disconnections, broadcasts, readers and
  the two loops that serve it, from its start: it sends only on open channels, closes each at most once and
  never counts its pending work below zero. At every moment the clients it holds have open channels of
  their own, and \<open>Sync\<close> can return exactly when no \<open>Register\<close> or \<open>Unregister\<close> is under way: none waits to
  send its message, none is queued, and no loop is between receiving one and its \<open>Done\<close>.\<close>

theorem hub_safe:
  assumes "ws_reach s"
  shows "\<not> ws_step s None \<and>
    chan_table (\<lambda>c. if hb_clients (ws_hub s) c = None then None else Some (cl_send c)) (ws_chans s) \<and>
    (hub_synced (ws_hub s) \<longleftrightarrow> ws_arriving s = [] \<and> hb_register (ws_hub s) = [] \<and>
       ws_leaving s = [] \<and> hb_unregister (ws_hub s) = [] \<and> (\<forall>pc \<in> set (ws_loops s). \<not> pc_serves pc))"
proof (intro conjI)
  note ok = ws_reach_ok [OF assms]
  then have h: "hub_ok (hb_clients (ws_hub s)) (ws_coming s) (ws_chans s)" by (simp add: ws_ok_def)
  show "\<not> ws_step s None" using ws_step_ok [OF _ ok, of None] by auto
  show "chan_table (\<lambda>c. if hb_clients (ws_hub s) c = None then None else Some (cl_send c)) (ws_chans s)"
    using hub_client_live [OF h] chan_table_inj [OF hub_okD(1) [OF h]]
    by (auto simp: chan_table_def hub_tab_def simp del: not_None_eq split: if_splits)
  show "hub_synced (ws_hub s) \<longleftrightarrow> ws_arriving s = [] \<and> hb_register (ws_hub s) = [] \<and>
       ws_leaving s = [] \<and> hb_unregister (ws_hub s) = [] \<and> (\<forall>pc \<in> set (ws_loops s). \<not> pc_serves pc)"
    using ok by (simp add: hub_synced_def ws_ok_def) (simp add: ws_owed_def filter_empty_conv)
qed

theorem hub_safe_witness: "\<not> ws_step (ws_demo [ws_client \<mapsto> True] [] [] 0 AtSelect) None \<and>
    live_chan (ws_chans (ws_demo [ws_client \<mapsto> True] [] [] 0 AtSelect)) 0"
proof -
  note safe = hub_safe [OF ws_reach_left_over]
  have "live_chan (ws_chans (ws_demo [ws_client \<mapsto> True] [] [] 0 AtSelect)) 0"
    by (rule chan_table_live [OF safe [THEN conjunct2, THEN conjunct1], of ws_client]) (simp add: ws_demo_def ws_client_def)
  with safe show ?thesis by blast
qed

text \<open>A disconnection can overtake the connection it ends: both are queued, the loop serves the
  queue of disconnections first and finds nothing to remove, then registers the client for good. All
  handlers have returned, nothing is pending, and the hub still counts a client.\<close>

theorem disconnect_overtakes:
  "\<exists>s. ws_reach s \<and> ws_live s = [] \<and> hub_synced (ws_hub s) \<and> ClientCount (ws_hub s) = 1"
proof -
  let ?s = "ws_demo [ws_client \<mapsto> True] [] [] 0 AtSelect"
  have "ClientCount (ws_hub ?s) = 1"
    by (auto simp: ClientCount_def ws_demo_def simp del: not_None_eq)
  moreover have "ws_live ?s = [] \<and> hub_synced (ws_hub ?s)" by (simp add: hub_synced_def ws_demo_def)
  ultimately show ?thesis using ws_reach_left_over by blast
qed

end
