(* ===== verification/Go_Net.thy ===== *)
theory Go_Net
  imports Prelude "HOL-Library.Word"
begin

text \<open>
  The part of Go's package \<open>net\<close> that the code uses: addresses as lists of bytes (16 of them after
  \<open>ParseIP\<close>), their IPv4 form, and the tests for loopback and private addresses. The text of an IPv4
  address is parsed here; that of an IPv6 address is left to the argument \<open>v6\<close>.
\<close>

type_synonym ip = "nat list"

text \<open>\<open>strings.Split\<close> at one character.\<close>

fun split_char :: "char \<Rightarrow> string \<Rightarrow> string list" where
  "split_char c [] = [[]]"
| "split_char c (x # xs) = (if x = c then [] # split_char c xs
     else (case split_char c xs of [] \<Rightarrow> [[x]] | w # ws \<Rightarrow> (x # w) # ws))"

definition parse_octet :: "string \<Rightarrow> nat option" where
  "parse_octet s = (case s of [] \<Rightarrow> None
     | c # cs \<Rightarrow> if c = CHR ''0'' \<and> cs \<noteq> [] then None
         else (case parse_digits 0 s of None \<Rightarrow> None | Some n \<Rightarrow> if n > 255 then None else Some n))"

definition parse_ipv4 :: "string \<Rightarrow> ip option" where
  "parse_ipv4 s = (case map parse_octet (split_char (CHR ''.'') s) of
     [Some a, Some b, Some c, Some d] \<Rightarrow> Some [a, b, c, d] | _ \<Rightarrow> None)"

definition v4_prefix :: ip where "v4_prefix = replicate 10 0 @ [255, 255]"

fun addr_kind :: "string \<Rightarrow> char option" where
  "addr_kind [] = None"
| "addr_kind (c # cs) = (if c \<in> {CHR ''.'', CHR '':'', CHR ''%''} then Some c else addr_kind cs)"

definition ParseIP :: "(string \<Rightarrow> ip option) \<Rightarrow> string \<Rightarrow> ip option" where
  "ParseIP v6 s = (if addr_kind s = Some (CHR ''.'') then map_option ((@) v4_prefix) (parse_ipv4 s)
     else if addr_kind s = Some (CHR '':'') then v6 s else None)"

definition To4 :: "ip \<Rightarrow> ip option" where
  "To4 i = (if length i = 4 then Some i
     else if length i = 16 \<and> take 12 i = v4_prefix then Some (drop 12 i) else None)"

definition IsLoopback :: "ip \<Rightarrow> bool" where
  "IsLoopback i = (case To4 i of Some i4 \<Rightarrow> i4 ! 0 = 127 | None \<Rightarrow> i = replicate 15 0 @ [1])"

definition IsPrivate :: "ip \<Rightarrow> bool" where
  "IsPrivate i = (case To4 i of
     Some i4 \<Rightarrow> i4 ! 0 = 10 \<or> i4 ! 0 = 172 \<and> i4 ! 1 div 16 = 1 \<or> i4 ! 0 = 192 \<and> i4 ! 1 = 168
   | None \<Rightarrow> length i = 16 \<and> i ! 0 div 2 = 126)"

lemma digit_values:
  "is_digit (CHR ''0'')" "(of_char (CHR ''0'') :: nat) = 48"
  "is_digit (CHR ''1'')" "(of_char (CHR ''1'') :: nat) = 49"
  "is_digit (CHR ''2'')" "(of_char (CHR ''2'') :: nat) = 50"
  "is_digit (CHR ''3'')" "(of_char (CHR ''3'') :: nat) = 51"
  "is_digit (CHR ''4'')" "(of_char (CHR ''4'') :: nat) = 52"
  "is_digit (CHR ''5'')" "(of_char (CHR ''5'') :: nat) = 53"
  "is_digit (CHR ''6'')" "(of_char (CHR ''6'') :: nat) = 54"
  "is_digit (CHR ''7'')" "(of_char (CHR ''7'') :: nat) = 55"
  "is_digit (CHR ''8'')" "(of_char (CHR ''8'') :: nat) = 56"
  "is_digit (CHR ''9'')" "(of_char (CHR ''9'') :: nat) = 57"
  "\<not> is_digit (CHR ''.'')"
  by (simp_all add: is_digit_def)

lemma parse_octet_le: "parse_octet s = Some n \<Longrightarrow> n \<le> 255"
  by (auto simp: parse_octet_def split: list.splits if_splits option.splits)

lemma parse_ipv4_bytes:
  assumes "parse_ipv4 s = Some i"
  shows "length i = 4" and "\<forall>b \<in> set i. b < 256"
proof -
  obtain a b c d where "map parse_octet (split_char (CHR ''.'') s) = [Some a, Some b, Some c, Some d]" and i: "i = [a, b, c, d]"
    using assms by (auto simp: parse_ipv4_def split: list.splits option.splits)
  then have "\<forall>n \<in> {a, b, c, d}. \<exists>w. parse_octet w = Some n" by (auto simp: map_eq_Cons_conv)
  then have "\<forall>n \<in> {a, b, c, d}. n \<le> 255" using parse_octet_le by blast
  then show "length i = 4" "\<forall>b \<in> set i. b < 256" by (auto simp: i)
qed

lemma To4_v4 [simp]: "length i = 4 \<Longrightarrow> To4 (v4_prefix @ i) = Some i" "length i = 4 \<Longrightarrow> To4 i = Some i"
  by (simp_all add: To4_def v4_prefix_def)

section \<open>IPv4 addresses as numbers\<close>

unbundle bit_operations_syntax

definition ip4_word :: "ip \<Rightarrow> 32 word" where
  "ip4_word i = push_bit 24 (of_nat (i ! 0)) OR push_bit 16 (of_nat (i ! 1)) OR push_bit 8 (of_nat (i ! 2)) OR of_nat (i ! 3)"

lemma word_or_shift:
  fixes a b :: "32 word"
  assumes "unat b < 2 ^ n"
  shows "push_bit n a OR b = push_bit n a + b"
proof -
  have "\<not> bit b m" if "n \<le> m" for m
  proof -
    have "unat b < 2 ^ m" using assms that by (meson less_le_trans one_le_numeral power_increasing)
    then have "\<not> bit (unat b) m" by (simp add: bit_iff_odd)
    then show ?thesis by (simp add: bit_unsigned_iff)
  qed
  then show ?thesis by (intro disjunctive_add [symmetric]) (auto simp: bit_push_bit_iff)
qed

lemma ip4_word_unat:
  assumes "a < 256" "b < 256" "c < 256" "d < 256"
  shows "unat (ip4_word [a, b, c, d]) = a * 2 ^ 24 + b * 2 ^ 16 + c * 2 ^ 8 + d"
proof -
  have p: "push_bit n (of_nat x :: 32 word) = of_nat (x * 2 ^ n)" for n x
    by (simp add: push_bit_eq_mult)
  have u: "unat (of_nat x :: 32 word) = x" if "x < 2 ^ 32" for x
    using that by (simp add: unsigned_of_nat take_bit_nat_eq_self)
  have s: "push_bit n (of_nat x) OR of_nat y = (of_nat (x * 2 ^ n + y) :: 32 word)" if "y < 2 ^ n" "n \<le> 24" for n x y
  proof -
    have "(2::nat) ^ n \<le> 2 ^ 24" using that(2) by (intro power_increasing) auto
    then have "unat (of_nat y :: 32 word) = y" using that(1) by (intro u) simp
    then have "push_bit n (of_nat x) OR of_nat y = push_bit n (of_nat x) + (of_nat y :: 32 word)"
      using that(1) by (intro word_or_shift) simp
    then show ?thesis by (simp only: p of_nat_add)
  qed
  have 1: "push_bit 8 (of_nat c) OR of_nat d = (of_nat (c * 2 ^ 8 + d) :: 32 word)"
    and 2: "push_bit 16 (of_nat b) OR of_nat (c * 2 ^ 8 + d) = (of_nat (b * 2 ^ 16 + (c * 2 ^ 8 + d)) :: 32 word)"
    and 3: "push_bit 24 (of_nat a) OR of_nat (b * 2 ^ 16 + (c * 2 ^ 8 + d)) = (of_nat (a * 2 ^ 24 + (b * 2 ^ 16 + (c * 2 ^ 8 + d))) :: 32 word)"
    by (rule s, use assms in simp, simp)+
  have "ip4_word [a, b, c, d] = push_bit 24 (of_nat a) OR (push_bit 16 (of_nat b) OR (push_bit 8 (of_nat c) OR of_nat d))"
    by (simp add: ip4_word_def or.assoc)
  also have "\<dots> = of_nat (a * 2 ^ 24 + (b * 2 ^ 16 + (c * 2 ^ 8 + d)))" by (simp only: 1 2 3)
  finally show ?thesis using assms u [of "a * 2 ^ 24 + (b * 2 ^ 16 + (c * 2 ^ 8 + d))"] by simp
qed

end
