(* ===== verification/Geo_IP.thy ===== *)
theory Geo_IP
  imports Go_Net Redis_Api
begin

text \<open>
  The country of an address (\<open>gateway/geoip.go\<close>). Reading the CSV file is a parameter: an error of
  opening it, or what the CSV reader makes of it.
\<close>

record geoIPEntry =
  ge_StartIP :: ip
  ge_EndIP :: ip
  ge_Country :: string
  ge_CountryCode :: string

record geoIPService =
  gs_entries :: "geoIPEntry list"

definition NewGeoIPService :: geoIPService where
  "NewGeoIPService = \<lparr>gs_entries = []\<rparr>"

definition csv_entry :: "(string \<Rightarrow> ip option) \<Rightarrow> nat \<Rightarrow> string list \<Rightarrow> geoIPEntry option" where
  "csv_entry v6 i row =
     (if i = 0 \<and> to_lower (row ! 0) = ''start_ip'' then None
      else if length row < 3 then None
      else (case (ParseIP v6 (row ! 0), ParseIP v6 (row ! 1)) of
          (Some s, Some e) \<Rightarrow> Some \<lparr>ge_StartIP = s, ge_EndIP = e, ge_Country = row ! 2,
             ge_CountryCode = (if length row \<ge> 4 then row ! 3 else '''')\<rparr>
        | _ \<Rightarrow> None))"

definition LoadCSV ::
    "(string \<Rightarrow> ip option) \<Rightarrow> (string \<Rightarrow> go_err + (go_err + string list list)) \<Rightarrow> string \<Rightarrow> geoIPService
      \<Rightarrow> go_err option \<times> geoIPService" where
  "LoadCSV v6 read_file path g = (case read_file path of
       Inl e \<Rightarrow> (Some (Wrap ''failed to open GeoIP database'' e), g)
     | Inr (Inl e) \<Rightarrow> (Some (Wrap ''failed to parse GeoIP CSV'' e), g)
     | Inr (Inr records) \<Rightarrow> (None, g\<lparr>gs_entries := List.map_filter (\<lambda>(i, row). csv_entry v6 i row) (enumerate 0 records)\<rparr>))"

text \<open>
  The table compiled into the program. A text that is not an address would give the nil address, which
  has no IPv4 form.
\<close>

definition geo_entry :: "string \<Rightarrow> string \<Rightarrow> string \<Rightarrow> string \<Rightarrow> geoIPEntry" where
  "geo_entry s e country code =
     \<lparr>ge_StartIP = (case ParseIP (\<lambda>_. None) s of None \<Rightarrow> [] | Some i \<Rightarrow> i),
      ge_EndIP = (case ParseIP (\<lambda>_. None) e of None \<Rightarrow> [] | Some i \<Rightarrow> i), ge_Country = country, ge_CountryCode = code\<rparr>"

definition entries4 :: "geoIPEntry list" where
  "entries4 = [
     geo_entry ''1.0.0.0'' ''1.255.255.255'' ''Australia'' ''AU'',
     geo_entry ''3.0.0.0'' ''3.255.255.255'' ''United States'' ''US'',
     geo_entry ''8.0.0.0'' ''8.255.255.255'' ''United States'' ''US'',
     geo_entry ''13.0.0.0'' ''13.255.255.255'' ''United States'' ''US'',
     geo_entry ''18.0.0.0'' ''18.255.255.255'' ''United States'' ''US'',
     geo_entry ''23.0.0.0'' ''23.255.255.255'' ''United States'' ''US'',
     geo_entry ''24.0.0.0'' ''24.255.255.255'' ''United States'' ''US'',
     geo_entry ''34.0.0.0'' ''35.255.255.255'' ''United States'' ''US'',
     geo_entry ''44.0.0.0'' ''44.255.255.255'' ''United States'' ''US'',
     geo_entry ''50.0.0.0'' ''50.255.255.255'' ''United States'' ''US'',
     geo_entry ''51.0.0.0'' ''51.255.255.255'' ''United Kingdom'' ''GB'',
     geo_entry ''52.0.0.0'' ''52.255.255.255'' ''United States'' ''US'',
     geo_entry ''54.0.0.0'' ''54.255.255.255'' ''United States'' ''US'',
     geo_entry ''58.0.0.0'' ''61.255.255.255'' ''Asia Pacific'' ''AP'',
     geo_entry ''62.0.0.0'' ''62.255.255.255'' ''Europe'' ''EU'',
     geo_entry ''77.0.0.0'' ''95.255.255.255'' ''Europe'' ''EU'',
     geo_entry ''96.0.0.0'' ''96.255.255.255'' ''United States'' ''US'',
     geo_entry ''98.0.0.0'' ''98.255.255.255'' ''United States'' ''US'',
     geo_entry ''100.0.0.0'' ''100.255.255.255'' ''United States'' ''US'',
     geo_entry ''101.0.0.0'' ''103.255.255.255'' ''Asia Pacific'' ''AP'',
     geo_entry ''104.0.0.0'' ''104.255.255.255'' ''United States'' ''US'',
     geo_entry ''106.0.0.0'' ''106.255.255.255'' ''China'' ''CN'',
     geo_entry ''108.0.0.0'' ''108.255.255.255'' ''United States'' ''US'',
     geo_entry ''109.0.0.0'' ''109.255.255.255'' ''Europe'' ''EU'',
     geo_entry ''110.0.0.0'' ''126.255.255.255'' ''Asia Pacific'' ''AP'',
     geo_entry ''128.0.0.0'' ''132.255.255.255'' ''United States'' ''US'',
     geo_entry ''134.0.0.0'' ''139.255.255.255'' ''United States'' ''US'',
     geo_entry ''140.0.0.0'' ''140.255.255.255'' ''United States'' ''US'',
     geo_entry ''141.0.0.0'' ''141.255.255.255'' ''Europe'' ''EU'',
     geo_entry ''142.0.0.0'' ''142.255.255.255'' ''United States'' ''US'',
     geo_entry ''143.0.0.0'' ''143.255.255.255'' ''United States'' ''US'',
     geo_entry ''144.0.0.0'' ''144.255.255.255'' ''United States'' ''US'',
     geo_entry ''145.0.0.0'' ''145.255.255.255'' ''Europe'' ''EU'',
     geo_entry ''146.0.0.0'' ''146.255.255.255'' ''United States'' ''US'',
     geo_entry ''147.0.0.0'' ''147.255.255.255'' ''United States'' ''US'',
     geo_entry ''148.0.0.0'' ''148.255.255.255'' ''United States'' ''US'',
     geo_entry ''149.0.0.0'' ''149.255.255.255'' ''United States'' ''US'',
     geo_entry ''150.0.0.0'' ''150.255.255.255'' ''Asia Pacific'' ''AP'',
     geo_entry ''151.0.0.0'' ''151.255.255.255'' ''Europe'' ''EU'',
     geo_entry ''152.0.0.0'' ''152.255.255.255'' ''United States'' ''US'',
     geo_entry ''153.0.0.0'' ''153.255.255.255'' ''Asia Pacific'' ''AP'',
     geo_entry ''154.0.0.0'' ''154.255.255.255'' ''Africa'' ''AF'',
     geo_entry ''155.0.0.0'' ''155.255.255.255'' ''United States'' ''US'',
     geo_entry ''156.0.0.0'' ''156.255.255.255'' ''United States'' ''US'',
     geo_entry ''157.0.0.0'' ''157.255.255.255'' ''Asia Pacific'' ''AP'',
     geo_entry ''158.0.0.0'' ''158.255.255.255'' ''United States'' ''US'',
     geo_entry ''159.0.0.0'' ''159.255.255.255'' ''United States'' ''US'',
     geo_entry ''160.0.0.0'' ''164.255.255.255'' ''Asia Pacific'' ''AP'',
     geo_entry ''165.0.0.0'' ''166.255.255.255'' ''United States'' ''US'',
     geo_entry ''167.0.0.0'' ''167.255.255.255'' ''United States'' ''US'',
     geo_entry ''168.0.0.0'' ''168.255.255.255'' ''United States'' ''US'',
     geo_entry ''169.0.0.0'' ''169.255.255.255'' ''United States'' ''US'',
     geo_entry ''170.0.0.0'' ''170.255.255.255'' ''United States'' ''US'',
     geo_entry ''171.0.0.0'' ''171.255.255.255'' ''Asia Pacific'' ''AP'',
     geo_entry ''172.0.0.0'' ''172.255.255.255'' ''United States'' ''US'',
     geo_entry ''173.0.0.0'' ''174.255.255.255'' ''United States'' ''US'',
     geo_entry ''175.0.0.0'' ''175.255.255.255'' ''Asia Pacific'' ''AP'',
     geo_entry ''176.0.0.0'' ''176.255.255.255'' ''Europe'' ''EU'',
     geo_entry ''177.0.0.0'' ''177.255.255.255'' ''Latin America'' ''LA'',
     geo_entry ''178.0.0.0'' ''178.255.255.255'' ''Europe'' ''EU'',
     geo_entry ''179.0.0.0'' ''179.255.255.255'' ''Latin America'' ''LA'',
     geo_entry ''180.0.0.0'' ''180.255.255.255'' ''Asia Pacific'' ''AP'',
     geo_entry ''181.0.0.0'' ''181.255.255.255'' ''Latin America'' ''LA'',
     geo_entry ''182.0.0.0'' ''182.255.255.255'' ''Asia Pacific'' ''AP'',
     geo_entry ''183.0.0.0'' ''183.255.255.255'' ''Asia Pacific'' ''AP'',
     geo_entry ''184.0.0.0'' ''184.255.255.255'' ''United States'' ''US'',
     geo_entry ''185.0.0.0'' ''185.255.255.255'' ''Europe'' ''EU'',
     geo_entry ''186.0.0.0'' ''186.255.255.255'' ''Latin America'' ''LA'',
     geo_entry ''187.0.0.0'' ''187.255.255.255'' ''Latin America'' ''LA'',
     geo_entry ''188.0.0.0'' ''188.255.255.255'' ''Europe'' ''EU'',
     geo_entry ''189.0.0.0'' ''189.255.255.255'' ''Latin America'' ''LA'',
     geo_entry ''190.0.0.0'' ''190.255.255.255'' ''Latin America'' ''LA'',
     geo_entry ''191.0.0.0'' ''191.255.255.255'' ''Latin America'' ''LA'',
     geo_entry ''192.0.0.0'' ''192.255.255.255'' ''United States'' ''US'',
     geo_entry ''193.0.0.0'' ''195.255.255.255'' ''Europe'' ''EU'',
     geo_entry ''196.0.0.0'' ''196.255.255.255'' ''Africa'' ''AF'',
     geo_entry ''197.0.0.0'' ''197.255.255.255'' ''Africa'' ''AF'',
     geo_entry ''198.0.0.0'' ''198.255.255.255'' ''United States'' ''US'',
     geo_entry ''199.0.0.0'' ''199.255.255.255'' ''United States'' ''US'',
     geo_entry ''200.0.0.0'' ''201.255.255.255'' ''Latin America'' ''LA'',
     geo_entry ''202.0.0.0'' ''203.255.255.255'' ''Asia Pacific'' ''AP'',
     geo_entry ''204.0.0.0'' ''209.255.255.255'' ''United States'' ''US'',
     geo_entry ''210.0.0.0'' ''210.255.255.255'' ''Asia Pacific'' ''AP'',
     geo_entry ''211.0.0.0'' ''211.255.255.255'' ''Asia Pacific'' ''AP'',
     geo_entry ''212.0.0.0'' ''212.255.255.255'' ''Europe'' ''EU'',
     geo_entry ''213.0.0.0'' ''213.255.255.255'' ''Europe'' ''EU'',
     geo_entry ''214.0.0.0'' ''215.255.255.255'' ''United States'' ''US'',
     geo_entry ''216.0.0.0'' ''216.255.255.255'' ''United States'' ''US'',
     geo_entry ''217.0.0.0'' ''217.255.255.255'' ''Europe'' ''EU'',
     geo_entry ''218.0.0.0'' ''218.255.255.255'' ''Asia Pacific'' ''AP'',
     geo_entry ''219.0.0.0'' ''219.255.255.255'' ''Asia Pacific'' ''AP'',
     geo_entry ''220.0.0.0'' ''220.255.255.255'' ''Asia Pacific'' ''AP'',
     geo_entry ''221.0.0.0'' ''221.255.255.255'' ''Asia Pacific'' ''AP'',
     geo_entry ''222.0.0.0'' ''223.255.255.255'' ''Asia Pacific'' ''AP'',
     geo_entry ''224.0.0.0'' ''255.255.255.255'' ''Reserved'' ''XX'']"

definition ip4toInt :: "ip \<Rightarrow> 32 word" where
  "ip4toInt i = (case To4 i of Some i4 \<Rightarrow> ip4_word i4 | None \<Rightarrow> 0)"

definition ipInRange :: "ip \<Rightarrow> ip \<Rightarrow> ip \<Rightarrow> bool" where
  "ipInRange i start fin =
     (case (To4 i, To4 start, To4 fin) of
        (Some ip4, Some start4, Some end4) \<Rightarrow> ip4toInt ip4 \<ge> ip4toInt start4 \<and> ip4toInt ip4 \<le> ip4toInt end4
      | _ \<Rightarrow> False)"

fun geo_find :: "ip \<Rightarrow> geoIPEntry list \<Rightarrow> string" where
  "geo_find ip4 [] = ''''"
| "geo_find ip4 (e # es) = (if ipInRange ip4 (ge_StartIP e) (ge_EndIP e) then ge_CountryCode e else geo_find ip4 es)"

definition geo_Lookup :: "(string \<Rightarrow> ip option) \<Rightarrow> string \<Rightarrow> geoIPService \<Rightarrow> string" where
  "geo_Lookup v6 ipStr g = (case ParseIP v6 ipStr of None \<Rightarrow> ''''
     | Some i \<Rightarrow> (case To4 i of None \<Rightarrow> '''' | Some ip4 \<Rightarrow> geo_find ip4 entries4))"

section \<open>The table\<close>

text \<open>First and last octet and the code of each row.\<close>

definition geo_octets :: "(nat \<times> nat \<times> string) list" where
  "geo_octets = [
     (1, 1, ''AU''), (3, 3, ''US''), (8, 8, ''US''), (13, 13, ''US''), (18, 18, ''US''), (23, 23, ''US''),
     (24, 24, ''US''), (34, 35, ''US''), (44, 44, ''US''), (50, 50, ''US''), (51, 51, ''GB''), (52, 52, ''US''),
     (54, 54, ''US''), (58, 61, ''AP''), (62, 62, ''EU''), (77, 95, ''EU''), (96, 96, ''US''), (98, 98, ''US''),
     (100, 100, ''US''), (101, 103, ''AP''), (104, 104, ''US''), (106, 106, ''CN''), (108, 108, ''US''), (109, 109, ''EU''),
     (110, 126, ''AP''), (128, 132, ''US''), (134, 139, ''US''), (140, 140, ''US''), (141, 141, ''EU''), (142, 142, ''US''),
     (143, 143, ''US''), (144, 144, ''US''), (145, 145, ''EU''), (146, 146, ''US''), (147, 147, ''US''), (148, 148, ''US''),
     (149, 149, ''US''), (150, 150, ''AP''), (151, 151, ''EU''), (152, 152, ''US''), (153, 153, ''AP''), (154, 154, ''AF''),
     (155, 155, ''US''), (156, 156, ''US''), (157, 157, ''AP''), (158, 158, ''US''), (159, 159, ''US''), (160, 164, ''AP''),
     (165, 166, ''US''), (167, 167, ''US''), (168, 168, ''US''), (169, 169, ''US''), (170, 170, ''US''), (171, 171, ''AP''),
     (172, 172, ''US''), (173, 174, ''US''), (175, 175, ''AP''), (176, 176, ''EU''), (177, 177, ''LA''), (178, 178, ''EU''),
     (179, 179, ''LA''), (180, 180, ''AP''), (181, 181, ''LA''), (182, 182, ''AP''), (183, 183, ''AP''), (184, 184, ''US''),
     (185, 185, ''EU''), (186, 186, ''LA''), (187, 187, ''LA''), (188, 188, ''EU''), (189, 189, ''LA''), (190, 190, ''LA''),
     (191, 191, ''LA''), (192, 192, ''US''), (193, 195, ''EU''), (196, 196, ''AF''), (197, 197, ''AF''), (198, 198, ''US''),
     (199, 199, ''US''), (200, 201, ''LA''), (202, 203, ''AP''), (204, 209, ''US''), (210, 210, ''AP''), (211, 211, ''AP''),
     (212, 212, ''EU''), (213, 213, ''EU''), (214, 215, ''US''), (216, 216, ''US''), (217, 217, ''EU''), (218, 218, ''AP''),
     (219, 219, ''AP''), (220, 220, ''AP''), (221, 221, ''AP''), (222, 223, ''AP''), (224, 255, ''XX'')]"

definition octet_entry :: "nat \<times> nat \<times> string \<Rightarrow> geoIPEntry \<Rightarrow> bool" where
  "octet_entry t e \<longleftrightarrow> (case t of (x, y, code) \<Rightarrow> x \<le> y \<and> y < 256 \<and> ge_StartIP e = v4_prefix @ [x, 0, 0, 0] \<and>
     ge_EndIP e = v4_prefix @ [y, 255, 255, 255] \<and> ge_CountryCode e = code)"

lemma octet_geo_entry:
  "octet_entry (x, y, code) (geo_entry s e country code') \<longleftrightarrow> x \<le> y \<and> y < 256 \<and>
     (case ParseIP (\<lambda>_. None) s of None \<Rightarrow> [] | Some i \<Rightarrow> i) = v4_prefix @ [x, 0, 0, 0] \<and>
     (case ParseIP (\<lambda>_. None) e of None \<Rightarrow> [] | Some i \<Rightarrow> i) = v4_prefix @ [y, 255, 255, 255] \<and> code' = code"
  by (simp add: octet_entry_def geo_entry_def)

lemma entries4_octets: "list_all2 octet_entry geo_octets entries4"
  unfolding entries4_def geo_octets_def
  by (simp add: octet_geo_entry ParseIP_def parse_ipv4_def parse_octet_def digit_values)

fun ascending :: "(nat \<times> nat \<times> 'a) list \<Rightarrow> bool" where
  "ascending [] = True"
| "ascending [t] = True"
| "ascending (t # u # ts) \<longleftrightarrow> fst (snd t) < fst u \<and> ascending (u # ts)"

lemma octets_ascending: "ascending geo_octets"
  by (simp add: geo_octets_def)

lemma ascending_above: "ascending (t # ts) \<Longrightarrow> list_all (\<lambda>u. fst u \<le> fst (snd u)) (t # ts) \<Longrightarrow> u \<in> set ts \<Longrightarrow> fst (snd t) < fst u"
proof (induction ts arbitrary: t)
  case (Cons v ts)
  then show ?case by (cases "u = v") (auto dest!: Cons.IH [of v])
qed simp

text \<open>A range of whole octets contains an address when it contains its first octet.\<close>

lemma ipInRange_octets:
  assumes "octet_entry (x, y, code) e" and "a < 256" "b < 256" "c < 256" "d < 256"
  shows "ipInRange [a, b, c, d] (ge_StartIP e) (ge_EndIP e) \<longleftrightarrow> x \<le> a \<and> a \<le> y"
proof -
  have e: "ge_StartIP e = v4_prefix @ [x, 0, 0, 0]" "ge_EndIP e = v4_prefix @ [y, 255, 255, 255]" "x \<le> y" "y < 256"
    using assms(1) by (auto simp: octet_entry_def)
  have n: "unat (ip4_word [x, 0, 0, 0]) = x * 2 ^ 24" "unat (ip4_word [y, 255, 255, 255]) = y * 2 ^ 24 + (2 ^ 24 - 1)"
    "unat (ip4_word [a, b, c, d]) = a * 2 ^ 24 + (b * 2 ^ 16 + c * 2 ^ 8 + d)"
    using e(3,4) assms(2-5) by (simp_all add: ip4_word_unat)
  have "b * 2 ^ 16 + c * 2 ^ 8 + d < 2 ^ 24" using assms(3-5) by simp
  then show ?thesis
    by (simp add: ipInRange_def e(1,2) ip4toInt_def word_le_nat_alt n) linarith
qed

lemma geo_find_octets:
  assumes "list_all2 octet_entry ts es" and "a < 256" "b < 256" "c < 256" "d < 256"
  shows "geo_find [a, b, c, d] es =
    (case find (\<lambda>t. fst t \<le> a \<and> a \<le> fst (snd t)) ts of None \<Rightarrow> '''' | Some t \<Rightarrow> snd (snd t))"
  using assms(1)
proof (induction rule: list_all2_induct)
  case (Cons t ts e es)
  obtain x y code where t: "t = (x, y, code)" by (cases t)
  have "ge_CountryCode e = code" using Cons.hyps(1) by (simp add: octet_entry_def t)
  then show ?case using Cons.IH ipInRange_octets [OF Cons.hyps(1) [unfolded t] assms(2-5)] by (simp add: t)
qed simp

lemma octets_proper: "list_all (\<lambda>t. fst t \<le> fst (snd t)) geo_octets"
  by (simp add: geo_octets_def)

lemma ascending_find:
  "ascending ts \<Longrightarrow> list_all (\<lambda>t. fst t \<le> fst (snd t)) ts \<Longrightarrow> t \<in> set ts \<Longrightarrow> fst t \<le> a \<Longrightarrow> a \<le> fst (snd t)
   \<Longrightarrow> find (\<lambda>t. fst t \<le> a \<and> a \<le> fst (snd t)) ts = Some t"
proof (induction ts)
  case (Cons u ts)
  have a: "ascending ts" using Cons.prems(1) by (cases ts) auto
  show ?case
  proof (cases "t = u")
    case False
    then have "t \<in> set ts" using Cons.prems(3) by simp
    moreover from this have "fst (snd u) < fst t" using ascending_above [OF Cons.prems(1,2)] by blast
    ultimately show ?thesis using Cons.IH [OF a] Cons.prems by simp
  qed (use Cons.prems in simp)
qed simp

section \<open>Properties\<close>

text \<open>C35: The country of an address depends on its first octet only: it is that of the row of the
  compiled table whose octets contain it, and no two rows do; outside the table it is empty. A CSV
  file loaded before the lookup changes nothing, since no lookup reads what \<open>LoadCSV\<close> stores.\<close>

theorem geo_lookup_exact:
  assumes "ParseIP v6 s = Some (v4_prefix @ [a, b, c, d])" and "a < 256" "b < 256" "c < 256" "d < 256"
  shows "if \<exists>t \<in> set geo_octets. fst t \<le> a \<and> a \<le> fst (snd t)
    then \<forall>t \<in> set geo_octets. fst t \<le> a \<and> a \<le> fst (snd t) \<longrightarrow>
      geo_Lookup v6 s (snd (LoadCSV v6 read_file path g)) = snd (snd t)
    else geo_Lookup v6 s (snd (LoadCSV v6 read_file path g)) = ''''"
proof -
  have l: "geo_Lookup v6 s g' = (case find (\<lambda>t. fst t \<le> a \<and> a \<le> fst (snd t)) geo_octets of None \<Rightarrow> '''' | Some t \<Rightarrow> snd (snd t))" for g'
    using assms by (simp add: geo_Lookup_def geo_find_octets [OF entries4_octets])
  show ?thesis
  proof (cases "\<exists>t \<in> set geo_octets. fst t \<le> a \<and> a \<le> fst (snd t)")
    case True
    then show ?thesis unfolding l using ascending_find [OF octets_ascending octets_proper, of _ a] by simp
  next
    case False
    then have "find (\<lambda>t. fst t \<le> a \<and> a \<le> fst (snd t)) geo_octets = None" unfolding find_None_iff by blast
    with False show ?thesis unfolding l by auto
  qed
qed

theorem geo_lookup_exact_witness:
  "geo_Lookup (\<lambda>_. None) ''8.8.4.4'' (snd (LoadCSV (\<lambda>_. None) (\<lambda>_. Inr (Inr [[''8.0.0.0'', ''8.255.255.255'', ''X'', ''ZZ'']])) ''f'' NewGeoIPService)) = ''US''"
proof -
  have p: "ParseIP (\<lambda>_. None) ''8.8.4.4'' = Some (v4_prefix @ [8, 8, 4, 4])"
    by (simp add: ParseIP_def parse_ipv4_def parse_octet_def digit_values)
  have t: "(8, 8, ''US'') \<in> set geo_octets" by (simp add: geo_octets_def)
  from geo_lookup_exact [OF p, of "\<lambda>_. Inr (Inr [[''8.0.0.0'', ''8.255.255.255'', ''X'', ''ZZ'']])" "''f''" NewGeoIPService] t
  show ?thesis by (auto split: if_splits)
qed

end
