(* ===== verification/Client_Limits.thy ===== *)
theory Client_Limits
  imports Http Redis_Api Go_Net
begin

text \<open>
  Limits per client: requests (\<open>gateway/client_ratelimit.go\<close>), bandwidth and failed requests
  (\<open>gateway/ddos_shaper.go\<close>), and the sizes and recordings of requests (\<open>gateway/replay_limits.go\<close>).
\<close>

text \<open>Both limiters let loopback and private addresses pass.\<close>

definition isWhitelisted :: "(string \<Rightarrow> ip option) \<Rightarrow> string \<Rightarrow> bool" where
  "isWhitelisted v6 clientIP = (case ParseIP v6 clientIP of Some i \<Rightarrow> IsLoopback i \<or> IsPrivate i | None \<Rightarrow> False)"

section \<open>Requests of a client\<close>

record clientLimit =
  kl_count :: int
  kl_expiresAt :: time

record 'r clientRateLimiter =
  crl_redis :: "'r redis option"
  crl_defaultLimit :: int
  crl_windowSeconds :: int
  crl_localCache :: "string \<rightharpoonup> clientLimit"

definition NewClientRateLimiter :: "'r redis option \<Rightarrow> int \<Rightarrow> int \<Rightarrow> 'r clientRateLimiter" where
  "NewClientRateLimiter h defaultLimit windowSeconds =
     \<lparr>crl_redis = h, crl_defaultLimit = defaultLimit, crl_windowSeconds = windowSeconds, crl_localCache = Map.empty\<rparr>"

definition crl_window :: "'r clientRateLimiter \<Rightarrow> duration" where
  "crl_window c = i64 (crl_windowSeconds c * go_second)"

definition localCheck :: "time \<Rightarrow> string \<Rightarrow> int \<Rightarrow> 'r clientRateLimiter \<Rightarrow> bool \<times> 'r clientRateLimiter" where
  "localCheck now ip limit c =
     (let fresh = (True, c\<lparr>crl_localCache := (crl_localCache c)(ip \<mapsto> \<lparr>kl_count = 1, kl_expiresAt = now + crl_window c\<rparr>)\<rparr>) in
      case crl_localCache c ip of
        None \<Rightarrow> fresh
      | Some cl \<Rightarrow> if now < kl_expiresAt cl then
            if kl_count cl \<ge> limit then (False, c)
            else (True, c\<lparr>crl_localCache := (crl_localCache c)(ip \<mapsto> cl\<lparr>kl_count := i64 (kl_count cl + 1)\<rparr>)\<rparr>)
          else fresh)"

definition crl_checkRateLimit ::
    "time \<Rightarrow> string \<Rightarrow> int \<Rightarrow> 'r clientRateLimiter \<times> 'r \<Rightarrow> (bool \<times> go_err option) \<times> 'r clientRateLimiter \<times> 'r" where
  "crl_checkRateLimit now ip limit = (\<lambda>(c, st). case crl_redis c of
       None \<Rightarrow> (case localCheck now ip limit c of (ok, c') \<Rightarrow> ((ok, None), c', st))
     | Some R \<Rightarrow> (case cIncr R (''client_rate:'' @ ip) st of
           (Inl e, st1) \<Rightarrow> ((False, Some (RErr e)), c, st1)
         | (Inr n, st1) \<Rightarrow> ((n \<le> limit, None), c,
             if n = 1 then snd (cExpire R (''client_rate:'' @ ip) (crl_window c) st1) else st1)))"

definition GetClientLimit :: "string \<Rightarrow> 'r clientRateLimiter \<Rightarrow> 'r \<Rightarrow> (int \<times> go_err option) \<times> 'r" where
  "GetClientLimit ip c st = (case crl_redis c of
       None \<Rightarrow> ((crl_defaultLimit c, None), st)
     | Some R \<Rightarrow> (case cGet R (''client_limit:'' @ ip) st of
           (Inl RedisNil, st1) \<Rightarrow> ((crl_defaultLimit c, None), st1)
         | (Inl e, st1) \<Rightarrow> ((0, Some (RErr e)), st1)
         | (Inr s, st1) \<Rightarrow> (case parse_int s of (n, True) \<Rightarrow> ((n, None), st1)
             | (n, False) \<Rightarrow> ((n, Some (Err ''strconv.Atoi'')), st1))))"

definition getClientLimit :: "string \<Rightarrow> 'r clientRateLimiter \<Rightarrow> 'r \<Rightarrow> int \<times> 'r" where
  "getClientLimit ip c st = (case GetClientLimit ip c st of ((limit, err), st1) \<Rightarrow> (if err = None then limit else 0, st1))"

definition SetClientLimit :: "string \<Rightarrow> int \<Rightarrow> 'r clientRateLimiter \<Rightarrow> 'r \<Rightarrow> 'r" where
  "SetClientLimit ip limit c st = (case crl_redis c of None \<Rightarrow> st
     | Some R \<Rightarrow> snd (cSet R (''client_limit:'' @ ip) (show_int limit) 0 st))"

definition RemoveClientLimit :: "string \<Rightarrow> 'r clientRateLimiter \<Rightarrow> 'r \<Rightarrow> 'r" where
  "RemoveClientLimit ip c st = (case crl_redis c of None \<Rightarrow> st | Some R \<Rightarrow> snd (cDel R [''client_limit:'' @ ip] st))"

definition crl_Middleware ::
    "(string \<Rightarrow> ip option) \<Rightarrow> time \<Rightarrow> http_req \<Rightarrow> metrics \<Rightarrow> 'r clientRateLimiter \<times> 'r
      \<Rightarrow> outcome \<times> metrics \<times> 'r clientRateLimiter \<times> 'r" where
  "crl_Middleware v6 now r m = (\<lambda>(c, st).
     if isWhitelisted v6 (rq_clientIP r) then (Next, m, c, st)
     else (case getClientLimit (rq_clientIP r) c st of (l0, st1) \<Rightarrow>
       let limit = (if l0 = 0 then crl_defaultLimit c else l0) in
       (case crl_checkRateLimit now (rq_clientIP r) limit (c, st1) of
          ((ok, Some e), s') \<Rightarrow> (Abort 500 ''Rate limit check failed'', m, s')
        | ((ok, None), s') \<Rightarrow> if \<not> ok then (Abort 429 ''Rate limit exceeded'', IncRateLimited m, s') else (Next, m, s'))))"

definition crl_cleanup :: "time \<Rightarrow> 'r clientRateLimiter \<Rightarrow> 'r clientRateLimiter" where
  "crl_cleanup now c = c\<lparr>crl_localCache := purge (\<lambda>cl. kl_expiresAt cl < now) (crl_localCache c)\<rparr>"

section \<open>Bandwidth of a client\<close>

record clientBandwidth =
  bw_tokens :: int
  bw_lastUpdate :: time
  bw_rate :: int
  bw_burst :: int

record trafficShaper =
  sh_bandwidths :: "string \<rightharpoonup> clientBandwidth"
  sh_defaultRate :: int
  sh_defaultBurst :: int

definition NewTrafficShaper :: "int \<Rightarrow> int \<Rightarrow> trafficShaper" where
  "NewTrafficShaper rate burst = \<lparr>sh_bandwidths = Map.empty, sh_defaultRate = rate, sh_defaultBurst = burst\<rparr>"

text \<open>What it stores is never read.\<close>

definition SetClientRate :: "'r redis option \<Rightarrow> string \<Rightarrow> int \<Rightarrow> int \<Rightarrow> 'r \<Rightarrow> 'r" where
  "SetClientRate h ip rate burst st = (case h of None \<Rightarrow> st
     | Some R \<Rightarrow> let key = ''shaper:'' @ ip
         in snd (cExpire R key (24 * go_hour) (snd (cHSet R key [(''burst'', show_int burst)] (snd (cHSet R key [(''rate'', show_int rate)] st))))))"

definition refill :: "(f64 \<Rightarrow> int) \<Rightarrow> int \<Rightarrow> duration \<Rightarrow> int" where
  "refill wild rate elapsed = f_to_i64 wild (f_mul (f_int rate) (duration_seconds elapsed))"

definition checkBandwidth :: "(f64 \<Rightarrow> int) \<Rightarrow> time \<Rightarrow> string \<Rightarrow> int \<Rightarrow> trafficShaper \<Rightarrow> bool \<times> trafficShaper" where
  "checkBandwidth wild now ip bytes ts = (case sh_bandwidths ts ip of
       None \<Rightarrow> (True, ts\<lparr>sh_bandwidths := (sh_bandwidths ts)(ip \<mapsto>
         \<lparr>bw_tokens = sh_defaultBurst ts, bw_lastUpdate = now, bw_rate = sh_defaultRate ts, bw_burst = sh_defaultBurst ts\<rparr>)\<rparr>)
     | Some bw \<Rightarrow>
         let t1 = i64 (bw_tokens bw + refill wild (bw_rate bw) (time_sub now (bw_lastUpdate bw)));
             t2 = (if t1 > bw_burst bw then bw_burst bw else t1)
         in if t2 \<ge> bytes
            then (True, ts\<lparr>sh_bandwidths := (sh_bandwidths ts)(ip \<mapsto> bw\<lparr>bw_tokens := i64 (t2 - bytes), bw_lastUpdate := now\<rparr>)\<rparr>)
            else (False, ts\<lparr>sh_bandwidths := (sh_bandwidths ts)(ip \<mapsto> bw\<lparr>bw_tokens := t2\<rparr>)\<rparr>))"

definition sh_Middleware ::
    "(string \<Rightarrow> ip option) \<Rightarrow> (f64 \<Rightarrow> int) \<Rightarrow> time \<Rightarrow> http_req \<Rightarrow> trafficShaper \<Rightarrow> outcome \<times> trafficShaper" where
  "sh_Middleware v6 wild now r ts =
     (if isWhitelisted v6 (rq_clientIP r) then (Next, ts)
      else (case checkBandwidth wild now (rq_clientIP r) 0 ts of
          (True, ts') \<Rightarrow> (Next, ts')
        | (False, ts') \<Rightarrow> (Abort 429 ''Bandwidth limit exceeded'', ts')))"

definition sh_cleanup :: "time \<Rightarrow> trafficShaper \<Rightarrow> trafficShaper" where
  "sh_cleanup now ts = ts\<lparr>sh_bandwidths := purge (\<lambda>bw. time_sub now (bw_lastUpdate bw) > 10 * go_minute) (sh_bandwidths ts)\<rparr>"

section \<open>Failed requests of a client\<close>

record failedRequestStats =
  fr_count :: int
  fr_firstFail :: time
  fr_lastFail :: time

record 'r ddosProtection =
  dd_redis :: "'r redis option"
  dd_failedRequests :: "string \<rightharpoonup> failedRequestStats"
  dd_threshold :: int
  dd_windowSeconds :: int
  dd_blockDuration :: duration
  dd_whitelist :: "string \<rightharpoonup> bool"

definition NewDDoSProtection :: "'r redis option \<Rightarrow> int \<Rightarrow> int \<Rightarrow> duration \<Rightarrow> 'r ddosProtection" where
  "NewDDoSProtection h threshold windowSeconds blockDuration =
     \<lparr>dd_redis = h, dd_failedRequests = Map.empty, dd_threshold = threshold, dd_windowSeconds = windowSeconds,
      dd_blockDuration = blockDuration, dd_whitelist = Map.empty\<rparr>"

definition ddos_RecordFailure :: "time \<Rightarrow> string \<Rightarrow> 'r ddosProtection \<times> 'r \<Rightarrow> 'r ddosProtection \<times> 'r" where
  "ddos_RecordFailure now ip = (\<lambda>(d, st). case dd_redis d of
       Some R \<Rightarrow>
         (case cIncr R (''ddos:failed:'' @ ip) st of (res, st1) \<Rightarrow>
            let n = reply_or 0 res;
                st2 = (if n = 1 then snd (cExpire R (''ddos:failed:'' @ ip) (i64 (dd_windowSeconds d * go_second)) st1) else st1)
            in (d, if n \<ge> dd_threshold d then snd (cSet R (''ddos:blocked:'' @ ip) ''1'' (dd_blockDuration d) st2) else st2))
     | None \<Rightarrow>
         let s = (case dd_failedRequests d ip of Some s \<Rightarrow> s
               | None \<Rightarrow> \<lparr>fr_count = 0, fr_firstFail = now, fr_lastFail = zero_time\<rparr>)
         in (d\<lparr>dd_failedRequests := (dd_failedRequests d)(ip \<mapsto> s\<lparr>fr_count := i64 (fr_count s + 1), fr_lastFail := now\<rparr>)\<rparr>, st))"

definition isBlocked :: "time \<Rightarrow> string \<Rightarrow> 'r ddosProtection \<times> 'r \<Rightarrow> bool \<times> 'r" where
  "isBlocked now ip = (\<lambda>(d, st). case dd_redis d of
       Some R \<Rightarrow> (case cExists R (''ddos:blocked:'' @ ip) st of (res, st1) \<Rightarrow> (reply_or 0 res > 0, st1))
     | None \<Rightarrow> ((case dd_failedRequests d ip of
           None \<Rightarrow> False
         | Some s \<Rightarrow> fr_count s \<ge> dd_threshold d \<and>
             fr_firstFail s > now + i64 (i64 (- dd_windowSeconds d) * go_second)), st))"

definition BlockIP :: "string \<Rightarrow> 'r ddosProtection \<times> 'r \<Rightarrow> 'r ddosProtection \<times> 'r" where
  "BlockIP ip = (\<lambda>(d, st). (d, case dd_redis d of None \<Rightarrow> st
     | Some R \<Rightarrow> snd (cSet R (''ddos:blocked:'' @ ip) ''1'' (dd_blockDuration d) st)))"

definition UnblockIP :: "string \<Rightarrow> 'r ddosProtection \<times> 'r \<Rightarrow> 'r ddosProtection \<times> 'r" where
  "UnblockIP ip = (\<lambda>(d, st). (d, case dd_redis d of None \<Rightarrow> st | Some R \<Rightarrow> snd (cDel R [''ddos:blocked:'' @ ip] st)))"

definition AddToWhitelist :: "string \<Rightarrow> 'r ddosProtection \<Rightarrow> 'r ddosProtection" where
  "AddToWhitelist ip d = d\<lparr>dd_whitelist := (dd_whitelist d)(ip \<mapsto> True)\<rparr>"

definition RemoveFromWhitelist :: "string \<Rightarrow> 'r ddosProtection \<Rightarrow> 'r ddosProtection" where
  "RemoveFromWhitelist ip d = d\<lparr>dd_whitelist := (dd_whitelist d)(ip := None)\<rparr>"

definition ddos_isWhitelisted :: "string \<Rightarrow> 'r ddosProtection \<Rightarrow> bool" where
  "ddos_isWhitelisted ip d = (case dd_whitelist d ip of Some b \<Rightarrow> b | None \<Rightarrow> False)"

definition ddos_Middleware :: "time \<Rightarrow> http_req \<Rightarrow> 'r ddosProtection \<times> 'r \<Rightarrow> outcome \<times> 'r" where
  "ddos_Middleware now r = (\<lambda>(d, st).
     if ddos_isWhitelisted (rq_clientIP r) d then (Next, st)
     else (case isBlocked now (rq_clientIP r) (d, st) of (blocked, st1) \<Rightarrow>
       (if blocked then Abort 403 ''IP blocked due to suspected DDoS'' else Next, st1)))"

section \<open>Recorded requests\<close>

record replayRequest =
  rr_ID :: string
  rr_Method :: string
  rr_URL :: string
  rr_Headers :: "string \<rightharpoonup> string"
  rr_Body :: string
  rr_ClientIP :: string
  rr_CreatedAt :: time

record requestReplay =
  rp_requests :: "string \<rightharpoonup> replayRequest"
  rp_maxAge :: duration

definition NewRequestReplay :: "duration \<Rightarrow> requestReplay" where
  "NewRequestReplay maxAge = \<lparr>rp_requests = Map.empty, rp_maxAge = maxAge\<rparr>"

text \<open>\<open>strings.Join(v, ", ")\<close>\<close>

fun join_comma :: "string list \<Rightarrow> string" where
  "join_comma [] = ''''"
| "join_comma [v] = v"
| "join_comma (v # w # ws) = v @ '', '' @ join_comma (w # ws)"

text \<open>The clock is read twice; the headers are those of the request, each with its values.\<close>

definition RecordRequest ::
    "'r redis option \<Rightarrow> time \<Rightarrow> time \<Rightarrow> string \<Rightarrow> string \<Rightarrow> (string \<rightharpoonup> string list) \<Rightarrow> string \<Rightarrow> string
      \<Rightarrow> requestReplay \<times> 'r \<Rightarrow> string \<times> requestReplay \<times> 'r" where
  "RecordRequest h now1 now2 meth url header body clientIP = (\<lambda>(rp, st).
     let rid = ''req-'' @ show_int now1 in
     (rid, rp\<lparr>rp_requests := (rp_requests rp)(rid \<mapsto>
        \<lparr>rr_ID = rid, rr_Method = meth, rr_URL = url, rr_Headers = map_option join_comma \<circ> header, rr_Body = body,
         rr_ClientIP = clientIP, rr_CreatedAt = now2\<rparr>)\<rparr>,
      (case h of None \<Rightarrow> st
       | Some R \<Rightarrow> snd (cSet R (''replay:'' @ rid) (meth @ ''|'' @ url @ ''|'' @ body @ ''|'' @ clientIP) (rp_maxAge rp) st))))"

definition GetRequest :: "string \<Rightarrow> requestReplay \<Rightarrow> replayRequest option" where
  "GetRequest rid rp = rp_requests rp rid"

text \<open>Building and sending the request is \<open>deliver\<close>: method, URL, body and headers.\<close>

definition ReplayRequest ::
    "(string \<Rightarrow> string \<Rightarrow> string \<Rightarrow> (string \<rightharpoonup> string) \<Rightarrow> 'w \<Rightarrow> go_err option \<times> 'w) \<Rightarrow> string \<Rightarrow> string \<Rightarrow> requestReplay \<Rightarrow> 'w
      \<Rightarrow> go_err option \<times> 'w" where
  "ReplayRequest deliver rid targetURL rp w = (case GetRequest rid rp of
       None \<Rightarrow> (Some (Err (''request not found: '' @ rid)), w)
     | Some r \<Rightarrow> deliver (rr_Method r) (targetURL @ rr_URL r) (rr_Body r) (rr_Headers r) w)"

text \<open>The loop over the map, in the order of the range. A negative limit panics when the slice is made.\<close>

fun list_loop :: "int \<Rightarrow> 'a list \<Rightarrow> 'a list \<Rightarrow> 'a list" where
  "list_loop limit out [] = out"
| "list_loop limit out (x # xs) = (if int (length (out @ [x])) \<ge> limit then out @ [x] else list_loop limit (out @ [x]) xs)"

definition ListRequests :: "string list \<Rightarrow> int \<Rightarrow> requestReplay \<Rightarrow> replayRequest list option" where
  "ListRequests order limit rp = (if limit < 0 then None else Some (list_loop limit [] (List.map_filter (rp_requests rp) order)))"

definition createReplayHandler :: "time \<Rightarrow> time \<Rightarrow> string + replayRequest \<Rightarrow> requestReplay \<Rightarrow> string resp \<times> requestReplay" where
  "createReplayHandler now1 now2 body rp = (case body of
       Inl e \<Rightarrow> (bad_request e, rp)
     | Inr r \<Rightarrow> let rid = ''req-'' @ show_int now1
         in ((201, Inr rid), rp\<lparr>rp_requests := (rp_requests rp)(rid \<mapsto> r\<lparr>rr_ID := rid, rr_CreatedAt := now2\<rparr>)\<rparr>))"

definition listReplayHandler :: "string list \<Rightarrow> string \<Rightarrow> requestReplay \<Rightarrow> replayRequest list resp option" where
  "listReplayHandler order l rp = map_option (\<lambda>rs. (200, Inr rs)) (ListRequests order (query_limit 20 l) rp)"

definition replayHandler ::
    "(string \<Rightarrow> string \<Rightarrow> string \<Rightarrow> (string \<rightharpoonup> string) \<Rightarrow> 'w \<Rightarrow> go_err option \<times> 'w) \<Rightarrow> string \<Rightarrow> string \<Rightarrow> requestReplay \<Rightarrow> 'w
      \<Rightarrow> string resp \<times> 'w" where
  "replayHandler deliver rid target rp w =
     (if target = '''' then (bad_request ''target URL required'', w)
      else (case ReplayRequest deliver rid target rp w of
          (Some e, w') \<Rightarrow> ((500, Inl (err_text e)), w')
        | (None, w') \<Rightarrow> ((200, Inr ''replayed''), w')))"

section \<open>Sizes of requests\<close>

record sizeLimit =
  sl_Endpoint :: string
  sl_Method :: string
  sl_MaxBytes :: int

type_synonym endpointSizeLimits = "string \<rightharpoonup> sizeLimit"

definition NewEndpointSizeLimits :: endpointSizeLimits where "NewEndpointSizeLimits = Map.empty"

definition SetLimit :: "string \<Rightarrow> string \<Rightarrow> int \<Rightarrow> endpointSizeLimits \<Rightarrow> endpointSizeLimits" where
  "SetLimit endpoint meth maxBytes l = l(meth @ '':'' @ endpoint \<mapsto> \<lparr>sl_Endpoint = endpoint, sl_Method = meth, sl_MaxBytes = maxBytes\<rparr>)"

definition GetLimit :: "string \<Rightarrow> string \<Rightarrow> endpointSizeLimits \<Rightarrow> int" where
  "GetLimit endpoint meth l = (case l (meth @ '':'' @ endpoint) of Some s \<Rightarrow> sl_MaxBytes s | None \<Rightarrow> 10 * 1024 * 1024)"

definition size_Middleware :: "http_req \<Rightarrow> endpointSizeLimits \<Rightarrow> outcome" where
  "size_Middleware r l =
     (let maxBytes = GetLimit (rq_path r) (rq_method r) l
      in if rq_contentLength r > maxBytes \<and> maxBytes > 0 then Abort 413 ''Request body too large'' else Next)"

definition setLimitHandler :: "string + sizeLimit \<Rightarrow> endpointSizeLimits \<Rightarrow> string resp \<times> endpointSizeLimits" where
  "setLimitHandler body l = (case body of Inl e \<Rightarrow> (bad_request e, l)
     | Inr s \<Rightarrow> ((200, Inr ''success''), SetLimit (sl_Endpoint s) (sl_Method s) (sl_MaxBytes s) l))"

definition listLimitsHandler :: "string list \<Rightarrow> endpointSizeLimits \<Rightarrow> sizeLimit list resp" where
  "listLimitsHandler order l = (200, Inr (List.map_filter l order))"

section \<open>Lemmas\<close>

text \<open>The failures of one address, and its entry after them.\<close>

definition ddos_run :: "(time \<times> string) list \<Rightarrow> 'r ddosProtection \<times> 'r \<Rightarrow> 'r ddosProtection \<times> 'r" where
  "ddos_run es = fold (\<lambda>(t, i). ddos_RecordFailure t i) es"

lemma ddos_run_local:
  assumes "dd_redis d = None" and "dd_failedRequests d ip = None" and "length es < 2 ^ 62"
  shows "\<exists>d'. ddos_run es (d, st) = (d', st) \<and> dd_redis d' = None \<and> dd_threshold d' = dd_threshold d \<and>
    dd_windowSeconds d' = dd_windowSeconds d \<and>
    (let ts = map fst (filter (\<lambda>e. snd e = ip) es) in
      dd_failedRequests d' ip = (if ts = [] then None
        else Some \<lparr>fr_count = int (length ts), fr_firstFail = hd ts, fr_lastFail = last ts\<rparr>))"
  using assms(3)
proof (induction es rule: rev_induct)
  case Nil
  then show ?case using assms by (simp add: ddos_run_def)
next
  case (snoc e es)
  obtain t i where e: "e = (t, i)" by fastforce
  have len: "length (filter (\<lambda>e. snd e = ip) es) \<le> length es" by simp
  have k: "i64 (int (length (filter (\<lambda>e. snd e = ip) es)) + 1) = int (length (filter (\<lambda>e. snd e = ip) es)) + 1"
  proof (rule i64_id_bounds)
    have "length es < 2 ^ 62" using snoc.prems by simp
    with len have "length (filter (\<lambda>e. snd e = ip) es) < 2 ^ 62" by (rule le_less_trans)
    then have "int (length (filter (\<lambda>e. snd e = ip) es)) < 2 ^ 62" by (metis of_nat_less_iff of_nat_numeral of_nat_power)
    then show "int (length (filter (\<lambda>e. snd e = ip) es)) + 1 < 2 ^ 63" by simp
  qed simp
  from snoc show ?case
    by (auto simp: ddos_run_def e ddos_RecordFailure_def Let_def k i64_1 hd_append split: if_splits)
qed

lemma crl_local_expiry: "crl_localCache (crl_cleanup now c) ip = (case crl_localCache c ip of
    Some cl \<Rightarrow> if kl_expiresAt cl < now then None else Some cl | None \<Rightarrow> None)"
  by (simp add: crl_cleanup_def purge_def split: option.splits)

text \<open>A sweep of the local windows is never noticed by a check.\<close>

interpretation crl_expiry: expiring "\<lambda>t cl. kl_expiresAt cl < t" "\<lambda>t cl. \<not> t < kl_expiresAt cl"
  by unfold_locales simp

text \<open>The buckets of the shaper: between empty and full, at the default rate, updated before \<open>now\<close>.\<close>

definition bw_ok :: "int \<Rightarrow> int \<Rightarrow> time \<Rightarrow> time \<Rightarrow> clientBandwidth \<Rightarrow> bool" where
  "bw_ok rate burst t0 now bw \<longleftrightarrow> 0 \<le> bw_tokens bw \<and> bw_tokens bw \<le> burst \<and> bw_rate bw = rate \<and> bw_burst bw = burst \<and>
     t0 \<le> bw_lastUpdate bw \<and> bw_lastUpdate bw \<le> now"

definition sh_ok :: "int \<Rightarrow> int \<Rightarrow> time \<Rightarrow> time \<Rightarrow> trafficShaper \<Rightarrow> bool" where
  "sh_ok rate burst t0 now ts \<longleftrightarrow> sh_defaultRate ts = rate \<and> sh_defaultBurst ts = burst \<and>
     (\<forall>ip bw. sh_bandwidths ts ip = Some bw \<longrightarrow> bw_ok rate burst t0 now bw)"

lemma refill_between:
  assumes "0 \<le> rate" "rate \<le> 2 ^ 31" "0 \<le> d" "d \<le> 2 ^ 20 * go_second"
  shows "0 \<le> refill wild rate d" and "refill wild rate d \<le> 2 ^ 31 * (2 ^ 20 + 1)"
proof -
  have "f_between 0 (2 ^ 31) (f_int rate)" using assms(1,2) by (simp add: f_int_small)
  from f_mul_between [OF this duration_seconds_between [OF assms(3,4)]]
  have b: "f_between 0 (2 ^ 31 * (2 ^ 20 + 1)) (f_mul (f_int rate) (duration_seconds d))" by simp
  show "0 \<le> refill wild rate d" "refill wild rate d \<le> 2 ^ 31 * (2 ^ 20 + 1)"
    unfolding refill_def using f_to_i64_between [OF b] by (simp_all add: in_i64_def)
qed

lemma checkBandwidth_ok:
  assumes "sh_ok rate burst t0 now ts" and "0 \<le> rate" "rate \<le> 2 ^ 31" "0 \<le> burst" "burst \<le> 2 ^ 53"
    and "t0 \<le> now" "now \<le> t0 + 2 ^ 20 * go_second"
  shows "\<exists>ts'. checkBandwidth wild now ip 0 ts = (True, ts') \<and> sh_ok rate burst t0 now ts'"
proof (cases "sh_bandwidths ts ip")
  case None
  then show ?thesis using assms by (auto simp: checkBandwidth_def sh_ok_def bw_ok_def)
next
  case (Some bw)
  have bw: "bw_ok rate burst t0 now bw" using assms(1) Some by (simp add: sh_ok_def)
  let ?e = "time_sub now (bw_lastUpdate bw)" and ?r = "refill wild (bw_rate bw) (time_sub now (bw_lastUpdate bw))"
  have "0 \<le> now - bw_lastUpdate bw" "now - bw_lastUpdate bw \<le> 2 ^ 20 * go_second"
    using bw assms(6,7) by (auto simp: bw_ok_def)
  moreover from this have "?e = now - bw_lastUpdate bw" by (intro time_sub_exact) (simp add: in_i64_def go_second_def)
  ultimately have r: "0 \<le> ?r" "?r \<le> 2 ^ 31 * (2 ^ 20 + 1)"
    using bw assms(2,3) refill_between [of rate ?e wild] by (simp_all add: bw_ok_def)
  then have "i64 (bw_tokens bw + ?r) = bw_tokens bw + ?r"
    using bw assms(5) by (intro i64_id_bounds) (auto simp: bw_ok_def)
  then show ?thesis using bw r assms
    by (auto simp: checkBandwidth_def Some Let_def sh_ok_def bw_ok_def i64_id_bounds)
qed

fun sh_run :: "(string \<Rightarrow> ip option) \<Rightarrow> (f64 \<Rightarrow> int) \<Rightarrow> (time \<times> http_req) list \<Rightarrow> trafficShaper \<Rightarrow> outcome list" where
  "sh_run v6 wild [] ts = []"
| "sh_run v6 wild ((now, r) # es) ts = (case sh_Middleware v6 wild now r ts of (out, ts') \<Rightarrow> out # sh_run v6 wild es ts')"

lemma sh_ok_later: "sh_ok rate burst t0 now ts \<Longrightarrow> now \<le> now' \<Longrightarrow> sh_ok rate burst t0 now' ts"
  by (fastforce simp: sh_ok_def bw_ok_def)

section \<open>Properties\<close>

text \<open>Without Redis an address is blocked exactly while the first failure ever recorded for it is
  within the window and the threshold has been reached. The count and the first failure are never reset,
  so once that window is over the address is never blocked again, however often it fails.\<close>

theorem ddos_first_window_only:
  assumes "dd_redis d = None" and "dd_failedRequests d ip = None" and "length es < 2 ^ 62"
    and "0 \<le> dd_windowSeconds d" and "dd_windowSeconds d \<le> 10 ^ 9"
  shows "fst (isBlocked now ip (ddos_run es (d, st))) \<longleftrightarrow>
    (let ts = map fst (filter (\<lambda>e. snd e = ip) es)
     in ts \<noteq> [] \<and> dd_threshold d \<le> int (length ts) \<and> now < hd ts + dd_windowSeconds d * go_second)"
proof -
  have "i64 (i64 (- dd_windowSeconds d) * go_second) = - dd_windowSeconds d * go_second"
    using assms(4,5) by (simp add: i64_id_bounds go_second_def)
  with ddos_run_local [OF assms(1-3), of st] show ?thesis by (auto simp: isBlocked_def Let_def split: if_splits)
qed

theorem ddos_first_window_only_witness:
  "fst (isBlocked 70000000000 ''a'' (ddos_run [(1, ''a''), (2, ''a''), (69000000000, ''a'')]
     (NewDDoSProtection (None :: unit redis option) 2 60 0, ()))) = False"
  using ddos_first_window_only [of "NewDDoSProtection (None :: unit redis option) 2 60 0" "''a''"
    "[(1, ''a''), (2, ''a''), (69000000000, ''a'')]" 70000000000 "()"]
  by (simp add: NewDDoSProtection_def go_second_def)

text \<open>The traffic shaper never shapes: its middleware asks for zero bytes, so with any rate up to
  2^31 and burst up to 2^53 every request of any sequence over up to 2^20 seconds passes, in the machine's
  own arithmetic.\<close>

theorem shaper_never_refuses:
  assumes "sorted (t0 # map fst es)" and "\<forall>t \<in> set (map fst es). t \<le> t0 + 2 ^ 20 * go_second"
    and "0 \<le> rate" "rate \<le> 2 ^ 31" "0 \<le> burst" "burst \<le> 2 ^ 53"
  shows "set (sh_run v6 wild es (NewTrafficShaper rate burst)) \<subseteq> {Next}"
proof -
  have "set (sh_run v6 wild es ts) \<subseteq> {Next}" if "sh_ok rate burst t0 now ts" "sorted (now # map fst es)" "t0 \<le> now" for now ts
    using that assms(2)
  proof (induction es arbitrary: now ts)
    case (Cons e es)
    obtain t r where e: "e = (t, r)" by fastforce
    have t: "now \<le> t" "t \<le> t0 + 2 ^ 20 * go_second" "t0 \<le> t" "sorted (t # map fst es)" using Cons.prems by (auto simp: e)
    have ok: "sh_ok rate burst t0 t ts" using sh_ok_later [OF Cons.prems(1) t(1)] .
    from checkBandwidth_ok [OF ok assms(3-6) t(3,2), of wild "rq_clientIP r"]
    obtain ts' where "sh_Middleware v6 wild t r ts = (Next, ts')" "sh_ok rate burst t0 t ts'"
      using ok by (cases "isWhitelisted v6 (rq_clientIP r)") (auto simp: sh_Middleware_def)
    with Cons.IH [OF _ t(4,3), of ts'] Cons.prems(4) show ?case by (simp add: e)
  qed simp
  moreover have "sh_ok rate burst t0 t0 (NewTrafficShaper rate burst)" by (simp add: sh_ok_def NewTrafficShaper_def)
  ultimately show ?thesis using assms(1) by blast
qed

theorem shaper_never_refuses_witness:
  "\<forall>r. set (sh_run (\<lambda>_. None) (\<lambda>_. 0) [(5, r), (6, r), (6, r)] (NewTrafficShaper 0 0)) \<subseteq> {Next}"
  by (intro allI, rule shaper_never_refuses [of 0]) (simp_all add: go_second_def)

end
