(* ===== verification/Request_Id.thy ===== *)
theory Request_Id
  imports Http Redis_Api
begin

text \<open>
  Names of requests, the metrics of the admin endpoints and the timeouts of nodes
  (\<open>gateway/requestid.go\<close>). Fresh UUIDs are an argument.
\<close>

section \<open>The configuration of names\<close>

record requestIDConfig =
  ri_prefix :: string
  ri_format :: string

definition DefaultRequestIDPrefix :: string where "DefaultRequestIDPrefix = ''req''"
definition DefaultRequestIDFormat :: string where "DefaultRequestIDFormat = ''unix''"

text \<open>\<open>strings.TrimSpace\<close> on ASCII text.\<close>

definition is_space :: "char \<Rightarrow> bool" where
  "is_space c \<longleftrightarrow> (let n = (of_char c :: nat) in n = 32 \<or> 9 \<le> n \<and> n \<le> 13)"

definition trim_space :: "string \<Rightarrow> string" where
  "trim_space s = rev (dropWhile is_space (rev (dropWhile is_space s)))"

definition normalizeRequestIDPrefix :: "string \<Rightarrow> string" where
  "normalizeRequestIDPrefix prefx = (let p = trim_space prefx in if p = '''' then DefaultRequestIDPrefix else p)"

definition normalizeRequestIDFormat :: "string \<Rightarrow> string" where
  "normalizeRequestIDFormat format = (let f = to_lower (trim_space format)
     in if f \<in> {''unix'', ''timestamp'', ''uuid''} then f else '''')"

definition ric_SetPrefix :: "string \<Rightarrow> requestIDConfig \<Rightarrow> requestIDConfig" where
  "ric_SetPrefix p ric = ric\<lparr>ri_prefix := normalizeRequestIDPrefix p\<rparr>"

definition ric_SetFormat :: "string \<Rightarrow> requestIDConfig \<Rightarrow> bool \<times> requestIDConfig" where
  "ric_SetFormat f ric = (let n = normalizeRequestIDFormat f
     in if n = '''' then (False, ric) else (True, ric\<lparr>ri_format := n\<rparr>))"

definition NewRequestIDConfig :: "string \<Rightarrow> string \<Rightarrow> requestIDConfig" where
  "NewRequestIDConfig p f =
     snd (ric_SetFormat f (ric_SetPrefix p \<lparr>ri_prefix = DefaultRequestIDPrefix, ri_format = DefaultRequestIDFormat\<rparr>))"

definition ric_Snapshot :: "requestIDConfig \<Rightarrow> (string \<times> string) list" where
  "ric_Snapshot ric = [(''prefix'', ri_prefix ric), (''format'', ri_format ric)]"

text \<open>All three formats print alike.\<close>

definition ric_Format :: "string \<Rightarrow> requestIDConfig \<Rightarrow> string" where
  "ric_Format value ric =
     (if ri_format ric = ''uuid'' then ri_prefix ric @ ''-'' @ value
      else if ri_format ric = ''timestamp'' then ri_prefix ric @ ''-'' @ value
      else ri_prefix ric @ ''-'' @ value)"

section \<open>The generator\<close>

record requestIDGenerator =
  rg_config :: requestIDConfig
  rg_counters :: "string \<rightharpoonup> u64"

definition NewRequestIDGenerator :: "string \<Rightarrow> string \<Rightarrow> requestIDGenerator" where
  "NewRequestIDGenerator p f = \<lparr>rg_config = NewRequestIDConfig p f, rg_counters = Map.empty\<rparr>"

definition rg_SetPrefix :: "string \<Rightarrow> requestIDGenerator \<Rightarrow> requestIDGenerator" where
  "rg_SetPrefix p g = g\<lparr>rg_config := ric_SetPrefix p (rg_config g)\<rparr>"

definition rg_SetFormat :: "string \<Rightarrow> requestIDGenerator \<Rightarrow> bool \<times> requestIDGenerator" where
  "rg_SetFormat f g = (case ric_SetFormat f (rg_config g) of (ok, c) \<Rightarrow> (ok, g\<lparr>rg_config := c\<rparr>))"

text \<open>The clock is read once or twice, a UUID is drawn when the format asks for one.\<close>

definition Generate ::
    "'r redis option \<Rightarrow> time \<Rightarrow> time \<Rightarrow> string \<Rightarrow> requestIDGenerator \<times> 'r \<Rightarrow> string \<times> requestIDGenerator \<times> 'r" where
  "Generate h now1 now2 uuid = (\<lambda>(g, st).
     let n = (case rg_counters g ''global'' of None \<Rightarrow> 0 | Some n \<Rightarrow> n) + 1;
         g' = g\<lparr>rg_counters := (rg_counters g)(''global'' \<mapsto> n)\<rparr>;
         v1 = show_int now1 @ ''-'' @ show_nat (unat n);
         format = ri_format (rg_config g);
         v2 = (if format = ''timestamp'' then show_int (now2 div go_second) @ ''-'' @ show_nat (unat n) else v1);
         v3 = (if format = ''uuid'' then uuid else v2)
     in (ric_Format v3 (rg_config g), g',
         (case h of None \<Rightarrow> st | Some R \<Rightarrow> snd (cHIncrBy R ''request_id_counter'' ''global'' 1 st))))"

definition GenerateUUID :: "string \<Rightarrow> requestIDGenerator \<Rightarrow> string" where
  "GenerateUUID uuid g = ric_Format uuid (rg_config g)"

text \<open>The name under which the request goes on, also the header of the answer.\<close>

definition rg_Middleware ::
    "'r redis option \<Rightarrow> time \<Rightarrow> time \<Rightarrow> string \<Rightarrow> http_req \<Rightarrow> requestIDGenerator \<times> 'r \<Rightarrow> string \<times> requestIDGenerator \<times> 'r" where
  "rg_Middleware h now1 now2 uuid r s =
     (let i = rq_header r ''X-Request-ID'' in if i = '''' then Generate h now1 now2 uuid s else (i, s))"

definition GetTraceID :: "string \<Rightarrow> http_req \<Rightarrow> requestIDGenerator \<Rightarrow> string" where
  "GetTraceID uuid r g = (let t = rq_header r ''X-Trace-ID'' in if t = '''' then GenerateUUID uuid g else t)"

text \<open>A body is a prefix and a format. The prefix is set before the format is looked at.\<close>

definition setConfigHandler ::
    "string + string \<times> string \<Rightarrow> requestIDGenerator \<Rightarrow> (string \<times> string) resp \<times> requestIDGenerator" where
  "setConfigHandler body g = (case body of
       Inl e \<Rightarrow> (bad_request e, g)
     | Inr (p, f) \<Rightarrow>
         let g1 = (if p \<noteq> '''' then rg_SetPrefix p g else g)
         in (if f \<noteq> '''' then
               (case rg_SetFormat f g1 of
                  (False, g2) \<Rightarrow> (bad_request ''invalid request id format'', g2)
                | (True, g2) \<Rightarrow> ((200, Inr (ri_prefix (rg_config g2), ri_format (rg_config g2))), g2))
             else ((200, Inr (ri_prefix (rg_config g1), ri_format (rg_config g1))), g1)))"

definition getConfigHandler :: "requestIDGenerator \<Rightarrow> (string \<times> string) list resp" where
  "getConfigHandler g = (200, Inr (ric_Snapshot (rg_config g)))"

section \<open>Metrics of the admin endpoints\<close>

record adminMetrics =
  am_apiCalls :: "string \<rightharpoonup> int"
  am_errors :: "string \<rightharpoonup> int"
  am_latencies :: "string \<rightharpoonup> int list"

definition NewAdminMetrics :: adminMetrics where
  "NewAdminMetrics = \<lparr>am_apiCalls = Map.empty, am_errors = Map.empty, am_latencies = Map.empty\<rparr>"

definition bump :: "string \<Rightarrow> (string \<rightharpoonup> int) \<Rightarrow> (string \<rightharpoonup> int)" where
  "bump k m = m(k \<mapsto> i64 ((case m k of None \<Rightarrow> 0 | Some n \<Rightarrow> n) + 1))"

definition RecordCall :: "string \<Rightarrow> int \<Rightarrow> bool \<Rightarrow> adminMetrics \<Rightarrow> adminMetrics" where
  "RecordCall endpoint latencyMs isError am =
     \<lparr>am_apiCalls = bump endpoint (am_apiCalls am),
      am_errors = (if isError then bump endpoint (am_errors am) else am_errors am),
      am_latencies = (am_latencies am)(endpoint \<mapsto>
        push_bounded 1000 latencyMs (case am_latencies am endpoint of None \<Rightarrow> [] | Some l \<Rightarrow> l))\<rparr>"

record latencySummary =
  ls_avg :: f64
  ls_count :: f64

definition summary :: "int list \<Rightarrow> latencySummary" where
  "summary ls = \<lparr>ls_avg = f_div (f_int (fold (\<lambda>l sum. i64 (sum + l)) ls 0)) (f_int (int (length ls))), ls_count = f_int (int (length ls))\<rparr>"

definition am_GetMetrics :: "adminMetrics \<Rightarrow> (string \<rightharpoonup> int) \<times> (string \<rightharpoonup> int) \<times> (string \<rightharpoonup> latencySummary)" where
  "am_GetMetrics am = (am_apiCalls am, am_errors am, map_option summary \<circ> am_latencies am)"

definition metricsHandler :: "adminMetrics \<Rightarrow> ((string \<rightharpoonup> int) \<times> (string \<rightharpoonup> int) \<times> (string \<rightharpoonup> latencySummary)) resp" where
  "metricsHandler am = (200, Inr (am_GetMetrics am))"

definition am_Middleware :: "time \<Rightarrow> time \<Rightarrow> http_req \<Rightarrow> int \<Rightarrow> adminMetrics \<Rightarrow> adminMetrics" where
  "am_Middleware start fin r status am = RecordCall (rq_path r) (time_sub fin start sdiv 1000000) (status \<ge> 400) am"

section \<open>Timeouts of nodes\<close>

record nodeTimeoutConfig =
  nt_Dial :: duration
  nt_Read :: duration
  nt_Write :: duration
  nt_Idle :: duration

record nodeTimeouts =
  nt_timeouts :: "string \<rightharpoonup> nodeTimeoutConfig"
  nt_defaultCfg :: nodeTimeoutConfig

definition NewNodeTimeouts :: "duration \<Rightarrow> duration \<Rightarrow> duration \<Rightarrow> duration \<Rightarrow> nodeTimeouts" where
  "NewNodeTimeouts d r w i = \<lparr>nt_timeouts = Map.empty, nt_defaultCfg = \<lparr>nt_Dial = d, nt_Read = r, nt_Write = w, nt_Idle = i\<rparr>\<rparr>"

definition SetNodeTimeout :: "string \<Rightarrow> nodeTimeoutConfig \<Rightarrow> nodeTimeouts \<Rightarrow> nodeTimeouts" where
  "SetNodeTimeout nodeID cfg nt = nt\<lparr>nt_timeouts := (nt_timeouts nt)(nodeID \<mapsto> cfg)\<rparr>"

definition GetNodeTimeout :: "string \<Rightarrow> nodeTimeouts \<Rightarrow> nodeTimeoutConfig" where
  "GetNodeTimeout nodeID nt = (case nt_timeouts nt nodeID of Some c \<Rightarrow> c | None \<Rightarrow> nt_defaultCfg nt)"

definition SetDefaultTimeout :: "nodeTimeoutConfig \<Rightarrow> nodeTimeouts \<Rightarrow> nodeTimeouts" where
  "SetDefaultTimeout cfg nt = nt\<lparr>nt_defaultCfg := cfg\<rparr>"

definition nt_setTimeoutHandler :: "string + string \<times> nodeTimeoutConfig \<Rightarrow> nodeTimeouts \<Rightarrow> string resp \<times> nodeTimeouts" where
  "nt_setTimeoutHandler body nt = (case body of Inl e \<Rightarrow> (bad_request e, nt)
     | Inr (nodeID, cfg) \<Rightarrow> ((200, Inr ''success''), SetNodeTimeout nodeID cfg nt))"

definition nt_listTimeoutsHandler :: "nodeTimeouts \<Rightarrow> ((string \<rightharpoonup> nodeTimeoutConfig) \<times> nodeTimeoutConfig) resp" where
  "nt_listTimeoutsHandler nt = (200, Inr (nt_timeouts nt, nt_defaultCfg nt))"

section \<open>Lemmas\<close>

text \<open>A name ends in its counter: what follows the last dash.\<close>

definition last_part :: "string \<Rightarrow> string" where
  "last_part s = rev (takeWhile (\<lambda>c. c \<noteq> CHR ''-'') (rev s))"

lemma dash_not_digit: "\<not> is_digit (CHR ''-'')"
  by (simp add: is_digit_def)

lemma last_part_counter: "last_part (s @ ''-'' @ show_nat n) = show_nat n"
proof -
  have "\<forall>c \<in> set (rev (show_nat n)). c \<noteq> CHR ''-''" using show_nat_digits dash_not_digit by auto
  then have "takeWhile (\<lambda>c. c \<noteq> CHR ''-'') (rev (show_nat n) @ CHR ''-'' # rev s) = rev (show_nat n)"
    by (subst takeWhile_append2) auto
  then show ?thesis by (simp add: last_part_def)
qed

lemma show_nat_inj: "show_nat m = show_nat n \<Longrightarrow> m = n"
  by (metis parse_show_nat option.inject)

text \<open>What may happen to the generator: a request passes the middleware, with the clock readings and the UUID it would draw;
  the administrators' change of the names; the two settings that a new configuration of the gateway applies.\<close>

datatype id_op = IdRequest time time string http_req | IdConfig "string + string \<times> string" | IdApply string string

text \<open>Each request with the name it brings, if any, and the name it goes on under.\<close>

fun id_step :: "'r redis option \<Rightarrow> id_op \<Rightarrow> requestIDGenerator \<times> 'r \<Rightarrow> (string \<times> string) list \<times> requestIDGenerator \<times> 'r" where
  "id_step h (IdRequest t t' u r) s = (case rg_Middleware h t t' u r s of (i, s') \<Rightarrow> ([(rq_header r ''X-Request-ID'', i)], s'))"
| "id_step h (IdConfig body) (g, st) = ([], snd (setConfigHandler body g), st)"
| "id_step h (IdApply p f) (g, st) = ([], snd (rg_SetFormat f (rg_SetPrefix p g)), st)"

fun id_run :: "'r redis option \<Rightarrow> id_op list \<Rightarrow> requestIDGenerator \<times> 'r \<Rightarrow> (string \<times> string) list" where
  "id_run h [] s = []"
| "id_run h (e # es) s = (case id_step h e s of (is, s') \<Rightarrow> is @ id_run h es s')"

definition own_names :: "(string \<times> string) list \<Rightarrow> string list" where
  "own_names ns = map snd (filter (\<lambda>(x, i). x = '''') ns)"

definition counter :: "requestIDGenerator \<Rightarrow> nat" where
  "counter g = (case rg_counters g ''global'' of None \<Rightarrow> 0 | Some n \<Rightarrow> unat n)"

lemma Generate_counted:
  assumes "ri_format (rg_config g) \<noteq> ''uuid''" and "counter g + 1 < 2 ^ 64"
  obtains i g' st' where "Generate h t t' u (g, st) = (i, g', st')" "counter g' = counter g + 1"
    "rg_config g' = rg_config g" "last_part i = show_nat (counter g + 1)"
proof -
  have n: "unat ((case rg_counters g ''global'' of None \<Rightarrow> 0 | Some n \<Rightarrow> n) + 1) = counter g + 1"
    using assms(2) by (auto simp: counter_def unat_word_ariths split: option.splits)
  have l: "last_part (p @ ''-'' @ q @ ''-'' @ show_nat k) = show_nat k" for p q k
    using last_part_counter [of "p @ ''-'' @ q" k] by simp
  obtain i g' st' where r: "Generate h t t' u (g, st) = (i, g', st')" by (metis prod.collapse)
  have "counter g' = counter g + 1" "rg_config g' = rg_config g" "last_part i = show_nat (counter g + 1)"
    using r assms(1) n l by (auto simp: Generate_def Let_def ric_Format_def counter_def)
  with r that show ?thesis by blast
qed

text \<open>Formats and prefixes in ASCII, where \<open>strings.ToLower\<close> and \<open>strings.TrimSpace\<close> are those of this model, and no change to
  the UUID format.\<close>

definition ascii_text :: "string \<Rightarrow> bool" where
  "ascii_text s \<longleftrightarrow> list_all (\<lambda>c. of_char c < (128 :: nat)) s"

definition safe_names :: "string \<Rightarrow> string \<Rightarrow> bool" where
  "safe_names p f \<longleftrightarrow> ascii_text p \<and> ascii_text f \<and> normalizeRequestIDFormat f \<noteq> ''uuid''"

definition safe_op :: "id_op \<Rightarrow> bool" where
  "safe_op e = (case e of IdConfig (Inr (p, f)) \<Rightarrow> safe_names p f | IdApply p f \<Rightarrow> safe_names p f | _ \<Rightarrow> True)"

lemma SetFormat_keeps:
  assumes "ri_format (rg_config g) \<noteq> ''uuid''" and "normalizeRequestIDFormat f \<noteq> ''uuid''"
  shows "counter (snd (rg_SetFormat f g)) = counter g" and "ri_format (rg_config (snd (rg_SetFormat f g))) \<noteq> ''uuid''"
  using assms by (auto simp: rg_SetFormat_def ric_SetFormat_def counter_def Let_def)

lemma SetPrefix_keeps [simp]:
  "counter (rg_SetPrefix p g) = counter g" "ri_format (rg_config (rg_SetPrefix p g)) = ri_format (rg_config g)"
  by (simp_all add: rg_SetPrefix_def ric_SetPrefix_def counter_def)

lemma config_keeps:
  assumes "ri_format (rg_config g) \<noteq> ''uuid''" and "safe_op (IdConfig body)"
  shows "counter (snd (setConfigHandler body g)) = counter g" and "ri_format (rg_config (snd (setConfigHandler body g))) \<noteq> ''uuid''"
proof -
  have "counter (snd (setConfigHandler body g)) = counter g \<and> ri_format (rg_config (snd (setConfigHandler body g))) \<noteq> ''uuid''"
  proof (cases body)
    case (Inr x)
    obtain p f where x: "x = (p, f)" by (cases x)
    let ?g1 = "if p \<noteq> '''' then rg_SetPrefix p g else g"
    have "snd (setConfigHandler body g) = (if f \<noteq> '''' then snd (rg_SetFormat f ?g1) else ?g1)"
      by (simp add: setConfigHandler_def Inr x Let_def split: prod.split bool.split)
    moreover have "normalizeRequestIDFormat f \<noteq> ''uuid''" using assms(2) by (simp add: safe_op_def safe_names_def Inr x)
    ultimately show ?thesis using assms(1) SetFormat_keeps [of ?g1 f] by (simp split: if_splits)
  qed (use assms in \<open>simp add: setConfigHandler_def\<close>)
  then show "counter (snd (setConfigHandler body g)) = counter g" and "ri_format (rg_config (snd (setConfigHandler body g))) \<noteq> ''uuid''"
    by simp_all
qed

lemma id_run_counters:
  "ri_format (rg_config g) \<noteq> ''uuid'' \<Longrightarrow> list_all safe_op es \<Longrightarrow> counter g + length es < 2 ^ 64 \<Longrightarrow>
   \<exists>k. map last_part (own_names (id_run h es (g, st))) = map show_nat [counter g + 1..<counter g + 1 + k]"
proof (induction es arbitrary: g st)
  case (Cons e es)
  show ?case
  proof (cases e)
    case (IdRequest t t' u r)
    show ?thesis
    proof (cases "rq_header r ''X-Request-ID'' = ''''")
      case True
      have n: "counter g + 1 < 2 ^ 64" using Cons.prems(3) by simp
      obtain i g' st' where
        g: "Generate h t t' u (g, st) = (i, g', st')" "counter g' = counter g + 1"
        "rg_config g' = rg_config g" "last_part i = show_nat (counter g + 1)"
        by (rule Generate_counted [OF Cons.prems(1) n])
      have "\<exists>k. map last_part (own_names (id_run h es (g', st'))) = map show_nat [counter g' + 1..<counter g' + 1 + k]"
        by (rule Cons.IH) (use Cons.prems g(2,3) in simp_all)
      then obtain k where "map last_part (own_names (id_run h es (g', st'))) = map show_nat [counter g + 2..<counter g + 2 + k]"
        unfolding g(2) by auto
      then have "map last_part (own_names (id_run h (e # es) (g, st))) = map show_nat [counter g + 1..<counter g + 1 + Suc k]"
        using True by (simp add: IdRequest rg_Middleware_def own_names_def g(1,4) upt_conv_Cons del: upt_Suc)
      then show ?thesis by blast
    next
      case False
      then have "own_names (id_run h (e # es) (g, st)) = own_names (id_run h es (g, st))"
        by (simp add: IdRequest rg_Middleware_def own_names_def Let_def)
      then show ?thesis using Cons.IH [of g st] Cons.prems by (simp del: upt_Suc)
    qed
  next
    case (IdConfig body)
    then show ?thesis using Cons.IH [of "snd (setConfigHandler body g)" st] config_keeps [OF Cons.prems(1), of body] Cons.prems(2,3)
      by (simp del: upt_Suc)
  next
    case (IdApply p f)
    have "normalizeRequestIDFormat f \<noteq> ''uuid''" using Cons.prems(2) by (simp add: IdApply safe_op_def safe_names_def)
    then show ?thesis using Cons.IH [of "snd (rg_SetFormat f (rg_SetPrefix p g))" st] SetFormat_keeps [of "rg_SetPrefix p g" f] Cons.prems
      by (simp add: IdApply del: upt_Suc)
  qed
qed (auto simp: own_names_def intro: exI [of _ 0])

lemma id_run_echo: "(x, i) \<in> set (id_run h es s) \<Longrightarrow> x \<noteq> '''' \<Longrightarrow> i = x"
proof (induction es arbitrary: s)
  case (Cons e es)
  obtain g st where s: "s = (g, st)" by fastforce
  show ?case
  proof (cases e)
    case (IdRequest t t' u r)
    then show ?thesis using Cons by (auto simp: s rg_Middleware_def Let_def split: prod.splits if_splits)
  qed (use Cons in \<open>auto simp: s\<close>)
qed simp

section \<open>Properties\<close>

text \<open>C36: The names of requests: one that brings an \<open>X-Request-ID\<close> keeps it, whatever it is and whoever has the same, and those that
  bring none are given pairwise different names, however often the prefix and the format are changed between them and
  however the clock stands still or jumps. For formats other than UUID, prefixes and formats in ASCII, requests named one
  after the other, and up to the 2^64 numbers of the counter.\<close>

theorem request_ids_distinct:
  assumes "safe_names p f" and "list_all safe_op es" and "length es < 2 ^ 64"
  shows "(\<forall>(x, i) \<in> set (id_run h es (NewRequestIDGenerator p f, st)). x \<noteq> '''' \<longrightarrow> i = x) \<and>
    distinct (map snd (filter (\<lambda>(x, i). x = '''') (id_run h es (NewRequestIDGenerator p f, st))))"
proof
  let ?g = "NewRequestIDGenerator p f"
  have "ri_format (rg_config ?g) \<noteq> ''uuid''" "counter ?g = 0"
    using assms(1) by (auto simp: NewRequestIDGenerator_def NewRequestIDConfig_def ric_SetFormat_def ric_SetPrefix_def
        DefaultRequestIDFormat_def counter_def safe_names_def Let_def)
  from id_run_counters [OF this(1) assms(2), of h st] this(2) assms(3)
  obtain k where "map last_part (own_names (id_run h es (?g, st))) = map show_nat [1..<1 + k]" by auto
  moreover have "distinct (map show_nat [1..<1 + k])" by (simp add: distinct_map inj_on_def show_nat_inj)
  ultimately show "distinct (map snd (filter (\<lambda>(x, i). x = '''') (id_run h es (?g, st))))"
    unfolding own_names_def by (metis distinct_map)
qed (auto dest: id_run_echo)

definition id_request :: "string \<Rightarrow> http_req" where
  "id_request x = \<lparr>rq_method = ''GET'', rq_path = ''/'', rq_clientIP = ''c'', rq_header = (\<lambda>h. if h = ''X-Request-ID'' then x else ''''),
     rq_query = (\<lambda>_. ''''), rq_contentLength = 0\<rparr>"

text \<open>Two requests without a name at one instant, with a change of the names between, and a third that brings the name of the first.\<close>

theorem request_ids_distinct_witness:
  "(let ns = id_run (None :: unit redis option) [IdRequest 5 5 ''u'' (id_request ''''), IdConfig (Inr (''a-5'', ''Timestamp'')),
       IdRequest 5 5 ''u'' (id_request ''''), IdRequest 5 5 ''u'' (id_request ''a-5-1'')] (NewRequestIDGenerator ''a'' ''unix'', ())
    in length ns = 3 \<and> distinct (map snd (filter (\<lambda>(x, i). x = '''') ns)) \<and> snd (ns ! 0) = snd (ns ! 2))"
proof -
  let ?es = "[IdRequest 5 5 ''u'' (id_request ''''), IdConfig (Inr (''a-5'', ''Timestamp'')),
       IdRequest 5 5 ''u'' (id_request ''''), IdRequest 5 5 ''u'' (id_request ''a-5-1'')]"
  let ?ns = "id_run (None :: unit redis option) ?es (NewRequestIDGenerator ''a'' ''unix'', ())"
  have s: "safe_names ''a'' ''unix''" "list_all safe_op ?es"
    by (simp_all add: safe_op_def safe_names_def ascii_text_def normalizeRequestIDFormat_def trim_space_def is_space_def to_lower_def lower_char_def)
  define ns where "ns = ?ns"
  have l: "length ns = 3 \<and> fst (ns ! 2) = ''a-5-1'' \<and> snd (ns ! 0) = ''a-5-1''"
    unfolding ns_def id_request_def by code_simp
  have d: "(\<forall>(x, i) \<in> set ns. x \<noteq> '''' \<longrightarrow> i = x) \<and> distinct (map snd (filter (\<lambda>(x, i). x = '''') ns))"
    unfolding ns_def by (rule request_ids_distinct [OF s]) simp
  obtain x i where xi: "ns ! 2 = (x, i)" by fastforce
  have "ns ! 2 \<in> set ns" by (rule nth_mem) (use l in simp)
  moreover have "x = ''a-5-1''" using l xi by simp
  ultimately have "i = ''a-5-1''" using d xi by fastforce
  with d l xi show ?thesis unfolding Let_def ns_def [symmetric] by simp
qed

text \<open>A refused change of the configuration is not without effect: the prefix is changed all the same.\<close>

lemma refused_config_sets_prefix:
  assumes "p \<noteq> ''''" and "f \<noteq> ''''" and "normalizeRequestIDFormat f = ''''"
  shows "setConfigHandler (Inr (p, f)) g =
    (bad_request ''invalid request id format'', g\<lparr>rg_config := (rg_config g)\<lparr>ri_prefix := normalizeRequestIDPrefix p\<rparr>\<rparr>)"
  using assms by (simp add: setConfigHandler_def rg_SetPrefix_def rg_SetFormat_def ric_SetFormat_def ric_SetPrefix_def)

end
