(* ===== verification/Validation.thy ===== *)
theory Validation
  imports Http Redis_Api
begin

text \<open>
  Heartbeats of connections, the validation of requests and the strategies of node selection
  (\<open>gateway/validation.go\<close>).
\<close>

section \<open>Heartbeats\<close>

record wsConnection =
  wx_nodeID :: string
  wx_lastPing :: time
  wx_lastPong :: time
  wx_isAlive :: bool
  wx_remoteAddr :: string

record webSocketHeartbeat =
  wh_connections :: "string \<rightharpoonup> wsConnection"
  wh_pingInterval :: duration
  wh_timeout :: duration

definition NewWebSocketHeartbeat :: "duration \<Rightarrow> duration \<Rightarrow> webSocketHeartbeat" where
  "NewWebSocketHeartbeat ping timeout = \<lparr>wh_connections = Map.empty, wh_pingInterval = ping, wh_timeout = timeout\<rparr>"

definition RegisterConnection :: "time \<Rightarrow> time \<Rightarrow> string \<Rightarrow> string \<Rightarrow> string \<Rightarrow> webSocketHeartbeat \<Rightarrow> webSocketHeartbeat" where
  "RegisterConnection now1 now2 connID nodeID addr wh = wh\<lparr>wh_connections := (wh_connections wh)(connID \<mapsto>
     \<lparr>wx_nodeID = nodeID, wx_lastPing = now1, wx_lastPong = now2, wx_isAlive = True, wx_remoteAddr = addr\<rparr>)\<rparr>"

definition RecordPong :: "time \<Rightarrow> string \<Rightarrow> webSocketHeartbeat \<Rightarrow> webSocketHeartbeat" where
  "RecordPong now connID wh = (case wh_connections wh connID of
       None \<Rightarrow> wh
     | Some c \<Rightarrow> wh\<lparr>wh_connections := (wh_connections wh)(connID \<mapsto> c\<lparr>wx_lastPong := now, wx_isAlive := True\<rparr>)\<rparr>)"

definition UnregisterConnection :: "string \<Rightarrow> webSocketHeartbeat \<Rightarrow> webSocketHeartbeat" where
  "UnregisterConnection connID wh = wh\<lparr>wh_connections := (wh_connections wh)(connID := None)\<rparr>"

definition IsAlive :: "string \<Rightarrow> webSocketHeartbeat \<Rightarrow> bool" where
  "IsAlive connID wh = (case wh_connections wh connID of Some c \<Rightarrow> wx_isAlive c | None \<Rightarrow> False)"

text \<open>Total and alive, over the connections in the order of the range.\<close>

definition wh_GetStats :: "string list \<Rightarrow> webSocketHeartbeat \<Rightarrow> nat \<times> nat" where
  "wh_GetStats order wh = (let cs = List.map_filter (wh_connections wh) order in (length cs, length (filter wx_isAlive cs)))"

text \<open>A connection is marked, never removed.\<close>

definition wh_cleanup :: "time \<Rightarrow> webSocketHeartbeat \<Rightarrow> webSocketHeartbeat" where
  "wh_cleanup now wh = wh\<lparr>wh_connections := (\<lambda>k. map_option
     (\<lambda>c. if time_sub now (wx_lastPong c) > wh_timeout wh then c\<lparr>wx_isAlive := False\<rparr> else c) (wh_connections wh k))\<rparr>"

text \<open>The name given to the connection while the request is served, and the state afterwards: \<open>inner\<close> is
  what the rest of the chain does to it.\<close>

definition wh_Middleware ::
    "time \<Rightarrow> http_req \<Rightarrow> (string \<Rightarrow> webSocketHeartbeat \<Rightarrow> webSocketHeartbeat) \<Rightarrow> webSocketHeartbeat \<Rightarrow> webSocketHeartbeat" where
  "wh_Middleware now r inner wh =
     (let i = rq_header r ''X-Connection-ID''; connID = (if i = '''' then ''conn-'' @ show_int now else i)
      in UnregisterConnection connID (inner connID wh))"

section \<open>Validation\<close>

record validationRule =
  vr_Path :: string
  vr_Method :: string
  vr_RequiredCols :: "string list"
  vr_MaxBodySize :: int
  vr_AllowJSON :: bool
  vr_AllowForm :: bool

record requestValidator =
  rv_rules :: "string \<rightharpoonup> validationRule"
  rv_maxBodySize :: int
  rv_allowedCTypes :: "string list"

definition NewRequestValidator :: "int \<Rightarrow> requestValidator" where
  "NewRequestValidator maxBodySize = \<lparr>rv_rules = Map.empty, rv_maxBodySize = maxBodySize,
     rv_allowedCTypes = [''application/json'', ''application/x-www-form-urlencoded'']\<rparr>"

definition AddRule :: "string \<Rightarrow> string \<Rightarrow> string list \<Rightarrow> int \<Rightarrow> requestValidator \<Rightarrow> requestValidator" where
  "AddRule path meth required maxBodySize rv = rv\<lparr>rv_rules := (rv_rules rv)(meth @ '':'' @ path \<mapsto>
     \<lparr>vr_Path = path, vr_Method = meth, vr_RequiredCols = required, vr_MaxBodySize = maxBodySize, vr_AllowJSON = True, vr_AllowForm = True\<rparr>)\<rparr>"

text \<open>Only the size of the body is checked: no rule's required fields, nor the validator's own size.\<close>

definition rv_Middleware :: "http_req \<Rightarrow> requestValidator \<Rightarrow> outcome" where
  "rv_Middleware r rv = (case rv_rules rv (rq_method r @ '':'' @ rq_path r) of
       None \<Rightarrow> Next
     | Some rule \<Rightarrow> if rq_contentLength r > vr_MaxBodySize rule \<and> vr_MaxBodySize rule > 0
         then Abort 413 ''Request body too large'' else Next)"

fun ctype_allowed :: "string \<Rightarrow> string list \<Rightarrow> bool" where
  "ctype_allowed contentType [] = False"
| "ctype_allowed contentType (ct # cts) =
     (if length contentType \<ge> length ct \<and> take (length ct) contentType = ct then True else ctype_allowed contentType cts)"

definition ValidateBody :: "http_req \<Rightarrow> requestValidator \<Rightarrow> go_err option" where
  "ValidateBody r rv = (let contentType = rq_header r ''Content-Type'' in
     if contentType = '''' then None
     else if ctype_allowed contentType (rv_allowedCTypes rv) then None
     else Some (Err (''unsupported content type: '' @ contentType)))"

definition createRuleHandler :: "string + validationRule \<Rightarrow> requestValidator \<Rightarrow> string resp \<times> requestValidator" where
  "createRuleHandler body rv = (case body of Inl e \<Rightarrow> (bad_request e, rv)
     | Inr rule \<Rightarrow> ((201, Inr ''success''), AddRule (vr_Path rule) (vr_Method rule) (vr_RequiredCols rule) (vr_MaxBodySize rule) rv))"

definition listRulesHandler :: "string list \<Rightarrow> requestValidator \<Rightarrow> validationRule list resp" where
  "listRulesHandler order rv = (200, Inr (List.map_filter (rv_rules rv) order))"

definition deleteRuleHandler :: "string + string \<times> string \<Rightarrow> requestValidator \<Rightarrow> string resp \<times> requestValidator" where
  "deleteRuleHandler body rv = (case body of Inl e \<Rightarrow> (bad_request e, rv)
     | Inr (path, meth) \<Rightarrow> ((200, Inr ''success''), rv\<lparr>rv_rules := (rv_rules rv)(meth @ '':'' @ path := None)\<rparr>))"

section \<open>Selection strategies\<close>

text \<open>The tracker: none at all (a nil interface), a nil pointer in the interface, which \<open>GetLatencyTracker\<close> returns and whose method
  panics, or one with its average latencies.\<close>

datatype latencySource = NoTracker | NilTracker | Tracker "string \<Rightarrow> int"

record nodeSelector =
  sel_strategy :: string
  sel_latencyTracker :: latencySource
  sel_rrCounter :: int

definition NewNodeSelector :: "string \<Rightarrow> latencySource \<Rightarrow> nodeSelector" where
  "NewNodeSelector strategy tracker = \<lparr>sel_strategy = strategy, sel_latencyTracker = tracker, sel_rrCounter = 0\<rparr>"

definition SetStrategy :: "string \<Rightarrow> nodeSelector \<Rightarrow> nodeSelector" where
  "SetStrategy strategy ns = ns\<lparr>sel_strategy := strategy\<rparr>"

text \<open>An index below zero panics: \<open>None\<close>.\<close>

definition go_nth :: "'a list \<Rightarrow> int \<Rightarrow> 'a option" where
  "go_nth xs i = (if 0 \<le> i \<and> i < int (length xs) then Some (xs ! nat i) else None)"

definition selectRandom :: "time \<Rightarrow> string list \<Rightarrow> string option" where
  "selectRandom now nodes = go_nth nodes (i64 now smod int (length nodes))"

definition selectLeastLoad :: "string list \<Rightarrow> string option" where
  "selectLeastLoad nodes = go_nth nodes 0"

fun lowest_loop :: "(string \<Rightarrow> int) \<Rightarrow> string \<Rightarrow> int \<Rightarrow> string list \<Rightarrow> string" where
  "lowest_loop lat bestNode bestLatency [] = bestNode"
| "lowest_loop lat bestNode bestLatency (n # ns) =
     (if lat n < bestLatency \<or> bestLatency = 0 then lowest_loop lat n (lat n) ns
      else lowest_loop lat bestNode bestLatency ns)"

definition selectLowestLatency :: "string list \<Rightarrow> nodeSelector \<Rightarrow> string option" where
  "selectLowestLatency nodes ns = (case sel_latencyTracker ns of
       NoTracker \<Rightarrow> go_nth nodes 0
     | NilTracker \<Rightarrow> None
     | Tracker lat \<Rightarrow> (case nodes of [] \<Rightarrow> None | n # rest \<Rightarrow> Some (lowest_loop lat n (lat n) rest)))"

definition selectRoundRobin :: "string list \<Rightarrow> nodeSelector \<Rightarrow> string option \<times> nodeSelector" where
  "selectRoundRobin nodes ns = (go_nth nodes (sel_rrCounter ns smod int (length nodes)), ns\<lparr>sel_rrCounter := i64 (sel_rrCounter ns + 1)\<rparr>)"

definition ns_Select :: "time \<Rightarrow> string list \<Rightarrow> nodeSelector \<Rightarrow> string option \<times> nodeSelector" where
  "ns_Select now nodes ns =
     (if nodes = [] then (Some '''', ns)
      else if sel_strategy ns = ''random'' then (selectRandom now nodes, ns)
      else if sel_strategy ns = ''least_load'' then (selectLeastLoad nodes, ns)
      else if sel_strategy ns = ''lowest_latency'' then (selectLowestLatency nodes ns, ns)
      else if sel_strategy ns = ''highest_reputation'' then (go_nth nodes 0, ns)
      else if sel_strategy ns = ''round_robin'' then selectRoundRobin nodes ns
      else (go_nth nodes 0, ns))"

section \<open>Lemmas\<close>

lemma ctype_allowed_iff: "ctype_allowed c cts \<longleftrightarrow> (\<exists>ct \<in> set cts. prefix ct c)"
  by (induction cts) (auto simp: has_prefix_iff [symmetric] has_prefix_def)

text \<open>Right after a sweep a connection counts as alive exactly if it was and has answered in time.\<close>

lemma alive_after_cleanup:
  "IsAlive k (wh_cleanup now wh) \<longleftrightarrow>
    (\<exists>c. wh_connections wh k = Some c \<and> wx_isAlive c \<and> time_sub now (wx_lastPong c) \<le> wh_timeout wh)"
  by (auto simp: IsAlive_def wh_cleanup_def split: option.splits)

text \<open>Go's remainder as an index: below zero unless it is a multiple.\<close>

definition index_at :: "int \<Rightarrow> 'a list \<Rightarrow> 'a option" where
  "index_at i xs = (if i < 0 \<and> i mod int (length xs) \<noteq> 0 then None else Some (xs ! nat (i mod int (length xs))))"

lemma smod_index:
  assumes "xs \<noteq> []"
  shows "go_nth xs (i smod int (length xs)) = index_at i xs"
proof -
  let ?n = "int (length xs)"
  have n: "0 < ?n" using assms by simp
  show ?thesis
  proof (cases "0 \<le> i")
    case True
    with n have "i smod ?n = i mod ?n"
      by (auto simp: signed_modulo_int_def signed_divide_int_def sgn_if minus_div_mult_eq_mod)
    with True n show ?thesis by (simp add: go_nth_def index_at_def)
  next
    case False
    then have m: "i smod ?n = - (- i mod ?n)"
      using n by (simp add: signed_modulo_int_def signed_divide_int_def sgn_if)
    have r: "0 \<le> - i mod ?n" using n by simp
    have z: "(- i mod ?n = 0) = (i mod ?n = 0)" using dvd_minus_iff [of ?n i] by (simp only: dvd_eq_mod_eq_0)
    show ?thesis
    proof (cases "i mod ?n = 0")
      case True
      with m z n show ?thesis by (simp add: go_nth_def index_at_def)
    next
      case nz: False
      then have "i smod ?n < 0" using m z r by linarith
      with nz False show ?thesis by (simp add: go_nth_def index_at_def)
    qed
  qed
qed

lemma lowest_loop_in: "lowest_loop lat b bl ns \<in> set (b # ns)"
  by (induction ns arbitrary: b bl) (auto split: if_splits)

text \<open>The first node of least latency.\<close>

fun first_min :: "(string \<Rightarrow> int) \<Rightarrow> string \<Rightarrow> string list \<Rightarrow> string" where
  "first_min lat b [] = b"
| "first_min lat b (n # ns) = first_min lat (if lat n < lat b then n else b) ns"

lemma first_min_least: "first_min lat b ns \<in> set (b # ns) \<and> (\<forall>n \<in> set (b # ns). lat (first_min lat b ns) \<le> lat n)"
proof (induction ns arbitrary: b)
  case (Cons n ns)
  show ?case using Cons.IH [of "if lat n < lat b then n else b"] by (auto split: if_splits)
qed simp

lemma lowest_loop_min:
  "\<forall>n \<in> set (b # ns). lat n \<noteq> 0 \<Longrightarrow> lowest_loop lat b (lat b) ns = first_min lat b ns"
  by (induction ns arbitrary: b) auto

text \<open>A latency of zero stands for no measurement: it wins, and is then given up for the next node.\<close>

lemma lowest_loop_restart:
  "\<forall>n \<in> set (b # as @ z # ns). 0 \<le> lat n \<Longrightarrow> lat z = 0 \<Longrightarrow> lowest_loop lat b (lat b) (as @ z # ns) = lowest_loop lat z 0 ns"
proof (induction as arbitrary: b)
  case Nil
  then show ?case by auto
next
  case (Cons a as)
  show ?case using Cons.IH [of a] Cons.IH [of b] Cons.prems by simp
qed

text \<open>What the loop of the lowest latency computes: only the nodes after the last one without a measurement count, and if there are
  none after it, it is selected itself.\<close>

definition measured_tail :: "(string \<Rightarrow> int) \<Rightarrow> string list \<Rightarrow> string list" where
  "measured_tail lat nodes = rev (takeWhile (\<lambda>n. lat n \<noteq> 0) (rev nodes))"

definition lowest_of :: "(string \<Rightarrow> int) \<Rightarrow> string list \<Rightarrow> string" where
  "lowest_of lat nodes = (case measured_tail lat nodes of [] \<Rightarrow> last nodes | c # cs \<Rightarrow> first_min lat c cs)"

lemma lowest_loop_of:
  assumes "\<forall>n \<in> set (b # ns). 0 \<le> lat n"
  shows "lowest_loop lat b (lat b) ns = lowest_of lat (b # ns)"
proof (cases "\<exists>n \<in> set (b # ns). lat n = 0")
  case False
  then have "measured_tail lat (b # ns) = b # ns"
    unfolding measured_tail_def by (subst takeWhile_eq_all_conv [THEN iffD2]) auto
  with False lowest_loop_min [of b ns lat] show ?thesis by (simp add: lowest_of_def)
next
  case True
  obtain as z bs where d: "b # ns = as @ z # bs" "lat z = 0" "\<forall>n \<in> set bs. lat n \<noteq> 0"
    using split_list_last_prop [OF True] by blast
  have t: "measured_tail lat (b # ns) = bs"
    using d(2,3) by (auto simp: measured_tail_def d(1) takeWhile_append)
  have r: "lowest_loop lat z 0 bs = lowest_of lat (b # ns)"
  proof (cases bs)
    case Nil
    then show ?thesis unfolding lowest_of_def t by (simp add: d(1))
  next
    case (Cons c cs)
    then show ?thesis using d(3) lowest_loop_min [of c cs lat] unfolding lowest_of_def t by simp
  qed
  show ?thesis
  proof (cases as)
    case Nil
    with d r show ?thesis by simp
  next
    case (Cons a as')
    with d(1) have e: "b = a" "ns = as' @ z # bs" by simp_all
    have "lowest_loop lat b (lat b) (as' @ z # bs) = lowest_loop lat z 0 bs"
      by (rule lowest_loop_restart) (use assms e d(2) in simp_all)
    with e(2) r show ?thesis by simp
  qed
qed

section \<open>Properties\<close>

text \<open>C37: Which node a selector selects and when it panics, for every strategy, clock, counter and tracker whose averages are not
  negative. From no nodes it selects the empty name. At random, the clock's nanoseconds modulo the number of nodes; round
  robin, the counter modulo the number, and the counter alone goes one further, wrapping around: both panic below
  zero, unless the index is a multiple. By latency, the first node without a tracker, a panic with the nil pointer that
  the program's \<open>GetLatencyTracker\<close> returns, and else the first of the least latency among the nodes after the last one
  that has no measurement (zero), or that node itself when it comes last. Any other strategy, known or not, takes the
  first.\<close>

theorem select_exact:
  assumes "\<And>lat n. sel_latencyTracker ns = Tracker lat \<Longrightarrow> n \<in> set nodes \<Longrightarrow> 0 \<le> lat n"
  shows "ns_Select now nodes ns =
    (let pick = (\<lambda>i. if i < 0 \<and> i mod int (length nodes) \<noteq> 0 then None else Some (nodes ! nat (i mod int (length nodes))))
     in if nodes = [] then (Some '''', ns)
        else if sel_strategy ns = ''random'' then (pick (i64 now), ns)
        else if sel_strategy ns = ''round_robin'' then
          (pick (sel_rrCounter ns), ns\<lparr>sel_rrCounter := i64 (sel_rrCounter ns + 1)\<rparr>)
        else if sel_strategy ns = ''lowest_latency'' then
          ((case sel_latencyTracker ns of NoTracker \<Rightarrow> Some (hd nodes) | NilTracker \<Rightarrow> None
            | Tracker lat \<Rightarrow> Some (case rev (takeWhile (\<lambda>n. lat n \<noteq> 0) (rev nodes)) of
                [] \<Rightarrow> last nodes | c # cs \<Rightarrow> first_min lat c cs)), ns)
        else (Some (hd nodes), ns))"
proof (cases nodes)
  case (Cons n ns')
  then have nn: "nodes \<noteq> []" by simp
  have z: "go_nth nodes 0 = Some (hd nodes)" by (simp add: go_nth_def Cons)
  have l: "selectLowestLatency nodes ns = (case sel_latencyTracker ns of NoTracker \<Rightarrow> Some (hd nodes) | NilTracker \<Rightarrow> None
      | Tracker lat \<Rightarrow> Some (case rev (takeWhile (\<lambda>n. lat n \<noteq> 0) (rev nodes)) of [] \<Rightarrow> last nodes | c # cs \<Rightarrow> first_min lat c cs))"
  proof (cases "sel_latencyTracker ns")
    case (Tracker lat)
    have "lowest_loop lat n (lat n) ns' = lowest_of lat nodes"
      unfolding Cons by (rule lowest_loop_of) (use assms Tracker Cons in simp)
    then have "selectLowestLatency nodes ns = Some (lowest_of lat nodes)"
      by (simp add: selectLowestLatency_def Tracker Cons)
    then show ?thesis by (simp add: Tracker lowest_of_def measured_tail_def)
  qed (simp_all add: selectLowestLatency_def z)
  show ?thesis
    unfolding ns_Select_def selectRandom_def selectLeastLoad_def selectRoundRobin_def smod_index [OF nn] index_at_def z l
    using nn by (simp add: Let_def)
qed (simp add: ns_Select_def)

text \<open>A node that nobody measured puts a fast one out, and the nil pointer panics.\<close>

theorem select_exact_witness:
  "fst (ns_Select 7 [''fast'', ''new'', ''slow''] (NewNodeSelector ''lowest_latency''
      (Tracker (\<lambda>n. if n = ''fast'' then 5 else if n = ''new'' then 0 else 90)))) = Some ''slow'' \<and>
   fst (ns_Select 7 [''fast'', ''new'', ''slow''] (NewNodeSelector ''lowest_latency'' NilTracker)) = None"
proof -
  let ?lat = "\<lambda>n. if n = ''fast'' then 5 else if n = ''new'' then 0 else 90"
  define s where "s = NewNodeSelector ''lowest_latency'' (Tracker ?lat)"
  define z where "z = NewNodeSelector ''lowest_latency'' NilTracker"
  have 1: "0 \<le> lat n" if "sel_latencyTracker s = Tracker lat" for lat and n :: string
    using that by (auto simp: s_def NewNodeSelector_def)
  have 2: "0 \<le> lat n" if "sel_latencyTracker z = Tracker lat" for lat and n :: string
    using that by (simp add: z_def NewNodeSelector_def)
  have "ns_Select 7 [''fast'', ''new'', ''slow''] s = (Some ''slow'', s)"
    by (subst select_exact) (simp add: 1, simp add: s_def NewNodeSelector_def)
  moreover have "ns_Select 7 [''fast'', ''new'', ''slow''] z = (None, z)"
    by (subst select_exact) (simp add: 2, simp add: z_def NewNodeSelector_def)
  ultimately show ?thesis unfolding s_def z_def by simp
qed

end
