(* ===== verification/Capacity.thy ===== *)
theory Capacity
  imports Node_Store Redis_Mem
begin

text \<open>
  Capacity planning (\<open>matchmaker/capacity.go\<close>), the scaling policies (\<open>gateway/scaling_policy.go\<close>) and
  the health score of \<open>gateway/qos_metrics.go\<close>, in the machine's floating point. JSON texts, dates and the
  printing of floats are parameters.
\<close>

section \<open>Capacity of nodes\<close>

record nodeCapacity =
  nc_NodeID :: string
  nc_BandwidthGBDay :: f64
  nc_BandwidthGBWeek :: f64
  nc_GrowthRate :: f64
  nc_CurrentLoad :: int
  nc_UtilizationPct :: f64
  nc_PredictedFull :: string
  nc_Status :: string

record capacityReport =
  cr_Nodes :: "nodeCapacity list"
  cr_TotalNodes :: int
  cr_HealthyNodes :: int
  cr_WarningNodes :: int
  cr_CriticalNodes :: int
  cr_GeneratedAt :: string

record scalingRecommendation =
  rec_Action :: string
  rec_Reason :: string
  rec_Country :: string
  rec_NodesNeeded :: int
  rec_Urgency :: string
  rec_Confidence :: f64

record scalingReport =
  sr_Recommendations :: "scalingRecommendation list"
  sr_TotalLoad :: int
  sr_AvgUtilization :: f64
  sr_GeneratedAt :: string

record bandwidthSnapshot =
  bs_Timestamp :: int
  bs_BytesSent :: int
  bs_BytesReceived :: int
  bs_TotalGB :: f64

text \<open>The world outside: the snapshot as JSON and back, dates, and the conversions of floats out of range.\<close>

record cap_env =
  ce_marshal :: "bandwidthSnapshot \<Rightarrow> go_err + string"
  ce_unmarshal :: "string \<Rightarrow> bandwidthSnapshot option"
  ce_date :: "time \<Rightarrow> string"
  ce_rfc3339 :: "time \<Rightarrow> string"
  ce_float1 :: "f64 \<Rightarrow> string"
  ce_wild :: "f64 \<Rightarrow> int"

definition cp_StoreBandwidthSnapshot :: "'r redis \<Rightarrow> cap_env \<Rightarrow> time \<Rightarrow> string \<Rightarrow> 'r \<Rightarrow> go_err option \<times> 'r" where
  "cp_StoreBandwidthSnapshot R E now nodeID st = (case GetBandwidth R nodeID st of
       (Inl e, st1) \<Rightarrow> (Some e, st1)
     | (Inr b, st1) \<Rightarrow> StoreBandwidthSnapshot R nodeID (ce_marshal E
         \<lparr>bs_Timestamp = unix_seconds now, bs_BytesSent = bd_BytesSent b, bs_BytesReceived = bd_BytesReceived b,
          bs_TotalGB = f_add (gigabytes (bd_BytesSent b)) (gigabytes (bd_BytesReceived b))\<rparr>) st1)"

definition calculateGrowthRate :: "'r redis \<Rightarrow> cap_env \<Rightarrow> string \<Rightarrow> 'r \<Rightarrow> f64 \<times> 'r" where
  "calculateGrowthRate R E nodeID st = (case GetBandwidthSnapshots R (ce_unmarshal E) nodeID 10 st of
       (Inl _, st1) \<Rightarrow> (f_int 0, st1)
     | (Inr ss, st1) \<Rightarrow>
         (if length ss < 2 then (f_int 0, st1)
          else let f = hd ss; l = last ss in
            if f_eq (bs_TotalGB f) (f_int 0) \<or> bs_Timestamp f = bs_Timestamp l then (f_int 0, st1)
            else (f_mul (f_div (f_sub (bs_TotalGB l) (bs_TotalGB f)) (bs_TotalGB f)) (f_int 100), st1)))"

definition daily_rate :: "bandwidthData \<Rightarrow> f64" where
  "daily_rate b =
     (let totalGB = f_add (gigabytes (bd_BytesSent b)) (gigabytes (bd_BytesReceived b)) in
      if bd_DurationSeconds b > 0 then
        (let hoursRunning = f_div (f_int (bd_DurationSeconds b)) (f_int 3600)
         in if f_lt (f_int 0) hoursRunning \<and> f_lt hoursRunning (f_int 24)
            then f_mul (f_div totalGB hoursRunning) (f_int 24) else totalGB)
      else totalGB)"

definition utilization :: "f64 \<Rightarrow> f64" where
  "utilization dailyRate = (let u = f_mul (f_div dailyRate (f_int 100)) (f_int 100)
     in if f_lt (f_int 100) u then f_int 100 else u)"

definition capacity_status :: "f64 \<Rightarrow> string" where
  "capacity_status u = (if f_lt (f_int 80) u then ''critical'' else if f_lt (f_int 50) u then ''warning'' else ''healthy'')"

definition predicted_full :: "cap_env \<Rightarrow> time \<Rightarrow> f64 \<Rightarrow> f64 \<Rightarrow> string" where
  "predicted_full E now dailyRate growthRate =
     (if f_lt (f_int 0) growthRate then
        (let daysUntilFull = f_div (f_sub (f_int 100) dailyRate) (f_div (f_mul dailyRate growthRate) (f_int 100))
         in if f_lt (f_int 0) daysUntilFull \<and> f_lt daysUntilFull (f_int 365)
            then ce_date E (now + i64 (f_to_i64 (ce_wild E) (f_mul daysUntilFull (f_int 24)) * go_hour)) else '''')
      else '''')"

definition AnalyzeNode :: "'r redis \<Rightarrow> cap_env \<Rightarrow> time \<Rightarrow> string \<Rightarrow> 'r \<Rightarrow> (go_err + nodeCapacity) \<times> 'r" where
  "AnalyzeNode R E now nodeID st = (case GetBandwidth R nodeID st of
       (Inl e, st1) \<Rightarrow> (Inl (Wrap ''failed to get bandwidth'' e), st1)
     | (Inr b, st1) \<Rightarrow> (case GetNodeLoad R nodeID st1 of ((load, _), st2) \<Rightarrow>
         (case calculateGrowthRate R E nodeID st2 of (growthRate, st3) \<Rightarrow>
            let dailyRate = daily_rate b; u = utilization dailyRate; status = capacity_status u
            in (Inr \<lparr>nc_NodeID = nodeID, nc_BandwidthGBDay = dailyRate, nc_BandwidthGBWeek = f_mul dailyRate (f_int 7),
                  nc_GrowthRate = growthRate, nc_CurrentLoad = load, nc_UtilizationPct = u,
                  nc_PredictedFull = (if status = ''critical'' then predicted_full E now dailyRate growthRate else ''''),
                  nc_Status = status\<rparr>, st3))))"

definition status_count :: "string \<Rightarrow> nodeCapacity list \<Rightarrow> int" where
  "status_count s ns = int (length (filter (\<lambda>n. nc_Status n = s) ns))"

definition GenerateReport :: "'r redis \<Rightarrow> cap_env \<Rightarrow> time \<Rightarrow> 'r \<Rightarrow> (go_err + capacityReport) \<times> 'r" where
  "GenerateReport R E now st = (case GetAllNodes R st of
       (Inl e, st1) \<Rightarrow> (Inl (Wrap ''failed to get nodes'' e), st1)
     | (Inr ids, st1) \<Rightarrow>
         (case each (\<lambda>i s. case AnalyzeNode R E now i s of (Inl _, s') \<Rightarrow> (None, s') | (Inr c, s') \<Rightarrow> (Some c, s')) ids st1 of
            (ns, st2) \<Rightarrow> (Inr \<lparr>cr_Nodes = ns, cr_TotalNodes = int (length ns), cr_HealthyNodes = status_count ''healthy'' ns,
               cr_WarningNodes = status_count ''warning'' ns, cr_CriticalNodes = status_count ''critical'' ns,
               cr_GeneratedAt = ce_rfc3339 E now\<rparr>, st2)))"

definition GetOverloadedNodes :: "'r redis \<Rightarrow> cap_env \<Rightarrow> time \<Rightarrow> f64 \<Rightarrow> 'r \<Rightarrow> (go_err + nodeCapacity list) \<times> 'r" where
  "GetOverloadedNodes R E now threshold st = (case GenerateReport R E now st of
       (Inl e, st1) \<Rightarrow> (Inl e, st1)
     | (Inr r, st1) \<Rightarrow> (Inr (filter (\<lambda>n. f_le threshold (nc_UtilizationPct n)) (cr_Nodes r)), st1))"

definition avg_utilization :: "nodeCapacity list \<Rightarrow> f64" where
  "avg_utilization ns = (if ns = [] then f_int 0
     else f_div (fold (\<lambda>n t. f_add t (nc_UtilizationPct n)) ns (f_int 0)) (f_int (int (length ns))))"

definition recommend :: "string \<Rightarrow> string \<Rightarrow> int \<Rightarrow> string \<Rightarrow> rat \<Rightarrow> scalingRecommendation" where
  "recommend action reason needed urgency confidence = \<lparr>rec_Action = action, rec_Reason = reason, rec_Country = '''',
     rec_NodesNeeded = needed, rec_Urgency = urgency, rec_Confidence = f_lit confidence\<rparr>"

definition recommendations :: "cap_env \<Rightarrow> capacityReport \<Rightarrow> scalingRecommendation list" where
  "recommendations E r =
     (let n = int (length (cr_Nodes r)); avgUtil = avg_utilization (cr_Nodes r);
          rs = (if cr_CriticalNodes r > 0
                then [recommend ''scale_up'' (show_int (cr_CriticalNodes r) @ '' nodes at critical capacity (>80%)'') (cr_CriticalNodes r) ''high'' 0.95]
                else []) @
               (if cr_WarningNodes r > cr_HealthyNodes r \<and> n > 0
                then [recommend ''scale_up'' (show_int (cr_WarningNodes r) @ '' of '' @ show_int n @ '' nodes in warning state'')
                  (cr_WarningNodes r sdiv 2) ''medium'' 0.75] else []) @
               (if f_lt avgUtil (f_int 20) \<and> n > 3
                then [recommend ''scale_down'' (''Average utilization '' @ ce_float1 E avgUtil @ ''% - nodes underutilized'') 0 ''low'' 0.6]
                else []) @
               (if f_lt (f_int 60) avgUtil \<and> cr_CriticalNodes r = 0
                then [recommend ''prepare_scale'' (''Average utilization '' @ ce_float1 E avgUtil @ ''% approaching capacity'') 1 ''low'' 0.5]
                else [])
      in if rs = [] then [recommend ''none'' ''Fleet capacity is healthy'' 0 ''none'' 1] else rs)"

definition GetScalingRecommendations :: "'r redis \<Rightarrow> cap_env \<Rightarrow> time \<Rightarrow> 'r \<Rightarrow> (go_err + scalingReport) \<times> 'r" where
  "GetScalingRecommendations R E now st = (case GenerateReport R E now st of
       (Inl e, st1) \<Rightarrow> (Inl e, st1)
     | (Inr r, st1) \<Rightarrow> (Inr \<lparr>sr_Recommendations = recommendations E r,
         sr_TotalLoad = fold (\<lambda>n t. i64 (t + nc_CurrentLoad n)) (cr_Nodes r) 0,
         sr_AvgUtilization = avg_utilization (cr_Nodes r), sr_GeneratedAt = ce_rfc3339 E now\<rparr>, st1))"

section \<open>Scaling policies\<close>

datatype scalingAction = ActionScaleUp | ActionScaleDown | ActionNone | NoAction

record scalingPolicy =
  sp_ID :: string
  sp_Name :: string
  sp_Enabled :: bool
  sp_Metric :: string
  sp_Threshold :: f64
  sp_Comparison :: string
  sp_Action :: scalingAction
  sp_Cooldown :: duration
  sp_LastTriggered :: time

type_synonym policyManager = "string \<rightharpoonup> scalingPolicy"

record scalingEvaluation =
  se_PolicyID :: string
  se_PolicyName :: string
  se_Triggered :: bool
  se_Action :: scalingAction
  se_CurrentValue :: f64
  se_Threshold :: f64

text \<open>\<open>fresh\<close> is what \<open>generatePolicyID\<close> yields.\<close>

definition AddPolicy :: "string \<Rightarrow> scalingPolicy \<Rightarrow> policyManager \<Rightarrow> policyManager" where
  "AddPolicy fresh p spm = (let p' = (if sp_ID p = '''' then p\<lparr>sp_ID := fresh\<rparr> else p) in spm(sp_ID p' \<mapsto> p'))"

definition NewScalingPolicyManager :: "string \<Rightarrow> string \<Rightarrow> policyManager" where
  "NewScalingPolicyManager id1 id2 =
     AddPolicy id2 \<lparr>sp_ID = '''', sp_Name = ''High Average Utilization'', sp_Enabled = True, sp_Metric = ''avg_utilization'',
         sp_Threshold = f_int 80, sp_Comparison = ''>'', sp_Action = ActionScaleUp, sp_Cooldown = 10 * go_minute, sp_LastTriggered = zero_time\<rparr>
       (AddPolicy id1 \<lparr>sp_ID = '''', sp_Name = ''Critical Nodes Alert'', sp_Enabled = True, sp_Metric = ''critical_nodes'',
         sp_Threshold = f_int 0, sp_Comparison = ''>'', sp_Action = ActionScaleUp, sp_Cooldown = 5 * go_minute, sp_LastTriggered = zero_time\<rparr> Map.empty)"

definition GetPolicy :: "string \<Rightarrow> policyManager \<Rightarrow> scalingPolicy option" where
  "GetPolicy i spm = spm i"

definition ListPolicies :: "string list \<Rightarrow> policyManager \<Rightarrow> scalingPolicy list" where
  "ListPolicies order spm = List.map_filter spm order"

text \<open>\<open>report\<close> is one call of \<open>GetCapacityReport\<close>.\<close>

definition evaluatePolicy :: "go_err + capacityReport \<Rightarrow> scalingPolicy \<Rightarrow> scalingEvaluation" where
  "evaluatePolicy report p =
     (let eval = \<lparr>se_PolicyID = sp_ID p, se_PolicyName = sp_Name p, se_Triggered = False, se_Action = NoAction,
            se_CurrentValue = f_int 0, se_Threshold = f_int 0\<rparr>;
          measured = (\<lambda>v. let e = eval\<lparr>se_CurrentValue := v, se_Threshold := sp_Threshold p\<rparr>
            in if sp_Comparison p = ''>'' \<and> f_lt (sp_Threshold p) v then e\<lparr>se_Triggered := True, se_Action := sp_Action p\<rparr> else e)
      in if sp_Metric p = ''critical_nodes'' then
           (case report of Inl _ \<Rightarrow> eval | Inr r \<Rightarrow> measured (f_int (cr_CriticalNodes r)))
         else if sp_Metric p = ''avg_utilization'' then
           (case report of Inl _ \<Rightarrow> eval | Inr r \<Rightarrow> if cr_Nodes r = [] then eval else measured (avg_utilization (cr_Nodes r)))
         else eval)"

text \<open>One policy at a time, in the order of the range; the clock is read before and after its evaluation.\<close>

definition policy_due :: "time \<Rightarrow> scalingPolicy \<Rightarrow> bool" where
  "policy_due now p \<longleftrightarrow> sp_Enabled p \<and> \<not> time_sub now (sp_LastTriggered p) < sp_Cooldown p"

fun spm_Evaluate ::
    "(string \<Rightarrow> time) \<Rightarrow> (string \<Rightarrow> time) \<Rightarrow> (string \<Rightarrow> go_err + capacityReport) \<Rightarrow> string list \<Rightarrow> policyManager
      \<Rightarrow> scalingEvaluation list \<times> policyManager" where
  "spm_Evaluate before after report [] spm = ([], spm)"
| "spm_Evaluate before after report (i # order) spm = (case spm i of
       None \<Rightarrow> spm_Evaluate before after report order spm
     | Some p \<Rightarrow>
         if \<not> policy_due (before i) p then spm_Evaluate before after report order spm
         else let e = evaluatePolicy (report i) p;
                  spm1 = (if se_Triggered e then spm(i \<mapsto> p\<lparr>sp_LastTriggered := after i\<rparr>) else spm)
           in (case spm_Evaluate before after report order spm1 of (es, spm2) \<Rightarrow> (e # es, spm2)))"

section \<open>Quality of service\<close>

record qosMetrics =
  qm_NodeID :: string
  qm_PacketLoss :: f64
  qm_JitterMs :: f64
  qm_ThroughputMbps :: f64
  qm_LatencyMs :: f64
  qm_LastMeasured :: time

text \<open>\<open>math.Min\<close> and \<open>math.Max\<close>: NaN if either argument is, except that \<open>Min(-Inf, NaN)\<close> is -Inf.\<close>

definition math_min :: "f64 \<Rightarrow> f64 \<Rightarrow> f64" where
  "math_min x y = (if x = NInf \<or> y = NInf then NInf else if x = FNaN \<or> y = FNaN then FNaN else if f_lt x y then x else y)"

definition math_max :: "f64 \<Rightarrow> f64 \<Rightarrow> f64" where
  "math_max x y = (if x = PInf \<or> y = PInf then PInf else if x = FNaN \<or> y = FNaN then FNaN else if f_lt y x then x else y)"

definition CalculateHealthScore :: "qosMetrics option \<Rightarrow> f64" where
  "CalculateHealthScore m = (case m of None \<Rightarrow> f_int 0
     | Some q \<Rightarrow>
         let latencyScore = f_sub (f_int 100) (math_min (f_div (qm_LatencyMs q) (f_int 10)) (f_int 100));
             jitterScore = f_sub (f_int 100) (math_min (qm_JitterMs q) (f_int 100));
             lossScore = f_sub (f_int 100) (math_min (f_mul (qm_PacketLoss q) (f_int 10)) (f_int 100));
             avg = f_div (f_add (f_add latencyScore jitterScore) lossScore) (f_int 3)
         in math_max (f_int 0) (math_min (f_int 100) avg))"

section \<open>Lemmas\<close>

lemma utilization_le: "utilization d = FNaN \<or> f_le (utilization d) (f_int 100)"
  by (cases "f_mul (f_div d (f_int 100)) (f_int 100)")
     (auto simp: utilization_def Let_def f_le_def simp del: f_mul.simps f_div.simps)

lemma AnalyzeNode_status:
  "AnalyzeNode R E now i st = (Inr c, st') \<Longrightarrow> nc_Status c = capacity_status (nc_UtilizationPct c)"
  by (auto simp: AnalyzeNode_def Let_def split: prod.splits sum.splits)

lemma report_nodes:
  assumes "GenerateReport R E now st = (Inr r, st')" and "n \<in> set (cr_Nodes r)"
  shows "nc_Status n = capacity_status (nc_UtilizationPct n)"
proof -
  obtain ids st1 where g: "GetAllNodes R st = (Inr ids, st1)" using assms(1)
    by (auto simp: GenerateReport_def split: prod.splits sum.splits)
  let ?f = "\<lambda>i s. case AnalyzeNode R E now i s of (Inl _, s') \<Rightarrow> (None, s') | (Inr c, s') \<Rightarrow> (Some c, s')"
  obtain ns st2 where e: "each ?f ids st1 = (ns, st2)" by fastforce
  then have "cr_Nodes r = ns" using assms(1) g by (auto simp: GenerateReport_def)
  with assms(2) have "n \<in> set ns" by simp
  from each_in [OF e this] obtain i st0 where "fst (?f i st0) = Some n" by blast
  then obtain s' where "AnalyzeNode R E now i st0 = (Inr n, s')" by (auto split: prod.splits sum.splits)
  then show ?thesis by (rule AnalyzeNode_status)
qed

lemma status_counts_add:
  "(\<And>n. n \<in> set ns \<Longrightarrow> nc_Status n = capacity_status (nc_UtilizationPct n)) \<Longrightarrow>
   status_count ''healthy'' ns + status_count ''warning'' ns + status_count ''critical'' ns = int (length ns)"
proof (induction ns)
  case (Cons n ns)
  then have "status_count ''healthy'' ns + status_count ''warning'' ns + status_count ''critical'' ns = int (length ns)" by simp
  moreover have "nc_Status n = capacity_status (nc_UtilizationPct n)" using Cons.prems by simp
  ultimately show ?case by (auto simp: status_count_def capacity_status_def)
qed (simp add: status_count_def)

text \<open>What an evaluation does to one policy.\<close>

lemma Evaluate_one:
  assumes "spm_Evaluate before after report order spm = (es, spm')" and "distinct order" and "spm i = Some p"
  shows "\<exists>p'. spm' i = Some p' \<and> p' = p\<lparr>sp_LastTriggered := sp_LastTriggered p'\<rparr> \<and>
    (sp_LastTriggered p' = sp_LastTriggered p \<or> i \<in> set order \<and> policy_due (before i) p \<and> sp_LastTriggered p' = after i)"
  using assms
proof (induction before after report order spm arbitrary: es p rule: spm_Evaluate.induct)
  case (2 before after report j order spm)
  show ?case
  proof (cases "spm j")
    case None
    then show ?thesis using "2.IH"(1) "2.prems" by auto
  next
    case (Some q)
    show ?thesis
    proof (cases "policy_due (before j) q")
      case False
      then show ?thesis using "2.IH"(2) [OF Some] "2.prems" Some by auto
    next
      case True
      let ?e = "evaluatePolicy (report j) q"
      let ?s = "if se_Triggered ?e then spm(j \<mapsto> q\<lparr>sp_LastTriggered := after j\<rparr>) else spm"
      obtain es' where r: "spm_Evaluate before after report order ?s = (es', spm')"
        using "2.prems"(1) Some True by (auto simp: Let_def split: prod.splits)

      show ?thesis
      proof (cases "i = j")
        case False
        then have "?s i = Some p" using "2.prems"(3) by auto
        from "2.IH"(3) [OF Some _ refl refl r _ this] True "2.prems"(2) show ?thesis by auto
      next
        case ij: True
        then have p: "p = q" using Some "2.prems"(3) by simp
        obtain p1 where p1: "?s i = Some p1" "p1 = p\<lparr>sp_LastTriggered := sp_LastTriggered p1\<rparr>"
          "sp_LastTriggered p1 = sp_LastTriggered p \<or> sp_LastTriggered p1 = after j"
          using ij p Some by (cases "se_Triggered ?e") auto
        from "2.IH"(3) [OF Some _ refl refl r _ p1(1)] True "2.prems"(2) ij p p1(2,3) show ?thesis by auto
      qed
    qed
  qed
qed simp

lemma evaluate_respects_cooldown:
  assumes "spm_Evaluate before after report order spm = (es, spm')" and "distinct order" and "spm i = Some p"
    and "\<not> policy_due (before i) p"
  shows "\<exists>p'. spm' i = Some p' \<and> sp_LastTriggered p' = sp_LastTriggered p"
  using Evaluate_one [OF assms(1-3)] assms(4) by auto

lemma qos_score_bounded:
  "CalculateHealthScore m = FNaN \<or> f_between 0 100 (CalculateHealthScore m)"
proof (cases m)
  case (Some q)
  have "math_max (f_int 0) (math_min (f_int 100) a) = FNaN \<or> f_between 0 100 (math_max (f_int 0) (math_min (f_int 100) a))" for a
    by (cases a) (auto simp: math_max_def math_min_def)
  then show ?thesis unfolding CalculateHealthScore_def Some option.case Let_def by blast
qed (simp add: CalculateHealthScore_def)

text \<open>One busy node among idle ones: the fleet is told to grow at once and to shrink.\<close>

definition busy_fleet :: capacityReport where
  "busy_fleet = (let n = (\<lambda>u. \<lparr>nc_NodeID = ''n'', nc_BandwidthGBDay = f_int u, nc_BandwidthGBWeek = f_int (7 * u), nc_GrowthRate = f_int 0,
       nc_CurrentLoad = 0, nc_UtilizationPct = f_int u, nc_PredictedFull = '''', nc_Status = capacity_status (f_int u)\<rparr>)
     in \<lparr>cr_Nodes = [n 90, n 0, n 0, n 0, n 0], cr_TotalNodes = 5, cr_HealthyNodes = 4, cr_WarningNodes = 0, cr_CriticalNodes = 1,
         cr_GeneratedAt = ''''\<rparr>)"

lemma contradictory_advice: "map rec_Action (recommendations E busy_fleet) = [''scale_up'', ''scale_down'']"
proof -
  have "avg_utilization (cr_Nodes busy_fleet) = Fin 18"
    using f_int_small [of 90, unfolded f_int_def] f_int_small [of 18, unfolded f_int_def]
    by (simp add: busy_fleet_def Let_def avg_utilization_def)
  moreover have "length (cr_Nodes busy_fleet) = 5" "cr_CriticalNodes busy_fleet = 1" "cr_HealthyNodes busy_fleet = 4"
    "cr_WarningNodes busy_fleet = 0" by (simp_all add: busy_fleet_def Let_def)
  ultimately show ?thesis by (simp add: recommendations_def Let_def recommend_def)
qed

section \<open>Properties\<close>

text \<open>A capacity report accounts for every node it lists exactly once: the healthy, warning and critical
  nodes add up to the total, which is the number of nodes listed, and each node's status is the one its
  utilization gives it.\<close>

theorem report_adds_up:
  assumes "GenerateReport R E now st = (Inr r, st')"
  shows "cr_HealthyNodes r + cr_WarningNodes r + cr_CriticalNodes r = cr_TotalNodes r"
    and "cr_TotalNodes r = int (length (cr_Nodes r))"
    and "\<forall>n \<in> set (cr_Nodes r). nc_Status n = capacity_status (nc_UtilizationPct n)"
proof -
  have c: "cr_HealthyNodes r = status_count ''healthy'' (cr_Nodes r)" "cr_WarningNodes r = status_count ''warning'' (cr_Nodes r)"
    "cr_CriticalNodes r = status_count ''critical'' (cr_Nodes r)" "cr_TotalNodes r = int (length (cr_Nodes r))"
    using assms by (auto simp: GenerateReport_def split: prod.splits sum.splits)
  show "cr_HealthyNodes r + cr_WarningNodes r + cr_CriticalNodes r = cr_TotalNodes r"
    unfolding c using status_counts_add report_nodes [OF assms] by blast
  show "\<forall>n \<in> set (cr_Nodes r). nc_Status n = capacity_status (nc_UtilizationPct n)" using report_nodes [OF assms] by blast
  show "cr_TotalNodes r = int (length (cr_Nodes r))" using c(4) .
qed

definition cap_demo :: "mem redis" where
  "cap_demo = mem_redis\<lparr>cKeys := (\<lambda>p s. (Inr [''node_meta:a'', ''node_meta:b''], s))\<rparr>"

theorem report_adds_up_witness:
  "\<exists>r. fst (GenerateReport cap_demo \<lparr>ce_marshal = (\<lambda>_. Inr ''''), ce_unmarshal = (\<lambda>_. None), ce_date = show_int,
      ce_rfc3339 = show_int, ce_float1 = (\<lambda>_. ''''), ce_wild = (\<lambda>_. 0)\<rparr> 5 mem_empty) = Inr r \<and>
    cr_HealthyNodes r + cr_WarningNodes r + cr_CriticalNodes r = 2"
proof -
  let ?E = "\<lparr>ce_marshal = (\<lambda>_. Inr ''''), ce_unmarshal = (\<lambda>_. None), ce_date = show_int,
      ce_rfc3339 = show_int, ce_float1 = (\<lambda>_. ''''), ce_wild = (\<lambda>_. 0)\<rparr> :: cap_env"
  obtain r st' where r: "GenerateReport cap_demo ?E 5 mem_empty = (Inr r, st')" and n: "length (cr_Nodes r) = 2"
    by (simp add: GenerateReport_def GetAllNodes_def cap_demo_def AnalyzeNode_def GetBandwidth_def GetNodeLoad_def
        calculateGrowthRate_def GetBandwidthSnapshots_def read_json_def mem_defs map_filter_def Let_def)
  from report_adds_up(1,2) [OF r] r n show ?thesis by simp
qed

end
