(* ===== verification/Federation.thy ===== *)
theory Federation
  imports Node_Store
begin

text \<open>
  The federation of gateways (\<open>federation/service.go\<close>): who the other regions are, which nodes they have,
  and which of them are healthy. The two loops are their ticks.
\<close>

record peerGateway =
  pg_Region :: string
  pg_Address :: string
  pg_LastSeen :: time
  pg_Healthy :: bool

record federationStats =
  fs_Region :: string
  fs_PeerCount :: int
  fs_NodeCount :: int
  fs_LastSync :: time
  fs_Status :: string

record federation =
  fd_HeartbeatInterval :: int
  fd_peers :: "string \<rightharpoonup> peerGateway"
  fd_nodeCache :: "string \<rightharpoonup> string list"

record federationMessage =
  fm_Type :: string
  fm_Region :: string
  fm_Nodes :: "string list"

definition NewFederationService :: "int \<Rightarrow> federation" where
  "NewFederationService interval = \<lparr>fd_HeartbeatInterval = interval, fd_peers = Map.empty, fd_nodeCache = Map.empty\<rparr>"

definition stale :: "time \<Rightarrow> federation \<Rightarrow> peerGateway \<Rightarrow> bool" where
  "stale now f p \<longleftrightarrow> time_sub now (pg_LastSeen p) > i64 (i64 (fd_HeartbeatInterval f * 3) * go_second)"

definition checkPeerHealth :: "time \<Rightarrow> federation \<Rightarrow> federation" where
  "checkPeerHealth now f = f\<lparr>fd_peers := (\<lambda>k. map_option (\<lambda>p. if stale now f p then p\<lparr>pg_Healthy := False\<rparr> else p) (fd_peers f k))\<rparr>"

definition syncNodes :: "'r redis \<Rightarrow> federation \<times> 'r \<Rightarrow> federation \<times> 'r" where
  "syncNodes R = (\<lambda>(f, st). case GetAllNodes R st of
       (Inl e, st1) \<Rightarrow> (f, st1)
     | (Inr nodes, st1) \<Rightarrow> (f\<lparr>fd_nodeCache := (fd_nodeCache f)(''local'' \<mapsto> nodes)\<rparr>, st1))"

definition RegisterPeer :: "time \<Rightarrow> string \<Rightarrow> string \<Rightarrow> federation \<Rightarrow> federation" where
  "RegisterPeer now region address f = f\<lparr>fd_peers := (fd_peers f)(region \<mapsto>
     \<lparr>pg_Region = region, pg_Address = address, pg_LastSeen = now, pg_Healthy = True\<rparr>)\<rparr>"

definition fd_GetStats :: "string list \<Rightarrow> federation \<Rightarrow> federationStats list" where
  "fd_GetStats order f = List.map_filter (\<lambda>region. map_option (\<lambda>p.
     \<lparr>fs_Region = region, fs_PeerCount = 1,
      fs_NodeCount = (case fd_nodeCache f region of Some ns \<Rightarrow> int (length ns) | None \<Rightarrow> 0),
      fs_LastSync = pg_LastSeen p, fs_Status = (if \<not> pg_Healthy p then ''unhealthy'' else ''healthy'')\<rparr>) (fd_peers f region)) order"

definition GetNodesForRegion :: "string \<Rightarrow> federation \<Rightarrow> go_err + string list" where
  "GetNodesForRegion region f = (case fd_nodeCache f region of
       None \<Rightarrow> Inl (Err (''no nodes found for region: '' @ region)) | Some ns \<Rightarrow> Inr ns)"

definition SelectNodeByRegion :: "'r redis \<Rightarrow> time \<Rightarrow> string \<Rightarrow> federation \<Rightarrow> 'r \<Rightarrow> (go_err + node) \<times> 'r" where
  "SelectNodeByRegion R now region f st =
     (let rest = (case GetAllNodes R st of
            (Inl e, st1) \<Rightarrow> (Inl (Err ''no nodes available''), st1)
          | (Inr ns, st1) \<Rightarrow> if ns = [] then (Inl (Err ''no nodes available''), st1) else GetNode R now (hd ns) st1)
      in if region \<noteq> '''' then
           (case GetNodesForRegion region f of
              Inr ns \<Rightarrow> if ns \<noteq> [] then GetNode R now (hd ns) st else rest
            | Inl _ \<Rightarrow> rest)
         else rest)"

text \<open>A heartbeat from a region not registered makes a peer without an address.\<close>

definition handleHeartbeat :: "time \<Rightarrow> federationMessage \<Rightarrow> federation \<Rightarrow> federation" where
  "handleHeartbeat now msg f =
     (let p = (case fd_peers f (fm_Region msg) of Some p \<Rightarrow> p
             | None \<Rightarrow> \<lparr>pg_Region = fm_Region msg, pg_Address = '''', pg_LastSeen = zero_time, pg_Healthy = False\<rparr>)
      in f\<lparr>fd_peers := (fd_peers f)(fm_Region msg \<mapsto> p\<lparr>pg_LastSeen := now, pg_Healthy := True\<rparr>)\<rparr>)"

definition handleNodeSync :: "federationMessage \<Rightarrow> federation \<Rightarrow> federation" where
  "handleNodeSync msg f = f\<lparr>fd_nodeCache := (fd_nodeCache f)(fm_Region msg \<mapsto> fm_Nodes msg)\<rparr>"

definition HandleMessage :: "time \<Rightarrow> federationMessage \<Rightarrow> federation \<Rightarrow> go_err option \<times> federation" where
  "HandleMessage now msg f =
     (if fm_Type msg = ''heartbeat'' then (None, handleHeartbeat now msg f)
      else if fm_Type msg = ''node_sync'' then (None, handleNodeSync msg f)
      else (Some (Err (''unknown message type: '' @ fm_Type msg)), f))"

section \<open>Runs\<close>

datatype fd_op = FRegister string string | FMessage federationMessage | FCheck

fun fd_step :: "time \<times> fd_op \<Rightarrow> federation \<Rightarrow> federation" where
  "fd_step (now, FRegister r a) f = RegisterPeer now r a f"
| "fd_step (now, FMessage m) f = snd (HandleMessage now m f)"
| "fd_step (now, FCheck) f = checkPeerHealth now f"

text \<open>When a region was last heard of: registered, or a heartbeat.\<close>

fun heard :: "string \<Rightarrow> fd_op \<Rightarrow> bool" where
  "heard r (FRegister r' a) \<longleftrightarrow> r' = r"
| "heard r (FMessage m) \<longleftrightarrow> fm_Type m = ''heartbeat'' \<and> fm_Region m = r"
| "heard r FCheck = False"

definition last_heard :: "string \<Rightarrow> (time \<times> fd_op) list \<Rightarrow> time option" where
  "last_heard r es = (let ts = map fst (filter (\<lambda>e. heard r (snd e)) es) in if ts = [] then None else Some (last ts))"

lemma last_heard_snoc:
  "last_heard r (es @ [e]) = (if heard r (snd e) then Some (fst e) else last_heard r es)"
  by (simp add: last_heard_def)

lemma fd_step_interval: "fd_HeartbeatInterval (fd_step e f) = fd_HeartbeatInterval f"
  by (cases e; cases "snd e") (auto simp: RegisterPeer_def HandleMessage_def handleHeartbeat_def handleNodeSync_def
      checkPeerHealth_def Let_def)

text \<open>The peer of a region: seen when last heard of, and unhealthy only if that was too long ago at an earlier check.\<close>

definition fd_knows :: "time \<Rightarrow> string \<Rightarrow> time option \<Rightarrow> federation \<Rightarrow> bool" where
  "fd_knows now r h f \<longleftrightarrow> (case h of None \<Rightarrow> fd_peers f r = None
     | Some t \<Rightarrow> (\<exists>p. fd_peers f r = Some p \<and> pg_LastSeen p = t \<and> (\<not> pg_Healthy p \<longrightarrow> stale now f p)))"

lemma stale_later: "stale now f p \<Longrightarrow> now \<le> now' \<Longrightarrow> stale now' f p"
  using time_sub_mono [of now now' "pg_LastSeen p"] by (simp add: stale_def)

lemma stale_interval: "fd_HeartbeatInterval f = fd_HeartbeatInterval f' \<Longrightarrow> stale now f p = stale now f' p"
  by (simp add: stale_def)

lemma stale_seen: "pg_LastSeen p = pg_LastSeen q \<Longrightarrow> stale now f p = stale now f q"
  by (simp add: stale_def)

lemma fd_knows_step:
  assumes "fd_knows now r h f" and "now \<le> t"
  shows "fd_knows t r (if heard r e then Some t else h) (fd_step (t, e) f)"
proof -
  have later: "stale t f p" if "stale now f p" for p using stale_later [OF that assms(2)] .
  have iv: "stale t (fd_step (t, e) f) p = stale t f p" for p by (rule stale_interval) (rule fd_step_interval)
  show ?thesis
  proof (cases e)
    case (FRegister r' a)
    then show ?thesis using assms(1) later iv
      by (auto simp: fd_knows_def RegisterPeer_def split: option.splits)
  next
    case (FMessage m)
    then show ?thesis using assms(1) later iv
      by (auto simp: fd_knows_def HandleMessage_def handleHeartbeat_def handleNodeSync_def Let_def split: option.splits)
  next
    case FCheck
    show ?thesis
    proof (cases h)
      case None
      then show ?thesis using assms(1) FCheck by (simp add: fd_knows_def checkPeerHealth_def)
    next
      case (Some t0)
      then obtain p where p: "fd_peers f r = Some p" "pg_LastSeen p = t0" "\<not> pg_Healthy p \<longrightarrow> stale now f p"
        using assms(1) by (auto simp: fd_knows_def)
      let ?q = "if stale t f p then p\<lparr>pg_Healthy := False\<rparr> else p"
      have "fd_peers (fd_step (t, e) f) r = Some ?q" using p FCheck by (simp add: checkPeerHealth_def)
      moreover have "pg_LastSeen ?q = t0" using p(2) by simp
      moreover have "\<not> pg_Healthy ?q \<longrightarrow> stale t f ?q" using p(3) later stale_seen [of ?q p t f] by auto
      ultimately show ?thesis using iv FCheck by (simp add: fd_knows_def Some)
    qed
  qed
qed

lemma fd_knows_run:
  "sorted (map fst es) \<Longrightarrow> (\<And>e. e \<in> set es \<Longrightarrow> fst e \<le> now) \<Longrightarrow>
   fd_knows now r (last_heard r es) (fold fd_step es (NewFederationService n)) \<and>
   fd_HeartbeatInterval (fold fd_step es (NewFederationService n)) = n"
proof (induction es arbitrary: now rule: rev_induct)
  case Nil
  then show ?case by (simp add: last_heard_def fd_knows_def NewFederationService_def)
next
  case (snoc e es)
  obtain t x where e: "e = (t, x)" by fastforce
  have s: "sorted (map fst es)" "\<And>d. d \<in> set es \<Longrightarrow> fst d \<le> t"
    using snoc.prems(1) by (auto simp: sorted_append e)
  have t: "t \<le> now" using snoc.prems(2) [of e] by (simp add: e)
  let ?f = "fold fd_step es (NewFederationService n)"
  from snoc.IH [OF s] have "fd_knows t r (last_heard r es) ?f" "fd_HeartbeatInterval ?f = n" by blast+
  from fd_knows_step [OF this(1) order_refl, of x] this(2)
  have k: "fd_knows t r (last_heard r (es @ [e])) (fd_step (t, x) ?f)" "fd_HeartbeatInterval (fd_step (t, x) ?f) = n"
    by (auto simp: last_heard_snoc e fd_step_interval split: if_splits)
  then have "fd_knows now r (last_heard r (es @ [e])) (fd_step (t, x) ?f)"
    using stale_later [OF _ t] by (fastforce simp: fd_knows_def split: option.splits)
  with k(2) show ?case by (simp add: e)
qed

section \<open>Properties\<close>

text \<open>C17: Right after a health check a region counts as healthy exactly when it has been heard of, by
  registration or by a heartbeat of its own, within three heartbeat intervals, after any history of
  registrations, messages and earlier checks in the order of the clock.\<close>

theorem federation_health_exact:
  assumes "sorted (map fst es)" and "\<forall>e \<in> set es. fst e \<le> now" and "0 \<le> n" and "n \<le> 10 ^ 9"
  shows "(\<exists>p. fd_peers (checkPeerHealth now (fold fd_step es (NewFederationService n))) r = Some p \<and> pg_Healthy p) \<longleftrightarrow>
    (case last_heard r es of None \<Rightarrow> False | Some t \<Rightarrow> time_sub now t \<le> 3 * n * go_second)"
proof -
  let ?f = "fold fd_step es (NewFederationService n)"
  have k: "fd_knows now r (last_heard r es) ?f" "fd_HeartbeatInterval ?f = n"
    using fd_knows_run [OF assms(1)] assms(2) by blast+
  have "i64 (i64 (n * 3) * go_second) = 3 * n * go_second"
    using assms(3,4) by (simp add: i64_id_bounds go_second_def)
  then have s: "stale now ?f p \<longleftrightarrow> time_sub now (pg_LastSeen p) > 3 * n * go_second" for p
    by (simp add: stale_def k(2))
  show ?thesis
  proof (cases "last_heard r es")
    case None
    then show ?thesis using k(1) by (simp add: fd_knows_def checkPeerHealth_def)
  next
    case (Some t)
    then obtain p where p: "fd_peers ?f r = Some p" "pg_LastSeen p = t" "\<not> pg_Healthy p \<longrightarrow> stale now ?f p"
      using k(1) by (auto simp: fd_knows_def)
    then show ?thesis using s [of p] by (auto simp: checkPeerHealth_def Some)
  qed
qed

theorem federation_health_exact_witness:
  "\<not> (\<exists>p. fd_peers (checkPeerHealth 40000000000 (fold fd_step [(1, FRegister ''eu'' ''a''), (2, FCheck)] (NewFederationService 10))) ''eu'' = Some p
     \<and> pg_Healthy p)"
  using federation_health_exact [of "[(1, FRegister ''eu'' ''a''), (2, FCheck)]" 40000000000 10 "''eu''"]
  by (simp add: last_heard_def time_sub_def go_second_def)

end
