(* ===== verification/Audit_Log.thy ===== *)
theory Audit_Log
  imports Http Redis_Api
begin

text \<open>
  The audit log (\<open>gateway/audit.go\<close>), the retention of its entries and the estimates of costs
  (\<open>gateway/cost_audit.go\<close>). The formats of dates, the JSON texts and the printing of floats are
  parameters; the log file is the list of its lines.
\<close>

section \<open>The audit log\<close>

record auditEntry =
  ae_Timestamp :: string
  ae_Action :: string
  ae_Resource :: string
  ae_UserIP :: string
  ae_Method :: string
  ae_Path :: string
  ae_Body :: string
  ae_Success :: bool
  ae_Error :: string

record audit_env =
  au_rfc3339 :: "time \<Rightarrow> string"
  au_date :: "time \<Rightarrow> string"
  au_marshal :: "auditEntry \<Rightarrow> string"
  au_unmarshal :: "string \<Rightarrow> auditEntry option"

text \<open>Whether the logger has a file, and its Redis server.\<close>

record 'r auditLogger =
  al_file :: bool
  al_redis :: "'r redis option"

text \<open>\<open>open_err\<close> is the error of opening the file, if any.\<close>

definition NewAuditLogger :: "(string \<Rightarrow> go_err option) \<Rightarrow> string \<Rightarrow> 'r redis option \<Rightarrow> go_err + 'r auditLogger" where
  "NewAuditLogger open_err logPath h =
     (if logPath = '''' then Inr \<lparr>al_file = False, al_redis = h\<rparr>
      else (case open_err logPath of
          Some e \<Rightarrow> Inl (Wrap ''failed to open audit log'' e) | None \<Rightarrow> Inr \<lparr>al_file = True, al_redis = h\<rparr>))"

definition audit_key :: "string \<Rightarrow> string \<Rightarrow> string" where
  "audit_key date action = ''audit:'' @ date @ '':'' @ action"

definition al_Log :: "audit_env \<Rightarrow> time \<Rightarrow> time \<Rightarrow> auditEntry \<Rightarrow> 'r auditLogger \<Rightarrow> string list \<times> 'r \<Rightarrow> string list \<times> 'r" where
  "al_Log E now1 now2 e0 al = (\<lambda>(file, st).
     let e = e0\<lparr>ae_Timestamp := au_rfc3339 E now1\<rparr>
     in (if al_file al then file @ [au_marshal E e] else file,
         (case al_redis al of None \<Rightarrow> st
          | Some R \<Rightarrow> let key = audit_key (au_date E now2) (ae_Action e)
              in snd (cExpire R key (90 * 24 * go_hour) (snd (cRPush R key (au_marshal E e) st))))))"

definition getEntriesFromKey :: "'r redis \<Rightarrow> audit_env \<Rightarrow> string \<Rightarrow> int \<Rightarrow> 'r \<Rightarrow> (go_err + auditEntry list) \<times> 'r" where
  "getEntriesFromKey R E key limit st =
     (let (start, st1) = (if limit > 0 then
            (case cLLen R key st of (res, s) \<Rightarrow> (if reply_or 0 res > limit then reply_or 0 res - limit else 0, s))
          else (0, st))
      in (case cLRange R key start (- 1) st1 of
            (Inl e, st2) \<Rightarrow> (Inl (RErr e), st2)
          | (Inr data, st2) \<Rightarrow> (Inr (List.map_filter (au_unmarshal E) data), st2)))"

fun entries_of_keys :: "'r redis \<Rightarrow> audit_env \<Rightarrow> int \<Rightarrow> string list \<Rightarrow> 'r \<Rightarrow> auditEntry list \<times> 'r" where
  "entries_of_keys R E limit [] st = ([], st)"
| "entries_of_keys R E limit (k # ks) st = (case getEntriesFromKey R E k limit st of (res, st1) \<Rightarrow>
     (case entries_of_keys R E limit ks st1 of (es, st2) \<Rightarrow> ((case res of Inl _ \<Rightarrow> [] | Inr xs \<Rightarrow> xs) @ es, st2)))"

definition GetEntries ::
    "audit_env \<Rightarrow> string \<Rightarrow> string \<Rightarrow> int \<Rightarrow> 'r auditLogger \<Rightarrow> 'r \<Rightarrow> (go_err + auditEntry list) \<times> 'r" where
  "GetEntries E date action limit al st = (case al_redis al of
       None \<Rightarrow> (Inl (Err ''Redis not configured for audit log queries''), st)
     | Some R \<Rightarrow>
         if action \<noteq> '''' then getEntriesFromKey R E (audit_key date action) limit st
         else (case cKeys R (''audit:'' @ date @ '':*'') st of
             (Inl e, st1) \<Rightarrow> (Inl (RErr e), st1)
           | (Inr ks, st1) \<Rightarrow> (case entries_of_keys R E limit ks st1 of (es, st2) \<Rightarrow> (Inr es, st2))))"

text \<open>After the rest of the chain: \<open>fullPath\<close>, the status and the errors are the framework's.\<close>

definition AuditMiddleware ::
    "audit_env \<Rightarrow> time \<Rightarrow> time \<Rightarrow> http_req \<Rightarrow> string \<Rightarrow> int \<Rightarrow> string \<Rightarrow> 'r auditLogger \<Rightarrow> string list \<times> 'r \<Rightarrow> string list \<times> 'r" where
  "AuditMiddleware E now1 now2 r fullPath status errors al s =
     (if rq_method r = ''GET'' then s
      else let ok = status < 400 in
        al_Log E now1 now2 \<lparr>ae_Timestamp = '''', ae_Action = rq_method r @ ''_'' @ fullPath, ae_Resource = fullPath,
          ae_UserIP = rq_clientIP r, ae_Method = rq_method r, ae_Path = rq_path r, ae_Body = '''', ae_Success = ok,
          ae_Error = (if \<not> ok then errors else '''')\<rparr> al s)"

section \<open>Retention\<close>

record retentionPolicy =
  rt_Action :: string
  rt_RetentionDays :: int
  rt_MaxEntries :: int

type_synonym auditRetention = "string \<rightharpoonup> retentionPolicy"

definition NewAuditRetention :: auditRetention where
  "NewAuditRetention = [''default'' \<mapsto> \<lparr>rt_Action = '''', rt_RetentionDays = 90, rt_MaxEntries = 10000\<rparr>]"

definition SetRetentionPolicy :: "string \<Rightarrow> int \<Rightarrow> int \<Rightarrow> auditRetention \<Rightarrow> auditRetention" where
  "SetRetentionPolicy action days maxEntries ar = ar(action \<mapsto> \<lparr>rt_Action = action, rt_RetentionDays = days, rt_MaxEntries = maxEntries\<rparr>)"

definition GetRetentionPolicy :: "string \<Rightarrow> auditRetention \<Rightarrow> retentionPolicy" where
  "GetRetentionPolicy action ar = (case ar action of Some p \<Rightarrow> p
     | None \<Rightarrow> (case ar ''default'' of Some p \<Rightarrow> p | None \<Rightarrow> \<lparr>rt_Action = '''', rt_RetentionDays = 0, rt_MaxEntries = 0\<rparr>))"

text \<open>The key without its first six characters is looked up; the keys listed all have them. \<open>cutoff days\<close> is
  the Unix time that many days ago.\<close>

definition retention_key :: "'r redis \<Rightarrow> (int \<Rightarrow> int) \<Rightarrow> auditRetention \<Rightarrow> string \<Rightarrow> 'r \<Rightarrow> 'r" where
  "retention_key R cutoff ar key st =
     (let policy = GetRetentionPolicy (drop 6 key) ar
      in snd (cZRemRangeByScore R key ''0'' (show_int (cutoff (rt_RetentionDays policy)))
           (snd (cLTrim R key (i64 (- rt_MaxEntries policy)) (- 1) st))))"

definition Cleanup :: "'r redis option \<Rightarrow> (int \<Rightarrow> int) \<Rightarrow> auditRetention \<Rightarrow> 'r \<Rightarrow> go_err option \<times> 'r" where
  "Cleanup h cutoff ar st = (case h of None \<Rightarrow> (None, st)
     | Some R \<Rightarrow> (case cKeys R ''audit:*'' st of
         (Inl e, st1) \<Rightarrow> (Some (RErr e), st1)
       | (Inr ks, st1) \<Rightarrow> (None, fold (retention_key R cutoff ar) ks st1)))"

definition setRetentionHandler :: "string + string \<times> int \<times> int \<Rightarrow> auditRetention \<Rightarrow> string resp \<times> auditRetention" where
  "setRetentionHandler body ar = (case body of Inl e \<Rightarrow> (bad_request e, ar)
     | Inr (action, days, maxEntries) \<Rightarrow> ((200, Inr ''success''), SetRetentionPolicy action days maxEntries ar))"

definition getRetentionHandler :: "auditRetention \<Rightarrow> auditRetention resp" where
  "getRetentionHandler ar = (200, Inr ar)"

definition runCleanupHandler :: "'r redis option \<Rightarrow> (int \<Rightarrow> int) \<Rightarrow> auditRetention \<Rightarrow> 'r \<Rightarrow> string resp \<times> 'r" where
  "runCleanupHandler h cutoff ar st = (case Cleanup h cutoff ar st of
     (Some e, st1) \<Rightarrow> ((500, Inl (err_text e)), st1) | (None, st1) \<Rightarrow> ((200, Inr ''cleanup complete''), st1))"

section \<open>Costs\<close>

record costConfig =
  cc_BaseCost :: f64
  cc_PerGBRecv :: f64
  cc_PerGBSent :: f64
  cc_PerRequest :: f64
  cc_PerMinute :: f64

record costEstimator =
  cx_baseCosts :: "string \<rightharpoonup> costConfig"
  cx_clientCosts :: "string \<rightharpoonup> f64"

definition NewCostEstimator :: costEstimator where
  "NewCostEstimator = \<lparr>cx_baseCosts = [''default'' \<mapsto> \<lparr>cc_BaseCost = f_lit 0, cc_PerGBRecv = f_lit 0.15,
      cc_PerGBSent = f_lit 0.30, cc_PerRequest = f_lit 0.001, cc_PerMinute = f_lit 0.01\<rparr>], cx_clientCosts = Map.empty\<rparr>"

definition default_costs :: "costEstimator \<Rightarrow> costConfig" where
  "default_costs ce = (case cx_baseCosts ce ''default'' of Some c \<Rightarrow> c
     | None \<Rightarrow> \<lparr>cc_BaseCost = f_int 0, cc_PerGBRecv = f_int 0, cc_PerGBSent = f_int 0, cc_PerRequest = f_int 0, cc_PerMinute = f_int 0\<rparr>)"

definition EstimateRequest :: "string \<Rightarrow> int \<Rightarrow> int \<Rightarrow> int \<Rightarrow> costEstimator \<Rightarrow> f64" where
  "EstimateRequest clientID bytesReceived bytesSent secs ce =
     (let d = default_costs ce;
          c1 = f_add (cc_BaseCost d) (cc_PerRequest d);
          c2 = (if bytesSent > 0 then f_add c1 (f_mul (f_div (f_int bytesSent) (f_int 1073741824)) (cc_PerGBSent d)) else c1);
          c3 = (if bytesReceived > 0 then f_add c2 (f_mul (f_div (f_int bytesReceived) (f_int 1073741824)) (cc_PerGBRecv d)) else c2);
          c4 = (if secs > 0 then f_add c3 (f_mul (f_div (f_int secs) (f_int 60)) (cc_PerMinute d)) else c3)
      in (case cx_clientCosts ce clientID of Some m \<Rightarrow> f_mul c4 m | None \<Rightarrow> c4))"

definition EstimateMonthly :: "string \<Rightarrow> int \<Rightarrow> int \<Rightarrow> int \<Rightarrow> int \<Rightarrow> costEstimator \<Rightarrow> f64" where
  "EstimateMonthly clientID dailyRequests sent received secs ce =
     ((\<lambda>m. f_add m (f_mul (EstimateRequest clientID received sent secs ce) (f_int dailyRequests))) ^^ 30) (f_int 0)"

definition SetClientCost ::
    "'r redis option \<Rightarrow> (f64 \<Rightarrow> string) \<Rightarrow> string \<Rightarrow> f64 \<Rightarrow> costEstimator \<times> 'r \<Rightarrow> costEstimator \<times> 'r" where
  "SetClientCost h show_f clientID m = (\<lambda>(ce, st).
     (ce\<lparr>cx_clientCosts := (cx_clientCosts ce)(clientID \<mapsto> m)\<rparr>,
      (case h of None \<Rightarrow> st | Some R \<Rightarrow> snd (cSet R (''cost:'' @ clientID) (show_f m) 0 st))))"

definition GetClientCost :: "string \<Rightarrow> costEstimator \<Rightarrow> f64" where
  "GetClientCost clientID ce = (case cx_clientCosts ce clientID of Some m \<Rightarrow> m | None \<Rightarrow> f_int 1)"

definition setCostHandler ::
    "'r redis option \<Rightarrow> (f64 \<Rightarrow> string) \<Rightarrow> string + string \<times> f64 \<Rightarrow> costEstimator \<times> 'r \<Rightarrow> string resp \<times> costEstimator \<times> 'r" where
  "setCostHandler h show_f body s = (case body of Inl e \<Rightarrow> (bad_request e, s)
     | Inr (clientID, m) \<Rightarrow> ((200, Inr ''success''), SetClientCost h show_f clientID m s))"

definition listCostsHandler :: "costEstimator \<Rightarrow> (string \<rightharpoonup> f64) resp" where
  "listCostsHandler ce = (200, Inr (cx_clientCosts ce))"

definition estimateHandler :: "string + string \<times> int \<times> int \<times> int \<times> int \<Rightarrow> costEstimator \<Rightarrow> (string \<times> f64) resp" where
  "estimateHandler body ce = (case body of Inl e \<Rightarrow> bad_request e
     | Inr (clientID, daily, sent, received, secs) \<Rightarrow> (200, Inr (clientID, EstimateMonthly clientID daily sent received secs ce)))"

section \<open>Lemmas\<close>

text \<open>A cleanup looks a key written by the log up under its date and its action together.\<close>

lemma retention_lookup: "drop 6 (audit_key date action) = date @ '':'' @ action"
  by (simp add: audit_key_def)

text \<open>A client's multiplier of one changes nothing about the structure of the estimate: it multiplies the sum.\<close>

lemma estimate_multiplier:
  assumes "cx_clientCosts ce c = Some m" and "cx_clientCosts ce c' = None"
  shows "EstimateRequest c r s secs ce = f_mul (EstimateRequest c' r s secs ce) m"
  using assms by (simp add: EstimateRequest_def Let_def)

section \<open>Properties\<close>

text \<open>A retention policy set for an action is never applied to the entries that the log writes for it:
  the cleanup looks each key up under its date and its action together, so unless a policy is named by that
  very text it trims the key by the default policy, whatever policies the actions have.\<close>

theorem retention_ignores_actions:
  assumes "ar ''default'' = Some d" and "ar (date @ '':'' @ action) = None"
  shows "retention_key R cutoff ar (audit_key date action) st =
    snd (cZRemRangeByScore R (audit_key date action) ''0'' (show_int (cutoff (rt_RetentionDays d)))
      (snd (cLTrim R (audit_key date action) (i64 (- rt_MaxEntries d)) (- 1) st)))"
  using assms unfolding retention_key_def retention_lookup GetRetentionPolicy_def Let_def by simp

theorem retention_ignores_actions_witness:
  "\<forall>(R :: 'r redis) cutoff st. retention_key R cutoff (SetRetentionPolicy ''POST_/x'' 1 5 NewAuditRetention) (audit_key ''2024-01-02'' ''POST_/x'') st =
    snd (cZRemRangeByScore R (audit_key ''2024-01-02'' ''POST_/x'') ''0'' (show_int (cutoff 90))
      (snd (cLTrim R (audit_key ''2024-01-02'' ''POST_/x'') (i64 (- 10000)) (- 1) st)))"
proof (intro allI)
  fix R :: "'r redis" and cutoff st
  show "retention_key R cutoff (SetRetentionPolicy ''POST_/x'' 1 5 NewAuditRetention) (audit_key ''2024-01-02'' ''POST_/x'') st =
    snd (cZRemRangeByScore R (audit_key ''2024-01-02'' ''POST_/x'') ''0'' (show_int (cutoff 90))
      (snd (cLTrim R (audit_key ''2024-01-02'' ''POST_/x'') (i64 (- 10000)) (- 1) st)))"
    using retention_ignores_actions [of "SetRetentionPolicy ''POST_/x'' 1 5 NewAuditRetention"
        "\<lparr>rt_Action = '''', rt_RetentionDays = 90, rt_MaxEntries = 10000\<rparr>" "''2024-01-02''" "''POST_/x''" R cutoff st]
    by (simp add: SetRetentionPolicy_def NewAuditRetention_def)
qed

end
