(* ===== verification/Analytics.thy ===== *)
theory Analytics
  imports Http Redis_Api Go_Sort
begin

text \<open>
  Statistics of API keys (\<open>gateway/key_analytics.go\<close>) and of traffic (\<open>gateway/analytics.go\<close>). The formats
  of dates and the reading of floats and JSON are parameters.
\<close>

section \<open>Keys\<close>

record keyStat =
  ks_Key :: string
  ks_Requests :: int
  ks_BytesSent :: int
  ks_BytesRecv :: int
  ks_Errors :: int
  ks_LastUsed :: time
  ks_FirstUsed :: time

type_synonym keyAnalytics = "string \<rightharpoonup> keyStat"

definition NewKeyAnalytics :: keyAnalytics where "NewKeyAnalytics = Map.empty"

definition ka_RecordRequest ::
    "'r redis option \<Rightarrow> time \<Rightarrow> time \<Rightarrow> string \<Rightarrow> int \<Rightarrow> int \<Rightarrow> bool \<Rightarrow> keyAnalytics \<times> 'r \<Rightarrow> keyAnalytics \<times> 'r" where
  "ka_RecordRequest h now1 now2 key sent recv isError = (\<lambda>(ka, st).
     let s = (case ka key of Some s \<Rightarrow> s
            | None \<Rightarrow> \<lparr>ks_Key = key, ks_Requests = 0, ks_BytesSent = 0, ks_BytesRecv = 0, ks_Errors = 0,
                ks_LastUsed = zero_time, ks_FirstUsed = now1\<rparr>);
         s' = s\<lparr>ks_Requests := i64 (ks_Requests s + 1), ks_BytesSent := i64 (ks_BytesSent s + sent),
              ks_BytesRecv := i64 (ks_BytesRecv s + recv), ks_LastUsed := now2,
              ks_Errors := (if isError then i64 (ks_Errors s + 1) else ks_Errors s)\<rparr>
     in (ka(key \<mapsto> s'),
         (case h of None \<Rightarrow> st
          | Some R \<Rightarrow> let k = ''key:stat:'' @ key;
                st3 = snd (cHIncrBy R k ''bytes_recv'' recv (snd (cHIncrBy R k ''bytes_sent'' sent (snd (cHIncrBy R k ''requests'' 1 st)))))
              in if isError then snd (cHIncrBy R k ''errors'' 1 st3) else st3)))"

definition ka_GetStats :: "string \<Rightarrow> keyAnalytics \<Rightarrow> keyStat option" where
  "ka_GetStats key ka = ka key"

text \<open>A negative limit panics.\<close>

definition GetTopKeys :: "string list \<Rightarrow> int \<Rightarrow> keyAnalytics \<Rightarrow> keyStat list option" where
  "GetTopKeys order limit ka =
     (let stats = exchange_sort (\<lambda>s t. ks_Requests t < ks_Requests s) (List.map_filter ka order);
          n = (if limit > int (length stats) then int (length stats) else limit)
      in if n < 0 then None else Some (take (nat n) stats))"

text \<open>The key, and the recording after the rest of the chain has written the status.\<close>

definition ka_Middleware :: "'r redis option \<Rightarrow> time \<Rightarrow> time \<Rightarrow> http_req \<Rightarrow> int \<Rightarrow> keyAnalytics \<times> 'r \<Rightarrow> keyAnalytics \<times> 'r" where
  "ka_Middleware h now1 now2 r status s =
     (let a = auth_header r in
      if a = '''' then s else ka_RecordRequest h now1 now2 (presented_key a) 0 0 (status \<ge> 500) s)"

definition listKeysHandler :: "string list \<Rightarrow> string \<Rightarrow> keyAnalytics \<Rightarrow> keyStat list resp option" where
  "listKeysHandler order l ka = map_option (\<lambda>ss. (200, Inr ss)) (GetTopKeys order (query_limit 10 l) ka)"

definition getKeyHandler :: "string \<Rightarrow> keyAnalytics \<Rightarrow> keyStat resp" where
  "getKeyHandler key ka = (case ka_GetStats key ka of None \<Rightarrow> (404, Inl ''key not found'') | Some s \<Rightarrow> (200, Inr s))"

section \<open>Traffic\<close>

record countryStats =
  cy_Country :: string
  cy_TotalRequests :: int
  cy_BytesSent :: int
  cy_BytesReceived :: int
  cy_AvgLatency :: f64
  cy_ActiveNodes :: int

record timeSeriesPoint =
  tp_Timestamp :: time
  tp_Value :: int

record analyticsSummary =
  sm_TotalRequests :: int
  sm_TotalBytesSent :: int
  sm_TotalBytesRecv :: int
  sm_ActiveNodes :: int
  sm_TopCountries :: "countryStats list"
  sm_RequestsOverTime :: "timeSeriesPoint list"

definition scanned :: "string option \<Rightarrow> int" where
  "scanned v = (case v of None \<Rightarrow> 0 | Some s \<Rightarrow> scan_into 0 s)"

definition getCountryStats :: "'r redis \<Rightarrow> (string \<Rightarrow> f64) \<Rightarrow> string \<Rightarrow> 'r \<Rightarrow> (go_err + countryStats) \<times> 'r" where
  "getCountryStats R scan_f country st = (case cHGetAll R (''analytics:country:'' @ country) st of
       (Inl e, st1) \<Rightarrow> (Inl (RErr e), st1)
     | (Inr data, st1) \<Rightarrow> (case cZCard R (''nodes:'' @ country) st1 of (active, st2) \<Rightarrow>
         (Inr \<lparr>cy_Country = country, cy_TotalRequests = scanned (map_of data ''requests''),
            cy_BytesSent = scanned (map_of data ''bytes_sent''), cy_BytesReceived = scanned (map_of data ''bytes_recv''),
            cy_AvgLatency = (case map_of data ''avg_latency'' of None \<Rightarrow> f_int 0 | Some v \<Rightarrow> scan_f v),
            cy_ActiveNodes = reply_or 0 active\<rparr>, st2)))"

definition ts_point :: "'r redis \<Rightarrow> time \<Rightarrow> time \<Rightarrow> string \<Rightarrow> 'r \<Rightarrow> timeSeriesPoint option \<times> 'r" where
  "ts_point R start fin key st = (case cHGetAll R key st of (res, st1) \<Rightarrow>
     (let data = reply_or [] res in
      (case map_of data ''timestamp'' of None \<Rightarrow> None
       | Some v \<Rightarrow> let t = scan_into 0 v * go_second
           in if start < t \<and> t < fin then Some \<lparr>tp_Timestamp = t, tp_Value = scanned (map_of data ''value'')\<rparr> else None), st1))"

definition getTimeSeries :: "'r redis \<Rightarrow> string \<Rightarrow> time \<Rightarrow> time \<Rightarrow> 'r \<Rightarrow> timeSeriesPoint list \<times> 'r" where
  "getTimeSeries R prefx start fin st = (case cScan R (prefx @ ''*'') st of (ks, st1) \<Rightarrow>
     each (ts_point R start fin) (reply_or [] ks) st1)"

text \<open>The statistics of a country that cannot be read are nil, and reading a field of them panics: \<open>None\<close>.\<close>

fun country_loop :: "'r redis \<Rightarrow> (string \<Rightarrow> f64) \<Rightarrow> string list \<Rightarrow> 'r \<Rightarrow> (countryStats list \<times> 'r) option" where
  "country_loop R scan_f [] st = Some ([], st)"
| "country_loop R scan_f (key # ks) st =
     (case getCountryStats R scan_f (drop (length ''analytics:country:'') key) st of
        (Inl e, st1) \<Rightarrow> None
      | (Inr s, st1) \<Rightarrow> map_option (\<lambda>(ss, st2). (if cy_TotalRequests s > 0 then s # ss else ss, st2)) (country_loop R scan_f ks st1))"

definition read_total :: "'r redis \<Rightarrow> string \<Rightarrow> 'r \<Rightarrow> int \<times> 'r" where
  "read_total R key st = (case cGet R key st of (res, st1) \<Rightarrow> (case res of Inl _ \<Rightarrow> 0 | Inr s \<Rightarrow> fst (parse_int s), st1))"

definition GetSummary :: "'r redis \<Rightarrow> (string \<Rightarrow> f64) \<Rightarrow> time \<Rightarrow> time \<Rightarrow> 'r \<Rightarrow> (analyticsSummary \<times> 'r) option" where
  "GetSummary R scan_f start fin st =
     (case read_total R ''analytics:total_requests'' st of (reqs, st1) \<Rightarrow>
      (case read_total R ''analytics:total_bytes_sent'' st1 of (sent, st2) \<Rightarrow>
       (case read_total R ''analytics:total_bytes_recv'' st2 of (recv, st3) \<Rightarrow>
        (case cKeys R ''node_meta:*'' st3 of (nodes, st4) \<Rightarrow>
         (case cKeys R ''analytics:country:*'' st4 of (countries, st5) \<Rightarrow>
          (case country_loop R scan_f (reply_or [] countries) st5 of
             None \<Rightarrow> None
           | Some (cs, st6) \<Rightarrow> (case getTimeSeries R ''analytics:requests:'' start fin st6 of (points, st7) \<Rightarrow>
               Some (\<lparr>sm_TotalRequests = reqs, sm_TotalBytesSent = sent, sm_TotalBytesRecv = recv,
                  sm_ActiveNodes = int (length (reply_or [] nodes)), sm_TopCountries = cs, sm_RequestsOverTime = points\<rparr>, st7))))))))"

definition ta_RecordRequest :: "'r redis \<Rightarrow> string \<Rightarrow> int \<Rightarrow> string \<Rightarrow> int \<Rightarrow> int \<Rightarrow> 'r \<Rightarrow> 'r" where
  "ta_RecordRequest R today unix country sent recv st =
     (let c = ''analytics:country:'' @ country; t = ''analytics:requests:'' @ today;
          st1 = snd (cIncr R ''analytics:total_requests'' st);
          st2 = snd (cIncrBy R ''analytics:total_bytes_sent'' sent st1);
          st3 = snd (cIncrBy R ''analytics:total_bytes_recv'' recv st2);
          st4 = snd (cHIncrBy R c ''requests'' 1 st3);
          st5 = snd (cHIncrBy R c ''bytes_sent'' sent st4);
          st6 = snd (cHIncrBy R c ''bytes_recv'' recv st5);
          st7 = snd (cHSet R t [(''timestamp'', show_int unix)] st6)
      in snd (cHIncrBy R t ''value'' 1 st7))"

text \<open>\<open>parse_time\<close> reads RFC 3339.\<close>

definition serveSummary ::
    "'r redis \<Rightarrow> (string \<Rightarrow> f64) \<Rightarrow> (string \<Rightarrow> time option) \<Rightarrow> time \<Rightarrow> time \<Rightarrow> http_req \<Rightarrow> 'r \<Rightarrow> (analyticsSummary resp \<times> 'r) option" where
  "serveSummary R scan_f parse_time now1 now2 r st =
     (let given = (\<lambda>q d. if rq_query r q \<noteq> '''' then (case parse_time (rq_query r q) of Some t \<Rightarrow> t | None \<Rightarrow> d) else d)
      in map_option (\<lambda>(s, st'). ((200, Inr s), st'))
           (GetSummary R scan_f (given ''start'' (now1 - 24 * go_hour)) (given ''end'' now2) st))"

definition serveCountryStats :: "'r redis \<Rightarrow> (string \<Rightarrow> f64) \<Rightarrow> string \<Rightarrow> 'r \<Rightarrow> countryStats resp \<times> 'r" where
  "serveCountryStats R scan_f country st =
     (if country = '''' then (bad_request ''country required'', st)
      else (case getCountryStats R scan_f country st of
          (Inl e, st1) \<Rightarrow> ((404, Inl ''no data for country''), st1) | (Inr s, st1) \<Rightarrow> ((200, Inr s), st1)))"

text \<open>\<open>unmarshal\<close> reads a JSON object of integers; what it cannot read it leaves empty.\<close>

definition serveNodeStats :: "'r redis \<Rightarrow> (string \<Rightarrow> (string \<times> int) list) \<Rightarrow> string \<Rightarrow> 'r \<Rightarrow> (string \<times> int \<times> int) resp \<times> 'r" where
  "serveNodeStats R unmarshal nodeID st =
     (if nodeID = '''' then (bad_request ''node_id required'', st)
      else (case cGet R (''bandwidth:'' @ nodeID) st of
          (Inl e, st1) \<Rightarrow> ((404, Inl ''no data for node''), st1)
        | (Inr b, st1) \<Rightarrow> let get = (\<lambda>k. case map_of (unmarshal b) k of None \<Rightarrow> 0 | Some n \<Rightarrow> n)
            in ((200, Inr (nodeID, get ''bytes_sent'', get ''bytes_received'')), st1)))"

section \<open>Lemmas\<close>

text \<open>The statistics of a key are counted from its own requests only.\<close>

fun ka_run :: "'r redis option \<Rightarrow> (time \<times> string \<times> bool) list \<Rightarrow> keyAnalytics \<times> 'r \<Rightarrow> keyAnalytics \<times> 'r" where
  "ka_run h [] s = s"
| "ka_run h ((t, k, e) # es) s = ka_run h es (ka_RecordRequest h t t k 0 0 e s)"

lemma ka_run_counts:
  assumes "case ka k of None \<Rightarrow> a = 0 \<and> b = 0 | Some s \<Rightarrow> ks_Requests s = int a \<and> ks_Errors s = int b" and "b \<le> a" and "a + length es < 2 ^ 62"
  shows "let n = a + length (filter (\<lambda>x. fst (snd x) = k) es); m = b + length (filter (\<lambda>x. fst (snd x) = k \<and> snd (snd x)) es)
    in m \<le> n \<and> (case fst (ka_run h es (ka, st)) k of None \<Rightarrow> n = 0 | Some s \<Rightarrow> ks_Requests s = int n \<and> ks_Errors s = int m)"
  using assms
proof (induction es arbitrary: ka st a b)
  case Nil
  then show ?case by (auto split: option.splits)
next
  case (Cons x es)
  obtain t k' e where x: "x = (t, k', e)" by (metis prod.collapse)
  obtain ka1 st1 where r: "ka_RecordRequest h t t k' 0 0 e (ka, st) = (ka1, st1)" by fastforce
  have small: "int a + 1 < 2 ^ 63" "int b + 1 < 2 ^ 63" using Cons.prems(2,3) by simp_all
  then have i: "i64 (int a + 1) = int a + 1" "i64 (int b + 1) = int b + 1" by (simp_all add: i64_id_bounds)
  show ?case
  proof (cases "k' = k")
    case True
    have "case ka1 k of None \<Rightarrow> Suc a = 0 \<and> (if e then Suc b else b) = 0
       | Some s \<Rightarrow> ks_Requests s = int (Suc a) \<and> ks_Errors s = int (if e then Suc b else b)"
      using r Cons.prems(1) i True by (auto simp: ka_RecordRequest_def Let_def split: option.splits)
    from Cons.IH [where ka = ka1 and a = "Suc a" and b = "if e then Suc b else b" and st = st1, OF this] Cons.prems(2,3)
    have "let n = Suc a + length (filter (\<lambda>x. fst (snd x) = k) es); m = (if e then Suc b else b) + length (filter (\<lambda>x. fst (snd x) = k \<and> snd (snd x)) es)
      in m \<le> n \<and> (case fst (ka_run h es (ka1, st1)) k of None \<Rightarrow> n = 0 | Some s \<Rightarrow> ks_Requests s = int n \<and> ks_Errors s = int m)" by simp
    moreover have "ka_run h (x # es) (ka, st) = ka_run h es (ka1, st1)" by (simp add: x r)
    ultimately show ?thesis by (cases e) (simp_all add: x True Let_def)
  next
    case False
    have "ka1 k = ka k" using r False by (auto simp: ka_RecordRequest_def Let_def)
    with Cons.IH [where ka = ka1 and a = a and b = b and st = st1] Cons.prems show ?thesis by (simp add: x r False)
  qed
qed

end
