(* ===== verification/Migrations.thy ===== *)
theory Migrations
  imports Redis_Api
begin

text \<open>
  The migrations of the Redis data (\<open>internal/migrations\<close>): the four migrations, and the runner that
  applies and rolls back. A migration without a way down is \<open>None\<close>. Printing is left out.
\<close>

record 'r migration =
  mg_ID :: string
  mg_Up :: "'r redis \<Rightarrow> 'r \<Rightarrow> go_err option \<times> 'r"
  mg_Down :: "('r redis \<Rightarrow> 'r \<Rightarrow> go_err option \<times> 'r) option"
  mg_Comment :: string

section \<open>The migrations\<close>

definition err_of_cmd :: "(redis_err + 'a) \<times> 'r \<Rightarrow> go_err option \<times> 'r" where
  "err_of_cmd = (\<lambda>(res, st). (cmd_err res, st))"

definition migrate001Up :: "int \<Rightarrow> 'r redis \<Rightarrow> 'r \<Rightarrow> go_err option \<times> 'r" where
  "migrate001Up unix R st = err_of_cmd (cExec R [PSet ''schema:version'' ''004'' 0, PSet ''schema:initialized_at'' (show_int unix) 0,
     PSAdd ''indexes:countries'' [''US'', ''EU'', ''APAC'']] st)"

definition migrate001Down :: "'r redis \<Rightarrow> 'r \<Rightarrow> go_err option \<times> 'r" where
  "migrate001Down R st = err_of_cmd (cExec R [PDel ''schema:version'', PDel ''schema:initialized_at'', PDel ''indexes:countries''] st)"

definition migrate002Up :: "'r redis \<Rightarrow> 'r \<Rightarrow> go_err option \<times> 'r" where
  "migrate002Up R st = err_of_cmd (cSet R ''feature:referrals:enabled'' ''true'' 0 st)"

definition migrate002Down :: "'r redis \<Rightarrow> 'r \<Rightarrow> go_err option \<times> 'r" where
  "migrate002Down R st = (case cKeys R ''referrals:*'' st of (ks, st1) \<Rightarrow>
     err_of_cmd (cExec R (PDel ''feature:referrals:enabled'' # map PDel (reply_or [] ks)) st1))"

definition migrate003Up :: "'r redis \<Rightarrow> 'r \<Rightarrow> go_err option \<times> 'r" where
  "migrate003Up R st = err_of_cmd (cSet R ''feature:request_logging:enabled'' ''false'' 0 st)"

definition migrate003Down :: "'r redis \<Rightarrow> 'r \<Rightarrow> go_err option \<times> 'r" where
  "migrate003Down R st = (case cKeys R ''reqlog:*'' st of (ks, st1) \<Rightarrow>
     err_of_cmd (cExec R (map PDel (reply_or [] ks) @ [PDel ''feature:request_logging:enabled'']) st1))"

definition migrate004Up :: "'r redis \<Rightarrow> 'r \<Rightarrow> go_err option \<times> 'r" where
  "migrate004Up R st = err_of_cmd (cSet R ''feature:auto_scaling:enabled'' ''true'' 0 st)"

definition migrate004Down :: "'r redis \<Rightarrow> 'r \<Rightarrow> go_err option \<times> 'r" where
  "migrate004Down R st = err_of_cmd (cDel R [''feature:auto_scaling:enabled''] st)"

definition GetMigrations :: "int \<Rightarrow> 'r migration list" where
  "GetMigrations unix =
     [\<lparr>mg_ID = ''001_initial_schema'', mg_Up = migrate001Up unix, mg_Down = Some migrate001Down, mg_Comment = ''Initialize Redis keys and indexes''\<rparr>,
      \<lparr>mg_ID = ''002_add_referral_tracking'', mg_Up = migrate002Up, mg_Down = Some migrate002Down, mg_Comment = ''Add referral tracking support''\<rparr>,
      \<lparr>mg_ID = ''003_add_request_logging'', mg_Up = migrate003Up, mg_Down = Some migrate003Down, mg_Comment = ''Initialize request logging keys''\<rparr>,
      \<lparr>mg_ID = ''004_add_scaling_policies'', mg_Up = migrate004Up, mg_Down = Some migrate004Down, mg_Comment = ''Add default scaling policies''\<rparr>]"

section \<open>The runner\<close>

text \<open>\<open>sort.Slice\<close> on migrations with different identifiers is any sort by identifier; insertion here.\<close>

fun insert_migration :: "'r migration \<Rightarrow> 'r migration list \<Rightarrow> 'r migration list" where
  "insert_migration m [] = [m]"
| "insert_migration m (n # ns) = (if str_less (mg_ID n) (mg_ID m) then n # insert_migration m ns else m # n # ns)"

definition NewMigrationRunner :: "'r migration list \<Rightarrow> 'r migration list" where
  "NewMigrationRunner ms = foldr insert_migration ms []"

definition migKey :: string where "migKey = ''migrations:applied''"

text \<open>The loop of \<open>Run\<close>: what is applied is skipped, the first failure ends it.\<close>

fun run_loop :: "'r redis \<Rightarrow> string set \<Rightarrow> 'r migration list \<Rightarrow> 'r \<Rightarrow> go_err option \<times> 'r" where
  "run_loop R applied [] st = (None, st)"
| "run_loop R applied (m # ms) st =
     (if mg_ID m \<in> applied then run_loop R applied ms st
      else (case mg_Up m R st of
          (Some e, st1) \<Rightarrow> (Some (Wrap (''migration '' @ mg_ID m @ '' failed'') e), st1)
        | (None, st1) \<Rightarrow> (case cSAdd R migKey (mg_ID m) st1 of
              (Inl e, st2) \<Rightarrow> (Some (Wrap (''failed to record migration '' @ mg_ID m) (RErr e)), st2)
            | (Inr _, st2) \<Rightarrow> run_loop R applied ms st2)))"

definition mr_Run :: "'r redis \<Rightarrow> 'r migration list \<Rightarrow> 'r \<Rightarrow> go_err option \<times> 'r" where
  "mr_Run R ms st = (case cSMembers R migKey st of
       (Inl e, st1) \<Rightarrow> (Some (Wrap ''failed to get applied migrations'' (RErr e)), st1)
     | (Inr applied, st1) \<Rightarrow> run_loop R (set applied) ms st1)"

definition mr_Status :: "'r redis \<Rightarrow> 'r migration list \<Rightarrow> 'r \<Rightarrow> (go_err + string list \<times> string list) \<times> 'r" where
  "mr_Status R ms st = (case cSMembers R migKey st of
       (Inl e, st1) \<Rightarrow> (Inl (RErr e), st1)
     | (Inr applied, st1) \<Rightarrow> (Inr (applied, map mg_ID (filter (\<lambda>m. mg_ID m \<notin> set applied) ms)), st1))"

fun rollback_loop :: "'r redis \<Rightarrow> 'r migration list \<Rightarrow> 'r \<Rightarrow> go_err option \<times> 'r" where
  "rollback_loop R [] st = (None, st)"
| "rollback_loop R (m # ms) st =
     (case (case mg_Down m of None \<Rightarrow> (None, st) | Some down \<Rightarrow> down R st) of
        (Some e, st1) \<Rightarrow> (Some (Wrap (''rollback '' @ mg_ID m @ '' failed'') e), st1)
      | (None, st1) \<Rightarrow> (case cSRem R migKey (mg_ID m) st1 of
            (Inl e, st2) \<Rightarrow> (Some (Wrap (''failed to remove migration '' @ mg_ID m) (RErr e)), st2)
          | (Inr _, st2) \<Rightarrow> rollback_loop R ms st2))"

definition mr_Rollback :: "'r redis \<Rightarrow> 'r migration list \<Rightarrow> string \<Rightarrow> 'r \<Rightarrow> go_err option \<times> 'r" where
  "mr_Rollback R ms targetID st = (case mr_Status R ms st of
       (Inl e, st1) \<Rightarrow> (Some e, st1)
     | (Inr (applied, _), st1) \<Rightarrow>
         rollback_loop R (rev (filter (\<lambda>m. mg_ID m \<in> set applied \<and> str_less targetID (mg_ID m)) ms)) st1)"

definition RecordMigrationTimestamp :: "'r redis \<Rightarrow> int \<Rightarrow> string \<Rightarrow> 'r \<Rightarrow> go_err option \<times> 'r" where
  "RecordMigrationTimestamp R unix migrationID st = err_of_cmd (cSet R (''migration:timestamp:'' @ migrationID) (show_int unix) 0 st)"

definition GetMigrationTimestamp :: "'r redis \<Rightarrow> string \<Rightarrow> 'r \<Rightarrow> (int \<times> go_err option) \<times> 'r" where
  "GetMigrationTimestamp R migrationID st = (case cGet R (''migration:timestamp:'' @ migrationID) st of
       (Inl RedisNil, st1) \<Rightarrow> ((0, None), st1)
     | (Inl e, st1) \<Rightarrow> ((0, Some (RErr e)), st1)
     | (Inr s, st1) \<Rightarrow> (case parse_int s of (v, ok) \<Rightarrow> ((v, if ok then None else Some (Err ''strconv.ParseInt'')), st1)))"

section \<open>What is applied\<close>

text \<open>
  A server with sets: \<open>A s\<close> is the set of applied migrations. Documented behaviour of SMEMBERS, SADD and
  SREM when they do not fail, and a migration that touches no other migration's record.
\<close>

definition set_server :: "'r redis \<Rightarrow> ('r \<Rightarrow> string set) \<Rightarrow> bool" where
  "set_server R A \<longleftrightarrow>
     (\<forall>s xs s'. cSMembers R migKey s = (Inr xs, s') \<longrightarrow> set xs = A s \<and> A s' = A s) \<and>
     (\<forall>s x n s'. cSAdd R migKey x s = (Inr n, s') \<longrightarrow> A s' = insert x (A s)) \<and>
     (\<forall>s x n s'. cSRem R migKey x s = (Inr n, s') \<longrightarrow> A s' = A s - {x})"

definition keeps_record :: "'r redis \<Rightarrow> ('r \<Rightarrow> string set) \<Rightarrow> 'r migration \<Rightarrow> bool" where
  "keeps_record R A m \<longleftrightarrow> (\<forall>s. A (snd (mg_Up m R s)) = A s) \<and>
     (\<forall>d s. mg_Down m = Some d \<longrightarrow> A (snd (d R s)) = A s)"

lemma run_loop_applies:
  assumes "set_server R A"
  shows "\<forall>m \<in> set ms. keeps_record R A m \<Longrightarrow> run_loop R a ms st = (None, st') \<Longrightarrow> A st' = A st \<union> (mg_ID ` set ms - a)"
proof (induction ms arbitrary: st)
  case (Cons m ms)
  show ?case
  proof (cases "mg_ID m \<in> a")
    case True
    then show ?thesis using Cons.IH Cons.prems by auto
  next
    case False
    obtain st1 where u: "mg_Up m R st = (None, st1)" using Cons.prems(2) False by (auto split: prod.splits option.splits)
    obtain n st2 where s: "cSAdd R migKey (mg_ID m) st1 = (Inr n, st2)"
      using Cons.prems(2) False u by (auto split: prod.splits sum.splits)
    have "A st1 = A st" using Cons.prems(1) u unfolding keeps_record_def by (metis list.set_intros(1) snd_conv)
    moreover have "A st2 = insert (mg_ID m) (A st1)" using assms s unfolding set_server_def by blast
    moreover have "A st' = A st2 \<union> (mg_ID ` set ms - a)"
      using Cons.IH [of st2] Cons.prems False u s by auto
    ultimately show ?thesis using False by auto
  qed
qed simp

text \<open>Whatever ends the loop, nothing is unrecorded, and nothing recorded but migrations that were to be applied.\<close>

lemma run_loop_grows:
  assumes "set_server R A"
  shows "\<forall>m \<in> set ms. keeps_record R A m \<Longrightarrow> \<forall>s e s'. \<forall>x. cSAdd R migKey x s = (Inl e, s') \<longrightarrow> A s' = A s \<Longrightarrow>
    A st \<subseteq> A (snd (run_loop R a ms st)) \<and> A (snd (run_loop R a ms st)) \<subseteq> A st \<union> (mg_ID ` set ms - a)"
proof (induction ms arbitrary: st)
  case (Cons m ms)
  show ?case
  proof (cases "mg_ID m \<in> a")
    case True
    then show ?thesis using Cons.IH Cons.prems by auto
  next
    case False
    obtain e1 st1 where u: "mg_Up m R st = (e1, st1)" by fastforce
    have a1: "A st1 = A st" using Cons.prems(1) u unfolding keeps_record_def by (metis list.set_intros(1) snd_conv)
    show ?thesis
    proof (cases e1)
      case None
      obtain r st2 where s: "cSAdd R migKey (mg_ID m) st1 = (r, st2)" by fastforce
      show ?thesis
      proof (cases r)
        case (Inl e)
        then have "A st2 = A st1" using Cons.prems(2) s by blast
        then show ?thesis using False u None s Inl a1 by simp
      next
        case (Inr n)
        have "A st2 = insert (mg_ID m) (A st)" using assms s Inr a1 unfolding set_server_def by metis
        moreover have "A st2 \<subseteq> A (snd (run_loop R a ms st2)) \<and> A (snd (run_loop R a ms st2)) \<subseteq> A st2 \<union> (mg_ID ` set ms - a)"
          using Cons.IH [of st2] Cons.prems by simp
        ultimately show ?thesis using False u None s Inr by auto
      qed
    next
      case (Some e)
      then show ?thesis using False u a1 by simp
    qed
  qed
qed simp

lemma rollback_loop_removes:
  assumes "set_server R A"
  shows "\<forall>m \<in> set ms. keeps_record R A m \<Longrightarrow> rollback_loop R ms st = (None, st') \<Longrightarrow> A st' = A st - mg_ID ` set ms"
proof (induction ms arbitrary: st)
  case (Cons m ms)
  let ?d = "case mg_Down m of None \<Rightarrow> (None, st) | Some down \<Rightarrow> down R st"
  obtain st1 where u: "?d = (None, st1)" using Cons.prems(2) by (auto split: prod.splits option.splits)
  obtain n st2 where s: "cSRem R migKey (mg_ID m) st1 = (Inr n, st2)"
    using Cons.prems(2) u by (auto split: prod.splits sum.splits)
  have "A st1 = A st"
    using Cons.prems(1) u unfolding keeps_record_def by (cases "mg_Down m") (simp, metis list.set_intros(1) option.simps(5) snd_conv)
  moreover have "A st2 = A st1 - {mg_ID m}" using assms s unfolding set_server_def by blast
  moreover have "A st' = A st2 - mg_ID ` set ms"
    using Cons.IH [of st2] Cons.prems u s by auto
  ultimately show ?case by auto
qed simp

end
