(* ===== verification/Payout.thy ===== *)
theory Payout
  imports Node_Store Redis_Mem
begin

text \<open>
  Payouts to the owners of nodes (\<open>payout/service.go\<close>), in the machine's floating point: tiers, rates and the
  amounts recorded in Redis. The month as text and the JSON of a payout are parameters.
\<close>

record pricingTier =
  tr_Name :: string
  tr_MinGBMonthly :: int
  tr_MaxGBMonthly :: int
  tr_RatePerGBSent :: f64
  tr_RatePerGBRecv :: f64

record payoutRates =
  pr_RatePerGBSent :: f64
  pr_RatePerGBReceived :: f64
  pr_MinPayoutAmount :: f64

record payoutService =
  py_rates :: payoutRates
  py_tiers :: "pricingTier list"

record payout =
  po_NodeID :: string
  po_Period :: string
  po_BytesSent :: int
  po_BytesReceived :: int
  po_GBSent :: f64
  po_GBReceived :: f64
  po_Amount :: f64
  po_Tier :: string
  po_CalculatedAt :: time

record pay_env =
  pe_month :: "time \<Rightarrow> string"
  pe_marshal :: "payout \<Rightarrow> go_err + string"

definition NewPayoutService :: payoutService where
  "NewPayoutService = \<lparr>py_rates = \<lparr>pr_RatePerGBSent = f_lit 0.50, pr_RatePerGBReceived = f_lit 0.30, pr_MinPayoutAmount = f_lit 10\<rparr>,
     py_tiers =
       [\<lparr>tr_Name = ''Basic'', tr_MinGBMonthly = 0, tr_MaxGBMonthly = 10, tr_RatePerGBSent = f_lit 0.30, tr_RatePerGBRecv = f_lit 0.15\<rparr>,
        \<lparr>tr_Name = ''Premium'', tr_MinGBMonthly = 10, tr_MaxGBMonthly = 100, tr_RatePerGBSent = f_lit 0.50, tr_RatePerGBRecv = f_lit 0.30\<rparr>,
        \<lparr>tr_Name = ''Enterprise'', tr_MinGBMonthly = 100, tr_MaxGBMonthly = 10000, tr_RatePerGBSent = f_lit 0.80, tr_RatePerGBRecv = f_lit 0.50\<rparr>]\<rparr>"

definition SetTiers :: "pricingTier list \<Rightarrow> payoutService \<Rightarrow> payoutService" where
  "SetTiers ts p = p\<lparr>py_tiers := ts\<rparr>"

definition GetTiers :: "payoutService \<Rightarrow> pricingTier list" where "GetTiers p = py_tiers p"

definition SetRates :: "payoutRates \<Rightarrow> payoutService \<Rightarrow> payoutService" where
  "SetRates r p = p\<lparr>py_rates := r\<rparr>"

definition GetRates :: "payoutService \<Rightarrow> payoutRates" where "GetRates p = py_rates p"

definition in_tier :: "f64 \<Rightarrow> pricingTier \<Rightarrow> bool" where
  "in_tier totalGB t \<longleftrightarrow> f_le (f_int (tr_MinGBMonthly t)) totalGB \<and> f_lt totalGB (f_int (tr_MaxGBMonthly t))"

definition findTier :: "f64 \<Rightarrow> payoutService \<Rightarrow> string" where
  "findTier totalGB p = (case find (in_tier totalGB) (py_tiers p) of Some t \<Rightarrow> tr_Name t | None \<Rightarrow> ''Basic'')"

definition getTierRates :: "string \<Rightarrow> payoutService \<Rightarrow> f64 \<times> f64" where
  "getTierRates tierName p = (case find (\<lambda>t. tr_Name t = tierName) (py_tiers p) of
       Some t \<Rightarrow> (tr_RatePerGBSent t, tr_RatePerGBRecv t)
     | None \<Rightarrow> (pr_RatePerGBSent (py_rates p), pr_RatePerGBReceived (py_rates p)))"

definition payout_of :: "pay_env \<Rightarrow> payoutService \<Rightarrow> time \<Rightarrow> string \<Rightarrow> time \<Rightarrow> bandwidthData \<Rightarrow> payout" where
  "payout_of E p now nodeID period b =
     (let gbSent = gigabytes (bd_BytesSent b);
          gbReceived = gigabytes (bd_BytesReceived b);
          tier = findTier (f_add gbSent gbReceived) p
      in case getTierRates tier p of (rateSent, rateRecv) \<Rightarrow>
        let amount = f_add (f_mul gbSent rateSent) (f_mul gbReceived rateRecv)
        in \<lparr>po_NodeID = nodeID, po_Period = pe_month E period, po_BytesSent = bd_BytesSent b, po_BytesReceived = bd_BytesReceived b,
            po_GBSent = gbSent, po_GBReceived = gbReceived,
            po_Amount = (if f_lt amount (pr_MinPayoutAmount (py_rates p)) then f_int 0 else amount), po_Tier = tier, po_CalculatedAt = now\<rparr>)"

definition calculatePayoutInternal :: "'r redis \<Rightarrow> pay_env \<Rightarrow> payoutService \<Rightarrow> time \<Rightarrow> string \<Rightarrow> time \<Rightarrow> 'r \<Rightarrow> (go_err + payout) \<times> 'r" where
  "calculatePayoutInternal R E p now nodeID period st = (case GetBandwidth R nodeID st of
       (Inl e, st1) \<Rightarrow> (Inl (Wrap ''failed to get bandwidth'' e), st1)
     | (Inr b, st1) \<Rightarrow> (Inr (payout_of E p now nodeID period b), st1))"

definition CalculatePayout :: "'r redis \<Rightarrow> pay_env \<Rightarrow> payoutService \<Rightarrow> time \<Rightarrow> string \<Rightarrow> time \<Rightarrow> 'r \<Rightarrow> (go_err + payout) \<times> 'r" where
  "CalculatePayout R E p now nodeID period st = (case calculatePayoutInternal R E p now nodeID period st of
       (Inl e, st1) \<Rightarrow> (Inl e, st1)
     | (Inr r, st1) \<Rightarrow> (Inr r, if f_lt (f_int 0) (po_Amount r) then snd (RecordPayout R nodeID (pe_marshal E r) st1) else st1))"

definition CalculateAllPayouts :: "'r redis \<Rightarrow> pay_env \<Rightarrow> payoutService \<Rightarrow> time \<Rightarrow> time \<Rightarrow> 'r \<Rightarrow> (go_err + payout list) \<times> 'r" where
  "CalculateAllPayouts R E p now period st = (case GetAllNodes R st of
       (Inl e, st1) \<Rightarrow> (Inl (Wrap ''failed to get nodes'' e), st1)
     | (Inr nodes, st1) \<Rightarrow>
         (case each (\<lambda>nodeID s. case CalculatePayout R E p now nodeID period s of
                (Inl _, s') \<Rightarrow> (None, s')
              | (Inr r, s') \<Rightarrow> (if f_lt (f_int 0) (po_Amount r) then Some r else None, s')) nodes st1 of
            (payouts, st2) \<Rightarrow> (Inr payouts, st2)))"

definition py_GetPayoutHistory :: "'r redis \<Rightarrow> (string \<Rightarrow> 'a option) \<Rightarrow> string \<Rightarrow> int \<Rightarrow> 'r \<Rightarrow> (go_err + 'a list) \<times> 'r" where
  "py_GetPayoutHistory R dec nodeID limit = GetPayoutHistory R dec nodeID limit"

definition GetBandwidthBreakdown :: "'r redis \<Rightarrow> string \<Rightarrow> 'r \<Rightarrow> (go_err + (string \<times> bandwidthData) list) \<times> 'r" where
  "GetBandwidthBreakdown R nodeID = GetBandwidthHistory R nodeID"

section \<open>Tiers and amounts\<close>

text \<open>The default tiers: whoever moves ten terabytes or more is back in the lowest.\<close>

lemma default_tier:
  assumes "0 \<le> g"
  shows "findTier (Fin g) NewPayoutService =
    (if g < 10 then ''Basic'' else if g < 100 then ''Premium'' else if g < 10000 then ''Enterprise'' else ''Basic'')"
  using assms by (simp add: findTier_def NewPayoutService_def in_tier_def)

lemma payout_of_amount:
  "po_Amount (payout_of E p now n period b) = po_Amount (payout_of E' p now' n' period' b)"
  by (simp add: payout_of_def Let_def split_beta)

text \<open>An amount is nothing or not below the minimum; what \<open>CalculateAllPayouts\<close> lists is positive.\<close>

lemma amount_zero_or_min:
  "po_Amount (payout_of E p now n period b) = f_int 0 \<or> \<not> f_lt (po_Amount (payout_of E p now n period b)) (pr_MinPayoutAmount (py_rates p))"
  by (simp add: payout_of_def Let_def split_beta)

lemma all_payouts_positive:
  assumes "CalculateAllPayouts R E p now period st = (Inr ps, st')" and "r \<in> set ps"
  shows "f_lt (f_int 0) (po_Amount r)"
proof -
  obtain nodes st1 where "GetAllNodes R st = (Inr nodes, st1)"
    and e: "each (\<lambda>nodeID s. case CalculatePayout R E p now nodeID period s of
                (Inl _, s') \<Rightarrow> (None, s')
              | (Inr r, s') \<Rightarrow> (if f_lt (f_int 0) (po_Amount r) then Some r else None, s')) nodes st1 = (ps, st')"
    using assms(1) by (auto simp: CalculateAllPayouts_def split: prod.splits sum.splits)
  from each_in [OF e assms(2)] obtain k s where
    f: "fst (case CalculatePayout R E p now k period s of (Inl _, s') \<Rightarrow> (None, s')
        | (Inr r, s') \<Rightarrow> (if f_lt (f_int 0) (po_Amount r) then Some r else None, s')) = Some r" by blast
  obtain x s' where "CalculatePayout R E p now k period s = (x, s')" by fastforce
  with f show ?thesis by (cases x) (simp_all split: if_splits)
qed

section \<open>Periods\<close>

text \<open>The amounts paid to a node for one period after the other.\<close>

fun pay_periods :: "'r redis \<Rightarrow> pay_env \<Rightarrow> payoutService \<Rightarrow> string \<Rightarrow> (time \<times> time) list \<Rightarrow> 'r \<Rightarrow> (go_err + f64) list" where
  "pay_periods R E p n [] st = []"
| "pay_periods R E p n ((now, period) # ts) st = (case CalculatePayout R E p now n period st of
       (r, st1) \<Rightarrow> map_sum id po_Amount r # pay_periods R E p n ts st1)"

text \<open>Documented behaviour of the server: HGETALL changes nothing, and appending to a list touches no hash.\<close>

definition lists_apart :: "'r redis \<Rightarrow> bool" where
  "lists_apart R \<longleftrightarrow> (\<forall>k s. snd (cHGetAll R k s) = s) \<and>
     (\<forall>k l d a b s. fst (cHGetAll R k (snd (cExec R [PRPush l d, PLTrim l a b] s))) = fst (cHGetAll R k s))"

lemma lists_apart_GetBandwidth:
  assumes "lists_apart R"
  shows "snd (GetBandwidth R n st) = st"
    and "fst (GetBandwidth R n (snd (RecordPayout R m data st))) = fst (GetBandwidth R n st)"
  using assms unfolding lists_apart_def GetBandwidth_def RecordPayout_def push_json_def
  by (auto split: prod.splits sum.splits) (metis fst_conv snd_conv sum.distinct(1) sum.inject)+

lemma CalculatePayout_paid:
  assumes "lists_apart R" and "fst (GetBandwidth R n st) = Inr b"
  shows "fst (CalculatePayout R E p now n period st) = Inr (payout_of E p now n period b) \<and>
    fst (GetBandwidth R n (snd (CalculatePayout R E p now n period st))) = Inr b"
proof -
  obtain st1 where g: "GetBandwidth R n st = (Inr b, st1)" using assms(2) by (metis prod.collapse)
  with lists_apart_GetBandwidth(1) [OF assms(1), of n st] have "st1 = st" by simp
  with g show ?thesis
    using assms lists_apart_GetBandwidth(2) [OF assms(1)] by (simp add: CalculatePayout_def calculatePayoutInternal_def)
qed

text \<open>Every period pays for all the traffic a node has ever had: \<open>CalculatePayout\<close> reads the total counters
  whatever period it is given, so for any sequence of periods the node is paid the same full amount each time.\<close>

theorem periods_pay_everything:
  assumes "lists_apart R" and "fst (GetBandwidth R n st) = Inr b"
  shows "pay_periods R E p n ts st = replicate (length ts) (Inr (po_Amount (payout_of E p 0 n 0 b)))"
  using assms(2)
proof (induction ts arbitrary: st)
  case (Cons t ts)
  obtain now period where t: "t = (now, period)" by (cases t)
  obtain r st1 where c: "CalculatePayout R E p now n period st = (r, st1)" by fastforce
  from CalculatePayout_paid [OF assms(1) Cons.prems, of E p now period] Cons.IH [of st1] show ?case
    by (simp add: t c payout_of_amount [of E p now n period b E 0 n 0])
qed simp

definition pay_demo :: mem where
  "pay_demo = mem_empty\<lparr>m_hash := (\<lambda>k. if k = ''bandwidth:n'' then [(''bytes_sent'', show_int 42949672960)] else [])\<rparr>"

definition pay_service :: payoutService where
  "pay_service = SetTiers [\<lparr>tr_Name = ''Flat'', tr_MinGBMonthly = 0, tr_MaxGBMonthly = 100, tr_RatePerGBSent = Fin 1, tr_RatePerGBRecv = Fin 1\<rparr>]
     (SetRates \<lparr>pr_RatePerGBSent = Fin 1, pr_RatePerGBReceived = Fin 1, pr_MinPayoutAmount = Fin 10\<rparr> NewPayoutService)"

theorem periods_pay_everything_witness:
  "pay_periods mem_redis \<lparr>pe_month = show_int, pe_marshal = (\<lambda>_. Inr '''')\<rparr> pay_service ''n'' [(1, 10), (2, 20), (3, 30)] pay_demo
    = [Inr (Fin 40), Inr (Fin 40), Inr (Fin 40)]"
proof -
  let ?E = "\<lparr>pe_month = show_int, pe_marshal = (\<lambda>_. Inr '''')\<rparr>"
  let ?b = "\<lparr>bd_BytesSent = 42949672960, bd_BytesReceived = 0, bd_DurationSeconds = 0\<rparr>"
  have l: "lists_apart mem_redis" by (simp add: lists_apart_def)
  have b: "fst (GetBandwidth mem_redis ''n'' pay_demo) = Inr ?b"
    by (simp add: pay_demo_def GetBandwidth_def bandwidth_of_def raw_int_def parse_show_int in_i64_def mem_empty_def)
  have r: "f_round 40 = Fin 40" "f_round 0 = Fin 0" using f_int_def [of 40] f_int_def [of 0] by simp_all
  then have "po_Amount (payout_of ?E pay_service 0 ''n'' 0 ?b) = Fin 40"
    by (simp add: payout_of_def pay_service_def SetTiers_def SetRates_def gigabytes_def findTier_def in_tier_def getTierRates_def Let_def)
  with periods_pay_everything [OF l b, of ?E pay_service "[(1, 10), (2, 20), (3, 30)]"] show ?thesis
    by (simp only: list.size replicate.simps) (simp add: numeral_eq_Suc)
qed

end
