(* ===== verification/Jwt.thy ===== *)
theory Jwt
  imports Http Redis_Api "HOL-Library.Countable"
begin

text \<open>
  Signed tokens (\<open>jwt/service.go\<close>, \<open>jwt/middleware.go\<close>). The library that signs and parses tokens is a
  parameter; what it promises is \<open>jwt_ok\<close>, used only as a hypothesis. Random bytes are arguments.
\<close>

section \<open>The library\<close>

text \<open>The issuer embedded in the registered claims is shadowed by the outer one in JSON and left out.\<close>

record claims =
  jc_ExpiresAt :: time
  jc_IssuedAt :: time
  jc_ID :: string
  jc_UserID :: string
  jc_Roles :: "string list"
  jc_APIKeys :: "string list"
  jc_NodeID :: string
  jc_Issuer :: string

datatype signing_method = MethodHMAC | MethodOther string

text \<open>\<open>jl_parse\<close> takes the time, the key function and the text; the flag of a parsed token is \<open>token.Valid\<close>.\<close>

record jwt_lib =
  jl_sign :: "string \<Rightarrow> claims \<Rightarrow> go_err + string"
  jl_parse :: "time \<Rightarrow> (signing_method \<Rightarrow> go_err + string) \<Rightarrow> string \<Rightarrow> go_err + claims \<times> bool"

text \<open>\<open>jwt.NewNumericDate\<close> truncates to the second.\<close>

definition numeric_date :: "time \<Rightarrow> time" where
  "numeric_date t = t - t mod go_second"

section \<open>The service\<close>

definition ErrInvalidToken :: go_err where "ErrInvalidToken = Err ''invalid token''"
definition ErrExpiredToken :: go_err where "ErrExpiredToken = Err ''token expired''"

record jwtService =
  jw_secretKey :: string
  jw_expiration :: duration
  jw_issuer :: string

definition NewJWTService :: "string \<Rightarrow> string \<Rightarrow> duration \<Rightarrow> jwtService" where
  "NewJWTService random secret expiration =
     \<lparr>jw_secretKey = (if secret = '''' then random else secret), jw_expiration = expiration, jw_issuer = ''proxymesh''\<rparr>"

definition token_claims :: "jwtService \<Rightarrow> string \<Rightarrow> time \<Rightarrow> string \<Rightarrow> string list \<Rightarrow> string list \<Rightarrow> string \<Rightarrow> claims" where
  "token_claims s rnd now userID roles apiKeys nodeID =
     \<lparr>jc_ExpiresAt = numeric_date (now + jw_expiration s), jc_IssuedAt = numeric_date now, jc_ID = rnd, jc_UserID = userID,
      jc_Roles = roles, jc_APIKeys = apiKeys, jc_NodeID = nodeID, jc_Issuer = jw_issuer s\<rparr>"

definition GenerateToken ::
    "jwt_lib \<Rightarrow> jwtService \<Rightarrow> string \<Rightarrow> time \<Rightarrow> string \<Rightarrow> string list \<Rightarrow> string list \<Rightarrow> string \<Rightarrow> go_err + string" where
  "GenerateToken J s rnd now userID roles apiKeys nodeID = jl_sign J (jw_secretKey s) (token_claims s rnd now userID roles apiKeys nodeID)"

definition key_function :: "jwtService \<Rightarrow> signing_method \<Rightarrow> go_err + string" where
  "key_function s m = (case m of MethodHMAC \<Rightarrow> Inr (jw_secretKey s)
     | MethodOther alg \<Rightarrow> Inl (Err (''unexpected signing method: '' @ alg)))"

definition ValidateToken :: "jwt_lib \<Rightarrow> jwtService \<Rightarrow> time \<Rightarrow> string \<Rightarrow> go_err + claims" where
  "ValidateToken J s now tok = (case jl_parse J now (key_function s) tok of
       Inl e \<Rightarrow> Inl (if str_contains (err_text e) ''token is expired'' then ErrExpiredToken else ErrInvalidToken)
     | Inr (c, valid) \<Rightarrow> if valid then Inr c else Inl ErrInvalidToken)"

definition RefreshToken :: "jwt_lib \<Rightarrow> jwtService \<Rightarrow> string \<Rightarrow> time \<Rightarrow> string \<Rightarrow> go_err + string" where
  "RefreshToken J s rnd now tok = (case ValidateToken J s now tok of
       Inl e \<Rightarrow> Inl e
     | Inr c \<Rightarrow> GenerateToken J s rnd now (jc_UserID c) (jc_Roles c) (jc_APIKeys c) (jc_NodeID c))"

definition GenerateAPIKeyToken :: "jwt_lib \<Rightarrow> jwtService \<Rightarrow> string \<Rightarrow> time \<Rightarrow> string \<Rightarrow> string \<Rightarrow> go_err + string" where
  "GenerateAPIKeyToken J s rnd now apiKey userID = GenerateToken J s rnd now userID [''api''] [apiKey] ''''"

definition GenerateAdminToken :: "jwt_lib \<Rightarrow> jwtService \<Rightarrow> string \<Rightarrow> time \<Rightarrow> string \<Rightarrow> string list \<Rightarrow> go_err + string" where
  "GenerateAdminToken J s rnd now userID roles = GenerateToken J s rnd now userID roles [] ''''"

definition GeneratePeerToken :: "jwt_lib \<Rightarrow> jwtService \<Rightarrow> string \<Rightarrow> time \<Rightarrow> string \<Rightarrow> go_err + string" where
  "GeneratePeerToken J s rnd now nodeID = GenerateToken J s rnd now nodeID [''peer''] [] nodeID"

record tokenInfo =
  ti_UserID :: string
  ti_Roles :: "string list"
  ti_IssuedAt :: time
  ti_Expires :: time
  ti_NodeID :: string

definition ParseTokenInfo :: "jwt_lib \<Rightarrow> jwtService \<Rightarrow> time \<Rightarrow> string \<Rightarrow> go_err + tokenInfo" where
  "ParseTokenInfo J s now tok = (case ValidateToken J s now tok of
       Inl e \<Rightarrow> Inl e
     | Inr c \<Rightarrow> Inr \<lparr>ti_UserID = jc_UserID c, ti_Roles = jc_Roles c, ti_IssuedAt = jc_IssuedAt c, ti_Expires = jc_ExpiresAt c,
         ti_NodeID = jc_NodeID c\<rparr>)"

definition jw_IsAdmin :: "claims \<Rightarrow> bool" where
  "jw_IsAdmin c \<longleftrightarrow> list_ex (\<lambda>r. r = ''superadmin'' \<or> r = ''admin'' \<or> r = ''operator'') (jc_Roles c)"

definition HasRole :: "claims \<Rightarrow> string \<Rightarrow> bool" where
  "HasRole c role \<longleftrightarrow> role \<in> set (jc_Roles c)"

record tokenResponse =
  tk_AccessToken :: string
  tk_RefreshToken :: string
  tk_TokenType :: string
  tk_ExpiresIn :: int

text \<open>The clock and the source of random bytes are read once for each of the two tokens.\<close>

definition GenerateTokenResponse ::
    "jwt_lib \<Rightarrow> (f64 \<Rightarrow> int) \<Rightarrow> jwtService \<Rightarrow> string \<times> time \<Rightarrow> string \<times> time \<Rightarrow> string \<Rightarrow> string list \<Rightarrow> string list \<Rightarrow> string
      \<Rightarrow> go_err + tokenResponse" where
  "GenerateTokenResponse J wild s x1 x2 userID roles apiKeys nodeID =
     (case GenerateToken J s (fst x1) (snd x1) userID roles apiKeys nodeID of
        Inl e \<Rightarrow> Inl e
      | Inr access \<Rightarrow> (case GenerateToken J s (fst x2) (snd x2) userID roles apiKeys nodeID of
          Inl e \<Rightarrow> Inl e
        | Inr refresh \<Rightarrow> Inr \<lparr>tk_AccessToken = access, tk_RefreshToken = refresh, tk_TokenType = ''Bearer'',
            tk_ExpiresIn = f_to_i64 wild (duration_seconds (jw_expiration s))\<rparr>))"

section \<open>Middlewares\<close>

text \<open>What the middlewares put in the context of a request. Roles that are no list of strings are \<open>Some None\<close>.\<close>

record jwt_context =
  jx_user_id :: "string option"
  jx_roles :: "string list option option"
  jx_api_keys :: "string list option"
  jx_node_id :: "string option"
  jx_is_admin :: "bool option"

definition token_header :: "http_req \<Rightarrow> string" where
  "token_header r = (let h = rq_header r ''Authorization'' in if h = '''' then rq_header r ''X-Peer-Token'' else h)"

definition set_claims :: "claims \<Rightarrow> jwt_context \<Rightarrow> jwt_context" where
  "set_claims c x = x\<lparr>jx_user_id := Some (jc_UserID c), jx_roles := Some (Some (jc_Roles c)), jx_api_keys := Some (jc_APIKeys c),
     jx_node_id := Some (jc_NodeID c), jx_is_admin := Some (jw_IsAdmin c)\<rparr>"

definition JWTAuthMiddleware :: "jwt_lib \<Rightarrow> jwtService \<Rightarrow> time \<Rightarrow> http_req \<Rightarrow> jwt_context \<Rightarrow> outcome \<times> jwt_context" where
  "JWTAuthMiddleware J s now r x =
     (if token_header r = '''' then (Abort 401 ''Missing authorization token'', x)
      else (case ValidateToken J s now (trim_prefix (token_header r) ''Bearer '') of
          Inl e \<Rightarrow> (Abort 401 (if e = ErrExpiredToken then ''Token expired'' else ''Invalid token''), x)
        | Inr c \<Rightarrow> (Next, set_claims c x)))"

definition OptionalJWTAuth :: "jwt_lib \<Rightarrow> jwtService \<Rightarrow> time \<Rightarrow> http_req \<Rightarrow> jwt_context \<Rightarrow> outcome \<times> jwt_context" where
  "OptionalJWTAuth J s now r x =
     (if token_header r = '''' then (Next, x)
      else (case ValidateToken J s now (trim_prefix (token_header r) ''Bearer '') of
          Inl e \<Rightarrow> (Next, x)
        | Inr c \<Rightarrow> (Next, set_claims c x)))"

definition RequireRole :: "string list \<Rightarrow> jwt_context \<Rightarrow> outcome" where
  "RequireRole roles x = (case jx_roles x of
       None \<Rightarrow> Abort 401 ''No roles found''
     | Some None \<Rightarrow> Abort 403 ''Invalid roles''
     | Some (Some userRoles) \<Rightarrow>
         if list_ex (\<lambda>required. list_ex (\<lambda>u. u = required) userRoles) roles then Next else Abort 403 ''Insufficient permissions'')"

definition GetUserID :: "jwt_context \<Rightarrow> string" where
  "GetUserID x = (case jx_user_id x of Some u \<Rightarrow> u | None \<Rightarrow> '''')"

definition GetRoles :: "jwt_context \<Rightarrow> string list" where
  "GetRoles x = (case jx_roles x of Some (Some rs) \<Rightarrow> rs | _ \<Rightarrow> [])"

definition GetNodeID :: "jwt_context \<Rightarrow> string" where
  "GetNodeID x = (case jx_node_id x of Some n \<Rightarrow> n | None \<Rightarrow> '''')"

definition ctx_IsAdmin :: "jwt_context \<Rightarrow> bool" where
  "ctx_IsAdmin x = (case jx_is_admin x of Some b \<Rightarrow> b | None \<Rightarrow> False)"

section \<open>What the library promises\<close>

text \<open>Claims that JSON keeps: texts in \<open>ok\<close>, which are those of valid UTF-8, and instants of whole seconds that a
  \<open>float64\<close> holds exactly.\<close>

definition whole_second :: "time \<Rightarrow> bool" where
  "whole_second x \<longleftrightarrow> x mod go_second = 0 \<and> 0 \<le> x \<and> x < 2 ^ 53 * go_second"

definition json_keeps :: "(string \<Rightarrow> bool) \<Rightarrow> claims \<Rightarrow> bool" where
  "json_keeps ok c \<longleftrightarrow> list_all ok (jc_ID c # jc_UserID c # jc_NodeID c # jc_Issuer c # jc_Roles c @ jc_APIKeys c) \<and>
     whole_second (jc_ExpiresAt c) \<and> whole_second (jc_IssuedAt c)"

text \<open>
  Documented behaviour: a token signed with a key over claims that JSON keeps is parsed under that key to the same claims,
  and is valid until it expires, when parsing fails with an error that says so.
\<close>

definition jwt_ok :: "jwt_lib \<Rightarrow> (string \<Rightarrow> bool) \<Rightarrow> bool" where
  "jwt_ok J ok \<longleftrightarrow>
     (\<forall>key c tok now kf. json_keeps ok c \<longrightarrow> jl_sign J key c = Inr tok \<longrightarrow> kf MethodHMAC = Inr key \<longrightarrow>
        (if now < jc_ExpiresAt c then jl_parse J now kf tok = Inr (c, True)
         else (\<exists>e. jl_parse J now kf tok = Inl e \<and> str_contains (err_text e) ''token is expired'')))"

lemma key_function_simps [simp]:
  "key_function s MethodHMAC = Inr (jw_secretKey s)" "\<exists>e. key_function s (MethodOther alg) = Inl e"
  by (simp_all add: key_function_def)

lemma ValidateToken_signed:
  assumes "jwt_ok J ok" and "json_keeps ok c" and "jl_sign J (jw_secretKey s) c = Inr tok"
  shows "ValidateToken J s now tok = (if now < jc_ExpiresAt c then Inr c else Inl ErrExpiredToken)"
  using assms(1) [unfolded jwt_ok_def, rule_format, OF assms(2,3), of "key_function s" now]
  by (auto simp: ValidateToken_def split: if_splits)

text \<open>The instants the clock may show: from 1970 on, and not so late that adding the lifetime leaves the exact numbers.\<close>

definition clock_ok :: "duration \<Rightarrow> time \<Rightarrow> bool" where
  "clock_ok d t \<longleftrightarrow> 0 \<le> t \<and> 0 \<le> t + d \<and> t < 2 ^ 53 * go_second \<and> t + d < 2 ^ 53 * go_second"

lemma whole_second_date: "0 \<le> x \<Longrightarrow> x < 2 ^ 53 * go_second \<Longrightarrow> whole_second (numeric_date x)"
proof -
  assume x: "0 \<le> x" "x < 2 ^ 53 * go_second"
  have "numeric_date x = go_second * (x div go_second)" by (simp add: numeric_date_def minus_mod_eq_mult_div)
  moreover have "0 \<le> x div go_second" using x by (simp add: go_second_def)
  moreover have "numeric_date x \<le> x" by (simp add: numeric_date_def go_second_def)
  ultimately show ?thesis using x by (simp add: whole_second_def go_second_def)
qed

lemma token_claims_keeps:
  assumes "list_all ok (jw_issuer s # rnd # u # n # roles @ ks)" and "clock_ok (jw_expiration s) t"
  shows "json_keeps ok (token_claims s rnd t u roles ks n)"
  using assms whole_second_date by (simp add: json_keeps_def token_claims_def clock_ok_def)

section \<open>Properties\<close>

text \<open>The life of a session: refreshed at the given instants, each time with new random bytes.\<close>

fun refresh_run :: "jwt_lib \<Rightarrow> jwtService \<Rightarrow> (time \<times> string) list \<Rightarrow> go_err + string \<Rightarrow> go_err + string" where
  "refresh_run J s [] tok = tok"
| "refresh_run J s ((now, rnd) # rs) tok = (case tok of Inl e \<Rightarrow> Inl e | Inr t \<Rightarrow> refresh_run J s rs (RefreshToken J s rnd now t))"

text \<open>Each refresh comes before the previous token has expired.\<close>

fun in_time :: "duration \<Rightarrow> time \<Rightarrow> time list \<Rightarrow> bool" where
  "in_time d t [] = True"
| "in_time d t (now # ts) \<longleftrightarrow> now < numeric_date (t + d) \<and> in_time d now ts"

lemma RefreshToken_signed:
  assumes "jwt_ok J ok" and "json_keeps ok (token_claims s rnd t u rs ks n)" and "GenerateToken J s rnd t u rs ks n = Inr tok"
  shows "RefreshToken J s rnd' now tok = (if now < numeric_date (t + jw_expiration s) then GenerateToken J s rnd' now u rs ks n else Inl ErrExpiredToken)"
  using ValidateToken_signed [OF assms(1,2) assms(3) [unfolded GenerateToken_def], of now]
  by (simp add: RefreshToken_def token_claims_def)

lemma refresh_run_Inl: "refresh_run J s rs (Inl e) = Inl e"
  by (induction rs) auto

text \<open>C19: A token is good from the moment it is made until it expires and no longer: it validates to its own
  user, roles, keys and node. A session can be kept alive for ever by refreshing the token in time, the access
  token like any other, and it keeps the user, roles, keys and node it started with; one refresh too late
  ends it with \<open>ErrExpiredToken\<close>. For names that are valid UTF-8, a clock after 1970 and within what a JSON number
  holds exactly, and a library that signs these claims and gives them back under the same key while they last.\<close>

theorem token_session:
  assumes "jwt_ok J ok" and "\<And>c. \<exists>tok. jl_sign J (jw_secretKey s) c = Inr tok"
    and "list_all ok (jw_issuer s # u # n # roles @ ks)" and "list_all ok (rnd # map snd rs)"
    and "list_all (clock_ok (jw_expiration s)) (t # map fst rs)"
  shows "(case refresh_run J s rs (GenerateToken J s rnd t u roles ks n) of
       Inl e \<Rightarrow> \<not> in_time (jw_expiration s) t (map fst rs) \<and> e = ErrExpiredToken
     | Inr tok \<Rightarrow> in_time (jw_expiration s) t (map fst rs) \<and>
         ValidateToken J s now tok =
           (if now < numeric_date (last (t # map fst rs) + jw_expiration s)
            then Inr (token_claims s (last (rnd # map snd rs)) (last (t # map fst rs)) u roles ks n) else Inl ErrExpiredToken))"
  using assms(4,5)
proof (induction rs arbitrary: t rnd)
  case Nil
  obtain tok where g: "GenerateToken J s rnd t u roles ks n = Inr tok" using assms(2) unfolding GenerateToken_def by blast
  have k: "json_keeps ok (token_claims s rnd t u roles ks n)" by (rule token_claims_keeps) (use assms(3) Nil in simp_all)
  show ?case
    using ValidateToken_signed [OF assms(1) k g [unfolded GenerateToken_def], of now] by (simp add: g token_claims_def)
next
  case (Cons r rs)
  obtain now' rnd' where r: "r = (now', rnd')" by (cases r)
  obtain tok where g: "GenerateToken J s rnd t u roles ks n = Inr tok" using assms(2) unfolding GenerateToken_def by blast
  have k: "json_keeps ok (token_claims s rnd t u roles ks n)" by (rule token_claims_keeps) (use assms(3) Cons.prems in simp_all)
  have run: "refresh_run J s (r # rs) (GenerateToken J s rnd t u roles ks n) =
      (if now' < numeric_date (t + jw_expiration s) then refresh_run J s rs (GenerateToken J s rnd' now' u roles ks n) else Inl ErrExpiredToken)"
    using RefreshToken_signed [OF assms(1) k g, of rnd' now'] by (simp add: r g refresh_run_Inl)
  have parts: "last (t # map fst (r # rs)) = last (now' # map fst rs)" "last (rnd # map snd (r # rs)) = last (rnd' # map snd rs)"
    "in_time (jw_expiration s) t (map fst (r # rs)) \<longleftrightarrow> now' < numeric_date (t + jw_expiration s) \<and> in_time (jw_expiration s) now' (map fst rs)"
    by (simp_all add: r)
  have "list_all ok (rnd' # map snd rs)" "list_all (clock_ok (jw_expiration s)) (now' # map fst rs)" using Cons.prems by (simp_all add: r)
  from Cons.IH [OF this] show ?case unfolding run parts
    by (cases "refresh_run J s rs (GenerateToken J s rnd' now' u roles ks n)") (auto simp del: last.simps)
qed

text \<open>A library for the witness: a token is the number of its key and its claims, in unary.\<close>

definition claims_tuple :: "claims \<Rightarrow> time \<times> time \<times> string \<times> string \<times> string list \<times> string list \<times> string \<times> string" where
  "claims_tuple c = (jc_ExpiresAt c, jc_IssuedAt c, jc_ID c, jc_UserID c, jc_Roles c, jc_APIKeys c, jc_NodeID c, jc_Issuer c)"

definition tuple_claims :: "time \<times> time \<times> string \<times> string \<times> string list \<times> string list \<times> string \<times> string \<Rightarrow> claims" where
  "tuple_claims = (\<lambda>(a, b, c, d, e, f, g, h). \<lparr>jc_ExpiresAt = a, jc_IssuedAt = b, jc_ID = c, jc_UserID = d, jc_Roles = e,
     jc_APIKeys = f, jc_NodeID = g, jc_Issuer = h\<rparr>)"

lemma tuple_claims_inverse [simp]: "tuple_claims (claims_tuple c) = c" "claims_tuple (tuple_claims p) = p"
  by (simp_all add: tuple_claims_def claims_tuple_def split_beta)

definition unary_token :: "string \<Rightarrow> claims \<Rightarrow> string" where
  "unary_token key c = replicate (to_nat (key, claims_tuple c)) CHR ''x''"

lemma unary_token_inj: "unary_token key c = unary_token key' c' \<longleftrightarrow> key = key' \<and> c = c'"
proof -
  have "claims_tuple c = claims_tuple c' \<longleftrightarrow> c = c'" using tuple_claims_inverse(1) by metis
  then show ?thesis by (simp add: unary_token_def replicate_eq_replicate)
qed

definition demo_jwt :: jwt_lib where
  "demo_jwt = \<lparr>jl_sign = (\<lambda>key c. Inr (unary_token key c)),
     jl_parse = (\<lambda>now kf tok. case kf MethodHMAC of Inl e \<Rightarrow> Inl e
       | Inr key \<Rightarrow> (let c = tuple_claims (snd (from_nat (length tok) :: string \<times> _))
           in if tok \<noteq> unary_token key c then Inl (Err ''token is malformed'')
              else if now < jc_ExpiresAt c then Inr (c, True) else Inl (Err ''token is expired'')))\<rparr>"

lemma demo_jwt_ok: "jwt_ok demo_jwt (\<lambda>_. True)"
proof -
  have "tuple_claims (snd (from_nat (length (unary_token key c)) :: string \<times> _)) = c" for key c
    by (simp add: unary_token_def)
  moreover have "str_contains ''token is expired'' ''token is expired''" by code_simp
  ultimately show ?thesis by (auto simp: jwt_ok_def demo_jwt_def Let_def split: if_splits)
qed

theorem token_session_witness:
  "\<exists>tok. refresh_run demo_jwt (NewJWTService '''' ''k'' 10000000000) [(5000000000, ''b''), (12000000000, ''c'')]
      (GenerateToken demo_jwt (NewJWTService '''' ''k'' 10000000000) ''a'' 0 ''u'' [''api''] [] '''') = Inr tok \<and>
    map_sum id jc_UserID (ValidateToken demo_jwt (NewJWTService '''' ''k'' 10000000000) 21000000000 tok) = Inr ''u''"
proof -
  let ?s = "NewJWTService '''' ''k'' 10000000000" and ?rs = "[(5000000000, ''b''), (12000000000, ''c'')]"
  let ?run = "refresh_run demo_jwt ?s ?rs (GenerateToken demo_jwt ?s ''a'' 0 ''u'' [''api''] [] '''')"
  have g: "\<exists>tok. jl_sign demo_jwt (jw_secretKey ?s) c = Inr tok" for c by (simp add: demo_jwt_def)
  have t: "in_time (jw_expiration ?s) 0 (map fst ?rs)" by (simp add: NewJWTService_def numeric_date_def go_second_def)
  have l: "list_all (\<lambda>_. True) xs" for xs :: "string list" by (simp add: list_all_iff)
  have c: "list_all (clock_ok (jw_expiration ?s)) (0 # map fst ?rs)" by (simp add: clock_ok_def NewJWTService_def go_second_def)
  note life = token_session [OF demo_jwt_ok g l l c, where rnd = "''a''" and u = "''u''" and roles = "[''api'']" and ks = "[]" and n = "''''" and now = 21000000000]
  show ?thesis
  proof (cases ?run)
    case (Inl e)
    with life t show ?thesis by simp
  next
    case (Inr tok)
    with life have "ValidateToken demo_jwt ?s 21000000000 tok = Inr (token_claims ?s ''c'' 12000000000 ''u'' [''api''] [] '''')"
      by (simp add: NewJWTService_def numeric_date_def go_second_def)
    with Inr show ?thesis by (intro exI [of _ tok]) (simp add: token_claims_def)
  qed
qed

end
