(* ===== verification/Peer_Server.thy ===== *)
theory Peer_Server
  imports Matchmaker
begin

text \<open>
  The gRPC service that peers talk to (\<open>internal/grpc/server.go\<close>): its sessions, and each call as the
  matchmaker's operation it makes on the server of \<open>Redis_Api\<close>. The messages are records of the fields the
  handlers read; the transport is not modelled; the telemetry stream is in \<open>Telemetry\<close>. The order in which the sessions are ranged over is an argument.
\<close>

record connectRequest =
  cq_NodeId :: string
  cq_Ip :: string
  cq_Country :: string
  cq_City :: string
  cq_Isp :: string
  cq_Os :: string
  cq_Ipv6Subnet :: string

record connectResponse =
  cp_Success :: bool
  cp_Message :: string
  cp_SessionId :: string

record heartbeatRequest =
  hq_NodeId :: string
  hq_Battery :: int
  hq_CpuUsage :: f64
  hq_IsCharging :: bool

record bandwidthReport =
  br_NodeId :: string
  br_BytesSent :: int
  br_BytesReceived :: int
  br_DurationSeconds :: int

record peerSession =
  ps_NodeID :: string
  ps_SessionID :: string
  ps_Connected :: time
  ps_LastSeen :: time

type_synonym peerServer = "string \<rightharpoonup> peerSession"

definition NewPeerServer :: peerServer where
  "NewPeerServer = Map.empty"

definition registration_of :: "connectRequest \<Rightarrow> registration" where
  "registration_of q = \<lparr>rg_NodeID = cq_NodeId q, rg_NodeType = ''residential'', rg_Country = cq_Country q, rg_City = cq_City q,
     rg_ISP = cq_Isp q, rg_IP = cq_Ip q, rg_IPv6Subnet = cq_Ipv6Subnet q, rg_OS = cq_Os q, rg_ReferralCode = ''''\<rparr>"

definition session_id :: "string \<Rightarrow> time \<Rightarrow> string" where
  "session_id nodeID now = nodeID @ ''-'' @ show_int (unix_seconds now)"

definition srv_Connect ::
    "'r redis \<Rightarrow> (string \<Rightarrow> string) option \<Rightarrow> time \<Rightarrow> connectRequest \<Rightarrow> peerServer \<times> 'r \<Rightarrow> connectResponse \<times> peerServer \<times> 'r" where
  "srv_Connect R geoip now q = (\<lambda>(s, st).
     if cq_NodeId q = '''' then (\<lparr>cp_Success = False, cp_Message = ''node_id is required'', cp_SessionId = ''''\<rparr>, s, st)
     else (case RegisterNode R geoip now (registration_of q) st of
         (Some e, st1) \<Rightarrow> (\<lparr>cp_Success = False, cp_Message = err_text e, cp_SessionId = ''''\<rparr>, s, st1)
       | (None, st1) \<Rightarrow> (let sid = session_id (cq_NodeId q) now in
           (\<lparr>cp_Success = True, cp_Message = ''Connected successfully'', cp_SessionId = sid\<rparr>,
            s(sid \<mapsto> \<lparr>ps_NodeID = cq_NodeId q, ps_SessionID = sid, ps_Connected = now, ps_LastSeen = now\<rparr>), st1))))"

text \<open>The first session of a node, in the order of the range.\<close>

definition find_session :: "string list \<Rightarrow> string \<Rightarrow> peerServer \<Rightarrow> string option" where
  "find_session order nodeID s = find (\<lambda>k. case s k of None \<Rightarrow> False | Some p \<Rightarrow> ps_NodeID p = nodeID) order"

definition srv_Heartbeat ::
    "'r redis \<Rightarrow> (f64 \<Rightarrow> string) \<Rightarrow> time \<Rightarrow> string list \<Rightarrow> heartbeatRequest \<Rightarrow> peerServer \<times> 'r \<Rightarrow> (bool \<times> string) \<times> peerServer \<times> 'r" where
  "srv_Heartbeat R fmt now order q = (\<lambda>(s, st).
     let s1 = (case find_session order (hq_NodeId q) s of None \<Rightarrow> s
           | Some k \<Rightarrow> s(k := map_option (\<lambda>p. p\<lparr>ps_LastSeen := now\<rparr>) (s k)))
     in (case Matchmaker.Heartbeat R fmt now (hq_NodeId q) (hq_Battery q) (hq_CpuUsage q) (hq_IsCharging q) st of
         (Some e, st1) \<Rightarrow> ((False, err_text e), s1, st1)
       | (None, st1) \<Rightarrow> ((True, ''Heartbeat received''), s1, st1)))"

definition srv_ReportBandwidth :: "'r redis \<Rightarrow> string \<Rightarrow> bandwidthReport \<Rightarrow> peerServer \<times> 'r \<Rightarrow> (bool \<times> string) \<times> peerServer \<times> 'r" where
  "srv_ReportBandwidth R today q = (\<lambda>(s, st). ((True, ''Bandwidth recorded''), s,
     snd (RecordBandwidth R today (br_NodeId q) (br_BytesSent q) (br_BytesReceived q) (br_DurationSeconds q) st)))"

definition srv_Disconnect :: "'r redis \<Rightarrow> string list \<Rightarrow> string \<Rightarrow> peerServer \<times> 'r \<Rightarrow> bool \<times> peerServer \<times> 'r" where
  "srv_Disconnect R order nodeID = (\<lambda>(s, st).
     (True, (case find_session order nodeID s of None \<Rightarrow> s | Some k \<Rightarrow> s(k := None)), snd (DeregisterNode R nodeID st)))"

definition GetSession :: "string list \<Rightarrow> string \<Rightarrow> peerServer \<Rightarrow> peerSession option" where
  "GetSession order nodeID s = (case find_session order nodeID s of None \<Rightarrow> None | Some k \<Rightarrow> s k)"

text \<open>Listening and serving are the library's; \<open>served\<close> is the error with which serving ends.\<close>

definition srv_Start :: "(int \<Rightarrow> go_err option) \<Rightarrow> go_err option \<Rightarrow> int \<Rightarrow> go_err option" where
  "srv_Start listen served port = (case listen port of Some e \<Rightarrow> Some (Wrap ''failed to listen'' e) | None \<Rightarrow> served)"

text \<open>What one tick of \<open>StreamTelemetry\<close> reports as the quality of the connection.\<close>

definition telemetry_quality :: "time \<Rightarrow> int" where
  "telemetry_quality now = 85 + unix_seconds now mod 15"

lemma telemetry_quality_below: "telemetry_quality now < 100"
  by (simp add: telemetry_quality_def)

section \<open>Sessions of a node\<close>

definition sessions_of :: "string \<Rightarrow> peerServer \<Rightarrow> string set" where
  "sessions_of n s = {k. \<exists>p. s k = Some p \<and> ps_NodeID p = n}"

lemma find_session_Some:
  "find_session order n s = Some k \<Longrightarrow> k \<in> sessions_of n s"
  by (auto simp: find_session_def find_Some_iff sessions_of_def split: option.splits)

lemma find_session_iff:
  assumes "dom s \<subseteq> set order"
  shows "find_session order n s = None \<longleftrightarrow> sessions_of n s = {}"
proof -
  have "k \<in> set order" if "s k = Some p" for k p using that assms by auto
  then show ?thesis by (auto simp: find_session_def find_None_iff sessions_of_def split: option.splits)
qed

lemma connect_adds_session:
  assumes "srv_Connect R geoip now q (s, st) = (r, s', st')" and "cp_Success r"
  shows "sessions_of (cq_NodeId q) s' = insert (session_id (cq_NodeId q) now) (sessions_of (cq_NodeId q) s)"
    and "cp_SessionId r = session_id (cq_NodeId q) now"
proof -
  obtain e st1 where "RegisterNode R geoip now (registration_of q) st = (e, st1)" by fastforce
  then have "s' = s(session_id (cq_NodeId q) now \<mapsto> \<lparr>ps_NodeID = cq_NodeId q, ps_SessionID = session_id (cq_NodeId q) now,
      ps_Connected = now, ps_LastSeen = now\<rparr>) \<and> cp_SessionId r = session_id (cq_NodeId q) now"
    using assms by (auto simp: srv_Connect_def Let_def split: if_splits option.splits)
  then show "sessions_of (cq_NodeId q) s' = insert (session_id (cq_NodeId q) now) (sessions_of (cq_NodeId q) s)"
    "cp_SessionId r = session_id (cq_NodeId q) now" by (auto simp: sessions_of_def)
qed

text \<open>A disconnection takes one session with it and leaves the others of the same node behind.\<close>

lemma disconnect_removes_one:
  assumes "srv_Disconnect R order n (s, st) = (ok, s', st')" and "dom s \<subseteq> set order" and "finite (dom s)"
  shows "card (sessions_of n s') = card (sessions_of n s) - 1"
proof (cases "find_session order n s")
  case None
  with assms find_session_iff [OF assms(2)] show ?thesis by (simp add: srv_Disconnect_def)
next
  case (Some k)
  then have "s' = s(k := None)" using assms(1) by (simp add: srv_Disconnect_def)
  then have "sessions_of n s' = sessions_of n s - {k}" by (auto simp: sessions_of_def)
  moreover have "finite (sessions_of n s)" by (rule finite_subset [OF _ assms(3)]) (auto simp: sessions_of_def)
  ultimately show ?thesis using find_session_Some [OF Some] by simp
qed

end
