(* ===== verification/Peer_Sdk.thy ===== *)
theory Peer_Sdk
  imports Go_Net Http Redis_Api
begin

text \<open>
  The software of a residential node (\<open>peer-sdk/sdk.go\<close>, \<open>peer-sdk/grpc_client.go\<close>): eligibility, the client of the
  gateway, status, the reconnector and consent. What the operating system measures is a record; the calls of the
  generated gRPC client are a record of functions over the state of the world outside. First each operation,
  then the goroutines that \<open>Start\<close> leaves running as a step relation, one receive or one attempt at a time.
\<close>

section \<open>The device\<close>

record peerConfig =
  pf_NodeID :: string
  pf_GatewayEndpoint :: string
  pf_MTLSEnabled :: bool
  pf_MinBattery :: int
  pf_MaxCPU :: f64

record device =
  dv_battery :: int
  dv_charging :: bool
  dv_cpu :: f64
  dv_unmetered :: bool

definition checkEligibility :: "peerConfig \<Rightarrow> device \<Rightarrow> bool" where
  "checkEligibility cfg d =
     (if pf_MinBattery cfg > 0 \<and> dv_battery d < pf_MinBattery cfg \<and> \<not> dv_charging d then False
      else if f_lt (f_int 0) (pf_MaxCPU cfg) \<and> f_lt (pf_MaxCPU cfg) (dv_cpu d) then False
      else dv_unmetered d)"

text \<open>An interface address is its IP and its text, if it is an \<open>IPNet\<close>.\<close>

definition getLocalIP :: "(ip \<times> string) option list option \<Rightarrow> string" where
  "getLocalIP addrs = (case addrs of None \<Rightarrow> ''127.0.0.1''
     | Some as \<Rightarrow> (case find (\<lambda>a. case a of None \<Rightarrow> False | Some (i, _) \<Rightarrow> \<not> IsLoopback i \<and> To4 i \<noteq> None) as of
         Some (Some (_, s)) \<Rightarrow> s | _ \<Rightarrow> ''127.0.0.1''))"

section \<open>The client of the gateway\<close>

record 'w peer_rpc =
  rp_Dial :: "peerConfig \<Rightarrow> 'w \<Rightarrow> go_err option \<times> 'w"
  rp_Connect :: "string list \<Rightarrow> 'w \<Rightarrow> (go_err + bool \<times> string \<times> string) \<times> 'w"
  rp_Heartbeat :: "string \<Rightarrow> int \<Rightarrow> f64 \<Rightarrow> bool \<Rightarrow> int \<Rightarrow> int \<Rightarrow> 'w \<Rightarrow> go_err option \<times> 'w"
  rp_ReportBandwidth :: "string \<Rightarrow> int \<Rightarrow> int \<Rightarrow> int \<Rightarrow> 'w \<Rightarrow> go_err option \<times> 'w"
  rp_Disconnect :: "string \<Rightarrow> string \<Rightarrow> 'w \<Rightarrow> go_err option \<times> 'w"

record peerClient =
  pc_sessionID :: string
  pc_stopped :: bool

definition NewPeerClient :: "'w peer_rpc \<Rightarrow> peerConfig \<Rightarrow> 'w \<Rightarrow> (go_err + peerClient) \<times> 'w" where
  "NewPeerClient P cfg w = (case rp_Dial P cfg w of
       (Some e, w1) \<Rightarrow> (Inl (Wrap ''failed to dial gateway'' e), w1)
     | (None, w1) \<Rightarrow> (Inr \<lparr>pc_sessionID = '''', pc_stopped = False\<rparr>, w1))"

text \<open>The fields of the request in the order of the message: node, address, country, city, provider, system, subnet.\<close>

definition pc_Connect :: "'w peer_rpc \<Rightarrow> peerConfig \<Rightarrow> peerClient \<Rightarrow> 'w \<Rightarrow> go_err option \<times> peerClient \<times> 'w" where
  "pc_Connect P cfg c w =
     (if pc_stopped c then (Some (Err ''client is stopped''), c, w)
      else (case rp_Connect P [pf_NodeID cfg, ''127.0.0.1'', ''US'', ''Unknown'', ''Residential'', ''unknown'', ''''] w of
          (Inl e, w1) \<Rightarrow> (Some (Wrap ''connect failed'' e), c, w1)
        | (Inr (success, message, session), w1) \<Rightarrow>
            if \<not> success then (Some (Err (''connect rejected: '' @ message)), c, w1)
            else (None, c\<lparr>pc_sessionID := session\<rparr>, w1)))"

text \<open>\<open>int32(n)\<close>\<close>

definition to_i32 :: "int \<Rightarrow> int" where
  "to_i32 n = (n + 2 ^ 31) mod 2 ^ 32 - 2 ^ 31"

definition pc_Heartbeat :: "'w peer_rpc \<Rightarrow> (f64 \<Rightarrow> f64) \<Rightarrow> peerConfig \<Rightarrow> int \<Rightarrow> f64 \<Rightarrow> bool \<Rightarrow> int \<Rightarrow> int \<Rightarrow> peerClient \<Rightarrow> 'w \<Rightarrow> go_err option \<times> 'w" where
  "pc_Heartbeat P to_f32 cfg battery cpu charging sent received c w =
     (if pc_stopped c then (Some (Err ''client is stopped''), w)
      else (case rp_Heartbeat P (pf_NodeID cfg) (to_i32 battery) (to_f32 cpu) charging sent received w of
          (Some e, w1) \<Rightarrow> (Some (Wrap ''heartbeat failed'' e), w1)
        | (None, w1) \<Rightarrow> (None, w1)))"

definition pc_ReportBandwidth :: "'w peer_rpc \<Rightarrow> peerConfig \<Rightarrow> int \<Rightarrow> int \<Rightarrow> int \<Rightarrow> peerClient \<Rightarrow> 'w \<Rightarrow> go_err option \<times> 'w" where
  "pc_ReportBandwidth P cfg sent received secs c w =
     (if pc_stopped c then (Some (Err ''client is stopped''), w)
      else (case rp_ReportBandwidth P (pf_NodeID cfg) sent received secs w of
          (Some e, w1) \<Rightarrow> (Some (Wrap ''bandwidth report failed'' e), w1)
        | (None, w1) \<Rightarrow> (None, w1)))"

definition pc_Disconnect :: "'w peer_rpc \<Rightarrow> peerConfig \<Rightarrow> string \<Rightarrow> peerClient \<Rightarrow> 'w \<Rightarrow> go_err option \<times> peerClient \<times> 'w" where
  "pc_Disconnect P cfg reason c w =
     (if pc_stopped c then (None, c, w)
      else (case rp_Disconnect P (pf_NodeID cfg) reason w of (e, w1) \<Rightarrow> (e, c\<lparr>pc_stopped := True\<rparr>, w1)))"

definition pc_Stop :: "peerClient \<Rightarrow> peerClient" where
  "pc_Stop c = c\<lparr>pc_stopped := True\<rparr>"

section \<open>The node\<close>

record bwSnapshot =
  sb_BytesSent :: int
  sb_BytesReceived :: int
  sb_DurationSeconds :: int

record nodeStatus =
  st_NodeID :: string
  st_Online :: bool
  st_Battery :: int
  st_IsCharging :: bool
  st_CPUUsage :: f64
  st_IP :: string

text \<open>\<open>sd_node\<close> is the address and the last sighting of the node once it is made; the channels are their buffers.\<close>

record peerSDK =
  sd_config :: peerConfig
  sd_node :: "(string \<times> time) option"
  sd_cancelled :: bool
  sd_isConnected :: bool
  sd_statusCh :: "nodeStatus list"
  sd_reconnCh :: nat
  sd_client :: "peerClient option"
  sd_bwCh :: "bwSnapshot list"

definition NewPeerSDK :: "peerConfig \<Rightarrow> peerSDK" where
  "NewPeerSDK cfg = \<lparr>sd_config = cfg, sd_node = None, sd_cancelled = False, sd_isConnected = False, sd_statusCh = [],
     sd_reconnCh = 0, sd_client = None, sd_bwCh = []\<rparr>"

definition sdk_ReportBandwidth :: "int \<Rightarrow> int \<Rightarrow> int \<Rightarrow> peerSDK \<Rightarrow> peerSDK" where
  "sdk_ReportBandwidth sent received secs p =
     (if length (sd_bwCh p) < 10
      then p\<lparr>sd_bwCh := sd_bwCh p @ [\<lparr>sb_BytesSent = sent, sb_BytesReceived = received, sb_DurationSeconds = secs\<rparr>]\<rparr> else p)"

definition TriggerReconnect :: "peerSDK \<Rightarrow> peerSDK" where
  "TriggerReconnect p = (if sd_reconnCh p < 1 then p\<lparr>sd_reconnCh := sd_reconnCh p + 1\<rparr> else p)"

text \<open>\<open>Start\<close>, up to the goroutines it starts: the telemetry loop when there is an endpoint, the monitor and the reconnector.\<close>

definition sdk_Start ::
    "'w peer_rpc \<Rightarrow> device \<Rightarrow> string \<Rightarrow> time \<Rightarrow> peerSDK \<times> 'w \<Rightarrow> go_err option \<times> peerSDK \<times> 'w" where
  "sdk_Start P d localIP now = (\<lambda>(p, w).
     if \<not> checkEligibility (sd_config p) d then (Some (Err ''node does not meet eligibility requirements''), p, w)
     else (let p1 = p\<lparr>sd_node := Some (localIP, now)\<rparr>
       in if pf_GatewayEndpoint (sd_config p) = '''' then (None, p1\<lparr>sd_isConnected := True\<rparr>, w)
          else (case NewPeerClient P (sd_config p) w of
              (Inl e, w1) \<Rightarrow> (Some (Wrap ''failed to create peer client'' e), p1, w1)
            | (Inr c, w1) \<Rightarrow> (case pc_Connect P (sd_config p) c w1 of
                (Some e, c', w2) \<Rightarrow> (Some (Wrap ''failed to connect to gateway'' e), p1\<lparr>sd_client := None\<rparr>, w2)
              | (None, c', w2) \<Rightarrow> (None, p1\<lparr>sd_client := Some c', sd_isConnected := True\<rparr>, w2)))))"

definition sdk_Stop :: "'w peer_rpc \<Rightarrow> peerSDK \<times> 'w \<Rightarrow> peerSDK \<times> 'w" where
  "sdk_Stop P = (\<lambda>(p, w). case sd_client p of
       None \<Rightarrow> (p\<lparr>sd_cancelled := True, sd_isConnected := False\<rparr>, w)
     | Some c \<Rightarrow> (case pc_Disconnect P (sd_config p) ''user_disconnect'' c w of (_, c', w1) \<Rightarrow>
         (p\<lparr>sd_client := Some (pc_Stop c'), sd_cancelled := True, sd_isConnected := False\<rparr>, w1)))"

text \<open>The telemetry loop: a report taken from the channel, and a tick.\<close>

definition telemetry_report :: "'w peer_rpc \<Rightarrow> bwSnapshot \<Rightarrow> peerSDK \<times> 'w \<Rightarrow> peerSDK \<times> 'w" where
  "telemetry_report P b = (\<lambda>(p, w). case sd_client p of None \<Rightarrow> (p, w)
     | Some c \<Rightarrow> (p, snd (pc_ReportBandwidth P (sd_config p) (sb_BytesSent b) (sb_BytesReceived b) (sb_DurationSeconds b) c w)))"

definition telemetry_tick :: "'w peer_rpc \<Rightarrow> (f64 \<Rightarrow> f64) \<Rightarrow> device \<Rightarrow> peerSDK \<times> 'w \<Rightarrow> peerSDK \<times> 'w" where
  "telemetry_tick P to_f32 d = (\<lambda>(p, w). case sd_client p of None \<Rightarrow> (p, w)
     | Some c \<Rightarrow> (case pc_Heartbeat P to_f32 (sd_config p) (dv_battery d) (dv_cpu d) (dv_charging d) 0 0 c w of
         (None, w1) \<Rightarrow> (p, w1)
       | (Some e, w1) \<Rightarrow> (TriggerReconnect p, w1)))"

text \<open>The status; \<open>reportStatus\<close> panics when there is no node, which \<open>Start\<close> makes before it starts the monitor.\<close>

definition reportStatus :: "device \<Rightarrow> peerSDK \<Rightarrow> peerSDK option" where
  "reportStatus d p = (case sd_node p of None \<Rightarrow> None
     | Some (addr, _) \<Rightarrow> Some (if length (sd_statusCh p) < 10
         then p\<lparr>sd_statusCh := sd_statusCh p @ [\<lparr>st_NodeID = pf_NodeID (sd_config p), st_Online = sd_isConnected p, st_Battery = dv_battery d,
            st_IsCharging = dv_charging d, st_CPUUsage = dv_cpu d, st_IP = addr\<rparr>]\<rparr> else p))"

definition GetStatus :: "device \<Rightarrow> peerSDK \<Rightarrow> nodeStatus" where
  "GetStatus d p = (case sd_node p of
       None \<Rightarrow> \<lparr>st_NodeID = '''', st_Online = False, st_Battery = 0, st_IsCharging = False, st_CPUUsage = f_int 0, st_IP = ''''\<rparr>
     | Some (addr, _) \<Rightarrow> \<lparr>st_NodeID = pf_NodeID (sd_config p), st_Online = sd_isConnected p, st_Battery = dv_battery d,
         st_IsCharging = dv_charging d, st_CPUUsage = dv_cpu d, st_IP = addr\<rparr>)"

section \<open>The reconnector\<close>

text \<open>One attempt, after the pause: what becomes of the node and of the pause.\<close>

definition maxBackoff :: duration where "maxBackoff = 5 * go_minute"

definition reconnect_attempt ::
    "'w peer_rpc \<Rightarrow> device \<Rightarrow> time \<Rightarrow> duration \<Rightarrow> peerSDK \<times> 'w \<Rightarrow> duration \<times> peerSDK \<times> 'w" where
  "reconnect_attempt P d now backoff = (\<lambda>(p, w).
     if checkEligibility (sd_config p) d then
       (case NewPeerClient P (sd_config p) w of
          (Inl e, w1) \<Rightarrow> (backoff, TriggerReconnect p, w1)
        | (Inr c, w1) \<Rightarrow> (case pc_Connect P (sd_config p) c w1 of
            (Some e, c', w2) \<Rightarrow> (backoff, TriggerReconnect p, w2)
          | (None, c', w2) \<Rightarrow> (go_second, p\<lparr>sd_client := Some c', sd_isConnected := True,
              sd_node := map_option (\<lambda>(addr, _). (addr, now)) (sd_node p)\<rparr>, w2)))
     else (let b = i64 (backoff * 2) in (if b > maxBackoff then maxBackoff else b, TriggerReconnect p, w)))"

text \<open>Where the reconnector is: at its \<open>select\<close>, or asleep before an attempt; gone when the context was done.\<close>

datatype rc_loc = RcSelect | RcSleep | RcGone

record 'w sdk_sys =
  sy_sdk :: peerSDK
  sy_world :: 'w
  sy_rc :: rc_loc
  sy_backoff :: duration

text \<open>
  The steps between a successful \<open>Start\<close> and the next: the owner reports bandwidth, asks for a reconnection or
  stops; the telemetry loop and the monitor work until the context is done; the reconnector takes a request,
  drops it or sleeps on it, and makes its attempt. A \<open>select\<close> that could also see the end of the context may choose either.
\<close>

inductive sdk_step :: "'w peer_rpc \<Rightarrow> (f64 \<Rightarrow> f64) \<Rightarrow> 'w sdk_sys \<Rightarrow> 'w sdk_sys \<Rightarrow> bool" for P to_f32 where
  sdk_bandwidth: "sdk_step P to_f32 s (s\<lparr>sy_sdk := sdk_ReportBandwidth a b c (sy_sdk s)\<rparr>)"
| sdk_trigger: "sdk_step P to_f32 s (s\<lparr>sy_sdk := TriggerReconnect (sy_sdk s)\<rparr>)"
| sdk_stop: "sdk_Stop P (sy_sdk s, sy_world s) = (p, w) \<Longrightarrow> sdk_step P to_f32 s (s\<lparr>sy_sdk := p, sy_world := w\<rparr>)"
| sdk_beat: "telemetry_tick P to_f32 d (sy_sdk s, sy_world s) = (p, w) \<Longrightarrow> sdk_step P to_f32 s (s\<lparr>sy_sdk := p, sy_world := w\<rparr>)"
| sdk_report: "sd_bwCh (sy_sdk s) = x # xs \<Longrightarrow> telemetry_report P x ((sy_sdk s)\<lparr>sd_bwCh := xs\<rparr>, sy_world s) = (p, w) \<Longrightarrow>
     sdk_step P to_f32 s (s\<lparr>sy_sdk := p, sy_world := w\<rparr>)"
| sdk_status: "reportStatus d (sy_sdk s) = Some p \<Longrightarrow> sdk_step P to_f32 s (s\<lparr>sy_sdk := p\<rparr>)"
| sdk_read: "sd_statusCh (sy_sdk s) = x # xs \<Longrightarrow> sdk_step P to_f32 s (s\<lparr>sy_sdk := (sy_sdk s)\<lparr>sd_statusCh := xs\<rparr>\<rparr>)"
| rc_done: "sy_rc s = RcSelect \<Longrightarrow> sd_cancelled (sy_sdk s) \<Longrightarrow> sdk_step P to_f32 s (s\<lparr>sy_rc := RcGone\<rparr>)"
| rc_take: "sy_rc s = RcSelect \<Longrightarrow> sd_reconnCh (sy_sdk s) = Suc n \<Longrightarrow>
     sdk_step P to_f32 s (s\<lparr>sy_sdk := (sy_sdk s)\<lparr>sd_reconnCh := n\<rparr>,
       sy_rc := (if sd_isConnected (sy_sdk s) then RcSelect else RcSleep)\<rparr>)"
| rc_try: "sy_rc s = RcSleep \<Longrightarrow> reconnect_attempt P d now (sy_backoff s) (sy_sdk s, sy_world s) = (b, p, w) \<Longrightarrow>
     sdk_step P to_f32 s (s\<lparr>sy_sdk := p, sy_world := w, sy_rc := RcSelect, sy_backoff := b\<rparr>)"

text \<open>What is reachable once \<open>Start\<close> has succeeded on a new SDK.\<close>

inductive sdk_reach :: "'w peer_rpc \<Rightarrow> (f64 \<Rightarrow> f64) \<Rightarrow> peerSDK \<Rightarrow> 'w sdk_sys \<Rightarrow> bool" for P to_f32 p0 where
  sdk_started: "sdk_Start P d addr now (NewPeerSDK cfg, w0) = (None, p0, w) \<Longrightarrow>
     sdk_reach P to_f32 p0 \<lparr>sy_sdk = p0, sy_world = w, sy_rc = RcSelect, sy_backoff = go_second\<rparr>"
| sdk_more: "sdk_reach P to_f32 p0 s \<Longrightarrow> sdk_step P to_f32 s s' \<Longrightarrow> sdk_reach P to_f32 p0 s'"

section \<open>Consent\<close>

record 'w consentManager =
  cm_enabled :: bool
  cm_onEnable :: "('w \<Rightarrow> go_err option \<times> 'w) option"
  cm_onDisable :: "('w \<Rightarrow> go_err option \<times> 'w) option"

definition NewConsentManager :: "('w \<Rightarrow> go_err option \<times> 'w) option \<Rightarrow> ('w \<Rightarrow> go_err option \<times> 'w) option \<Rightarrow> 'w consentManager" where
  "NewConsentManager onEnable onDisable = \<lparr>cm_enabled = False, cm_onEnable = onEnable, cm_onDisable = onDisable\<rparr>"

definition run_callback :: "('w \<Rightarrow> go_err option \<times> 'w) option \<Rightarrow> 'w \<Rightarrow> go_err option \<times> 'w" where
  "run_callback f w = (case f of None \<Rightarrow> (None, w) | Some g \<Rightarrow> g w)"

definition cm_Enable :: "'w consentManager \<times> 'w \<Rightarrow> go_err option \<times> 'w consentManager \<times> 'w" where
  "cm_Enable = (\<lambda>(c, w). if cm_enabled c then (None, c, w)
     else (case run_callback (cm_onEnable c) w of (Some e, w1) \<Rightarrow> (Some e, c, w1) | (None, w1) \<Rightarrow> (None, c\<lparr>cm_enabled := True\<rparr>, w1)))"

definition cm_Disable :: "'w consentManager \<times> 'w \<Rightarrow> go_err option \<times> 'w consentManager \<times> 'w" where
  "cm_Disable = (\<lambda>(c, w). if \<not> cm_enabled c then (None, c, w)
     else (case run_callback (cm_onDisable c) w of (Some e, w1) \<Rightarrow> (Some e, c, w1) | (None, w1) \<Rightarrow> (None, c\<lparr>cm_enabled := False\<rparr>, w1)))"

text \<open>The callbacks run only when consent changes, and consent changes only when they succeed.\<close>

lemma consent_changes:
  "cm_Enable (c, w) = (e, c', w') \<Longrightarrow> cm_enabled c' = (cm_enabled c \<or> e = None) \<and> (if cm_enabled c then w' = w else run_callback (cm_onEnable c) w = (e, w'))"
  "cm_Disable (c, w) = (e, c', w') \<Longrightarrow> cm_enabled c' = (cm_enabled c \<and> e \<noteq> None) \<and> (if cm_enabled c then run_callback (cm_onDisable c) w = (e, w') else w' = w)"
  by (auto simp: cm_Enable_def cm_Disable_def split: if_splits prod.splits option.splits)

section \<open>What the goroutines do\<close>

text \<open>Until \<open>Stop\<close>, the node is connected with the client that \<open>Start\<close> made, and the reconnector only drops requests.\<close>

definition sdk_calm :: "peerSDK \<Rightarrow> 'w sdk_sys \<Rightarrow> bool" where
  "sdk_calm p0 s \<longleftrightarrow> (if sd_cancelled (sy_sdk s) then True
     else sd_isConnected (sy_sdk s) \<and> sd_client (sy_sdk s) = sd_client p0 \<and> sy_rc s = RcSelect)"

lemma sdk_sends_keep [simp]:
  "sd_cancelled (TriggerReconnect p) = sd_cancelled p" "sd_isConnected (TriggerReconnect p) = sd_isConnected p"
  "sd_client (TriggerReconnect p) = sd_client p"
  "sd_cancelled (sdk_ReportBandwidth a b c p) = sd_cancelled p" "sd_isConnected (sdk_ReportBandwidth a b c p) = sd_isConnected p"
  "sd_client (sdk_ReportBandwidth a b c p) = sd_client p"
  by (simp_all add: TriggerReconnect_def sdk_ReportBandwidth_def)

lemma telemetry_keeps:
  assumes "telemetry_tick P f d (p, w) = (p', w') \<or> telemetry_report P b (p, w) = (p', w')"
  shows "sd_cancelled p' = sd_cancelled p" "sd_isConnected p' = sd_isConnected p" "sd_client p' = sd_client p"
  using assms by (auto simp: telemetry_tick_def telemetry_report_def split: option.splits prod.splits)

lemma sdk_Stop_cancels: "sdk_Stop P (p, w) = (p', w') \<Longrightarrow> sd_cancelled p'"
  by (auto simp: sdk_Stop_def split: option.splits prod.splits)

lemma reportStatus_keeps:
  "reportStatus d p = Some p' \<Longrightarrow> sd_cancelled p' = sd_cancelled p \<and> sd_isConnected p' = sd_isConnected p \<and> sd_client p' = sd_client p"
  by (cases "length (sd_statusCh p) < 10") (auto simp: reportStatus_def split: option.splits)

lemma attempt_keeps_cancelled:
  "reconnect_attempt P d now b (p, w) = (b', p', w') \<Longrightarrow> sd_cancelled p' = sd_cancelled p"
  by (auto simp: reconnect_attempt_def Let_def split: if_splits sum.splits prod.splits option.splits)

lemma sdk_step_calm: "sdk_step P f s s' \<Longrightarrow> sdk_calm p0 s \<Longrightarrow> sdk_calm p0 s'"
proof (induction rule: sdk_step.induct)
  case (sdk_beat d s p w)
  then show ?case using telemetry_keeps [OF disjI1 [OF sdk_beat(1)]] by (simp add: sdk_calm_def)
next
  case (sdk_report s x xs p w)
  then show ?case using telemetry_keeps [OF disjI2 [OF sdk_report(2)]] by (simp add: sdk_calm_def)
next
  case (rc_try s d now b p w)
  then show ?case using attempt_keeps_cancelled [OF rc_try(2)] by (simp add: sdk_calm_def split: if_splits)
qed (auto simp: sdk_calm_def dest: sdk_Stop_cancels reportStatus_keeps split: if_splits)

lemma sdk_Start_calm:
  "sdk_Start P d addr now (NewPeerSDK cfg, w0) = (None, p0, w) \<Longrightarrow> \<not> sd_cancelled p0 \<and> sd_isConnected p0"
  by (auto simp: sdk_Start_def NewPeerSDK_def Let_def split: if_splits sum.splits prod.splits option.splits)

section \<open>Properties\<close>

text \<open>C22: A running node never reconnects. Once started and until it is stopped, whatever heartbeats fail and
  however often a reconnection is asked for, in any interleaving, the node reports itself connected, keeps the
  client and the session that \<open>Start\<close> made, and the reconnector makes no attempt.\<close>

theorem never_reconnects:
  assumes "sdk_reach P to_f32 p0 s" and "\<not> sd_cancelled (sy_sdk s)"
  shows "sd_isConnected (sy_sdk s) \<and> sd_client (sy_sdk s) = sd_client p0 \<and> sy_rc s = RcSelect"
proof -
  have "sdk_calm p0 s"
    using assms(1) by (induction rule: sdk_reach.induct) (auto simp: sdk_calm_def [of _ "\<lparr>sy_sdk = _, sy_world = _, sy_rc = _, sy_backoff = _\<rparr>"]
        dest: sdk_Start_calm sdk_step_calm)
  with assms(2) show ?thesis by (simp add: sdk_calm_def)
qed

text \<open>A gateway that accepts everything but heartbeats.\<close>

definition deaf_rpc :: "unit peer_rpc" where
  "deaf_rpc = \<lparr>rp_Dial = (\<lambda>_ w. (None, w)), rp_Connect = (\<lambda>_ w. (Inr (True, '''', ''s''), w)),
     rp_Heartbeat = (\<lambda>_ _ _ _ _ _ w. (Some (Err ''down''), w)), rp_ReportBandwidth = (\<lambda>_ _ _ _ w. (None, w)),
     rp_Disconnect = (\<lambda>_ _ w. (None, w))\<rparr>"

definition demo_device :: device where
  "demo_device = \<lparr>dv_battery = 50, dv_charging = True, dv_cpu = Fin 0, dv_unmetered = True\<rparr>"

definition demo_config :: peerConfig where
  "demo_config = \<lparr>pf_NodeID = ''n'', pf_GatewayEndpoint = ''gw:1'', pf_MTLSEnabled = False, pf_MinBattery = 0, pf_MaxCPU = Fin 0\<rparr>"

definition demo_sdk :: "nat \<Rightarrow> bool \<Rightarrow> bool \<Rightarrow> bool \<Rightarrow> peerSDK" where
  "demo_sdk k cancelled stopped live = \<lparr>sd_config = demo_config, sd_node = Some (''ip'', 5), sd_cancelled = cancelled, sd_isConnected = live,
     sd_statusCh = [], sd_reconnCh = k, sd_client = Some \<lparr>pc_sessionID = ''s'', pc_stopped = stopped\<rparr>, sd_bwCh = []\<rparr>"

definition demo_sys :: "peerSDK \<Rightarrow> rc_loc \<Rightarrow> unit sdk_sys" where
  "demo_sys p l = \<lparr>sy_sdk = p, sy_world = (), sy_rc = l, sy_backoff = go_second\<rparr>"

lemmas demo_sdk_defs = demo_sdk_def demo_sys_def demo_config_def demo_device_def deaf_rpc_def

lemma demo_beat: "sdk_reach deaf_rpc (\<lambda>x. x) (demo_sdk 0 False False True) (demo_sys (demo_sdk 1 False False True) RcSelect)"
proof -
  have s: "sdk_Start deaf_rpc demo_device ''ip'' 5 (NewPeerSDK demo_config, ()) = (None, demo_sdk 0 False False True, ())"
    by (simp add: demo_sdk_defs sdk_Start_def NewPeerSDK_def checkEligibility_def Let_def NewPeerClient_def pc_Connect_def)
  have "telemetry_tick deaf_rpc (\<lambda>x. x) demo_device (demo_sdk 0 False False True, ()) = (demo_sdk 1 False False True, ())"
    by (simp add: demo_sdk_defs telemetry_tick_def pc_Heartbeat_def TriggerReconnect_def)
  then have "sdk_step deaf_rpc (\<lambda>x. x) (demo_sys (demo_sdk 0 False False True) RcSelect) (demo_sys (demo_sdk 1 False False True) RcSelect)"
    using sdk_beat [of deaf_rpc "\<lambda>x. x" demo_device "demo_sys (demo_sdk 0 False False True) RcSelect"] by (simp add: demo_sys_def)
  with sdk_started [OF s] show ?thesis unfolding demo_sys_def by (rule sdk_more)
qed

theorem never_reconnects_witness:
  "sd_isConnected (demo_sdk 1 False False True) \<and> sd_client (demo_sdk 1 False False True) = sd_client (demo_sdk 0 False False True)"
  using never_reconnects [OF demo_beat] by (simp add: demo_sys_def demo_sdk_def)

text \<open>A stopped node can reconnect. The owner disconnects while a failed heartbeat's request is pending; the
  reconnector's \<open>select\<close> may take the request instead of the end of the context, and finding the node
  disconnected it connects again: the node is stopped, and connected with a live client.\<close>

theorem stopped_node_reconnects:
  "\<exists>s. sdk_reach deaf_rpc (\<lambda>x. x) (demo_sdk 0 False False True) s \<and> sd_cancelled (sy_sdk s) \<and> sd_isConnected (sy_sdk s) \<and>
     (\<exists>c. sd_client (sy_sdk s) = Some c \<and> \<not> pc_stopped c)"
proof -
  let ?reach = "sdk_reach deaf_rpc (\<lambda>x. x) (demo_sdk 0 False False True)"
  have "sdk_Stop deaf_rpc (demo_sdk 1 False False True, ()) = (demo_sdk 1 True True False, ())"
    by (simp add: demo_sdk_defs sdk_Stop_def pc_Disconnect_def pc_Stop_def)
  then have "sdk_step deaf_rpc (\<lambda>x. x) (demo_sys (demo_sdk 1 False False True) RcSelect) (demo_sys (demo_sdk 1 True True False) RcSelect)"
    using sdk_stop [of deaf_rpc "demo_sys (demo_sdk 1 False False True) RcSelect"] by (simp add: demo_sys_def)
  then have 1: "?reach (demo_sys (demo_sdk 1 True True False) RcSelect)" by (rule sdk_more [OF demo_beat])
  have "sdk_step deaf_rpc (\<lambda>x. x) (demo_sys (demo_sdk 1 True True False) RcSelect) (demo_sys (demo_sdk 0 True True False) RcSleep)"
    using rc_take [of "demo_sys (demo_sdk 1 True True False) RcSelect" 0 deaf_rpc] by (simp add: demo_sys_def demo_sdk_def)
  then have 2: "?reach (demo_sys (demo_sdk 0 True True False) RcSleep)" by (rule sdk_more [OF 1])
  have "reconnect_attempt deaf_rpc demo_device 5 go_second (demo_sdk 0 True True False, ()) = (go_second, demo_sdk 0 True False True, ())"
    by (simp add: demo_sdk_defs reconnect_attempt_def checkEligibility_def NewPeerClient_def pc_Connect_def)
  then have "sdk_step deaf_rpc (\<lambda>x. x) (demo_sys (demo_sdk 0 True True False) RcSleep) (demo_sys (demo_sdk 0 True False True) RcSelect)"
    using rc_try [of "demo_sys (demo_sdk 0 True True False) RcSleep" deaf_rpc demo_device 5] by (simp add: demo_sys_def)
  then have "?reach (demo_sys (demo_sdk 0 True False True) RcSelect)" by (rule sdk_more [OF 2])
  then show ?thesis by (intro exI [of _ "demo_sys (demo_sdk 0 True False True) RcSelect"]) (simp add: demo_sys_def demo_sdk_def)
qed

end
