(* ===== verification/Os_Metrics.thy ===== *)
theory Os_Metrics
  imports Peer_Sdk Request_Id
begin

text \<open>
  What a node measures of its own machine: \<open>peer-sdk/metrics_linux.go\<close>, \<open>metrics_darwin.go\<close>,
  \<open>metrics_windows.go\<close> and \<open>metrics_default.go\<close>. The texts the operating system gives (files under \<open>/sys\<close> and
  \<open>/proc\<close>, the output of commands) are arguments, None where reading fails; what the code makes of them is modelled.
\<close>

section \<open>Texts\<close>

abbreviation newline :: char where "newline \<equiv> char_of (10 :: nat)"

text \<open>\<open>strings.Fields\<close> on ASCII text.\<close>

fun fields_from :: "string \<Rightarrow> string \<Rightarrow> string list" where
  "fields_from w [] = (if w = [] then [] else [rev w])"
| "fields_from w (c # cs) =
     (if is_space c then (if w = [] then [] else [rev w]) @ fields_from [] cs else fields_from (c # w) cs)"

text \<open>The value \<open>strconv.ParseUint\<close> returns in base ten, its error left aside.\<close>

fun uint_from :: "nat \<Rightarrow> string \<Rightarrow> nat" where
  "uint_from n [] = n"
| "uint_from n (c # cs) = (if \<not> is_digit c then 0
     else let m = n * 10 + (of_char c - 48) in if 2 ^ 64 \<le> m then 2 ^ 64 - 1 else uint_from m cs)"

text \<open>\<open>strconv.ParseFloat\<close> of a text that consists of digits and points.\<close>

definition parse_decimal :: "string \<Rightarrow> f64 option" where
  "parse_decimal s =
     (let a = takeWhile is_digit s; r = dropWhile is_digit s; b = drop 1 r
      in if a @ b = [] \<or> (r \<noteq> [] \<and> hd r \<noteq> CHR ''.'') then None
         else case parse_digits 0 (a @ b) of None \<Rightarrow> None
           | Some n \<Rightarrow> (case f_round (of_nat n / 10 ^ length b) of Fin x \<Rightarrow> Some (Fin x) | _ \<Rightarrow> None))"

section \<open>Linux\<close>

definition getBatteryLevel :: "string option \<Rightarrow> int" where
  "getBatteryLevel capacity = (case capacity of None \<Rightarrow> 100
     | Some s \<Rightarrow> (case parse_int (trim_space s) of (level, ok) \<Rightarrow> if ok then level else 100))"

definition isCharging :: "string option \<Rightarrow> bool" where
  "isCharging status = (case status of None \<Rightarrow> True | Some s \<Rightarrow> trim_space s = ''Charging'')"

definition readCPUStat :: "string option \<Rightarrow> 64 word \<times> 64 word" where
  "readCPUStat data = (case data of None \<Rightarrow> (0, 0)
     | Some s \<Rightarrow> (case split_char newline s of [] \<Rightarrow> (0, 0)
         | l # _ \<Rightarrow> (let fs = fields_from [] l
             in if length fs < 5 \<or> hd fs \<noteq> ''cpu'' then (0, 0)
                else let vals = map (\<lambda>f. of_nat (uint_from 0 f)) (tl fs)
                     in ((if 3 < length vals then vals ! 3 else 0), foldl (+) 0 vals))))"

definition getCPUUsage :: "string option \<Rightarrow> string option \<Rightarrow> f64" where
  "getCPUUsage before after =
     (let (idle1, total1) = readCPUStat before; (idle2, total2) = readCPUStat after;
          idleDelta = f_int (uint (idle2 - idle1)); totalDelta = f_int (uint (total2 - total1))
      in if f_eq totalDelta (f_int 0) then f_int 0
         else let usage = f_mul (Fin 100) (f_sub (Fin 1) (f_div idleDelta totalDelta))
              in if f_lt usage (f_int 0) then f_int 0 else usage)"

text \<open>Each entry of \<open>/sys/class/net\<close> is its name and the text of its type.\<close>

fun wifi_loop :: "(string \<times> string option) list \<Rightarrow> bool" where
  "wifi_loop [] = True"
| "wifi_loop ((name, type) # es) =
     (if name = ''lo'' then wifi_loop es
      else case type of None \<Rightarrow> wifi_loop es
        | Some t \<Rightarrow> if trim_space t = ''1'' then True else wifi_loop es)"

definition isOnUnmeteredWiFi :: "(string \<times> string option) list option \<Rightarrow> bool" where
  "isOnUnmeteredWiFi entries = (case entries of None \<Rightarrow> True | Some es \<Rightarrow> wifi_loop es)"

definition linux_device ::
  "string option \<Rightarrow> string option \<Rightarrow> string option \<Rightarrow> string option \<Rightarrow> (string \<times> string option) list option \<Rightarrow> device" where
  "linux_device capacity status stat1 stat2 net =
     \<lparr>dv_battery = getBatteryLevel capacity, dv_charging = isCharging status,
      dv_cpu = getCPUUsage stat1 stat2, dv_unmetered = isOnUnmeteredWiFi net\<rparr>"

section \<open>macOS\<close>

text \<open>The digits that stand right before position \<open>i\<close>.\<close>

definition run_before :: "(char \<Rightarrow> bool) \<Rightarrow> nat \<Rightarrow> string \<Rightarrow> string" where
  "run_before p i s = rev (takeWhile p (rev (take i s)))"

fun batt_loop :: "string list \<Rightarrow> int" where
  "batt_loop [] = 100"
| "batt_loop (line # ls) =
     (case str_index line ''%'' of None \<Rightarrow> batt_loop ls
      | Some idx \<Rightarrow> (case parse_int (run_before is_digit idx line) of
          (level, ok) \<Rightarrow> if ok then level else batt_loop ls))"

definition darwin_getBatteryLevel :: "string option \<Rightarrow> int" where
  "darwin_getBatteryLevel out = (case out of None \<Rightarrow> 100 | Some s \<Rightarrow> batt_loop (split_char newline s))"

definition darwin_isCharging :: "string option \<Rightarrow> bool" where
  "darwin_isCharging out = (case out of None \<Rightarrow> True
     | Some s \<Rightarrow> str_contains s ''AC Power'' \<or> str_contains s ''charging'')"

text \<open>The idle share that one line of \<open>top\<close> gives.\<close>

definition line_idle :: "string \<Rightarrow> f64 option" where
  "line_idle line =
     (if str_contains line ''CPU usage''
      then (case str_index line ''idle'' of None \<Rightarrow> None
        | Some idx \<Rightarrow> if 0 < idx then parse_decimal (run_before (\<lambda>c. is_digit c \<or> c = CHR ''.'') (idx - 1) line) else None)
      else None)"

fun cpu_loop :: "string list \<Rightarrow> f64" where
  "cpu_loop [] = Fin 10"
| "cpu_loop (line # ls) = (case line_idle line of Some idle \<Rightarrow> f_sub (Fin 100) idle | None \<Rightarrow> cpu_loop ls)"

definition darwin_getCPUUsage :: "string option \<Rightarrow> f64" where
  "darwin_getCPUUsage out = (case out of None \<Rightarrow> Fin 10 | Some s \<Rightarrow> cpu_loop (split_char newline s))"

definition darwin_device :: "string option \<Rightarrow> string option \<Rightarrow> device" where
  "darwin_device batt top_out =
     \<lparr>dv_battery = darwin_getBatteryLevel batt, dv_charging = darwin_isCharging batt,
      dv_cpu = darwin_getCPUUsage top_out, dv_unmetered = True\<rparr>"

section \<open>Windows and others\<close>

fun charge_loop :: "string list \<Rightarrow> int" where
  "charge_loop [] = 100"
| "charge_loop (l # ls) = (let line = trim_space l
     in if has_prefix line ''EstimatedChargeRemaining=''
        then (case parse_int (trim_space (trim_prefix line ''EstimatedChargeRemaining='')) of
          (level, ok) \<Rightarrow> if ok then level else charge_loop ls)
        else charge_loop ls)"

definition windows_getBatteryLevel :: "string option \<Rightarrow> int" where
  "windows_getBatteryLevel out = (case out of None \<Rightarrow> 100 | Some s \<Rightarrow> charge_loop (split_char newline s))"

fun status_loop :: "string list \<Rightarrow> bool" where
  "status_loop [] = True"
| "status_loop (l # ls) = (let line = trim_space l
     in if has_prefix line ''BatteryStatus=''
        then (let status = fst (parse_int (trim_space (trim_prefix line ''BatteryStatus='')))
              in status = 2 \<or> status = 6)
        else status_loop ls)"

definition windows_isCharging :: "string option \<Rightarrow> bool" where
  "windows_isCharging out = (case out of None \<Rightarrow> True | Some s \<Rightarrow> status_loop (split_char newline s))"

definition default_device :: device where
  "default_device = \<lparr>dv_battery = 100, dv_charging = True, dv_cpu = Fin 10, dv_unmetered = True\<rparr>"

section \<open>Lemmas\<close>

lemma round64_power: "round64 (2 ^ k) = 2 ^ k"
proof -
  have e: "(2::rat) ^ k / 2 powi (int k - 52) = of_int (2 ^ 52)"
    by (simp add: power_int_diff)
  have "round64 (2 ^ k) = of_int (rne ((2::rat) ^ k / 2 powi (int k - 52))) * 2 powi (int k - 52)"
    by (rule round64_eval) (simp_all add: power_int_add)
  then show ?thesis unfolding e rne_of_int by (simp add: power_int_diff)
qed

lemma round64_64 [simp]: "round64 18446744073709551616 = 18446744073709551616"
  using round64_power [of 64] by simp

text \<open>Values below \<open>2^200\<close> are far from the infinities.\<close>

lemma f_round_200:
  assumes "\<bar>x\<bar> \<le> 2 ^ 200"
  shows "f_round x = Fin (round64 x)" and "\<bar>round64 x\<bar> \<le> 2 ^ 200"
proof -
  have "round64 x \<le> round64 (2 ^ 200)" and "round64 (- (2 ^ 200)) \<le> round64 x"
    using assms by (intro round64_mono; linarith)+
  then show b: "\<bar>round64 x\<bar> \<le> 2 ^ 200" unfolding round64_minus round64_power by linarith
  have "(2::rat) ^ 200 < 2 ^ 1024" by (rule power_strict_increasing) simp_all
  with b show "f_round x = Fin (round64 x)" by (simp add: f_round_def Let_def abs_le_iff)
qed

lemma word_float:
  fixes w :: "64 word"
  obtains r where "f_int (uint w) = Fin r" "0 \<le> r" "r \<le> 2 ^ 64" "w \<noteq> 0 \<Longrightarrow> 1 \<le> r"
proof -
  let ?u = "of_int (uint w) :: rat"
  have "uint w \<le> 2 ^ 64" using uint_bounded [of w] by simp
  then have le: "?u \<le> 2 ^ 64" by (metis of_int_le_iff of_int_numeral of_int_power)
  have ge: "0 \<le> ?u" using uint_nonnegative [of w] by (simp only: of_int_0_le_iff)
  have "(2::rat) ^ 64 \<le> 2 ^ 200" by (rule power_increasing) simp_all
  with le ge have small: "\<bar>?u\<bar> \<le> 2 ^ 200" by linarith
  show thesis
  proof (rule that [of "round64 ?u"])
    show "f_int (uint w) = Fin (round64 ?u)" using f_round_200 (1) [OF small] by (simp add: f_int_def)
    show "0 \<le> round64 ?u" using ge by (rule round64_nonneg)
    show "round64 ?u \<le> 2 ^ 64" using round64_mono [OF le] unfolding round64_power .
    assume "w \<noteq> 0"
    then have "0 < uint w" using uint_nonnegative [of w] uint_0_iff [of w] by linarith
    then have "(1::rat) \<le> ?u" by (metis int_one_le_iff_zero_less of_int_1_le_iff)
    from round64_mono [OF this] show "1 \<le> round64 ?u" using round64_power [of 0] by simp
  qed
qed

text \<open>The quotient of two deltas and the share computed from it.\<close>

lemma share_Fin:
  fixes a b :: rat
  assumes "0 \<le> a" "a \<le> 2 ^ 64" "1 \<le> b"
  obtains u where "f_mul (Fin 100) (f_sub (Fin 1) (f_div (Fin a) (Fin b))) = Fin u" "u \<le> 100"
    "b \<le> a \<Longrightarrow> u \<le> 0"
proof -
  have "a / b \<le> a / 1" using assms by (intro divide_left_mono) simp_all
  then have q: "0 \<le> a / b" "a / b \<le> 2 ^ 64" using assms by simp_all
  let ?q = "round64 (a / b)"
  have rq: "0 \<le> ?q" "?q \<le> 2 ^ 64"
    using round64_nonneg [OF q(1)] round64_mono [OF q(2)] unfolding round64_power by auto
  let ?s = "round64 (1 - ?q)"
  have s1: "1 - ?q \<le> 1" "- (2 ^ 64) \<le> 1 - ?q" using rq by simp_all
  have rs: "?s \<le> 1" "- (2 ^ 64) \<le> ?s"
    using round64_mono [OF s1(1)] round64_mono [OF s1(2)] round64_power [of 0]
    by (simp_all add: round64_minus round64_power)
  have big: "(2::rat) ^ 64 \<le> 2 ^ 200" "100 * (2::rat) ^ 64 \<le> 2 ^ 200" by simp_all
  have "f_div (Fin a) (Fin b) = Fin ?q" using assms(3) q big(1) f_round_200 (1) [of "a / b"] by simp
  moreover have "f_sub (Fin 1) (Fin ?q) = Fin ?s"
    using s1 big(1) f_round_200 (1) [of "1 - ?q"] by (simp add: f_sub_def abs_le_iff)
  moreover have "f_mul (Fin 100) (Fin ?s) = Fin (round64 (100 * ?s))"
    using rs big(2) f_round_200 (1) [of "100 * ?s"] by (simp add: abs_le_iff)
  ultimately have e: "f_mul (Fin 100) (f_sub (Fin 1) (f_div (Fin a) (Fin b))) = Fin (round64 (100 * ?s))" by simp
  show thesis
  proof (rule that [OF e])
    show "round64 (100 * ?s) \<le> 100"
      using round64_mono [of "100 * ?s" 100] rs(1) round64_int [of 100] by simp
    assume "b \<le> a"
    then have "1 \<le> a / b" using assms(3) by simp
    then have "1 \<le> ?q" using round64_mono [of 1 "a / b"] round64_power [of 0] by simp
    then have "?s \<le> 0" using round64_mono [of "1 - ?q" 0] by simp
    then show "round64 (100 * ?s) \<le> 0" using round64_mono [of "100 * ?s" 0] by simp
  qed
qed

lemma usage_cases:
  fixes i t :: "64 word"
  assumes "t \<noteq> 0"
  obtains u where "f_mul (Fin 100) (f_sub (Fin 1) (f_div (f_int (uint i)) (f_int (uint t)))) = Fin u"
    "u \<le> 100" "t \<le> i \<Longrightarrow> u \<le> 0"
proof -
  obtain a where a: "f_int (uint i) = Fin a" "0 \<le> a" "a \<le> 2 ^ 64" by (rule word_float)
  obtain b where b: "f_int (uint t) = Fin b" "1 \<le> b" using assms by (metis word_float)
  have le: "t \<le> i \<Longrightarrow> b \<le> a"
  proof -
    assume "t \<le> i"
    then have "round64 (of_int (uint t)) \<le> round64 (of_int (uint i))"
      by (intro round64_mono) (simp only: of_int_le_iff word_le_def)
    with a(1) b(1) show "b \<le> a" by (auto simp: f_int_def f_round_def Let_def split: if_splits)
  qed
  show thesis using share_Fin [OF a(2,3) b(2)] that le unfolding a(1) b(1) by metis
qed

section \<open>What the readings mean\<close>

text \<open>Whatever the two readings are, even when a counter ran backwards or a file could not be read, the usage is a
  percentage.\<close>

theorem cpu_usage_percent: "percent (getCPUUsage before after)"
proof -
  obtain i1 t1 i2 t2 where r: "readCPUStat before = (i1, t1)" "readCPUStat after = (i2, t2)" by (metis surj_pair)
  obtain b where b: "f_int (uint (t2 - t1)) = Fin b" "0 \<le> b" "t2 - t1 \<noteq> 0 \<Longrightarrow> 1 \<le> b" by (metis word_float)
  show ?thesis
  proof (cases "t2 - t1 = 0")
    case True
    then show ?thesis by (simp add: getCPUUsage_def r f_eq_def)
  next
    case False
    then obtain u where u: "f_mul (Fin 100) (f_sub (Fin 1) (f_div (f_int (uint (i2 - i1))) (f_int (uint (t2 - t1))))) = Fin u"
      "u \<le> 100" by (metis usage_cases)
    show ?thesis using u b False by (simp add: getCPUUsage_def r f_eq_def)
  qed
qed

text \<open>A reading that fails after one that succeeded makes the counters run backwards by all they had reached; the
  difference wraps, the share comes out negative and is reported as an idle machine.\<close>

lemma minus_word_mono:
  fixes i t :: "64 word"
  assumes "0 < i" "i \<le> t"
  shows "- t \<le> - i"
proof -
  have m: "uint (- x) = 2 ^ 64 - uint x" if "0 < uint x" for x :: "64 word"
    using that uint_bounded [of x] by (simp add: uint_word_ariths zmod_zminus1_eq_if)
  have it: "0 < uint i" "uint i \<le> uint t" using assms by (simp_all add: word_less_def word_le_def)
  then have "0 < uint t" by linarith
  with it show ?thesis unfolding word_le_def by (simp only: m)
qed

theorem failed_reading_is_idle:
  assumes "0 < fst (readCPUStat before)" and "fst (readCPUStat before) \<le> snd (readCPUStat before)"
  shows "getCPUUsage before None = f_int 0"
proof -
  obtain i t where r: "readCPUStat before = (i, t)" by (metis surj_pair)
  have it: "0 < i" "i \<le> t" using assms by (simp_all add: r)
  then have "- t \<noteq> 0" by auto
  then obtain u where u: "f_mul (Fin 100) (f_sub (Fin 1) (f_div (f_int (uint (- i))) (f_int (uint (- t))))) = Fin u"
    "u \<le> 0" using minus_word_mono [OF it] by (metis usage_cases)
  obtain b where "f_int (uint (- t)) = Fin b" "1 \<le> b" using \<open>- t \<noteq> 0\<close> by (metis word_float)
  with u show ?thesis by (auto simp: getCPUUsage_def readCPUStat_def [of None] r f_eq_def Let_def)
qed

text \<open>Every path of the check for an unmetered network answers yes.\<close>

theorem unmetered_always: "isOnUnmeteredWiFi entries"
proof -
  have "wifi_loop es" for es by (induction es rule: wifi_loop.induct) (auto split: option.splits)
  then show ?thesis by (simp add: isOnUnmeteredWiFi_def split: option.splits)
qed

text \<open>A machine of which nothing can be read takes traffic under every configuration.\<close>

theorem unreadable_machine_eligible: "checkEligibility cfg (linux_device None None None None None)"
proof -
  have "getCPUUsage None None = f_int 0" by (simp add: getCPUUsage_def readCPUStat_def f_eq_def)
  then show ?thesis
    by (auto simp: checkEligibility_def linux_device_def isCharging_def unmetered_always dest: f_lt_asym simp del: f_int_numeral)
qed

text \<open>The word for a battery that drains contains the word that is looked for.\<close>

lemma discharging_is_charging:
  assumes "str_contains s ''discharging''"
  shows "darwin_isCharging (Some s)"
proof -
  have "sublist ''charging'' ''discharging''" by code_simp
  with assms have "str_contains s ''charging''" unfolding str_contains_iff by (meson sublist_order.order_trans)
  then show ?thesis by (simp add: darwin_isCharging_def)
qed

text \<open>The line of \<open>top\<close> puts a percent sign and a space before the word; the position taken for the end of the
  number is that of the space, so the number is the empty text.\<close>

lemma percent_before_idle:
  assumes "\<And>i. str_index line ''idle'' = Some i \<Longrightarrow> has_suffix (take i line) ''% ''"
  shows "line_idle line = None"
proof (cases "str_index line ''idle''")
  case (Some i)
  then obtain u where u: "take i line = u @ ''% ''" using assms by (auto simp: has_suffix_iff suffix_def)
  have "length line = length (take i line @ ''idle'' @ drop (i + length ''idle'') line)"
    using str_index_Some [OF Some] by (rule arg_cong)
  then have "i \<le> length line" by simp
  then have "take (i - 1) line = butlast (take i line)" by (simp add: butlast_take)
  then have "run_before (\<lambda>c. is_digit c \<or> c = CHR ''.'') (i - 1) line = []"
    by (simp add: run_before_def u butlast_append is_digit_def)
  then show ?thesis by (simp add: line_idle_def Some parse_decimal_def)
qed (simp add: line_idle_def)

text \<open>On a Mac neither the battery nor the load is ever a reason to refuse: when the battery's text speaks of
  charging or discharging and \<open>top\<close> writes its shares with a percent sign, the outcome depends on the configured
  limit alone.\<close>

theorem mac_limits_idle:
  assumes "str_contains batt ''discharging''"
    and "\<And>line i. line \<in> set (split_char newline report) \<Longrightarrow> str_index line ''idle'' = Some i \<Longrightarrow>
      has_suffix (take i line) ''% ''"
  shows "checkEligibility cfg (darwin_device (Some batt) (Some report)) \<longleftrightarrow>
    \<not> (f_lt (f_int 0) (pf_MaxCPU cfg) \<and> f_lt (pf_MaxCPU cfg) (Fin 10))"
proof -
  have "cpu_loop ls = Fin 10" if "\<And>l. l \<in> set ls \<Longrightarrow> line_idle l = None" for ls
    using that by (induction ls) simp_all
  moreover have "line_idle l = None" if "l \<in> set (split_char newline report)" for l
    using assms(2) [OF that] by (rule percent_before_idle)
  ultimately have "darwin_getCPUUsage (Some report) = Fin 10" by (simp add: darwin_getCPUUsage_def)
  with discharging_is_charging [OF assms(1)] show ?thesis
    by (simp add: checkEligibility_def darwin_device_def)
qed

lemma mac_limits_idle_witness:
  "\<not> checkEligibility \<lparr>pf_NodeID = ''n'', pf_GatewayEndpoint = ''g'', pf_MTLSEnabled = False, pf_MinBattery = 90, pf_MaxCPU = Fin 5\<rparr>
     (darwin_device (Some ''4%; discharging'') (Some ''CPU usage: 1.0% user, 99.0% idle'')) \<and>
   checkEligibility \<lparr>pf_NodeID = ''n'', pf_GatewayEndpoint = ''g'', pf_MTLSEnabled = False, pf_MinBattery = 90, pf_MaxCPU = Fin 50\<rparr>
     (darwin_device (Some ''4%; discharging'') (Some ''CPU usage: 90.0% user, 10.0% idle''))"
proof -
  have d: "str_contains ''4%; discharging'' ''discharging''" by code_simp
  have u: "has_suffix (take i l) ''% ''"
    if "l \<in> set (split_char newline r)" "str_index l ''idle'' = Some i"
      "r = ''CPU usage: 1.0% user, 99.0% idle'' \<or> r = ''CPU usage: 90.0% user, 10.0% idle''" for l i r
  proof -
    have "\<forall>r \<in> {''CPU usage: 1.0% user, 99.0% idle'', ''CPU usage: 90.0% user, 10.0% idle''}.
      \<forall>l \<in> set (split_char newline r). case str_index l ''idle'' of None \<Rightarrow> True | Some i \<Rightarrow> has_suffix (take i l) ''% ''"
      by code_simp
    with that show ?thesis by fastforce
  qed
  have e: "checkEligibility cfg (darwin_device (Some ''4%; discharging'') (Some r)) \<longleftrightarrow>
      \<not> (f_lt (f_int 0) (pf_MaxCPU cfg) \<and> f_lt (pf_MaxCPU cfg) (Fin 10))"
    if "r = ''CPU usage: 1.0% user, 99.0% idle'' \<or> r = ''CPU usage: 90.0% user, 10.0% idle''" for cfg r
    by (rule mac_limits_idle [OF d]) (rule u [OF _ _ that])
  show ?thesis by (simp only: e simp_thms) simp
qed

end
