(* ===== verification/Go_Slice.thy ===== *)
theory Go_Slice
  imports Prelude
begin

text \<open>
  Slices that share arrays. The heap is a list of arrays, an address an index of it, the length of an array its
  capacity; a slice is an address, an offset and a length. \<open>append\<close> writes into the array where there is room and
  copies to a new one where there is none; how much larger the new one is, is an argument.
\<close>

type_synonym 'a heap = "'a list list"

record slice =
  sl_addr :: nat
  sl_off :: nat
  sl_len :: nat

definition sl_read :: "'a heap \<Rightarrow> slice \<Rightarrow> 'a list" where
  "sl_read h s = take (sl_len s) (drop (sl_off s) (h ! sl_addr s))"

definition sl_valid :: "'a heap \<Rightarrow> slice \<Rightarrow> bool" where
  "sl_valid h s \<longleftrightarrow> sl_addr s < length h \<and> sl_off s + sl_len s \<le> length (h ! sl_addr s)"

text \<open>A composite literal: a new array, and the slice of all of it.\<close>

definition sl_new :: "'a list \<Rightarrow> 'a heap \<Rightarrow> slice \<times> 'a heap" where
  "sl_new xs h = (\<lparr>sl_addr = length h, sl_off = 0, sl_len = length xs\<rparr>, h @ [xs])"

text \<open>\<open>s[a:]\<close> and \<open>s[:b]\<close>\<close>

definition sl_from :: "nat \<Rightarrow> slice \<Rightarrow> slice" where
  "sl_from a s = s\<lparr>sl_off := sl_off s + a, sl_len := sl_len s - a\<rparr>"

definition sl_upto :: "nat \<Rightarrow> slice \<Rightarrow> slice" where
  "sl_upto b s = s\<lparr>sl_len := b\<rparr>"

text \<open>\<open>append(s, ys...)\<close>; \<open>pad\<close> is the spare room of a new array.\<close>

definition sl_append :: "'a list \<Rightarrow> slice \<Rightarrow> 'a list \<Rightarrow> 'a heap \<Rightarrow> slice \<times> 'a heap" where
  "sl_append pad s ys h =
     (let a = h ! sl_addr s; n = sl_off s + sl_len s
      in if n + length ys \<le> length a
         then (s\<lparr>sl_len := sl_len s + length ys\<rparr>, h[sl_addr s := take n a @ ys @ drop (n + length ys) a])
         else (\<lparr>sl_addr = length h, sl_off = 0, sl_len = sl_len s + length ys\<rparr>, h @ [sl_read h s @ ys @ pad]))"

lemma sl_read_length [simp]: "sl_valid h s \<Longrightarrow> length (sl_read h s) = sl_len s"
  by (auto simp: sl_read_def sl_valid_def)

lemma sl_valid_new [simp]:
  "sl_new xs h = (s, h') \<Longrightarrow> sl_valid h' s" "sl_new xs h = (s, h') \<Longrightarrow> sl_read h' s = xs"
  by (auto simp: sl_new_def sl_valid_def sl_read_def)

lemma sl_append_ok:
  assumes "sl_valid h s" and "sl_append pad s ys h = (s', h')"
  shows "sl_valid h' s'" and "sl_read h' s' = sl_read h s @ ys"
    and "length h \<le> length h'"
    and "sl_addr s' = (if sl_off s + sl_len s + length ys \<le> length (h ! sl_addr s) then sl_addr s else length h)"
    and "\<And>a. a < length h \<Longrightarrow> a \<noteq> sl_addr s \<Longrightarrow> h' ! a = h ! a"
  using assms by (auto simp: sl_append_def sl_valid_def sl_read_def Let_def nth_append drop_take split: if_splits)

text \<open>What the array holds where the slice is, after elements are appended to the slice's own front part:
  the removal of one element by \<open>append(s[:i], s[i+1:]...)\<close>.\<close>

definition sl_remove :: "'a list \<Rightarrow> nat \<Rightarrow> slice \<Rightarrow> 'a heap \<Rightarrow> slice \<times> 'a heap" where
  "sl_remove pad i s h = sl_append pad (sl_upto i s) (sl_read h (sl_from (Suc i) s)) h"

lemma sl_remove_ok:
  assumes "sl_valid h s" and "i < sl_len s" and "sl_remove pad i s h = (s', h')"
  shows "sl_valid h' s'" and "sl_read h' s' = take i (sl_read h s) @ drop (Suc i) (sl_read h s)"
    and "sl_read h' s = take i (sl_read h s) @ drop (Suc i) (sl_read h s) @ [last (sl_read h s)]"
    and "sl_addr s' = sl_addr s" and "length h' = length h"
    and "\<And>a. a < length h \<Longrightarrow> a \<noteq> sl_addr s \<Longrightarrow> h' ! a = h ! a"
proof -
  define a where "a = h ! sl_addr s"
  define o1 where "o1 = sl_off s"
  define n where "n = sl_len s"
  define ys where "ys = take (n - Suc i) (drop (o1 + Suc i) a)"
  have v: "sl_addr s < length h" "o1 + n \<le> length a" "i < n"
    using assms(1,2) by (simp_all add: sl_valid_def a_def o1_def n_def)
  then have ly: "length ys = n - Suc i" by (simp add: ys_def)
  have e: "s' = s\<lparr>sl_len := i + (n - Suc i)\<rparr>" "h' = h[sl_addr s := take (o1 + i) a @ ys @ drop (o1 + i + (n - Suc i)) a]"
    using assms(3) v unfolding sl_remove_def sl_append_def sl_upto_def sl_from_def sl_read_def Let_def
    by (simp_all add: ys_def a_def o1_def n_def split: if_splits)
  have xs: "sl_read h s = take n (drop o1 a)" by (simp add: sl_read_def a_def o1_def n_def)
  have t: "take i (sl_read h s) = take i (drop o1 a)" using v by (simp add: xs)
  have d: "drop (Suc i) (sl_read h s) = ys" by (simp add: xs ys_def drop_take add.commute)
  have r: "drop o1 (h' ! sl_addr s) = take i (drop o1 a) @ ys @ drop (o1 + (n - 1)) a"
    using v by (simp add: e drop_take)
  show "sl_valid h' s'" using v ly by (simp add: e sl_valid_def o1_def)
  show "sl_read h' s' = take i (sl_read h s) @ drop (Suc i) (sl_read h s)"
    using r v ly by (simp add: sl_read_def [of h'] e(1) t d flip: o1_def)
  have l: "last (sl_read h s) = a ! (o1 + (n - 1))"
    using v by (simp add: xs last_conv_nth)
  have "sl_read h' s = take i (drop o1 a) @ ys @ take 1 (drop (o1 + (n - 1)) a)"
    using r v ly by (simp add: sl_read_def [of h'] flip: o1_def n_def)
  also have "take 1 (drop (o1 + (n - 1)) a) = [a ! (o1 + (n - 1))]"
    using v by (simp add: take_Suc_conv_app_nth)
  finally show "sl_read h' s = take i (sl_read h s) @ drop (Suc i) (sl_read h s) @ [last (sl_read h s)]"
    by (simp add: t d l)
  show "sl_addr s' = sl_addr s" "length h' = length h" by (simp_all add: e)
  show "\<And>b. b < length h \<Longrightarrow> b \<noteq> sl_addr s \<Longrightarrow> h' ! b = h ! b" by (simp add: e)
qed

lemma sl_read_other: "h' ! sl_addr s = h ! sl_addr s \<Longrightarrow> sl_read h' s = sl_read h s"
  by (simp add: sl_read_def)

end
