(* ===== verification/Node_Groups.thy ===== *)
theory Node_Groups
  imports Go_Slice Redis_Api
begin

text \<open>
  Groups of nodes (\<open>matchmaker/node_groups.go\<close>). The lists of members are slices over the heap of \<open>Go_Slice\<close>,
  because \<open>GetGroupNodes\<close> hands out the slice itself and \<open>RemoveNodeFromGroup\<close> shifts its array in place. The
  first theorem says that the groups are a map of sets kept in order all the same, the second what a caller
  who holds such a slice sees.
\<close>

record nodeGroup =
  gr_Name :: string
  gr_Description :: string
  gr_Tags :: "string \<rightharpoonup> string"
  gr_Nodes :: slice
  gr_CreatedAt :: time

type_synonym nodeGroups = "string \<rightharpoonup> nodeGroup"

definition NewNodeGroups :: nodeGroups where
  "NewNodeGroups = Map.empty"

definition group_missing :: "string \<Rightarrow> go_err" where
  "group_missing name = Err (''group '' @ name @ '' not found'')"

definition CreateGroup ::
    "'r redis option \<Rightarrow> time \<Rightarrow> string \<Rightarrow> string \<Rightarrow> (string \<rightharpoonup> string) \<Rightarrow> (nodeGroups \<times> string heap) \<times> 'r
      \<Rightarrow> go_err option \<times> (nodeGroups \<times> string heap) \<times> 'r" where
  "CreateGroup h now name description tags = (\<lambda>((ng, hp), st).
     if ng name \<noteq> None then (Some (Err (''group '' @ name @ '' already exists'')), (ng, hp), st)
     else (case sl_new [] hp of (s, hp1) \<Rightarrow>
       (None, (ng(name \<mapsto> \<lparr>gr_Name = name, gr_Description = description, gr_Tags = tags, gr_Nodes = s, gr_CreatedAt = now\<rparr>), hp1),
        (case h of None \<Rightarrow> st
         | Some R \<Rightarrow> snd (cExpire R (''node_group:'' @ name) 0 (snd (cHSet R (''node_group:'' @ name) [(''description'', description)] st)))))))"

definition AddNodeToGroup ::
    "'r redis option \<Rightarrow> string list \<Rightarrow> string \<Rightarrow> string \<Rightarrow> (nodeGroups \<times> string heap) \<times> 'r
      \<Rightarrow> go_err option \<times> (nodeGroups \<times> string heap) \<times> 'r" where
  "AddNodeToGroup h pad groupName nodeID = (\<lambda>((ng, hp), st). case ng groupName of
       None \<Rightarrow> (Some (group_missing groupName), (ng, hp), st)
     | Some g \<Rightarrow>
         if nodeID \<in> set (sl_read hp (gr_Nodes g)) then (None, (ng, hp), st)
         else (case sl_append pad (gr_Nodes g) [nodeID] hp of (s, hp1) \<Rightarrow>
           (None, (ng(groupName \<mapsto> g\<lparr>gr_Nodes := s\<rparr>), hp1),
            (case h of None \<Rightarrow> st | Some R \<Rightarrow> snd (cSAdd R (''group:'' @ groupName @ '':nodes'') nodeID st)))))"

text \<open>The index of the first occurrence.\<close>

fun index_of :: "'a \<Rightarrow> 'a list \<Rightarrow> nat option" where
  "index_of x [] = None"
| "index_of x (y # ys) = (if y = x then Some 0 else map_option Suc (index_of x ys))"

definition RemoveNodeFromGroup ::
    "'r redis option \<Rightarrow> string list \<Rightarrow> string \<Rightarrow> string \<Rightarrow> (nodeGroups \<times> string heap) \<times> 'r
      \<Rightarrow> go_err option \<times> (nodeGroups \<times> string heap) \<times> 'r" where
  "RemoveNodeFromGroup h pad groupName nodeID = (\<lambda>((ng, hp), st). case ng groupName of
       None \<Rightarrow> (Some (group_missing groupName), (ng, hp), st)
     | Some g \<Rightarrow> (None,
         (case index_of nodeID (sl_read hp (gr_Nodes g)) of None \<Rightarrow> (ng, hp)
          | Some i \<Rightarrow> (case sl_remove pad i (gr_Nodes g) hp of (s, hp1) \<Rightarrow> (ng(groupName \<mapsto> g\<lparr>gr_Nodes := s\<rparr>), hp1))),
         (case h of None \<Rightarrow> st | Some R \<Rightarrow> snd (cSRem R (''group:'' @ groupName @ '':nodes'') nodeID st))))"

definition GetGroupNodes :: "string \<Rightarrow> nodeGroups \<times> string heap \<Rightarrow> slice \<times> string heap" where
  "GetGroupNodes groupName = (\<lambda>(ng, hp). case ng groupName of Some g \<Rightarrow> (gr_Nodes g, hp) | None \<Rightarrow> sl_new [] hp)"

text \<open>The names in the order they are ranged over.\<close>

definition GetGroupsForNode :: "string list \<Rightarrow> string \<Rightarrow> nodeGroups \<times> string heap \<Rightarrow> string list" where
  "GetGroupsForNode order nodeID = (\<lambda>(ng, hp). filter (\<lambda>name. case ng name of None \<Rightarrow> False
     | Some g \<Rightarrow> nodeID \<in> set (sl_read hp (gr_Nodes g))) order)"

definition ListGroups :: "string list \<Rightarrow> nodeGroups \<Rightarrow> nodeGroup list" where
  "ListGroups order ng = List.map_filter ng order"

definition TagNode :: "'r redis option \<Rightarrow> string \<Rightarrow> (string \<times> string) list \<Rightarrow> 'r \<Rightarrow> 'r" where
  "TagNode h nodeID tags st = (case h of None \<Rightarrow> st
     | Some R \<Rightarrow> fold (\<lambda>(k, v) s. snd (cHSet R (''node_tags:'' @ nodeID) [(k, v)] s)) tags st)"

definition GetNodeTags :: "'r redis option \<Rightarrow> string \<Rightarrow> 'r \<Rightarrow> (string \<rightharpoonup> string) \<times> 'r" where
  "GetNodeTags h nodeID st = (case h of None \<Rightarrow> (Map.empty, st)
     | Some R \<Rightarrow> (case cHGetAll R (''node_tags:'' @ nodeID) st of
         (Inl _, st1) \<Rightarrow> (Map.empty, st1) | (Inr data, st1) \<Rightarrow> (map_of data, st1)))"

text \<open>A negative count panics in \<open>make\<close>.\<close>

definition SelectByGroup :: "string \<Rightarrow> int \<Rightarrow> nodeGroups \<times> string heap \<Rightarrow> (go_err + string list) option" where
  "SelectByGroup groupName n g =
     (case GetGroupNodes groupName g of (s, hp) \<Rightarrow>
        let nodes = sl_read hp s
        in if sl_len s = 0 then Some (Inl (Err (''no nodes in group '' @ groupName)))
           else if n > int (sl_len s) then Some (Inr (map (\<lambda>i. nodes ! (i mod sl_len s)) [0..<sl_len s]))
           else if n < 0 then None
           else Some (Inr (map (\<lambda>i. nodes ! (i mod sl_len s)) [0..<nat n])))"

section \<open>The groups as a map of lists\<close>

datatype ng_op = NCreate time string string "string \<rightharpoonup> string" | NAdd "string list" string string | NRemove "string list" string string

fun ng_step :: "'r redis option \<Rightarrow> ng_op \<Rightarrow> (nodeGroups \<times> string heap) \<times> 'r \<Rightarrow> go_err option \<times> (nodeGroups \<times> string heap) \<times> 'r" where
  "ng_step h (NCreate now name d tags) s = CreateGroup h now name d tags s"
| "ng_step h (NAdd pad g n) s = AddNodeToGroup h pad g n s"
| "ng_step h (NRemove pad g n) s = RemoveNodeFromGroup h pad g n s"

fun ng_run :: "'r redis option \<Rightarrow> ng_op list \<Rightarrow> (nodeGroups \<times> string heap) \<times> 'r \<Rightarrow> go_err option list \<times> (nodeGroups \<times> string heap) \<times> 'r" where
  "ng_run h [] s = ([], s)"
| "ng_run h (op # ops) s = (case ng_step h op s of (e, s1) \<Rightarrow> (case ng_run h ops s1 of (es, s2) \<Rightarrow> (e # es, s2)))"

fun ng_spec :: "ng_op \<Rightarrow> (string \<rightharpoonup> string list) \<Rightarrow> go_err option \<times> (string \<rightharpoonup> string list)" where
  "ng_spec (NCreate now name d tags) m = (if m name \<noteq> None then (Some (Err (''group '' @ name @ '' already exists'')), m) else (None, m(name \<mapsto> [])))"
| "ng_spec (NAdd pad g n) m = (case m g of None \<Rightarrow> (Some (group_missing g), m)
     | Some xs \<Rightarrow> (None, m(g \<mapsto> if n \<in> set xs then xs else xs @ [n])))"
| "ng_spec (NRemove pad g n) m = (case m g of None \<Rightarrow> (Some (group_missing g), m)
     | Some xs \<Rightarrow> (None, m(g \<mapsto> remove1 n xs)))"

fun ng_spec_run :: "ng_op list \<Rightarrow> (string \<rightharpoonup> string list) \<Rightarrow> go_err option list \<times> (string \<rightharpoonup> string list)" where
  "ng_spec_run [] m = ([], m)"
| "ng_spec_run (op # ops) m = (case ng_spec op m of (e, m1) \<Rightarrow> (case ng_spec_run ops m1 of (es, m2) \<Rightarrow> (e # es, m2)))"

definition ng_abs :: "nodeGroups \<times> string heap \<Rightarrow> string \<rightharpoonup> string list" where
  "ng_abs = (\<lambda>(ng, hp) g. map_option (\<lambda>x. sl_read hp (gr_Nodes x)) (ng g))"

text \<open>Every group has an array of its own, and its members are distinct.\<close>

definition ng_ok :: "nodeGroups \<times> string heap \<Rightarrow> bool" where
  "ng_ok = (\<lambda>(ng, hp).
     (\<forall>g x. ng g = Some x \<longrightarrow> sl_valid hp (gr_Nodes x) \<and> distinct (sl_read hp (gr_Nodes x))) \<and>
     (\<forall>g g' x x'. ng g = Some x \<longrightarrow> ng g' = Some x' \<longrightarrow> sl_addr (gr_Nodes x) = sl_addr (gr_Nodes x') \<longrightarrow> g = g'))"

lemma ng_okD:
  assumes "ng_ok (ng, hp)"
  shows "ng g = Some x \<Longrightarrow> sl_valid hp (gr_Nodes x)" "ng g = Some x \<Longrightarrow> distinct (sl_read hp (gr_Nodes x))"
    "ng g = Some x \<Longrightarrow> sl_addr (gr_Nodes x) < length hp"
    "ng g = Some x \<Longrightarrow> ng g' = Some x' \<Longrightarrow> sl_addr (gr_Nodes x) = sl_addr (gr_Nodes x') \<Longrightarrow> g = g'"
  using assms unfolding ng_ok_def sl_valid_def by blast+

text \<open>What an operation on one group has to do: leave the other arrays alone, and keep or renew the address.\<close>

lemma ng_update:
  assumes ok: "ng_ok (ng, hp)"
    and v: "sl_valid hp' s" "distinct (sl_read hp' s)"
    and len: "length hp \<le> length hp'"
    and addr: "case ng g of None \<Rightarrow> sl_addr s = length hp | Some x \<Rightarrow> sl_addr s = sl_addr (gr_Nodes x) \<or> sl_addr s = length hp"
    and same: "\<And>a. a < length hp \<Longrightarrow> (case ng g of None \<Rightarrow> True | Some x \<Rightarrow> a \<noteq> sl_addr (gr_Nodes x)) \<Longrightarrow> hp' ! a = hp ! a"
    and y: "gr_Nodes y = s"
  shows "ng_ok (ng(g \<mapsto> y), hp') \<and> ng_abs (ng(g \<mapsto> y), hp') = (ng_abs (ng, hp))(g \<mapsto> sl_read hp' s)"
proof -
  have other: "hp' ! sl_addr (gr_Nodes x') = hp ! sl_addr (gr_Nodes x') \<and> sl_addr (gr_Nodes x') \<noteq> sl_addr s"
    if g': "ng g' = Some x'" "g' \<noteq> g" for g' x'
  proof -
    have l: "sl_addr (gr_Nodes x') < length hp" using ng_okD(3) [OF ok g'(1)] .
    have ne: "sl_addr (gr_Nodes x') \<noteq> sl_addr (gr_Nodes x)" if "ng g = Some x" for x
      using ng_okD(4) [OF ok g'(1) that] g'(2) by blast
    have "hp' ! sl_addr (gr_Nodes x') = hp ! sl_addr (gr_Nodes x')"
      by (rule same [OF l]) (simp add: ne split: option.split)
    moreover have "sl_addr (gr_Nodes x') \<noteq> sl_addr s" using addr l ne by (auto split: option.splits)
    ultimately show ?thesis by blast
  qed
  have keep: "sl_valid hp' (gr_Nodes x') \<and> distinct (sl_read hp' (gr_Nodes x')) \<and> sl_read hp' (gr_Nodes x') = sl_read hp (gr_Nodes x')"
    if g': "ng g' = Some x'" "g' \<noteq> g" for g' x'
  proof -
    have h: "hp' ! sl_addr (gr_Nodes x') = hp ! sl_addr (gr_Nodes x')" using other [OF g'] by blast
    with ng_okD(1,2) [OF ok g'(1)] len show ?thesis by (simp add: sl_read_other [OF h] sl_valid_def)
  qed
  have "sl_valid hp' (gr_Nodes x) \<and> distinct (sl_read hp' (gr_Nodes x))" if "(ng(g \<mapsto> y)) k = Some x" for k x
  proof (cases "k = g")
    case True
    then show ?thesis using that v y by simp
  next
    case False
    then have "ng k = Some x" using that by simp
    from keep [OF this False] show ?thesis by blast
  qed
  moreover have "k = k'" if "(ng(g \<mapsto> y)) k = Some x" "(ng(g \<mapsto> y)) k' = Some x'" "sl_addr (gr_Nodes x) = sl_addr (gr_Nodes x')" for k k' x x'
    using that other [of k x] other [of k' x'] ng_okD(4) [OF ok, of k x k' x'] y by (cases "k = g"; cases "k' = g") auto
  moreover have "ng_abs (ng(g \<mapsto> y), hp') k = ((ng_abs (ng, hp))(g \<mapsto> sl_read hp' s)) k" for k
    using keep [of k] y by (cases "k = g"; cases "ng k") (auto simp: ng_abs_def)
  ultimately show ?thesis unfolding ng_ok_def prod.case fun_eq_iff by blast
qed

lemma ng_abs_simp: "ng_abs (ng, hp) g = map_option (\<lambda>x. sl_read hp (gr_Nodes x)) (ng g)"
  by (simp add: ng_abs_def)

lemma index_of_None: "index_of x xs = None \<longleftrightarrow> x \<notin> set xs"
  by (induction xs) auto

lemma index_of_Some:
  "index_of x xs = Some i \<Longrightarrow> i < length xs \<and> xs ! i = x \<and> remove1 x xs = take i xs @ drop (Suc i) xs"
  by (induction xs arbitrary: i) (auto split: if_splits)

lemma ng_step_ok:
  assumes "ng_ok s" and "ng_step h op (s, st) = (e, s', st')"
  shows "ng_ok s' \<and> (e, ng_abs s') = ng_spec op (ng_abs s)"
proof -
  obtain ng hp where s: "s = (ng, hp)" by (cases s)
  have run: "(e, s', st') = ng_step h op (s, st)" using assms(2) by simp
  note ok = assms(1) [unfolded s]
  show ?thesis
  proof (cases op)
    case (NCreate now name d tags)
    show ?thesis
    proof (cases "ng name")
      case None
      obtain sl hp1 where n: "sl_new [] hp = (sl, hp1)" by fastforce
      have "sl_addr sl = length hp" "length hp \<le> length hp1" "\<And>a. a < length hp \<Longrightarrow> hp1 ! a = hp ! a"
        using n by (auto simp: sl_new_def nth_append)
      with ng_update [OF ok, of hp1 sl name] sl_valid_new [OF n] None
      have "ng_ok (ng(name \<mapsto> y), hp1) \<and> ng_abs (ng(name \<mapsto> y), hp1) = (ng_abs (ng, hp))(name \<mapsto> [])" if "gr_Nodes y = sl" for y
        using that by simp
      moreover have "e = None" "s' = (ng(name \<mapsto> \<lparr>gr_Name = name, gr_Description = d, gr_Tags = tags, gr_Nodes = sl, gr_CreatedAt = now\<rparr>), hp1)"
        using run None n by (simp_all add: s NCreate CreateGroup_def)
      ultimately show ?thesis using None by (simp add: s NCreate ng_abs_simp)
    next
      case (Some x)
      then have "e = Some (Err (''group '' @ name @ '' already exists''))" "s' = (ng, hp)"
        using run by (simp_all add: s NCreate CreateGroup_def)
      with ok Some show ?thesis by (simp add: s NCreate ng_abs_simp)
    qed
  next
    case (NAdd pad g n)
    show ?thesis
    proof (cases "ng g")
      case None
      with run ok show ?thesis by (simp add: s NAdd AddNodeToGroup_def ng_abs_simp)
    next
      case (Some x)
      note d = ng_okD(1,2) [OF ok Some]
      obtain sl hp1 where a: "sl_append pad (gr_Nodes x) [n] hp = (sl, hp1)" by fastforce
      show ?thesis
      proof (cases "n \<in> set (sl_read hp (gr_Nodes x))")
        case True
        then show ?thesis using run ok Some by (auto simp: s NAdd AddNodeToGroup_def ng_abs_simp fun_eq_iff)
      next
        case False
        note p = sl_append_ok [OF d(1) a]
        have "ng_ok (ng(g \<mapsto> x\<lparr>gr_Nodes := sl\<rparr>), hp1) \<and>
            ng_abs (ng(g \<mapsto> x\<lparr>gr_Nodes := sl\<rparr>), hp1) = (ng_abs (ng, hp))(g \<mapsto> sl_read hp1 sl)"
          by (rule ng_update [OF ok p(1) _ p(3)]) (use Some False d p in \<open>auto split: if_splits\<close>)
        with run False Some a p(2) show ?thesis by (simp add: s NAdd AddNodeToGroup_def ng_abs_simp)
      qed
    qed
  next
    case (NRemove pad g n)
    show ?thesis
    proof (cases "ng g")
      case None
      with run ok show ?thesis by (simp add: s NRemove RemoveNodeFromGroup_def ng_abs_simp)
    next
      case (Some x)
      note d = ng_okD(1,2) [OF ok Some]
      show ?thesis
      proof (cases "index_of n (sl_read hp (gr_Nodes x))")
        case None
        with run ok Some show ?thesis
          by (auto simp: s NRemove RemoveNodeFromGroup_def ng_abs_simp index_of_None remove1_idem fun_eq_iff)
      next
        case i: (Some i)
        note ix = index_of_Some [OF i]
        obtain sl hp1 where r: "sl_remove pad i (gr_Nodes x) hp = (sl, hp1)" by fastforce
        have "i < sl_len (gr_Nodes x)" using ix d(1) by simp
        note p = sl_remove_ok [OF d(1) this r]
        have eq: "sl_read hp1 sl = remove1 n (sl_read hp (gr_Nodes x))" using ix p(2) by simp
        with d(2) have dist: "distinct (sl_read hp1 sl)" by (simp add: distinct_remove1)
        have "ng_ok (ng(g \<mapsto> x\<lparr>gr_Nodes := sl\<rparr>), hp1) \<and>
            ng_abs (ng(g \<mapsto> x\<lparr>gr_Nodes := sl\<rparr>), hp1) = (ng_abs (ng, hp))(g \<mapsto> sl_read hp1 sl)"
          by (rule ng_update [OF ok p(1) dist]) (use Some p in auto)
        with run Some i r eq show ?thesis by (simp add: s NRemove RemoveNodeFromGroup_def ng_abs_simp)
      qed
    qed
  qed
qed

lemma ng_run_ok:
  "ng_ok s \<Longrightarrow> ng_run h ops (s, st) = (es, s', st') \<Longrightarrow> ng_ok s' \<and> (es, ng_abs s') = ng_spec_run ops (ng_abs s)"
proof (induction ops arbitrary: s st es s' st')
  case (Cons op ops)
  obtain e s1 st1 where u: "ng_step h op (s, st) = (e, s1, st1)" by (metis prod_cases3)
  obtain es1 s2 st2 where r: "ng_run h ops (s1, st1) = (es1, s2, st2)" by (metis prod_cases3)
  from ng_step_ok [OF Cons.prems(1) u] have "ng_ok s1" "ng_spec op (ng_abs s) = (e, ng_abs s1)" by simp_all
  with Cons.IH [OF this(1) r] Cons.prems(2) u r show ?case by (auto split: prod.splits)
qed simp

lemma ng_ok_new: "ng_ok (NewNodeGroups, [])" "ng_abs (NewNodeGroups, []) = Map.empty"
  by (simp_all add: ng_ok_def NewNodeGroups_def ng_abs_def)

section \<open>Properties\<close>

text \<open>C25: The groups are a map from names to lists without duplicates: whatever sequence of creations, additions
  and removals runs, with or without Redis and however arrays grow, every operation reports what it would on
  the map, and every group holds exactly the members it would, although the members are shifted in shared arrays.\<close>

theorem groups_refine:
  "let (es, s, st') = ng_run h ops ((NewNodeGroups, []), st) in (es, ng_abs s) = ng_spec_run ops Map.empty"
  using ng_run_ok [OF ng_ok_new(1), of h ops st] by (auto simp: ng_ok_new(2) split: prod.splits)

text \<open>A list of members that was handed out is not a snapshot: when a node is then removed from the group, the
  caller's slice, of unchanged length, has lost that node and shows the last member twice.\<close>

theorem handed_out_members_shift:
  assumes "ng_run h ops ((NewNodeGroups, []), st) = (es, s, st')"
    and "fst s g = Some x" and "GetGroupNodes g s = (view, hp)" and "sl_read hp view = xs" and "n \<in> set xs"
  shows "\<exists>i s2 st2. RemoveNodeFromGroup h pad g n (s, st') = (None, s2, st2) \<and> xs ! i = n \<and>
    sl_read (snd s2) view = take i xs @ drop (Suc i) xs @ [last xs]"
proof -
  obtain ng hp0 where s: "s = (ng, hp0)" by (cases s)
  have ok: "ng_ok (ng, hp0)" using ng_run_ok [OF ng_ok_new(1) assms(1)] by (simp add: s)
  have g: "ng g = Some x" "view = gr_Nodes x" "hp = hp0" using assms(2,3) by (simp_all add: s GetGroupNodes_def)
  obtain i where i: "index_of n xs = Some i" using assms(5) index_of_None [of n xs] by (cases "index_of n xs") auto
  note ix = index_of_Some [OF i] and v = ng_okD(1) [OF ok g(1)]
  obtain sl hp1 where r: "sl_remove pad i (gr_Nodes x) hp0 = (sl, hp1)" by fastforce
  have "i < sl_len (gr_Nodes x)" using ix assms(4) v by (auto simp: g)
  note p = sl_remove_ok(3) [OF v this r]
  show ?thesis
    using p ix i r assms(4) by (intro exI [of _ i]) (simp add: RemoveNodeFromGroup_def s g)
qed

theorem handed_out_members_shift_witness:
  "\<exists>s2 st2. RemoveNodeFromGroup (None :: unit redis option) [] ''g'' ''a''
      (snd (ng_run None [NCreate 0 ''g'' '''' Map.empty, NAdd [] ''g'' ''a'', NAdd [] ''g'' ''b'', NAdd [] ''g'' ''c''] ((NewNodeGroups, []), ()))) = (None, s2, st2)
    \<and> sl_read (snd s2) \<lparr>sl_addr = 3, sl_off = 0, sl_len = 3\<rparr> = [''b'', ''c'', ''c'']"
proof -
  let ?ops = "[NCreate 0 ''g'' '''' Map.empty, NAdd [] ''g'' ''a'', NAdd [] ''g'' ''b'', NAdd [] ''g'' ''c'']"
  let ?view = "\<lparr>sl_addr = 3, sl_off = 0, sl_len = 3\<rparr>"
  let ?x = "\<lparr>gr_Name = ''g'', gr_Description = '''', gr_Tags = Map.empty, gr_Nodes = ?view, gr_CreatedAt = 0\<rparr>"
  let ?s = "([''g'' \<mapsto> ?x], [[], [''a''], [''a'', ''b''], [''a'', ''b'', ''c'']])"
  have r: "ng_run (None :: unit redis option) ?ops ((NewNodeGroups, []), ()) = ([None, None, None, None], ?s, ())"
    by (simp add: CreateGroup_def AddNodeToGroup_def NewNodeGroups_def sl_new_def sl_append_def sl_read_def eval_nat_numeral)
  have xs: "sl_read (snd ?s) ?view = [''a'', ''b'', ''c'']" by (simp add: sl_read_def)
  have gn: "GetGroupNodes ''g'' ?s = (?view, snd ?s)" by (simp add: GetGroupNodes_def)
  obtain i s2 st2 where u: "RemoveNodeFromGroup (None :: unit redis option) [] ''g'' ''a'' (?s, ()) = (None, s2, st2)"
      "[''a'', ''b'', ''c''] ! i = ''a''" "sl_read (snd s2) ?view = take i [''a'', ''b'', ''c''] @ drop (Suc i) [''a'', ''b'', ''c''] @ [last [''a'', ''b'', ''c'']]"
    using handed_out_members_shift [OF r _ gn xs, of ?x "''a''" "[]"] by auto
  have "length (sl_read (snd s2) ?view) \<le> 3" by (simp add: sl_read_def)
  with u(3) have "i < 3" by (cases "i < 3") auto
  with u(2) have "i = 0" by (auto simp: nth_Cons split: nat.splits)
  with u r show ?thesis by auto
qed

end
