(* ===== verification/Benchmark.thy ===== *)
theory Benchmark
  imports Go_Sort Redis_Api
begin

text \<open>
  Benchmarks of nodes (\<open>matchmaker/benchmark.go\<close>): nothing is measured, the numbers are taken from the clock. The
  readings of the clock that the loop makes before its time is up are an argument. The percentiles sort the
  samples in place with the exchange sort of \<open>Go_Sort\<close>.
\<close>

record benchmarkResult =
  bk_NodeID :: string
  bk_LatencyAvg :: f64
  bk_LatencyP50 :: f64
  bk_LatencyP95 :: f64
  bk_LatencyP99 :: f64
  bk_Throughput :: f64
  bk_SuccessRate :: f64
  bk_RunDuration :: duration
  bk_Timestamp :: time

type_synonym nodeBenchmark = "string \<rightharpoonup> benchmarkResult"

definition NewNodeBenchmark :: nodeBenchmark where
  "NewNodeBenchmark = Map.empty"

definition randomInt :: "int \<Rightarrow> int \<Rightarrow> int" where
  "randomInt nanosecond n = nanosecond mod n"

definition calculateAvg :: "f64 list \<Rightarrow> f64" where
  "calculateAvg values = (if values = [] then f_int 0 else f_div (fold (\<lambda>v s. f_add s v) values (f_int 0)) (f_int (int (length values))))"

definition percentile_index :: "(f64 \<Rightarrow> int) \<Rightarrow> nat \<Rightarrow> int \<Rightarrow> int" where
  "percentile_index wild n p =
     (let index = f_to_i64 wild (f_div (f_mul (f_int (int n)) (f_int p)) (f_int 100)) in if index \<ge> int n then int n - 1 else index)"

text \<open>The value, and the samples as they are left; a negative index would panic.\<close>

definition calculatePercentile :: "(f64 \<Rightarrow> int) \<Rightarrow> int \<Rightarrow> f64 list \<Rightarrow> (f64 \<times> f64 list) option" where
  "calculatePercentile wild p values =
     (if values = [] then Some (f_int 0, [])
      else let index = percentile_index wild (length values) p; values' = exchange_sort f_lt values
        in if index < 0 then None else Some (values' ! nat index, values'))"

text \<open>The two readings of each turn of the loop; \<open>now\<close> is the time at its end.\<close>

definition RunBenchmark ::
    "(f64 \<Rightarrow> int) \<Rightarrow> time \<Rightarrow> string \<Rightarrow> duration \<Rightarrow> (int \<times> int) list \<Rightarrow> nodeBenchmark \<Rightarrow> (benchmarkResult \<times> nodeBenchmark) option" where
  "RunBenchmark wild now nodeID dur readings nb =
     (let latencies = map (\<lambda>(a, b). f_int (10 + randomInt a 90)) readings;
          successCount = int (length (filter (\<lambda>(a, b). randomInt b 100 < 95) readings));
          failCount = int (length (filter (\<lambda>(a, b). \<not> randomInt b 100 < 95) readings))
      in Option.bind (calculatePercentile wild 50 latencies) (\<lambda>(p50, l1).
         Option.bind (calculatePercentile wild 95 l1) (\<lambda>(p95, l2).
         Option.bind (calculatePercentile wild 99 l2) (\<lambda>(p99, l3).
           let result = \<lparr>bk_NodeID = nodeID, bk_LatencyAvg = calculateAvg latencies, bk_LatencyP50 = p50, bk_LatencyP95 = p95, bk_LatencyP99 = p99,
             bk_Throughput = f_mul (f_div (f_int (int (length latencies))) (duration_seconds dur)) (f_int 10),
             bk_SuccessRate = f_mul (f_div (f_int successCount) (f_int (successCount + failCount))) (f_int 100),
             bk_RunDuration = dur, bk_Timestamp = now\<rparr>
           in Some (result, nb(nodeID \<mapsto> result))))))"

definition bk_GetResult :: "string \<Rightarrow> nodeBenchmark \<Rightarrow> benchmarkResult option" where
  "bk_GetResult nodeID nb = nb nodeID"

definition GetAllResults :: "string list \<Rightarrow> nodeBenchmark \<Rightarrow> benchmarkResult list" where
  "GetAllResults order nb = List.map_filter nb order"

section \<open>Percentiles\<close>

lemma pull_min_sorted:
  "sorted_wrt (\<lambda>a b. \<not> lt b a) (x # ys) \<Longrightarrow> pull_min lt x ys = (x, ys)"
  by (induction ys arbitrary: x) auto

lemma exchange_sort_sorted:
  "sorted_wrt (\<lambda>a b. \<not> lt b a) xs \<Longrightarrow> exchange_sort lt xs = xs"
  unfolding exchange_sort_sel by (induction xs) (simp_all add: pull_min_sorted del: sorted_wrt.simps(2), simp)

interpretation f64_numbers: weak_order f_lt "{v. v \<noteq> FNaN}"
  by unfold_locales (auto dest: f_lt_asym f_lt_negtrans)

lemma percentile_index_exact:
  assumes "n \<le> 2 ^ 40" and "0 \<le> p" "p \<le> 100"
  shows "percentile_index wild n p = (let i = \<lfloor>round64 (of_int (int n * p) / 100)\<rfloor> in if i \<ge> int n then int n - 1 else i)"
    and "0 \<le> round64 (of_int (int n * p) / 100)"
proof -
  have n: "int n \<le> 2 ^ 40" using assms(1) by (metis of_nat_le_iff of_nat_numeral of_nat_power)
  have np: "0 \<le> int n * p" "int n * p \<le> 2 ^ 40 * 100" using mult_mono [OF n assms(3)] assms(2) by simp_all
  have m: "f_mul (f_int (int n)) (f_int p) = Fin (of_int (int n * p))"
    using f_mul_int [of "int n" p] np n assms by (simp add: f_int_small)
  have q: "0 \<le> (of_int (int n * p) / 100 :: rat)" "(of_int (int n * p) / 100 :: rat) \<le> of_int (2 ^ 40)"
  proof -
    show "0 \<le> (of_int (int n * p) / 100 :: rat)" using np(1) by (simp only: zero_le_divide_iff of_int_0_le_iff) simp
    have "(of_int (int n * p) :: rat) \<le> of_int (2 ^ 40 * 100)" using np(2) by (simp only: of_int_le_iff)
    then show "(of_int (int n * p) / 100 :: rat) \<le> of_int (2 ^ 40)" by simp
  qed
  have b: "0 \<le> round64 (of_int (int n * p) / 100)" "round64 (of_int (int n * p) / 100) \<le> 2 ^ 40"
    using r64.rd_between [of 0 "of_int (int n * p) / 100" "2 ^ 40"] q by simp_all
  then show "0 \<le> round64 (of_int (int n * p) / 100)" by simp
  have "f_div (Fin (of_int (int n * p))) (f_int 100) = Fin (round64 (of_int (int n * p) / 100))"
    using q by (simp add: f_round_fin del: of_int_mult)
  moreover have "in_i64 \<lfloor>round64 (of_int (int n * p) / 100)\<rfloor>"
    using b by (simp add: in_i64_def floor_le_iff le_floor_iff)
  ultimately show "percentile_index wild n p = (let i = \<lfloor>round64 (of_int (int n * p) / 100)\<rfloor> in if i \<ge> int n then int n - 1 else i)"
    using b(1) by (simp add: percentile_index_def m f_to_i64_def Let_def)
qed

lemma percentile_index_mono:
  assumes "0 < n" "n \<le> 2 ^ 40" "0 \<le> p" "p \<le> q" "q \<le> 100"
  shows "0 \<le> percentile_index wild n p" "percentile_index wild n p \<le> percentile_index wild n q" "percentile_index wild n q < int n"
proof -
  have "int n * p \<le> int n * q" using assms by (intro mult_left_mono) auto
  then have "(of_int (int n * p) :: rat) / 100 \<le> of_int (int n * q) / 100" by (intro divide_right_mono) (simp_all only: of_int_le_iff zero_le_numeral)
  then have "\<lfloor>round64 (of_int (int n * p) / 100)\<rfloor> \<le> \<lfloor>round64 (of_int (int n * q) / 100)\<rfloor>"
    by (intro floor_mono round64_mono)
  moreover have "0 \<le> \<lfloor>round64 (of_int (int n * p) / 100)\<rfloor>" using percentile_index_exact(2) [of n p] assms by simp
  ultimately show "0 \<le> percentile_index wild n p" "percentile_index wild n p \<le> percentile_index wild n q" "percentile_index wild n q < int n"
    using percentile_index_exact(1) [of n p wild] percentile_index_exact(1) [of n q wild] assms by (simp_all add: Let_def split: if_splits)
qed

text \<open>The three percentiles of a benchmark are read from one sorted list, at indices that do not decrease.\<close>

lemma percentiles_ordered:
  assumes "RunBenchmark wild now nodeID dur readings nb = Some (r, nb')" and "readings \<noteq> []" and "length readings \<le> 2 ^ 40"
  shows "\<not> f_lt (bk_LatencyP95 r) (bk_LatencyP50 r) \<and> \<not> f_lt (bk_LatencyP99 r) (bk_LatencyP95 r) \<and>
    {bk_LatencyP50 r, bk_LatencyP95 r, bk_LatencyP99 r} \<subseteq> (\<lambda>(a, b). f_int (10 + a mod 90)) ` set readings"
proof -
  define xs where "xs = map (\<lambda>(a, b). f_int (10 + randomInt a 90)) readings"
  define ys where "ys = exchange_sort f_lt xs"
  define i where "i p = percentile_index wild (length xs) p" for p
  have xs: "xs \<noteq> []" "length xs = length readings" "length ys = length readings" using assms(2) by (simp_all add: xs_def ys_def)
  have "set xs \<subseteq> {v. v \<noteq> FNaN}"
  proof -
    have "\<bar>10 + a mod 90\<bar> \<le> (2 ^ 53 :: int)" for a :: int using pos_mod_bound [of 90 a] pos_mod_sign [of 90 a] by simp
    then show ?thesis by (auto simp: xs_def randomInt_def f_int_small)
  qed
  from f64_numbers.exchange_sorted [OF this] have sorted: "sorted_wrt (\<lambda>x y. \<not> f_lt y x) ys" unfolding ys_def .
  then have same: "exchange_sort f_lt ys = ys" by (rule exchange_sort_sorted)
  have ys: "ys \<noteq> []" "percentile_index wild (length ys) = i" using xs assms(2) by (auto simp: i_def)
  have im: "0 \<le> i 50" "i 50 \<le> i 95" "i 95 \<le> i 99" "i 99 < int (length ys)"
    using percentile_index_mono [of "length xs" 50 95 wild] percentile_index_mono [of "length xs" 95 99 wild] assms(2,3) xs
    by (simp_all add: i_def)
  have "bk_LatencyP50 r = ys ! nat (i 50)" "bk_LatencyP95 r = ys ! nat (i 95)" "bk_LatencyP99 r = ys ! nat (i 99)"
    using assms(1) xs ys im same unfolding RunBenchmark_def Let_def calculatePercentile_def xs_def [symmetric]
    by (auto simp: ys_def [symmetric] i_def [symmetric] split: if_splits)
  moreover have "\<not> f_lt (ys ! b) (ys ! a)" if "a \<le> b" "b < length ys" for a b
    using sorted_wrt_nth_less [OF sorted, of a b] that by (cases "a = b") auto
  moreover have "ys ! a \<in> (\<lambda>(a, b). f_int (10 + a mod 90)) ` set readings" if "a < length ys" for a
  proof -
    have "ys ! a \<in> set xs" using that nth_mem [of a ys] unfolding ys_def by simp
    then show ?thesis by (simp add: xs_def randomInt_def)
  qed
  ultimately show ?thesis using im by (simp add: nat_mono nat_less_iff)
qed

end
