(* ===== verification/Serving.thy ===== *)
theory Serving
  imports Http Redis_Api
begin

text \<open>
  Draining and shutdown (\<open>gateway/shutdown.go\<close>), slow clients (\<open>gateway/slow_client.go\<close>) and the notice on old
  paths (\<open>gateway/deprecation.go\<close>). The counters are atomic and the handlers are counted by the events of
  requests that begin and end; the servers and the bodies of requests are read through arguments.
\<close>

section \<open>Draining\<close>

record drainer =
  dr_activeConns :: int
  dr_draining :: bool
  dr_drainTimeout :: duration

definition NewConnectionDrainer :: "duration \<Rightarrow> drainer" where
  "NewConnectionDrainer d = \<lparr>dr_activeConns = 0, dr_draining = False, dr_drainTimeout = d\<rparr>"

definition StartDrain :: "drainer \<Rightarrow> bool \<times> drainer" where
  "StartDrain cd = (if \<not> dr_draining cd then (True, cd\<lparr>dr_draining := True\<rparr>) else (False, cd))"

definition IncrementConnections :: "drainer \<Rightarrow> drainer" where
  "IncrementConnections cd = cd\<lparr>dr_activeConns := i64 (dr_activeConns cd + 1)\<rparr>"

definition DecrementConnections :: "drainer \<Rightarrow> drainer" where
  "DecrementConnections cd = cd\<lparr>dr_activeConns := i64 (dr_activeConns cd - 1)\<rparr>"

text \<open>What \<open>WaitForDrain\<close> sees: the connections at a tick, or its timer. It ends drained, forced, or goes on waiting.\<close>

datatype drain_event = DrainTick int | DrainTimer

fun wait_loop :: "drain_event list \<Rightarrow> bool option" where
  "wait_loop [] = None"
| "wait_loop (DrainTick conns # es) = (if conns = 0 then Some True else wait_loop es)"
| "wait_loop (DrainTimer # es) = Some False"

definition WaitForDrain :: "drainer \<Rightarrow> drain_event list \<Rightarrow> bool option" where
  "WaitForDrain cd es = (if \<not> dr_draining cd then Some True else wait_loop es)"

text \<open>The wrapped handler: the header it sets, and the counter around the handler it wraps.\<close>

definition wrap_begin :: "drainer \<Rightarrow> (string \<times> string) list \<times> drainer" where
  "wrap_begin cd = ((if dr_draining cd then [(''X-Server-Draining'', ''true'')] else []), IncrementConnections cd)"

definition wrap_end :: "drainer \<Rightarrow> drainer" where
  "wrap_end cd = DecrementConnections cd"

datatype drain_op = ReqBegin | ReqEnd | DrainStart

fun drain_step :: "drain_op \<Rightarrow> drainer \<Rightarrow> drainer" where
  "drain_step ReqBegin cd = snd (wrap_begin cd)"
| "drain_step ReqEnd cd = wrap_end cd"
| "drain_step DrainStart cd = snd (StartDrain cd)"

fun in_flight_count :: "drain_op list \<Rightarrow> int" where
  "in_flight_count [] = 0"
| "in_flight_count (ReqBegin # os) = in_flight_count os + 1"
| "in_flight_count (ReqEnd # os) = in_flight_count os - 1"
| "in_flight_count (DrainStart # os) = in_flight_count os"

text \<open>The counter is the number of requests in flight; draining refuses none.\<close>

lemma drain_counts:
  assumes "in_i64 (dr_activeConns cd)"
  shows "dr_activeConns (fold drain_step (rev os) cd) = i64 (dr_activeConns cd + in_flight_count os)"
proof (induction os)
  case (Cons e os)
  have i: "i64 (i64 a + b) = i64 (a + b)" "i64 (i64 a - b) = i64 (a - b)" for a b
    by (simp_all add: i64_def mod_simps algebra_simps)
  show ?case
    using Cons i
    by (cases e) (simp_all add: wrap_begin_def wrap_end_def StartDrain_def IncrementConnections_def DecrementConnections_def algebra_simps)
qed (simp add: assms i64_id)

section \<open>Shutdown\<close>

text \<open>\<open>gs_closed\<close> is the state of \<open>shutdownCh\<close>; a server is what its \<open>Shutdown\<close> answers.\<close>

record graceful =
  gs_servers :: "(unit \<Rightarrow> go_err option) list"
  gs_drainTimeout :: duration
  gs_closed :: bool

definition NewGracefulShutdown :: "duration \<Rightarrow> graceful" where
  "NewGracefulShutdown d = \<lparr>gs_servers = [], gs_drainTimeout = d, gs_closed = False\<rparr>"

definition AddServer :: "(unit \<Rightarrow> go_err option) \<Rightarrow> graceful \<Rightarrow> graceful" where
  "AddServer s gs = gs\<lparr>gs_servers := gs_servers gs @ [s]\<rparr>"

text \<open>\<open>Start\<close> blocks until it is triggered; then every server is told to shut down, and the errors are logged.\<close>

definition gs_Start :: "graceful \<Rightarrow> go_err list option" where
  "gs_Start gs = (if gs_closed gs then Some (List.map_filter (\<lambda>s. s ()) (gs_servers gs)) else None)"

text \<open>A second \<open>Trigger\<close> closes a closed channel.\<close>

definition gs_Trigger :: "graceful \<Rightarrow> graceful option" where
  "gs_Trigger gs = (if gs_closed gs then None else Some (gs\<lparr>gs_closed := True\<rparr>))"

lemma triggered_twice_panics: "Option.bind (gs_Trigger gs) gs_Trigger = None"
  by (auto simp: gs_Trigger_def)

section \<open>Slow clients\<close>

text \<open>A body is what it delivers, and the error that ends it if one does.\<close>

type_synonym body = "string \<times> go_err option"

definition buffer_Middleware :: "int \<Rightarrow> http_req \<Rightarrow> body option \<Rightarrow> outcome \<times> body option" where
  "buffer_Middleware maxBodySize r b = (case b of None \<Rightarrow> (Next, None)
     | Some (content, err) \<Rightarrow>
         if rq_contentLength r > 0 \<and> rq_contentLength r > maxBodySize then
           (case err of Some e \<Rightarrow> (Abort 400 ''Failed to read request body'', b)
            | None \<Rightarrow> (Next, Some (content, None)))
         else (Next, b))"

record requestBuffer =
  rb_requestCount :: int
  rb_bytesRead :: int
  rb_maxBufferSize :: int

definition NewRequestBuffer :: "int \<Rightarrow> requestBuffer" where
  "NewRequestBuffer n = \<lparr>rb_requestCount = 0, rb_bytesRead = 0, rb_maxBufferSize = n\<rparr>"

text \<open>What the wrapped handler gets, or the status of the refusal.\<close>

definition buffer_Wrap :: "body option \<Rightarrow> requestBuffer \<Rightarrow> (int + body option) \<times> requestBuffer" where
  "buffer_Wrap b rb = (case b of None \<Rightarrow> (Inr None, rb)
     | Some (content, err) \<Rightarrow>
         if rb_maxBufferSize rb > 0 then
           (let buf = take (nat (rb_maxBufferSize rb)) content
            in if int (length content) < rb_maxBufferSize rb \<and> err \<noteq> None then (Inl 413, rb)
               else let rb1 = rb\<lparr>rb_requestCount := i64 (rb_requestCount rb + 1), rb_bytesRead := i64 (rb_bytesRead rb + int (length buf))\<rparr>;
                        rb2 = (if int (length buf) \<ge> rb_maxBufferSize rb \<and> err = None
                          then rb1\<lparr>rb_bytesRead := i64 (rb_bytesRead rb1 + (int (length content) - int (length buf)))\<rparr> else rb1)
                 in (Inr (Some (buf, None)), rb2))
         else (Inr b, rb))"

definition rb_Stats :: "requestBuffer \<Rightarrow> int \<times> int" where
  "rb_Stats rb = (rb_requestCount rb, rb_bytesRead rb)"

text \<open>A body over the limit is not refused: the handler gets its first part, and nothing says so.\<close>

lemma long_body_is_cut:
  assumes "0 < rb_maxBufferSize rb" and "rb_maxBufferSize rb \<le> int (length content)"
  shows "fst (buffer_Wrap (Some (content, err)) rb) = Inr (Some (take (nat (rb_maxBufferSize rb)) content, None))"
  using assms by (simp add: buffer_Wrap_def Let_def)

record slowClientHandler =
  sc_readTimeout :: duration
  sc_writeTimeout :: duration
  sc_bufferSize :: int

definition NewSlowClientHandler :: "duration \<Rightarrow> duration \<Rightarrow> int \<Rightarrow> slowClientHandler" where
  "NewSlowClientHandler r w n = \<lparr>sc_readTimeout = r, sc_writeTimeout = w, sc_bufferSize = n\<rparr>"

text \<open>The writer that wraps the response only passes on: the timeouts have no effect.\<close>

definition timeout_Write :: "duration \<Rightarrow> (string \<Rightarrow> 'w \<Rightarrow> 'w) \<Rightarrow> string \<Rightarrow> 'w \<Rightarrow> 'w" where
  "timeout_Write t write p w = write p w"

definition slow_Wrap :: "slowClientHandler \<Rightarrow> ((string \<Rightarrow> 'w \<Rightarrow> 'w) \<Rightarrow> 'w \<Rightarrow> 'w) \<Rightarrow> (string \<Rightarrow> 'w \<Rightarrow> 'w) \<Rightarrow> 'w \<Rightarrow> 'w" where
  "slow_Wrap s handler write w = (if sc_readTimeout s > 0 then handler (timeout_Write (sc_readTimeout s) write) w else handler write w)"

lemma slow_Wrap_no_effect: "slow_Wrap s handler write = handler write"
  by (simp add: slow_Wrap_def timeout_Write_def [abs_def] fun_eq_iff)

section \<open>Old paths\<close>

record deprecation =
  dp_SunsetDate :: time
  dp_LegacyPaths :: "string list"

definition NewDeprecationService :: "time \<Rightarrow> deprecation" where
  "NewDeprecationService now = \<lparr>dp_SunsetDate = now + 90 * 24 * go_hour, dp_LegacyPaths = [''/admin/nodes'', ''/admin/cooldowns'', ''/admin/sessions'']\<rparr>"

text \<open>The headers set; \<open>fmt\<close> prints a time.\<close>

definition dep_Middleware :: "(time \<Rightarrow> string) \<Rightarrow> deprecation \<Rightarrow> http_req \<Rightarrow> (string \<times> string) list" where
  "dep_Middleware fmt d r = (case find (\<lambda>legacy. rq_path r = legacy \<or> rq_path r = legacy @ ''/'') (dp_LegacyPaths d) of
       None \<Rightarrow> []
     | Some legacy \<Rightarrow> [(''Deprecation'', ''date=\"'' @ fmt (dp_SunsetDate d) @ ''\", msg=\"Use /v1'' @ legacy @ '' instead\"''),
         (''Link'', ''</v1'' @ legacy @ ''>; rel=\"successor-version\"'')])"

definition AddLegacyPath :: "string \<Rightarrow> deprecation \<Rightarrow> deprecation" where
  "AddLegacyPath p d = d\<lparr>dp_LegacyPaths := dp_LegacyPaths d @ [p]\<rparr>"

end
