(* ===== verification/Batch.thy ===== *)
theory Batch
  imports Http Redis_Api
begin

text \<open>
  The rest of \<open>gateway/batch.go\<close> (batches of operations and the priorities of keys; its node scores are in
  \<open>Health\<close>), the rate limit headers of \<open>gateway/cache.go\<close> and the request log of \<open>gateway/request_logger.go\<close>.
\<close>

section \<open>Batches\<close>

text \<open>A JSON object; a value that is no string is its text.\<close>

datatype jval = JString string | JOther string

type_synonym jobj = "string \<rightharpoonup> jval"

type_synonym 'w batch_fn = "jobj list \<Rightarrow> 'w \<Rightarrow> (go_err + jobj list) \<times> 'w"

record 'w batchProcessor =
  bp_handlers :: "string \<rightharpoonup> 'w batch_fn"
  bp_maxBatchSize :: int
  bp_timeout :: duration

definition NewBatchProcessor :: "int \<Rightarrow> duration \<Rightarrow> 'w batchProcessor" where
  "NewBatchProcessor n t = \<lparr>bp_handlers = Map.empty, bp_maxBatchSize = n, bp_timeout = t\<rparr>"

definition RegisterHandler :: "string \<Rightarrow> 'w batch_fn \<Rightarrow> 'w batchProcessor \<Rightarrow> 'w batchProcessor" where
  "RegisterHandler op f bp = bp\<lparr>bp_handlers := (bp_handlers bp)(op \<mapsto> f)\<rparr>"

definition error_obj :: "string \<Rightarrow> jobj" where
  "error_obj m = [''error'' \<mapsto> JString m]"

text \<open>One operation: the results and the errors it adds.\<close>

definition batch_one :: "(string \<rightharpoonup> 'w batch_fn) \<Rightarrow> jobj \<Rightarrow> 'w \<Rightarrow> (jobj list \<times> string list) \<times> 'w" where
  "batch_one H op w = (case op ''type'' of
       Some (JString t) \<Rightarrow> (case H t of
           None \<Rightarrow> (([error_obj ''unknown type''], [''unknown operation: '' @ t]), w)
         | Some f \<Rightarrow> (case f [op] w of
             (Inl e, w1) \<Rightarrow> (([error_obj (err_text e)], [err_text e]), w1)
           | (Inr rs, w1) \<Rightarrow> ((take 1 rs, []), w1)))
     | _ \<Rightarrow> (([error_obj ''type required''], [''operation type missing'']), w))"

text \<open>\<open>ended i\<close> is what the context says before operation \<open>i\<close>.\<close>

fun batch_loop ::
    "(string \<rightharpoonup> 'w batch_fn) \<Rightarrow> (nat \<Rightarrow> go_err option) \<Rightarrow> nat \<Rightarrow> jobj list \<Rightarrow> 'w \<Rightarrow> (go_err + jobj list \<times> string list) \<times> 'w" where
  "batch_loop H ended i [] w = (Inr ([], []), w)"
| "batch_loop H ended i (op # ops) w = (case ended i of Some e \<Rightarrow> (Inl e, w)
     | None \<Rightarrow> (case batch_one H op w of ((r, e), w1) \<Rightarrow> (case batch_loop H ended (Suc i) ops w1 of
           (Inl x, w2) \<Rightarrow> (Inl x, w2)
         | (Inr (rs, es), w2) \<Rightarrow> (Inr (r @ rs, e @ es), w2))))"

definition Process :: "'w batchProcessor \<Rightarrow> (nat \<Rightarrow> go_err option) \<Rightarrow> jobj list \<Rightarrow> 'w \<Rightarrow> (go_err + jobj list \<times> string list) \<times> 'w" where
  "Process bp ended ops w =
     (if int (length ops) > bp_maxBatchSize bp then (Inl (Err (''batch size exceeds maximum of '' @ show_int (bp_maxBatchSize bp))), w)
      else batch_loop (bp_handlers bp) ended 0 ops w)"

definition batchHandler :: "'w batchProcessor \<Rightarrow> (nat \<Rightarrow> go_err option) \<Rightarrow> string + jobj list \<Rightarrow> 'w \<Rightarrow> (jobj list \<times> string list) resp \<times> 'w" where
  "batchHandler bp ended req w = (case req of Inl e \<Rightarrow> (bad_request e, w)
     | Inr ops \<Rightarrow> (case Process bp ended ops w of (Inl e, w1) \<Rightarrow> ((500, Inl (err_text e)), w1) | (Inr r, w1) \<Rightarrow> ((200, Inr r), w1)))"

text \<open>
  There is at most one result for each operation, and exactly one when handlers answer with something: only
  then does a result's position tell its operation. Every error has a result that carries it.
\<close>

definition error_shown :: "jobj list \<Rightarrow> string \<Rightarrow> bool" where
  "error_shown rs m \<longleftrightarrow> error_obj m \<in> set rs \<or> has_prefix m ''unknown operation: '' \<and> error_obj ''unknown type'' \<in> set rs \<or>
     m = ''operation type missing'' \<and> error_obj ''type required'' \<in> set rs"

lemma batch_one_results:
  "batch_one H op w = ((r, e), w1) \<Longrightarrow> length r \<le> 1 \<and> length e \<le> length r \<and> list_all (error_shown r) e"
  unfolding batch_one_def
  by (auto simp: error_shown_def has_prefix_def split: option.splits jval.splits prod.splits sum.splits)

lemma batch_results:
  "batch_loop H ended i ops w = (Inr (rs, es), w') \<Longrightarrow> length rs \<le> length ops \<and> length es \<le> length rs \<and> list_all (error_shown rs) es"
proof (induction ops arbitrary: i w rs es)
  case (Cons op ops)
  obtain r e w1 where o: "batch_one H op w = ((r, e), w1)" by (metis prod.exhaust_sel)
  obtain rs' es' where b: "batch_loop H ended (Suc i) ops w1 = (Inr (rs', es'), w')" and eq: "rs = r @ rs'" "es = e @ es'"
    using Cons.prems o by (auto split: prod.splits sum.splits option.splits)
  have mono: "error_shown xs m \<Longrightarrow> set xs \<subseteq> set rs \<Longrightarrow> error_shown rs m" for xs m by (auto simp: error_shown_def)
  from Cons.IH [OF b] batch_one_results [OF o] show ?case by (auto simp: eq list_all_iff intro: mono [unfolded eq])
qed simp

section \<open>Priorities\<close>

definition NewKeyPriority :: "string \<rightharpoonup> int" where
  "NewKeyPriority = Map.empty"

definition SetPriority :: "'r redis option \<Rightarrow> string \<Rightarrow> int \<Rightarrow> (string \<rightharpoonup> int) \<times> 'r \<Rightarrow> (string \<rightharpoonup> int) \<times> 'r" where
  "SetPriority h apiKey priority = (\<lambda>(kp, st). (kp(apiKey \<mapsto> priority),
     case h of None \<Rightarrow> st | Some R \<Rightarrow> snd (cSet R (''key:priority:'' @ apiKey) (show_int priority) 0 st)))"

definition GetPriority :: "string \<Rightarrow> (string \<rightharpoonup> int) \<Rightarrow> int" where
  "GetPriority apiKey kp = (case kp apiKey of Some p \<Rightarrow> p | None \<Rightarrow> 0)"

definition GetWeightedPriority :: "string \<Rightarrow> f64 \<Rightarrow> (string \<rightharpoonup> int) \<Rightarrow> f64" where
  "GetWeightedPriority apiKey baseWeight kp = f_mul baseWeight (f_int (i64 (GetPriority apiKey kp + 1)))"

text \<open>The priority put in the context.\<close>

definition kp_Middleware :: "(string \<rightharpoonup> int) \<Rightarrow> http_req \<Rightarrow> int option" where
  "kp_Middleware kp r = (let h = rq_header r ''Authorization'' in if h = '''' then None else Some (GetPriority (presented_key h) kp))"

section \<open>Rate limit headers\<close>

record rateLimitHeaders =
  rh_Enabled :: bool
  rh_HeaderLimit :: string
  rh_HeaderRemaining :: string
  rh_HeaderReset :: string
  rh_HeaderRetryAfter :: string

definition NewRateLimitHeaders :: "bool \<Rightarrow> rateLimitHeaders" where
  "NewRateLimitHeaders enabled = \<lparr>rh_Enabled = enabled, rh_HeaderLimit = ''X-RateLimit-Limit'', rh_HeaderRemaining = ''X-RateLimit-Remaining'',
     rh_HeaderReset = ''X-RateLimit-Reset'', rh_HeaderRetryAfter = ''Retry-After''\<rparr>"

text \<open>The headers set; \<open>fmt0\<close> prints a float without decimals.\<close>

definition SetHeaders :: "(f64 \<Rightarrow> string) \<Rightarrow> time \<Rightarrow> rateLimitHeaders \<Rightarrow> int \<Rightarrow> int \<Rightarrow> time \<Rightarrow> (string \<times> string) list" where
  "SetHeaders fmt0 now rh limit remaining reset =
     (if \<not> rh_Enabled rh then []
      else [(rh_HeaderLimit rh, show_int limit), (rh_HeaderRemaining rh, show_int remaining), (rh_HeaderReset rh, show_int (reset div go_second))] @
        (if remaining = 0 then
           (let retryAfter = duration_seconds (time_sub reset now)
            in if f_lt (f_int 0) retryAfter then [(rh_HeaderRetryAfter rh, fmt0 retryAfter)] else [])
         else []))"

definition rh_Middleware :: "(f64 \<Rightarrow> string) \<Rightarrow> time \<Rightarrow> rateLimitHeaders \<Rightarrow> (string \<times> string) list" where
  "rh_Middleware fmt0 now rh = (if \<not> rh_Enabled rh then [] else SetHeaders fmt0 now rh 100 (100 - 1) (now + go_minute))"

text \<open>The headers do not depend on any limiter: a client always reads 99 of 100.\<close>

lemma headers_constant:
  "map snd (take 2 (rh_Middleware fmt0 now (NewRateLimitHeaders True))) = [show_int 100, show_int 99]"
  by (simp add: rh_Middleware_def SetHeaders_def NewRateLimitHeaders_def)

section \<open>The request log\<close>

record logEntry =
  le_Timestamp :: int
  le_Method :: string
  le_Path :: string
  le_Status :: int
  le_Duration :: int
  le_ClientIP :: string
  le_UserAgent :: string
  le_RequestSize :: int
  le_ResponseSize :: int
  le_Error :: string

record 'r requestLogger =
  lg_redisClient :: "'r redis option"
  lg_enabled :: bool
  lg_maxBodySize :: int

definition NewRequestLogger :: "'r redis option \<Rightarrow> bool \<Rightarrow> 'r requestLogger" where
  "NewRequestLogger h enabled = \<lparr>lg_redisClient = h, lg_enabled = enabled, lg_maxBodySize = 4096\<rparr>"

definition SetEnabled :: "bool \<Rightarrow> 'r requestLogger \<Rightarrow> 'r requestLogger" where
  "SetEnabled b rl = rl\<lparr>lg_enabled := b\<rparr>"

text \<open>The entry that is logged: \<open>start\<close> and \<open>fin\<close> are the times around the handlers, the rest what the response says.\<close>

definition log_entry :: "http_req \<Rightarrow> time \<Rightarrow> time \<Rightarrow> int \<Rightarrow> int \<Rightarrow> string \<Rightarrow> logEntry" where
  "log_entry r start fin st written err = \<lparr>le_Timestamp = start div go_second, le_Method = rq_method r, le_Path = rq_path r, le_Status = st,
     le_Duration = time_sub fin start sdiv 1000000, le_ClientIP = rq_clientIP r, le_UserAgent = rq_header r ''User-Agent'',
     le_RequestSize = rq_contentLength r, le_ResponseSize = written, le_Error = err\<rparr>"

definition storeLog :: "(logEntry \<Rightarrow> string option) \<Rightarrow> string \<Rightarrow> 'r requestLogger \<Rightarrow> logEntry \<Rightarrow> 'r \<Rightarrow> 'r" where
  "storeLog marshal date rl e st = (case marshal e of None \<Rightarrow> st
     | Some data \<Rightarrow> (case lg_redisClient rl of None \<Rightarrow> st
         | Some R \<Rightarrow> snd (cExpire R (''reqlog:'' @ date) (7 * 24 * go_hour) (snd (cRPush R (''reqlog:'' @ date) data st)))))"

definition lg_Middleware ::
    "(logEntry \<Rightarrow> string option) \<Rightarrow> string \<Rightarrow> 'r requestLogger \<Rightarrow> http_req \<Rightarrow> time \<Rightarrow> time \<Rightarrow> int \<Rightarrow> int \<Rightarrow> string \<Rightarrow> 'r \<Rightarrow> 'r" where
  "lg_Middleware marshal date rl r start fin st written err s =
     (if \<not> lg_enabled rl then s else storeLog marshal date rl (log_entry r start fin st written err) s)"

text \<open>A nil client is dereferenced.\<close>

definition GetLogs :: "(string \<Rightarrow> logEntry option) \<Rightarrow> string \<Rightarrow> int \<Rightarrow> 'r requestLogger \<Rightarrow> 'r \<Rightarrow> ((go_err + logEntry list) \<times> 'r) option" where
  "GetLogs unmarshal date limit rl st =
     (let n = (if limit \<le> 0 \<or> limit > 1000 then 100 else limit)
      in case lg_redisClient rl of None \<Rightarrow> None
       | Some R \<Rightarrow> Some (case cLRange R (''reqlog:'' @ date) (- n) (- 1) st of
           (Inl e, st1) \<Rightarrow> (Inl (RErr e), st1)
         | (Inr data, st1) \<Rightarrow> (Inr (List.map_filter unmarshal data), st1)))"

end
