(* ===== verification/Peer_Api.thy ===== *)
theory Peer_Api
  imports Payout Matchmaker Http
begin

text \<open>
  The HTTP interface of the nodes (\<open>peer_api.go\<close>): session tokens, the routes of the group \<open>/api/peer\<close> behind
  their middleware, and the telemetry stream. A random token is an argument (\<open>crypto/rand\<close> in hexadecimal), so is
  what \<open>ShouldBindJSON\<close> read; the clock does not move within a handler. Whether the writer can flush is an
  argument of the stream, and the moments of its ticks until the client leaves are a list.
\<close>

section \<open>Tokens\<close>

type_synonym peerSessionStore = "string \<rightharpoonup> string"

definition NewPeerSessionStore :: peerSessionStore where
  "NewPeerSessionStore = Map.empty"

definition ps_Create :: "string \<Rightarrow> string \<Rightarrow> peerSessionStore \<Rightarrow> string \<times> peerSessionStore" where
  "ps_Create token nodeID s = (token, s(token \<mapsto> nodeID))"

definition ps_Validate :: "string \<Rightarrow> peerSessionStore \<Rightarrow> string option" where
  "ps_Validate token s = s token"

definition ps_Revoke :: "string \<Rightarrow> peerSessionStore \<Rightarrow> peerSessionStore" where
  "ps_Revoke token s = s(token := None)"

text \<open>The middleware prefers the header, the stream the query.\<close>

definition peer_token :: "http_req \<Rightarrow> string" where
  "peer_token r = (let t = rq_header r ''X-Peer-Token'' in if t = '''' then rq_query r ''token'' else t)"

definition stream_token :: "http_req \<Rightarrow> string" where
  "stream_token r = (let t = rq_query r ''token'' in if t = '''' then rq_header r ''X-Peer-Token'' else t)"

text \<open>The node id the middleware stores in the context is the second part of its result.\<close>

definition peerAuthMiddleware :: "peerSessionStore \<Rightarrow> http_req \<Rightarrow> outcome \<times> string" where
  "peerAuthMiddleware sessions r = (let token = peer_token r in
     if token = '''' then (Abort 401 ''Missing peer token'', '''')
     else (case ps_Validate token sessions of
         None \<Rightarrow> (Abort 401 ''Invalid or expired token'', '''')
       | Some nodeID \<Rightarrow> (Next, nodeID)))"

section \<open>Handlers\<close>

datatype 'h peer_body =
    BAuth string string
  | BStatus node int
  | BBandwidth bandwidthData "(string \<times> bandwidthData) list"
  | BEarnings payout payoutRates "pricingTier list" "'h list"
  | BHealth string "peerHealth option"
  | BConsent string bool
  | BDisconnected
  | BStream "string list"

text \<open>A history that cannot be read is \<open>nil\<close>.\<close>

definition or_nil :: "(go_err + 'a list) \<times> 'r \<Rightarrow> 'a list \<times> 'r" where
  "or_nil x = (case x of (Inl _, st) \<Rightarrow> ([], st) | (Inr xs, st) \<Rightarrow> (xs, st))"

definition peerAuthHandler :: "'r redis \<Rightarrow> time \<Rightarrow> string \<Rightarrow> string + string \<Rightarrow> peerSessionStore \<times> 'r \<Rightarrow> 'h peer_body resp \<times> peerSessionStore \<times> 'r" where
  "peerAuthHandler R now token req = (\<lambda>(sessions, st). case req of
       Inl e \<Rightarrow> (bad_request e, sessions, st)
     | Inr nodeID \<Rightarrow> (case GetNode R now nodeID st of
         (Inl _, st1) \<Rightarrow> ((404, Inl ''Node not found. Register your node first.''), sessions, st1)
       | (Inr _, st1) \<Rightarrow> (case ps_Create token nodeID sessions of
           (t, sessions1) \<Rightarrow> ((200, Inr (BAuth t nodeID)), sessions1, st1))))"

definition peerStatusHandler :: "'r redis \<Rightarrow> time \<Rightarrow> string \<Rightarrow> 'r \<Rightarrow> 'h peer_body resp \<times> 'r" where
  "peerStatusHandler R now nodeID st = (case GetNode R now nodeID st of
       (Inl _, st1) \<Rightarrow> ((404, Inl ''Node not found''), st1)
     | (Inr node, st1) \<Rightarrow> (case GetNodeLoad R nodeID st1 of
         ((load, _), st2) \<Rightarrow> ((200, Inr (BStatus node load)), st2)))"

definition peerBandwidthHandler :: "'r redis \<Rightarrow> string \<Rightarrow> 'r \<Rightarrow> 'h peer_body resp \<times> 'r" where
  "peerBandwidthHandler R nodeID st = (case GetBandwidth R nodeID st of
       (Inl e, st1) \<Rightarrow> ((500, Inl (err_text e)), st1)
     | (Inr bandwidth, st1) \<Rightarrow> (case or_nil (GetBandwidthHistory R nodeID st1) of
         (history, st2) \<Rightarrow> ((200, Inr (BBandwidth bandwidth history)), st2)))"

definition peerEarningsHandler :: "'r redis \<Rightarrow> pay_env \<Rightarrow> payoutService \<Rightarrow> (string \<Rightarrow> 'h option) \<Rightarrow> time \<Rightarrow> string \<Rightarrow> 'r \<Rightarrow> 'h peer_body resp \<times> 'r" where
  "peerEarningsHandler R E p dec now nodeID st = (case CalculatePayout R E p now nodeID now st of
       (Inl e, st1) \<Rightarrow> ((500, Inl (err_text e)), st1)
     | (Inr payoutData, st1) \<Rightarrow> (case or_nil (py_GetPayoutHistory R dec nodeID 10 st1) of
         (history, st2) \<Rightarrow> ((200, Inr (BEarnings payoutData (GetRates p) (GetTiers p) history)), st2)))"

definition peerHealthHandler :: "peerScores \<Rightarrow> string \<Rightarrow> 'h peer_body resp" where
  "peerHealthHandler scores nodeID = (200, Inr (BHealth nodeID (peer_GetScore nodeID scores)))"

definition peerConsentHandler :: "'r redis \<Rightarrow> string + bool \<Rightarrow> string \<Rightarrow> 'r \<Rightarrow> 'h peer_body resp \<times> 'r" where
  "peerConsentHandler R req nodeID st = (case req of
       Inl e \<Rightarrow> (bad_request e, st)
     | Inr enabled \<Rightarrow>
         if \<not> enabled then (case DeregisterNode R nodeID st of
             (Some e, st1) \<Rightarrow> ((500, Inl (err_text e)), st1)
           | (None, st1) \<Rightarrow> ((200, Inr (BConsent nodeID enabled)), st1))
         else ((200, Inr (BConsent nodeID enabled)), st))"

text \<open>The token that is revoked is that of the header, whatever the middleware accepted.\<close>

definition peerDisconnectHandler :: "'r redis \<Rightarrow> http_req \<Rightarrow> string \<Rightarrow> peerSessionStore \<times> 'r \<Rightarrow> 'h peer_body resp \<times> peerSessionStore \<times> 'r" where
  "peerDisconnectHandler R r nodeID = (\<lambda>(sessions, st).
     ((200, Inr BDisconnected), ps_Revoke (rq_header r ''X-Peer-Token'') sessions, snd (DeregisterNode R nodeID st)))"

section \<open>Telemetry\<close>

record 'h telemetry =
  tl_node_id :: string
  tl_node :: "(node \<times> int) option"
  tl_bandwidth :: "(bandwidthData \<times> (string \<times> bandwidthData) list) option"
  tl_payout :: "(payout \<times> payoutRates \<times> pricingTier list \<times> 'h list) option"
  tl_score :: "peerHealth option"

definition telemetry_node :: "'r redis \<Rightarrow> time \<Rightarrow> string \<Rightarrow> 'r \<Rightarrow> (node \<times> int) option \<times> 'r" where
  "telemetry_node R now nodeID st = (case GetNode R now nodeID st of
       (Inl _, st1) \<Rightarrow> (None, st1)
     | (Inr node, st1) \<Rightarrow> (case GetNodeLoad R nodeID st1 of ((load, _), st2) \<Rightarrow> (Some (node, load), st2)))"

definition telemetry_bandwidth :: "'r redis \<Rightarrow> string \<Rightarrow> 'r \<Rightarrow> (bandwidthData \<times> (string \<times> bandwidthData) list) option \<times> 'r" where
  "telemetry_bandwidth R nodeID st = (case GetBandwidth R nodeID st of
       (Inl _, st1) \<Rightarrow> (None, st1)
     | (Inr bw, st1) \<Rightarrow> (case or_nil (GetBandwidthHistory R nodeID st1) of (history, st2) \<Rightarrow> (Some (bw, history), st2)))"

definition telemetry_payout :: "'r redis \<Rightarrow> pay_env \<Rightarrow> payoutService option \<Rightarrow> (string \<Rightarrow> 'h option) \<Rightarrow> time \<Rightarrow> string \<Rightarrow> 'r
    \<Rightarrow> (payout \<times> payoutRates \<times> pricingTier list \<times> 'h list) option \<times> 'r" where
  "telemetry_payout R E ps dec now nodeID st = (case ps of None \<Rightarrow> (None, st)
     | Some p \<Rightarrow> (case CalculatePayout R E p now nodeID now st of
         (Inl _, st1) \<Rightarrow> (None, st1)
       | (Inr payoutData, st1) \<Rightarrow> (case or_nil (py_GetPayoutHistory R dec nodeID 10 st1) of
           (history, st2) \<Rightarrow> (Some (payoutData, GetRates p, GetTiers p, history), st2))))"

definition buildPeerTelemetry :: "'r redis \<Rightarrow> pay_env \<Rightarrow> payoutService option \<Rightarrow> (string \<Rightarrow> 'h option) \<Rightarrow> time \<Rightarrow> peerScores \<Rightarrow> string \<Rightarrow> 'r \<Rightarrow> 'h telemetry \<times> 'r" where
  "buildPeerTelemetry R E ps dec now scores nodeID st =
     (case telemetry_node R now nodeID st of (nd, st1) \<Rightarrow>
      case telemetry_bandwidth R nodeID st1 of (bw, st2) \<Rightarrow>
      case telemetry_payout R E ps dec now nodeID st2 of (py, st3) \<Rightarrow>
        (\<lparr>tl_node_id = nodeID, tl_node = nd, tl_bandwidth = bw, tl_payout = py, tl_score = peer_GetScore nodeID scores\<rparr>, st3))"

definition stream_frame :: "string \<Rightarrow> string" where
  "stream_frame d = ''event: telemetry'' @ [CHR 0x0A] @ ''data: '' @ d @ [CHR 0x0A, CHR 0x0A]"

text \<open>One \<open>send\<close>; telemetry that cannot be marshalled is not written.\<close>

definition stream_send :: "'r redis \<Rightarrow> pay_env \<Rightarrow> payoutService option \<Rightarrow> (string \<Rightarrow> 'h option) \<Rightarrow> ('h telemetry \<Rightarrow> string option) \<Rightarrow> string
    \<Rightarrow> time \<times> peerScores \<Rightarrow> 'r \<Rightarrow> string option \<times> 'r" where
  "stream_send R E ps dec encode nodeID = (\<lambda>(now, scores) st.
     case buildPeerTelemetry R E ps dec now scores nodeID st of (t, st1) \<Rightarrow> (map_option stream_frame (encode t), st1))"

definition peerStreamHandler :: "'r redis \<Rightarrow> pay_env \<Rightarrow> payoutService option \<Rightarrow> (string \<Rightarrow> 'h option) \<Rightarrow> ('h telemetry \<Rightarrow> string option)
    \<Rightarrow> bool \<Rightarrow> (time \<times> peerScores) \<Rightarrow> (time \<times> peerScores) list \<Rightarrow> http_req \<Rightarrow> peerSessionStore \<Rightarrow> 'r \<Rightarrow> 'h peer_body resp \<times> 'r" where
  "peerStreamHandler R E ps dec encode flushes now0 ticks r sessions st = (case ps_Validate (stream_token r) sessions of
       None \<Rightarrow> ((401, Inl ''invalid or expired token''), st)
     | Some nodeID \<Rightarrow>
         if \<not> flushes then ((500, Inl ''streaming unsupported''), st)
         else (case each (stream_send R E ps dec encode nodeID) (now0 # ticks) st of
             (frames, st1) \<Rightarrow> ((200, Inr (BStream frames)), st1)))"

section \<open>Routes\<close>

datatype peer_route = PStatus | PBandwidth | PEarnings | PHealth | PConsent "string + bool" | PDisconnect

text \<open>
  A request of one of the three kinds of routes: the authentication with the token it would draw and what it posts, a
  route of the group, the stream with its ticks.
\<close>

datatype peer_request =
    PrAuth time string "string + string"
  | PrCall time peerScores peer_route http_req
  | PrStream bool "time \<times> peerScores" "(time \<times> peerScores) list" http_req

text \<open>The parts the routes are set up with.\<close>

record ('r, 'h) peer_api =
  pa_redis :: "'r redis"
  pa_env :: pay_env
  pa_payouts :: payoutService
  pa_decode :: "string \<Rightarrow> 'h option"
  pa_encode :: "'h telemetry \<Rightarrow> string option"

fun peer_handle :: "('r, 'h) peer_api \<Rightarrow> time \<Rightarrow> peerScores \<Rightarrow> peer_route \<Rightarrow> http_req \<Rightarrow> string \<Rightarrow> peerSessionStore \<times> 'r
    \<Rightarrow> 'h peer_body resp \<times> peerSessionStore \<times> 'r" where
  "peer_handle A now scores PStatus r n (ss, st) = (case peerStatusHandler (pa_redis A) now n st of (a, st1) \<Rightarrow> (a, ss, st1))"
| "peer_handle A now scores PBandwidth r n (ss, st) = (case peerBandwidthHandler (pa_redis A) n st of (a, st1) \<Rightarrow> (a, ss, st1))"
| "peer_handle A now scores PEarnings r n (ss, st) =
     (case peerEarningsHandler (pa_redis A) (pa_env A) (pa_payouts A) (pa_decode A) now n st of (a, st1) \<Rightarrow> (a, ss, st1))"
| "peer_handle A now scores PHealth r n (ss, st) = (peerHealthHandler scores n, ss, st)"
| "peer_handle A now scores (PConsent req) r n (ss, st) = (case peerConsentHandler (pa_redis A) req n st of (a, st1) \<Rightarrow> (a, ss, st1))"
| "peer_handle A now scores PDisconnect r n (ss, st) = peerDisconnectHandler (pa_redis A) r n (ss, st)"

fun peer_serve :: "('r, 'h) peer_api \<Rightarrow> peer_request \<Rightarrow> peerSessionStore \<times> 'r \<Rightarrow> 'h peer_body resp \<times> peerSessionStore \<times> 'r" where
  "peer_serve A (PrAuth now token req) s = peerAuthHandler (pa_redis A) now token req s"
| "peer_serve A (PrCall now scores route r) s = (case peerAuthMiddleware (fst s) r of
       (Abort c m, _) \<Rightarrow> ((c, Inl m), s)
     | (Next, n) \<Rightarrow> peer_handle A now scores route r n s)"
| "peer_serve A (PrStream flushes now0 ticks r) (ss, st) =
     (case peerStreamHandler (pa_redis A) (pa_env A) (Some (pa_payouts A)) (pa_decode A) (pa_encode A) flushes now0 ticks r ss st of
        (a, st1) \<Rightarrow> (a, ss, st1))"

text \<open>The requests served one after the other; the log has the latest first.\<close>

fun peer_log :: "('r, 'h) peer_api \<Rightarrow> peer_request list \<Rightarrow> (peer_request \<times> 'h peer_body resp) list \<times> peerSessionStore \<times> 'r
    \<Rightarrow> (peer_request \<times> 'h peer_body resp) list \<times> peerSessionStore \<times> 'r" where
  "peer_log A [] x = x"
| "peer_log A (q # qs) (lg, s) = (case peer_serve A q s of (a, s') \<Rightarrow> peer_log A qs ((q, a) # lg, s'))"

section \<open>Whose a token is\<close>

text \<open>What the log says of a token: the node it was last given to, unless it was the header of a disconnection since.\<close>

definition log_owner1 :: "string \<Rightarrow> peer_request \<times> 'h peer_body resp \<Rightarrow> string option \<Rightarrow> string option" where
  "log_owner1 t e before = (case e of
       (PrAuth _ _ _, (_, Inr (BAuth t' n))) \<Rightarrow> if t' = t then Some n else before
     | (PrCall _ _ PDisconnect r, _) \<Rightarrow> if rq_header r ''X-Peer-Token'' = t then None else before
     | _ \<Rightarrow> before)"

definition log_owner :: "string \<Rightarrow> (peer_request \<times> 'h peer_body resp) list \<Rightarrow> string option" where
  "log_owner t lg = foldr (log_owner1 t) lg None"

lemma auth_served:
  assumes "peer_serve A (PrAuth now token req) s = (a, s')" and "fst s t = w"
  shows "fst s' t = log_owner1 t (PrAuth now token req, a) w"
  using assms by (cases s) (auto simp: peerAuthHandler_def log_owner1_def ps_Create_def bad_request_def split: sum.splits prod.splits)

lemma call_served:
  assumes "peer_serve A (PrCall now scores route r) s = (a, s')" and "fst s t = w" and "t \<noteq> ''''"
  shows "fst s' t = log_owner1 t (PrCall now scores route r, a) w"
proof -
  obtain ss st where s: "s = (ss, st)" by fastforce
  show ?thesis
  proof (cases "peerAuthMiddleware ss r")
    case (Pair oc n)
    with assms s show ?thesis
      by (cases oc; cases route)
        (auto simp: log_owner1_def peerDisconnectHandler_def ps_Revoke_def ps_Validate_def peerAuthMiddleware_def peer_token_def Let_def
          split: prod.splits if_splits option.splits)
  qed
qed

lemma stream_served:
  "peer_serve A (PrStream flushes now0 ticks r) s = (a, s') \<Longrightarrow> fst s' t = log_owner1 t (PrStream flushes now0 ticks r, a) (fst s t)"
  by (cases s) (auto simp: log_owner1_def split: prod.splits)

lemma serve_owner:
  assumes "peer_serve A q s = (a, s')" and "t \<noteq> ''''"
  shows "fst s' t = log_owner1 t (q, a) (fst s t)"
proof (cases q)
  case (PrAuth now token req)
  with assms(1) auth_served [of A now token req s a s' t] show ?thesis by simp
next
  case (PrCall now scores route r)
  with assms call_served [of A now scores route r s a s' t] show ?thesis by simp
next
  case (PrStream flushes now0 ticks r)
  with assms(1) stream_served [of A flushes now0 ticks r s a s' t] show ?thesis by simp
qed

text \<open>C20: Whose a node token is, exactly: after any sequence of requests a token is valid for the node it was last
  given to by the authentication, unless a disconnection has carried it in its header since; a disconnection with
  the token in its query never counts.\<close>

theorem token_owner_exact:
  assumes "peer_log A qs ([], NewPeerSessionStore, st) = (lg, ss, st')" and "t \<noteq> ''''"
  shows "ps_Validate t ss = log_owner t lg"
proof -
  have "peer_log A qs (lg0, s0) = (lg, ss, st') \<Longrightarrow> fst s0 t = log_owner t lg0 \<Longrightarrow> ss t = log_owner t lg" for lg0 s0
  proof (induction qs arbitrary: lg0 s0)
    case (Cons q qs)
    obtain a s1 where q: "peer_serve A q s0 = (a, s1)" by (cases "peer_serve A q s0")
    with Cons.prems have "peer_log A qs ((q, a) # lg0, s1) = (lg, ss, st')" by simp
    moreover have "fst s1 t = log_owner t ((q, a) # lg0)"
      using serve_owner [OF q assms(2)] Cons.prems(2) by (simp add: log_owner_def)
    ultimately show ?case by (rule Cons.IH)
  qed auto
  from this [OF assms(1)] show ?thesis by (simp add: NewPeerSessionStore_def log_owner_def ps_Validate_def)
qed

definition api_demo :: "(mem, unit) peer_api" where
  "api_demo = \<lparr>pa_redis = mem_redis, pa_env = \<lparr>pe_month = show_int, pe_marshal = (\<lambda>_. Inr '''')\<rparr>, pa_payouts = NewPayoutService,
     pa_decode = (\<lambda>_. None), pa_encode = (\<lambda>_. None)\<rparr>"

definition node_mem :: mem where
  "node_mem = mem_empty\<lparr>m_hash := (\<lambda>k. if k = ''node_meta:n'' then [(''os'', ''linux'')] else [])\<rparr>"

definition demo_req :: "string \<Rightarrow> string \<Rightarrow> http_req" where
  "demo_req h q = \<lparr>rq_method = ''POST'', rq_path = ''/api/peer/disconnect'', rq_clientIP = '''',
     rq_header = (\<lambda>k. if k = ''X-Peer-Token'' then h else ''''), rq_query = (\<lambda>k. if k = ''token'' then q else ''''), rq_contentLength = 0\<rparr>"

definition demo_visit :: "string \<Rightarrow> string \<Rightarrow> peer_request list" where
  "demo_visit h q = [PrAuth 1 ''t'' (Inr ''n''), PrCall 2 Map.empty PDisconnect (demo_req h q)]"

lemmas demo_visit_defs = demo_visit_def demo_req_def api_demo_def node_mem_def peerAuthHandler_def GetNode_def field_time_def
  mem_empty_def ps_Create_def NewPeerSessionStore_def peerAuthMiddleware_def peer_token_def ps_Validate_def peerDisconnectHandler_def
  ps_Revoke_def DeregisterNode_def RemoveNode_def Let_def

text \<open>After the same visit the token of the header is gone and that of the query is not.\<close>

theorem token_owner_exact_witness:
  "ps_Validate ''t'' (fst (snd (peer_log api_demo (demo_visit ''t'' '''') ([], NewPeerSessionStore, node_mem)))) = None \<and>
   ps_Validate ''t'' (fst (snd (peer_log api_demo (demo_visit '''' ''t'') ([], NewPeerSessionStore, node_mem)))) = Some ''n''"
proof -
  have *: "ps_Validate ''t'' (fst (snd (peer_log api_demo qs ([], NewPeerSessionStore, node_mem)))) =
      log_owner ''t'' (fst (peer_log api_demo qs ([], NewPeerSessionStore, node_mem)))" for qs
    using token_owner_exact [of api_demo qs node_mem _ _ _ "''t''"] by (metis list.distinct(1) prod.collapse)
  show ?thesis unfolding * by (simp add: demo_visit_defs log_owner_def log_owner1_def)
qed

section \<open>Tokens need no proof of ownership\<close>

text \<open>Anyone who knows the id of a registered node removes it: the authentication asks for nothing else, and
  the token it answers with is accepted by the consent route, which takes the node out of the pool.\<close>

theorem node_id_suffices:
  assumes "fst (GetNode (pa_redis A) now n st) = Inr nd" and "n \<noteq> ''''" and "t \<noteq> ''''" and "rq_header r ''X-Peer-Token'' = t"
  shows "fst (peer_log A [PrAuth now t (Inr n), PrCall now' scores (PConsent (Inr False)) r] ([], ss, st)) =
      [(PrCall now' scores (PConsent (Inr False)) r,
         case fst (RemoveNode (pa_redis A) n (snd (GetNode (pa_redis A) now n st))) of
           None \<Rightarrow> (200, Inr (BConsent n False)) | Some e \<Rightarrow> (500, Inl (err_text e))),
       (PrAuth now t (Inr n), 200, Inr (BAuth t n))] \<and>
    snd (snd (peer_log A [PrAuth now t (Inr n), PrCall now' scores (PConsent (Inr False)) r] ([], ss, st))) =
      snd (RemoveNode (pa_redis A) n (snd (GetNode (pa_redis A) now n st)))"
proof -
  obtain st1 where g: "GetNode (pa_redis A) now n st = (Inr nd, st1)" using assms(1) by (metis prod.collapse)
  obtain e st2 where "RemoveNode (pa_redis A) n st1 = (e, st2)" by fastforce
  with g assms(2-4) show ?thesis
    by (cases e) (simp_all add: peerAuthHandler_def ps_Create_def peerAuthMiddleware_def peer_token_def ps_Validate_def
        peerConsentHandler_def DeregisterNode_def)
qed

definition del_keys :: "string list \<Rightarrow> mem redis" where
  "del_keys ks = mem_redis\<lparr>cKeys := (\<lambda>p s. (Inr (filter (\<lambda>k. m_hash s k \<noteq> []) ks), s))\<rparr>"

theorem node_id_suffices_witness:
  "m_hash (snd (snd (peer_log (api_demo\<lparr>pa_redis := del_keys [''node_meta:n'']\<rparr>)
      [PrAuth 1 ''t'' (Inr ''n''), PrCall 2 Map.empty (PConsent (Inr False)) (demo_req ''t'' '''')] ([], NewPeerSessionStore, node_mem)))) ''node_meta:n'' = []"
proof -
  let ?A = "api_demo\<lparr>pa_redis := del_keys [''node_meta:n'']\<rparr>"
  have g: "fst (GetNode (pa_redis ?A) 1 ''n'' node_mem) = Inr (zero_node\<lparr>nd_ID := ''n'', nd_ISP := '''', nd_OS := ''linux'', nd_Battery := 0, nd_LastSeen := 1\<rparr>)"
    by (simp add: GetNode_def del_keys_def node_mem_def mem_empty_def field_time_def field_str_def field_int_def)
  have "rq_header (demo_req ''t'' '''') ''X-Peer-Token'' = ''t''" by (simp add: demo_req_def)
  from conjunct2 [OF node_id_suffices [OF g _ _ this, of 2 Map.empty NewPeerSessionStore]] show ?thesis
    by (simp add: RemoveNode_def GetNode_def del_keys_def node_mem_def mem_empty_def)
qed

section \<open>What a stream does to the payouts\<close>

text \<open>Documented behaviour of the server: reading commands change nothing, and RPUSH with LTRIM keeps the last 48 of a list.\<close>

definition last_n :: "nat \<Rightarrow> 'a list \<Rightarrow> 'a list" where
  "last_n n xs = drop (length xs - n) xs"

definition payout_server :: "'r redis \<Rightarrow> ('r \<Rightarrow> string \<Rightarrow> string list) \<Rightarrow> bool" where
  "payout_server R L \<longleftrightarrow> lists_apart R \<and>
     (\<forall>k s. snd (cGet R k s) = s \<and> snd (cKeys R k s) = s \<and> snd (cSMembers R k s) = s) \<and>
     (\<forall>k a b s. snd (cLRange R k a b s) = s) \<and> (\<forall>k v s. snd (cZScore R k v s) = s) \<and>
     (\<forall>k d s. L (snd (cExec R [PRPush k d, PLTrim k (- 48) (- 1)] s)) k = last_n 48 (L s k @ [d]))"

lemma last_n_last_n: "last_n m (last_n m xs @ ys) = last_n m (xs @ ys)"
  by (cases "length xs \<le> m") (simp_all add: last_n_def add.commute)

lemma or_nil_snd [simp]: "snd (or_nil x) = snd x"
  by (auto simp: or_nil_def split: prod.splits sum.splits)

lemma each_reads: "(\<And>k s. snd (f k s) = s) \<Longrightarrow> snd (each f ks st) = st"
  by (induction ks arbitrary: st) (auto split: prod.splits, metis snd_conv)

lemma reads_keep:
  assumes "payout_server R L"
  shows "snd (telemetry_node R now n st) = st" and "snd (or_nil (GetBandwidthHistory R n st)) = st"
    and "snd (or_nil (py_GetPayoutHistory R dec n k st)) = st"
proof -
  have h: "snd (cHGetAll R k s) = s" "snd (cGet R k s) = s" "snd (cKeys R k s) = s" "snd (cSMembers R k s) = s" "snd (cLRange R k a b s) = s"
    "snd (cZScore R k v s) = s" for k s a b v
    using assms by (auto simp: payout_server_def lists_apart_def)
  have z: "snd (each (\<lambda>k s. case cZScore R k n s of (_, s') \<Rightarrow> (None :: unit option, s')) ks s) = s" for ks s
    by (rule each_reads) (simp add: split_beta h)
  have "snd (GetNode R now n st) = st"
    using h(1) [of "''node_meta:'' @ n" st] h(3) [of "''nodes:*'' " st] by (auto simp: GetNode_def z split: sum.splits prod.splits)
  moreover have "snd (GetNodeLoad R n st) = st" for st using h(2) [of "''node_load:'' @ n" st] by (auto simp: GetNodeLoad_def split: prod.splits)
  ultimately show "snd (telemetry_node R now n st) = st"
    by (auto simp: telemetry_node_def split: sum.splits prod.splits) (metis snd_conv)+
  have "snd (GetBandwidthHistory R n st) = st"
  proof (cases "cSMembers R (''bandwidth_dates:'' @ n) st")
    case (Pair x s)
    with h(4) [of "''bandwidth_dates:'' @ n" st] have "s = st" by simp
    with Pair show ?thesis by (cases x) (simp_all add: GetBandwidthHistory_def split_beta each_reads h split: sum.split)
  qed
  then show "snd (or_nil (GetBandwidthHistory R n st)) = st" by simp
  show "snd (or_nil (py_GetPayoutHistory R dec n k st)) = st"
    using h(5) [of "''payout:'' @ n" "i64 (- k)" "- 1" st]
    by (auto simp: py_GetPayoutHistory_def GetPayoutHistory_def read_json_def split: prod.splits sum.splits)
qed

lemma stream_send_pays:
  assumes "payout_server R L"
  shows "snd (stream_send R E (Some p) dec encode n (now, scores) st) = snd (CalculatePayout R E p now n now st)"
proof -
  have l: "lists_apart R" using assms by (simp add: payout_server_def)
  have b: "snd (telemetry_bandwidth R n st) = st"
  proof (cases "GetBandwidth R n st")
    case (Pair x s)
    with lists_apart_GetBandwidth(1) [OF l, of n st] have "s = st" by simp
    with Pair show ?thesis using reads_keep(2) [OF assms, of n st]
      by (cases x) (simp_all add: telemetry_bandwidth_def split_beta)
  qed
  have y: "snd (telemetry_payout R E (Some p) dec now n st) = snd (CalculatePayout R E p now n now st)"
  proof (cases "CalculatePayout R E p now n now st")
    case (Pair x s)
    then show ?thesis using reads_keep(3) [OF assms, of dec n 10 s]
      by (cases x) (simp_all add: telemetry_payout_def split_beta)
  qed
  show ?thesis
    using reads_keep(1) [OF assms, of now n st] b y
    by (simp add: stream_send_def buildPeerTelemetry_def split_beta)
qed

text \<open>The record one calculation leaves: none for an amount that is not positive or a payout that cannot be marshalled. The
  history keeps the last 48.\<close>

definition paid_text :: "pay_env \<Rightarrow> payoutService \<Rightarrow> string \<Rightarrow> bandwidthData \<Rightarrow> time \<Rightarrow> string list" where
  "paid_text E p n b now = (let r = payout_of E p now n now b
     in if f_lt (f_int 0) (po_Amount r) then (case pe_marshal E r of Inl _ \<Rightarrow> [] | Inr d \<Rightarrow> [d]) else [])"

definition append_48 :: "string list \<Rightarrow> string list \<Rightarrow> string list" where
  "append_48 xs ys = (if ys = [] then xs else last_n 48 (xs @ ys))"

lemma append_48_append: "append_48 (append_48 xs ys) zs = append_48 xs (ys @ zs)"
  by (simp add: append_48_def last_n_last_n)

lemma CalculatePayout_records:
  assumes "payout_server R L" and "fst (GetBandwidth R n st) = Inr b"
  shows "L (snd (CalculatePayout R E p now n now st)) (''payout:'' @ n) = append_48 (L st (''payout:'' @ n)) (paid_text E p n b now)"
proof -
  have l: "lists_apart R" using assms(1) by (simp add: payout_server_def)
  have "GetBandwidth R n st = (Inr b, st)"
    using assms(2) lists_apart_GetBandwidth(1) [OF l, of n st] by (metis prod.collapse)
  with assms(1) show ?thesis
    by (simp add: CalculatePayout_def calculatePayoutInternal_def RecordPayout_def push_json_def payout_server_def split_beta
        paid_text_def append_48_def Let_def split: sum.split)
qed

text \<open>The texts a stream records, tick by tick.\<close>

definition stream_records :: "pay_env \<Rightarrow> payoutService \<Rightarrow> string \<Rightarrow> bandwidthData \<Rightarrow> (time \<times> peerScores) list \<Rightarrow> string list" where
  "stream_records E p n b ticks = concat (map (\<lambda>(now, _). paid_text E p n b now) ticks)"

lemma stream_sends_pay:
  assumes "payout_server R L" and "fst (GetBandwidth R n st) = Inr b"
  shows "L (snd (each (stream_send R E (Some p) dec encode n) ticks st)) (''payout:'' @ n) =
    append_48 (L st (''payout:'' @ n)) (stream_records E p n b ticks)"
  using assms(2)
proof (induction ticks arbitrary: st)
  case (Cons t ticks)
  obtain now scores where t: "t = (now, scores)" by fastforce
  obtain o1 st1 where s: "stream_send R E (Some p) dec encode n (now, scores) st = (o1, st1)" by fastforce
  with stream_send_pays [OF assms(1), of E p dec encode n now scores st] have st1: "st1 = snd (CalculatePayout R E p now n now st)" by simp
  have l: "lists_apart R" using assms(1) by (simp add: payout_server_def)
  have b: "fst (GetBandwidth R n st1) = Inr b" using CalculatePayout_paid [OF l Cons.prems] st1 by blast
  have e: "snd (each (stream_send R E (Some p) dec encode n) (t # ticks) st) = snd (each (stream_send R E (Some p) dec encode n) ticks st1)"
    by (simp add: t s split_beta)
  show ?case
    using Cons.IH [OF b] CalculatePayout_records [OF assms(1) Cons.prems, of E p now] e
    by (simp add: t st1 stream_records_def append_48_append)
qed (simp add: stream_records_def append_48_def)

text \<open>C21: What a telemetry stream leaves in the payout history, for a node whose traffic counters can be read, with a valid
  token, on a server that carries out the pushes: nothing if the connection cannot be flushed. Otherwise every one of its
  sends, the first and one at each tick, calculates a payout of the node's whole traffic, and records it if the amount
  is positive (below the minimum it is zero) and the payout can be marshalled; the history is then the last 48 of the
  earlier records and these, so 48 sends that record, a stream of four minutes at a tick every 5 seconds, replace all of
  it. The traffic does not change meanwhile.\<close>

theorem stream_fills_payouts:
  assumes "payout_server R L" and "fst (GetBandwidth R n st) = Inr b" and "ps_Validate (stream_token r) ss = Some n"
  shows "L (snd (peerStreamHandler R E (Some p) dec encode flushes now0 ticks r ss st)) (''payout:'' @ n) =
    (let records = (if flushes then concat (map (\<lambda>(now, _). let pay = payout_of E p now n now b
           in if f_lt (f_int 0) (po_Amount pay) then (case pe_marshal E pay of Inl _ \<Rightarrow> [] | Inr d \<Rightarrow> [d]) else []) (now0 # ticks)) else [])
     in if records = [] then L st (''payout:'' @ n)
        else if 48 \<le> length records then last_n 48 records
        else last_n 48 (L st (''payout:'' @ n) @ records))"
proof -
  obtain fr st1 where e: "each (stream_send R E (Some p) dec encode n) (now0 # ticks) st = (fr, st1)" by fastforce
  with assms(3) have h: "snd (peerStreamHandler R E (Some p) dec encode flushes now0 ticks r ss st) = (if flushes then st1 else st)"
    by (simp add: peerStreamHandler_def del: each.simps)
  have r: "concat (map (\<lambda>(now, _). let pay = payout_of E p now n now b
           in if f_lt (f_int 0) (po_Amount pay) then (case pe_marshal E pay of Inl _ \<Rightarrow> [] | Inr d \<Rightarrow> [d]) else []) (now0 # ticks))
      = stream_records E p n b (now0 # ticks)" by (simp add: stream_records_def paid_text_def)
  have "L st1 (''payout:'' @ n) = append_48 (L st (''payout:'' @ n)) (stream_records E p n b (now0 # ticks))"
    using stream_sends_pay [OF assms(1,2), of E p dec encode "now0 # ticks"] e by simp
  then show ?thesis unfolding h r by (simp add: append_48_def Let_def last_n_def)
qed

fun list_exec :: "pipe_cmd list \<Rightarrow> (pipe_reply list, mem) redis_cmd" where
  "list_exec [PRPush k d, PLTrim k' a b] s = (Inr [], s\<lparr>m_list := (m_list s)(k := last_n (nat (- a)) (m_list s k @ [d]))\<rparr>)"
| "list_exec cs s = (Inr [], s)"

definition list_redis :: "mem redis" where
  "list_redis = mem_redis\<lparr>cExec := list_exec\<rparr>"

theorem stream_fills_payouts_witness:
  "m_list (snd (peerStreamHandler list_redis \<lparr>pe_month = show_int, pe_marshal = (\<lambda>r. Inr (show_int (po_CalculatedAt r)))\<rparr> (Some pay_service)
      (\<lambda>_. None :: unit option) (\<lambda>_. None) True (1, Map.empty) [(2, Map.empty)] (demo_req '''' ''t'') [''t'' \<mapsto> ''n''] pay_demo)) ''payout:n''
    = [''1'', ''2'']"
proof -
  let ?E = "\<lparr>pe_month = show_int, pe_marshal = (\<lambda>r. Inr (show_int (po_CalculatedAt r)))\<rparr>"
  let ?b = "\<lparr>bd_BytesSent = 42949672960, bd_BytesReceived = 0, bd_DurationSeconds = 0\<rparr>"
  have l: "payout_server list_redis m_list" by (simp add: payout_server_def lists_apart_def list_redis_def mem_get_def split: option.splits)
  have b: "fst (GetBandwidth list_redis ''n'' pay_demo) = Inr ?b"
    by (simp add: list_redis_def pay_demo_def GetBandwidth_def bandwidth_of_def raw_int_def parse_show_int in_i64_def mem_empty_def)
  have "f_round 40 = Fin 40" "f_round 0 = Fin 0" using f_int_def [of 40] f_int_def [of 0] by simp_all
  then have a: "f_lt (f_int 0) (po_Amount (payout_of ?E pay_service 0 ''n'' 0 ?b))"
    by (simp add: payout_of_def pay_service_def SetTiers_def SetRates_def gigabytes_def findTier_def in_tier_def getTierRates_def Let_def)
  have m: "pe_marshal ?E = (\<lambda>r. Inr (show_int (po_CalculatedAt r)))" by simp
  have t: "ps_Validate (stream_token (demo_req '''' ''t'')) [''t'' \<mapsto> ''n''] = Some ''n''"
    by (simp add: ps_Validate_def stream_token_def demo_req_def)
  have c: "po_CalculatedAt (payout_of E p now n period b) = now" for E p now n period b by (simp add: payout_of_def Let_def split_beta)
  have d: "show_int 1 = ''1''" "show_int 2 = ''2''" by code_simp+
  have "f_lt (f_int 0) (po_Amount (payout_of ?E pay_service now ''n'' now ?b))" for now using a payout_of_amount by metis
  then show ?thesis
    using stream_fills_payouts [OF l b t, of ?E pay_service "\<lambda>_. None" "\<lambda>_. None" True "(1, Map.empty)" "[(2, Map.empty)]"] m
    by (simp add: c last_n_def pay_demo_def mem_empty_def d)
qed

end
