(* ===== verification/Config.thy ===== *)
theory Config
  imports Payout
begin

text \<open>
  The configuration (\<open>internal/config/config.go\<close>): its data, the overrides from the environment, and the state of
  the package: the current configuration, its path, whether \<open>Load\<close> has run, and the subscribers. The library that
  reads and writes the file (viper) is a parameter over its own state; a subscriber acts on a world of any type.
\<close>

section \<open>Data\<close>

record compressionConfig =
  cc_Enabled :: bool
  cc_Level :: int

record gatewayConfig =
  gc_Host :: string
  gc_Port :: int
  gc_MTLSEnabled :: bool
  gc_CACertPath :: string
  gc_ServerCertPath :: string
  gc_ServerKeyPath :: string
  gc_CircuitBreakerThreshold :: int
  gc_RateLimitRequests :: int
  gc_RateLimitWindowSeconds :: int
  gc_RateLimitDistributed :: bool
  gc_TracingEnabled :: bool
  gc_CooldownSeconds :: int
  gc_RequestTimeoutSeconds :: int
  gc_IdleTimeoutSeconds :: int
  gc_ReadHeaderTimeoutSeconds :: int
  gc_RequestIDPrefix :: string
  gc_RequestIDFormat :: string
  gc_Compression :: compressionConfig
  gc_RequestLoggingEnabled :: bool

record matchmakerConfig =
  mc_Host :: string
  mc_Port :: int
  mc_PoolSize :: int
  mc_CooldownTTLMinutes :: int

record redisConfig =
  rc_Host :: string
  rc_Port :: int
  rc_Password :: string
  rc_DB :: int
  rc_ClusterEnabled :: bool
  rc_ClusterAddrs :: "string list"
  rc_SentinelEnabled :: bool
  rc_SentinelAddrs :: "string list"
  rc_SentinelMaster :: string
  rc_PoolSize :: int
  rc_MaxRetries :: int

record complianceConfig =
  co_BlockedDomains :: "string list"
  co_KYCRequired :: bool

record peerLimits =
  pl_MinBatteryPercent :: int
  pl_MaxCPUPercent :: int
  pl_RequireUnmeteredWiFi :: bool

record subnetConfig =
  sc_Enabled :: bool
  sc_Prefix :: string
  sc_PrefixLen :: int

record federationConfig =
  fc_Enabled :: bool
  fc_Regions :: "string list"
  fc_HeartbeatInterval :: int
  fc_SyncInterval :: int

record jwtConfig =
  jc_Enabled :: bool
  jc_SecretKey :: string
  jc_Expiration :: duration

record rbacConfig =
  bc_Enabled :: bool
  bc_DefaultRole :: string
  bc_MinPasswordLen :: int
  bc_MaxLoginAttempts :: int
  bc_LockoutDuration :: int

record prometheusConfig =
  pm_Enabled :: bool
  pm_PushGatewayURL :: string
  pm_PushIntervalSeconds :: int
  pm_JobName :: string

record config =
  cf_Gateway :: gatewayConfig
  cf_Matchmaker :: matchmakerConfig
  cf_Redis :: redisConfig
  cf_Compliance :: complianceConfig
  cf_Peer :: peerLimits
  cf_Subnet :: subnetConfig
  cf_Tiers :: "pricingTier list"
  cf_Federation :: federationConfig
  cf_JWT :: jwtConfig
  cf_RBAC :: rbacConfig
  cf_Prometheus :: prometheusConfig

section \<open>Overrides\<close>

text \<open>\<open>strconv.ParseBool\<close>.\<close>

definition ParseBool :: "string \<Rightarrow> bool option" where
  "ParseBool s = (if s \<in> {''1'', ''t'', ''T'', ''TRUE'', ''true'', ''True''} then Some True
     else if s \<in> {''0'', ''f'', ''F'', ''FALSE'', ''false'', ''False''} then Some False else None)"

text \<open>A text that is not empty, and a text that is not empty and a boolean, replace a field.\<close>

definition or_text :: "string \<Rightarrow> string \<Rightarrow> string" where
  "or_text v old = (if v \<noteq> '''' then v else old)"

definition or_bool :: "string \<Rightarrow> bool \<Rightarrow> bool" where
  "or_bool v old = (if v \<noteq> '''' then (case ParseBool v of Some b \<Rightarrow> b | None \<Rightarrow> old) else old)"

definition applyEnvOverrides :: "(string \<Rightarrow> string) \<Rightarrow> config \<Rightarrow> config" where
  "applyEnvOverrides env c =
     c\<lparr>cf_Redis := (cf_Redis c)\<lparr>rc_Password := or_text (env ''REDIS_PASSWORD'') (rc_Password (cf_Redis c))\<rparr>,
       cf_Gateway := (cf_Gateway c)\<lparr>
         gc_MTLSEnabled := or_bool (env ''MTLS_ENABLED'') (gc_MTLSEnabled (cf_Gateway c)),
         gc_CACertPath := or_text (env ''MTLS_CA_CERT_PATH'') (gc_CACertPath (cf_Gateway c)),
         gc_ServerCertPath := or_text (env ''MTLS_SERVER_CERT_PATH'') (gc_ServerCertPath (cf_Gateway c)),
         gc_ServerKeyPath := or_text (env ''MTLS_SERVER_KEY_PATH'') (gc_ServerKeyPath (cf_Gateway c)),
         gc_RequestIDPrefix := or_text (env ''REQUEST_ID_PREFIX'') (gc_RequestIDPrefix (cf_Gateway c)),
         gc_RequestIDFormat := or_text (env ''REQUEST_ID_FORMAT'') (gc_RequestIDFormat (cf_Gateway c))\<rparr>,
       cf_JWT := (cf_JWT c)\<lparr>
         jc_Enabled := or_bool (env ''JWT_ENABLED'') (jc_Enabled (cf_JWT c)),
         jc_SecretKey := or_text (env ''JWT_SECRET_KEY'') (jc_SecretKey (cf_JWT c))\<rparr>,
       cf_RBAC := (cf_RBAC c)\<lparr>bc_Enabled := or_bool (env ''RBAC_ENABLED'') (bc_Enabled (cf_RBAC c))\<rparr>\<rparr>"

lemma overrides_idem: "applyEnvOverrides env (applyEnvOverrides env c) = applyEnvOverrides env c"
  by (cases "ParseBool (env ''MTLS_ENABLED'')"; cases "ParseBool (env ''JWT_ENABLED'')"; cases "ParseBool (env ''RBAC_ENABLED'')")
    (simp_all add: applyEnvOverrides_def or_text_def or_bool_def)

lemma no_overrides: "applyEnvOverrides (\<lambda>_. '''') c = c"
  by (simp add: applyEnvOverrides_def or_text_def or_bool_def)

section \<open>The package\<close>

text \<open>
  What the code uses of the library: reading the file at a path, filling a fresh configuration (also after an error,
  when it may be filled in part), setting a key and writing the file.
\<close>

record ('v, 'a) viper =
  vp_read :: "string \<Rightarrow> 'v \<Rightarrow> go_err option \<times> 'v"
  vp_unmarshal :: "'v \<Rightarrow> go_err option \<times> config"
  vp_set :: "string \<Rightarrow> 'a \<Rightarrow> 'v \<Rightarrow> 'v"
  vp_write :: "'v \<Rightarrow> go_err option \<times> 'v"

record ('v, 'w) config_state =
  cg_cfg :: "config option"
  cg_path :: string
  cg_once :: bool
  cg_subscribers :: "(config \<Rightarrow> 'w \<Rightarrow> 'w) list"
  cg_viper :: 'v

text \<open>The body of \<open>once.Do\<close>.\<close>

definition load_first :: "('v, 'a) viper \<Rightarrow> (string \<Rightarrow> string) \<Rightarrow> string \<Rightarrow> ('v, 'w) config_state \<Rightarrow> go_err option \<times> ('v, 'w) config_state" where
  "load_first V env path s = (case vp_read V path (cg_viper s) of
       (Some e, v) \<Rightarrow> (Some (Wrap ''failed to read config'' e), s\<lparr>cg_path := path, cg_viper := v\<rparr>)
     | (None, v) \<Rightarrow> (case vp_unmarshal V v of
         (Some e, c) \<Rightarrow> (Some (Wrap ''failed to unmarshal config'' e), s\<lparr>cg_path := path, cg_viper := v, cg_cfg := Some c\<rparr>)
       | (None, c) \<Rightarrow> (None, s\<lparr>cg_path := path, cg_viper := v, cg_cfg := Some (applyEnvOverrides env c)\<rparr>)))"

definition cfg_Load :: "('v, 'a) viper \<Rightarrow> (string \<Rightarrow> string) \<Rightarrow> string \<Rightarrow> ('v, 'w) config_state \<Rightarrow> (config option \<times> go_err option) \<times> ('v, 'w) config_state" where
  "cfg_Load V env path s = (if cg_once s then ((cg_cfg s, None), s)
     else (case load_first V env path s of (e, s1) \<Rightarrow> ((cg_cfg s1, e), s1\<lparr>cg_once := True\<rparr>)))"

definition cfg_Get :: "('v, 'w) config_state \<Rightarrow> config option" where
  "cfg_Get s = cg_cfg s"

definition cfg_Set :: "('v, 'a) viper \<Rightarrow> string \<Rightarrow> 'a \<Rightarrow> ('v, 'w) config_state \<Rightarrow> ('v, 'w) config_state" where
  "cfg_Set V key value s = s\<lparr>cg_viper := vp_set V key value (cg_viper s)\<rparr>"

definition cfg_Save :: "('v, 'a) viper \<Rightarrow> ('v, 'w) config_state \<Rightarrow> go_err option \<times> ('v, 'w) config_state" where
  "cfg_Save V s = (case vp_write V (cg_viper s) of
       (Some e, v) \<Rightarrow> (Some (Wrap ''failed to write config'' e), s\<lparr>cg_viper := v\<rparr>)
     | (None, v) \<Rightarrow> (None, s\<lparr>cg_viper := v\<rparr>))"

definition OnChange :: "(config \<Rightarrow> 'w \<Rightarrow> 'w) \<Rightarrow> ('v, 'w) config_state \<Rightarrow> ('v, 'w) config_state" where
  "OnChange fn s = s\<lparr>cg_subscribers := cg_subscribers s @ [fn]\<rparr>"

text \<open>
  What \<open>Watch\<close> runs when the file has changed: the library has read the file again, so its state is \<open>v\<close>.
\<close>

definition config_changed :: "('v, 'a) viper \<Rightarrow> 'v \<Rightarrow> ('v, 'w) config_state \<times> 'w \<Rightarrow> ('v, 'w) config_state \<times> 'w" where
  "config_changed V v = (\<lambda>(s, w). case vp_unmarshal V v of
       (Some _, _) \<Rightarrow> (s\<lparr>cg_viper := v\<rparr>, w)
     | (None, newCfg) \<Rightarrow> (s\<lparr>cg_viper := v, cg_cfg := Some newCfg\<rparr>, fold (\<lambda>fn. fn newCfg) (cg_subscribers s) w))"

section \<open>Loading again, and reloading\<close>

lemma load_again: "cg_once s \<Longrightarrow> cfg_Load V env path s = ((cfg_Get s, None), s)"
  by (simp add: cfg_Load_def cfg_Get_def)

text \<open>A failure to read the configuration is reported once only: the first \<open>Load\<close> of a package without a
  configuration returns the error and no configuration, and every later one returns no configuration and no error,
  whatever its path.\<close>

theorem failed_load_forgotten:
  assumes "\<not> cg_once s" and "cg_cfg s = None" and "vp_read V path (cg_viper s) = (Some e, v)"
  shows "fst (cfg_Load V env path s) = (None, Some (Wrap ''failed to read config'' e)) \<and>
    fst (cfg_Load V env' path' (snd (cfg_Load V env path s))) = (None, None)"
  using assms by (simp add: cfg_Load_def load_first_def)

text \<open>The runs of the watcher, one change of the file after the other.\<close>

definition watch_run :: "('v, 'a) viper \<Rightarrow> 'v list \<Rightarrow> ('v, 'w) config_state \<times> 'w \<Rightarrow> ('v, 'w) config_state \<times> 'w" where
  "watch_run V vs x = fold (config_changed V) vs x"

fun last_valid :: "('v, 'a) viper \<Rightarrow> 'v list \<Rightarrow> config option" where
  "last_valid V [] = None"
| "last_valid V (v # vs) = (case last_valid V vs of Some c \<Rightarrow> Some c
     | None \<Rightarrow> (case vp_unmarshal V v of (None, c) \<Rightarrow> Some c | (Some _, _) \<Rightarrow> None))"

lemma config_changed_cfg:
  "cg_cfg (fst (config_changed V v x)) = (case vp_unmarshal V v of (None, c) \<Rightarrow> Some c | _ \<Rightarrow> cg_cfg (fst x))"
  by (cases x) (auto simp: config_changed_def split: prod.splits option.splits)

lemma last_valid_snoc:
  "last_valid V (vs @ [v]) = (case vp_unmarshal V v of (None, c) \<Rightarrow> Some c | _ \<Rightarrow> last_valid V vs)"
  by (induction vs) (auto split: prod.splits option.splits)

lemma watch_run_cfg:
  "cg_cfg (fst (watch_run V vs x)) = (case last_valid V vs of Some c \<Rightarrow> Some c | None \<Rightarrow> cg_cfg (fst x))"
proof (induction vs rule: rev_induct)
  case Nil
  then show ?case by (simp add: watch_run_def)
next
  case (snoc v vs)
  have "watch_run V (vs @ [v]) x = config_changed V v (watch_run V vs x)" by (simp add: watch_run_def)
  with snoc show ?case
    by (auto simp: config_changed_cfg last_valid_snoc split: prod.splits option.splits)
qed

text \<open>C26: A reload drops what the environment overrides: \<open>Load\<close> gives the file's configuration with the overrides,
  and after any changes of the file the configuration is that of the last file that could be read, as it stands in
  the file: in particular its signing secret and whether tokens and roles are checked.\<close>

theorem reload_drops_overrides:
  assumes "\<not> cg_once s" and "vp_read V path (cg_viper s) = (None, v0)" and "vp_unmarshal V v0 = (None, c0)"
    and "watch_run V vs (snd (cfg_Load V env path s), w) = (s', w')"
  shows "fst (cfg_Load V env path s) = (Some (applyEnvOverrides env c0), None) \<and>
    cfg_Get s' = (case last_valid V vs of Some c \<Rightarrow> Some c | None \<Rightarrow> Some (applyEnvOverrides env c0))"
proof -
  have l: "cg_cfg (snd (cfg_Load V env path s)) = Some (applyEnvOverrides env c0)"
      "fst (cfg_Load V env path s) = (Some (applyEnvOverrides env c0), None)"
    using assms(1-3) by (simp_all add: cfg_Load_def load_first_def)
  have "cfg_Get s' = (case last_valid V vs of Some c \<Rightarrow> Some c | None \<Rightarrow> cg_cfg (snd (cfg_Load V env path s)))"
    using watch_run_cfg [of V vs "(snd (cfg_Load V env path s), w)"] assms(4) by (simp only: cfg_Get_def fst_conv)
  with l show ?thesis by (simp split: option.split)
qed

definition demo_config0 :: config where
  "demo_config0 = \<lparr>cf_Gateway = \<lparr>gc_Host = '''', gc_Port = 8080, gc_MTLSEnabled = False, gc_CACertPath = '''', gc_ServerCertPath = '''',
       gc_ServerKeyPath = '''', gc_CircuitBreakerThreshold = 5, gc_RateLimitRequests = 10, gc_RateLimitWindowSeconds = 1, gc_RateLimitDistributed = False,
       gc_TracingEnabled = False, gc_CooldownSeconds = 1, gc_RequestTimeoutSeconds = 1, gc_IdleTimeoutSeconds = 1, gc_ReadHeaderTimeoutSeconds = 1,
       gc_RequestIDPrefix = '''', gc_RequestIDFormat = '''', gc_Compression = \<lparr>cc_Enabled = False, cc_Level = 0\<rparr>, gc_RequestLoggingEnabled = False\<rparr>,
     cf_Matchmaker = \<lparr>mc_Host = '''', mc_Port = 1, mc_PoolSize = 1, mc_CooldownTTLMinutes = 1\<rparr>,
     cf_Redis = \<lparr>rc_Host = '''', rc_Port = 6379, rc_Password = '''', rc_DB = 0, rc_ClusterEnabled = False, rc_ClusterAddrs = [], rc_SentinelEnabled = False,
       rc_SentinelAddrs = [], rc_SentinelMaster = '''', rc_PoolSize = 1, rc_MaxRetries = 1\<rparr>,
     cf_Compliance = \<lparr>co_BlockedDomains = [], co_KYCRequired = False\<rparr>,
     cf_Peer = \<lparr>pl_MinBatteryPercent = 0, pl_MaxCPUPercent = 100, pl_RequireUnmeteredWiFi = False\<rparr>,
     cf_Subnet = \<lparr>sc_Enabled = False, sc_Prefix = '''', sc_PrefixLen = 0\<rparr>, cf_Tiers = [],
     cf_Federation = \<lparr>fc_Enabled = False, fc_Regions = [], fc_HeartbeatInterval = 1, fc_SyncInterval = 1\<rparr>,
     cf_JWT = \<lparr>jc_Enabled = False, jc_SecretKey = ''file'', jc_Expiration = 0\<rparr>,
     cf_RBAC = \<lparr>bc_Enabled = False, bc_DefaultRole = '''', bc_MinPasswordLen = 1, bc_MaxLoginAttempts = 1, bc_LockoutDuration = 1\<rparr>,
     cf_Prometheus = \<lparr>pm_Enabled = False, pm_PushGatewayURL = '''', pm_PushIntervalSeconds = 1, pm_JobName = ''''\<rparr>\<rparr>"

definition demo_viper :: "(unit, unit) viper" where
  "demo_viper = \<lparr>vp_read = (\<lambda>p _. (if p = ''missing'' then Some (Err ''no such file'') else None, ())), vp_unmarshal = (\<lambda>_. (None, demo_config0)),
     vp_set = (\<lambda>_ _ v. v), vp_write = (\<lambda>v. (None, v))\<rparr>"

definition demo_env :: "string \<Rightarrow> string" where
  "demo_env k = (if k = ''JWT_SECRET_KEY'' then ''env'' else if k = ''JWT_ENABLED'' then ''true'' else '''')"

definition demo_state :: "(unit, unit) config_state" where
  "demo_state = \<lparr>cg_cfg = None, cg_path = '''', cg_once = False, cg_subscribers = [], cg_viper = ()\<rparr>"

theorem failed_load_forgotten_witness:
  "fst (cfg_Load demo_viper demo_env ''config.yaml'' (snd (cfg_Load demo_viper demo_env ''missing'' demo_state))) = (None, None)"
  using failed_load_forgotten [of demo_state demo_viper "''missing''" "Err ''no such file''" "()" demo_env demo_env "''config.yaml''"]
  by (simp add: demo_viper_def demo_state_def)

text \<open>The secret comes from the environment after \<open>Load\<close> and from the file after a change.\<close>

theorem reload_drops_overrides_witness:
  "map_option (\<lambda>c. (jc_SecretKey (cf_JWT c), jc_Enabled (cf_JWT c))) (fst (fst (cfg_Load demo_viper demo_env ''config.yaml'' demo_state))) = Some (''env'', True) \<and>
   map_option (\<lambda>c. (jc_SecretKey (cf_JWT c), jc_Enabled (cf_JWT c)))
     (cfg_Get (fst (watch_run demo_viper [()] (snd (cfg_Load demo_viper demo_env ''config.yaml'' demo_state), ())))) = Some (''file'', False)"
proof -
  obtain s' w' where r: "watch_run demo_viper [()] (snd (cfg_Load demo_viper demo_env ''config.yaml'' demo_state), ()) = (s', w')" by (metis prod.collapse)
  have "\<not> cg_once demo_state" "vp_read demo_viper ''config.yaml'' (cg_viper demo_state) = (None, ())" "vp_unmarshal demo_viper () = (None, demo_config0)"
    by (simp_all add: demo_viper_def demo_state_def)
  note * = reload_drops_overrides [OF this r]
  have v: "last_valid demo_viper [()] = Some demo_config0" by (simp add: demo_viper_def)
  have e: "jc_SecretKey (cf_JWT (applyEnvOverrides demo_env demo_config0)) = ''env''" "jc_Enabled (cf_JWT (applyEnvOverrides demo_env demo_config0))"
    "jc_SecretKey (cf_JWT demo_config0) = ''file''" "\<not> jc_Enabled (cf_JWT demo_config0)"
    by (simp_all add: applyEnvOverrides_def or_text_def or_bool_def ParseBool_def demo_env_def demo_config0_def)
  from * [unfolded v] e show ?thesis by (simp add: r)
qed

end
