(* ===== verification/Go_Time.thy ===== *)
theory Go_Time
  imports Prelude
begin

text \<open>
  The calendar of Go's package \<open>time\<close>, as far as the program uses it: the date of an instant, \<open>Date\<close> with months and
  days out of their range, and \<open>AddDate\<close> by one month. Days are counted from the first of January of the year 1. A
  location is its offset from UTC, the same all the year.
\<close>

section \<open>Days and dates\<close>

definition leap_year :: "int \<Rightarrow> bool" where
  "leap_year y \<longleftrightarrow> y mod 4 = 0 \<and> (y mod 100 \<noteq> 0 \<or> y mod 400 = 0)"

definition year_len :: "int \<Rightarrow> int" where
  "year_len y = (if leap_year y then 366 else 365)"

definition month_days :: "int \<Rightarrow> int \<Rightarrow> int" where
  "month_days y m = (if m = 2 then (if leap_year y then 29 else 28) else if m \<in> {4, 6, 9, 11} then 30 else 31)"

definition year_start :: "int \<Rightarrow> int" where
  "year_start y = 365 * (y - 1) + (y - 1) div 4 - (y - 1) div 100 + (y - 1) div 400"

definition days_before :: "int \<Rightarrow> int \<Rightarrow> int" where
  "days_before y m = sum_list (map (month_days y) [1..m - 1])"

definition date_days :: "int \<Rightarrow> int \<Rightarrow> int \<Rightarrow> int" where
  "date_days y m d =
     (let y' = y + (m - 1) div 12; m' = (m - 1) mod 12 + 1 in year_start y' + days_before y' m' + d - 1)"

text \<open>Cycles of 400, 100, 4 and 1 years; the last one of each cycle of four may have a day more.\<close>

definition civil_year :: "int \<Rightarrow> int \<times> int" where
  "civil_year n =
     (let a = n div 146097; d1 = n mod 146097; b = min 3 (d1 div 36524); d2 = d1 - 36524 * b;
          c = d2 div 1461; d3 = d2 mod 1461; e = min 3 (d3 div 365)
      in (400 * a + 100 * b + 4 * c + e + 1, d3 - 365 * e))"

fun month_split :: "int \<Rightarrow> int list \<Rightarrow> int \<Rightarrow> int \<times> int" where
  "month_split y [] r = (13, r + 1)"
| "month_split y (m # ms) r = (if r < month_days y m then (m, r + 1) else month_split y ms (r - month_days y m))"

definition civil :: "int \<Rightarrow> int \<times> int \<times> int" where
  "civil n = (let (y, r) = civil_year n in (y, month_split y [1..12] r))"

definition valid_date :: "int \<Rightarrow> int \<Rightarrow> int \<Rightarrow> bool" where
  "valid_date y m d \<longleftrightarrow> 1 \<le> m \<and> m \<le> 12 \<and> 1 \<le> d \<and> d \<le> month_days y m"

section \<open>Instants\<close>

definition day_ns :: int where "day_ns = 86400000000000"

definition epoch_day :: int where "epoch_day = 719162"

definition date_of :: "duration \<Rightarrow> time \<Rightarrow> int \<times> int \<times> int" where
  "date_of zone t = civil ((t + zone) div day_ns + epoch_day)"

text \<open>\<open>time.Date\<close> with the clock \<open>c\<close> since midnight.\<close>

definition go_Date :: "duration \<Rightarrow> int \<Rightarrow> int \<Rightarrow> int \<Rightarrow> int \<Rightarrow> time" where
  "go_Date zone y m d c = (date_days y m d - epoch_day) * day_ns + c - zone"

definition add_month :: "duration \<Rightarrow> time \<Rightarrow> time" where
  "add_month zone t = (case date_of zone t of (y, m, d) \<Rightarrow> go_Date zone y (m + 1) d ((t + zone) mod day_ns))"

section \<open>The calendar is consistent\<close>

lemma div_step: "0 < k \<Longrightarrow> (y::int) div k = (y - 1) div k + (if y mod k = 0 then 1 else 0)"
proof -
  assume k: "0 < k"
  have y: "y = k * (y div k) + y mod k" by simp
  have b: "0 \<le> y mod k" "y mod k < k" using k by simp_all
  show ?thesis
  proof (cases "y mod k = 0")
    case True
    have "(y - 1) div k = y div k - 1"
      by (rule int_div_pos_eq [where r = "k - 1"]) (use y True k in \<open>simp_all add: algebra_simps\<close>)
    with True show ?thesis by simp
  next
    case False
    have "(y - 1) div k = y div k"
      by (rule int_div_pos_eq [where r = "y mod k - 1"]) (use y False b in \<open>simp_all add: algebra_simps\<close>)
    with False show ?thesis by simp
  qed
qed

lemma year_start_Suc: "year_start (y + 1) = year_start y + year_len y"
proof -
  have i: "y mod 100 = 0 \<Longrightarrow> y mod 4 = 0" "y mod 400 = 0 \<Longrightarrow> y mod 100 = 0"
    using mod_mod_cancel [of 4 100 y] mod_mod_cancel [of 100 400 y] by simp_all
  have e: "year_start (y + 1) = 365 * y + y div 4 - y div 100 + y div 400" by (simp add: year_start_def)
  have k: "(0::int) < 4" "(0::int) < 100" "(0::int) < 400" by simp_all
  have "365 * y + p4 - p100 + p400 = 365 * (y - 1) + q4 - q100 + q400 + (if c4 \<and> (\<not> c100 \<or> c400) then 366 else 365)"
    if "p4 = q4 + (if c4 then 1 else 0)" "p100 = q100 + (if c100 then 1 else 0)" "p400 = q400 + (if c400 then 1 else 0)"
      "c100 \<Longrightarrow> c4" "c400 \<Longrightarrow> c100" for p4 p100 p400 q4 q100 q400 :: int and c4 c100 c400
    using that by (cases c4; cases c100; cases c400) simp_all
  from this [OF div_step [OF k(1)] div_step [OF k(2)] div_step [OF k(3)], of y y y] i show ?thesis
    unfolding e unfolding year_start_def year_len_def leap_year_def by blast
qed

lemma year_start_mono:
  assumes "y < y'"
  shows "year_start y + year_len y \<le> year_start y'"
proof -
  from assms have "y + 1 \<le> y'" by simp
  then show ?thesis
  proof (induction y' rule: int_ge_induct)
    case base
    show ?case by (simp add: year_start_Suc)
  next
    case (step i)
    then show ?case by (simp add: year_start_Suc year_len_def split: if_splits)
  qed
qed

lemma year_unique:
  assumes "year_start y + r = year_start y' + r'" "0 \<le> r" "r < year_len y" "0 \<le> r'" "r' < year_len y'"
  shows "y = y' \<and> r = r'"
  using year_start_mono [of y y'] year_start_mono [of y' y] assms by (cases y y' rule: linorder_cases) auto

lemma cut_cycle:
  fixes n k d :: int
  assumes "d = k * u + v" "0 \<le> v" "v < k" "0 \<le> d" "0 < k" "d \<le> 4 * k"
  shows "0 \<le> min 3 u" and "0 \<le> d - k * min 3 u" and "min 3 u < 3 \<Longrightarrow> d - k * min 3 u < k"
    and "d - k * min 3 u \<le> k"
proof -
  have "0 \<le> u"
  proof (rule ccontr)
    assume "\<not> 0 \<le> u"
    then have "k * u \<le> k * (- 1)" using assms(5) by (intro mult_left_mono) simp_all
    with assms show False by simp
  qed
  then show "0 \<le> min 3 u" by simp
  have "0 \<le> d - k * min 3 u \<and> (min 3 u < 3 \<longrightarrow> d - k * min 3 u < k) \<and> d - k * min 3 u \<le> k"
  proof (cases "3 \<le> u")
    case True
    then have "k * 3 \<le> k * u" using assms(5) by (intro mult_left_mono) simp_all
    moreover have m: "min 3 u = 3" using True by simp
    ultimately show ?thesis unfolding m using assms by (intro conjI impI) linarith+
  qed (use assms in \<open>simp add: min_def\<close>)
  then show "0 \<le> d - k * min 3 u" and "min 3 u < 3 \<Longrightarrow> d - k * min 3 u < k" and "d - k * min 3 u \<le> k" by blast+
qed

lemma cycles_year:
  assumes "y = 400 * a + 100 * b + 4 * c + e + (1::int)" "0 \<le> b" "b \<le> 3" "0 \<le> c" "c \<le> 24" "0 \<le> e" "e \<le> 3"
  shows "year_start y = 146097 * a + 36524 * b + 1461 * c + 365 * e"
    and "leap_year y \<longleftrightarrow> e = 3 \<and> (c < 24 \<or> b = 3)"
proof -
  have z: "y - 1 = 400 * a + 100 * b + 4 * c + e" using assms(1) by simp
  have q: "(y - 1) div 4 = 100 * a + 25 * b + c" "(y - 1) div 100 = 4 * a + b" "(y - 1) div 400 = a"
    unfolding z using assms(2-) by (intro int_div_pos_eq [where r = e] int_div_pos_eq [where r = "4 * c + e"]
      int_div_pos_eq [where r = "100 * b + 4 * c + e"]; simp)+
  show "year_start y = 146097 * a + 36524 * b + 1461 * c + 365 * e" unfolding year_start_def q unfolding z by simp
  have "y mod 4 = (if e = 3 then 0 else e + 1)"
    using assms by (intro int_mod_pos_eq [where q = "100 * a + 25 * b + c + (if e = 3 then 1 else 0)"]) auto
  moreover have "y mod 100 = (if c = 24 \<and> e = 3 then 0 else 4 * c + e + 1)"
    using assms by (intro int_mod_pos_eq [where q = "4 * a + b + (if c = 24 \<and> e = 3 then 1 else 0)"]) auto
  moreover have "y mod 400 = (if b = 3 \<and> c = 24 \<and> e = 3 then 0 else 100 * b + 4 * c + e + 1)"
    using assms by (intro int_mod_pos_eq [where q = "a + (if b = 3 \<and> c = 24 \<and> e = 3 then 1 else 0)"]) auto
  ultimately show "leap_year y \<longleftrightarrow> e = 3 \<and> (c < 24 \<or> b = 3)"
    unfolding leap_year_def using assms(2-) by (auto split: if_splits)
qed

lemma civil_year_ok:
  assumes "civil_year n = (y, r)"
  shows "year_start y + r = n" and "0 \<le> r" and "r < year_len y"
proof -
  define a d1 where "a = n div 146097" and "d1 = n mod 146097"
  define b where "b = min 3 (d1 div 36524)"
  define d2 where "d2 = d1 - 36524 * b"
  define c d3 where "c = d2 div 1461" and "d3 = d2 mod 1461"
  define e where "e = min 3 (d3 div 365)"
  have yr: "y = 400 * a + 100 * b + 4 * c + e + 1" "r = d3 - 365 * e"
    using assms unfolding civil_year_def Let_def a_def d1_def b_def d2_def c_def d3_def e_def by (elim Pair_inject, simp only:)+
  have n: "n = 146097 * a + d1" unfolding a_def d1_def by (rule mult_div_mod_eq [symmetric])
  have n': "0 \<le> d1" "d1 < 146097" by (simp_all add: d1_def)
  have d1: "d1 = 36524 * (d1 div 36524) + d1 mod 36524" by (rule mult_div_mod_eq [symmetric])
  have b: "0 \<le> b" "0 \<le> d2" "b < 3 \<Longrightarrow> d2 < 36524" "d2 \<le> 36524"
    unfolding b_def d2_def by (rule cut_cycle [OF d1]; use n' in simp)+
  have b3: "b \<le> 3" by (simp add: b_def)
  have c: "d2 = 1461 * c + d3" unfolding c_def d3_def by (rule mult_div_mod_eq [symmetric])
  have c': "0 \<le> d3" "d3 < 1461" by (simp_all add: d3_def)
  have c24: "0 \<le> c" "c \<le> 24" using c c' b(2,4) by simp_all
  have d3: "d3 = 365 * (d3 div 365) + d3 mod 365" by (rule mult_div_mod_eq [symmetric])
  have d3l: "d3 \<le> 4 * 365" using c'(2) by simp
  have e: "0 \<le> e" "0 \<le> r" "e < 3 \<Longrightarrow> r < 365" "r \<le> 365"
    unfolding e_def yr(2) by (rule cut_cycle [OF d3]; use c'(1) d3l in simp)+
  have e3: "e \<le> 3" by (simp add: e_def)
  note y = cycles_year [OF yr(1) b(1) b3 c24 e(1) e3]
  show "year_start y + r = n" unfolding y(1) using yr(2) n d2_def c by simp
  show "0 \<le> r" by (rule e)
  have "c < 24 \<or> b = 3" if "r = 365" "e = 3" using that yr(2) b(3) b3 c by (cases "b < 3") auto
  moreover have "e < 3 \<or> e = 3" using e3 by linarith
  ultimately show "r < year_len y" using e(3,4) y(2) by (cases "r = 365") (auto simp: year_len_def)
qed

lemma months_1_12: "[1..12] = [1, 2, 3, 4, 5, 6, 7, 8, 9, 10, 11, 12 :: int]"
  by code_simp

lemma month_cases:
  assumes "1 \<le> m" "m \<le> (12::int)"
  obtains "m = 1" | "m = 2" | "m = 3" | "m = 4" | "m = 5" | "m = 6" | "m = 7" | "m = 8" | "m = 9" | "m = 10" | "m = 11" | "m = 12"
proof -
  have "m \<in> set [1..12]" using assms by simp
  then show thesis unfolding months_1_12 using that by auto
qed

lemma days_before_eval:
  "days_before y 1 = 0" "days_before y 2 = 31" "days_before y 3 = 31 + month_days y 2" "days_before y 4 = 62 + month_days y 2"
  "days_before y 5 = 92 + month_days y 2" "days_before y 6 = 123 + month_days y 2" "days_before y 7 = 153 + month_days y 2"
  "days_before y 8 = 184 + month_days y 2" "days_before y 9 = 215 + month_days y 2" "days_before y 10 = 245 + month_days y 2"
  "days_before y 11 = 276 + month_days y 2" "days_before y 12 = 306 + month_days y 2" "days_before y 13 = year_len y"
  by (simp_all add: days_before_def upto.simps month_days_def year_len_def)

lemma month_days_eval:
  "month_days y 1 = 31" "month_days y 3 = 31" "month_days y 4 = 30" "month_days y 5 = 31" "month_days y 6 = 30"
  "month_days y 7 = 31" "month_days y 8 = 31" "month_days y 9 = 30" "month_days y 10 = 31" "month_days y 11 = 30"
  "month_days y 12 = 31"
  by (simp_all add: month_days_def)

lemma february: "month_days y 2 = 28 \<or> month_days y 2 = 29" "year_len y = 337 + month_days y 2"
  by (simp_all add: month_days_def year_len_def)

lemma month_split_ok:
  assumes "month_split y [1..12] r = (m, d)" "0 \<le> r" "r < year_len y"
  shows "valid_date y m d \<and> days_before y m + d - 1 = r"
  using assms february(1) [of y] unfolding months_1_12
  by (auto simp: february(2) month_days_eval days_before_eval valid_date_def split: if_splits)

lemma month_split_of:
  assumes "valid_date y m d"
  shows "month_split y [1..12] (days_before y m + d - 1) = (m, d) \<and> 0 \<le> days_before y m + d - 1 \<and>
    days_before y m + d - 1 < year_len y"
proof -
  have "1 \<le> m" "m \<le> 12" "1 \<le> d" "d \<le> month_days y m" using assms by (simp_all add: valid_date_def)
  then show ?thesis using february(1) [of y] unfolding months_1_12
    by (cases rule: month_cases) (auto simp: february(2) month_days_eval days_before_eval)
qed

lemma date_days_valid: "1 \<le> m \<Longrightarrow> m \<le> 12 \<Longrightarrow> date_days y m d = year_start y + days_before y m + d - 1"
  by (simp add: date_days_def Let_def)

text \<open>Every day has a date, and every date is the date of its day.\<close>

lemma civil_ok:
  assumes "civil n = (y, m, d)"
  shows "valid_date y m d" and "date_days y m d = n"
proof -
  obtain r where r: "civil_year n = (y, r)" "month_split y [1..12] r = (m, d)"
    using assms by (auto simp: civil_def split: prod.splits)
  have v: "valid_date y m d \<and> days_before y m + d - 1 = r"
    by (rule month_split_ok [OF r(2) civil_year_ok(2,3) [OF r(1)]])
  then show "valid_date y m d" ..
  with v show "date_days y m d = n"
    using civil_year_ok(1) [OF r(1)] by (simp add: date_days_valid valid_date_def)
qed

lemma civil_date:
  assumes "valid_date y m d"
  shows "civil (date_days y m d) = (y, m, d)"
proof -
  obtain y' r where r: "civil_year (date_days y m d) = (y', r)" by fastforce
  have "1 \<le> m" "m \<le> 12" using assms by (simp_all add: valid_date_def)
  then have "date_days y m d = year_start y + (days_before y m + d - 1)" by (simp add: date_days_valid)
  then have "y = y' \<and> days_before y m + d - 1 = r"
    using year_unique [of y "days_before y m + d - 1" y' r] month_split_of [OF assms] civil_year_ok [OF r] by simp
  then show ?thesis using r month_split_of [OF assms] by (auto simp: civil_def)
qed

section \<open>Adding a month\<close>

lemma date_of_go_Date:
  assumes "0 \<le> c" "c < day_ns"
  shows "date_of zone (go_Date zone y m d c) = civil (date_days y m d)"
proof -
  have "((date_days y m d - epoch_day) * day_ns + c) div day_ns = date_days y m d - epoch_day"
    using assms by (simp add: day_ns_def)
  then show ?thesis by (simp add: date_of_def go_Date_def)
qed

lemma date_days_carry:
  assumes "1 \<le> m" "m \<le> 12"
  shows "date_days y (m + 1) d = date_days y m (d + month_days y m)"
  using assms by (cases rule: month_cases)
    (simp_all add: date_days_def Let_def year_start_Suc february(2) month_days_eval days_before_eval)

text \<open>The days that the month after theirs does not have.\<close>

definition day_missing :: "int \<Rightarrow> int \<Rightarrow> int \<Rightarrow> bool" where
  "day_missing y m d \<longleftrightarrow> m = 1 \<and> month_days y 2 < d \<or> m \<in> {3, 5, 8, 10} \<and> d = 31"

lemma after_month:
  assumes "valid_date y m d"
  obtains y' m' d' where "civil (date_days y (m + 1) d) = (y', m', d')"
    "date_days y' m' 1 = date_days y (m + (if day_missing y m d then 2 else 1)) 1"
proof -
  have m: "1 \<le> m" "m \<le> 12" and d: "1 \<le> d" "d \<le> month_days y m" using assms by (simp_all add: valid_date_def)
  show thesis
  proof (cases "m = 12")
    case True
    have "date_days y 13 d = date_days (y + 1) 1 d" "date_days y 13 1 = date_days (y + 1) 1 1" by (simp_all add: date_days_def)
    moreover have "valid_date (y + 1) 1 d" using d True by (simp add: valid_date_def month_days_eval)
    ultimately show ?thesis using that civil_date True by (simp add: day_missing_def)
  next
    case False
    with m have m1: "1 \<le> m + 1" "m + 1 \<le> 12" by simp_all
    show ?thesis
    proof (cases "d \<le> month_days y (m + 1)")
      case le: True
      then have "\<not> day_missing y m d" by (auto simp: day_missing_def month_days_eval)
      moreover have "valid_date y (m + 1) d" using le d m1 by (simp add: valid_date_def)
      ultimately show ?thesis using that civil_date by simp
    next
      case gt: False
      have f: "month_days y 2 = 28 \<or> month_days y 2 = 29" by (rule february)
      have miss: "day_missing y m d" and m2: "m + 2 \<le> 12" and small: "d - month_days y (m + 1) \<le> 3"
        using m d gt False f by (cases rule: month_cases; auto simp: day_missing_def month_days_eval)+
      have "date_days y (m + 1) d = date_days y (m + 2) (d - month_days y (m + 1))"
        using date_days_carry [OF m1, of y "d - month_days y (m + 1)"] by (simp add: add.assoc)
      moreover have "valid_date y (m + 2) (d - month_days y (m + 1))"
        using gt small m m2 f by (cases "m = 0") (auto simp: valid_date_def month_days_def)
      ultimately show ?thesis using that civil_date miss by simp
    qed
  qed
qed

text \<open>The first of the month that \<open>AddDate\<close> arrives in.\<close>

lemma first_after_month:
  assumes "date_of zone t = (y, m, d)"
  shows "(case date_of zone (add_month zone t) of (y', m', _) \<Rightarrow> go_Date zone y' m' 1 0) =
    go_Date zone y (m + (if day_missing y m d then 2 else 1)) 1 0"
proof -
  have v: "valid_date y m d" using assms civil_ok(1) by (simp add: date_of_def)
  obtain y' m' d' where n: "civil (date_days y (m + 1) d) = (y', m', d')"
    "date_days y' m' 1 = date_days y (m + (if day_missing y m d then 2 else 1)) 1" by (rule after_month [OF v])
  have "date_of zone (add_month zone t) = (y', m', d')"
    using n(1) by (simp add: add_month_def assms date_of_go_Date day_ns_def)
  then show ?thesis using n(2) by (simp add: go_Date_def)
qed

lemma month_later:
  assumes "date_of zone t = (y, m, d)"
  shows "t < go_Date zone y (m + 1) 1 0" and "go_Date zone y (m + 1) 1 0 < go_Date zone y (m + 2) 1 0"
proof -
  have v: "valid_date y m d" and n: "date_days y m d = (t + zone) div day_ns + epoch_day"
    using assms civil_ok [of "(t + zone) div day_ns + epoch_day" y m d] by (simp_all add: date_of_def)
  have m: "1 \<le> m" "m \<le> 12" "d \<le> month_days y m" using v by (simp_all add: valid_date_def)
  have "date_days y m d < date_days y (m + 1) 1" using m date_days_carry [of m y 1] by (simp add: date_days_def Let_def)
  then have "(t + zone) div day_ns < date_days y (m + 1) 1 - epoch_day" using n by simp
  then show "t < go_Date zone y (m + 1) 1 0" 
    using div_mult_mod_eq [of "t + zone" day_ns] pos_mod_bound [of day_ns "t + zone"]
    unfolding go_Date_def day_ns_def by simp
  have "date_days y (m + 1) 1 < date_days y (m + 2) 1"
  proof (cases "m = 12")
    case True
    then show ?thesis using days_before_eval(1,2) [of "y + 1"] by (simp add: date_days_def Let_def)
  next
    case False
    have "0 < month_days y (m + 1)" by (simp add: month_days_def)
    with False m date_days_carry [of "m + 1" y 1] show ?thesis by (simp add: date_days_def Let_def add.assoc)
  qed
  then show "go_Date zone y (m + 1) 1 0 < go_Date zone y (m + 2) 1 0" by (simp add: go_Date_def day_ns_def)
qed

end
