(* ===== verification/Quota_Calendar.thy ===== *)
theory Quota_Calendar
  imports Go_Time Keys Http
begin

text \<open>
  When a bandwidth quota starts again (\<open>getNextResetTime\<close> of \<open>gateway/keyquota.go\<close>), on the calendar, and the
  handlers of quotas. The table of quotas itself is in \<open>Keys\<close>.
\<close>

definition getNextResetTime :: "duration \<Rightarrow> time \<Rightarrow> time" where
  "getNextResetTime zone now = (case date_of zone (add_month zone now) of (y, m, _) \<Rightarrow> go_Date zone y m 1 0)"

text \<open>A body that binds: its monthly number is not zero and its node is not empty.\<close>

record quotaRequest =
  qr_NodeID :: string
  qr_MonthlyGB :: int
  qr_HardLimit :: bool

definition bind_quota :: "string + quotaRequest \<Rightarrow> string + quotaRequest" where
  "bind_quota body = (case body of Inl e \<Rightarrow> Inl e
     | Inr b \<Rightarrow> if qr_NodeID b = '''' \<or> qr_MonthlyGB b = 0 then Inl ''required'' else Inr b)"

definition setQuotaHandler ::
    "'r redis option \<Rightarrow> duration \<Rightarrow> time \<Rightarrow> string + quotaRequest \<Rightarrow> quotaTable \<times> 'r \<Rightarrow> string resp \<times> quotaTable \<times> 'r" where
  "setQuotaHandler h zone now body s = (case bind_quota body of
       Inl e \<Rightarrow> (bad_request e, s)
     | Inr b \<Rightarrow> ((200, Inr ''success''), SetQuota h (getNextResetTime zone) now (qr_NodeID b) (qr_MonthlyGB b) (qr_HardLimit b) s))"

definition getQuotaHandler :: "string \<Rightarrow> quotaTable \<Rightarrow> quotaInfo resp" where
  "getQuotaHandler nodeID qs = (case GetQuotaInfo nodeID qs of
       None \<Rightarrow> (404, Inl ''quota not found'') | Some info \<Rightarrow> (200, Inr info))"

section \<open>The next reset\<close>

text \<open>It is the first of the next month, except on the days that the next month does not have: then it is the first of
  the month after.\<close>

theorem next_reset_exact:
  assumes "date_of zone now = (y, m, d)"
  shows "getNextResetTime zone now = go_Date zone y (m + (if day_missing y m d then 2 else 1)) 1 0"
  unfolding getNextResetTime_def by (rule first_after_month [OF assms])

lemma next_reset_future: "now < getNextResetTime zone now"
proof -
  obtain y m d where e: "date_of zone now = (y, m, d)" by (metis surj_pair)
  show ?thesis using month_later [OF e] by (auto simp: next_reset_exact [OF e])
qed

section \<open>A month that is left out\<close>

lemma use_before_reset:
  assumes "\<forall>(t, gb) \<in> set us. t \<le> reset" and "qs n = Some q" and "q_ResetAt q = reset"
  shows "\<exists>q'. fst (fold (\<lambda>(t, gb). RecordUsage h nr t n gb) us (qs, st)) n = Some q' \<and>
    q_UsedGB q' = (if us = [] then q_UsedGB q else i64 (q_UsedGB q + sum_list (map snd us)))"
  using assms
proof (induction us arbitrary: qs st q)
  case (Cons u us)
  obtain t gb where u: "u = (t, gb)" by fastforce
  define q1 where "q1 = q\<lparr>q_UsedGB := i64 (q_UsedGB q + gb)\<rparr>"
  obtain st1 where r: "RecordUsage h nr t n gb (qs, st) = (qs(n \<mapsto> q1), st1)"
    using Cons.prems by (auto simp: RecordUsage_def quota_rollover_def q1_def u Let_def)
  have "\<exists>q'. fst (fold (\<lambda>(t, gb). RecordUsage h nr t n gb) us (qs(n \<mapsto> q1), st1)) n = Some q' \<and>
    q_UsedGB q' = (if us = [] then q_UsedGB q1 else i64 (q_UsedGB q1 + sum_list (map snd us)))"
    by (rule Cons.IH) (use Cons.prems in \<open>auto simp: q1_def\<close>)
  moreover have "i64 (i64 a + b) = i64 (a + b)" for a b by (simp add: i64_def mod_simps algebra_simps)
  moreover have "q_UsedGB q1 = i64 (q_UsedGB q + gb)" by (simp add: q1_def)
  ultimately show ?case using r by (auto simp: u add.assoc)
qed simp

text \<open>C28: A quota set on a day that the next month does not have (the 31st before a month of thirty days, the end of
  January) is not reset during the whole of the next month: all the use recorded until the first of the month after that
  adds up against the one monthly quota.\<close>

theorem quota_skips_month:
  assumes "date_of zone now = (y, m, d)" and "day_missing y m d"
    and "\<forall>(t, gb) \<in> set us. t \<le> go_Date zone y (m + 2) 1 0"
  shows "\<exists>q. GetQuotaInfo n (fst (fold (\<lambda>(t, gb). RecordUsage h (getNextResetTime zone) t n gb) us
      (SetQuota h (getNextResetTime zone) now n monthlyGB hard (qs, st)))) = Some q \<and>
    q_UsedGB q = i64 (sum_list (map snd us))"
proof -
  obtain st1 q where s: "SetQuota h (getNextResetTime zone) now n monthlyGB hard (qs, st) = (qs(n \<mapsto> q), st1)"
    "q_UsedGB q = 0" "q_ResetAt q = go_Date zone y (m + 2) 1 0"
    using assms(2) by (auto simp: SetQuota_def next_reset_exact [OF assms(1)])
  show ?thesis
    using use_before_reset [OF assms(3), of "qs(n \<mapsto> q)" n q h "getNextResetTime zone" st1] s by (auto simp: GetQuotaInfo_def)
qed

text \<open>The 31st of January 2025, the 20th of February, and the 1st of March.\<close>

theorem quota_skips_month_witness:
  "date_of 0 1738281600000000000 = (2025, 1, 31) \<and> date_of 0 1740009600000000000 = (2025, 2, 20) \<and>
   (\<exists>q. GetQuotaInfo ''n'' (fst (fold (\<lambda>(t, gb). RecordUsage (None :: unit redis option) (getNextResetTime 0) t ''n'' gb)
      [(1738281600000000000, 70), (1740009600000000000, 60)]
      (SetQuota None (getNextResetTime 0) 1738281600000000000 ''n'' 100 True (Map.empty, ())))) = Some q \<and> q_UsedGB q = 130)"
proof -
  have d: "date_of 0 1738281600000000000 = (2025, 1, 31)" "date_of 0 1740009600000000000 = (2025, 2, 20)" by code_simp+
  have m: "day_missing 2025 1 31" by code_simp
  have r: "go_Date 0 2025 3 1 0 = 1740787200000000000" by code_simp
  have "\<exists>q. GetQuotaInfo ''n'' (fst (fold (\<lambda>(t, gb). RecordUsage (None :: unit redis option) (getNextResetTime 0) t ''n'' gb)
      [(1738281600000000000, 70), (1740009600000000000, 60)]
      (SetQuota None (getNextResetTime 0) 1738281600000000000 ''n'' 100 True (Map.empty, ())))) = Some q \<and>
    q_UsedGB q = i64 (sum_list (map snd [(1738281600000000000 :: int, 70), (1740009600000000000, 60)]))"
    by (rule quota_skips_month [OF d(1) m]) (simp add: r)
  then show ?thesis using d by (simp add: i64_def)
qed

end
