(* ===== verification/Loops.thy ===== *)
theory Loops
  imports Matchmaker Federation Audit_Log Capacity Go_Chan
begin

text \<open>
  The goroutines that work at every tick of a clock: the sweeps of the cooldowns (\<open>matchmaker/cooldown.go\<close>,
  \<open>matchmaker/service.go\<close>), the health checks of the matchmaker, the two loops of the federation
  (\<open>federation/service.go\<close>), the retention of the audit log (\<open>gateway/cost_audit.go\<close>) and the evaluation of the scaling
  policies (\<open>gateway/scaling_policy.go\<close>). What one tick does is modelled with its component; here are the loops around
  it, and the channels that stop them.
\<close>

section \<open>Loops\<close>

text \<open>What the \<open>select\<close> of a loop receives.\<close>

datatype 't wake = OnTick 't | OnStop

text \<open>Receiving from a channel on which nothing is sent: it goes on only when the channel is closed, and never when it is
  nil.\<close>

definition stop_ready :: "nat option \<Rightarrow> 'a chans \<Rightarrow> bool" where
  "stop_ready ch cs = (case ch of None \<Rightarrow> False | Some i \<Rightarrow> i < length cs \<and> \<not> ch_open (cs ! i))"

text \<open>One turn of \<open>for { select { case <-ticker.C: tick(); case <-stop: return } }\<close>; the flag is whether it has returned,
  and None an event that cannot be received.\<close>

definition loop_turn :: "nat option \<Rightarrow> ('t \<Rightarrow> 's \<Rightarrow> 's) \<Rightarrow> 'a chans \<Rightarrow> 't wake \<Rightarrow> bool \<times> 's \<Rightarrow> (bool \<times> 's) option" where
  "loop_turn ch tick cs w = (\<lambda>(returned, s). if returned then None else
     (case w of OnTick t \<Rightarrow> Some (False, tick t s) | OnStop \<Rightarrow> if stop_ready ch cs then Some (True, s) else None))"

text \<open>\<open>for range ticker.C { tick() }\<close>\<close>

definition range_turn :: "('t \<Rightarrow> 's \<Rightarrow> 's) \<Rightarrow> 't \<Rightarrow> 's \<Rightarrow> 's" where
  "range_turn tick = tick"

section \<open>The loops of the program\<close>

definition cooldown_Start :: "nat option \<Rightarrow> 'r redis \<Rightarrow> 'a chans \<Rightarrow> unit wake \<Rightarrow> bool \<times> 'r \<Rightarrow> (bool \<times> 'r) option" where
  "cooldown_Start stop R = loop_turn stop (\<lambda>_. cleanupExpired R)"

definition cooldown_Stop :: "nat option \<Rightarrow> 'a chans \<Rightarrow> 'a chans option" where
  "cooldown_Stop stop = go_close stop"

definition cooldownCleanupLoop :: "nat option \<Rightarrow> 'r redis \<Rightarrow> 'a chans \<Rightarrow> unit wake \<Rightarrow> bool \<times> 'r \<Rightarrow> (bool \<times> 'r) option" where
  "cooldownCleanupLoop stopCooldown R = loop_turn stopCooldown (\<lambda>_. mm_cooldown_tick R)"

text \<open>A tick of the health check carries the readings of the clock that it makes.\<close>

definition healthCheckLoop ::
    "nat option \<Rightarrow> 'r redis \<Rightarrow> 'a chans \<Rightarrow> ((string \<Rightarrow> time) \<times> (string \<Rightarrow> time)) wake \<Rightarrow> bool \<times> matchmaker \<times> 'r
      \<Rightarrow> (bool \<times> matchmaker \<times> 'r) option" where
  "healthCheckLoop stopHealthCheck R = loop_turn stopHealthCheck (\<lambda>(now, tick). checkNodeHealth R now tick)"

definition heartbeatLoop :: "nat option \<Rightarrow> 'a chans \<Rightarrow> time wake \<Rightarrow> bool \<times> federation \<Rightarrow> (bool \<times> federation) option" where
  "heartbeatLoop stop = loop_turn stop checkPeerHealth"

definition syncLoop ::
    "nat option \<Rightarrow> 'r redis \<Rightarrow> 'a chans \<Rightarrow> unit wake \<Rightarrow> bool \<times> federation \<times> 'r \<Rightarrow> (bool \<times> federation \<times> 'r) option" where
  "syncLoop stop R = loop_turn stop (\<lambda>_. syncNodes R)"

definition fd_Stop :: "nat option \<Rightarrow> 'a chans \<Rightarrow> 'a chans option" where
  "fd_Stop stop = go_close stop"

text \<open>\<open>cutoff\<close> is the instant a number of days before the tick.\<close>

definition retention_loop :: "'r redis option \<Rightarrow> (int \<Rightarrow> int) \<Rightarrow> auditRetention \<times> 'r \<Rightarrow> auditRetention \<times> 'r" where
  "retention_loop h = range_turn (\<lambda>cutoff (ar, st). (ar, snd (Cleanup h cutoff ar st)))"

text \<open>The messages of an evaluation that triggered.\<close>

definition policy_log :: "scalingEvaluation \<Rightarrow> (string \<times> scalingAction) list" where
  "policy_log e = (if se_Triggered e then [(se_PolicyName e, se_Action e)] else [])"

definition StartEvaluationLoop ::
    "(string \<Rightarrow> time) \<times> (string \<Rightarrow> time) \<times> (string \<Rightarrow> go_err + capacityReport) \<times> string list
      \<Rightarrow> policyManager \<times> (string \<times> scalingAction) list \<Rightarrow> policyManager \<times> (string \<times> scalingAction) list" where
  "StartEvaluationLoop = range_turn (\<lambda>(before, after, report, order) (spm, logged).
     (case spm_Evaluate before after report order spm of (es, spm1) \<Rightarrow> (spm1, logged @ concat (map policy_log es))))"

section \<open>The contract of a loop\<close>

text \<open>What a tick keeps, the loop keeps; it ends only after its channel was closed, and does nothing any more then.\<close>

locale stoppable =
  fixes stop :: "nat option" and tick :: "'t \<Rightarrow> 's \<Rightarrow> 's" and I :: "'s \<Rightarrow> bool"
  assumes tick_keeps: "I s \<Longrightarrow> I (tick t s)"
begin

lemma loop_keeps:
  assumes "run_opt (loop_turn stop tick cs) ws (b, s) = Some (b', s')" and "I s"
  shows "I s'"
proof -
  have "I (snd y)" if "I (snd x)" "loop_turn stop tick cs w x = Some y" for w x y
    using that tick_keeps by (auto simp: loop_turn_def split: prod.splits if_splits wake.splits)
  from run_opt_preserves [where I = "\<lambda>x. I (snd x)", OF this _ assms(1)] show ?thesis using assms(2) by simp
qed

lemma returns_when_closed:
  assumes "run_opt (loop_turn stop tick cs) ws (False, s) = Some (True, s')"
  shows "stop_ready stop cs"
proof -
  have "fst y \<longrightarrow> stop_ready stop cs" if "fst x \<longrightarrow> stop_ready stop cs" "loop_turn stop tick cs w x = Some y" for w x y
    using that by (auto simp: loop_turn_def split: prod.splits if_splits wake.splits)
  from run_opt_preserves [where I = "\<lambda>x. fst x \<longrightarrow> stop_ready stop cs", OF this _ assms] show ?thesis by simp
qed

lemma ends_there: "loop_turn stop tick cs w (True, s) = None"
  by (simp add: loop_turn_def)

lemma can_return: "stop_ready stop cs \<Longrightarrow> loop_turn stop tick cs OnStop (False, s) = Some (True, s)"
  by (simp add: loop_turn_def)

end

lemma closed_ready: "go_close (Some i) cs = Some cs' \<Longrightarrow> stop_ready (Some i) cs'"
  by (auto simp: go_close_def stop_ready_def split: if_splits)

section \<open>The loops keep their components' invariants\<close>

definition fd_same :: "federation \<Rightarrow> federation \<Rightarrow> bool" where
  "fd_same f0 f \<longleftrightarrow> (\<forall>r. map_option pg_LastSeen (fd_peers f r) = map_option pg_LastSeen (fd_peers f0 r)) \<and>
     (\<forall>r p. fd_peers f r = Some p \<longrightarrow> pg_Healthy p \<longrightarrow> (\<exists>p0. fd_peers f0 r = Some p0 \<and> pg_Healthy p0))"

lemma fd_same_check:
  assumes "fd_same f0 s"
  shows "fd_same f0 (checkPeerHealth t s)"
proof -
  have "map_option pg_LastSeen (fd_peers (checkPeerHealth t s) r) = map_option pg_LastSeen (fd_peers s r)" for r
    by (cases "fd_peers s r") (auto simp: checkPeerHealth_def)
  moreover have "\<exists>q. fd_peers s r = Some q \<and> pg_Healthy q" if "fd_peers (checkPeerHealth t s) r = Some p" "pg_Healthy p" for r p
    using that by (auto simp: checkPeerHealth_def split: if_splits)
  ultimately show ?thesis using assms unfolding fd_same_def by fastforce
qed

definition peers_kept :: "federation \<Rightarrow> federation \<times> 'r \<Rightarrow> bool" where
  "peers_kept f0 s \<longleftrightarrow> fd_peers (fst s) = fd_peers f0"

interpretation heartbeat: stoppable stop checkPeerHealth "fd_same f0" for stop f0
  by unfold_locales (rule fd_same_check)

interpretation sync: stoppable stop "\<lambda>_ :: unit. syncNodes R" "peers_kept f0" for stop R f0
  by unfold_locales (auto simp: peers_kept_def syncNodes_def split: sum.splits prod.splits)

interpretation cooldowns: stoppable stop "\<lambda>_ :: unit. mm_cooldown_tick R" "\<lambda>_. True" for stop R
  by unfold_locales simp

interpretation health_checks: stoppable stop "\<lambda>(now, tick). checkNodeHealth R now tick" "\<lambda>_. True" for stop R
  by unfold_locales simp

text \<open>The loops of the federation cure no region and forget none; only a message does.\<close>

lemma federation_loops_only_mark:
  "run_opt (heartbeatLoop stop cs) ws (False, f) = Some (b, f') \<Longrightarrow> fd_same f f'"
  "run_opt (syncLoop stop R cs) vs (False, (f, st)) = Some (b, (f', st')) \<Longrightarrow> fd_peers f' = fd_peers f"
  using heartbeat.loop_keeps [of stop cs ws False f b f' f] sync.loop_keeps [of stop R cs vs False "(f, st)" b "(f', st')" f]
  by (auto simp: heartbeatLoop_def syncLoop_def fd_same_def peers_kept_def)

text \<open>The background loops of the matchmaker receive from channels that were never made: however long they run, they do not
  return.\<close>

theorem matchmaker_loops_endless:
  "run_opt (cooldownCleanupLoop None R cs) ws (False, st) \<noteq> Some (True, st') \<and>
   run_opt (healthCheckLoop None R cs) hs (False, m) \<noteq> Some (True, m')"
  using cooldowns.returns_when_closed [of None R cs ws st st'] health_checks.returns_when_closed [of None R cs hs m m']
  by (auto simp: cooldownCleanupLoop_def healthCheckLoop_def stop_ready_def)

end
