(* ===== verification/Telemetry.thy ===== *)
theory Telemetry
  imports Peer_Server Peer_Sdk
begin

text \<open>
  The two ends of a telemetry stream: \<open>PeerClient.StartTelemetryStream\<close> (\<open>peer-sdk/grpc_client.go\<close>) and
  \<open>PeerServer.StreamTelemetry\<close> (\<open>internal/grpc/server.go\<close>), as they run against each other. The stream is the library's:
  messages arrive in order, \<open>Send\<close> waits while \<open>W\<close> of them lie unread, and both ends fail once the stream has ended. Each
  event below is one turn of one goroutine, or of the world around them.
\<close>

section \<open>Messages\<close>

record telemetryUpdate =
  tu_Battery :: int
  tu_CPUUsage :: f64
  tu_IsCharging :: bool
  tu_BytesSent :: int
  tu_BytesReceived :: int
  tu_IP :: string

record telemetryRequest =
  tq_NodeId :: string
  tq_BatteryLevel :: int
  tq_CpuUsage :: f64
  tq_BandwidthSent :: int
  tq_BandwidthReceived :: int
  tq_IsCharging :: bool
  tq_IpAddress :: string
  tq_Timestamp :: int

record telemetryResponse =
  tp_ServerTimestamp :: time
  tp_StatusMessage :: string
  tp_ConnectionQuality :: int

definition initial_request :: "string \<Rightarrow> telemetryRequest" where
  "initial_request nodeID = \<lparr>tq_NodeId = nodeID, tq_BatteryLevel = 0, tq_CpuUsage = Fin 0, tq_BandwidthSent = 0,
     tq_BandwidthReceived = 0, tq_IsCharging = False, tq_IpAddress = '''', tq_Timestamp = 0\<rparr>"

definition update_request :: "(f64 \<Rightarrow> f64) \<Rightarrow> string \<Rightarrow> time \<Rightarrow> telemetryUpdate \<Rightarrow> telemetryRequest" where
  "update_request to_f32 nodeID now u =
     \<lparr>tq_NodeId = nodeID, tq_BatteryLevel = to_i32 (tu_Battery u), tq_CpuUsage = to_f32 (tu_CPUUsage u),
      tq_BandwidthSent = tu_BytesSent u, tq_BandwidthReceived = tu_BytesReceived u, tq_IsCharging = tu_IsCharging u,
      tq_IpAddress = tu_IP u, tq_Timestamp = unix_seconds now\<rparr>"

definition started_response :: "time \<Rightarrow> telemetryResponse" where
  "started_response now = \<lparr>tp_ServerTimestamp = now, tp_StatusMessage = ''Telemetry stream started'', tp_ConnectionQuality = 100\<rparr>"

definition update_response :: "string \<Rightarrow> time \<Rightarrow> telemetryResponse" where
  "update_response nodeID now = \<lparr>tp_ServerTimestamp = now, tp_StatusMessage = ''Telemetry update for '' @ nodeID,
     tp_ConnectionQuality = telemetry_quality now\<rparr>"

section \<open>The goroutines\<close>

text \<open>Where the sender of the node stands: it opens the stream, introduces itself, ranges over the channel of updates, and
  holds the update it is about to send. The handler of the server waits for the first message, acknowledges it, and
  ticks.\<close>

datatype sender = SndOpen | SndFirst | SndRange | SndSend telemetryRequest | SndDone

datatype handler = HdlWait | HdlAck string | HdlTick string | HdlDone

text \<open>\<open>te_up\<close> and \<open>te_down\<close> are the messages on their way; \<open>te_sent\<close> and \<open>te_read\<close> record, for the proofs, what the node's
  \<open>Send\<close> accepted and what the server received.\<close>

record tele =
  te_updates :: "telemetryUpdate list"
  te_closed :: bool
  te_sender :: sender
  te_reader :: bool
  te_handler :: handler
  te_up :: "telemetryRequest list"
  te_down :: "telemetryResponse list"
  te_ended :: bool
  te_sent :: "telemetryRequest list"
  te_read :: "telemetryRequest list"

definition tele_init :: tele where
  "tele_init = \<lparr>te_updates = [], te_closed = False, te_sender = SndOpen, te_reader = False, te_handler = HdlWait, te_up = [],
     te_down = [], te_ended = False, te_sent = [], te_read = []\<rparr>"

text \<open>\<open>Send\<close> on the node's end: it waits (None) while the window is full, and fails when the stream has ended.\<close>

definition node_send :: "nat \<Rightarrow> telemetryRequest \<Rightarrow> sender \<Rightarrow> tele \<Rightarrow> tele option" where
  "node_send W m nxt s = (if te_ended s then Some (s\<lparr>te_sender := SndDone\<rparr>)
     else if length (te_up s) < W then Some (s\<lparr>te_up := te_up s @ [m], te_sent := te_sent s @ [m], te_sender := nxt\<rparr>)
     else None)"

definition server_send :: "nat \<Rightarrow> telemetryResponse \<Rightarrow> handler \<Rightarrow> tele \<Rightarrow> tele option" where
  "server_send W r nxt s = (if te_ended s then Some (s\<lparr>te_handler := HdlDone\<rparr>)
     else if length (te_down s) < W then Some (s\<lparr>te_down := te_down s @ [r], te_handler := nxt\<rparr>)
     else None)"

datatype tele_event = TeOffer telemetryUpdate | TeClose | TeEnd
  | TeSender time | TeOpenFails | TeReader | TeHandler time

text \<open>A turn of the sender.\<close>

definition sender_turn :: "nat \<Rightarrow> (f64 \<Rightarrow> f64) \<Rightarrow> string \<Rightarrow> time \<Rightarrow> tele \<Rightarrow> tele option" where
  "sender_turn W to_f32 nodeID now s = (case te_sender s of
       SndOpen \<Rightarrow> Some (s\<lparr>te_sender := SndFirst\<rparr>)
     | SndFirst \<Rightarrow> map_option (\<lambda>s'. s'\<lparr>te_reader := te_sender s' = SndRange\<rparr>) (node_send W (initial_request nodeID) SndRange s)
     | SndRange \<Rightarrow> (case te_updates s of
           u # us \<Rightarrow> Some (s\<lparr>te_updates := us, te_sender := SndSend (update_request to_f32 nodeID now u)\<rparr>)
         | [] \<Rightarrow> if te_closed s then Some (s\<lparr>te_sender := SndDone\<rparr>) else None)
     | SndSend m \<Rightarrow> node_send W m SndRange s
     | SndDone \<Rightarrow> None)"

text \<open>A turn of the handler; when it returns, the stream has ended.\<close>

definition handler_turn :: "nat \<Rightarrow> time \<Rightarrow> tele \<Rightarrow> tele option" where
  "handler_turn W now s = (case te_handler s of
       HdlWait \<Rightarrow> (case te_up s of
           m # ms \<Rightarrow> Some (s\<lparr>te_up := ms, te_read := te_read s @ [m], te_handler := HdlAck (tq_NodeId m)\<rparr>)
         | [] \<Rightarrow> if te_ended s then Some (s\<lparr>te_handler := HdlDone\<rparr>) else None)
     | HdlAck nodeID \<Rightarrow> server_send W (started_response now) (HdlTick nodeID) s
     | HdlTick nodeID \<Rightarrow> server_send W (update_response nodeID now) (HdlTick nodeID) s
     | HdlDone \<Rightarrow> None)"

definition reader_turn :: "tele \<Rightarrow> tele option" where
  "reader_turn s = (if \<not> te_reader s then None else case te_down s of
       r # rs \<Rightarrow> Some (s\<lparr>te_down := rs\<rparr>)
     | [] \<Rightarrow> if te_ended s then Some (s\<lparr>te_reader := False\<rparr>) else None)"

fun tele_step :: "nat \<Rightarrow> (f64 \<Rightarrow> f64) \<Rightarrow> string \<Rightarrow> tele_event \<Rightarrow> tele \<Rightarrow> tele option" where
  "tele_step W f n (TeOffer u) s = (if te_closed s then None else Some (s\<lparr>te_updates := te_updates s @ [u]\<rparr>))"
| "tele_step W f n TeClose s = (if te_closed s then None else Some (s\<lparr>te_closed := True\<rparr>))"
| "tele_step W f n TeEnd s = Some (s\<lparr>te_ended := True\<rparr>)"
| "tele_step W f n TeOpenFails s = (if te_sender s = SndOpen then Some (s\<lparr>te_sender := SndDone\<rparr>) else None)"
| "tele_step W f n (TeSender now) s = sender_turn W f n now s"
| "tele_step W f n TeReader s = reader_turn s"
| "tele_step W f n (TeHandler now) s = handler_turn W now s"

section \<open>What arrives\<close>

text \<open>Nothing is lost on the way, and the handler reads once.\<close>

definition introduced :: "string \<Rightarrow> telemetryRequest list \<Rightarrow> bool" where
  "introduced n ms \<longleftrightarrow> ms = [] \<or> hd ms = initial_request n"

lemma introduced_append [simp]: "introduced n (ms @ [m]) \<longleftrightarrow> (if ms = [] then m = initial_request n else introduced n ms)"
  by (simp add: introduced_def)

definition tele_ok :: "nat \<Rightarrow> string \<Rightarrow> tele \<Rightarrow> bool" where
  "tele_ok W n s \<longleftrightarrow> te_sent s = te_read s @ te_up s \<and> length (te_up s) \<le> W \<and> length (te_read s) \<le> 1 \<and>
     (te_handler s = HdlWait \<longrightarrow> te_read s = []) \<and> introduced n (te_read s @ te_up s) \<and>
     (te_read s @ te_up s = [] \<longrightarrow> te_sender s \<in> {SndOpen, SndFirst, SndDone})"

lemma tele_ok_init: "tele_ok W n tele_init"
  by (simp add: tele_ok_def tele_init_def introduced_def)

lemma node_send_ok:
  assumes "tele_ok W n s" and "node_send W m nxt s = Some s'" and "te_sent s = [] \<Longrightarrow> m = initial_request n"
  shows "tele_ok W n s'"
  using assms by (auto simp: tele_ok_def node_send_def simp flip: append_assoc split: if_splits)

lemma sender_turn_ok:
  assumes "tele_ok W n s" and "sender_turn W f n now s = Some s'"
  shows "tele_ok W n s'"
proof (cases "te_sender s")
  case SndFirst
  then obtain s1 where s1: "node_send W (initial_request n) SndRange s = Some s1" "s' = s1\<lparr>te_reader := te_sender s1 = SndRange\<rparr>"
    using assms(2) by (auto simp: sender_turn_def)
  have "tele_ok W n s1" by (rule node_send_ok [OF assms(1) s1(1)]) simp
  then show ?thesis unfolding s1(2) tele_ok_def by simp
next
  case (SndSend m)
  then have ns: "node_send W m SndRange s = Some s'" using assms(2) by (simp add: sender_turn_def)
  have "te_sent s \<noteq> []" using assms(1) SndSend by (auto simp: tele_ok_def)
  then show ?thesis by (intro node_send_ok [OF assms(1) ns]) blast
next
  case SndOpen
  then have "s' = s\<lparr>te_sender := SndFirst\<rparr>" using assms(2) by (simp add: sender_turn_def)
  then show ?thesis using assms(1) by (simp add: tele_ok_def)
next
  case SndRange
  then have ne: "te_read s @ te_up s \<noteq> []" using assms(1) by (auto simp: tele_ok_def)
  have "s' = s\<lparr>te_sender := SndDone\<rparr> \<or> (\<exists>us m. s' = s\<lparr>te_updates := us, te_sender := SndSend m\<rparr>)"
    using assms(2) SndRange by (auto simp: sender_turn_def split: list.splits if_splits)
  then show ?thesis using assms(1) ne by (auto simp: tele_ok_def)
qed (use assms(2) in \<open>simp add: sender_turn_def\<close>)

lemma server_send_ok:
  assumes "tele_ok W n s" and "server_send W r nxt s = Some s'" and "te_handler s \<noteq> HdlWait" and "nxt \<noteq> HdlWait"
  shows "tele_ok W n s'"
  using assms by (auto simp: tele_ok_def server_send_def split: if_splits)

lemma handler_turn_ok:
  assumes "tele_ok W n s" and "handler_turn W now s = Some s'"
  shows "tele_ok W n s'"
proof (cases "te_handler s")
  case HdlWait
  show ?thesis
  proof (cases "te_up s")
    case Nil
    with HdlWait assms show ?thesis by (auto simp: handler_turn_def tele_ok_def split: if_splits)
  next
    case (Cons m ms)
    then have "s' = s\<lparr>te_up := ms, te_read := te_read s @ [m], te_handler := HdlAck (tq_NodeId m)\<rparr>"
      using HdlWait assms(2) by (simp add: handler_turn_def)
    with Cons HdlWait assms(1) show ?thesis by (auto simp: tele_ok_def)
  qed
qed (use assms in \<open>auto simp: handler_turn_def intro: server_send_ok\<close>)

lemma tele_step_ok:
  assumes "tele_ok W n s" and "tele_step W f n e s = Some s'"
  shows "tele_ok W n s'"
proof (cases e)
  case (TeSender now)
  then show ?thesis using assms sender_turn_ok by simp
next
  case (TeHandler now)
  then show ?thesis using assms handler_turn_ok by simp
next
  case TeReader
  then have "s' = s\<lparr>te_down := tl (te_down s)\<rparr> \<or> s' = s\<lparr>te_reader := False\<rparr>"
    using assms(2) by (auto simp: reader_turn_def split: if_splits list.splits)
  then show ?thesis using assms(1) by (auto simp: tele_ok_def)
qed (use assms in \<open>auto simp: tele_ok_def split: if_splits\<close>)

lemma tele_run_ok: "run_opt (tele_step W f n) es tele_init = Some s \<Longrightarrow> tele_ok W n s"
  by (rule run_opt_preserves [where I = "tele_ok W n", OF tele_step_ok _ ]) (auto intro: tele_ok_init)

text \<open>Once the server no longer reads and the window is full, the sender waits until the stream ends.\<close>

lemma sender_stuck:
  assumes "te_sender s = SndSend m" "length (te_up s) = W" "te_handler s \<noteq> HdlWait"
    and "run_opt (tele_step W f n) es s = Some s'" and "\<not> te_ended s'"
  shows "te_sender s' = SndSend m"
proof -
  let ?I = "\<lambda>s. te_handler s \<noteq> HdlWait \<and> (te_ended s \<or> te_sender s = SndSend m \<and> length (te_up s) = W)"
  have "?I t'" if "?I t" "tele_step W f n e t = Some t'" for e t t'
    using that by (cases e) (auto simp: sender_turn_def node_send_def reader_turn_def handler_turn_def server_send_def
      split: if_splits list.splits handler.splits sender.splits)
  then have "?I s'" using run_opt_preserves [of ?I "tele_step W f n" s es s'] assms(1-4) by blast
  then show ?thesis using assms(5) by blast
qed

text \<open>C24: No telemetry arrives. However many updates a node offers and however the two ends are scheduled, the server
  never reads more than the first message, which carries nothing but the node's id, and the stream accepts at most as many
  messages after it as its window holds.\<close>

theorem telemetry_never_read:
  assumes "run_opt (tele_step W to_f32 nodeID) es tele_init = Some s"
  shows "set (te_read s) \<subseteq> {initial_request nodeID} \<and> length (te_read s) \<le> 1 \<and> length (te_sent s) \<le> W + 1"
proof -
  have "tele_ok W nodeID s" by (rule tele_run_ok [OF assms])
  then show ?thesis unfolding tele_ok_def introduced_def by (cases "te_read s"; cases "tl (te_read s)") auto
qed

text \<open>A window of one message: the introduction is read, the first update lies unread, and the second is held back.\<close>

theorem telemetry_never_read_witness:
  "\<exists>s. run_opt (tele_step 1 (\<lambda>x. x) ''n'')
      [TeSender 0, TeSender 0, TeHandler 0, TeHandler 0, TeOffer \<lparr>tu_Battery = 50, tu_CPUUsage = Fin 1, tu_IsCharging = True, tu_BytesSent = 7, tu_BytesReceived = 8, tu_IP = ''i''\<rparr>,
       TeOffer \<lparr>tu_Battery = 49, tu_CPUUsage = Fin 1, tu_IsCharging = True, tu_BytesSent = 9, tu_BytesReceived = 9, tu_IP = ''i''\<rparr>,
       TeSender 0, TeSender 0, TeSender 0] tele_init = Some s \<and>
     length (te_sent s) = 2 \<and> te_sender s \<noteq> SndRange \<and> te_read s = [initial_request ''n''] \<and> set (te_read s) \<subseteq> {initial_request ''n''}"
proof -
  obtain s where s: "run_opt (tele_step 1 (\<lambda>x. x) ''n'')
      [TeSender 0, TeSender 0, TeHandler 0, TeHandler 0, TeOffer \<lparr>tu_Battery = 50, tu_CPUUsage = Fin 1, tu_IsCharging = True, tu_BytesSent = 7, tu_BytesReceived = 8, tu_IP = ''i''\<rparr>,
       TeOffer \<lparr>tu_Battery = 49, tu_CPUUsage = Fin 1, tu_IsCharging = True, tu_BytesSent = 9, tu_BytesReceived = 9, tu_IP = ''i''\<rparr>,
       TeSender 0, TeSender 0, TeSender 0] tele_init = Some s"
    and v: "length (te_sent s) = 2" "te_sender s \<noteq> SndRange" "te_read s = [initial_request ''n'']"
    by (simp add: tele_init_def sender_turn_def handler_turn_def node_send_def server_send_def)
  from telemetry_never_read [OF s] s v show ?thesis by blast
qed

end
