(* ===== verification/Admin_Tools.thy ===== *)
theory Admin_Tools
  imports Sessions Conn_Pool Health
begin

text \<open>
  The routes of components whose state is modelled elsewhere: schemas and the administrators' sessions
  (\<open>gateway/schema_session.go\<close>), pool settings (\<open>gateway/pool_config.go\<close>) and the history of health
  (\<open>matchmaker/health_history.go\<close>). A body is the decoded request, or the error of decoding it.
\<close>

section \<open>Schemas\<close>

record schemaRequest =
  sq_Endpoint :: string
  sq_Method :: string
  sq_Schema :: schema

definition createSchemaHandler :: "string + schemaRequest \<Rightarrow> (string \<rightharpoonup> schema) \<Rightarrow> string resp \<times> (string \<rightharpoonup> schema)" where
  "createSchemaHandler body sv = (case body of Inl e \<Rightarrow> (bad_request e, sv)
     | Inr q \<Rightarrow> ((201, Inr ''created''), RegisterSchema (sq_Endpoint q) (sq_Method q) (sq_Schema q) sv))"

definition listSchemasHandler :: "(string \<rightharpoonup> schema) \<Rightarrow> (string \<rightharpoonup> schema) resp" where
  "listSchemasHandler sv = (200, Inr sv)"

section \<open>Sessions of administrators\<close>

text \<open>The name must not be empty.\<close>

definition createSessionHandler ::
    "time \<Rightarrow> string \<Rightarrow> string \<Rightarrow> string + string \<Rightarrow> adminSessions \<Rightarrow> string resp \<times> adminSessions" where
  "createSessionHandler now ip userAgent body m = (case body of Inl e \<Rightarrow> (bad_request e, m)
     | Inr username \<Rightarrow> if username = '''' then (bad_request ''required'', m)
         else (case asm_CreateSession now username ip userAgent m of (sessionID, m1) \<Rightarrow> ((201, Inr sessionID), m1)))"

definition listSessionsHandler :: "string list \<Rightarrow> time \<Rightarrow> adminSessions \<Rightarrow> adminSession list resp" where
  "listSessionsHandler order now m = (200, Inr (asm_ListSessions order now m))"

definition deleteSessionHandler :: "string \<Rightarrow> adminSessions \<Rightarrow> string resp \<times> adminSessions" where
  "deleteSessionHandler sessionID m = ((200, Inr ''deleted''), asm_DeleteSession sessionID m)"

section \<open>Settings of pools\<close>

definition pool_setConfigHandler :: "string + string \<times> nodePoolConfig \<Rightarrow> poolConfigs \<Rightarrow> string resp \<times> poolConfigs" where
  "pool_setConfigHandler body m = (case body of Inl e \<Rightarrow> (bad_request e, m)
     | Inr (nodeID, cfg) \<Rightarrow> ((200, Inr ''success''), pool_SetConfig nodeID cfg m))"

definition pool_listConfigHandler :: "poolConfigs \<Rightarrow> poolConfigs resp" where
  "pool_listConfigHandler m = (200, Inr m)"

section \<open>History of health\<close>

record historyAnswer =
  ha_NodeID :: string
  ha_History :: "healthStatus list"
  ha_Count :: int

definition historyRoute :: "'r redis option \<Rightarrow> string \<Rightarrow> string \<Rightarrow> healthHistory \<Rightarrow> 'r \<Rightarrow> historyAnswer resp \<times> 'r" where
  "historyRoute h nodeID limit hh st =
     (if nodeID = '''' then (bad_request ''node_id required'', st)
      else (case hh_GetHistory h nodeID (query_limit 10 limit) hh st of
        (history, st1) \<Rightarrow> ((200, Inr \<lparr>ha_NodeID = nodeID, ha_History = history, ha_Count = int (length history)\<rparr>), st1)))"

record timelineAnswer =
  tl_NodeID :: string
  tl_Timeline :: "healthStatus list"
  tl_UptimePct :: f64
  tl_AvgLatency :: int

text \<open>The parameter is scanned into a \<open>time.Duration\<close>, which counts nanoseconds. Each of the three calls reads the
  clock.\<close>

definition query_duration :: "string \<Rightarrow> duration" where
  "query_duration d = (if d = '''' then 24 * go_hour else scan_into (24 * go_hour) d)"

definition timelineRoute :: "time \<times> time \<times> time \<Rightarrow> string \<Rightarrow> string \<Rightarrow> healthHistory \<Rightarrow> timelineAnswer resp" where
  "timelineRoute = (\<lambda>(t1, t2, t3) nodeID d hh.
     (if nodeID = '''' then bad_request ''node_id required''
      else (let duration = query_duration d
        in (200, Inr \<lparr>tl_NodeID = nodeID, tl_Timeline = GetStatusTimeline t1 nodeID duration hh,
              tl_UptimePct = GetUptimePercentage t2 nodeID duration hh,
              tl_AvgLatency = GetAverageLatency t3 nodeID duration hh\<rparr>))))"

section \<open>Properties\<close>

text \<open>A session that was asked for, under any name and by anybody, is accepted until it has expired, and names the user it
  was asked for.\<close>

theorem session_for_anyone:
  assumes "createSessionHandler t ip ua (Inr user) m = ((201, Inr sid), m1)" and "rq_header r ''X-Admin-Session'' = sid"
    and "now \<le> t + asm_timeout m"
  shows "fst (asm_Middleware now r m1) = (Next, Some user)"
proof -
  have "user \<noteq> ''''" "sid = ''admin-'' @ show_int (i64 t)" "m1 = snd (asm_CreateSession t user ip ua m)"
    using assms(1) by (auto simp: createSessionHandler_def asm_CreateSession_def bad_request_def Let_def split: if_splits)
  then show ?thesis using assms(2,3)
    by (simp add: asm_Middleware_def asm_GetSession_def asm_CreateSession_def Let_def)
qed

lemma scan_show_nat:
  assumes "in_i64 (int k)"
  shows "scan_into d (show_nat k) = int k"
proof -
  have tw: "takeWhile is_digit (show_nat k) = show_nat k" using show_nat_digits by (simp add: takeWhile_eq_all_conv)
  have dw: "dropWhile (\<lambda>c. c = CHR '' '') (show_nat k) = show_nat k" using show_nat_head [of k] by (auto simp: is_digit_def)
  show ?thesis using assms parse_show_nat [of k] show_nat_nonempty [of k]
    by (auto simp: scan_into_def dw tw parse_sign_show_nat Let_def split: list.split)
qed

text \<open>A period given as a number, as in \<open>duration=24\<close>, is one of nanoseconds: whatever was recorded before it is not in the
  answer, which says that the node was never up.\<close>

theorem timeline_counts_nanoseconds:
  assumes "in_i64 (int k)" and "nodeID \<noteq> ''''"
    and "\<forall>s \<in> set (hh_history hh nodeID). hs_Timestamp s \<le> t1 - int k" and "t1 \<le> t2" and "t2 \<le> t3"
  shows "timelineRoute (t1, t2, t3) nodeID (show_nat k) hh =
    (200, Inr \<lparr>tl_NodeID = nodeID, tl_Timeline = [], tl_UptimePct = f_int 0, tl_AvgLatency = 0\<rparr>)"
proof -
  have "query_duration (show_nat k) = int k" using scan_show_nat [OF assms(1)] by (simp add: query_duration_def)
  moreover have "i64 (- int k) = - int k" using assms(1) by (intro i64_id) (simp add: in_i64_def)
  moreover have "\<not> t' - int k < hs_Timestamp s" if "s \<in> set (hh_history hh nodeID)" "t1 \<le> t'" for s t'
    using assms(3) that by fastforce
  ultimately have "GetStatusTimeline t' nodeID (query_duration (show_nat k)) hh = []" if "t1 \<le> t'" for t'
    using that by (auto simp: GetStatusTimeline_def Let_def)
  then show ?thesis using assms(2,4,5)
    by (simp add: timelineRoute_def GetUptimePercentage_def GetAverageLatency_def Let_def)
qed

text \<open>The settings of a pool are kept and shown; no pool has them.\<close>

lemma pool_settings_kept:
  "pool_GetConfig n (snd (pool_setConfigHandler (Inr (n, cfg)) m)) = cfg"
  by (simp add: pool_setConfigHandler_def pool_SetConfig_def pool_GetConfig_def)

end
