(* ===== verification/Identifiers.thy ===== *)
theory Identifiers
  imports Go_Time Rbac Capacity
begin

text \<open>
  How the program makes identifiers out of a counter or of random bytes: scaling policies
  (\<open>gateway/scaling_policy.go\<close>), referral codes (\<open>gateway/rate_limit_tiers.go\<close>), API keys (\<open>gateway/apikey.go\<close>), users
  (\<open>admin/rbac/service.go\<close>) and tokens (\<open>jwt/service.go\<close>). Random bytes are arguments; a string is its bytes.
\<close>

section \<open>Random identifiers\<close>

definition generateKey :: "string \<Rightarrow> string" where "generateKey random = hex_encode random"

text \<open>Sixteen random bytes.\<close>

definition generateID :: "string \<Rightarrow> string" where "generateID random = hex_encode random"

definition generateTokenID :: "string \<Rightarrow> string" where "generateTokenID random = hex_encode random"

definition hashKey :: "(string \<Rightarrow> string) \<Rightarrow> string \<Rightarrow> string" where "hashKey sha256 key = hex_encode (sha256 key)"

text \<open>The numbers drawn are below 32.\<close>

definition referral_chars :: string where "referral_chars = ''ABCDEFGHJKLMNPQRSTUVWXYZ23456789''"

definition GenerateReferralCode :: "nat list \<Rightarrow> string" where
  "GenerateReferralCode ns = (let b = map (\<lambda>n. referral_chars ! n) ns in ''REF-'' @ take 8 (hex_encode b))"

section \<open>Numbered identifiers\<close>

text \<open>\<open>string(rune(n))\<close>: the code point in UTF-8, or the replacement character.\<close>

definition rune_string :: "int \<Rightarrow> string" where
  "rune_string x =
     (let r = (x + 2 ^ 31) mod 2 ^ 32 - 2 ^ 31;
          n = (if 0 \<le> r \<and> r \<le> 1114111 \<and> \<not> (55296 \<le> r \<and> r \<le> 57343) then nat r else 65533)
      in if n < 128 then [char_of n]
         else if n < 2048 then [char_of (192 + n div 64), char_of (128 + n mod 64)]
         else if n < 65536 then [char_of (224 + n div 4096), char_of (128 + n div 64 mod 64), char_of (128 + n mod 64)]
         else [char_of (240 + n div 262144), char_of (128 + n div 4096 mod 64), char_of (128 + n div 64 mod 64), char_of (128 + n mod 64)])"

text \<open>The format \<open>20060102150405\<close>.\<close>

definition pad_nat :: "nat \<Rightarrow> nat \<Rightarrow> string" where
  "pad_nat k n = (let s = show_nat n in replicate (k - length s) (CHR ''0'') @ s)"

definition time_stamp :: "duration \<Rightarrow> time \<Rightarrow> string" where
  "time_stamp zone t = (case date_of zone t of (y, m, d) \<Rightarrow>
     let s = nat ((t + zone) mod day_ns div go_second)
     in pad_nat 4 (nat y) @ pad_nat 2 (nat m) @ pad_nat 2 (nat d) @ pad_nat 2 (s div 3600) @ pad_nat 2 (s div 60 mod 60) @ pad_nat 2 (s mod 60))"

definition generatePolicyID :: "duration \<Rightarrow> time \<Rightarrow> int \<Rightarrow> string \<times> int" where
  "generatePolicyID zone now counter = (let c = i64 (counter + 1) in (''pol-'' @ time_stamp zone now @ ''-'' @ rune_string c, c))"

section \<open>Random identifiers: what is left of the randomness\<close>

lemma hex_encode_inj: "hex_encode a = hex_encode b \<longleftrightarrow> a = b"
  using hex_decode_encode by metis

lemma length_hex_encode: "length (hex_encode s) = 2 * length s"
  by (induction s) (simp_all add: hex_encode_def)

lemma take_hex_encode: "take (2 * k) (hex_encode s) = hex_encode (take k s)"
proof (induction s arbitrary: k)
  case (Cons c s)
  then show ?case by (cases k) (simp_all add: hex_encode_def)
qed (simp add: hex_encode_def)

text \<open>Of the eight characters drawn for a referral code four are left, in hexadecimal: the second half of the draw makes no
  difference.\<close>

theorem referral_half_unused:
  assumes "length ns = 8" and "length ms = 8"
    and "\<forall>n \<in> set ns \<union> set ms. n < 32" 
  shows "GenerateReferralCode ns = GenerateReferralCode ms \<longleftrightarrow> take 4 ns = take 4 ms"
proof -
  have d: "distinct referral_chars" "length referral_chars = 32" unfolding referral_chars_def by code_simp+
  have inj: "inj_on (\<lambda>n. referral_chars ! n) {..<32}" using inj_on_nth [OF d(1), of "{..<32}"] d(2) by simp
  have e: "take 8 (hex_encode (map (\<lambda>n. referral_chars ! n) xs)) = hex_encode (map (\<lambda>n. referral_chars ! n) (take 4 xs))" for xs
    using take_hex_encode [of 4 "map (\<lambda>n. referral_chars ! n) xs"] by (simp add: take_map)
  have "map (\<lambda>n. referral_chars ! n) (take 4 ns) = map (\<lambda>n. referral_chars ! n) (take 4 ms) \<longleftrightarrow> take 4 ns = take 4 ms"
    by (rule inj_on_map_eq_map) (rule inj_on_subset [OF inj], use assms(3) in \<open>auto dest: in_set_takeD\<close>)
  then show ?thesis by (simp add: GenerateReferralCode_def e hex_encode_inj)
qed

section \<open>Numbered identifiers: distinct\<close>

lemma char_of_eq: "a < 256 \<Longrightarrow> b < 256 \<Longrightarrow> (char_of (a::nat) :: char) = char_of b \<longleftrightarrow> a = b"
  by (metis mod_less of_char_of)

lemma rune_small:
  assumes "0 \<le> x" "x < 55296"
  shows "rune_string x = (let n = nat x in if n < 128 then [char_of n]
     else if n < 2048 then [char_of (192 + n div 64), char_of (128 + n mod 64)]
     else [char_of (224 + n div 4096), char_of (128 + n div 64 mod 64), char_of (128 + n mod 64)])"
  using assms by (simp add: rune_string_def Let_def)

lemma rune_digits: "\<exists>u v q. n = 4096 * u + 64 * v + q \<and> v < 64 \<and> q < (64::nat)"
proof (intro exI conjI)
  have "n = 64 * (n div 64) + n mod 64" "n div 64 = 64 * (n div 64 div 64) + n div 64 mod 64"
    by (rule mult_div_mod_eq [symmetric])+
  then show "n = 4096 * (n div 64 div 64) + 64 * (n div 64 mod 64) + n mod 64" by linarith
qed simp_all

lemma digits_div:
  assumes "v < 64" "q < (64::nat)"
  shows "(4096 * u + 64 * v + q) div 64 = 64 * u + v" and "(4096 * u + 64 * v + q) mod 64 = q"
    and "(4096 * u + 64 * v + q) div 4096 = u" and "(64 * u + v) mod 64 = v"
proof -
  have "(4096 * u + 64 * v + q) div 64 = 64 * u + v \<and> (4096 * u + 64 * v + q) mod 64 = q"
    using div_mult_self3 [of 64 "64 * u + v" q] mod_mult_self3 [of "64 * u + v" 64 q] assms(2) by (simp add: algebra_simps)
  then show "(4096 * u + 64 * v + q) div 64 = 64 * u + v" and "(4096 * u + 64 * v + q) mod 64 = q" by blast+
  show "(4096 * u + 64 * v + q) div 4096 = u" using assms by (intro div_nat_eqI) simp_all
  show "(64 * u + v) mod 64 = v" using assms(1) by simp
qed

lemma rune_inj:
  assumes "0 \<le> x" "x < 55296" "0 \<le> y" "y < 55296" "rune_string x = rune_string y"
  shows "x = y"
proof -
  obtain u v q where n: "nat x = 4096 * u + 64 * v + q" "v < 64" "q < 64" using rune_digits by blast
  obtain u' v' q' where k: "nat y = 4096 * u' + 64 * v' + q'" "v' < 64" "q' < 64" using rune_digits by blast
  have small: "u < 14" "u' < 14" using assms(1-4) n(1) k(1) by linarith+
  have "nat x = nat y"
    using assms(5) n(2,3) k(2,3) small unfolding rune_small [OF assms(1,2)] rune_small [OF assms(3,4)] Let_def n(1) k(1)
      digits_div [OF n(2,3)] digits_div [OF k(2,3)]
    by (auto simp: char_of_eq split: if_splits)
  then show ?thesis using assms(1,3) by simp
qed

text \<open>Policies made by the same program have different identifiers, also within one second, as long as there are fewer than
  55 thousand of them.\<close>

theorem policy_ids_distinct:
  assumes "0 \<le> a" "a < 55295" "0 \<le> b" "b < 55295" "a \<noteq> b"
    and "length (time_stamp zone t) = length (time_stamp zone u)"
  shows "fst (generatePolicyID zone t a) \<noteq> fst (generatePolicyID zone u b)"
proof -
  have "i64 (a + 1) = a + 1" "i64 (b + 1) = b + 1" using assms by (simp_all add: i64_id_bounds)
  moreover have "rune_string (a + 1) \<noteq> rune_string (b + 1)" using rune_inj [of "a + 1" "b + 1"] assms by auto
  ultimately show ?thesis using assms(6) by (simp add: generatePolicyID_def Let_def)
qed

text \<open>So a new manager has both of its policies.\<close>

lemma new_manager_policies:
  assumes "length (time_stamp zone t) = length (time_stamp zone u)"
  shows "card (dom (NewScalingPolicyManager (fst (generatePolicyID zone t 0)) (fst (generatePolicyID zone u 1)))) = 2"
proof -
  have "fst (generatePolicyID zone t 0) \<noteq> fst (generatePolicyID zone u 1)" by (rule policy_ids_distinct) (use assms in auto)
  moreover have "fst (generatePolicyID zone t 0) \<noteq> ''''" "fst (generatePolicyID zone u 1) \<noteq> ''''" by (simp_all add: generatePolicyID_def Let_def)
  ultimately show ?thesis by (simp add: NewScalingPolicyManager_def AddPolicy_def Let_def)
qed

end
