(* ===== verification/Redis_Connect.thy ===== *)
theory Redis_Connect
  imports Config
begin

text \<open>
  Connecting to Redis (\<open>NewRedisClient\<close> of \<open>matchmaker/redis_client.go\<close>), one of three ways after the configuration. The
  clients and their \<open>Ping\<close> are the library's: a handle says how a client was made, and pinging it may fail or panic.
\<close>

datatype redis_handle =
    SentinelClient string "string list" string int
  | ClusterClient "string list" string
  | SingleClient string string int int int
  | ZeroClient

datatype ping = Pong | PingError go_err | PingPanics

text \<open>None is a panic.\<close>

definition NewRedisClient :: "(redis_handle \<Rightarrow> ping) \<Rightarrow> redisConfig \<Rightarrow> (go_err + redis_handle) option" where
  "NewRedisClient pinged cfg =
     (let last_ping = (\<lambda>c. case pinged c of Pong \<Rightarrow> Some (Inr c)
            | PingError e \<Rightarrow> Some (Inl (Wrap ''failed to connect to redis'' e)) | PingPanics \<Rightarrow> None)
      in if rc_SentinelEnabled cfg \<and> rc_SentinelAddrs cfg \<noteq> [] \<and> rc_SentinelMaster cfg \<noteq> ''''
         then last_ping (SentinelClient (rc_SentinelMaster cfg) (rc_SentinelAddrs cfg) (rc_Password cfg) (rc_DB cfg))
         else if rc_ClusterEnabled cfg \<and> rc_ClusterAddrs cfg \<noteq> []
         then (case pinged (ClusterClient (rc_ClusterAddrs cfg) (rc_Password cfg)) of
             PingError e \<Rightarrow> Some (Inl (Wrap ''failed to connect to redis cluster'' e))
           | PingPanics \<Rightarrow> None
           | Pong \<Rightarrow> last_ping ZeroClient)
         else last_ping (SingleClient (rc_Host cfg @ '':'' @ show_int (rc_Port cfg)) (rc_Password cfg) (rc_DB cfg)
                (rc_PoolSize cfg) (rc_MaxRetries cfg)))"

text \<open>The zero value of the library's client has no connection and no processor: pinging it calls a nil function.\<close>

text \<open>With a cluster the program never gets a client: what is pinged and kept is not the cluster's client but the zero value
  of another, whether the cluster can be reached or not.\<close>

theorem cluster_never_connects:
  assumes "pinged ZeroClient = PingPanics" and "rc_ClusterEnabled cfg" and "rc_ClusterAddrs cfg \<noteq> []"
    and "\<not> rc_SentinelEnabled cfg"
  shows "NewRedisClient pinged cfg \<noteq> Some (Inr c) \<and>
    (pinged (ClusterClient (rc_ClusterAddrs cfg) (rc_Password cfg)) = Pong \<longrightarrow> NewRedisClient pinged cfg = None)"
  using assms by (simp add: NewRedisClient_def split: ping.splits)

lemma cluster_never_connects_witness:
  "NewRedisClient (\<lambda>c. if c = ZeroClient then PingPanics else Pong)
     \<lparr>rc_Host = ''h'', rc_Port = 6379, rc_Password = '''', rc_DB = 0, rc_ClusterEnabled = True, rc_ClusterAddrs = [''a:1''],
      rc_SentinelEnabled = False, rc_SentinelAddrs = [], rc_SentinelMaster = '''', rc_PoolSize = 10, rc_MaxRetries = 3\<rparr> = None"
  using cluster_never_connects [of "\<lambda>c. if c = ZeroClient then PingPanics else Pong"
    "\<lparr>rc_Host = ''h'', rc_Port = 6379, rc_Password = '''', rc_DB = 0, rc_ClusterEnabled = True, rc_ClusterAddrs = [''a:1''],
      rc_SentinelEnabled = False, rc_SentinelAddrs = [], rc_SentinelMaster = '''', rc_PoolSize = 10, rc_MaxRetries = 3\<rparr>"]
  by simp

text \<open>Without a cluster or sentinels the client is the one that answered.\<close>

lemma single_connects:
  assumes "\<not> rc_SentinelEnabled cfg" and "\<not> rc_ClusterEnabled cfg" and "NewRedisClient pinged cfg = Some (Inr c)"
  shows "pinged c = Pong"
  using assms by (auto simp: NewRedisClient_def Let_def split: ping.splits)

end
