(* ===== verification/Routes.thy ===== *)
theory Routes
  imports Prelude
begin

text \<open>
  Which checks stand in front of which route: the calls on the router that \<open>NewGateway\<close> and \<open>setupRoutes\<close>
  (\<open>gateway/service.go\<close>), \<open>setupWebSocket\<close>, the web interface (\<open>gateway/web/webui.go\<close>), \<open>setupAdminRoutes\<close>
  (\<open>admin.go\<close>) and \<open>setupPeerRoutes\<close> (\<open>peer_api.go\<close>) make, in the order of \<open>main\<close>. The router (gin) is not part
  of the repository; its documented behaviour, that a route runs the middlewares in use when it was registered and
  those of its group, and that a static file or directory is registered for GET and for HEAD, is a hypothesis.
\<close>

section \<open>Calls on the router\<close>

datatype mw = MwRecovery | MwCompress | MwRequestID | MwRequestLog | MwRateLimit | MwAuth | MwTracing | MwScope string
  | MwAdminKey | MwAudit | MwPeerToken

text \<open>\<open>Use\<close>, the registration of a route with its method, its path and the middlewares of its group, and those of a
  static file and of a static directory.\<close>

datatype router_call = RUse mw | RRoute string string "mw list" | RStaticFile string | RStatic string

definition in_group :: "string \<Rightarrow> mw list \<Rightarrow> (string \<times> string) list \<Rightarrow> router_call list" where
  "in_group pre ms rs = map (\<lambda>(m, p). RRoute m (pre @ p) ms) rs"

text \<open>What depends on the configuration and on which services \<open>main\<close> could create; the others it always creates.\<close>

record route_opts =
  ro_compression :: bool
  ro_audit :: bool
  ro_subnets :: bool

definition metrics_calls :: "router_call list" where
  "metrics_calls = [RRoute ''GET'' ''/metrics'' []]"

definition webui_calls :: "router_call list" where
  "webui_calls = in_group ''/web'' []
     [(''GET'', ''/dashboard''), (''GET'', ''/api/nodes''), (''GET'', ''/api/cooldowns''), (''GET'', ''/api/health''),
      (''GET'', ''/api/health/:nodeID''), (''GET'', ''/api/health/:nodeID/history''),
      (''POST'', ''/api/nodes/:id/reset''), (''POST'', ''/api/nodes/:id/eject'')]"

definition setupRoutes :: "router_call list" where
  "setupRoutes = metrics_calls @ [RUse MwRequestID, RUse MwRequestLog, RUse MwRateLimit] @
     in_group '''' []
       [(''GET'', ''/health''), (''GET'', ''/dashboard''), (''GET'', ''/''), (''GET'', ''/docs.html''), (''GET'', ''/favicon.ico''),
        (''GET'', ''/v1/health''), (''GET'', ''/v1/metrics''), (''GET'', ''/v1/dashboard''),
        (''GET'', ''/api/admin/config''), (''POST'', ''/api/admin/config''), (''GET'', ''/api/admin/theme''), (''POST'', ''/api/admin/theme'')] @
     [RStaticFile ''/logo.svg''] @ webui_calls @ [RUse MwAuth, RUse MwTracing] @
     in_group '''' [MwScope ''read''] [(''ANY'', ''/v1/:path''), (''ANY'', ''/v1/''), (''ANY'', ''/:path'')]"

definition gateway_calls :: "route_opts \<Rightarrow> router_call list" where
  "gateway_calls opts = [RUse MwRecovery] @ (if ro_compression opts then [RUse MwCompress] else []) @ setupRoutes @ [RRoute ''GET'' ''/ws'' []]"

definition setupAdminRoutes :: "route_opts \<Rightarrow> router_call list" where
  "setupAdminRoutes opts =
     in_group ''/api/admin'' (MwAdminKey # (if ro_audit opts then [MwAudit] else []))
       ([(''POST'', ''/nodes''), (''POST'', ''/nodes/:id/heartbeat''), (''DELETE'', ''/nodes/:id''), (''GET'', ''/nodes/:id''), (''GET'', ''/nodes''),
         (''GET'', ''/cooldowns''), (''GET'', ''/sessions''), (''DELETE'', ''/sessions/:id''), (''GET'', ''/capacity''), (''GET'', ''/scaling''),
         (''GET'', ''/circuitbreakers''), (''GET'', ''/health''), (''GET'', ''/health/:nodeID''), (''POST'', ''/benchmark''), (''GET'', ''/referrals/:code''),
         (''POST'', ''/circuitbreakers/:nodeId/reset''), (''GET'', ''/latency'')] @
        (if ro_audit opts then [(''GET'', ''/audit'')] else []) @
        [(''GET'', ''/users''), (''POST'', ''/users''), (''DELETE'', ''/users/:username''), (''POST'', ''/request-id''), (''GET'', ''/request-id''),
         (''POST'', ''/webhooks''), (''GET'', ''/webhooks''), (''GET'', ''/webhooks/:nodeID''), (''DELETE'', ''/webhooks/:nodeID''), (''GET'', ''/logs'')]) @
     in_group ''/api/keys'' [MwAdminKey] [(''POST'', ''''), (''GET'', ''''), (''DELETE'', ''''), (''POST'', ''/ratelimit''), (''PATCH'', ''/:hash'')] @
     (if ro_subnets opts then in_group ''/api/subnets'' [MwAdminKey]
        [(''POST'', ''/pools''), (''POST'', ''/allocate''), (''DELETE'', ''/allocate/:nodeID''), (''GET'', ''/pools''), (''GET'', ''/nodes/:nodeID'')] else [])"

definition peer_calls :: "router_call list" where
  "peer_calls = in_group ''/api/peer'' [MwPeerToken]
       [(''GET'', ''/status''), (''GET'', ''/bandwidth''), (''GET'', ''/earnings''), (''GET'', ''/health''), (''POST'', ''/consent''), (''POST'', ''/disconnect'')] @
     in_group '''' [] [(''POST'', ''/api/peer/auth''), (''GET'', ''/api/peer/stream''), (''GET'', ''/peer'')] @
     [RStatic ''/peer'']"

definition program_calls :: "route_opts \<Rightarrow> router_call list" where
  "program_calls opts = gateway_calls opts @ setupAdminRoutes opts @ peer_calls"

section \<open>The chains\<close>

definition in_use :: "router_call list \<Rightarrow> mw list" where
  "in_use cs = List.map_filter (\<lambda>c. case c of RUse m \<Rightarrow> Some m | _ \<Rightarrow> None) cs"

text \<open>Documented behaviour of the router: the routes with the middlewares that run for them, one call after the other.\<close>

definition gin_routes :: "(router_call list \<Rightarrow> (string \<times> string \<times> mw list) list) \<Rightarrow> bool" where
  "gin_routes R \<longleftrightarrow> R [] = [] \<and> (\<forall>cs m. R (cs @ [RUse m]) = R cs) \<and>
     (\<forall>cs m p g. R (cs @ [RRoute m p g]) = R cs @ [(m, p, in_use cs @ g)]) \<and>
     (\<forall>cs p. R (cs @ [RStaticFile p]) = R cs @ [(''GET'', p, in_use cs), (''HEAD'', p, in_use cs)]) \<and>
     (\<forall>cs p. R (cs @ [RStatic p]) = R cs @ [(''GET'', p @ ''/*filepath'', in_use cs), (''HEAD'', p @ ''/*filepath'', in_use cs)])"

fun chains :: "mw list \<Rightarrow> router_call list \<Rightarrow> (string \<times> string \<times> mw list) list" where
  "chains ms [] = []"
| "chains ms (RUse m # cs) = chains (ms @ [m]) cs"
| "chains ms (RRoute m p g # cs) = (m, p, ms @ g) # chains ms cs"
| "chains ms (RStaticFile p # cs) = (''GET'', p, ms) # (''HEAD'', p, ms) # chains ms cs"
| "chains ms (RStatic p # cs) = (''GET'', p @ ''/*filepath'', ms) # (''HEAD'', p @ ''/*filepath'', ms) # chains ms cs"

lemma chains_append: "chains ms (cs @ ds) = chains ms cs @ chains (ms @ in_use cs) ds"
  by (induction ms cs rule: chains.induct) (simp_all add: in_use_def map_filter_simps)

lemma gin_routes_chains: "gin_routes R \<Longrightarrow> R cs = chains [] cs"
proof (induction cs rule: rev_induct)
  case (snoc c cs)
  then show ?case by (cases c) (simp_all add: gin_routes_def chains_append)
qed (simp add: gin_routes_def)

lemma chains_gin_routes: "gin_routes (chains [])"
  by (simp add: gin_routes_def chains_append)

text \<open>The checks that can refuse a caller; the authentication of the gateway lets every path under \<open>/api/\<close> pass.\<close>

definition guards :: "mw list \<Rightarrow> mw list" where
  "guards ms = filter (\<lambda>m. m \<in> {MwAdminKey, MwPeerToken, MwScope ''read''}) ms"

definition admin_path :: "string \<Rightarrow> bool" where
  "admin_path p \<longleftrightarrow> has_prefix p ''/api/admin/'' \<or> has_prefix p ''/api/keys'' \<or> has_prefix p ''/api/subnets''"

definition open_writes :: "(string \<times> string) list" where
  "open_writes = [(''POST'', ''/api/admin/config''), (''POST'', ''/api/admin/theme''), (''POST'', ''/web/api/nodes/:id/reset''),
     (''POST'', ''/web/api/nodes/:id/eject''), (''POST'', ''/api/peer/auth'')]"

definition is_read :: "string \<Rightarrow> bool" where
  "is_read m \<longleftrightarrow> m = ''GET'' \<or> m = ''HEAD''"



end
