(* ===== verification/Route_Tables.thy ===== *)
theory Route_Tables
  imports Routes Go_Net
begin

text \<open>
  The routes that components bring along in a \<open>RegisterRoutes\<close> of their own. Except those of the request identifiers and
  of the web interface, which are part of \<open>Routes\<close>, no table is registered by the program; here is what would happen if
  they were. The router refuses with a panic a route whose path it already has, and one that names a parameter
  differently from a route it shares the way with.
\<close>

section \<open>Conflicts\<close>

type_synonym route = "string \<times> string"

fun is_param :: "string \<Rightarrow> bool" where
  "is_param (c # cs) = (c = CHR '':'')"
| "is_param [] = False"

fun paths_clash :: "string list \<Rightarrow> string list \<Rightarrow> bool" where
  "paths_clash [] [] = True"
| "paths_clash (a # as) (b # bs) =
     (if a = b then paths_clash as bs else is_param a \<and> is_param b)"
| "paths_clash _ _ = False"

definition segments :: "string \<Rightarrow> string list" where
  "segments p = split_char (CHR ''/'') p"

definition routes_clash :: "route \<Rightarrow> route \<Rightarrow> bool" where
  "routes_clash r q \<longleftrightarrow> (fst r = fst q \<or> fst r = ''ANY'' \<or> fst q = ''ANY'') \<and> paths_clash (segments (snd r)) (segments (snd q))"

text \<open>Registration one route after the other; None is the panic.\<close>

fun register_all :: "route list \<Rightarrow> route list \<Rightarrow> route list option" where
  "register_all known [] = Some known"
| "register_all known (r # rs) = (if \<exists>q \<in> set known. routes_clash q r then None else register_all (known @ [r]) rs)"

section \<open>The tables\<close>

definition schema_routes :: "route list" where
  "schema_routes = [(''POST'', ''/api/admin/schemas''), (''GET'', ''/api/admin/schemas'')]"

definition admin_session_routes :: "route list" where
  "admin_session_routes = [(''POST'', ''/api/admin/sessions''), (''GET'', ''/api/admin/sessions''), (''DELETE'', ''/api/admin/sessions/:id'')]"

definition analytics_routes :: "route list" where
  "analytics_routes = [(''GET'', ''/v1/analytics/summary''), (''GET'', ''/v1/analytics/country/:country''), (''GET'', ''/v1/analytics/node/:nodeId'')]"

definition pool_config_routes :: "route list" where
  "pool_config_routes = [(''POST'', ''/api/admin/pool-config''), (''GET'', ''/api/admin/pool-config'')]"

definition batch_routes :: "route list" where
  "batch_routes = [(''POST'', ''/api/batch'')]"

definition endpoint_timeout_routes :: "route list" where
  "endpoint_timeout_routes = [(''POST'', ''/api/admin/timeouts''), (''GET'', ''/api/admin/timeouts'')]"

definition quota_routes :: "route list" where
  "quota_routes = [(''POST'', ''/api/admin/quotas''), (''GET'', ''/api/admin/quotas/:nodeId'')]"

definition admin_metrics_routes :: "route list" where
  "admin_metrics_routes = [(''GET'', ''/api/admin/metrics'')]"

definition node_timeout_routes :: "route list" where
  "node_timeout_routes = [(''POST'', ''/api/admin/timeouts''), (''GET'', ''/api/admin/timeouts'')]"

definition validator_routes :: "route list" where
  "validator_routes = [(''POST'', ''/api/admin/validators''), (''GET'', ''/api/admin/validators''), (''DELETE'', ''/api/admin/validators'')]"

definition key_analytics_routes :: "route list" where
  "key_analytics_routes = [(''GET'', ''/api/admin/analytics/keys''), (''GET'', ''/api/admin/analytics/keys/:key'')]"

definition cost_routes :: "route list" where
  "cost_routes = [(''POST'', ''/api/admin/costs''), (''GET'', ''/api/admin/costs''), (''POST'', ''/api/admin/costs/estimate'')]"

definition retention_routes :: "route list" where
  "retention_routes = [(''POST'', ''/api/admin/audit/retention''), (''GET'', ''/api/admin/audit/retention''), (''POST'', ''/api/admin/audit/cleanup'')]"

definition replay_routes :: "route list" where
  "replay_routes = [(''POST'', ''/api/admin/replay''), (''GET'', ''/api/admin/replay''), (''POST'', ''/api/admin/replay/:id'')]"

definition size_limit_routes :: "route list" where
  "size_limit_routes = [(''POST'', ''/api/admin/limits''), (''GET'', ''/api/admin/limits'')]"

definition broadcast_routes :: "route list" where
  "broadcast_routes = [(''POST'', ''/api/admin/broadcast''), (''POST'', ''/api/admin/broadcast/:nodeId''), (''GET'', ''/api/admin/broadcast/history'')]"

definition health_history_routes :: "route list" where
  "health_history_routes = [(''GET'', ''/api/admin/health/:nodeId/history''), (''GET'', ''/api/admin/health/:nodeId/timeline'')]"

definition component_routes :: "route list list" where
  "component_routes = [schema_routes, admin_session_routes, analytics_routes, pool_config_routes, batch_routes,
     endpoint_timeout_routes, quota_routes, admin_metrics_routes, node_timeout_routes, validator_routes,
     key_analytics_routes, cost_routes, retention_routes, replay_routes, size_limit_routes, broadcast_routes,
     health_history_routes]"

definition program_routes :: "route list" where
  "program_routes = map (\<lambda>(m, p, _). (m, p)) (chains [] (program_calls \<lparr>ro_compression = True, ro_audit = True, ro_subnets = True\<rparr>))"

section \<open>What can be registered\<close>

lemma register_clash_free:
  "register_all known rs = Some known' \<Longrightarrow> known' = known @ rs \<and> (\<forall>r \<in> set rs. \<forall>q \<in> set known. \<not> routes_clash q r)"
  by (induction known rs rule: register_all.induct) (fastforce split: if_splits)+

lemma register_clash: "q \<in> set known \<Longrightarrow> r \<in> set rs \<Longrightarrow> routes_clash q r \<Longrightarrow> register_all known rs = None"
  using register_clash_free by (cases "register_all known rs") blast+

text \<open>Three of the seventeen tables cannot be added: that of the administrators' sessions, whose routes the program already
  has; that of the history of health, which calls the node's parameter differently; and the second of the two tables of
  timeouts, whichever that is. The others go together.\<close>

theorem tables_that_panic:
  "register_all program_routes admin_session_routes = None \<and> register_all program_routes health_history_routes = None \<and>
   register_all endpoint_timeout_routes node_timeout_routes = None \<and> register_all node_timeout_routes endpoint_timeout_routes = None \<and>
   register_all [] (concat (filter (\<lambda>t. t \<noteq> node_timeout_routes) component_routes) @ endpoint_timeout_routes) \<noteq> None"
proof -
  have m: "(''GET'', ''/api/admin/sessions'') \<in> set program_routes" "(''GET'', ''/api/admin/health/:nodeID'') \<in> set program_routes"
    by code_simp+
  have s: "register_all program_routes admin_session_routes = None"
    by (rule register_clash [OF m(1), of "(''GET'', ''/api/admin/sessions'')"]) code_simp+
  have h: "register_all program_routes health_history_routes = None"
    by (rule register_clash [OF m(2), of "(''GET'', ''/api/admin/health/:nodeId/history'')"]) code_simp+
  have t: "register_all endpoint_timeout_routes node_timeout_routes = None" "register_all node_timeout_routes endpoint_timeout_routes = None"
    by code_simp+
  have "register_all [] (concat (filter (\<lambda>t. t \<noteq> node_timeout_routes) component_routes) @ endpoint_timeout_routes) \<noteq> None"
    by code_simp
  with s h t show ?thesis by blast
qed

end
