(* ===== verification/Json.thy ===== *)
theory Json
  imports Go_Float
begin

text \<open>
  JSON values as \<open>encoding/json\<close> decodes them into \<open>interface{}\<close>: a number is a \<open>float64\<close>, an object a map from
  keys (here a list in which the first entry of a key counts). A type assertion is a function to an option.
\<close>

datatype json = JNull | JBool bool | JNum f64 | JStr string | JArr "json list" | JObj "(string \<times> json) list"

type_synonym json_map = "(string \<times> json) list"

text \<open>\<open>v, ok := m[key].(T)\<close>.\<close>

definition get_str :: "json_map \<Rightarrow> string \<Rightarrow> string option" where
  "get_str m k = (case map_of m k of Some (JStr s) \<Rightarrow> Some s | _ \<Rightarrow> None)"

definition get_num :: "json_map \<Rightarrow> string \<Rightarrow> f64 option" where
  "get_num m k = (case map_of m k of Some (JNum x) \<Rightarrow> Some x | _ \<Rightarrow> None)"

definition get_bool :: "json_map \<Rightarrow> string \<Rightarrow> bool option" where
  "get_bool m k = (case map_of m k of Some (JBool b) \<Rightarrow> Some b | _ \<Rightarrow> None)"

definition get_arr :: "json_map \<Rightarrow> string \<Rightarrow> json list option" where
  "get_arr m k = (case map_of m k of Some (JArr xs) \<Rightarrow> Some xs | _ \<Rightarrow> None)"

definition get_obj :: "json_map \<Rightarrow> string \<Rightarrow> json_map option" where
  "get_obj m k = (case map_of m k of Some (JObj xs) \<Rightarrow> Some xs | _ \<Rightarrow> None)"

text \<open>The texts of an array; other elements are skipped.\<close>

fun json_texts :: "json list \<Rightarrow> string list" where
  "json_texts [] = []"
| "json_texts (JStr s # xs) = s # json_texts xs"
| "json_texts (_ # xs) = json_texts xs"

text \<open>\<open>strings.Join\<close>.\<close>

fun join_sep :: "string \<Rightarrow> string list \<Rightarrow> string" where
  "join_sep sep [] = ''''"
| "join_sep sep [s] = s"
| "join_sep sep (s # t # ts) = s @ sep @ join_sep sep (t # ts)"

lemmas json_get_defs = get_str_def get_num_def get_bool_def get_arr_def get_obj_def

lemma json_texts_map [simp]: "json_texts (map JStr xs) = xs"
  by (induction xs) simp_all

end
