(* ===== verification/Gateway_Config.thy ===== *)
theory Gateway_Config
  imports Gateway Config Request_Id Batch Json Redis_Mem
begin

text \<open>
  The configuration of a running gateway (\<open>gateway/service.go\<close>): what the constructor takes from it, the
  application of a new one, the handler that changes it field by field and saves it, and the handlers of the theme.
  The server is the core of \<open>Gateway\<close> with its limiter, the names of requests, the request log and the three parts
  of the configuration it holds pointers to; nothing else of the program reads these parts through the
  configuration they belong to, so they are values here. The limiter, local or over Redis, and the compliance service
  are not nil. A step relation runs the requests that change the configuration against each other and against changes
  of the file, one step per stretch under the lock.
\<close>

section \<open>The server\<close>

record ('r, 's) server =
  sv_gw :: gateway
  sv_limiter :: 's
  sv_config :: gatewayConfig
  sv_redisConfig :: redisConfig
  sv_matchmakerConfig :: matchmakerConfig
  sv_requestID :: requestIDGenerator
  sv_requestLogger :: "'r requestLogger"

text \<open>The fields that \<open>ApplyConfig\<close> reads of a configuration.\<close>

definition live_of :: "config \<Rightarrow> liveConfig" where
  "live_of cfg = \<lparr>lc_RateLimitRequests = gc_RateLimitRequests (cf_Gateway cfg), lc_RateLimitWindowSeconds = gc_RateLimitWindowSeconds (cf_Gateway cfg),
     lc_CircuitBreakerThreshold = gc_CircuitBreakerThreshold (cf_Gateway cfg), lc_CooldownTTLMinutes = mc_CooldownTTLMinutes (cf_Matchmaker cfg),
     lc_BlockedDomains = co_BlockedDomains (cf_Compliance cfg), lc_KYCRequired = co_KYCRequired (cf_Compliance cfg)\<rparr>"

definition srv_ApplyConfig :: "'s rateLimiter \<Rightarrow> config \<Rightarrow> ('r, 's) server \<Rightarrow> ('r, 's) server" where
  "srv_ApplyConfig L cfg s = (case ApplyConfig L (live_of cfg) (sv_gw s, sv_limiter s) of (g, l) \<Rightarrow>
     s\<lparr>sv_config := cf_Gateway cfg, sv_redisConfig := cf_Redis cfg, sv_matchmakerConfig := cf_Matchmaker cfg, sv_gw := g, sv_limiter := l,
       sv_requestID := snd (rg_SetFormat (gc_RequestIDFormat (cf_Gateway cfg)) (rg_SetPrefix (gc_RequestIDPrefix (cf_Gateway cfg)) (sv_requestID s))),
       sv_requestLogger := SetEnabled (gc_RequestLoggingEnabled (cf_Gateway cfg)) (sv_requestLogger s)\<rparr>)"

definition srv_NewGateway :: "config \<Rightarrow> matchmaker \<Rightarrow> complianceService \<Rightarrow> 's \<Rightarrow> 'r redis option \<Rightarrow> ('r, 's) server" where
  "srv_NewGateway cfg mm cs l h = \<lparr>sv_gw = NewGateway (gc_CircuitBreakerThreshold (cf_Gateway cfg)) mm cs, sv_limiter = l,
     sv_config = cf_Gateway cfg, sv_redisConfig = cf_Redis cfg, sv_matchmakerConfig = cf_Matchmaker cfg,
     sv_requestID = NewRequestIDGenerator (gc_RequestIDPrefix (cf_Gateway cfg)) (gc_RequestIDFormat (cf_Gateway cfg)),
     sv_requestLogger = NewRequestLogger h (gc_RequestLoggingEnabled (cf_Gateway cfg))\<rparr>"

section \<open>The update of a configuration\<close>

text \<open>The values that are handed to \<open>config.Set\<close>.\<close>

datatype cfg_val = CText string | CNum int | CFlag bool | CTexts "string list"

text \<open>What the handler has while it works: the server, the package \<open>config\<close>, and the two lists of its answer.\<close>

type_synonym ('r, 's, 'v, 'w) ustate = "('r, 's) server \<times> ('v, 'w) config_state \<times> string list \<times> string list"

text \<open>The body of a branch: set the field, store it under its key, and append its name to one of the lists.\<close>

definition upd :: "('v, cfg_val) viper \<Rightarrow> string \<Rightarrow> bool \<Rightarrow> string \<Rightarrow> cfg_val \<Rightarrow> (('r, 's) server \<Rightarrow> ('r, 's) server) \<Rightarrow> ('r, 's, 'v, 'w) ustate \<Rightarrow> ('r, 's, 'v, 'w) ustate" where
  "upd V key live name v f = (\<lambda>(s, c, applied, restart).
     (f s, cfg_Set V key v c, if live then applied @ [name] else applied, if live then restart else restart @ [name]))"

definition when_some :: "'a option \<Rightarrow> ('a \<Rightarrow> 'u \<Rightarrow> 'u) \<Rightarrow> 'u \<Rightarrow> 'u" where
  "when_some x f u = (case x of Some v \<Rightarrow> f v u | None \<Rightarrow> u)"

definition set_gw :: "(gatewayConfig \<Rightarrow> gatewayConfig) \<Rightarrow> ('r, 's) server \<Rightarrow> ('r, 's) server" where
  "set_gw f s = s\<lparr>sv_config := f (sv_config s)\<rparr>"

definition set_redis :: "(redisConfig \<Rightarrow> redisConfig) \<Rightarrow> ('r, 's) server \<Rightarrow> ('r, 's) server" where
  "set_redis f s = s\<lparr>sv_redisConfig := f (sv_redisConfig s)\<rparr>"

definition set_mm :: "(matchmakerConfig \<Rightarrow> matchmakerConfig) \<Rightarrow> ('r, 's) server \<Rightarrow> ('r, 's) server" where
  "set_mm f s = s\<lparr>sv_matchmakerConfig := f (sv_matchmakerConfig s)\<rparr>"

definition set_compliance :: "(complianceService \<Rightarrow> complianceService) \<Rightarrow> ('r, 's) server \<Rightarrow> ('r, 's) server" where
  "set_compliance f s = s\<lparr>sv_gw := (sv_gw s)\<lparr>gw_compliance := f (gw_compliance (sv_gw s))\<rparr>\<rparr>"

definition set_threshold :: "int \<Rightarrow> ('r, 's) server \<Rightarrow> ('r, 's) server" where
  "set_threshold n s = set_gw (\<lambda>c. c\<lparr>gc_CircuitBreakerThreshold := n\<rparr>) (s\<lparr>sv_gw := (sv_gw s)\<lparr>gw_circuitBreakerThreshold := n\<rparr>\<rparr>)"

text \<open>The branches in their order; \<open>toi\<close> is the conversion of a float to an int.\<close>

definition gateway_updates :: "('v, cfg_val) viper \<Rightarrow> (f64 \<Rightarrow> int) \<Rightarrow> json_map \<Rightarrow> (('r, 's, 'v, 'w) ustate \<Rightarrow> ('r, 's, 'v, 'w) ustate) list" where
  "gateway_updates V toi gw =
    [when_some (get_str gw ''host'') (\<lambda>v. upd V ''gateway.host'' False ''host'' (CText v) (set_gw (\<lambda>c. c\<lparr>gc_Host := v\<rparr>))),
     when_some (get_num gw ''port'') (\<lambda>v. upd V ''gateway.port'' False ''port'' (CNum (toi v)) (set_gw (\<lambda>c. c\<lparr>gc_Port := toi v\<rparr>))),
     when_some (get_num gw ''circuit_breaker_threshold'') (\<lambda>v. upd V ''gateway.circuit_breaker_threshold'' True ''circuit_breaker_threshold'' (CNum (toi v)) (set_threshold (toi v))),
     when_some (get_num gw ''rate_limit_requests'') (\<lambda>v. upd V ''gateway.rate_limit_requests'' True ''rate_limit_requests'' (CNum (toi v)) (set_gw (\<lambda>c. c\<lparr>gc_RateLimitRequests := toi v\<rparr>))),
     when_some (get_num gw ''rate_limit_window_seconds'') (\<lambda>v. upd V ''gateway.rate_limit_window_seconds'' True ''rate_limit_window_seconds'' (CNum (toi v)) (set_gw (\<lambda>c. c\<lparr>gc_RateLimitWindowSeconds := toi v\<rparr>))),
     when_some (get_bool gw ''rate_limit_distributed'') (\<lambda>v. upd V ''gateway.rate_limit_distributed'' False ''rate_limit_distributed'' (CFlag v) (set_gw (\<lambda>c. c\<lparr>gc_RateLimitDistributed := v\<rparr>))),
     when_some (get_num gw ''cooldown_seconds'') (\<lambda>v. upd V ''gateway.cooldown_seconds'' True ''cooldown_seconds'' (CNum (toi v)) (set_gw (\<lambda>c. c\<lparr>gc_CooldownSeconds := toi v\<rparr>))),
     when_some (get_num gw ''request_timeout_seconds'') (\<lambda>v. upd V ''gateway.request_timeout_seconds'' False ''request_timeout_seconds'' (CNum (toi v)) (set_gw (\<lambda>c. c\<lparr>gc_RequestTimeoutSeconds := toi v\<rparr>))),
     when_some (get_num gw ''idle_timeout_seconds'') (\<lambda>v. upd V ''gateway.idle_timeout_seconds'' False ''idle_timeout_seconds'' (CNum (toi v)) (set_gw (\<lambda>c. c\<lparr>gc_IdleTimeoutSeconds := toi v\<rparr>))),
     when_some (get_num gw ''read_header_timeout_seconds'') (\<lambda>v. upd V ''gateway.read_header_timeout_seconds'' False ''read_header_timeout_seconds'' (CNum (toi v)) (set_gw (\<lambda>c. c\<lparr>gc_ReadHeaderTimeoutSeconds := toi v\<rparr>))),
     when_some (get_str gw ''request_id_prefix'') (\<lambda>v. upd V ''gateway.request_id_prefix'' True ''request_id_prefix'' (CText v) (set_gw (\<lambda>c. c\<lparr>gc_RequestIDPrefix := v\<rparr>))),
     when_some (get_str gw ''request_id_format'') (\<lambda>v. upd V ''gateway.request_id_format'' True ''request_id_format'' (CText v) (set_gw (\<lambda>c. c\<lparr>gc_RequestIDFormat := v\<rparr>))),
     when_some (get_bool gw ''tracing_enabled'') (\<lambda>v. upd V ''gateway.tracing_enabled'' False ''tracing_enabled'' (CFlag v) (set_gw (\<lambda>c. c\<lparr>gc_TracingEnabled := v\<rparr>))),
     when_some (get_obj gw ''compression'') (\<lambda>co. when_some (get_bool co ''enabled'') (\<lambda>v. upd V ''gateway.compression.enabled'' True ''compression.enabled'' (CFlag v) (set_gw (\<lambda>c. c\<lparr>gc_Compression := (gc_Compression c)\<lparr>cc_Enabled := v\<rparr>\<rparr>)))),
     when_some (get_obj gw ''compression'') (\<lambda>co. when_some (get_num co ''level'') (\<lambda>v. upd V ''gateway.compression.level'' True ''compression.level'' (CNum (toi v)) (set_gw (\<lambda>c. c\<lparr>gc_Compression := (gc_Compression c)\<lparr>cc_Level := toi v\<rparr>\<rparr>)))),
     when_some (get_bool gw ''request_logging_enabled'') (\<lambda>v. upd V ''gateway.request_logging_enabled'' True ''request_logging_enabled'' (CFlag v) (set_gw (\<lambda>c. c\<lparr>gc_RequestLoggingEnabled := v\<rparr>))),
     when_some (get_bool gw ''mtls_enabled'') (\<lambda>v. upd V ''gateway.mtls_enabled'' False ''mtls_enabled'' (CFlag v) (set_gw (\<lambda>c. c\<lparr>gc_MTLSEnabled := v\<rparr>))),
     when_some (get_str gw ''ca_cert_path'') (\<lambda>v. upd V ''gateway.ca_cert_path'' False ''ca_cert_path'' (CText v) (set_gw (\<lambda>c. c\<lparr>gc_CACertPath := v\<rparr>))),
     when_some (get_str gw ''server_cert_path'') (\<lambda>v. upd V ''gateway.server_cert_path'' False ''server_cert_path'' (CText v) (set_gw (\<lambda>c. c\<lparr>gc_ServerCertPath := v\<rparr>))),
     when_some (get_str gw ''server_key_path'') (\<lambda>v. upd V ''gateway.server_key_path'' False ''server_key_path'' (CText v) (set_gw (\<lambda>c. c\<lparr>gc_ServerKeyPath := v\<rparr>)))]"

definition redis_updates :: "('v, cfg_val) viper \<Rightarrow> (f64 \<Rightarrow> int) \<Rightarrow> json_map \<Rightarrow> (('r, 's, 'v, 'w) ustate \<Rightarrow> ('r, 's, 'v, 'w) ustate) list" where
  "redis_updates V toi r =
    [when_some (get_str r ''host'') (\<lambda>v. upd V ''redis.host'' False ''redis.host'' (CText v) (set_redis (\<lambda>c. c\<lparr>rc_Host := v\<rparr>))),
     when_some (get_num r ''port'') (\<lambda>v. upd V ''redis.port'' False ''redis.port'' (CNum (toi v)) (set_redis (\<lambda>c. c\<lparr>rc_Port := toi v\<rparr>))),
     when_some (get_str r ''password'') (\<lambda>v. upd V ''redis.password'' False ''redis.password'' (CText v) (set_redis (\<lambda>c. c\<lparr>rc_Password := v\<rparr>))),
     when_some (get_num r ''db'') (\<lambda>v. upd V ''redis.db'' False ''redis.db'' (CNum (toi v)) (set_redis (\<lambda>c. c\<lparr>rc_DB := toi v\<rparr>))),
     when_some (get_num r ''pool_size'') (\<lambda>v. upd V ''redis.pool_size'' False ''redis.pool_size'' (CNum (toi v)) (set_redis (\<lambda>c. c\<lparr>rc_PoolSize := toi v\<rparr>))),
     when_some (get_num r ''max_retries'') (\<lambda>v. upd V ''redis.max_retries'' True ''redis.max_retries'' (CNum (toi v)) (set_redis (\<lambda>c. c\<lparr>rc_MaxRetries := toi v\<rparr>))),
     when_some (get_bool r ''cluster_enabled'') (\<lambda>v. upd V ''redis.cluster_enabled'' False ''redis.cluster_enabled'' (CFlag v) (set_redis (\<lambda>c. c\<lparr>rc_ClusterEnabled := v\<rparr>))),
     when_some (get_arr r ''cluster_addrs'') (\<lambda>v. upd V ''redis.cluster_addrs'' False ''redis.cluster_addrs'' (CTexts (json_texts v)) (set_redis (\<lambda>c. c\<lparr>rc_ClusterAddrs := json_texts v\<rparr>)))]"

definition matchmaker_updates :: "('v, cfg_val) viper \<Rightarrow> (f64 \<Rightarrow> int) \<Rightarrow> json_map \<Rightarrow> (('r, 's, 'v, 'w) ustate \<Rightarrow> ('r, 's, 'v, 'w) ustate) list" where
  "matchmaker_updates V toi mm =
    [when_some (get_str mm ''host'') (\<lambda>v. upd V ''matchmaker.host'' False ''matchmaker.host'' (CText v) (set_mm (\<lambda>c. c\<lparr>mc_Host := v\<rparr>))),
     when_some (get_num mm ''port'') (\<lambda>v. upd V ''matchmaker.port'' False ''matchmaker.port'' (CNum (toi v)) (set_mm (\<lambda>c. c\<lparr>mc_Port := toi v\<rparr>))),
     when_some (get_num mm ''pool_size'') (\<lambda>v. upd V ''matchmaker.pool_size'' False ''matchmaker.pool_size'' (CNum (toi v)) (set_mm (\<lambda>c. c\<lparr>mc_PoolSize := toi v\<rparr>))),
     when_some (get_num mm ''cooldown_ttl_minutes'') (\<lambda>v. upd V ''matchmaker.cooldown_ttl_minutes'' True ''matchmaker.cooldown_ttl_minutes'' (CNum (toi v)) (set_mm (\<lambda>c. c\<lparr>mc_CooldownTTLMinutes := toi v\<rparr>)))]"

definition compliance_updates :: "('v, cfg_val) viper \<Rightarrow> json_map \<Rightarrow> (('r, 's, 'v, 'w) ustate \<Rightarrow> ('r, 's, 'v, 'w) ustate) list" where
  "compliance_updates V cf =
    [when_some (get_bool cf ''kyc_required'') (\<lambda>v. upd V ''compliance.kyc_required'' True ''compliance.kyc_required'' (CFlag v) (set_compliance (\<lambda>c. c\<lparr>cs_KYCRequired := v\<rparr>))),
     when_some (get_arr cf ''blocked_domains'') (\<lambda>v. upd V ''compliance.blocked_domains'' True ''compliance.blocked_domains'' (CTexts (json_texts v)) (set_compliance (\<lambda>c. c\<lparr>cs_BlockedDomains := json_texts v\<rparr>)))]"

definition config_updates :: "('v, cfg_val) viper \<Rightarrow> (f64 \<Rightarrow> int) \<Rightarrow> json_map \<Rightarrow> (('r, 's, 'v, 'w) ustate \<Rightarrow> ('r, 's, 'v, 'w) ustate) list" where
  "config_updates V toi updates =
     (case get_obj updates ''gateway'' of Some gw \<Rightarrow> gateway_updates V toi gw | None \<Rightarrow> []) @
     (case get_obj updates ''redis'' of Some r \<Rightarrow> redis_updates V toi r | None \<Rightarrow> []) @
     (case get_obj updates ''matchmaker'' of Some mm \<Rightarrow> matchmaker_updates V toi mm | None \<Rightarrow> []) @
     (case get_obj updates ''compliance'' of Some cf \<Rightarrow> compliance_updates V cf | None \<Rightarrow> [])"

text \<open>
  The handler holds the lock twice and releases it in between: the first part writes the fields and saves the file, whatever
  the result; the second takes a copy of the parts, if anything applies live, which \<open>ApplyConfig\<close> then installs.
\<close>

definition update_write :: "('v, cfg_val) viper \<Rightarrow> (f64 \<Rightarrow> int) \<Rightarrow> json_map \<Rightarrow> ('r, 's) server \<times> ('v, 'w) config_state
    \<Rightarrow> ('r, 's, 'v, 'w) ustate" where
  "update_write V toi updates = (\<lambda>(s, c). case fold (\<lambda>f. f) (config_updates V toi updates) (s, c, [], []) of
     (s1, c1, applied, restart) \<Rightarrow> (s1, if applied \<noteq> [] \<or> restart \<noteq> [] then snd (cfg_Save V c1) else c1, applied, restart))"

text \<open>The parts of the copy that \<open>ApplyConfig\<close> does not read are zero.\<close>

definition zero_config :: config where
  "zero_config = \<lparr>cf_Gateway = \<lparr>gc_Host = '''', gc_Port = 0, gc_MTLSEnabled = False, gc_CACertPath = '''', gc_ServerCertPath = '''',
       gc_ServerKeyPath = '''', gc_CircuitBreakerThreshold = 0, gc_RateLimitRequests = 0, gc_RateLimitWindowSeconds = 0, gc_RateLimitDistributed = False,
       gc_TracingEnabled = False, gc_CooldownSeconds = 0, gc_RequestTimeoutSeconds = 0, gc_IdleTimeoutSeconds = 0, gc_ReadHeaderTimeoutSeconds = 0,
       gc_RequestIDPrefix = '''', gc_RequestIDFormat = '''', gc_Compression = \<lparr>cc_Enabled = False, cc_Level = 0\<rparr>, gc_RequestLoggingEnabled = False\<rparr>,
     cf_Matchmaker = \<lparr>mc_Host = '''', mc_Port = 0, mc_PoolSize = 0, mc_CooldownTTLMinutes = 0\<rparr>,
     cf_Redis = \<lparr>rc_Host = '''', rc_Port = 0, rc_Password = '''', rc_DB = 0, rc_ClusterEnabled = False, rc_ClusterAddrs = [], rc_SentinelEnabled = False,
       rc_SentinelAddrs = [], rc_SentinelMaster = '''', rc_PoolSize = 0, rc_MaxRetries = 0\<rparr>,
     cf_Compliance = \<lparr>co_BlockedDomains = [], co_KYCRequired = False\<rparr>,
     cf_Peer = \<lparr>pl_MinBatteryPercent = 0, pl_MaxCPUPercent = 0, pl_RequireUnmeteredWiFi = False\<rparr>,
     cf_Subnet = \<lparr>sc_Enabled = False, sc_Prefix = '''', sc_PrefixLen = 0\<rparr>, cf_Tiers = [],
     cf_Federation = \<lparr>fc_Enabled = False, fc_Regions = [], fc_HeartbeatInterval = 0, fc_SyncInterval = 0\<rparr>,
     cf_JWT = \<lparr>jc_Enabled = False, jc_SecretKey = '''', jc_Expiration = 0\<rparr>,
     cf_RBAC = \<lparr>bc_Enabled = False, bc_DefaultRole = '''', bc_MinPasswordLen = 0, bc_MaxLoginAttempts = 0, bc_LockoutDuration = 0\<rparr>,
     cf_Prometheus = \<lparr>pm_Enabled = False, pm_PushGatewayURL = '''', pm_PushIntervalSeconds = 0, pm_JobName = ''''\<rparr>\<rparr>"

definition update_snapshot :: "('r, 's) server \<Rightarrow> config" where
  "update_snapshot s = zero_config\<lparr>cf_Gateway := sv_config s, cf_Redis := sv_redisConfig s, cf_Matchmaker := sv_matchmakerConfig s,
     cf_Compliance := \<lparr>co_BlockedDomains = cs_BlockedDomains (gw_compliance (sv_gw s)), co_KYCRequired = cs_KYCRequired (gw_compliance (sv_gw s))\<rparr>\<rparr>"

definition update_message :: "string list \<Rightarrow> string list \<Rightarrow> string" where
  "update_message applied restart = ''Config updated.'' @
     (if restart \<noteq> [] then '' '' @ show_int (int (length restart)) @ '' change(s) require restart: '' @ join_sep '', '' restart @ ''.'' else '''') @
     (if applied \<noteq> [] then '' '' @ show_int (int (length applied)) @ '' change(s) applied live.'' else '''')"

text \<open>Without another request in between.\<close>

definition updateConfigHandler :: "'s rateLimiter \<Rightarrow> ('v, cfg_val) viper \<Rightarrow> (f64 \<Rightarrow> int) \<Rightarrow> string + json_map \<Rightarrow> ('r, 's) server \<times> ('v, 'w) config_state
    \<Rightarrow> (string \<times> string list \<times> string list) resp \<times> ('r, 's) server \<times> ('v, 'w) config_state" where
  "updateConfigHandler L V toi body x = (case body of
       Inl e \<Rightarrow> (bad_request e, x)
     | Inr updates \<Rightarrow> (case update_write V toi updates x of (s1, c1, applied, restart) \<Rightarrow>
         let s2 = (if applied \<noteq> [] then srv_ApplyConfig L (update_snapshot s1) s1 else s1)
         in ((200, Inr (update_message applied restart, applied, restart)), s2, c1)))"

definition gw_getConfigHandler :: "('r, 's) server \<Rightarrow> gatewayConfig resp" where
  "gw_getConfigHandler s = (200, Inr (sv_config s))"

section \<open>The theme\<close>

definition getThemeHandler :: "'r redis option \<Rightarrow> 'r \<Rightarrow> string resp \<times> 'r" where
  "getThemeHandler h st = (case h of None \<Rightarrow> ((200, Inr ''dark''), st)
     | Some R \<Rightarrow> (case cGet R ''user:theme:dashboard'' st of
         (Inl _, st1) \<Rightarrow> ((200, Inr ''dark''), st1)
       | (Inr v, st1) \<Rightarrow> ((200, Inr (if v = ''dark'' \<or> v = ''light'' then v else ''dark'')), st1)))"

definition setThemeHandler :: "'r redis option \<Rightarrow> string + string \<Rightarrow> 'r \<Rightarrow> string resp \<times> 'r" where
  "setThemeHandler h body st = (case body of
       Inl e \<Rightarrow> (bad_request e, st)
     | Inr t \<Rightarrow> if t \<noteq> ''dark'' \<and> t \<noteq> ''light'' then (bad_request ''Invalid theme'', st)
         else ((200, Inr t), (case h of None \<Rightarrow> st | Some R \<Rightarrow> snd (cSet R ''user:theme:dashboard'' t 0 st))))"

lemma theme_always_valid: "\<exists>t st'. getThemeHandler h st = ((200, Inr t), st') \<and> (t = ''dark'' \<or> t = ''light'')"
  by (auto simp: getThemeHandler_def split: option.splits prod.splits sum.splits)

section \<open>The configuration and what runs under it\<close>

text \<open>The limiter \<open>main\<close> chooses, over Redis or local, seen as one.\<close>

definition main_limiter :: "config \<Rightarrow> 'r \<Rightarrow> 'r distLimiter + localLimiter" where
  "main_limiter cfg st = (let c = cf_Gateway cfg in
     if gc_RateLimitDistributed c then Inl (NewDistributedRateLimiter st (gc_RateLimitRequests c) (gc_RateLimitWindowSeconds c))
     else Inr (NewLocalRateLimiter (gc_RateLimitRequests c) (gc_RateLimitWindowSeconds c)))"

definition any_limiter :: "'r redis \<Rightarrow> ('r distLimiter + localLimiter) rateLimiter" where
  "any_limiter R = \<lparr>
     rl_Allow = (\<lambda>now c (l, m). case l of
         Inl d \<Rightarrow> (case dist_Allow R now c (d, m) of (res, d', m') \<Rightarrow> (res, Inl d', m'))
       | Inr d \<Rightarrow> (case local_Allow now c (d, m) of (res, d', m') \<Rightarrow> (res, Inr d', m'))),
     rl_SetLimit = (\<lambda>n l. case l of Inl d \<Rightarrow> Inl (dist_SetLimit n d) | Inr d \<Rightarrow> Inr (local_SetLimit n d)),
     rl_GetLimit = case_sum dist_GetLimit local_GetLimit,
     rl_SetWindow = (\<lambda>w l. case l of Inl d \<Rightarrow> Inl (dist_SetWindow w d) | Inr d \<Rightarrow> Inr (local_SetWindow w d))\<rparr>"

definition lim_window :: "'r distLimiter + localLimiter \<Rightarrow> duration" where
  "lim_window l = case_sum dl_window ll_window l"

interpretation any_rl: rate_limiter "any_limiter R" for R
  by unfold_locales (auto simp: any_limiter_def dist_defs local_defs dist_SetWindow_def Let_def
      split: sum.splits prod.splits option.splits)

text \<open>The parts of a server that a configuration determines.\<close>

definition live_ok :: "('r, 'r distLimiter + localLimiter) server \<Rightarrow> bool" where
  "live_ok s \<longleftrightarrow> gw_circuitBreakerThreshold (sv_gw s) = gc_CircuitBreakerThreshold (sv_config s) \<and>
     case_sum dl_limit ll_limit (sv_limiter s) = gc_RateLimitRequests (sv_config s) \<and>
     lim_window (sv_limiter s) = i64 (gc_RateLimitWindowSeconds (sv_config s) * go_second) \<and>
     ri_prefix (rg_config (sv_requestID s)) = normalizeRequestIDPrefix (gc_RequestIDPrefix (sv_config s)) \<and>
     (normalizeRequestIDFormat (gc_RequestIDFormat (sv_config s)) = '''' \<or>
        ri_format (rg_config (sv_requestID s)) = normalizeRequestIDFormat (gc_RequestIDFormat (sv_config s))) \<and>
     lg_enabled (sv_requestLogger s) = gc_RequestLoggingEnabled (sv_config s) \<and>
     (mm_cooldownTTL (gw_mm (sv_gw s)) = i64 (mc_CooldownTTLMinutes (sv_matchmakerConfig s) * go_minute) \<or>
        mc_CooldownTTLMinutes (sv_matchmakerConfig s) \<le> 0 \<and> mm_cooldownTTL (gw_mm (sv_gw s)) = 15 * go_minute)"

definition same_live :: "('r, 's) server \<Rightarrow> ('r, 's) server \<Rightarrow> bool" where
  "same_live s t \<longleftrightarrow> sv_gw t = sv_gw s \<and> sv_limiter t = sv_limiter s \<and> sv_requestID t = sv_requestID s \<and>
     sv_requestLogger t = sv_requestLogger s \<and>
     gc_CircuitBreakerThreshold (sv_config t) = gc_CircuitBreakerThreshold (sv_config s) \<and>
     gc_RateLimitRequests (sv_config t) = gc_RateLimitRequests (sv_config s) \<and>
     gc_RateLimitWindowSeconds (sv_config t) = gc_RateLimitWindowSeconds (sv_config s) \<and>
     gc_RequestIDPrefix (sv_config t) = gc_RequestIDPrefix (sv_config s) \<and>
     gc_RequestIDFormat (sv_config t) = gc_RequestIDFormat (sv_config s) \<and>
     gc_RequestLoggingEnabled (sv_config t) = gc_RequestLoggingEnabled (sv_config s) \<and>
     mc_CooldownTTLMinutes (sv_matchmakerConfig t) = mc_CooldownTTLMinutes (sv_matchmakerConfig s)"

lemma same_live_trans: "same_live s t \<Longrightarrow> same_live t u \<Longrightarrow> same_live s u"
  by (simp add: same_live_def)

lemma live_ok_same: "same_live s t \<Longrightarrow> live_ok s \<Longrightarrow> live_ok t"
  by (auto simp: same_live_def live_ok_def)

lemma ApplyConfig_live_ok: "live_ok (srv_ApplyConfig (any_limiter R) cfg s)"
  by (simp add: live_ok_def srv_ApplyConfig_def ApplyConfig_def live_of_def local_defs dist_defs dist_SetWindow_def any_limiter_def
      lim_window_def SetCooldownTTL_def rg_SetFormat_def rg_SetPrefix_def ric_SetFormat_def ric_SetPrefix_def Let_def SetEnabled_def
      split: prod.splits sum.splits)

lemma ApplyConfig_same_kind: "isl (sv_limiter (srv_ApplyConfig (any_limiter R) cfg s)) = isl (sv_limiter s)"
  by (cases "sv_limiter s") (simp_all add: srv_ApplyConfig_def ApplyConfig_def any_limiter_def split: prod.splits)

text \<open>
  What one branch may do: it adds to the list of live changes, or it changes nothing that runs. In both cases the
  subscribers stay.
\<close>

definition branch_ok :: "(('r, 's, 'v, 'w) ustate \<Rightarrow> ('r, 's, 'v, 'w) ustate) \<Rightarrow> bool" where
  "branch_ok f \<longleftrightarrow> (\<forall>s c a r. \<exists>s' c' b r'. f (s, c, a, r) = (s', c', a @ b, r') \<and> (b \<noteq> [] \<or> same_live s s') \<and>
     sv_limiter s' = sv_limiter s \<and> cg_subscribers c' = cg_subscribers c)"

lemma branch_when [intro!]: "(\<And>v. branch_ok (f v)) \<Longrightarrow> branch_ok (when_some x f)"
  by (cases x) (auto simp: branch_ok_def when_some_def same_live_def)

lemma branch_upd_live: "(\<And>s. sv_limiter (f s) = sv_limiter s) \<Longrightarrow> branch_ok (upd V key True name v f)"
  by (simp add: branch_ok_def upd_def cfg_Set_def)

lemma branch_upd_restart: "(\<And>s. same_live s (f s)) \<Longrightarrow> branch_ok (upd V key False name v f)"
  by (auto simp: branch_ok_def upd_def cfg_Set_def same_live_def)

lemmas set_defs = set_gw_def set_redis_def set_mm_def set_compliance_def set_threshold_def same_live_def

lemma gateway_branches: "\<forall>f \<in> set (gateway_updates V toi gw). branch_ok f"
  unfolding gateway_updates_def list.set ball_simps by (intro conjI branch_when branch_upd_live branch_upd_restart TrueI) (simp_all add: set_defs)

lemma redis_branches: "\<forall>f \<in> set (redis_updates V toi r). branch_ok f"
  unfolding redis_updates_def list.set ball_simps by (intro conjI branch_when branch_upd_live branch_upd_restart TrueI) (simp_all add: set_defs)

lemma matchmaker_branches: "\<forall>f \<in> set (matchmaker_updates V toi mm). branch_ok f"
  unfolding matchmaker_updates_def list.set ball_simps by (intro conjI branch_when branch_upd_live branch_upd_restart TrueI) (simp_all add: set_defs)

lemma compliance_branches: "\<forall>f \<in> set (compliance_updates V cf). branch_ok f"
  unfolding compliance_updates_def list.set ball_simps by (intro conjI branch_when branch_upd_live TrueI) (simp_all add: set_defs)

lemma config_branches: "\<forall>f \<in> set (config_updates V toi m). branch_ok f"
  using gateway_branches redis_branches matchmaker_branches compliance_branches
  by (fastforce simp: config_updates_def split: option.splits)

lemma branches_fold:
  assumes "\<forall>f \<in> set fs. branch_ok f"
  shows "\<exists>s' c' b r'. fold (\<lambda>f. f) fs (s, c, a, r) = (s', c', a @ b, r') \<and> (b \<noteq> [] \<or> same_live s s') \<and>
    sv_limiter s' = sv_limiter s \<and> cg_subscribers c' = cg_subscribers c"
  using assms
proof (induction fs arbitrary: s c a r)
  case Nil
  then show ?case by (simp add: same_live_def)
next
  case (Cons f fs)
  obtain s1 c1 b1 r1 where f: "f (s, c, a, r) = (s1, c1, a @ b1, r1)" "b1 \<noteq> [] \<or> same_live s s1" "sv_limiter s1 = sv_limiter s"
      "cg_subscribers c1 = cg_subscribers c"
    using Cons.prems unfolding branch_ok_def by (metis list.set_intros(1))
  obtain s2 c2 b2 r2 where "fold (\<lambda>f. f) fs (s1, c1, a @ b1, r1) = (s2, c2, (a @ b1) @ b2, r2)" "b2 \<noteq> [] \<or> same_live s1 s2"
      "sv_limiter s2 = sv_limiter s1" "cg_subscribers c2 = cg_subscribers c1"
    using Cons.IH [of s1 c1 "a @ b1" r1] Cons.prems by auto
  with f show ?case by (auto intro: same_live_trans)
qed

lemma update_write_live:
  assumes "update_write V toi m (s, c) = (s', c', applied, restart)"
  shows "(applied \<noteq> [] \<or> same_live s s') \<and> sv_limiter s' = sv_limiter s \<and> cg_subscribers c' = cg_subscribers c"
proof -
  obtain s1 c1 b r where f: "fold (\<lambda>f. f) (config_updates V toi m) (s, c, [], []) = (s1, c1, b, r)"
      "b \<noteq> [] \<or> same_live s s1" "sv_limiter s1 = sv_limiter s" "cg_subscribers c1 = cg_subscribers c"
    using branches_fold [OF config_branches, of V toi m s c "[]" "[]"] by auto
  moreover have "cg_subscribers (snd (cfg_Save V c1)) = cg_subscribers c1" by (simp add: cfg_Save_def split: prod.splits option.splits)
  ultimately show ?thesis using assms by (auto simp: update_write_def split: if_splits)
qed

section \<open>Requests against each other\<close>

text \<open>
  Where a request that changes the configuration is after its first stretch under the lock: it has written the fields, or
  it holds the copy it will install. It carries the two lists of its answer.
\<close>

datatype update_pc = UWrote "string list" "string list" | UHolds config "string list" "string list"

record ('r, 's, 'v) cfg_sys =
  cy_server :: "('r, 's) server"
  cy_config :: "('v, ('r, 's) server) config_state"
  cy_updates :: "update_pc list"
  cy_answers :: "(string \<times> string list \<times> string list) list"

definition cy_start :: "('r, 's) server \<Rightarrow> ('v, ('r, 's) server) config_state \<Rightarrow> ('r, 's, 'v) cfg_sys" where
  "cy_start s c = \<lparr>cy_server = s, cy_config = c, cy_updates = [], cy_answers = []\<rparr>"

text \<open>
  The steps: a request writes and saves under the lock, takes the copy under the lock if anything applies live, and
  installs it under the lock; a change of the file, of which the handler that \<open>main\<close> registers tells the server.
\<close>

inductive cfg_step :: "'s rateLimiter \<Rightarrow> ('v, cfg_val) viper \<Rightarrow> (f64 \<Rightarrow> int) \<Rightarrow> ('r, 's, 'v) cfg_sys \<Rightarrow> ('r, 's, 'v) cfg_sys \<Rightarrow> bool"
  for L V toi where
  cfg_writes: "update_write V toi m (cy_server y, cy_config y) = (s1, c1, applied, restart) \<Longrightarrow> applied \<noteq> [] \<Longrightarrow>
     cfg_step L V toi y (y\<lparr>cy_server := s1, cy_config := c1, cy_updates := UWrote applied restart # cy_updates y\<rparr>)"
| cfg_restarts: "update_write V toi m (cy_server y, cy_config y) = (s1, c1, [], restart) \<Longrightarrow>
     cfg_step L V toi y (y\<lparr>cy_server := s1, cy_config := c1, cy_answers := cy_answers y @ [(update_message [] restart, [], restart)]\<rparr>)"
| cfg_copies: "UWrote a r \<in> set (cy_updates y) \<Longrightarrow>
     cfg_step L V toi y (y\<lparr>cy_updates := UHolds (update_snapshot (cy_server y)) a r # remove1 (UWrote a r) (cy_updates y)\<rparr>)"
| cfg_installs: "UHolds cfg a r \<in> set (cy_updates y) \<Longrightarrow>
     cfg_step L V toi y (y\<lparr>cy_server := srv_ApplyConfig L cfg (cy_server y), cy_updates := remove1 (UHolds cfg a r) (cy_updates y),
       cy_answers := cy_answers y @ [(update_message a r, a, r)]\<rparr>)"
| cfg_file: "config_changed V v (cy_config y, cy_server y) = (c', s') \<Longrightarrow>
     cfg_step L V toi y (y\<lparr>cy_server := s', cy_config := c'\<rparr>)"

definition cfg_run :: "'s rateLimiter \<Rightarrow> ('v, cfg_val) viper \<Rightarrow> (f64 \<Rightarrow> int) \<Rightarrow> ('r, 's, 'v) cfg_sys \<Rightarrow> ('r, 's, 'v) cfg_sys \<Rightarrow> bool" where
  "cfg_run L V toi = (cfg_step L V toi)\<^sup>*\<^sup>*"

lemma cfg_run_refl [simp]: "cfg_run L V toi y y"
  by (simp add: cfg_run_def)

lemma cfg_run_step: "cfg_run L V toi x y \<Longrightarrow> cfg_step L V toi y z \<Longrightarrow> cfg_run L V toi x z"
  by (simp add: cfg_run_def)

text \<open>A request that nobody disturbs does what the handler does as a whole.\<close>

lemma update_undisturbed:
  assumes "updateConfigHandler L V toi (Inr m) (s, c) = ((st, Inr ans), s', c')"
  shows "cfg_run L V toi (cy_start s c) (cy_start s' c'\<lparr>cy_answers := [ans]\<rparr>)"
proof -
  obtain s1 c1 a r where u: "update_write V toi m (s, c) = (s1, c1, a, r)" by (metis prod_cases4)
  show ?thesis
  proof (cases "a = []")
    case True
    with u assms cfg_restarts [of V toi m "cy_start s c" s1 c1 r L] show ?thesis
      by (auto simp: updateConfigHandler_def Let_def cy_start_def cfg_run_def)
  next
    case False
    let ?y1 = "cy_start s1 c1\<lparr>cy_updates := [UWrote a r]\<rparr>" and ?y2 = "cy_start s1 c1\<lparr>cy_updates := [UHolds (update_snapshot s1) a r]\<rparr>"
    have "cfg_step L V toi (cy_start s c) ?y1" using cfg_writes [of V toi m "cy_start s c" s1 c1 a r L] u False by (simp add: cy_start_def)
    moreover have "cfg_step L V toi ?y1 ?y2" using cfg_copies [of a r ?y1 L V toi] by (simp add: cy_start_def)
    moreover have "cfg_step L V toi ?y2 (cy_start s' c'\<lparr>cy_answers := [ans]\<rparr>)"
      using cfg_installs [of "update_snapshot s1" a r ?y2 L V toi] assms u False
      by (auto simp: cy_start_def updateConfigHandler_def Let_def)
    ultimately show ?thesis unfolding cfg_run_def by (meson converse_rtranclp_into_rtranclp rtranclp.rtrancl_refl)
  qed
qed

definition main_server :: "config \<Rightarrow> 'r redis \<Rightarrow> 'r \<Rightarrow> ('r, 'r distLimiter + localLimiter) server" where
  "main_server cfg R st = srv_NewGateway cfg (NewMatchmaker (gc_CircuitBreakerThreshold (cf_Gateway cfg)) (mc_CooldownTTLMinutes (cf_Matchmaker cfg)))
     (NewComplianceService (co_BlockedDomains (cf_Compliance cfg)) (co_KYCRequired (cf_Compliance cfg)))
     (main_limiter cfg st) (Some R)"

lemma main_server_live_ok: "live_ok (main_server cfg R st)"
  by (simp add: live_ok_def main_server_def srv_NewGateway_def NewGateway_def NewMatchmaker_def NewLocalRateLimiter_def NewRequestIDGenerator_def
      main_limiter_def NewDistributedRateLimiter_def lim_window_def
      NewRequestIDConfig_def ric_SetFormat_def ric_SetPrefix_def NewRequestLogger_def Let_def)

definition cy_ok :: "'r redis \<Rightarrow> bool \<Rightarrow> ('r, 'r distLimiter + localLimiter, 'v) cfg_sys \<Rightarrow> bool" where
  "cy_ok R k y \<longleftrightarrow> (cy_updates y = [] \<longrightarrow> live_ok (cy_server y)) \<and> isl (sv_limiter (cy_server y)) = k \<and>
     cg_subscribers (cy_config y) = [srv_ApplyConfig (any_limiter R)]"

lemma cfg_step_ok:
  assumes "cfg_step (any_limiter R) V toi y z" and "cy_ok R k y"
  shows "cy_ok R k z"
  using assms(1)
proof cases
  case (cfg_writes m s1 c1 applied restart)
  then show ?thesis using assms(2) update_write_live [OF cfg_writes(2)] by (simp add: cy_ok_def)
next
  case (cfg_restarts m s1 c1 restart)
  then show ?thesis using assms(2) update_write_live [OF cfg_restarts(2)] by (auto simp: cy_ok_def same_live_def intro: live_ok_same)
next
  case (cfg_copies a r)
  then show ?thesis using assms(2) by (simp add: cy_ok_def)
next
  case (cfg_installs cfg a r)
  then show ?thesis using assms(2) by (simp add: cy_ok_def ApplyConfig_live_ok ApplyConfig_same_kind)
next
  case (cfg_file v c' s')
  then show ?thesis using assms(2)
    by (auto simp: cy_ok_def config_changed_def ApplyConfig_live_ok ApplyConfig_same_kind split: prod.splits option.splits)
qed


text \<open>A library whose state is the configuration of the file.\<close>

definition file_viper :: "(config, cfg_val) viper" where
  "file_viper = \<lparr>vp_read = (\<lambda>p v. (None, v)), vp_unmarshal = (\<lambda>v. (None, v)), vp_set = (\<lambda>_ _ v. v), vp_write = (\<lambda>v. (None, v))\<rparr>"

definition live_state :: "'s rateLimiter \<Rightarrow> (config, ('r, 's) server) config_state" where
  "live_state L = \<lparr>cg_cfg = Some demo_config0, cg_path = [], cg_once = True, cg_subscribers = [srv_ApplyConfig L], cg_viper = demo_config0\<rparr>"

definition gw_body :: "string \<Rightarrow> json \<Rightarrow> json_map" where
  "gw_body k v = [(''gateway'', JObj [(k, v)])]"

lemma gw_body_write:
  "update_write V toi (gw_body k v) (s, c) = (case fold (\<lambda>f. f) (gateway_updates V toi [(k, v)]) (s, c, [], []) of
     (s1, c1, applied, restart) \<Rightarrow> (s1, if applied \<noteq> [] \<or> restart \<noteq> [] then snd (cfg_Save V c1) else c1, applied, restart))"
  by (simp add: update_write_def gw_body_def config_updates_def get_obj_def)

lemma threshold_write:
  "update_write V toi (gw_body ''circuit_breaker_threshold'' (JNum x)) (s, c) =
    (set_threshold (toi x) s, snd (cfg_Save V (cfg_Set V ''gateway.circuit_breaker_threshold'' (CNum (toi x)) c)), [''circuit_breaker_threshold''], [])"
  by (simp add: gw_body_write gateway_updates_def json_get_defs when_some_def upd_def)

lemma window_write:
  "update_write V toi (gw_body ''rate_limit_window_seconds'' (JNum x)) (s, c) =
    (set_gw (\<lambda>g. g\<lparr>gc_RateLimitWindowSeconds := toi x\<rparr>) s, snd (cfg_Save V (cfg_Set V ''gateway.rate_limit_window_seconds'' (CNum (toi x)) c)),
     [''rate_limit_window_seconds''], [])"
  by (simp add: gw_body_write gateway_updates_def json_get_defs when_some_def upd_def)

text \<open>A request for another threshold, with the limiter over Redis.\<close>

definition dist_config :: config where
  "dist_config = demo_config0\<lparr>cf_Gateway := (cf_Gateway demo_config0)\<lparr>gc_RateLimitDistributed := True\<rparr>\<rparr>"

definition dist_state :: "(config, (mem, mem distLimiter + localLimiter) server) config_state" where
  "dist_state = live_state (any_limiter mem_redis)"


section \<open>Two updates at once\<close>

lemma applied_snapshot:
  "sv_config (srv_ApplyConfig (any_limiter R) (update_snapshot s1) s) = sv_config s1 \<and>
   sv_redisConfig (srv_ApplyConfig (any_limiter R) (update_snapshot s1) s) = sv_redisConfig s1 \<and>
   sv_matchmakerConfig (srv_ApplyConfig (any_limiter R) (update_snapshot s1) s) = sv_matchmakerConfig s1 \<and>
   gw_compliance (sv_gw (srv_ApplyConfig (any_limiter R) (update_snapshot s1) s)) = gw_compliance (sv_gw s1) \<and>
   live_ok (srv_ApplyConfig (any_limiter R) (update_snapshot s1) s)"
  unfolding conj_assoc [symmetric]
  by (rule conjI [OF _ ApplyConfig_live_ok])
    (simp add: srv_ApplyConfig_def ApplyConfig_def update_snapshot_def live_of_def NewComplianceService_def split: prod.splits)

text \<open>C16: A change of the configuration can be lost although it is answered as applied: the handler writes, copies and
  installs under three separate holds of the lock, so of any two requests that each apply something live, the second
  can write, copy, install and be answered while the first holds a copy from before. Both are then answered with all
  their changes applied, the file has both, and the server runs under the first alone: the three parts of the
  configuration, the threshold, the limiter and the compliance service are as the first request left them. Run one
  after the other, the second is in force.\<close>

theorem config_update_lost:
  assumes "update_write V toi a (s, c) = (s1, c1, ap1, rs1)" and "ap1 \<noteq> []"
    and "update_write V toi b (s1, c1) = (s2, c2, ap2, rs2)" and "ap2 \<noteq> []"
  shows "(\<exists>y. cfg_run (any_limiter R) V toi (cy_start s c) y \<and> cy_updates y = [] \<and> cy_config y = c2 \<and>
      cy_answers y = [(update_message ap2 rs2, ap2, rs2), (update_message ap1 rs1, ap1, rs1)] \<and>
      sv_config (cy_server y) = sv_config s1 \<and> sv_redisConfig (cy_server y) = sv_redisConfig s1 \<and>
      sv_matchmakerConfig (cy_server y) = sv_matchmakerConfig s1 \<and>
      gw_compliance (sv_gw (cy_server y)) = gw_compliance (sv_gw s1) \<and> live_ok (cy_server y)) \<and>
    (\<exists>z. cfg_run (any_limiter R) V toi (cy_start s1 c1) z \<and> cy_updates z = [] \<and> cy_config z = c2 \<and>
      sv_config (cy_server z) = sv_config s2 \<and> live_ok (cy_server z))"
proof (intro conjI)
  let ?L = "any_limiter R"
  let ?cp1 = "update_snapshot s1" and ?cp2 = "update_snapshot s2"
  let ?s3 = "srv_ApplyConfig ?L ?cp2 s2"
  let ?s4 = "srv_ApplyConfig ?L ?cp1 ?s3"
  let ?a1 = "(update_message ap1 rs1, ap1, rs1)" and ?a2 = "(update_message ap2 rs2, ap2, rs2)"
  let ?y1 = "cy_start s1 c1\<lparr>cy_updates := [UWrote ap1 rs1]\<rparr>"
  let ?y2 = "cy_start s1 c1\<lparr>cy_updates := [UHolds ?cp1 ap1 rs1]\<rparr>"
  let ?y3 = "cy_start s2 c2\<lparr>cy_updates := [UWrote ap2 rs2, UHolds ?cp1 ap1 rs1]\<rparr>"
  let ?y4 = "cy_start s2 c2\<lparr>cy_updates := [UHolds ?cp2 ap2 rs2, UHolds ?cp1 ap1 rs1]\<rparr>"
  let ?y5 = "cy_start ?s3 c2\<lparr>cy_updates := [UHolds ?cp1 ap1 rs1], cy_answers := [?a2]\<rparr>"
  let ?y6 = "cy_start ?s4 c2\<lparr>cy_answers := [?a2, ?a1]\<rparr>"
  have "cfg_step ?L V toi (cy_start s c) ?y1" using cfg_writes [of V toi a "cy_start s c" s1 c1 ap1 rs1 ?L] assms by (simp add: cy_start_def)
  note r = cfg_run_step [OF cfg_run_refl this]
  have "cfg_step ?L V toi ?y1 ?y2" using cfg_copies [of ap1 rs1 ?y1 ?L V toi] by (simp add: cy_start_def)
  note r = cfg_run_step [OF r this]
  have "cfg_step ?L V toi ?y2 ?y3" using cfg_writes [of V toi b ?y2 s2 c2 ap2 rs2 ?L] assms by (simp add: cy_start_def)
  note r = cfg_run_step [OF r this]
  have "cfg_step ?L V toi ?y3 ?y4" using cfg_copies [of ap2 rs2 ?y3 ?L V toi] by (simp add: cy_start_def)
  note r = cfg_run_step [OF r this]
  have "cfg_step ?L V toi ?y4 ?y5" using cfg_installs [of ?cp2 ap2 rs2 ?y4 ?L V toi] by (simp add: cy_start_def)
  note r = cfg_run_step [OF r this]
  have "cfg_step ?L V toi ?y5 ?y6" using cfg_installs [of ?cp1 ap1 rs1 ?y5 ?L V toi] by (simp add: cy_start_def)
  note r = cfg_run_step [OF r this]
  have "sv_config ?s4 = sv_config s1 \<and> sv_redisConfig ?s4 = sv_redisConfig s1 \<and> sv_matchmakerConfig ?s4 = sv_matchmakerConfig s1 \<and>
      gw_compliance (sv_gw ?s4) = gw_compliance (sv_gw s1) \<and> live_ok ?s4"
    by (rule applied_snapshot)
  with r show "\<exists>y. cfg_run ?L V toi (cy_start s c) y \<and> cy_updates y = [] \<and> cy_config y = c2 \<and> cy_answers y = [?a2, ?a1] \<and>
      sv_config (cy_server y) = sv_config s1 \<and> sv_redisConfig (cy_server y) = sv_redisConfig s1 \<and>
      sv_matchmakerConfig (cy_server y) = sv_matchmakerConfig s1 \<and>
      gw_compliance (sv_gw (cy_server y)) = gw_compliance (sv_gw s1) \<and> live_ok (cy_server y)"
    by (intro exI [of _ ?y6]) (simp add: cy_start_def)
  have "updateConfigHandler ?L V toi (Inr b) (s1, c1) = ((200, Inr ?a2), ?s3, c2)"
    using assms by (simp add: updateConfigHandler_def Let_def)
  from update_undisturbed [OF this] applied_snapshot [of R s2 s2]
  show "\<exists>z. cfg_run ?L V toi (cy_start s1 c1) z \<and> cy_updates z = [] \<and> cy_config z = c2 \<and>
      sv_config (cy_server z) = sv_config s2 \<and> live_ok (cy_server z)"
    by (intro exI [of _ "cy_start ?s3 c2\<lparr>cy_answers := [?a2]\<rparr>"]) (simp add: cy_start_def)
qed

text \<open>The second request sets the threshold to 9, is answered so, and the threshold ends as it was, 5.\<close>

theorem config_update_lost_witness:
  "\<exists>y. cfg_run (any_limiter mem_redis) file_viper (\<lambda>_. 9) (cy_start (main_server dist_config mem_redis mem_empty) (dist_state)) y \<and>
     fst (snd (hd (cy_answers y))) = [''circuit_breaker_threshold''] \<and> gw_circuitBreakerThreshold (sv_gw (cy_server y)) = 5"
proof -
  let ?s = "main_server dist_config mem_redis mem_empty"
  let ?s1 = "set_gw (\<lambda>g. g\<lparr>gc_RateLimitWindowSeconds := 9\<rparr>) ?s"
  obtain c1 where 1: "update_write file_viper (\<lambda>_. 9) (gw_body ''rate_limit_window_seconds'' (JNum (Fin 9))) (?s, dist_state) =
      (?s1, c1, [''rate_limit_window_seconds''], [])" by (simp add: window_write)
  obtain c2 where 2: "update_write file_viper (\<lambda>_. 9) (gw_body ''circuit_breaker_threshold'' (JNum (Fin 9))) (?s1, c1) =
      (set_threshold 9 ?s1, c2, [''circuit_breaker_threshold''], [])" by (simp add: threshold_write)
  have t: "gc_CircuitBreakerThreshold (sv_config ?s1) = 5"
    by (simp add: main_server_def srv_NewGateway_def set_gw_def dist_config_def demo_config0_def)
  from config_update_lost [OF 1 _ 2, of mem_redis] obtain y where
      y: "cfg_run (any_limiter mem_redis) file_viper (\<lambda>_. 9) (cy_start ?s dist_state) y"
      and a: "cy_answers y = [(update_message [''circuit_breaker_threshold''] [], [''circuit_breaker_threshold''], []),
         (update_message [''rate_limit_window_seconds''] [], [''rate_limit_window_seconds''], [])]"
      and "sv_config (cy_server y) = sv_config ?s1" and "live_ok (cy_server y)" by blast
  with t have "gw_circuitBreakerThreshold (sv_gw (cy_server y)) = 5" by (simp add: live_ok_def)
  with y a show ?thesis by (intro exI [of _ y]) simp
qed

section \<open>Switching the limiter off\<close>

text \<open>Requests of one client, at the times given, through the tiered limiter.\<close>

fun client_run :: "'r redis option \<Rightarrow> http_req \<Rightarrow> time list \<Rightarrow> ('r, localLimiter) tieredLimiter \<times> metrics \<Rightarrow> outcome list" where
  "client_run h r [] x = []"
| "client_run h r (now # ts) x = (case tiered_Middleware local_limiter h now r x of (oc, x') \<Rightarrow> oc # client_run h r ts x')"

definition lapsed :: "time \<Rightarrow> string \<Rightarrow> localLimiter \<Rightarrow> bool" where
  "lapsed now c l \<longleftrightarrow> (case ll_requests l c of None \<Rightarrow> True | Some e \<Rightarrow> rc_resetTime e < now)"

lemma lapsed_allows:
  assumes "ll_window (tl_limiter t) \<le> 0" and "lapsed now (rate_client_id r) (tl_limiter t)"
  shows "\<exists>t' m'. tiered_Middleware local_limiter h now r (t, m) = (Next, (t', m')) \<and> ll_window (tl_limiter t') = ll_window (tl_limiter t) \<and>
    (\<forall>later > now. lapsed later (rate_client_id r) (tl_limiter t'))"
proof -
  obtain tn st where "GetTierForKey h (auth_header r) (tl_redis t) = (tn, st)" by fastforce
  with assms show ?thesis
    by (auto simp: tiered_Middleware_def tiered_Allow_def local_defs lapsed_def Let_def split: option.splits)
qed

lemma limiter_off:
  assumes "ll_window (tl_limiter t) \<le> 0" and "sorted_wrt (<) ts" and "\<forall>now \<in> set (take 1 ts). lapsed now (rate_client_id r) (tl_limiter t)"
  shows "client_run h r ts (t, m) = replicate (length ts) Next"
  using assms
proof (induction ts arbitrary: t m)
  case (Cons now ts)
  from lapsed_allows [of t now r h m] Cons.prems
  obtain t' m' where 1: "tiered_Middleware local_limiter h now r (t, m) = (Next, (t', m'))" "ll_window (tl_limiter t') \<le> 0"
      "\<forall>later > now. lapsed later (rate_client_id r) (tl_limiter t')" by auto
  have "\<forall>u \<in> set (take 1 ts). lapsed u (rate_client_id r) (tl_limiter t')"
    using 1(3) Cons.prems(2) by (cases ts) auto
  with Cons.IH [of t' m'] 1 Cons.prems(2) show ?case by simp
qed simp

text \<open>One request to the open configuration endpoint switches the rate limiter off: after a body that sets the window
  to zero or a negative number of seconds, every request of a client is let through, however many there are, as
  soon as the window it is in has ended.\<close>

theorem window_switches_limiter_off:
  assumes "updateConfigHandler local_limiter V toi (Inr (gw_body ''rate_limit_window_seconds'' (JNum x))) (s, c) = (a, s', c')"
    and "toi x \<le> 0" and "- 9000000000 \<le> toi x" and "sorted_wrt (<) ts"
    and "lapsed (hd ts) (rate_client_id r) (sv_limiter s)"
  shows "fst a = 200 \<and> client_run h r ts (\<lparr>tl_limiter = sv_limiter s', tl_tiers = tiers, tl_redis = st\<rparr>, m) = replicate (length ts) Next"
proof -
  have s': "fst a = 200" "s' = srv_ApplyConfig local_limiter (update_snapshot (set_gw (\<lambda>g. g\<lparr>gc_RateLimitWindowSeconds := toi x\<rparr>) s))
      (set_gw (\<lambda>g. g\<lparr>gc_RateLimitWindowSeconds := toi x\<rparr>) s)"
    using assms(1) by (auto simp: updateConfigHandler_def window_write Let_def)
  have l: "sv_limiter s' = (sv_limiter s)\<lparr>ll_limit := gc_RateLimitRequests (sv_config s), ll_window := i64 (toi x * go_second)\<rparr>"
    by (simp add: s' srv_ApplyConfig_def ApplyConfig_def update_snapshot_def live_of_def set_gw_def local_defs split: prod.splits)
  have "in_i64 (toi x * go_second)" using assms(2,3) by (simp add: in_i64_def go_second_def)
  then have "ll_window (sv_limiter s') \<le> 0" using assms(2) by (simp add: l i64_id) (simp add: go_second_def)
  moreover have "\<forall>now \<in> set (take 1 ts). lapsed now (rate_client_id r) (sv_limiter s')"
    using assms(5) by (cases ts) (simp_all add: l lapsed_def)
  ultimately show ?thesis using s'(1) limiter_off [of "\<lparr>tl_limiter = sv_limiter s', tl_tiers = tiers, tl_redis = st\<rparr>" ts r h m] assms(4) by simp
qed

definition local_server :: "config \<Rightarrow> (unit, localLimiter) server" where
  "local_server cfg = srv_NewGateway cfg (NewMatchmaker 0 0) (NewComplianceService [] False)
     (NewLocalRateLimiter (gc_RateLimitRequests (cf_Gateway cfg)) (gc_RateLimitWindowSeconds (cf_Gateway cfg))) None"

definition local_state :: "(config, (unit, localLimiter) server) config_state" where
  "local_state = live_state local_limiter"

text \<open>Four requests a tick apart by a client with no tier, of which the limiter of 1 request would let through one.\<close>

theorem window_switches_limiter_off_witness:
  "client_run None (\<lparr>rq_method = ''GET'', rq_path = ''/x'', rq_clientIP = ''1.2.3.4'', rq_header = (\<lambda>_. ''''), rq_query = (\<lambda>_. ''''), rq_contentLength = 0\<rparr>) [1, 2, 3, 4]
     (\<lparr>tl_limiter = sv_limiter (fst (snd (updateConfigHandler local_limiter file_viper (\<lambda>_. 0) (Inr (gw_body ''rate_limit_window_seconds'' (JNum (Fin 0))))
        (local_server demo_config0, local_state)))), tl_tiers = [''free'' \<mapsto> mk_tier ''free'' 1 60], tl_redis = ()\<rparr>, metrics_zero)
   = [Next, Next, Next, Next]"
proof -
  let ?x = "updateConfigHandler local_limiter file_viper (\<lambda>_. 0) (Inr (gw_body ''rate_limit_window_seconds'' (JNum (Fin 0)))) (local_server demo_config0, local_state)"
  let ?r = "\<lparr>rq_method = ''GET'', rq_path = ''/x'', rq_clientIP = ''1.2.3.4'', rq_header = (\<lambda>_. ''''), rq_query = (\<lambda>_. ''''), rq_contentLength = 0\<rparr>"
  have h: "?x = (fst ?x, fst (snd ?x), snd (snd ?x))" by simp
  have "lapsed (hd [1, 2, 3, 4]) (rate_client_id ?r) (sv_limiter (local_server demo_config0))"
    by (simp add: lapsed_def local_server_def srv_NewGateway_def NewLocalRateLimiter_def)
  from window_switches_limiter_off [OF h _ _ _ this, of None "[''free'' \<mapsto> mk_tier ''free'' 1 60]" "()" metrics_zero]
  show ?thesis by (simp add: numeral_eq_Suc)
qed

end
