(* ===== verification/Admin_Nodes.thy ===== *)
theory Admin_Nodes
  imports Matchmaker Capacity Latency Webhooks Http
begin

text \<open>
  The administrators' handlers for nodes, sessions, capacity, breakers, health, benchmarks, referrals and webhooks
  (\<open>admin.go\<close>), and the handlers of the web interface (\<open>gateway/web/webui.go\<close>). What \<open>ShouldBindJSON\<close> read is an
  argument, as are path parameters and the clock. A panic is answered with status 500 by the recovery middleware.
  Deliveries of webhooks are what the handler starts: pairs of a URL and a payload.
\<close>

section \<open>The key of the administrators\<close>

definition adminAuthMiddleware :: "http_req \<Rightarrow> outcome" where
  "adminAuthMiddleware r = (if rq_header r ''X-Admin-Key'' = '''' then Abort 401 ''Missing admin key'' else Next)"

definition panicked :: "'a resp" where
  "panicked = (500, Inl '''')"

section \<open>Nodes\<close>

definition trigger :: "nodeWebhook option \<Rightarrow> time \<Rightarrow> string \<Rightarrow> string \<Rightarrow> string \<Rightarrow> (string \<times> webhookPayload) list" where
  "trigger nw now nodeID event state = (case nw of None \<Rightarrow> [] | Some w \<Rightarrow> TriggerEvent now nodeID event state w)"

definition registerNodeHandler ::
    "'r redis \<Rightarrow> (string \<Rightarrow> string) option \<Rightarrow> nodeWebhook option \<Rightarrow> time \<Rightarrow> string + registration \<Rightarrow> 'r \<Rightarrow> string resp \<times> (string \<times> webhookPayload) list \<times> 'r" where
  "registerNodeHandler R geoip nw now body st = (case body of
       Inl e \<Rightarrow> (bad_request (''Invalid request: '' @ e), [], st)
     | Inr req \<Rightarrow> (case RegisterNode R geoip now req st of
         (Some e, st1) \<Rightarrow> ((500, Inl (err_text e)), [], st1)
       | (None, st1) \<Rightarrow> ((201, Inr (rg_NodeID req)), trigger nw now (rg_NodeID req) ''node.registered'' ''registered'', st1)))"

text \<open>The body is the battery, the load of the processor and whether it charges; its node id is overwritten by that of the path.\<close>

definition heartbeatHandler ::
    "'r redis \<Rightarrow> (f64 \<Rightarrow> string) \<Rightarrow> nodeWebhook option \<Rightarrow> time \<Rightarrow> string \<Rightarrow> string + int \<times> f64 \<times> bool \<Rightarrow> 'r \<Rightarrow> string resp \<times> (string \<times> webhookPayload) list \<times> 'r" where
  "heartbeatHandler R fmt nw now nodeID body st = (case body of
       Inl e \<Rightarrow> (bad_request (''Invalid request: '' @ e), [], st)
     | Inr (battery, cpu, charging) \<Rightarrow> (case Heartbeat R fmt now nodeID battery cpu charging st of
         (Some e, st1) \<Rightarrow> ((500, Inl (err_text e)), trigger nw now nodeID ''node.heartbeat_failed'' ''unhealthy'', st1)
       | (None, st1) \<Rightarrow> ((200, Inr nodeID), [], st1)))"

definition deregisterNodeHandler ::
    "'r redis \<Rightarrow> nodeWebhook option \<Rightarrow> time \<Rightarrow> string \<Rightarrow> 'r \<Rightarrow> string resp \<times> (string \<times> webhookPayload) list \<times> 'r" where
  "deregisterNodeHandler R nw now nodeID st = (case DeregisterNode R nodeID st of
       (Some e, st1) \<Rightarrow> ((500, Inl (err_text e)), [], st1)
     | (None, st1) \<Rightarrow> ((200, Inr nodeID), trigger nw now nodeID ''node.deregistered'' ''deregistered'', st1))"

definition getNodeHandler :: "'r redis \<Rightarrow> time \<Rightarrow> string \<Rightarrow> 'r \<Rightarrow> node resp \<times> 'r" where
  "getNodeHandler R now nodeID st = (case GetNode R now nodeID st of
       (Inl _, st1) \<Rightarrow> ((404, Inl ''Node not found''), st1)
     | (Inr nd, st1) \<Rightarrow> ((200, Inr nd), st1))"

text \<open>One summary for each id: the node, or the text of the error.\<close>

definition listNodesHandler :: "'r redis \<Rightarrow> time \<Rightarrow> 'r \<Rightarrow> (string \<times> (string + node)) list resp \<times> 'r" where
  "listNodesHandler R now st = (case GetAllNodes R st of
       (Inl e, st1) \<Rightarrow> ((500, Inl (''Failed to list nodes: '' @ err_text e)), st1)
     | (Inr ids, st1) \<Rightarrow>
         (case each (\<lambda>i s. case GetNode R now i s of (Inl e, s') \<Rightarrow> (Some (i, Inl (err_text e)), s') | (Inr nd, s') \<Rightarrow> (Some (i, Inr nd), s')) ids st1 of
            (results, st2) \<Rightarrow> ((200, Inr results), st2)))"

lemma each_total_map:
  "(\<And>k s. \<exists>y s'. f k s = (Some (k, y), s')) \<Longrightarrow> map fst (fst (each f ks st)) = ks"
proof (induction ks arbitrary: st)
  case (Cons k ks)
  obtain y s' where "f k st = (Some (k, y), s')" using Cons.prems by blast
  with Cons.IH [OF Cons.prems, of s'] show ?case by (simp add: split_beta)
qed simp

lemma lists_every_node:
  assumes "GetAllNodes R st = (Inr ids, st1)"
  shows "\<exists>results st2. listNodesHandler R now st = ((200, Inr results), st2) \<and> map fst results = ids"
proof -
  let ?f = "\<lambda>i s. case GetNode R now i s of (Inl e, s') \<Rightarrow> (Some (i, Inl (err_text e)), s') | (Inr nd, s') \<Rightarrow> (Some (i, Inr nd), s')"
  have "\<exists>y s'. ?f k s = (Some (k, y), s')" for k s
    by (cases "GetNode R now k s"; cases "fst (GetNode R now k s)") auto
  with assms each_total_map [of ?f ids st1] show ?thesis
    by (simp add: listNodesHandler_def split_beta)
qed

section \<open>Cooldowns, sessions, capacity\<close>

definition listCooldownsHandler :: "'r redis \<Rightarrow> 'r \<Rightarrow> (string \<times> string list) list resp \<times> 'r" where
  "listCooldownsHandler R st = (case GetCooldownEntries R st of
       (Inl e, st1) \<Rightarrow> ((500, Inl (''Failed to list cooldowns: '' @ err_text e)), st1)
     | (Inr entries, st1) \<Rightarrow> ((200, Inr entries), st1))"

definition listSessionsHandler :: "'r redis \<Rightarrow> (duration \<Rightarrow> string) \<Rightarrow> 'r \<Rightarrow> (string \<times> string \<times> string) list resp \<times> 'r" where
  "listSessionsHandler R dur st = (case ListSessions R dur st of
       (Inl e, st1) \<Rightarrow> ((500, Inl (''Failed to list sessions: '' @ err_text e)), st1)
     | (Inr sessions, st1) \<Rightarrow> ((200, Inr sessions), st1))"

definition deleteSessionHandler :: "'r redis \<Rightarrow> string \<Rightarrow> 'r \<Rightarrow> string resp \<times> 'r" where
  "deleteSessionHandler R sessionID st = (case DeleteSession R sessionID st of
       (Some e, st1) \<Rightarrow> ((500, Inl (err_text e)), st1)
     | (None, st1) \<Rightarrow> ((200, Inr sessionID), st1))"

definition capacityReportHandler :: "'r redis \<Rightarrow> cap_env \<Rightarrow> time \<Rightarrow> 'r \<Rightarrow> capacityReport resp \<times> 'r" where
  "capacityReportHandler R E now st = (case GenerateReport R E now st of
       (Inl e, st1) \<Rightarrow> ((500, Inl (err_text e)), st1)
     | (Inr report, st1) \<Rightarrow> ((200, Inr report), st1))"

definition scalingRecommendationsHandler :: "'r redis \<Rightarrow> cap_env \<Rightarrow> time \<Rightarrow> 'r \<Rightarrow> scalingReport resp \<times> 'r" where
  "scalingRecommendationsHandler R E now st = (case GetScalingRecommendations R E now st of
       (Inl e, st1) \<Rightarrow> ((500, Inl (err_text e)), st1)
     | (Inr report, st1) \<Rightarrow> ((200, Inr report), st1))"

section \<open>Breakers, latencies, health\<close>

definition circuitBreakersHandler :: "matchmaker \<Rightarrow> (string \<rightharpoonup> circuitBreaker) resp" where
  "circuitBreakersHandler m = (200, Inr (GetCircuitBreakers m))"

definition resetCircuitBreakerHandler :: "string \<Rightarrow> matchmaker \<Rightarrow> string resp \<times> matchmaker" where
  "resetCircuitBreakerHandler nodeID m = (if nodeID = '''' then (bad_request ''node_id required'', m)
     else ((200, Inr nodeID), ResetCircuitBreaker nodeID m))"

definition GetLatencyTracker :: "latencyTracker option" where
  "GetLatencyTracker = None"

text \<open>The statistics of the nodes, or a panic.\<close>

fun rankings :: "latencyTracker \<Rightarrow> string list \<Rightarrow> (string \<times> int \<times> int \<times> int) list option" where
  "rankings lt [] = Some []"
| "rankings lt (n # ns) = (case GetLatencyStats n lt of None \<Rightarrow> None
     | Some s \<Rightarrow> map_option (\<lambda>rs. (n, s) # rs) (rankings lt ns))"

definition latencyRankingHandler ::
    "'r redis option \<Rightarrow> string list \<Rightarrow> latencyTracker option \<Rightarrow> http_req \<Rightarrow> 'r \<Rightarrow> (string \<times> int \<times> int \<times> int) list resp \<times> 'r" where
  "latencyRankingHandler h order tracker r st = (case tracker of
       None \<Rightarrow> ((404, Inl ''Latency tracking not enabled''), st)
     | Some lt \<Rightarrow> (case lt_GetTopNodes h order (query_limit 10 (rq_query r ''count'')) lt st of
         (None, st1) \<Rightarrow> (panicked, st1)
       | (Some best, st1) \<Rightarrow> ((case rankings lt best of None \<Rightarrow> panicked | Some rs \<Rightarrow> (200, Inr rs)), st1)))"

lemma latencies_never_served: "fst (fst (latencyRankingHandler h order GetLatencyTracker r st)) = 404"
  by (simp add: latencyRankingHandler_def GetLatencyTracker_def)

definition healthScoreHandler :: "string list \<Rightarrow> matchmaker \<Rightarrow> peerHealth list resp" where
  "healthScoreHandler order m = (case peer_GetTopPeers order 20 (mm_health m) of None \<Rightarrow> panicked | Some peers \<Rightarrow> (200, Inr peers))"

definition nodeHealthScoreHandler :: "string \<Rightarrow> matchmaker \<Rightarrow> (string \<times> peerHealth) resp" where
  "nodeHealthScoreHandler nodeID m = (case peer_GetScore nodeID (mm_health m) of
       None \<Rightarrow> (404, Inl ''No health score available'') | Some score \<Rightarrow> (200, Inr (nodeID, score)))"

section \<open>Benchmarks\<close>

record benchRound =
  br_Iteration :: int
  br_Ok :: bool
  br_LatencyMs :: int
  br_Timestamp :: int

record benchReport =
  bn_Iterations :: int
  bn_SuccessCount :: int
  bn_AvgLatencyMs :: f64
  bn_Results :: "benchRound list"

definition bench_count :: "int \<Rightarrow> int" where
  "bench_count n = (let n1 = (if n = 0 then 10 else n) in if n1 > 100 then 100 else n1)"

text \<open>The clock is read at the start, at the end and for the time stamp of a round.\<close>

definition bench_round :: "'r redis option \<Rightarrow> (nat \<Rightarrow> time \<times> time \<times> time) \<Rightarrow> string \<Rightarrow> nat \<Rightarrow> 'r \<Rightarrow> benchRound option \<times> 'r" where
  "bench_round h clock nodeID i st = (case clock i of (start, fin, stamp) \<Rightarrow>
     (case (case h of None \<Rightarrow> (False, st) | Some R \<Rightarrow> (case GetNode R start nodeID st of (Inl _, st1) \<Rightarrow> (False, st1) | (Inr _, st1) \<Rightarrow> (True, st1))) of
        (ok, st2) \<Rightarrow> (Some \<lparr>br_Iteration = int i + 1, br_Ok = ok, br_LatencyMs = time_sub fin start sdiv 1000000, br_Timestamp = unix_seconds stamp\<rparr>, st2)))"

definition bench_average :: "benchRound list \<Rightarrow> int \<times> f64" where
  "bench_average results =
     (let total = fold (\<lambda>b t. i64 (t + br_LatencyMs b)) results 0; ok = int (length (filter br_Ok results))
      in (ok, if ok > 0 then f_div (f_int total) (f_int ok) else f_int 0))"

definition benchmarkNodeHandler :: "'r redis option \<Rightarrow> (nat \<Rightarrow> time \<times> time \<times> time) \<Rightarrow> string + string \<times> int \<Rightarrow> 'r \<Rightarrow> benchReport resp \<times> 'r" where
  "benchmarkNodeHandler h clock body st = (case body of
       Inl e \<Rightarrow> (bad_request e, st)
     | Inr (nodeID, n) \<Rightarrow>
         let k = bench_count n in
         if k < 0 then (panicked, st)
         else (case each (bench_round h clock nodeID) [0..<nat k] st of (results, st1) \<Rightarrow>
           case bench_average results of (ok, avg) \<Rightarrow>
             ((200, Inr \<lparr>bn_Iterations = k, bn_SuccessCount = ok, bn_AvgLatencyMs = avg, bn_Results = results\<rparr>), st1)))"

section \<open>Referrals\<close>

definition getReferralsHandler :: "'r redis option \<Rightarrow> string \<Rightarrow> 'r \<Rightarrow> (int \<times> string list) resp \<times> 'r" where
  "getReferralsHandler mm code st = (if code = '''' then (bad_request ''referral code is required'', st)
     else (case mm of None \<Rightarrow> ((200, Inr (0, [])), st)
       | Some R \<Rightarrow> (case GetReferrals R code st of
           (Inl e, st1) \<Rightarrow> ((500, Inl (err_text (RErr e))), st1)
         | (Inr referrals, st1) \<Rightarrow> (case GetReferralCount R code st1 of
             (Inl e, st2) \<Rightarrow> ((500, Inl (err_text (RErr e))), st2)
           | (Inr n, st2) \<Rightarrow> ((200, Inr (n, referrals)), st2)))))"

section \<open>Webhooks\<close>

definition webhook_node :: "http_req \<Rightarrow> string" where
  "webhook_node r = (let n = rq_query r ''node_id'' in if n = '''' then rq_header r ''X-Node-ID'' else n)"

definition registerWebhookHandler :: "http_req \<Rightarrow> string + webhookConfig \<Rightarrow> nodeWebhook \<Rightarrow> (string \<times> webhookConfig) resp \<times> nodeWebhook" where
  "registerWebhookHandler r body nw = (case body of
       Inl e \<Rightarrow> (bad_request e, nw)
     | Inr req \<Rightarrow>
         if wc_URL req = '''' then (bad_request ''url is required'', nw)
         else let nodeID = webhook_node r in
           if nodeID = '''' then (bad_request ''node_id is required (query or X-Node-ID header)'', nw)
           else let req1 = (if wc_Events req = [] then req\<lparr>wc_Events := [''*'']\<rparr> else req)
             in ((201, Inr (nodeID, req1)), RegisterWebhook nodeID req1 nw))"

definition listWebhooksHandler :: "nodeWebhook \<Rightarrow> (string \<rightharpoonup> webhookConfig list) resp" where
  "listWebhooksHandler nw = (200, Inr (GetAllWebhooks nw))"

definition getWebhooksHandler :: "string \<Rightarrow> nodeWebhook \<Rightarrow> (string \<times> webhookConfig list) resp" where
  "getWebhooksHandler nodeID nw = (200, Inr (nodeID, GetWebhooks nodeID nw))"

definition deleteWebhooksHandler :: "string \<Rightarrow> nodeWebhook \<Rightarrow> string resp \<times> nodeWebhook" where
  "deleteWebhooksHandler nodeID nw = ((200, Inr nodeID), ClearWebhooks nodeID nw)"

text \<open>A webhook registered without events hears of every event of its node.\<close>

lemma default_webhook_hears_all:
  assumes "registerWebhookHandler r (Inr req) nw = ((201, Inr (n, req1)), nw')" and "wc_Events req = []"
  shows "(wc_URL req, \<lparr>wp_Event = ev, wp_NodeID = n, wp_State = s, wp_Timestamp = now\<rparr>) \<in> set (TriggerEvent now n ev s nw')"
proof -
  have n: "nw' = RegisterWebhook n (req\<lparr>wc_Events := [''*'']\<rparr>) nw"
    using assms by (auto simp: registerWebhookHandler_def bad_request_def Let_def split: if_splits)
  have h: "subscribed ev [''*'']" by simp
  show ?thesis unfolding n TriggerEvent_def RegisterWebhook_def GetWebhooks_def
    by (simp add: h Let_def)
qed

end
