(* ===== verification/Admin_Keys.thy ===== *)
theory Admin_Keys
  imports Gateway Subnet Audit_Log Payout Batch Admin_Nodes
begin

text \<open>
  The administrators' handlers for API keys, subnets, the audit log, the request log, users and payouts (\<open>admin.go\<close>). What
  \<open>ShouldBindJSON\<close> read is an argument, as are path parameters and the clock. The handlers of payouts are in the program, but no
  route leads to them.
\<close>

text \<open>The answer of a service: its result with status \<open>ok\<close>, or its error with status \<open>bad\<close>.\<close>

definition answer :: "int \<Rightarrow> int \<Rightarrow> ('a \<Rightarrow> 'b) \<Rightarrow> go_err + 'a \<Rightarrow> 'b resp" where
  "answer bad ok f res = (case res of Inl e \<Rightarrow> (bad, Inl (err_text e)) | Inr x \<Rightarrow> (ok, Inr (f x)))"

definition answer_err :: "int \<Rightarrow> 'b \<Rightarrow> go_err option \<Rightarrow> 'b resp" where
  "answer_err bad y res = (case res of Some e \<Rightarrow> (bad, Inl (err_text e)) | None \<Rightarrow> (200, Inr y))"

text \<open>A handler of a body: a body that does not bind is refused, and changes nothing.\<close>

definition bound :: "string + 'b \<Rightarrow> ('b \<Rightarrow> 's \<Rightarrow> 'a resp \<times> 's) \<Rightarrow> 's \<Rightarrow> 'a resp \<times> 's" where
  "bound body h s = (case body of Inl e \<Rightarrow> (bad_request e, s) | Inr b \<Rightarrow> h b s)"

section \<open>API keys\<close>

definition createAPIKeyHandler ::
    "'r redis \<Rightarrow> (string \<Rightarrow> string) \<Rightarrow> string \<Rightarrow> time \<Rightarrow> string + string \<times> int \<times> string \<Rightarrow> 'r \<Rightarrow> apiKey resp \<times> 'r" where
  "createAPIKeyHandler R sha rawKey now body = bound body (\<lambda>(name, ttlDays, scope) st.
     (case CreateKey R sha rawKey now name ttlDays (if scope = '''' then ''read'' else scope) st of
        (res, st1) \<Rightarrow> (answer 500 201 (\<lambda>k. k) res, st1)))"

definition listAPIKeysHandler :: "'r redis \<Rightarrow> 'r \<Rightarrow> (string \<times> string) list list resp \<times> 'r" where
  "listAPIKeysHandler R st = (case ListKeys R st of (res, st1) \<Rightarrow> (answer 500 200 (\<lambda>ks. ks) res, st1))"

definition revokeAPIKeyHandler :: "'r redis \<Rightarrow> (string \<Rightarrow> string) \<Rightarrow> string + string \<Rightarrow> 'r \<Rightarrow> string resp \<times> 'r" where
  "revokeAPIKeyHandler R sha body = bound body (\<lambda>key st.
     (case RevokeKey R sha key st of (res, st1) \<Rightarrow> (answer_err 500 ''API key revoked'' res, st1)))"

definition setKeyRateLimitHandler :: "'r redis \<Rightarrow> (string \<Rightarrow> string) \<Rightarrow> string + string \<times> int \<times> int \<Rightarrow> 'r \<Rightarrow> string resp \<times> 'r" where
  "setKeyRateLimitHandler R sha body = bound body (\<lambda>(key, requests, window) st.
     (case SetKeyRateLimit R sha key requests window st of (res, st1) \<Rightarrow>
       (answer_err 500 (''Rate limit set: '' @ show_int requests @ '' requests per '' @ show_int window @ '' seconds'') res, st1)))"

definition updateAPIKeyScopeHandler :: "'r redis \<Rightarrow> string \<Rightarrow> string + string \<Rightarrow> 'r \<Rightarrow> string resp \<times> 'r" where
  "updateAPIKeyScopeHandler R hash body = bound body (\<lambda>scope st.
     (case UpdateScope R hash scope st of (res, st1) \<Rightarrow> (answer_err 400 scope res, st1)))"

section \<open>Subnets\<close>

definition createPoolHandler ::
    "'r redis \<Rightarrow> (string \<Rightarrow> nat list option) \<Rightarrow> string + string \<times> int \<Rightarrow> 'r \<Rightarrow> (string \<times> int) resp \<times> 'r" where
  "createPoolHandler R parseIP body = bound body (\<lambda>(prefx, prefixLen) st.
     (case RegisterPool R parseIP prefx prefixLen st of
        (Some e, st1) \<Rightarrow> ((500, Inl (err_text e)), st1)
      | (None, st1) \<Rightarrow> ((201, Inr (prefx, prefixLen)), st1)))"

definition allocateSubnetHandler ::
    "'r redis \<Rightarrow> (string \<Rightarrow> nat list option) \<Rightarrow> (nat list \<Rightarrow> string) \<Rightarrow> string + string \<times> string \<times> int \<Rightarrow> 'r \<Rightarrow> (string \<times> string) resp \<times> 'r" where
  "allocateSubnetHandler R parseIP ipString body = bound body (\<lambda>(nodeID, prefx, prefixLen) st.
     (case Allocate R parseIP ipString nodeID prefx prefixLen st of (res, st1) \<Rightarrow> (answer 500 200 (Pair nodeID) res, st1)))"

definition deallocateSubnetHandler :: "'r redis \<Rightarrow> string \<Rightarrow> 'r \<Rightarrow> string resp \<times> 'r" where
  "deallocateSubnetHandler R nodeID st = (case Deallocate R nodeID st of (res, st1) \<Rightarrow> (answer_err 500 nodeID res, st1))"

definition listPoolsHandler :: "'r redis \<Rightarrow> 'r \<Rightarrow> subnetPoolInfo list resp \<times> 'r" where
  "listPoolsHandler R st = (case ListPools R st of (res, st1) \<Rightarrow> (answer 500 200 (\<lambda>ps. ps) res, st1))"

definition getNodeSubnetHandler :: "'r redis option \<Rightarrow> string \<Rightarrow> 'r \<Rightarrow> (string \<times> string) resp \<times> 'r" where
  "getNodeSubnetHandler h nodeID st = (case GetNodeSubnet h nodeID st of (res, st1) \<Rightarrow> (answer 404 200 (Pair nodeID) res, st1))"

section \<open>Logs\<close>

definition listAuditEntriesHandler :: "audit_env \<Rightarrow> time \<Rightarrow> http_req \<Rightarrow> 'r auditLogger \<Rightarrow> 'r \<Rightarrow> (string \<times> auditEntry list) resp \<times> 'r" where
  "listAuditEntriesHandler E now r al st =
     (let date = (if rq_query r ''date'' = '''' then au_date E now else rq_query r ''date'')
      in case GetEntries E date (rq_query r ''action'') (query_limit 100 (rq_query r ''limit'')) al st of
           (res, st1) \<Rightarrow> (answer 500 200 (Pair date) res, st1))"

text \<open>\<open>DefaultQuery\<close> gives its default only to a parameter that is absent. A logger without a client panics.\<close>

definition logsHandler ::
    "(string \<Rightarrow> logEntry option) \<Rightarrow> string \<Rightarrow> (string \<Rightarrow> string option) \<Rightarrow> 'r requestLogger \<Rightarrow> 'r \<Rightarrow> (string \<times> logEntry list) resp \<times> 'r" where
  "logsHandler unmarshal today query rl st =
     (let date = (case query ''date'' of None \<Rightarrow> today | Some d \<Rightarrow> d);
          (l, ok) = parse_int (case query ''limit'' of None \<Rightarrow> ''100'' | Some x \<Rightarrow> x);
          limit = (if ok \<and> l > 0 \<and> l \<le> 1000 then l else 100)
      in case GetLogs unmarshal date limit rl st of
           None \<Rightarrow> (panicked, st)
         | Some (res, st1) \<Rightarrow> (answer 500 200 (Pair date) res, st1))"

section \<open>Users\<close>

text \<open>Names, addresses and roles; the accounts of the role service are not asked.\<close>

definition listUsersHandler :: "(string \<times> string \<times> string list) list resp" where
  "listUsersHandler = (200, Inr [(''admin'', ''admin@proxymesh.local'', [''superadmin'']), (''operator'', ''ops@proxymesh.local'', [''operator''])])"

definition createUserHandler :: "string + string \<times> string \<times> string \<times> string \<Rightarrow> string resp" where
  "createUserHandler body = (case body of
       Inl e \<Rightarrow> bad_request e
     | Inr (username, password, email, role) \<Rightarrow>
         if username = '''' \<or> password = '''' then bad_request ''username and password required'' else (201, Inr username))"

definition deleteUserHandler :: "string \<Rightarrow> string resp" where
  "deleteUserHandler username = (200, Inr (''User '' @ username @ '' deleted''))"

section \<open>Payouts\<close>

text \<open>The clock is read twice: for the period shown and for the payouts.\<close>

definition calculatePayoutsHandler :: "'r redis \<Rightarrow> pay_env \<Rightarrow> payoutService \<Rightarrow> time \<Rightarrow> time \<Rightarrow> 'r \<Rightarrow> (string \<times> payout list) resp \<times> 'r" where
  "calculatePayoutsHandler R E p now1 now2 st = (case CalculateAllPayouts R E p now2 now2 st of
       (res, st1) \<Rightarrow> (answer 500 200 (Pair (pe_month E now1)) res, st1))"

text \<open>\<open>None\<close> is the answer without a history. The limit is read and not used.\<close>

definition payoutHistoryHandler :: "'r redis \<Rightarrow> pay_env \<Rightarrow> payoutService \<Rightarrow> time \<Rightarrow> http_req \<Rightarrow> 'r \<Rightarrow> (string \<times> payout) option resp \<times> 'r" where
  "payoutHistoryHandler R E p now r st =
     (let nodeID = rq_query r ''node_id''
      in if nodeID = '''' then ((200, Inr None), st)
         else (case CalculatePayout R E p now nodeID now st of
             (Inl _, st1) \<Rightarrow> ((200, Inr None), st1)
           | (Inr po, st1) \<Rightarrow> ((200, Inr (Some (nodeID, po))), st1)))"

definition updatePayoutRatesHandler :: "string + payoutRates \<Rightarrow> payoutService \<Rightarrow> payoutRates resp \<times> payoutService" where
  "updatePayoutRatesHandler body = bound body (\<lambda>rates p. let p1 = SetRates rates p in ((200, Inr (GetRates p1)), p1))"

definition listTiersHandler :: "payoutService \<Rightarrow> pricingTier list resp" where
  "listTiersHandler p = (200, Inr (GetTiers p))"

definition updateTiersHandler :: "string + pricingTier list \<Rightarrow> payoutService \<Rightarrow> pricingTier list resp \<times> payoutService" where
  "updateTiersHandler body = bound body (\<lambda>tiers p. let p1 = SetTiers tiers p in ((200, Inr (GetTiers p1)), p1))"

section \<open>Lemmas\<close>

lemma bound_simps [simp]: "bound (Inl e) h s = (bad_request e, s)" "bound (Inr b) h s = h b s"
  by (simp_all add: bound_def)

text \<open>A request that only asks for the history of a node pays it.\<close>

lemma history_pays:
  assumes "rq_query r ''node_id'' = n" and "n \<noteq> ''''" and "calculatePayoutInternal R E p now n now st = (Inr po, st1)"
    and "f_lt (f_int 0) (po_Amount po)"
  shows "payoutHistoryHandler R E p now r st = ((200, Inr (Some (n, po))), snd (RecordPayout R n (pe_marshal E po) st1))"
  using assms by (simp add: payoutHistoryHandler_def CalculatePayout_def)

text \<open>A key with a scope and no time of expiry is accepted by the gateway, at any time, with that scope.\<close>

lemma key_passes:
  assumes "hash_server R H" and "map_of (H st (apikey_key sha k)) ''scope'' = Some s" and "s \<noteq> ''''"
    and "map_of (H st (apikey_key sha k)) ''expires_at'' = None"
    and "auth_header r = ''Bearer '' @ k" and "\<not> auth_exempt (rq_path r)" and "k \<noteq> ''''"
  shows "fst (authMiddleware (Some (Some R)) sha now r st) = (Next, \<lparr>ax_key = Some k, ax_scope = Some s\<rparr>)"
proof -
  have "H st (apikey_key sha k) \<noteq> []" using assms(2) by auto
  from ValidateKey_hash [OF assms(1) this, of now] have v: "fst (ValidateKey (Some R) sha now k st) = (s, None)"
    using assms(2,4) by simp
  have p: "presented_key (''Bearer '' @ k) = k"
    using assms(7) by (simp add: presented_key_def del: append.simps)
  obtain st' where "ValidateKey (Some R) sha now k st = ((s, None), st')" using v by (metis prod.collapse)
  then show ?thesis
    using assms(3,5,6) p by (simp add: authMiddleware_def Let_def del: append.simps)
qed

text \<open>C9: Whoever sends any text as the administrators' key is served: a key of scope \<open>*\<close> that is asked for is created, and the
  gateway accepts it from then on, whatever scope a route asks.\<close>

theorem admin_mints_keys:
  assumes "hash_server R H" and "rq_header r0 ''X-Admin-Key'' \<noteq> ''''" and "H st (apikey_key sha k) = []" and "k \<noteq> ''''"
    and "auth_header r = ''Bearer '' @ k" and "\<not> auth_exempt (rq_path r)"
  shows "adminAuthMiddleware r0 = Next \<and>
    (\<exists>key st1. createAPIKeyHandler R sha k now (Inr (name, 0, ''*'')) st = ((201, Inr key), st1) \<and> ak_Key key = k \<and>
       (\<forall>now' m. \<exists>ctx. fst (authMiddleware (Some (Some R)) sha now' r st1) = (Next, ctx) \<and>
          (m \<in> set validScopes \<longrightarrow> requireMinScope (Some (Some R)) m ctx = Next)))"
proof -
  obtain key st1 where c: "CreateKey R sha k now name 0 ''*'' st = (Inr key, st1)" and kk: "ak_Key key = k"
  proof -
    obtain x s' where h: "cHSet R (apikey_key sha k)
        [(''name'', name), (''scope'', ''*''), (''created_at'', show_int (unix_now now))] st = (x, s')" by fastforce
    then have "\<exists>m. x = Inr m" using hash_server_HSet(1) [OF assms(1) h] by simp
    with h show thesis by (intro that) (auto simp: CreateKey_def validScopes_def Let_def)
  qed
  note facts = CreateKey_stores [OF assms(1) c]
  have ne: "H st1 (apikey_key sha k) \<noteq> []" using facts(2) by simp
  have s: "ak_Scope key = ''*''" using facts(1) by (simp add: validScopes_def)
  have e: "map_of (H st1 (apikey_key sha k)) ''expires_at'' = None" using facts(4) [OF ne] assms(3) by simp
  have p: "fst (authMiddleware (Some (Some R)) sha now' r st1) = (Next, \<lparr>ax_key = Some k, ax_scope = Some ''*''\<rparr>)" for now'
    by (rule key_passes [OF assms(1)]) (use facts(3) [OF ne] s e assms in simp_all)
  have q: "requireMinScope (Some (Some R)) m \<lparr>ax_key = Some k, ax_scope = Some ''*''\<rparr> = Next" for m
    by (simp add: requireMinScope_def scopeLevel_def)
  have h: "createAPIKeyHandler R sha k now (Inr (name, 0, ''*'')) st = ((201, Inr key), st1)"
    using c by (simp add: createAPIKeyHandler_def answer_def)
  show ?thesis using assms(2) h kk p q by (auto simp: adminAuthMiddleware_def)
qed

text \<open>Updating the scope of a key that does not exist, because it was revoked or was never made, creates it: a key whose hash is
  in the path is accepted from then on, with no expiry.\<close>

theorem patched_hash_accepted:
  assumes "hash_server R H" and "H st (apikey_key sha k) = []" and "scope \<in> set validScopes" and "k \<noteq> ''''"
    and "auth_header r = ''Bearer '' @ k" and "\<not> auth_exempt (rq_path r)"
  shows "\<exists>st1. updateAPIKeyScopeHandler R (sha k) (Inr scope) st = ((200, Inr scope), st1) \<and>
     (\<forall>now. fst (authMiddleware (Some (Some R)) sha now r st1) = (Next, \<lparr>ax_key = Some k, ax_scope = Some scope\<rparr>))"
proof -
  obtain x st1 where h: "cHSet R (apikey_key sha k) [(''scope'', scope)] st = (x, st1)" by fastforce
  note facts = hash_server_HSet [OF assms(1) h, simplified]
  obtain m where x: "x = Inr m" using facts(1) by blast
  have "updateAPIKeyScopeHandler R (sha k) (Inr scope) st = ((200, Inr scope), st1)"
    using assms(3) h x by (simp add: updateAPIKeyScopeHandler_def UpdateScope_def apikey_key_def answer_err_def)
  moreover have "fst (authMiddleware (Some (Some R)) sha now r st1) = (Next, \<lparr>ax_key = Some k, ax_scope = Some scope\<rparr>)" for now
    by (rule key_passes [OF assms(1)]) (use facts(3) assms in \<open>auto simp: validScopes_def\<close>)
  ultimately show ?thesis by blast
qed

definition key_request :: http_req where
  "key_request = \<lparr>rq_method = ''GET'', rq_path = ''/proxy/x'', rq_clientIP = ''c'',
     rq_header = (\<lambda>h. if h = ''Authorization'' then ''Bearer k'' else if h = ''X-Admin-Key'' then ''x'' else ''''), rq_query = (\<lambda>_. ''''), rq_contentLength = 0\<rparr>"

lemma key_request_facts:
  "auth_header key_request = ''Bearer '' @ ''k''" "\<not> auth_exempt (rq_path key_request)" "rq_header key_request ''X-Admin-Key'' \<noteq> ''''"
  by (simp_all add: key_request_def auth_header_def auth_exempt_def has_prefix_def Let_def)

theorem admin_mints_keys_witness:
  "\<forall>now' m. \<exists>ctx. fst (authMiddleware (Some (Some mem_redis)) id now' key_request
       (snd (createAPIKeyHandler mem_redis id ''k'' 0 (Inr (''n'', 0, ''*'')) mem_empty))) = (Next, ctx) \<and>
     (m \<in> set validScopes \<longrightarrow> requireMinScope (Some (Some mem_redis)) m ctx = Next)"
proof -
  have "m_hash mem_empty (apikey_key id ''k'') = []" by (simp add: mem_empty_def)
  from admin_mints_keys [OF mem_hash_server key_request_facts(3) this _ key_request_facts(1,2), of 0 "''n''"]
  show ?thesis by fastforce
qed

theorem patched_hash_accepted_witness:
  "\<forall>now. fst (authMiddleware (Some (Some mem_redis)) id now key_request
      (snd (updateAPIKeyScopeHandler mem_redis ''k'' (Inr ''admin'') mem_empty))) = (Next, \<lparr>ax_key = Some ''k'', ax_scope = Some ''admin''\<rparr>)"
proof -
  have "m_hash mem_empty (apikey_key id ''k'') = []" by (simp add: mem_empty_def)
  from patched_hash_accepted [OF mem_hash_server this _ _ key_request_facts(1,2), of "''admin''"]
  show ?thesis by (fastforce simp: validScopes_def)
qed

end
