(* ===== verification/Web_Ui.thy ===== *)
theory Web_Ui
  imports Admin_Nodes Redis_Mem "HOL-Library.Sublist"
begin

text \<open>
  The handlers of the web interface (\<open>gateway/web/webui.go\<close>). Its dashboard is a static file. The routes have no middleware of
  their own, so any client reaches them; the last section shows what ejecting a node removes from the server.
\<close>

section \<open>What the interface reads\<close>

text \<open>The node and its load; a node that cannot be read is left out, a load that cannot be read is zero.\<close>

definition NodesAPIHandler :: "'r redis \<Rightarrow> time \<Rightarrow> 'r \<Rightarrow> (node \<times> int) list resp \<times> 'r" where
  "NodesAPIHandler R now st = (case GetAllNodes R st of
       (Inl _, st1) \<Rightarrow> ((500, Inl ''failed to get nodes''), st1)
     | (Inr ids, st1) \<Rightarrow>
         (case each (\<lambda>i s. case GetNode R now i s of
                 (Inl _, s1) \<Rightarrow> (None, s1)
               | (Inr nd, s1) \<Rightarrow> (case GetNodeLoad R i s1 of ((load, _), s2) \<Rightarrow> (Some (nd, load), s2))) ids st1 of
            (xs, st2) \<Rightarrow> ((200, Inr xs), st2)))"

definition CooldownsAPIHandler :: "'r redis \<Rightarrow> 'r \<Rightarrow> (string \<times> string list) list resp \<times> 'r" where
  "CooldownsAPIHandler R st = (case GetCooldownEntries R st of
       (Inl _, st1) \<Rightarrow> ((500, Inl ''failed to get cooldowns''), st1)
     | (Inr entries, st1) \<Rightarrow> ((200, Inr entries), st1))"

definition HealthAPIHandler :: "string list \<Rightarrow> matchmaker \<Rightarrow> peerHealth list resp" where
  "HealthAPIHandler order m = (case peer_GetTopPeers order 20 (mm_health m) of None \<Rightarrow> panicked | Some peers \<Rightarrow> (200, Inr peers))"

definition NodeHealthAPIHandler :: "string \<Rightarrow> matchmaker \<Rightarrow> (string \<times> peerHealth) resp" where
  "NodeHealthAPIHandler nodeID m = (case peer_GetScore nodeID (mm_health m) of
       None \<Rightarrow> (404, Inl ''No health score available'') | Some score \<Rightarrow> (200, Inr (nodeID, score)))"

definition NodeHealthHistoryAPIHandler :: "hlib \<Rightarrow> 'r redis option \<Rightarrow> string \<Rightarrow> 'r \<Rightarrow> (string \<times> healthScorePoint list) resp \<times> 'r" where
  "NodeHealthHistoryAPIHandler lib h nodeID st = (case peer_GetHistory lib h nodeID st of (history, st1) \<Rightarrow> ((200, Inr (nodeID, history)), st1))"

section \<open>What it changes\<close>

definition web_ResetCircuitBreakerHandler :: "string \<Rightarrow> matchmaker \<Rightarrow> string resp \<times> matchmaker" where
  "web_ResetCircuitBreakerHandler nodeID m = (if nodeID = '''' then (bad_request ''node_id required'', m)
     else ((200, Inr ''Circuit breaker reset''), ResetCircuitBreaker nodeID m))"

definition EjectNodeHandler :: "'r redis \<Rightarrow> string \<Rightarrow> 'r \<Rightarrow> unit resp \<times> 'r" where
  "EjectNodeHandler R nodeID st = (if nodeID = '''' then (bad_request ''node_id required'', st)
     else (case DeregisterNode R nodeID st of
         (Some e, st1) \<Rightarrow> ((500, Inl (err_text e)), st1)
       | (None, st1) \<Rightarrow> ((200, Inr ()), st1)))"

section \<open>Ejecting a node\<close>

text \<open>
  Patterns of KEYS: a star stands for any characters; the other special characters are the question mark, the brackets and
  the backslash, and a pattern without them is \<open>plain\<close>.
\<close>

fun glob :: "string \<Rightarrow> string \<Rightarrow> bool" where
  "glob [] k = (k = [])"
| "glob (c # p) [] = (c = CHR ''*'' \<and> glob p [])"
| "glob (c # p) (d # k) = (if c = CHR ''*'' then glob p (d # k) \<or> glob (c # p) k else c = d \<and> glob p k)"

definition plain :: "string \<Rightarrow> bool" where
  "plain s = list_all (\<lambda>c. c \<notin> set ''?[]'' \<and> c \<noteq> CHR 0x5C) s"

text \<open>
  Documented behaviour of KEYS and DEL on a server that answers them, for the keys \<open>P s\<close> that exist: KEYS lists keys that match
  the pattern, all that are there afterwards among them, and DEL removes the keys it is given. Meanwhile keys may expire, those
  with no expiry (\<open>stays\<close>) do not.
\<close>

definition keys_server :: "'r redis \<Rightarrow> ('r \<Rightarrow> string \<Rightarrow> bool) \<Rightarrow> (string \<Rightarrow> bool) \<Rightarrow> bool" where
  "keys_server R P stays \<longleftrightarrow>
     (\<forall>p s. plain p \<longrightarrow> (\<exists>ks s'. cKeys R p s = (Inr ks, s') \<and> (\<forall>k. P s' k \<longrightarrow> P s k) \<and> (\<forall>k. P s k \<and> stays k \<longrightarrow> P s' k) \<and>
        (\<forall>k. P s' k \<and> glob p k \<longrightarrow> k \<in> set ks) \<and> (\<forall>k \<in> set ks. glob p k))) \<and>
     (\<forall>ks s. ks \<noteq> [] \<longrightarrow> (\<exists>n s'. cDel R ks s = (Inr n, s') \<and> (\<forall>k. P s' k \<longrightarrow> P s k \<and> k \<notin> set ks) \<and>
        (\<forall>k. P s k \<and> stays k \<and> k \<notin> set ks \<longrightarrow> P s' k)))"

lemma glob_star: "glob (CHR ''*'' # p) k \<longleftrightarrow> (\<exists>n. glob p (drop n k))"
proof (induction k)
  case (Cons d k)
  show ?case (is "?l \<longleftrightarrow> (\<exists>n. ?r n)")
  proof
    assume ?l
    then consider "glob p (d # k)" | "glob (CHR ''*'' # p) k" by auto
    then show "\<exists>n. ?r n"
      by cases (use Cons.IH in \<open>metis drop_0 drop_Suc_Cons\<close>)+
  next
    assume "\<exists>n. ?r n"
    then obtain n where "?r n" ..
    then show ?l by (cases n) (use Cons.IH in auto)
  qed
qed simp

lemma glob_prefix: "CHR ''*'' \<notin> set p \<Longrightarrow> glob (p @ ''*'') k \<longleftrightarrow> prefix p k"
proof (induction p arbitrary: k)
  case Nil
  have "glob ''*'' k" by (induction k) simp_all
  then show ?case by simp
next
  case (Cons c p)
  then show ?case by (cases k) auto
qed

lemma glob_substring: "CHR ''*'' \<notin> set i \<Longrightarrow> glob (''*'' @ i @ ''*'') k \<longleftrightarrow> sublist i k"
proof -
  assume i: "CHR ''*'' \<notin> set i"
  have s: "(\<exists>n. prefix i (drop n k)) \<longleftrightarrow> (\<exists>t. suffix t k \<and> prefix i t)"
    by (metis append_eq_conv_conj suffix_def suffix_drop)
  show "glob (''*'' @ i @ ''*'') k \<longleftrightarrow> sublist i k"
    unfolding sublist_altdef' s [symmetric] using glob_prefix [OF i] by (simp add: glob_star)
qed

lemma glob_all: "glob ''***'' k"
  by (induction k) simp_all

lemma RemoveNode_removes:
  assumes "keys_server R P stays" and "plain nodeID"
  obtains s' where "RemoveNode R nodeID st = (None, s')"
    and "\<And>k. P s' k \<Longrightarrow> P st k \<and> \<not> glob (''*'' @ nodeID @ ''*'') k"
    and "\<And>k. P st k \<Longrightarrow> stays k \<Longrightarrow> \<not> glob (''*'' @ nodeID @ ''*'') k \<Longrightarrow> P s' k"
proof -
  have "plain (''*'' @ nodeID @ ''*'')" using assms(2) by (simp add: plain_def)
  then obtain ks s1 where ks: "cKeys R (''*'' @ nodeID @ ''*'') st = (Inr ks, s1)" "\<forall>k. P s1 k \<longrightarrow> P st k"
      "\<forall>k. P st k \<and> stays k \<longrightarrow> P s1 k" "\<forall>k. P s1 k \<and> glob (''*'' @ nodeID @ ''*'') k \<longrightarrow> k \<in> set ks"
      "\<forall>k \<in> set ks. glob (''*'' @ nodeID @ ''*'') k"
    using assms(1) unfolding keys_server_def by blast
  show thesis
  proof (cases "ks = []")
    case True
    with ks(1) have "RemoveNode R nodeID st = (None, s1)" by (simp add: RemoveNode_def)
    then show thesis by (rule that) (use ks(2-4) True in auto)
  next
    case False
    then obtain n s' where d: "cDel R ks s1 = (Inr n, s')" "\<forall>k. P s' k \<longrightarrow> P s1 k \<and> k \<notin> set ks"
        "\<forall>k. P s1 k \<and> stays k \<and> k \<notin> set ks \<longrightarrow> P s' k"
      using assms(1) unfolding keys_server_def by blast
    have "RemoveNode R nodeID st = (None, s')" using ks(1) d(1) False by (simp add: RemoveNode_def)
    then show thesis by (rule that) (use ks(2-5) d(2,3) in blast)+
  qed
qed


text \<open>A server of keys: the list under the empty key holds the names of the keys.\<close>

definition key_redis :: "mem redis" where
  "key_redis = mem_redis\<lparr>cKeys := (\<lambda>p s. (Inr (filter (glob p) (m_list s '''')), s)),
     cDel := (\<lambda>ks s. (Inr (int (length ks)), s\<lparr>m_list := (m_list s)('''' := filter (\<lambda>k. k \<notin> set ks) (m_list s ''''))\<rparr>))\<rparr>"

lemma key_redis_server: "keys_server key_redis (\<lambda>s k. k \<in> set (m_list s '''')) stays"
  by (auto simp: keys_server_def key_redis_def)


end
