(* ===== verification/Logger.thy ===== *)
theory Logger
  imports Config Go_Chan Http Json
begin

text \<open>
  What the program tells the outside: the logger (\<open>gateway/logger.go\<close>), the counters as text (\<open>gateway/metrics.go\<close>) and the
  loop that pushes them (\<open>gateway/prometheus.go\<close>). What is written is a list of sinks and lines; the JSON of an entry, the clock
  and the HTTP client are parameters.
\<close>

section \<open>The logger\<close>

datatype logLevel = LevelInfo | LevelWarn | LevelError | LevelDebug

fun level_name :: "logLevel \<Rightarrow> string" where
  "level_name LevelInfo = ''info''"
| "level_name LevelWarn = ''warn''"
| "level_name LevelError = ''error''"
| "level_name LevelDebug = ''debug''"

record logRecord =
  lo_Timestamp :: string
  lo_Level :: string
  lo_Message :: string
  lo_Fields :: "(string \<times> json) list"

datatype sink = Stdout | File string

record logger =
  lr_output :: sink
  lr_minLevel :: logLevel

text \<open>The variables of the package, whether \<open>once\<close> has run, whether Go's own logger is silenced, and what has been written.\<close>

record logs =
  ls_logger :: "logger option"
  ls_once :: bool
  ls_discard :: bool
  ls_written :: "(sink \<times> string) list"

record log_env =
  ln_stamp :: "nat \<Rightarrow> string"
  ln_marshal :: "logRecord \<Rightarrow> string"

text \<open>\<open>opens\<close> tells whether the file can be opened.\<close>

definition InitLogger :: "(string \<Rightarrow> bool) \<Rightarrow> logLevel \<Rightarrow> string \<Rightarrow> logs \<Rightarrow> logs" where
  "InitLogger opens level outputPath s = (if ls_once s then s
     else s\<lparr>ls_once := True, ls_discard := True,
            ls_logger := Some \<lparr>lr_output = (if outputPath \<noteq> '''' \<and> opens outputPath then File outputPath else Stdout), lr_minLevel = level\<rparr>\<rparr>)"

definition getLogger :: "logs \<Rightarrow> logger \<times> logs" where
  "getLogger s = (case ls_logger s of
       Some l \<Rightarrow> (l, s)
     | None \<Rightarrow> (let l = \<lparr>lr_output = Stdout, lr_minLevel = LevelInfo\<rparr> in (l, s\<lparr>ls_logger := Some l\<rparr>)))"

text \<open>Levels are strings and are compared as such. The entry is stamped by the clock's reading for the line.\<close>

definition lg_log :: "log_env \<Rightarrow> logger \<Rightarrow> logLevel \<Rightarrow> string \<Rightarrow> (string \<times> json) list \<Rightarrow> logs \<Rightarrow> logs" where
  "lg_log E l level msg fs s =
     (if str_less (level_name level) (level_name (lr_minLevel l)) then s
      else let entry = \<lparr>lo_Timestamp = ln_stamp E (length (ls_written s)), lo_Level = level_name level, lo_Message = msg, lo_Fields = fs\<rparr>
        in s\<lparr>ls_written := ls_written s @ [(lr_output l, ln_marshal E entry @ [CHR 0x0A])]\<rparr>)"

definition lg_at :: "logLevel \<Rightarrow> log_env \<Rightarrow> string \<Rightarrow> (string \<times> json) list \<Rightarrow> logs \<Rightarrow> logs" where
  "lg_at level E msg fs s = (case getLogger s of (l, s1) \<Rightarrow> lg_log E l level msg fs s1)"

definition lg_Info :: "log_env \<Rightarrow> string \<Rightarrow> (string \<times> json) list \<Rightarrow> logs \<Rightarrow> logs" where "lg_Info = lg_at LevelInfo"
definition lg_Error :: "log_env \<Rightarrow> string \<Rightarrow> (string \<times> json) list \<Rightarrow> logs \<Rightarrow> logs" where "lg_Error = lg_at LevelError"
definition lg_Warn :: "log_env \<Rightarrow> string \<Rightarrow> (string \<times> json) list \<Rightarrow> logs \<Rightarrow> logs" where "lg_Warn = lg_at LevelWarn"
definition lg_Debug :: "log_env \<Rightarrow> string \<Rightarrow> (string \<times> json) list \<Rightarrow> logs \<Rightarrow> logs" where "lg_Debug = lg_at LevelDebug"

text \<open>
  The middleware, around the other handlers: the id of the request it sets before them, and the line it writes after them. The id that an
  earlier middleware set is \<open>given\<close>; \<open>nano\<close> is the clock in nanoseconds.
\<close>

definition request_id_of :: "string option \<Rightarrow> int \<Rightarrow> string" where
  "request_id_of given nano = (case given of None \<Rightarrow> show_int nano | Some i \<Rightarrow> if i = '''' then show_int nano else i)"

definition lg_RequestLogger ::
    "log_env \<Rightarrow> http_req \<Rightarrow> string option \<Rightarrow> int \<Rightarrow> time \<Rightarrow> time \<Rightarrow> int \<Rightarrow> logs \<Rightarrow> string \<times> logs" where
  "lg_RequestLogger E r given nano start fin status s =
     (let requestID = request_id_of given nano
      in (requestID, lg_Info E ''Request processed''
            [(''request_id'', JStr requestID), (''client_ip'', JStr (rq_clientIP r)), (''method'', JStr (rq_method r)), (''path'', JStr (rq_path r)),
             (''status'', JNum (f_int status)), (''latency_ms'', JNum (f_int (time_sub fin start sdiv 1000000)))] s))"

section \<open>The counters as text\<close>

definition metric_text :: "string \<Rightarrow> string \<Rightarrow> string \<Rightarrow> string \<Rightarrow> string" where
  "metric_text n help kind v = ''# HELP '' @ n @ '' '' @ help @ [CHR 0x0A] @ ''# TYPE '' @ n @ '' '' @ kind @ [CHR 0x0A] @ n @ '' '' @ v @ [CHR 0x0A]"

text \<open>\<open>dec\<close> is the format \<open>%.2f\<close>, \<open>uptime\<close> the seconds since the start.\<close>

definition avg_latency :: "metrics \<Rightarrow> f64" where
  "avg_latency m = (if 0 < uint (mt_latencyCount m) then f_div (f_int (uint (mt_latencyTotalMs m))) (f_int (uint (mt_latencyCount m))) else f_int 0)"

definition metrics_String :: "(f64 \<Rightarrow> string) \<Rightarrow> f64 \<Rightarrow> metrics \<Rightarrow> string" where
  "metrics_String dec uptime m = join_sep [CHR 0x0A]
     [metric_text ''proxymesh_requests_total'' ''Total requests received'' ''counter'' (show_int (uint (mt_requestsTotal m))),
      metric_text ''proxymesh_requests_success'' ''Successful requests'' ''counter'' (show_int (uint (mt_requestsSuccess m))),
      metric_text ''proxymesh_requests_failed'' ''Failed requests'' ''counter'' (show_int (uint (mt_requestsFailed m))),
      metric_text ''proxymesh_rate_limited'' ''Rate limited requests'' ''counter'' (show_int (uint (mt_rateLimited m))),
      metric_text ''proxymesh_nodes_selected'' ''Nodes selected for proxy'' ''counter'' (show_int (uint (mt_nodesSelected m))),
      metric_text ''proxymesh_active_sessions'' ''Active proxy sessions'' ''gauge'' (show_int (uint (mt_activeSessions m))),
      metric_text ''proxymesh_avg_latency_ms'' ''Average request latency in milliseconds'' ''gauge'' (dec (avg_latency m)),
      metric_text ''proxymesh_uptime_seconds'' ''Gateway uptime in seconds'' ''gauge'' (dec uptime)]"

section \<open>The pusher\<close>

record pusher =
  pu_enabled :: bool
  pu_gatewayURL :: string
  pu_interval :: duration
  pu_jobName :: string
  pu_stopCh :: "nat option"

definition NewPrometheusPusher :: "prometheusConfig \<Rightarrow> unit chans \<Rightarrow> pusher \<times> unit chans" where
  "NewPrometheusPusher cfg cs =
     (if \<not> pm_Enabled cfg then (\<lparr>pu_enabled = False, pu_gatewayURL = '''', pu_interval = 0, pu_jobName = '''', pu_stopCh = None\<rparr>, cs)
      else (case make_chan 0 cs of (i, cs1) \<Rightarrow>
        (\<lparr>pu_enabled = True, pu_gatewayURL = pm_PushGatewayURL cfg, pu_interval = i64 (pm_PushIntervalSeconds cfg * go_second),
          pu_jobName = pm_JobName cfg, pu_stopCh = Some i\<rparr>, cs1)))"

text \<open>The client: the error of making a request for a URL, the outcome of sending a text to it. The state is the client's and the logs.\<close>

record 'w push_env =
  pv_newReq :: "string \<Rightarrow> go_err option"
  pv_post :: "string \<Rightarrow> string \<Rightarrow> 'w \<Rightarrow> (go_err + int) \<times> 'w"
  pv_text :: "nat \<Rightarrow> string"
  pv_log :: log_env

text \<open>The \<open>n\<close>th push; its text is what the counters show then.\<close>

definition pu_push :: "'w push_env \<Rightarrow> nat \<Rightarrow> pusher \<Rightarrow> 'w \<times> logs \<Rightarrow> 'w \<times> logs" where
  "pu_push V n p = (\<lambda>(w, s).
     if pu_gatewayURL p = '''' then (w, s)
     else let url = pu_gatewayURL p @ ''/metrics/job/'' @ pu_jobName p in
       (case pv_newReq V url of
          Some e \<Rightarrow> (w, lg_Error (pv_log V) ''Failed to create prometheus push request'' [(''error'', JStr (err_text e))] s)
        | None \<Rightarrow> (case pv_post V url (pv_text V n) w of
              (Inl e, w1) \<Rightarrow> (w1, lg_Error (pv_log V) ''Failed to push to prometheus gateway'' [(''error'', JStr (err_text e))] s)
            | (Inr status, w1) \<Rightarrow> (w1, if status \<ge> 400
                then lg_Warn (pv_log V) ''Prometheus gateway returned error'' [(''status'', JNum (f_int status))] s else s))))"

text \<open>What \<open>select\<close> takes, one after the other; the loop ends with the first receive from the closed channel.\<close>

datatype push_event = Tick | Stopped

fun pu_run :: "'w push_env \<Rightarrow> nat \<Rightarrow> pusher \<Rightarrow> push_event list \<Rightarrow> 'w \<times> logs \<Rightarrow> 'w \<times> logs" where
  "pu_run V n p [] ws = ws"
| "pu_run V n p (Tick # es) ws = pu_run V (Suc n) p es (pu_push V n p ws)"
| "pu_run V n p (Stopped # es) ws = pu_push V n p ws"

text \<open>The goroutine's outcome: \<open>time.NewTicker\<close> panics on an interval that is not positive, and nothing recovers.\<close>

definition pu_Start :: "'w push_env \<Rightarrow> pusher \<Rightarrow> push_event list \<Rightarrow> 'w \<times> logs \<Rightarrow> ('w \<times> logs) option" where
  "pu_Start V p es ws = (if \<not> pu_enabled p then Some ws else if pu_interval p \<le> 0 then None else Some (pu_run V 0 p es ws))"

definition pu_Stop :: "pusher \<Rightarrow> unit chans \<Rightarrow> unit chans option" where
  "pu_Stop p cs = (if \<not> pu_enabled p then Some cs else go_close (pu_stopCh p) cs)"

section \<open>Lemmas\<close>

lemma level_order:
  "str_less (level_name a) (level_name b) \<longleftrightarrow>
     (a, b) \<in> set [(LevelDebug, LevelError), (LevelDebug, LevelInfo), (LevelDebug, LevelWarn), (LevelError, LevelInfo), (LevelError, LevelWarn), (LevelInfo, LevelWarn)]"
  by (cases a; cases b; simp; code_simp)

text \<open>An interval of no seconds, which nothing in the configuration refuses, ends the program.\<close>

lemma no_interval_panics:
  assumes "NewPrometheusPusher cfg cs = (p, cs1)" and "pm_Enabled cfg" and "pm_PushIntervalSeconds cfg = 0"
  shows "pu_Start V p es ws = None"
  using assms by (auto simp: NewPrometheusPusher_def pu_Start_def split_beta i64_def)

lemma stop_once:
  assumes "NewPrometheusPusher cfg cs = (p, cs1)" and "pm_Enabled cfg"
  shows "\<exists>cs2. pu_Stop p cs1 = Some cs2 \<and> pu_Stop p cs2 = None"
  using assms by (auto simp: NewPrometheusPusher_def pu_Stop_def make_chan_def go_close_def nth_append split_beta)

text \<open>A loop that is stopped pushes once for each tick before, and once more.\<close>

lemma stopped_loop_pushes:
  "pu_run V n p (replicate k Tick @ Stopped # es) ws = fold (\<lambda>i. pu_push V i p) [n..<n + k + 1] ws"
  by (induction k arbitrary: n ws) (simp_all add: upt_rec)

text \<open>A call of the logger, and a sequence of calls.\<close>

type_synonym log_call = "logLevel \<times> string \<times> (string \<times> json) list"

definition run_logs :: "log_env \<Rightarrow> log_call list \<Rightarrow> logs \<Rightarrow> logs" where
  "run_logs E cs = fold (\<lambda>(level, msg, fs). lg_at level E msg fs) cs"

definition kept :: "logLevel \<Rightarrow> log_call \<Rightarrow> bool" where
  "kept m c = (\<not> str_less (level_name (fst c)) (level_name m))"

definition log_line :: "log_env \<Rightarrow> nat \<Rightarrow> log_call \<Rightarrow> string" where
  "log_line E i c = (case c of (level, msg, fs) \<Rightarrow>
     ln_marshal E \<lparr>lo_Timestamp = ln_stamp E i, lo_Level = level_name level, lo_Message = msg, lo_Fields = fs\<rparr> @ [CHR 0x0A])"

lemma run_logs_kept:
  assumes "ls_logger s = Some l"
  shows "ls_written (run_logs E cs s) = ls_written s @
    map (\<lambda>(i, c). (lr_output l, log_line E i c)) (enumerate (length (ls_written s)) (filter (kept (lr_minLevel l)) cs))"
  using assms
proof (induction cs arbitrary: s)
  case (Cons c cs)
  obtain level msg fs where c: "c = (level, msg, fs)" by (cases c)
  let ?s = "lg_at level E msg fs s"
  have l: "ls_logger ?s = Some l" using Cons.prems by (simp add: lg_at_def getLogger_def lg_log_def Let_def)
  have w: "ls_written ?s = ls_written s @ (if kept (lr_minLevel l) c then [(lr_output l, log_line E (length (ls_written s)) c)] else [])"
    using Cons.prems by (simp add: c lg_at_def getLogger_def lg_log_def kept_def log_line_def Let_def)
  have "run_logs E (c # cs) s = run_logs E cs ?s" by (simp add: c run_logs_def)
  with Cons.IH [OF l] w show ?case by simp
qed (simp add: run_logs_def)

lemma kept_info: "kept LevelInfo = (\<lambda>c. fst c = LevelInfo \<or> fst c = LevelWarn)"
proof
  fix c :: log_call
  show "kept LevelInfo c = (fst c = LevelInfo \<or> fst c = LevelWarn)"
    unfolding kept_def level_order by (cases "fst c") simp_all
qed

text \<open>C29: Once the gateway has set the logger up, the lines written are those of the calls at the levels \<open>info\<close> and \<open>warn\<close>, in order:
  no error is ever logged, because levels are compared as strings and \<open>error\<close> comes before \<open>info\<close>.\<close>

theorem errors_never_logged:
  assumes "\<not> ls_once s"
  shows "ls_written (run_logs E cs (InitLogger opens LevelInfo path s)) = ls_written s @
     map (\<lambda>(i, c). (if path \<noteq> '''' \<and> opens path then File path else Stdout, log_line E i c))
       (enumerate (length (ls_written s)) (filter (\<lambda>c. fst c = LevelInfo \<or> fst c = LevelWarn) cs))"
proof -
  let ?o = "if path \<noteq> '''' \<and> opens path then File path else Stdout"
  have "ls_logger (InitLogger opens LevelInfo path s) = Some \<lparr>lr_output = ?o, lr_minLevel = LevelInfo\<rparr>"
    "ls_written (InitLogger opens LevelInfo path s) = ls_written s" using assms by (simp_all add: InitLogger_def)
  from run_logs_kept [OF this(1), of E cs] this(2) show ?thesis unfolding logger.simps kept_info by simp
qed

theorem errors_never_logged_witness:
  "map snd (ls_written (run_logs \<lparr>ln_stamp = (\<lambda>_. ''''), ln_marshal = lo_Message\<rparr>
       [(LevelError, ''push failed'', []), (LevelInfo, ''served'', []), (LevelDebug, ''x'', []), (LevelWarn, ''slow'', [])]
       (InitLogger (\<lambda>_. True) LevelInfo '''' \<lparr>ls_logger = None, ls_once = False, ls_discard = False, ls_written = []\<rparr>)))
   = [''served'' @ [CHR 0x0A], ''slow'' @ [CHR 0x0A]]"
  by (subst errors_never_logged) (simp_all add: log_line_def)

end
