(* ===== verification/Backup.thy ===== *)
theory Backup
  imports Redis_Api Json "HOL-Library.Multiset"
begin

text \<open>
  The backup script (\<open>scripts/backup.go\<close>): the entries of a backup, writing and restoring them, the sizes it shows. The commands it
  sends, the file system, the encoding of the file (JSON and gzip) and the order in which Go ranges over a map are parameters.
  \<open>log.Fatalf\<close> is the error it prints.
\<close>

section \<open>Data\<close>

text \<open>The values an entry may hold: the five Go types that \<open>backupKey\<close> stores, and the two that the JSON decoder makes besides strings.\<close>

datatype goval = VStr string | VMapStr "(string \<times> string) list" | VStrs "string list" | VScores "(string \<times> f64) list"
  | VNil | VMap json_map | VArr "json list" | VOther json

record backupEntry =
  be_Key :: string
  be_Type :: string
  be_TTL :: int
  be_Value :: goval

record backupMetadata =
  bm_Timestamp :: time
  bm_Keys :: int
  bm_Databases :: int
  bm_Size :: int
  bm_Entries :: "backupEntry list"

text \<open>The commands queued by a restore.\<close>

datatype restore_cmd =
    RSet string goval
  | RHSet string string json
  | RRPush string json
  | RSAdd string json
  | RZAdd string f64 json

record 'r backup_redis =
  bKeys :: "string \<Rightarrow> (string list, 'r) redis_cmd"
  bType :: "string \<Rightarrow> (string, 'r) redis_cmd"
  bTTL :: "string \<Rightarrow> (duration, 'r) redis_cmd"
  bGet :: "string \<Rightarrow> (string, 'r) redis_cmd"
  bHGetAll :: "string \<Rightarrow> ((string \<times> string) list, 'r) redis_cmd"
  bLRange :: "string \<Rightarrow> (string list, 'r) redis_cmd"
  bSMembers :: "string \<Rightarrow> (string list, 'r) redis_cmd"
  bZRange :: "string \<Rightarrow> ((string \<times> f64) list, 'r) redis_cmd"
  bExec :: "restore_cmd list \<Rightarrow> (unit, 'r) redis_cmd"

section \<open>Backing up\<close>

definition backup_value :: "'r backup_redis \<Rightarrow> string \<Rightarrow> string \<Rightarrow> 'r \<Rightarrow> (redis_err + goval) \<times> 'r" where
  "backup_value B key keyType st =
     (if keyType = ''string'' then (case bGet B key st of
             (Inl RedisNil, st1) \<Rightarrow> (Inr (VStr ''''), st1)
           | (Inl e, st1) \<Rightarrow> (Inl e, st1)
           | (Inr v, st1) \<Rightarrow> (Inr (VStr v), st1))
         else if keyType = ''hash'' then (case bHGetAll B key st of (res, st1) \<Rightarrow> (map_sum (\<lambda>e. e) VMapStr res, st1))
         else if keyType = ''list'' then (case bLRange B key st of (res, st1) \<Rightarrow> (map_sum (\<lambda>e. e) VStrs res, st1))
         else if keyType = ''set'' then (case bSMembers B key st of (res, st1) \<Rightarrow> (map_sum (\<lambda>e. e) VStrs res, st1))
         else if keyType = ''zset'' then (case bZRange B key st of (res, st1) \<Rightarrow> (map_sum (\<lambda>e. e) VScores res, st1))
         else (Inr VNil, st))"

text \<open>\<open>wild\<close> is the conversion of a \<open>float64\<close> that is not an \<open>int64\<close>.\<close>

definition backupKey :: "'r backup_redis \<Rightarrow> (f64 \<Rightarrow> int) \<Rightarrow> string \<Rightarrow> 'r \<Rightarrow> (redis_err + backupEntry) \<times> 'r" where
  "backupKey B wild key st = (case bType B key st of
       (Inl e, st1) \<Rightarrow> (Inl e, st1)
     | (Inr keyType, st1) \<Rightarrow> (case bTTL B key st1 of
           (Inl e, st2) \<Rightarrow> (Inl e, st2)
         | (Inr ttl, st2) \<Rightarrow> (case backup_value B key keyType st2 of
               (Inl e, st3) \<Rightarrow> (Inl e, st3)
             | (Inr v, st3) \<Rightarrow>
                 (Inr \<lparr>be_Key = key, be_Type = keyType, be_TTL = f_to_i64 wild (duration_seconds ttl), be_Value = v\<rparr>, st3))))"

fun json_text_sizes :: "json list \<Rightarrow> int" where
  "json_text_sizes [] = 0"
| "json_text_sizes (JStr s # xs) = int (length s) + json_text_sizes xs"
| "json_text_sizes (_ # xs) = json_text_sizes xs"

text \<open>The type switch: a \<open>map[string]string\<close>, a \<open>[]string\<close> and a \<open>[]map[string]interface{}\<close> are none of its cases.\<close>

fun value_size :: "goval \<Rightarrow> int" where
  "value_size (VStr v) = int (length v)"
| "value_size (VMap m) = json_text_sizes (map snd m)"
| "value_size (VArr xs) = json_text_sizes xs"
| "value_size _ = 0"

definition getEnvSize :: "backupEntry list \<Rightarrow> int" where
  "getEnvSize entries = fold (\<lambda>e n. i64 (n + int (length (be_Key e)) + value_size (be_Value e))) entries 0"

text \<open>Making the directory and the file; the text and bytes of the file.\<close>

record 'f backup_env =
  bv_mkdir :: "go_err option"
  bv_create :: "go_err option"
  bv_save :: "backupMetadata \<Rightarrow> go_err + 'f"
  bv_open :: "go_err option"
  bv_load :: "'f \<Rightarrow> go_err + backupMetadata"
  bv_range :: "json_map \<Rightarrow> json_map"
  bv_wild :: "f64 \<Rightarrow> int"

definition backup_entries :: "'r backup_redis \<Rightarrow> (f64 \<Rightarrow> int) \<Rightarrow> string list \<Rightarrow> 'r \<Rightarrow> backupEntry list \<times> 'r" where
  "backup_entries B wild = each (\<lambda>k s. case backupKey B wild k s of (Inl _, s1) \<Rightarrow> (None, s1) | (Inr e, s1) \<Rightarrow> (Some e, s1))"

definition doBackup :: "'r backup_redis \<Rightarrow> 'f backup_env \<Rightarrow> time \<Rightarrow> string \<Rightarrow> 'r \<Rightarrow> (string + 'f) \<times> 'r" where
  "doBackup B V now pattern st =
     (case bv_mkdir V of Some e \<Rightarrow> (Inl (''Failed to create backup directory: '' @ err_text e), st)
      | None \<Rightarrow> (case bv_create V of Some e \<Rightarrow> (Inl (''Failed to create backup file: '' @ err_text e), st)
      | None \<Rightarrow> (case bKeys B pattern st of
            (Inl e, st1) \<Rightarrow> (Inl (''Failed to scan keys: '' @ err_text (RErr e)), st1)
          | (Inr keys, st1) \<Rightarrow> (case backup_entries B (bv_wild V) keys st1 of (entries, st2) \<Rightarrow>
              (case bv_save V \<lparr>bm_Timestamp = now, bm_Keys = int (length entries), bm_Databases = 1, bm_Size = getEnvSize entries, bm_Entries = entries\<rparr> of
                 Inl e \<Rightarrow> (Inl (''Failed to write backup: '' @ err_text e), st2)
               | Inr f \<Rightarrow> (Inr f, st2))))))"

section \<open>Restoring\<close>

text \<open>A member that is not an object with a number under \<open>score\<close> is skipped; a member that is missing is nil.\<close>

definition zset_cmd :: "string \<Rightarrow> json \<Rightarrow> restore_cmd list" where
  "zset_cmd key item = (case item of
       JObj pair \<Rightarrow> (case get_num pair ''score'' of
           Some score \<Rightarrow> [RZAdd key score (case map_of pair ''member'' of Some m \<Rightarrow> m | None \<Rightarrow> JNull)] | None \<Rightarrow> [])
     | _ \<Rightarrow> [])"

definition restore_entry :: "(json_map \<Rightarrow> json_map) \<Rightarrow> backupEntry \<Rightarrow> restore_cmd list" where
  "restore_entry rng e =
     (let k = be_Key e; v = be_Value e
      in if be_Type e = ''string'' then [RSet k v]
         else if be_Type e = ''hash'' then (case v of VMap m \<Rightarrow> map (\<lambda>(f, x). RHSet k f x) (rng m) | _ \<Rightarrow> [])
         else if be_Type e = ''list'' then (case v of VArr xs \<Rightarrow> map (RRPush k) xs | _ \<Rightarrow> [])
         else if be_Type e = ''set'' then (case v of VArr xs \<Rightarrow> map (RSAdd k) xs | _ \<Rightarrow> [])
         else if be_Type e = ''zset'' then (case v of VArr xs \<Rightarrow> concat (map (zset_cmd k) xs) | _ \<Rightarrow> [])
         else [])"

text \<open>The error it ends with, if any.\<close>

definition doRestore :: "'r backup_redis \<Rightarrow> 'f backup_env \<Rightarrow> 'f \<Rightarrow> 'r \<Rightarrow> string option \<times> 'r" where
  "doRestore B V f st = (case bv_open V of Some e \<Rightarrow> (Some (''Failed to open backup file: '' @ err_text e), st)
     | None \<Rightarrow> (case bv_load V f of
           Inl e \<Rightarrow> (Some (err_text e), st)
         | Inr m \<Rightarrow> (case bExec B (concat (map (restore_entry (bv_range V)) (bm_Entries m))) st of
               (Inl e, st1) \<Rightarrow> (Some (''Failed to restore backup: '' @ err_text (RErr e)), st1)
             | (Inr _, st1) \<Rightarrow> (None, st1))))"

section \<open>Listing\<close>

text \<open>The loop: quotient, divisor and exponent.\<close>

function size_loop :: "int \<Rightarrow> int \<Rightarrow> nat \<Rightarrow> int \<times> nat" where
  "size_loop n dv ex = (if n \<ge> 1024 then size_loop (n sdiv 1024) (i64 (dv * 1024)) (Suc ex) else (dv, ex))"
  by auto

termination
proof (relation "measure (\<lambda>(n, _, _). nat n)")
  fix n :: int assume "n \<ge> 1024"
  then have "n sdiv 1024 < n" "0 \<le> n sdiv 1024" by (simp_all add: signed_divide_int_def sgn_if)
  then show "\<And>dv ex. ((n sdiv 1024, i64 (dv * 1024), Suc ex), n, dv, ex) \<in> measure (\<lambda>(n, _, _). nat n)" by simp
qed simp

declare size_loop.simps [simp del]

text \<open>\<open>dec\<close> is the format \<open>%.1f\<close>; an index past the letters panics.\<close>

definition formatSize :: "(f64 \<Rightarrow> string) \<Rightarrow> int \<Rightarrow> string option" where
  "formatSize dec bytes = (if bytes < 1024 then Some (show_int bytes @ '' B'')
     else (case size_loop (bytes sdiv 1024) 1024 0 of (dv, ex) \<Rightarrow>
       if ex < 6 then Some (dec (f_div (f_int bytes) (f_int dv)) @ '' '' @ [''KMGTPE'' ! ex] @ ''B'') else None))"

record dirEntry =
  de_Name :: string
  de_IsDir :: bool
  de_Info :: "(int \<times> string) option"

text \<open>The rows: names, sizes and times. An entry whose information is gone is nil, and panics.\<close>

fun backup_rows :: "(f64 \<Rightarrow> string) \<Rightarrow> dirEntry list \<Rightarrow> (string \<times> string \<times> string) list option" where
  "backup_rows dec [] = Some []"
| "backup_rows dec (d # ds) =
     (if de_IsDir d \<or> \<not> has_suffix (de_Name d) ''.json.gz'' then backup_rows dec ds
      else (case de_Info d of None \<Rightarrow> None
        | Some (bytes, stamp) \<Rightarrow> (case formatSize dec bytes of None \<Rightarrow> None
            | Some s \<Rightarrow> map_option ((#) (de_Name d, s, stamp)) (backup_rows dec ds))))"

definition listBackups :: "(f64 \<Rightarrow> string) \<Rightarrow> go_err + dirEntry list \<Rightarrow> (string + (string \<times> string \<times> string) list) option" where
  "listBackups dec dir = (case dir of Inl e \<Rightarrow> Some (Inl (''Failed to read backup directory: '' @ err_text e))
     | Inr ds \<Rightarrow> map_option Inr (backup_rows dec ds))"

section \<open>The command\<close>

datatype 'f backup_run = Fatal string | BackedUp 'f | Restored | Listed "(string \<times> string \<times> string) list" | Crashed

text \<open>\<open>file\<close> is None when the flag is empty.\<close>

definition backup_main ::
    "'r backup_redis \<Rightarrow> 'f backup_env \<Rightarrow> (f64 \<Rightarrow> string) \<Rightarrow> go_err + dirEntry list \<Rightarrow> go_err option \<Rightarrow> time \<Rightarrow>
      string \<Rightarrow> 'f option \<Rightarrow> string \<Rightarrow> 'r \<Rightarrow> 'f backup_run \<times> 'r" where
  "backup_main B V dec dir pinged now action file pattern st =
     (case pinged of Some e \<Rightarrow> (Fatal (''Failed to connect to Redis: '' @ err_text e), st)
      | None \<Rightarrow>
        if action = ''backup'' then (case doBackup B V now pattern st of
            (Inl e, st1) \<Rightarrow> (Fatal e, st1) | (Inr f, st1) \<Rightarrow> (BackedUp f, st1))
        else if action = ''restore'' then (case file of
            None \<Rightarrow> (Fatal ''Backup file is required for restore (use -file flag)'', st)
          | Some f \<Rightarrow> (case doRestore B V f st of (Some e, st1) \<Rightarrow> (Fatal e, st1) | (None, st1) \<Rightarrow> (Restored, st1)))
        else if action = ''list'' then (case listBackups dec dir of
            None \<Rightarrow> (Crashed, st) | Some (Inl e) \<Rightarrow> (Fatal e, st) | Some (Inr rows) \<Rightarrow> (Listed rows, st))
        else (Fatal (''Unknown action: '' @ action @ '' (use backup, restore, or list)''), st))"

text \<open>Only a backup and a restore do anything to the server.\<close>

lemma backup_main_reads:
  "action \<noteq> ''backup'' \<Longrightarrow> action \<noteq> ''restore'' \<Longrightarrow> snd (backup_main B V dec dir pinged now action file pattern st) = st"
  by (simp add: backup_main_def split: option.split sum.split)

section \<open>What a server holds\<close>

text \<open>The value at a key; aggregates as lists whose order matters only for lists. A value of a type the script does not
  know (a stream, a module's) is its type's name.\<close>

datatype rval = HStr string | HHash "(string \<times> string) list" | HList "string list" | HSet "string list" | HZset "(string \<times> f64) list"
  | HOther string

type_synonym db = "string \<Rightarrow> rval option"

fun type_name :: "rval \<Rightarrow> string" where
  "type_name (HStr _) = ''string''"
| "type_name (HHash _) = ''hash''"
| "type_name (HList _) = ''list''"
| "type_name (HSet _) = ''set''"
| "type_name (HZset _) = ''zset''"
| "type_name (HOther t) = t"

text \<open>No aggregate is empty, and a field or member occurs once.\<close>

fun wf_val :: "rval \<Rightarrow> bool" where
  "wf_val (HStr s) = True"
| "wf_val (HHash h) = (h \<noteq> [] \<and> distinct (map fst h))"
| "wf_val (HList xs) = (xs \<noteq> [])"
| "wf_val (HSet xs) = (xs \<noteq> [] \<and> distinct xs)"
| "wf_val (HZset zs) = (zs \<noteq> [] \<and> distinct (map fst zs))"
| "wf_val (HOther t) = (t \<notin> {''string'', ''hash'', ''list'', ''set'', ''zset''})"

fun same_val :: "rval \<Rightarrow> rval \<Rightarrow> bool" where
  "same_val (HStr s) (HStr t) = (s = t)"
| "same_val (HHash h) (HHash g) = (map_of h = map_of g)"
| "same_val (HList xs) (HList ys) = (xs = ys)"
| "same_val (HSet xs) (HSet ys) = (set xs = set ys)"
| "same_val (HZset zs) (HZset ws) = (map_of zs = map_of ws)"
| "same_val _ _ = False"

text \<open>The names inside a value: the fields of a hash, the members of a sorted set. Changing the texts that are not names.\<close>

fun name_texts :: "rval \<Rightarrow> string list" where
  "name_texts (HHash h) = map fst h"
| "name_texts (HZset zs) = map fst zs"
| "name_texts _ = []"

fun map_val :: "(string \<Rightarrow> string) \<Rightarrow> rval \<Rightarrow> rval" where
  "map_val fx (HStr s) = HStr (fx s)"
| "map_val fx (HHash h) = HHash (map (\<lambda>(f, v). (f, fx v)) h)"
| "map_val fx (HList xs) = HList (map fx xs)"
| "map_val fx (HSet xs) = HSet (map fx xs)"
| "map_val fx v = v"

fun is_other :: "rval \<Rightarrow> bool" where
  "is_other (HOther t) = True"
| "is_other _ = False"

text \<open>Documented behaviour of SET, HSET, RPUSH, SADD and ZADD with texts, on keys that are absent or of their type.\<close>

definition put_pair :: "string \<Rightarrow> 'v \<Rightarrow> (string \<times> 'v) list \<Rightarrow> (string \<times> 'v) list" where
  "put_pair f v h = (f, v) # filter (\<lambda>p. fst p \<noteq> f) h"

fun restore_do :: "restore_cmd \<Rightarrow> db \<Rightarrow> db option" where
  "restore_do (RSet k (VStr v)) D = Some (D(k \<mapsto> HStr v))"
| "restore_do (RHSet k f (JStr v)) D = (case D k of None \<Rightarrow> Some (D(k \<mapsto> HHash [(f, v)]))
     | Some (HHash h) \<Rightarrow> Some (D(k \<mapsto> HHash (put_pair f v h))) | _ \<Rightarrow> None)"
| "restore_do (RRPush k (JStr v)) D = (case D k of None \<Rightarrow> Some (D(k \<mapsto> HList [v]))
     | Some (HList xs) \<Rightarrow> Some (D(k \<mapsto> HList (xs @ [v]))) | _ \<Rightarrow> None)"
| "restore_do (RSAdd k (JStr v)) D = (case D k of None \<Rightarrow> Some (D(k \<mapsto> HSet [v]))
     | Some (HSet xs) \<Rightarrow> Some (D(k \<mapsto> HSet (List.insert v xs))) | _ \<Rightarrow> None)"
| "restore_do (RZAdd k x (JStr v)) D = (case D k of None \<Rightarrow> Some (D(k \<mapsto> HZset [(v, x)]))
     | Some (HZset zs) \<Rightarrow> Some (D(k \<mapsto> HZset (put_pair v x zs))) | _ \<Rightarrow> None)"
| "restore_do _ D = None"

fun restore_all :: "restore_cmd list \<Rightarrow> db \<Rightarrow> db option" where
  "restore_all [] D = Some D"
| "restore_all (c # cs) D = (case restore_do c D of None \<Rightarrow> None | Some D1 \<Rightarrow> restore_all cs D1)"

fun reads_value :: "'r backup_redis \<Rightarrow> 'r \<Rightarrow> string \<Rightarrow> rval \<Rightarrow> bool" where
  "reads_value B s k (HStr v) = (bGet B k s = (Inr v, s))"
| "reads_value B s k (HHash h) = (bHGetAll B k s = (Inr h, s))"
| "reads_value B s k (HList xs) = (bLRange B k s = (Inr xs, s))"
| "reads_value B s k (HSet xs) = (bSMembers B k s = (Inr xs, s))"
| "reads_value B s k (HZset zs) = (bZRange B k s = (Inr zs, s))"
| "reads_value B s k (HOther t) = True"

text \<open>
  What the commands read in a state that holds \<open>D\<close>, for a pattern that matches the keys in \<open>M\<close>, and what a pipeline
  writes in a state that holds \<open>D s\<close>; \<open>P s\<close> are the keys that expire.
\<close>

definition reads_db :: "'r backup_redis \<Rightarrow> db \<Rightarrow> string \<Rightarrow> string set \<Rightarrow> 'r \<Rightarrow> bool" where
  "reads_db B D p M s \<longleftrightarrow>
     (\<exists>ks. bKeys B p s = (Inr ks, s) \<and> distinct ks \<and> set ks = {k \<in> M. D k \<noteq> None}) \<and>
     (\<forall>k v. D k = Some v \<longrightarrow> wf_val v \<and> bType B k s = (Inr (type_name v), s) \<and> (\<exists>d. bTTL B k s = (Inr d, s)) \<and> reads_value B s k v)"

definition writes_db :: "'r backup_redis \<Rightarrow> ('r \<Rightarrow> db) \<Rightarrow> ('r \<Rightarrow> string set) \<Rightarrow> 'r \<Rightarrow> bool" where
  "writes_db B D P s \<longleftrightarrow> (\<forall>cs D1. restore_all cs (D s) = Some D1 \<longrightarrow>
     (\<exists>s1. bExec B cs s = (Inr (), s1) \<and> D s1 = D1 \<and> (\<forall>k. D s k = None \<longrightarrow> k \<notin> P s1)))"

text \<open>
  Documented behaviour of the JSON decoder on what the encoder wrote: objects, arrays and strings into the types of
  \<open>interface{}\<close>; \<open>fx\<close> is what becomes of a text on the way, valid UTF-8 stays and invalid bytes are replaced. Stated for
  files whose keys, fields and members it keeps.
\<close>

fun decoded :: "(string \<Rightarrow> string) \<Rightarrow> goval \<Rightarrow> goval" where
  "decoded fx (VStr s) = VStr (fx s)"
| "decoded fx (VMapStr m) = VMap (map (\<lambda>(f, v). (f, JStr (fx v))) m)"
| "decoded fx (VStrs xs) = VArr (map (\<lambda>x. JStr (fx x)) xs)"
| "decoded fx (VScores zs) = VArr (map (\<lambda>(m, x). JObj [(''member'', JStr m), (''score'', JNum x)]) zs)"
| "decoded fx v = v"

definition decoded_entry :: "(string \<Rightarrow> string) \<Rightarrow> backupEntry \<Rightarrow> backupEntry" where
  "decoded_entry fx e = e\<lparr>be_Value := decoded fx (be_Value e)\<rparr>"

fun value_names :: "goval \<Rightarrow> string list" where
  "value_names (VMapStr m) = map fst m"
| "value_names (VScores zs) = map fst zs"
| "value_names _ = []"

definition file_codec :: "'f backup_env \<Rightarrow> (string \<Rightarrow> string) \<Rightarrow> bool" where
  "file_codec V fx \<longleftrightarrow> (\<forall>m f. bv_save V m = Inr f \<longrightarrow>
     (\<forall>e \<in> set (bm_Entries m). list_all (\<lambda>t. fx t = t) (be_Key e # value_names (be_Value e))) \<longrightarrow>
     (\<exists>m1. bv_load V f = Inr m1 \<and> bm_Entries m1 = map (decoded_entry fx) (bm_Entries m)))"

definition ranges_over :: "'f backup_env \<Rightarrow> bool" where
  "ranges_over V \<longleftrightarrow> (\<forall>m. mset (bv_range V m) = mset m)"

section \<open>Lemmas\<close>

fun goval_of :: "rval \<Rightarrow> goval" where
  "goval_of (HStr s) = VStr s"
| "goval_of (HHash h) = VMapStr h"
| "goval_of (HList xs) = VStrs xs"
| "goval_of (HSet xs) = VStrs xs"
| "goval_of (HZset zs) = VScores zs"
| "goval_of (HOther t) = VNil"

lemma value_names_of [simp]: "value_names (goval_of v) = name_texts v"
  by (cases v) simp_all

lemma backupKey_reads:
  assumes "reads_db B D p M s" and "D k = Some v"
  obtains n where "backupKey B wild k s = (Inr \<lparr>be_Key = k, be_Type = type_name v, be_TTL = n, be_Value = goval_of v\<rparr>, s)"
proof -
  obtain d where r: "bType B k s = (Inr (type_name v), s)" "bTTL B k s = (Inr d, s)" "reads_value B s k v" "wf_val v"
    using assms unfolding reads_db_def by blast
  then have "backup_value B k (type_name v) s = (Inr (goval_of v), s)"
    by (cases v) (simp_all add: backup_value_def)
  with r show thesis by (intro that [of "f_to_i64 wild (duration_seconds d)"]) (simp add: backupKey_def)
qed

definition entry_of :: "db \<Rightarrow> string \<Rightarrow> backupEntry \<Rightarrow> bool" where
  "entry_of D k e \<longleftrightarrow> (\<exists>v. D k = Some v \<and> be_Key e = k \<and> be_Type e = type_name v \<and> be_Value e = goval_of v)"

lemma backup_entries_reads:
  assumes "reads_db B D p M s" and "\<forall>k \<in> set ks. D k \<noteq> None"
  shows "\<exists>es. backup_entries B wild ks s = (es, s) \<and> list_all2 (entry_of D) ks es"
  using assms(2)
proof (induction ks)
  case (Cons k ks)
  then obtain v where v: "D k = Some v" by auto
  obtain n where "backupKey B wild k s = (Inr \<lparr>be_Key = k, be_Type = type_name v, be_TTL = n, be_Value = goval_of v\<rparr>, s)"
    using backupKey_reads [OF assms(1) v] .
  with Cons v show ?case by (auto simp: backup_entries_def entry_of_def)
qed (simp add: backup_entries_def)

lemma restore_all_append:
  "restore_all (cs @ ds) D = (case restore_all cs D of None \<Rightarrow> None | Some D1 \<Rightarrow> restore_all ds D1)"
  by (induction cs arbitrary: D) (simp_all split: option.split)

lemma map_of_put_pair: "map_of (put_pair f v h) = (map_of h)(f \<mapsto> v)"
proof -
  have "map_of (filter (\<lambda>p. fst p \<noteq> f) h) = (map_of h)(f := None)" by (induction h) auto
  then show ?thesis by (simp add: put_pair_def)
qed

text \<open>Pushing, adding and setting, one after the other.\<close>

lemma restore_hash:
  "D k = Some (HHash h) \<Longrightarrow> \<exists>g. restore_all (map (\<lambda>(f, x). RHSet k f (JStr x)) fs) D = Some (D(k \<mapsto> HHash g)) \<and> map_of g = map_of (rev fs @ h)"
proof (induction fs arbitrary: D h)
  case (Cons p fs)
  obtain f x where p: "p = (f, x)" by (cases p)
  let ?D = "D(k \<mapsto> HHash (put_pair f x h))"
  have "\<exists>g. restore_all (map (\<lambda>(f, x). RHSet k f (JStr x)) fs) ?D = Some (?D(k \<mapsto> HHash g)) \<and>
      map_of g = map_of (rev fs @ put_pair f x h)"
    by (rule Cons.IH) simp
  then obtain g where g: "restore_all (map (\<lambda>(f, x). RHSet k f (JStr x)) fs) ?D = Some (?D(k \<mapsto> HHash g))"
      "map_of g = map_of (rev fs @ put_pair f x h)" by blast
  moreover have "map_of g = map_of (rev (p # fs) @ h)" using g(2) by (simp add: p map_of_put_pair)
  ultimately show ?case using Cons.prems by (intro exI [of _ g]) (simp add: p fun_eq_iff)
qed (simp, metis map_upd_triv)

lemma restore_zset:
  "D k = Some (HZset h) \<Longrightarrow> \<exists>g. restore_all (map (\<lambda>(m, x). RZAdd k x (JStr m)) zs) D = Some (D(k \<mapsto> HZset g)) \<and> map_of g = map_of (rev zs @ h)"
proof (induction zs arbitrary: D h)
  case (Cons p zs)
  obtain f x where p: "p = (f, x)" by (cases p)
  let ?D = "D(k \<mapsto> HZset (put_pair f x h))"
  have "\<exists>g. restore_all (map (\<lambda>(m, x). RZAdd k x (JStr m)) zs) ?D = Some (?D(k \<mapsto> HZset g)) \<and>
      map_of g = map_of (rev zs @ put_pair f x h)"
    by (rule Cons.IH) simp
  then obtain g where g: "restore_all (map (\<lambda>(m, x). RZAdd k x (JStr m)) zs) ?D = Some (?D(k \<mapsto> HZset g))"
      "map_of g = map_of (rev zs @ put_pair f x h)" by blast
  moreover have "map_of g = map_of (rev (p # zs) @ h)" using g(2) by (simp add: p map_of_put_pair)
  ultimately show ?case using Cons.prems by (intro exI [of _ g]) (simp add: p fun_eq_iff)
qed (simp, metis map_upd_triv)

lemma restore_list:
  "D k = Some (HList ys) \<Longrightarrow> restore_all (map (\<lambda>x. RRPush k (JStr x)) xs) D = Some (D(k \<mapsto> HList (ys @ xs)))"
  by (induction xs arbitrary: D ys) (auto simp: fun_upd_idem)

lemma restore_set:
  "D k = Some (HSet ys) \<Longrightarrow> \<exists>zs. restore_all (map (\<lambda>x. RSAdd k (JStr x)) xs) D = Some (D(k \<mapsto> HSet zs)) \<and> set zs = set ys \<union> set xs"
proof (induction xs arbitrary: D ys)
  case (Cons x xs)
  let ?D = "D(k \<mapsto> HSet (List.insert x ys))"
  have "\<exists>zs. restore_all (map (\<lambda>x. RSAdd k (JStr x)) xs) ?D = Some (?D(k \<mapsto> HSet zs)) \<and>
      set zs = set (List.insert x ys) \<union> set xs"
    by (rule Cons.IH) simp
  then obtain zs where "restore_all (map (\<lambda>x. RSAdd k (JStr x)) xs) ?D = Some (?D(k \<mapsto> HSet zs))"
      "set zs = set (List.insert x ys) \<union> set xs" by blast
  with Cons.prems show ?case by (intro exI [of _ zs]) (simp add: fun_eq_iff)
qed (simp, metis map_upd_triv)

lemma range_texts:
  assumes "ranges_over V"
  obtains fs where "bv_range V (map (\<lambda>(f, v). (f, JStr v)) h) = map (\<lambda>(f, v). (f, JStr v)) fs" and "mset fs = mset h"
proof -
  let ?g = "\<lambda>(f, v). (f, JStr v)" and ?i = "\<lambda>(f, j). (f, case j of JStr s \<Rightarrow> s | _ \<Rightarrow> '''')"
  let ?m = "bv_range V (map ?g h)"
  have m: "mset ?m = mset (map ?g h)" using assms unfolding ranges_over_def by blast
  have gi: "?i \<circ> ?g = (\<lambda>p. p)" by (auto simp: fun_eq_iff)
  have ig: "?g (?i q) = q" if "q \<in> set (map ?g h)" for q using that by auto
  have s: "set ?m = set (map ?g h)" using m by (metis set_mset_mset)
  have "map ?g (map ?i ?m) = map (\<lambda>q. q) ?m" unfolding map_map comp_def by (rule map_cong) (use s ig in auto)
  moreover have "mset (map ?i ?m) = mset h"
  proof -
    have "mset (map ?i ?m) = mset (map (?i \<circ> ?g) h)" using m by (simp add: image_mset.compositionality)
    then show ?thesis unfolding gi by simp
  qed
  ultimately show thesis using that [of "map ?i ?m"] by simp
qed

lemma zset_cmds: "concat (map (zset_cmd k) (map (\<lambda>(m, x). JObj [(''member'', JStr m), (''score'', JNum x)]) zs)) = map (\<lambda>(m, x). RZAdd k x (JStr m)) zs"
  by (induction zs) (auto simp: zset_cmd_def get_num_def)

lemma same_pairs:
  assumes "mset fs = mset h" and "distinct (map fst h)"
  shows "map_of (rev fs) = map_of h"
proof -
  have "distinct (map fst fs)" using assms by (metis mset_eq_imp_distinct_iff mset_map)
  moreover have "set fs = set h" using assms(1) by (metis set_mset_mset)
  ultimately show ?thesis using assms(2) map_of_inject_set [of "rev fs" h] by (simp add: rev_map [symmetric])
qed

lemma restore_value:
  assumes "ranges_over V" and "wf_val v" and "D k = None"
    and "be_Key e = k" and "be_Type e = type_name v" and "be_Value e = goval_of v" and "\<not> is_other v"
  shows "\<exists>w. restore_all (restore_entry (bv_range V) (decoded_entry fx e)) D = Some (D(k \<mapsto> w)) \<and> same_val (map_val fx v) w"
proof (cases v)
  case (HStr s)
  with assms(4-6) show ?thesis by (intro exI [of _ "HStr (fx s)"]) (simp add: restore_entry_def decoded_entry_def)
next
  case (HHash h0)
  let ?h = "map (\<lambda>(f, v). (f, fx v)) h0"
  obtain fs where fs: "bv_range V (map (\<lambda>(f, v). (f, JStr v)) ?h) = map (\<lambda>(f, v). (f, JStr v)) fs" "mset fs = mset ?h"
    using range_texts [OF assms(1)] .
  then obtain f x gs where g: "fs = (f, x) # gs" using assms(2) HHash by (cases fs) auto
  have "map (\<lambda>(f, v). (f, JStr (fx v))) h0 = map (\<lambda>(f, v). (f, JStr v)) ?h" by (simp add: split_def)
  then have c: "restore_entry (bv_range V) (decoded_entry fx e) = map (\<lambda>(f, x). RHSet k f (JStr x)) fs"
    using assms(4-6) fs(1) HHash by (simp add: restore_entry_def decoded_entry_def split_def comp_def)
  have "(D(k \<mapsto> HHash [(f, x)])) k = Some (HHash [(f, x)])" by simp
  from restore_hash [where D = "D(k \<mapsto> HHash [(f, x)])", OF this, of gs] obtain w where "restore_all (map (\<lambda>(f, x). RHSet k f (JStr x)) gs) (D(k \<mapsto> HHash [(f, x)]))
      = Some (D(k \<mapsto> HHash w))" "map_of w = map_of (rev gs @ [(f, x)])" by auto
  moreover have "map_of (rev fs) = map_of ?h"
    by (rule same_pairs [OF fs(2)]) (use assms(2) HHash in \<open>simp add: split_def comp_def\<close>)
  ultimately show ?thesis using assms(3) c g HHash by (intro exI [of _ "HHash w"]) simp
next
  case (HList xs)
  then obtain y ys where y: "xs = y # ys" using assms(2) by (cases xs) auto
  have "(D(k \<mapsto> HList [fx y])) k = Some (HList [fx y])" by simp
  from restore_list [where D = "D(k \<mapsto> HList [fx y])", OF this, of "map fx ys"] show ?thesis
    using assms(3-6) HList y by (intro exI [of _ "HList (map fx xs)"]) (simp add: restore_entry_def decoded_entry_def comp_def)
next
  case (HSet xs)
  then obtain y ys where y: "xs = y # ys" using assms(2) by (cases xs) auto
  have "(D(k \<mapsto> HSet [fx y])) k = Some (HSet [fx y])" by simp
  from restore_set [where D = "D(k \<mapsto> HSet [fx y])", OF this, of "map fx ys"] obtain zs where "restore_all (map (\<lambda>x. RSAdd k (JStr x)) (map fx ys)) (D(k \<mapsto> HSet [fx y])) = Some (D(k \<mapsto> HSet zs))"
      "set zs = set [fx y] \<union> set (map fx ys)" by auto
  then show ?thesis
    using assms(3-6) HSet y by (intro exI [of _ "HSet zs"]) (simp add: restore_entry_def decoded_entry_def comp_def)
next
  case (HZset zs)
  then obtain m x ws where g: "zs = (m, x) # ws" using assms(2) by (cases zs) auto
  have c: "restore_entry (bv_range V) (decoded_entry fx e) = map (\<lambda>(m, x). RZAdd k x (JStr m)) zs"
    using assms(4-6) HZset zset_cmds [of k zs] by (simp add: restore_entry_def decoded_entry_def)
  have "(D(k \<mapsto> HZset [(m, x)])) k = Some (HZset [(m, x)])" by simp
  from restore_zset [where D = "D(k \<mapsto> HZset [(m, x)])", OF this, of ws] obtain w where "restore_all (map (\<lambda>(m, x). RZAdd k x (JStr m)) ws) (D(k \<mapsto> HZset [(m, x)]))
      = Some (D(k \<mapsto> HZset w))" "map_of w = map_of (rev ws @ [(m, x)])" by auto
  moreover have "map_of (rev zs) = map_of zs" using same_pairs [of zs zs] assms(2) HZset by simp
  ultimately show ?thesis using assms(3) c g HZset by (intro exI [of _ "HZset w"]) simp
qed (use assms(7) in simp)

text \<open>What a restore makes of a key that held \<open>v\<close> and is absent.\<close>

definition brought_back :: "(string \<Rightarrow> string) \<Rightarrow> rval \<Rightarrow> rval option \<Rightarrow> bool" where
  "brought_back fx v x \<longleftrightarrow> (if is_other v then x = None else (\<exists>w. x = Some w \<and> same_val (map_val fx v) w))"

lemma restore_one:
  assumes "ranges_over V" and "wf_val v" and "D k = None"
    and "be_Key e = k" and "be_Type e = type_name v" and "be_Value e = goval_of v"
  shows "\<exists>x. restore_all (restore_entry (bv_range V) (decoded_entry fx e)) D = Some (D(k := x)) \<and> brought_back fx v x"
proof (cases "is_other v")
  case True
  then obtain t where "v = HOther t" by (cases v) auto
  with assms have "restore_entry (bv_range V) (decoded_entry fx e) = []" by (auto simp: restore_entry_def decoded_entry_def)
  with assms(3) True show ?thesis by (intro exI [of _ None]) (auto simp: brought_back_def)
next
  case False
  from restore_value [where D = D and fx = fx, OF assms this] show ?thesis using False by (auto simp: brought_back_def)
qed

lemma restore_entries:
  assumes "ranges_over V" and "list_all2 (entry_of D0) ks es" and "\<forall>k v. D0 k = Some v \<longrightarrow> wf_val v"
    and "distinct ks" and "\<forall>k \<in> set ks. D k = None"
  shows "\<exists>D1. restore_all (concat (map (restore_entry (bv_range V)) (map (decoded_entry fx) es))) D = Some D1 \<and>
    (\<forall>k \<in> set ks. \<exists>v. D0 k = Some v \<and> brought_back fx v (D1 k)) \<and> (\<forall>k. k \<notin> set ks \<longrightarrow> D1 k = D k)"
  using assms(2,4,5)
proof (induction arbitrary: D rule: list_all2_induct)
  case (Cons k ks e es)
  obtain v where v: "D0 k = Some v" "be_Key e = k" "be_Type e = type_name v" "be_Value e = goval_of v"
    using Cons.hyps(1) unfolding entry_of_def by blast
  have "wf_val v" "D k = None" using assms(3) v(1) Cons.prems by auto
  from restore_one [where D = D and fx = fx, OF assms(1) this v(2-4)] obtain x where
    w: "restore_all (restore_entry (bv_range V) (decoded_entry fx e)) D = Some (D(k := x))" "brought_back fx v x" by blast
  have "\<forall>j \<in> set ks. (D(k := x)) j = None" "distinct ks" using Cons.prems by auto
  then obtain D1 where "restore_all (concat (map (restore_entry (bv_range V)) (map (decoded_entry fx) es))) (D(k := x)) = Some D1"
      "\<forall>j \<in> set ks. \<exists>v. D0 j = Some v \<and> brought_back fx v (D1 j)" "\<forall>j. j \<notin> set ks \<longrightarrow> D1 j = (D(k := x)) j"
    using Cons.IH by blast
  with w v(1) Cons.prems(1) show ?case by (intro exI [of _ D1]) (auto simp: restore_all_append)
qed simp

text \<open>Restoring a backup where its lists still are appends to them.\<close>

lemma restored_list_doubles:
  assumes "be_Key e = k" and "be_Type e = ''list''" and "be_Value e = VStrs xs" and "D k = Some (HList xs)"
  shows "restore_all (restore_entry rng (decoded_entry fx e)) D = Some (D(k \<mapsto> HList (xs @ map fx xs)))"
  using assms restore_list [of D k xs "map fx xs"] by (simp add: restore_entry_def decoded_entry_def comp_def)

text \<open>The letters of the sizes suffice.\<close>

lemma size_loop_bound:
  assumes "size_loop n dv ex = (dv1, ex1)" and "0 \<le> n" and "n < 1024 ^ Suc b"
  shows "ex1 \<le> ex + b"
  using assms
proof (induction b arbitrary: n dv ex)
  case 0
  then show ?case by (simp add: size_loop.simps [of n])
next
  case (Suc b)
  show ?case
  proof (cases "n \<ge> 1024")
    case True
    then have q: "n sdiv 1024 = n div 1024" by (simp add: signed_divide_int_def sgn_if)
    have "ex1 \<le> Suc ex + b"
      by (rule Suc.IH [of "n sdiv 1024" "i64 (dv * 1024)"])
        (use Suc.prems True q size_loop.simps [of n dv ex] in \<open>auto simp: div_less_iff_less_mult\<close>)
    then show ?thesis by simp
  qed (use Suc.prems size_loop.simps [of n dv ex] in auto)
qed

lemma formatSize_total:
  assumes "in_i64 bytes"
  shows "formatSize dec bytes \<noteq> None"
proof (cases "bytes < 1024")
  case False
  then have q: "bytes sdiv 1024 = bytes div 1024" by (simp add: signed_divide_int_def sgn_if)
  obtain dv ex where l: "size_loop (bytes sdiv 1024) 1024 0 = (dv, ex)" by fastforce
  have "ex \<le> 0 + 5"
    by (rule size_loop_bound [OF l]) (use False q assms in \<open>auto simp: in_i64_def div_less_iff_less_mult\<close>)
  with l False show ?thesis by (simp add: formatSize_def)
qed (simp add: formatSize_def)

section \<open>Properties\<close>

text \<open>C15: What a backup brings back. Taken without an error from a server that nobody changes meanwhile, and restored
  to a server where its keys are absent and the pipeline is carried out: every key it matched that holds a text, a hash, a
  list, a set or a sorted set has its value again, with each text that is not valid UTF-8 as JSON gives it back; a key of any
  other type is lost without an error; no other key changes; and every key brought back, whatever time it had to live, has no
  expiry. Assumed is that the matched keys themselves and the names in them (fields of hashes, members of sorted sets) are
  texts that JSON keeps.\<close>

theorem backup_restores:
  assumes "reads_db B D0 pattern M st" and "file_codec V fx" and "ranges_over V" and "bv_open V = None"
    and "\<forall>k \<in> M. \<forall>v. D0 k = Some v \<longrightarrow> list_all (\<lambda>t. fx t = t) (k # name_texts v)"
    and "doBackup B V now pattern st = (Inr f, st1)"
    and "writes_db B D P st2" and "\<forall>k \<in> M. D0 k \<noteq> None \<longrightarrow> D st2 k = None"
  shows "\<exists>st3. doRestore B V f st2 = (None, st3) \<and>
    (\<forall>k. if k \<in> M \<and> D0 k \<noteq> None
      then k \<notin> P st3 \<and> (\<exists>v. D0 k = Some v \<and>
        (if is_other v then D st3 k = None else (\<exists>w. D st3 k = Some w \<and> same_val (map_val fx v) w)))
      else D st3 k = D st2 k)"
proof -
  obtain ks where ks: "bKeys B pattern st = (Inr ks, st)" "distinct ks" "set ks = {k \<in> M. D0 k \<noteq> None}"
    using assms(1) unfolding reads_db_def by blast
  have wf: "\<forall>k v. D0 k = Some v \<longrightarrow> wf_val v" using assms(1) unfolding reads_db_def by blast
  have "\<forall>k \<in> set ks. D0 k \<noteq> None" using ks(3) by blast
  then obtain es where es: "backup_entries B (bv_wild V) ks st = (es, st)" "list_all2 (entry_of D0) ks es"
    using backup_entries_reads [OF assms(1)] by blast
  have "\<forall>e \<in> set es. list_all (\<lambda>t. fx t = t) (be_Key e # value_names (be_Value e))"
  proof
    fix e assume "e \<in> set es"
    then obtain k where "k \<in> set ks" "entry_of D0 k e" using es(2) by (metis in_set_conv_nth list_all2_conv_all_nth)
    then show "list_all (\<lambda>t. fx t = t) (be_Key e # value_names (be_Value e))" using assms(5) ks(3) unfolding entry_of_def by auto
  qed
  moreover obtain m where m: "bv_save V m = Inr f" "bm_Entries m = es"
    using assms(6) ks(1) es(1) by (auto simp: doBackup_def split: option.splits sum.splits)
  ultimately obtain m1 where l: "bv_load V f = Inr m1" "bm_Entries m1 = map (decoded_entry fx) es"
    using assms(2) unfolding file_codec_def by blast
  have "\<forall>k \<in> set ks. D st2 k = None" using assms(8) ks(3) by auto
  from restore_entries [where fx = fx, OF assms(3) es(2) wf ks(2) this] obtain D1 where
    r: "restore_all (concat (map (restore_entry (bv_range V)) (bm_Entries m1))) (D st2) = Some D1"
      "\<forall>k \<in> set ks. \<exists>v. D0 k = Some v \<and> brought_back fx v (D1 k)" "\<forall>k. k \<notin> set ks \<longrightarrow> D1 k = D st2 k"
    unfolding l(2) by blast
  obtain st3 where x: "bExec B (concat (map (restore_entry (bv_range V)) (bm_Entries m1))) st2 = (Inr (), st3)" "D st3 = D1"
      "\<forall>k. D st2 k = None \<longrightarrow> k \<notin> P st3"
    using assms(7) r(1) unfolding writes_db_def by blast
  have "doRestore B V f st2 = (None, st3)" using assms(4) l(1) x(1) by (simp add: doRestore_def)
  moreover have "if k \<in> M \<and> D0 k \<noteq> None then k \<notin> P st3 \<and> (\<exists>v. D0 k = Some v \<and>
        (if is_other v then D st3 k = None else (\<exists>w. D st3 k = Some w \<and> same_val (map_val fx v) w)))
      else D st3 k = D st2 k" for k
  proof (cases "k \<in> M \<and> D0 k \<noteq> None")
    case True
    then have k: "k \<in> set ks" using ks(3) by simp
    then obtain v where "D0 k = Some v" "brought_back fx v (D st3 k)" using r(2) x(2) by blast
    moreover have "k \<notin> P st3" using x(3) True assms(8) by blast
    ultimately show ?thesis using True by (simp add: brought_back_def)
  qed (use r(3) x(2) ks(3) in auto)
  ultimately show ?thesis by blast
qed

text \<open>A server of four keys: a session that expires, a list, a text of one byte that is not UTF-8, and a stream.\<close>

definition fffd :: string where
  "fffd = [CHR 0xEF, CHR 0xBF, CHR 0xBD]"

definition demo_json_text :: "string \<Rightarrow> string" where
  "demo_json_text t = (if t = [CHR 0xFF] then fffd else t)"

definition backup_db :: db where
  "backup_db = [''s'' \<mapsto> HStr ''v'', ''l'' \<mapsto> HList [''a'', ''b''], ''b'' \<mapsto> HStr [CHR 0xFF], ''x'' \<mapsto> HOther ''stream'']"

definition backup_server :: "(db \<times> string set) backup_redis" where
  "backup_server = \<lparr>bKeys = (\<lambda>p s. (Inr [''s'', ''l'', ''b'', ''x''], s)),
     bType = (\<lambda>k s. (Inr (case fst s k of None \<Rightarrow> ''none'' | Some v \<Rightarrow> type_name v), s)),
     bTTL = (\<lambda>k s. (Inr (if k \<in> snd s then 60 * go_second else - 1), s)),
     bGet = (\<lambda>k s. (case fst s k of Some (HStr v) \<Rightarrow> Inr v | _ \<Rightarrow> Inl RedisNil, s)),
     bHGetAll = (\<lambda>k s. (Inr [], s)),
     bLRange = (\<lambda>k s. (Inr (case fst s k of Some (HList xs) \<Rightarrow> xs | _ \<Rightarrow> []), s)),
     bSMembers = (\<lambda>k s. (Inr [], s)), bZRange = (\<lambda>k s. (Inr [], s)),
     bExec = (\<lambda>cs s. (case restore_all cs (fst s) of None \<Rightarrow> (Inl (RedisErr ''WRONGTYPE''), s)
        | Some D1 \<Rightarrow> (Inr (), (D1, {k \<in> snd s. fst s k \<noteq> None}))))\<rparr>"

definition backup_files :: "backupMetadata backup_env" where
  "backup_files = \<lparr>bv_mkdir = None, bv_create = None, bv_save = Inr, bv_open = None,
     bv_load = (\<lambda>m. Inr (m\<lparr>bm_Entries := map (decoded_entry demo_json_text) (bm_Entries m)\<rparr>)), bv_range = (\<lambda>m. m), bv_wild = (\<lambda>_. 0)\<rparr>"

theorem backup_restores_witness:
  "\<exists>f st1 st3. doBackup backup_server backup_files 0 ''*'' (backup_db, {''s''}) = (Inr f, st1) \<and>
     doRestore backup_server backup_files f (Map.empty, {}) = (None, st3) \<and> ''s'' \<notin> snd st3 \<and> fst st3 ''s'' = Some (HStr ''v'') \<and>
     fst st3 ''l'' = Some (HList [''a'', ''b'']) \<and> fst st3 ''b'' = Some (HStr fffd) \<and> fst st3 ''x'' = None"
proof -
  have r: "reads_db backup_server backup_db ''*'' UNIV (backup_db, {''s''})"
    by (auto simp: reads_db_def backup_server_def backup_db_def split: if_splits)
  have w: "writes_db backup_server fst snd (Map.empty, {})"
    by (auto simp: writes_db_def backup_server_def)
  have c: "file_codec backup_files demo_json_text" "ranges_over backup_files" "bv_open backup_files = None"
    by (auto simp: file_codec_def ranges_over_def backup_files_def)
  have n: "\<forall>k \<in> UNIV. \<forall>v. backup_db k = Some v \<longrightarrow> list_all (\<lambda>t. demo_json_text t = t) (k # name_texts v)"
    by (auto simp: backup_db_def demo_json_text_def split: if_splits)
  obtain f st1 where b: "doBackup backup_server backup_files 0 ''*'' (backup_db, {''s''}) = (Inr f, st1)"
  proof -
    have k: "bKeys backup_server p s = (Inr [''s'', ''l'', ''b'', ''x''], s)" for p s by (simp add: backup_server_def)
    obtain es s1 where "backup_entries backup_server (\<lambda>_. 0) [''s'', ''l'', ''b'', ''x''] (backup_db, {''s''}) = (es, s1)" by (metis surj_pair)
    then show thesis by (intro that) (simp add: doBackup_def backup_files_def k)
  qed
  have "\<forall>k \<in> UNIV. backup_db k \<noteq> None \<longrightarrow> fst (Map.empty, {} :: string set) k = None" by simp
  from backup_restores [OF r c n b w this] obtain st3 where x: "doRestore backup_server backup_files f (Map.empty, {}) = (None, st3)"
      "\<And>k. if k \<in> UNIV \<and> backup_db k \<noteq> None then k \<notin> snd st3 \<and> (\<exists>v. backup_db k = Some v \<and>
          (if is_other v then fst st3 k = None else (\<exists>w. fst st3 k = Some w \<and> same_val (map_val demo_json_text v) w)))
        else fst st3 k = fst (Map.empty, {} :: string set) k" by blast
  have s: "same_val (HStr a) y \<longleftrightarrow> y = HStr a" "same_val (HList xs) y \<longleftrightarrow> y = HList xs" for a xs y by (cases y; auto)+
  show ?thesis using x(1) x(2) [of "''s''"] x(2) [of "''l''"] x(2) [of "''b''"] x(2) [of "''x''"] b
    by (intro exI [of _ f] exI [of _ st1] exI [of _ st3]) (auto simp: backup_db_def s demo_json_text_def)
qed

end
