(* ===== verification/Sdk_Go.thy ===== *)
theory Sdk_Go
  imports Peer_Api Json
begin

text \<open>
  The Go client of the peer API (\<open>sdk/go/proxymesh/peer.go\<close>). Making and sending a request is a parameter over the state of
  the network; a response is a status and a reader of its body, of any type. The JSON encoder and the decoders of the
  structures are a record of parameters.
\<close>

section \<open>Data\<close>

record sdkClient =
  cl_baseURL :: string
  cl_token :: string
  cl_nodeID :: string

record loginResponse =
  lr_Token :: string
  lr_NodeID :: string

record sdkNodeInfo =
  si_ID :: string
  si_Online :: "bool option"
  si_Battery :: "f64 option"
  si_CPUUsage :: "f64 option"
  si_Country :: string
  si_City :: string
  si_IP :: string
  si_OS :: string
  si_NodeType :: string
  si_LastSeen :: string
  si_Reputation :: f64
  si_ISP :: string

record sdkNodeStatus =
  ss_Node :: sdkNodeInfo
  ss_Load :: f64

record sdkBandwidth =
  sb_BytesSent :: int
  sb_BytesReceived :: int
  sb_DurationSeconds :: int
  sb_History :: "(string \<times> int \<times> int) list"

record sdkPayoutTier =
  st_Name :: string
  st_RatePerGBSent :: f64
  st_RatePerGBRecv :: f64

record sdkPayout =
  sy_Amount :: f64
  sy_Period :: string
  sy_Tier :: string
  sy_GBSent :: f64
  sy_GBReceived :: f64
  sy_Rates :: "(string \<times> f64) list"
  sy_Tiers :: "sdkPayoutTier list"

record sdkHealthScore =
  sh_OverallScore :: f64
  sh_LatencyScore :: f64
  sh_BandwidthScore :: f64
  sh_ReliabilityScore :: f64
  sh_ReputationScore :: f64

record sdk_json =
  sj_encode :: "json \<Rightarrow> go_err + string"
  sj_login :: "string \<Rightarrow> go_err + loginResponse"
  sj_status :: "string \<Rightarrow> go_err + sdkNodeStatus"
  sj_bandwidth :: "string \<Rightarrow> go_err + sdkBandwidth"
  sj_earnings :: "string \<Rightarrow> go_err + sdkPayout"
  sj_health :: "string \<Rightarrow> go_err + sdkHealthScore option"

text \<open>A request as it is sent; no token, no header. \<open>sent\<close> keeps the requests in order.\<close>

record sdk_request =
  rr_method :: string
  rr_url :: string
  rr_body :: string
  rr_token :: "string option"

record ('b, 'w) sdk_net =
  nt_newReq :: "string \<Rightarrow> string \<Rightarrow> go_err option"
  nt_do :: "sdk_request \<Rightarrow> 'w \<Rightarrow> (go_err + int \<times> 'b) \<times> 'w"

type_synonym 'w sdk_state = "sdk_request list \<times> 'w"

section \<open>The client\<close>

definition NewSdkClient :: "string \<Rightarrow> sdkClient" where
  "NewSdkClient baseURL = \<lparr>cl_baseURL = baseURL, cl_token = '''', cl_nodeID = ''''\<rparr>"

definition cl_SetAuth :: "string \<Rightarrow> string \<Rightarrow> sdkClient \<Rightarrow> sdkClient" where
  "cl_SetAuth token nodeID p = p\<lparr>cl_token := token, cl_nodeID := nodeID\<rparr>"

definition cl_ClearAuth :: "sdkClient \<Rightarrow> sdkClient" where
  "cl_ClearAuth p = p\<lparr>cl_token := '''', cl_nodeID := ''''\<rparr>"

text \<open>
  \<open>json.Marshal\<close> of a reader. The readers of \<open>net/http\<close> are structures without exported fields, and those
  are encoded as an empty object, whatever is left to read.
\<close>

definition marshal_reader :: "'b \<Rightarrow> string" where
  "marshal_reader body = ''{}''"

definition cl_request ::
    "sdk_json \<Rightarrow> ('b, 'w) sdk_net \<Rightarrow> sdkClient \<Rightarrow> string \<Rightarrow> string \<Rightarrow> json option \<Rightarrow> 'w sdk_state \<Rightarrow> (go_err + string) \<times> 'w sdk_state" where
  "cl_request J N p path meth body = (\<lambda>(sent, w).
     case (case body of None \<Rightarrow> Inr '''' | Some b \<Rightarrow> sj_encode J b) of
       Inl e \<Rightarrow> (Inl (Wrap ''encode request body'' e), sent, w)
     | Inr text \<Rightarrow>
         (let url = cl_baseURL p @ path in
          case nt_newReq N meth url of
            Some e \<Rightarrow> (Inl (Wrap ''create request'' e), sent, w)
          | None \<Rightarrow>
              (let r = \<lparr>rr_method = meth, rr_url = url, rr_body = text, rr_token = (if cl_token p = '''' then None else Some (cl_token p))\<rparr>
               in case nt_do N r w of
                    (Inl e, w1) \<Rightarrow> (Inl (Wrap ''send request'' e), sent @ [r], w1)
                  | (Inr (status, reader), w1) \<Rightarrow>
                      (let data = marshal_reader reader
                       in (if status \<ge> 400 then Inl (Err (''HTTP '' @ show_int status @ '': '' @ data)) else Inr data, sent @ [r], w1)))))"

definition cl_Login :: "sdk_json \<Rightarrow> ('b, 'w) sdk_net \<Rightarrow> string \<Rightarrow> sdkClient \<Rightarrow> 'w sdk_state \<Rightarrow> (go_err + loginResponse) \<times> sdkClient \<times> 'w sdk_state" where
  "cl_Login J N nodeID p s = (case cl_request J N p ''/auth'' ''POST'' (Some (JObj [(''node_id'', JStr nodeID)])) s of
       (Inl e, s1) \<Rightarrow> (Inl e, p, s1)
     | (Inr data, s1) \<Rightarrow> (case sj_login J data of
           Inl e \<Rightarrow> (Inl (Wrap ''decode login response'' e), p, s1)
         | Inr r \<Rightarrow> (Inr r, cl_SetAuth (lr_Token r) (lr_NodeID r) p, s1)))"

definition cl_Disconnect :: "sdk_json \<Rightarrow> ('b, 'w) sdk_net \<Rightarrow> sdkClient \<Rightarrow> 'w sdk_state \<Rightarrow> go_err option \<times> sdkClient \<times> 'w sdk_state" where
  "cl_Disconnect J N p s = (if cl_token p = '''' then (None, p, s)
     else (case cl_request J N p ''/disconnect'' ''POST'' (Some (JObj [])) s of
         (Inl e, s1) \<Rightarrow> (Some e, p, s1)
       | (Inr _, s1) \<Rightarrow> (None, cl_ClearAuth p, s1)))"

text \<open>A request for a structure: its path, its decoder and the words of a failure to decode.\<close>

definition cl_fetch ::
    "sdk_json \<Rightarrow> ('b, 'w) sdk_net \<Rightarrow> string \<Rightarrow> string \<Rightarrow> (string \<Rightarrow> go_err + 'a) \<Rightarrow> sdkClient \<Rightarrow> 'w sdk_state \<Rightarrow> (go_err + 'a) \<times> 'w sdk_state" where
  "cl_fetch J N path failure dec p s = (case cl_request J N p path ''GET'' None s of
       (Inl e, s1) \<Rightarrow> (Inl e, s1)
     | (Inr data, s1) \<Rightarrow> ((case dec data of Inl e \<Rightarrow> Inl (Wrap failure e) | Inr x \<Rightarrow> Inr x), s1))"

definition cl_GetStatus :: "sdk_json \<Rightarrow> ('b, 'w) sdk_net \<Rightarrow> sdkClient \<Rightarrow> 'w sdk_state \<Rightarrow> (go_err + sdkNodeStatus) \<times> 'w sdk_state" where
  "cl_GetStatus J N = cl_fetch J N ''/status'' ''decode status response'' (sj_status J)"

definition cl_GetBandwidth :: "sdk_json \<Rightarrow> ('b, 'w) sdk_net \<Rightarrow> sdkClient \<Rightarrow> 'w sdk_state \<Rightarrow> (go_err + sdkBandwidth) \<times> 'w sdk_state" where
  "cl_GetBandwidth J N = cl_fetch J N ''/bandwidth'' ''decode bandwidth response'' (sj_bandwidth J)"

definition cl_GetEarnings :: "sdk_json \<Rightarrow> ('b, 'w) sdk_net \<Rightarrow> sdkClient \<Rightarrow> 'w sdk_state \<Rightarrow> (go_err + sdkPayout) \<times> 'w sdk_state" where
  "cl_GetEarnings J N = cl_fetch J N ''/earnings'' ''decode earnings response'' (sj_earnings J)"

definition cl_GetHealth :: "sdk_json \<Rightarrow> ('b, 'w) sdk_net \<Rightarrow> sdkClient \<Rightarrow> 'w sdk_state \<Rightarrow> (go_err + sdkHealthScore option) \<times> 'w sdk_state" where
  "cl_GetHealth J N = cl_fetch J N ''/health'' ''decode health response'' (sj_health J)"

definition call_err :: "(go_err + string) \<times> 's \<Rightarrow> go_err option \<times> 's" where
  "call_err x = (case x of (Inl e, s) \<Rightarrow> (Some e, s) | (Inr _, s) \<Rightarrow> (None, s))"

definition cl_SetConsent :: "sdk_json \<Rightarrow> ('b, 'w) sdk_net \<Rightarrow> bool \<Rightarrow> sdkClient \<Rightarrow> 'w sdk_state \<Rightarrow> go_err option \<times> 'w sdk_state" where
  "cl_SetConsent J N enabled p s = call_err (cl_request J N p ''/consent'' ''POST'' (Some (JObj [(''enabled'', JBool enabled)])) s)"

definition cl_UpdateNode :: "sdk_json \<Rightarrow> ('b, 'w) sdk_net \<Rightarrow> json \<Rightarrow> sdkClient \<Rightarrow> 'w sdk_state \<Rightarrow> go_err option \<times> 'w sdk_state" where
  "cl_UpdateNode J N updates p s = call_err (cl_request J N p ''/node'' ''PATCH'' (Some updates) s)"

section \<open>Using it\<close>

text \<open>The calls of an application that leaves authentication to \<open>Login\<close>.\<close>

datatype client_call = Login string | Disconnect | GetStatus | GetBandwidth | GetEarnings | GetHealth | SetConsent bool | UpdateNode json

fun sdkc_step :: "sdk_json \<Rightarrow> ('b, 'w) sdk_net \<Rightarrow> client_call \<Rightarrow> sdkClient \<times> 'w sdk_state \<Rightarrow> sdkClient \<times> 'w sdk_state" where
  "sdkc_step J N (Login n) (p, s) = snd (cl_Login J N n p s)"
| "sdkc_step J N Disconnect (p, s) = snd (cl_Disconnect J N p s)"
| "sdkc_step J N GetStatus (p, s) = (p, snd (cl_GetStatus J N p s))"
| "sdkc_step J N GetBandwidth (p, s) = (p, snd (cl_GetBandwidth J N p s))"
| "sdkc_step J N GetEarnings (p, s) = (p, snd (cl_GetEarnings J N p s))"
| "sdkc_step J N GetHealth (p, s) = (p, snd (cl_GetHealth J N p s))"
| "sdkc_step J N (SetConsent b) (p, s) = (p, snd (cl_SetConsent J N b p s))"
| "sdkc_step J N (UpdateNode u) (p, s) = (p, snd (cl_UpdateNode J N u p s))"

definition sdkc_run :: "sdk_json \<Rightarrow> ('b, 'w) sdk_net \<Rightarrow> client_call list \<Rightarrow> sdkClient \<times> 'w sdk_state \<Rightarrow> sdkClient \<times> 'w sdk_state" where
  "sdkc_run J N cs = fold (sdkc_step J N) cs"

text \<open>The request as the server of the peer API sees it, at any address, for a base address without a query of its own.\<close>

definition as_http :: "string \<Rightarrow> sdk_request \<Rightarrow> http_req" where
  "as_http ip r = \<lparr>rq_method = rr_method r, rq_path = rr_url r, rq_clientIP = ip,
     rq_header = (\<lambda>h. if h = ''X-Peer-Token'' then (case rr_token r of None \<Rightarrow> '''' | Some t \<Rightarrow> t)
        else if h = ''Content-Type'' then ''application/json'' else ''''),
     rq_query = (\<lambda>_. ''''), rq_contentLength = int (length (rr_body r))\<rparr>"

text \<open>Documented behaviour of the decoder: an empty object leaves every field at its zero value.\<close>

definition zero_login :: "sdk_json \<Rightarrow> bool" where
  "zero_login J \<longleftrightarrow> sj_login J ''{}'' = Inr \<lparr>lr_Token = '''', lr_NodeID = ''''\<rparr>"

section \<open>Lemmas\<close>

lemma cl_request_data: "cl_request J N p path meth body s = (Inr data, s1) \<Longrightarrow> data = ''{}''"
  by (cases s) (auto simp: cl_request_def marshal_reader_def Let_def split: option.splits sum.splits prod.splits if_splits)

definition tokenless :: "sdkClient \<times> 'w sdk_state \<Rightarrow> bool" where
  "tokenless x \<longleftrightarrow> cl_token (fst x) = '''' \<and> (\<forall>r \<in> set (fst (snd x)). rr_token r = None)"

lemma request_tokenless: "tokenless (p, s) \<Longrightarrow> tokenless (p, snd (cl_request J N p path meth body s))"
  by (cases s) (auto simp: tokenless_def cl_request_def Let_def split: option.split sum.split prod.split)

lemma Login_tokenless:
  assumes "zero_login J" and "tokenless (p, s)"
  shows "tokenless (snd (cl_Login J N n p s))" and "fst (cl_Login J N n p s) = Inr r \<Longrightarrow> lr_Token r = ''''"
proof -
  let ?q = "cl_request J N p ''/auth'' ''POST'' (Some (JObj [(''node_id'', JStr n)])) s"
  have sent: "tokenless (p, snd ?q)" by (rule request_tokenless [OF assms(2)])
  obtain res s1 where q: "?q = (res, s1)" by (metis surj_pair)
  have d: "data = ''{}''" if "res = Inr data" for data using cl_request_data q that by metis
  show "tokenless (snd (cl_Login J N n p s))"
    using assms sent q d by (cases res) (auto simp: cl_Login_def tokenless_def zero_login_def cl_SetAuth_def)
  show "lr_Token r = ''''" if "fst (cl_Login J N n p s) = Inr r"
    using that assms(1) q d by (cases res) (auto simp: cl_Login_def zero_login_def)
qed

lemma fetch_state: "snd (cl_fetch J N path failure dec p s) = snd (cl_request J N p path ''GET'' None s)"
  by (simp add: cl_fetch_def split: prod.split sum.split)

lemma call_err_state: "snd (call_err x) = snd x"
  by (simp add: call_err_def split: prod.split sum.split)

lemmas sdk_states = fetch_state call_err_state cl_GetStatus_def cl_GetBandwidth_def cl_GetEarnings_def cl_GetHealth_def cl_SetConsent_def cl_UpdateNode_def

lemma step_tokenless:
  assumes "zero_login J" and "tokenless (p, s)"
  shows "tokenless (sdkc_step J N c (p, s))"
proof (cases c)
  case (Login n)
  with Login_tokenless(1) [OF assms] show ?thesis by simp
next
  case Disconnect
  with assms(2) show ?thesis by (simp add: cl_Disconnect_def tokenless_def)
qed (simp_all add: sdk_states request_tokenless [OF assms(2)])

lemma run_tokenless: "zero_login J \<Longrightarrow> tokenless x \<Longrightarrow> tokenless (sdkc_run J N cs x)"
proof (induction cs arbitrary: x)
  case (Cons c cs)
  have "tokenless (sdkc_step J N c x)" using step_tokenless [OF Cons.prems(1), of "fst x" "snd x"] Cons.prems(2) by simp
  from Cons.IH [OF Cons.prems(1) this] show ?case by (simp add: sdkc_run_def)
qed (simp add: sdkc_run_def)

section \<open>Properties\<close>

text \<open>C23: A client that authenticates by \<open>Login\<close> never has a token, whatever the server answers: the body of a response is not read but
  encoded, and decodes to an empty token. The middleware of the peer API refuses every request it ever sends (to a
  base address without a query of its own).\<close>

theorem client_never_authenticates:
  assumes "zero_login J"
  shows "case sdkc_run J N cs (NewSdkClient base, [], w) of (p, sent, _) \<Rightarrow>
    cl_token p = '''' \<and> (\<forall>r \<in> set sent. \<forall>sessions ip. peerAuthMiddleware sessions (as_http ip r) = (Abort 401 ''Missing peer token'', ''''))"
proof -
  have "tokenless (NewSdkClient base, [], w)" by (simp add: tokenless_def NewSdkClient_def)
  from run_tokenless [OF assms this, of N cs] show ?thesis
    by (auto simp: tokenless_def peerAuthMiddleware_def peer_token_def as_http_def Let_def split: prod.split)
qed

definition sdk_demo_json :: sdk_json where
  "sdk_demo_json = \<lparr>sj_encode = (\<lambda>_. Inr ''x''), sj_login = (\<lambda>s. if s = ''{}'' then Inr \<lparr>lr_Token = '''', lr_NodeID = ''''\<rparr> else Inr \<lparr>lr_Token = ''t'', lr_NodeID = ''n''\<rparr>),
     sj_status = (\<lambda>_. Inl (Err '''')), sj_bandwidth = (\<lambda>_. Inl (Err '''')), sj_earnings = (\<lambda>_. Inl (Err '''')), sj_health = (\<lambda>_. Inr None)\<rparr>"

definition sdk_demo_net :: "(string, unit) sdk_net" where
  "sdk_demo_net = \<lparr>nt_newReq = (\<lambda>_ _. None), nt_do = (\<lambda>r w. (Inr (200, ''the token of the node''), w))\<rparr>"

theorem client_never_authenticates_witness:
  "cl_token (fst (sdkc_run sdk_demo_json sdk_demo_net [Login ''n'', GetHealth] (NewSdkClient ''http://h'', [], ()))) = ''''
   \<and> length (fst (snd (sdkc_run sdk_demo_json sdk_demo_net [Login ''n'', GetHealth] (NewSdkClient ''http://h'', [], ())))) = 2"
proof -
  have "zero_login sdk_demo_json" by (simp add: zero_login_def sdk_demo_json_def)
  from client_never_authenticates [OF this, of sdk_demo_net "[Login ''n'', GetHealth]" "''http://h''" "()"]
  show ?thesis by (simp add: split_beta) (simp add: sdkc_run_def sdk_demo_net_def sdk_demo_json_def cl_Login_def cl_request_def
      cl_GetHealth_def cl_fetch_def NewSdkClient_def cl_SetAuth_def marshal_reader_def Let_def)
qed

end
