(* ===== verification/Startup.thy ===== *)
theory Startup
  imports Peer_Server Gateway_Config Logger Migrations Subnet Audit_Log Matchmaker Redis_Mem
begin

text \<open>
  The program from start to end (\<open>main.go\<close>), the gateway's server and its TLS (\<open>StartServer\<close>, \<open>buildTLSConfig\<close>,
  \<open>Start\<close> and \<open>Shutdown\<close> in \<open>gateway/service.go\<close>) and the tracer (\<open>gateway/tracing.go\<close>). What the components
  cannot fail at is left out: only the parts that are built, the messages, the decisions and the ways to end are here.
  Go's own logger writes to the standard error until the gateway's logger silences it.
\<close>

section \<open>The server\<close>

datatype clientAuth = NoClientCert | RequestClientCert | RequireAnyClientCert | VerifyClientCertIfGiven | RequireAndVerifyClientCert

record 'p tlsConfig =
  tc_ClientCAs :: 'p
  tc_ClientAuth :: clientAuth

record 'p httpServer =
  hs_Addr :: string
  hs_TLS :: "'p tlsConfig option"

text \<open>Reading a file, and the pool of the certificates in it, if there are any.\<close>

record 'p tls_env =
  te_read :: "string \<Rightarrow> go_err + string"
  te_pool :: "string \<Rightarrow> 'p option"

definition buildTLSConfig :: "'p tls_env \<Rightarrow> gatewayConfig \<Rightarrow> go_err + 'p tlsConfig" where
  "buildTLSConfig T c = (case te_read T (gc_CACertPath c) of
       Inl e \<Rightarrow> Inl (Wrap ''failed to read CA cert'' e)
     | Inr pem \<Rightarrow> (case te_pool T pem of
           None \<Rightarrow> Inl (Err ''failed to add CA cert to pool'')
         | Some pool \<Rightarrow> Inr \<lparr>tc_ClientCAs = pool, tc_ClientAuth = RequestClientCert\<rparr>))"

definition StartServer :: "'p tls_env \<Rightarrow> gatewayConfig \<Rightarrow> go_err + 'p httpServer" where
  "StartServer T c = (let addr = gc_Host c @ '':'' @ show_int (gc_Port c) in
     if gc_MTLSEnabled c then (case buildTLSConfig T c of
         Inl e \<Rightarrow> Inl (Wrap ''failed to build TLS config'' e)
       | Inr t \<Rightarrow> Inr \<lparr>hs_Addr = addr, hs_TLS = Some t\<rparr>)
     else Inr \<lparr>hs_Addr = addr, hs_TLS = None\<rparr>)"

text \<open>Listening without TLS, and with the paths of a certificate and its key.\<close>

definition gw_Start :: "'p tls_env \<Rightarrow> ('p httpServer \<Rightarrow> go_err option) \<Rightarrow> ('p httpServer \<Rightarrow> string \<Rightarrow> string \<Rightarrow> go_err option) \<Rightarrow> gatewayConfig \<Rightarrow> go_err option" where
  "gw_Start T listen listenTLS c = (case StartServer T c of Inl e \<Rightarrow> Some e
     | Inr srv \<Rightarrow> if gc_MTLSEnabled c then listenTLS srv (gc_ServerCertPath c) (gc_ServerKeyPath c) else listen srv)"

definition gw_Shutdown :: "log_env \<Rightarrow> logs \<Rightarrow> go_err option \<times> logs" where
  "gw_Shutdown L s = (None, lg_Info L ''Gateway shutting down'' [] s)"

text \<open>
  Documented behaviour of \<open>crypto/tls\<close>: whether a handshake succeeds with a client that presents no certificate, or one
  that the pool verifies or not.
\<close>

fun handshake :: "clientAuth \<Rightarrow> bool option \<Rightarrow> bool" where
  "handshake NoClientCert _ = True"
| "handshake RequestClientCert _ = True"
| "handshake RequireAnyClientCert cert = (cert \<noteq> None)"
| "handshake VerifyClientCertIfGiven cert = (cert \<noteq> Some False)"
| "handshake RequireAndVerifyClientCert cert = (cert = Some True)"

definition server_accepts :: "'p httpServer \<Rightarrow> bool option \<Rightarrow> bool" where
  "server_accepts srv cert = (case hs_TLS srv of None \<Rightarrow> True | Some t \<Rightarrow> handshake (tc_ClientAuth t) cert)"

definition gw_healthHandler :: "(string \<times> string) list resp" where
  "gw_healthHandler = (200, Inr [(''status'', ''healthy''), (''version'', ''1.0.0'')])"

section \<open>The tracer\<close>

text \<open>Making the exporter and the resource; a tracer is its service's name and whether it has a provider.\<close>

record tracer =
  tr_service :: string
  tr_provider :: bool

definition InitTracing :: "go_err option \<Rightarrow> go_err option \<Rightarrow> string \<Rightarrow> bool \<Rightarrow> go_err + tracer option" where
  "InitTracing exporter resource serviceName enabled =
     (if \<not> enabled then Inr None
      else (case exporter of Some e \<Rightarrow> Inl e
        | None \<Rightarrow> (case resource of Some e \<Rightarrow> Inl e | None \<Rightarrow> Inr (Some \<lparr>tr_service = serviceName, tr_provider = True\<rparr>))))"

definition tr_Shutdown :: "go_err option \<Rightarrow> tracer option \<Rightarrow> go_err option" where
  "tr_Shutdown provider t = (case t of None \<Rightarrow> None | Some tr \<Rightarrow> if tr_provider tr then provider else None)"

text \<open>A span as it is exported when it ends: its name and its attributes.\<close>

record span =
  sn_Name :: string
  sn_Attrs :: "(string \<times> string) list"

definition StartSpan :: "string \<Rightarrow> (string \<times> string) list \<Rightarrow> span" where
  "StartSpan name attrs = fold (\<lambda>a sp. sp\<lparr>sn_Attrs := sn_Attrs sp @ [a]\<rparr>) attrs \<lparr>sn_Name = name, sn_Attrs = []\<rparr>"

text \<open>The middleware around the rest of the chain; the spans that ended are kept beside the state.\<close>

definition tracingMiddleware ::
    "tracer option \<Rightarrow> string \<Rightarrow> string \<Rightarrow> ('s \<Rightarrow> 'o \<times> 's) \<Rightarrow> span list \<times> 's \<Rightarrow> 'o \<times> span list \<times> 's" where
  "tracingMiddleware t meth url rest = (\<lambda>(spans, s). case t of
       None \<Rightarrow> (case rest s of (out, s1) \<Rightarrow> (out, spans, s1))
     | Some _ \<Rightarrow> (let sp = StartSpan ''gateway.request'' [(''http.method'', meth), (''http.url'', url)]
         in (case rest s of (out, s1) \<Rightarrow> (out, spans @ [sp], s1))))"

text \<open>Tracing changes nothing that the request does, and exports its whole URL, with whatever credentials it carries.\<close>

lemma tracing_transparent:
  "fst (tracingMiddleware t meth url rest (spans, s)) = fst (rest s)"
  "snd (snd (tracingMiddleware t meth url rest (spans, s))) = snd (rest s)"
  "t \<noteq> None \<Longrightarrow> (''http.url'', url) \<in> set (sn_Attrs (last (fst (snd (tracingMiddleware t meth url rest (spans, s))))))"
  by (auto simp: tracingMiddleware_def StartSpan_def Let_def split: option.split prod.split)

section \<open>Starting\<close>

record 'r boot =
  bo_logs :: logs
  bo_stderr :: "string list"
  bo_redis :: 'r
  bo_chans :: "unit chans"

definition say :: "string \<Rightarrow> 'r boot \<Rightarrow> 'r boot" where
  "say msg s = (if ls_discard (bo_logs s) then s else s\<lparr>bo_stderr := bo_stderr s @ [msg]\<rparr>)"

text \<open>What the outside does: the errors of what may fail, the libraries of the components, and the files of TLS.\<close>

record ('r, 'p) boot_env =
  be_config :: "go_err + config"
  be_connect :: "go_err + 'r redis"
  be_migrations :: "'r migration list"
  be_parseIP :: "string \<Rightarrow> nat list option"
  be_exporter :: "go_err option"
  be_resource :: "go_err option"
  be_auditFile :: "string \<Rightarrow> go_err option"
  be_opens :: "string \<Rightarrow> bool"
  be_tls :: "'p tls_env"

definition boot_migrate :: "('r, 'p) boot_env \<Rightarrow> 'r redis \<Rightarrow> 'r boot \<Rightarrow> 'r boot" where
  "boot_migrate B R s = (case mr_Run R (NewMigrationRunner (be_migrations B)) (bo_redis s) of
       (Some e, st) \<Rightarrow> say (''Warning: migrations failed: '' @ err_text e) (s\<lparr>bo_redis := st\<rparr>)
     | (None, st) \<Rightarrow> say ''Database migrations completed'' (s\<lparr>bo_redis := st\<rparr>))"

definition boot_subnet :: "('r, 'p) boot_env \<Rightarrow> 'r redis \<Rightarrow> config \<Rightarrow> 'r boot \<Rightarrow> 'r boot" where
  "boot_subnet B R cfg s = (let c = cf_Subnet cfg in
     if \<not> sc_Enabled c then s
     else (case RegisterPool R (be_parseIP B) (sc_Prefix c) (sc_PrefixLen c) (bo_redis s) of
         (Some e, st) \<Rightarrow> say (''Warning: failed to register subnet pool: '' @ err_text e) (s\<lparr>bo_redis := st\<rparr>)
       | (None, st) \<Rightarrow> say (''Subnet pool registered: '' @ pool_name (sc_Prefix c) (sc_PrefixLen c)) (s\<lparr>bo_redis := st\<rparr>)))"

definition boot_tracing :: "('r, 'p) boot_env \<Rightarrow> config \<Rightarrow> 'r boot \<Rightarrow> 'r boot" where
  "boot_tracing B cfg s = (case InitTracing (be_exporter B) (be_resource B) ''gateway'' (gc_TracingEnabled (cf_Gateway cfg)) of
       Inl e \<Rightarrow> say (''Warning: failed to initialize tracing: '' @ err_text e) s
     | Inr _ \<Rightarrow> s)"

text \<open>The limiter: the one over Redis or the local one.\<close>

definition boot_limiter :: "config \<Rightarrow> 'r boot \<Rightarrow> ('r distLimiter + localLimiter) \<times> 'r boot" where
  "boot_limiter cfg s = (let c = cf_Gateway cfg in
     if gc_RateLimitDistributed c
     then (Inl (NewDistributedRateLimiter (bo_redis s) (gc_RateLimitRequests c) (gc_RateLimitWindowSeconds c)), say ''Using distributed rate limiter (Redis)'' s)
     else (Inr (NewLocalRateLimiter (gc_RateLimitRequests c) (gc_RateLimitWindowSeconds c)), say ''Using local rate limiter (in-memory)'' s))"

definition boot_audit :: "('r, 'p) boot_env \<Rightarrow> 'r redis \<Rightarrow> 'r boot \<Rightarrow> 'r auditLogger option \<times> 'r boot" where
  "boot_audit B R s = (case NewAuditLogger (be_auditFile B) ''audit.log'' (Some R) of
       Inl e \<Rightarrow> (None, say (''Warning: failed to create audit logger: '' @ err_text e) s)
     | Inr al \<Rightarrow> (Some al, say ''Audit logging enabled'' s))"

text \<open>A goroutine that makes a ticker with an interval that is not positive panics, and ends the program.\<close>

definition ticks :: "int \<Rightarrow> bool" where
  "ticks seconds = (0 < i64 (seconds * go_second))"

definition boot_pusher :: "config \<Rightarrow> 'r boot \<Rightarrow> pusher \<times> 'r boot" where
  "boot_pusher cfg s = (case NewPrometheusPusher (cf_Prometheus cfg) (bo_chans s) of (p, cs) \<Rightarrow>
     (p, (if pm_Enabled (cf_Prometheus cfg) then say ''Prometheus metrics pusher started'' (s\<lparr>bo_chans := cs\<rparr>) else s\<lparr>bo_chans := cs\<rparr>)))"

definition boot_federation :: "config \<Rightarrow> 'r boot \<Rightarrow> 'r boot" where
  "boot_federation cfg s = (let c = cf_Federation cfg in
     if \<not> fc_Enabled c then say ''Federation disabled'' s
     else say (''Starting federation service with regions: ['' @ join_sep '' '' (fc_Regions c) @ '']'') s)"

definition goroutines_run :: "config \<Rightarrow> bool" where
  "goroutines_run cfg = ((pm_Enabled (cf_Prometheus cfg) \<longrightarrow> ticks (pm_PushIntervalSeconds (cf_Prometheus cfg))) \<and>
     (fc_Enabled (cf_Federation cfg) \<longrightarrow> ticks (fc_HeartbeatInterval (cf_Federation cfg)) \<and> ticks (fc_SyncInterval (cf_Federation cfg))))"

text \<open>The program as it runs.\<close>

record ('r, 'p) program =
  pg_server :: "('r, 'r distLimiter + localLimiter) server"
  pg_audit :: "'r auditLogger option"
  pg_pusher :: pusher
  pg_http :: "'p httpServer"

text \<open>Up to the limiter; then from the gateway, whose constructor sets the logger up. The error is that of \<open>log.Fatalf\<close>.\<close>

definition boot_early :: "('r, 'p) boot_env \<Rightarrow> 'r redis \<Rightarrow> config \<Rightarrow> 'r boot \<Rightarrow> ('r distLimiter + localLimiter) \<times> 'r boot" where
  "boot_early B R cfg s = boot_limiter cfg (boot_tracing B cfg (boot_subnet B R cfg (boot_migrate B R s)))"

definition boot_late :: "('r, 'p) boot_env \<Rightarrow> 'r redis \<Rightarrow> config \<Rightarrow> 'r distLimiter + localLimiter \<Rightarrow> 'r boot \<Rightarrow> (string + ('r, 'p) program) \<times> 'r boot" where
  "boot_late B R cfg l s =
     (let mm = NewMatchmaker (gc_CircuitBreakerThreshold (cf_Gateway cfg)) (mc_CooldownTTLMinutes (cf_Matchmaker cfg));
          cs = NewComplianceService (co_BlockedDomains (cf_Compliance cfg)) (co_KYCRequired (cf_Compliance cfg));
          gw = srv_NewGateway cfg mm cs l (Some R);
          s1 = s\<lparr>bo_logs := InitLogger (be_opens B) LevelInfo '''' (bo_logs s)\<rparr>;
          (audit, s2) = boot_audit B R s1;
          (pusher, s3) = boot_pusher cfg s2;
          s4 = say ''Config watcher started'' (say ''Config change handler registered'' (boot_federation cfg s3))
      in case StartServer (be_tls B) (cf_Gateway cfg) of
           Inl e \<Rightarrow> let msg = ''Failed to create server: '' @ err_text e in (Inl msg, say msg s4)
         | Inr http \<Rightarrow> (Inr \<lparr>pg_server = gw, pg_audit = audit, pg_pusher = pusher, pg_http = http\<rparr>, say ''Server object created'' s4))"

definition main_boot :: "('r, 'p) boot_env \<Rightarrow> 'r boot \<Rightarrow> (string + ('r, 'p) program) \<times> 'r boot" where
  "main_boot B s = (case be_config B of
       Inl e \<Rightarrow> let msg = ''Failed to load config: '' @ err_text e in (Inl msg, say msg s)
     | Inr cfg \<Rightarrow> (case be_connect B of
           Inl e \<Rightarrow> let msg = ''Failed to connect to Redis: '' @ err_text e in (Inl msg, say msg s)
         | Inr R \<Rightarrow> (case boot_early B R cfg s of (l, s1) \<Rightarrow> boot_late B R cfg l s1)))"

text \<open>The goroutine of the server: it returns \<open>None\<close> when it was closed, else the error that ends the program.\<close>

definition main_serve :: "go_err option \<Rightarrow> ('r, 'p) program \<Rightarrow> 'r boot \<Rightarrow> string option \<times> 'r boot" where
  "main_serve outcome p s = (let s1 = say (''Starting Gateway on '' @ hs_Addr (pg_http p)) s in
     case outcome of None \<Rightarrow> (None, s1)
     | Some e \<Rightarrow> let msg = ''Failed to start gateway: '' @ err_text e in (Some msg, say msg s1))"

text \<open>The goroutine of the peer server, which says so when it cannot listen or serve; then the broadcast of nodes starts and
  the program waits for a signal.\<close>

definition main_peer :: "(int \<Rightarrow> go_err option) \<Rightarrow> go_err option \<Rightarrow> 'r boot \<Rightarrow> 'r boot" where
  "main_peer listen served s = (case srv_Start listen served 9000 of
       Some e \<Rightarrow> say (''gRPC server error: '' @ err_text e) s | None \<Rightarrow> s)"

definition main_wait :: "'r boot \<Rightarrow> 'r boot" where
  "main_wait s = say ''WebSocket broadcast started'' s"

section \<open>Stopping\<close>

text \<open>The matchmaker's channels, which its constructor does not make.\<close>

record mm_chans =
  mx_stopHealthCheck :: "nat option"
  mx_stopCooldown :: "nat option"

definition NewMatchmaker_chans :: mm_chans where
  "NewMatchmaker_chans = \<lparr>mx_stopHealthCheck = None, mx_stopCooldown = None\<rparr>"

definition StopHealthCheck :: "mm_chans \<Rightarrow> 'a chans \<Rightarrow> 'a chans option" where
  "StopHealthCheck m cs = go_close (mx_stopHealthCheck m) cs"

definition StopCooldownCleanup :: "mm_chans \<Rightarrow> 'a chans \<Rightarrow> 'a chans option" where
  "StopCooldownCleanup m cs = go_close (mx_stopCooldown m) cs"

text \<open>What was done in order to stop, and whether the end was reached or a panic.\<close>

datatype stop_step = HealthCheckStopped | CooldownStopped | PusherStopped | ServerShutDown

text \<open>After the signal; \<open>shutdown\<close> is the error of the server's shutdown.\<close>

definition main_stop :: "go_err option \<Rightarrow> mm_chans \<Rightarrow> pusher \<Rightarrow> 'r boot \<Rightarrow> (stop_step list \<times> bool) \<times> 'r boot" where
  "main_stop shutdown m pu s = (let s1 = say ''Shutting down server...'' s in
     case StopHealthCheck m (bo_chans s1) of None \<Rightarrow> (([], False), s1)
     | Some cs1 \<Rightarrow> (case StopCooldownCleanup m cs1 of None \<Rightarrow> (([HealthCheckStopped], False), s1\<lparr>bo_chans := cs1\<rparr>)
     | Some cs2 \<Rightarrow> (case pu_Stop pu cs2 of None \<Rightarrow> (([HealthCheckStopped, CooldownStopped], False), s1\<lparr>bo_chans := cs2\<rparr>)
     | Some cs3 \<Rightarrow>
         let s2 = say ''Prometheus pusher stopped'' (s1\<lparr>bo_chans := cs3\<rparr>);
             s3 = (case shutdown of None \<Rightarrow> s2 | Some e \<Rightarrow> say (''Server forced to shutdown: '' @ err_text e) s2)
         in (([HealthCheckStopped, CooldownStopped, PusherStopped, ServerShutDown], True), say ''Server exited'' s3))))"

section \<open>Lemmas\<close>

lemma say_discard: "ls_discard (bo_logs s) \<Longrightarrow> say m s = s"
  by (simp add: say_def)

lemma say_logs [simp]: "bo_logs (say m s) = bo_logs s"
  by (simp add: say_def)

lemma boot_late_quiet:
  assumes "\<not> ls_once (bo_logs s)" and "boot_late B R cfg l s = (res, s1)"
  shows "bo_stderr s1 = bo_stderr s" and "ls_discard (bo_logs s1)" and "ls_written (bo_logs s1) = ls_written (bo_logs s)"
  using assms by (auto simp: boot_late_def boot_audit_def boot_pusher_def boot_federation_def InitLogger_def say_discard Let_def
      split: sum.splits prod.splits if_splits)

lemma boot_early_once: "ls_once (bo_logs (snd (boot_early B R cfg s))) = ls_once (bo_logs s)"
  by (simp add: boot_early_def boot_limiter_def boot_tracing_def boot_subnet_def boot_migrate_def Let_def split: sum.split prod.split option.split)

lemma serve_quiet:
  assumes "ls_discard (bo_logs s)"
  shows "snd (main_serve e p s) = s"
  using assms by (simp add: main_serve_def say_discard Let_def split: option.split)

text \<open>After the start the peer server fails without a word.\<close>

lemma peer_failure_silent: "ls_discard (bo_logs s) \<Longrightarrow> main_peer listen served s = s"
  by (simp add: main_peer_def say_discard split: option.split)

section \<open>Properties\<close>

text \<open>With mutual TLS the server asks a client for a certificate and lets it in without one, or with one that no authority signed.\<close>

theorem mtls_lets_anyone_in:
  assumes "StartServer T c = Inr srv" and "gc_MTLSEnabled c"
  shows "hs_TLS srv \<noteq> None \<and> (\<forall>cert. server_accepts srv cert)"
  using assms by (auto simp: StartServer_def buildTLSConfig_def server_accepts_def Let_def split: sum.splits option.splits)

theorem mtls_lets_anyone_in_witness:
  "case StartServer \<lparr>te_read = (\<lambda>_. Inr ''pem''), te_pool = Some\<rparr> ((cf_Gateway demo_config0)\<lparr>gc_MTLSEnabled := True\<rparr>) of
     Inr srv \<Rightarrow> \<forall>cert. server_accepts srv cert | Inl _ \<Rightarrow> False"
proof -
  let ?T = "\<lparr>te_read = (\<lambda>_. Inr ''pem''), te_pool = Some\<rparr>" and ?c = "(cf_Gateway demo_config0)\<lparr>gc_MTLSEnabled := True\<rparr>"
  obtain srv where s: "StartServer ?T ?c = Inr srv" by (simp add: StartServer_def buildTLSConfig_def Let_def)
  from mtls_lets_anyone_in [OF s] show ?thesis by (auto simp: s)
qed

text \<open>When the program is told to stop, it panics at its first step: neither the last metrics are pushed nor does the server
  finish the requests in flight, because the channels of the matchmaker that it closes were never made.\<close>

theorem shutdown_panics:
  "fst (main_stop e NewMatchmaker_chans pu s) = ([], False)"
  by (simp add: main_stop_def NewMatchmaker_chans_def StopHealthCheck_def Let_def)

text \<open>C30: A program that cannot serve, because the certificates cannot be read or the address is taken, ends without a word: the last
  message on the standard error is the one before the gateway was made, and its logger has written nothing.\<close>

theorem failed_start_is_silent:
  assumes "be_config B = Inr cfg" and "be_connect B = Inr R" and "\<not> ls_once (bo_logs s)"
    and "main_boot B s = (res, s1)"
    and "s2 = (case res of Inl msg \<Rightarrow> s1 | Inr p \<Rightarrow> snd (main_serve (Some e) p s1))"
  shows "(case res of Inl msg \<Rightarrow> msg \<noteq> '''' | Inr p \<Rightarrow> fst (main_serve (Some e) p s1) \<noteq> None) \<and>
    bo_stderr s2 = bo_stderr (snd (boot_early B R cfg s)) \<and> ls_written (bo_logs s2) = ls_written (bo_logs (snd (boot_early B R cfg s)))"
proof -
  obtain l s0 where e: "boot_early B R cfg s = (l, s0)" by fastforce
  have b: "boot_late B R cfg l s0 = (res, s1)" using assms(1,2,4) e by (simp add: main_boot_def)
  have "\<not> ls_once (bo_logs s0)" using boot_early_once [of B R cfg s] assms(3) e by simp
  note q = boot_late_quiet [OF this b]
  have "s2 = s1" using assms(5) serve_quiet [OF q(2)] by (simp split: sum.splits)
  moreover have "case res of Inl msg \<Rightarrow> msg \<noteq> '''' | Inr p \<Rightarrow> fst (main_serve (Some e) p s1) \<noteq> None"
    using b by (auto simp: boot_late_def main_serve_def Let_def split: sum.splits prod.splits)
  ultimately show ?thesis using q e by simp
qed

definition silent_env :: "(mem, string) boot_env" where
  "silent_env = \<lparr>be_config = Inr demo_config0, be_connect = Inr mem_redis, be_migrations = [], be_parseIP = (\<lambda>_. None),
     be_exporter = None, be_resource = None, be_auditFile = (\<lambda>_. None), be_opens = (\<lambda>_. True), be_tls = \<lparr>te_read = Inr, te_pool = Some\<rparr>\<rparr>"

definition silent_boot :: "mem boot" where
  "silent_boot = \<lparr>bo_logs = \<lparr>ls_logger = None, ls_once = False, ls_discard = False, ls_written = []\<rparr>, bo_stderr = [], bo_redis = mem_empty, bo_chans = []\<rparr>"

theorem failed_start_is_silent_witness:
  "case main_boot silent_env silent_boot of
     (Inr p, s1) \<Rightarrow> (case main_serve (Some (Err ''address in use'')) p s1 of (msg, s2) \<Rightarrow>
       msg = Some ''Failed to start gateway: address in use'' \<and> ls_written (bo_logs s2) = [] \<and>
       bo_stderr s2 = [''Database migrations completed'', ''Using local rate limiter (in-memory)''])
   | (Inl _, _) \<Rightarrow> False"
proof -
  have early: "bo_stderr (snd (boot_early silent_env mem_redis demo_config0 silent_boot)) = [''Database migrations completed'', ''Using local rate limiter (in-memory)'']"
    "bo_logs (snd (boot_early silent_env mem_redis demo_config0 silent_boot)) = bo_logs silent_boot"
    by (simp_all add: boot_early_def boot_migrate_def boot_subnet_def boot_tracing_def boot_limiter_def mr_Run_def NewMigrationRunner_def
        InitTracing_def silent_env_def silent_boot_def demo_config0_def say_def Let_def)
  obtain res s1 where b: "main_boot silent_env silent_boot = (res, s1)" by fastforce
  have "\<exists>p. res = Inr p"
    using b by (auto simp: main_boot_def boot_late_def StartServer_def silent_env_def demo_config0_def Let_def split: prod.splits)
  then obtain p where p: "res = Inr p" by blast
  have pre: "be_config silent_env = Inr demo_config0" "be_connect silent_env = Inr mem_redis" "\<not> ls_once (bo_logs silent_boot)"
    by (simp_all add: silent_env_def silent_boot_def)
  note f = failed_start_is_silent [OF pre b refl, of "Err ''address in use''", unfolded p sum.case early]
  then show ?thesis unfolding b p by (simp add: split_beta main_serve_def Let_def silent_boot_def)
qed

end
