(* ===== verification/Cli.thy ===== *)
theory Cli
  imports Admin_Keys Json Redis_Mem
begin

text \<open>
  The command line (\<open>cmd/cli\<close>): each command is the requests it sends and the lines it prints, or an error. The network,
  the JSON decoder (a text to a value, whose keys are those the decoder matched) and the format \<open>%.1f\<close> are parameters. The
  lines of a command that fails while it prints are kept. The command framework, which gives the arguments and flags, is
  not modelled.
\<close>

section \<open>Requests\<close>

record cli_request =
  cq_method :: string
  cq_url :: string
  cq_body :: "string option"
  cq_adminKey :: "string option"

record 'w cli_env =
  ce_newReq :: "cli_request \<Rightarrow> go_err option"
  ce_do :: "cli_request \<Rightarrow> 'w \<Rightarrow> (go_err + int \<times> string) \<times> 'w"
  ce_parse :: "string \<Rightarrow> go_err + json"
  ce_dec :: "f64 \<Rightarrow> string"

record cli_flags =
  cf_adminKey :: string
  cf_baseURL :: string

type_synonym 'w cli = "'w \<Rightarrow> (string list \<times> go_err option) \<times> 'w"

text \<open>A request with the administrators' key: making it, sending it, and what the command does with the status and the body.\<close>

definition admin_call :: "'w cli_env \<Rightarrow> cli_flags \<Rightarrow> string \<Rightarrow> string \<Rightarrow> string option \<Rightarrow> (int \<Rightarrow> string \<Rightarrow> string list \<times> go_err option) \<Rightarrow> 'w cli" where
  "admin_call C F meth path body k w =
     (let r = \<lparr>cq_method = meth, cq_url = cf_baseURL F @ path, cq_body = body, cq_adminKey = Some (cf_adminKey F)\<rparr>
      in case ce_newReq C r of Some e \<Rightarrow> (([], Some e), w)
       | None \<Rightarrow> (case ce_do C r w of (Inl e, w1) \<Rightarrow> (([], Some e), w1) | (Inr (status, text), w1) \<Rightarrow> (k status text, w1)))"

text \<open>\<open>http.Get\<close>.\<close>

definition plain_get :: "'w cli_env \<Rightarrow> cli_flags \<Rightarrow> string \<Rightarrow> (go_err \<Rightarrow> go_err) \<Rightarrow> (int \<Rightarrow> string \<Rightarrow> string list \<times> go_err option) \<Rightarrow> 'w cli" where
  "plain_get C F path wrap k w =
     (let r = \<lparr>cq_method = ''GET'', cq_url = cf_baseURL F @ path, cq_body = None, cq_adminKey = None\<rparr>
      in case ce_newReq C r of Some e \<Rightarrow> (([], Some (wrap e)), w)
       | None \<Rightarrow> (case ce_do C r w of (Inl e, w1) \<Rightarrow> (([], Some (wrap e)), w1) | (Inr (status, text), w1) \<Rightarrow> (k status text, w1)))"

section \<open>Decoding\<close>

text \<open>
  A structure of the decoder: its fields, each of a kind, and what is left at zero when it is absent or null. A value of
  another kind is an error. A number must be one that an \<open>int\<close> holds.
\<close>

datatype kind = KText | KInt | KFloat | KObj

definition is_go_int :: "f64 \<Rightarrow> bool" where
  "is_go_int x = (case x of Fin q \<Rightarrow> q = of_int \<lfloor>q\<rfloor> \<and> in_i64 \<lfloor>q\<rfloor> | _ \<Rightarrow> False)"

fun fits_kind :: "kind \<Rightarrow> json \<Rightarrow> bool" where
  "fits_kind _ JNull = True"
| "fits_kind KText (JStr _) = True"
| "fits_kind KInt (JNum x) = is_go_int x"
| "fits_kind KFloat (JNum _) = True"
| "fits_kind KObj (JObj _) = True"
| "fits_kind _ _ = False"

definition fits_struct :: "(string \<times> kind) list \<Rightarrow> json_map \<Rightarrow> bool" where
  "fits_struct fs m = list_all (\<lambda>(f, k). case map_of m f of None \<Rightarrow> True | Some v \<Rightarrow> fits_kind k v) fs"

definition text_of :: "json_map \<Rightarrow> string \<Rightarrow> string" where
  "text_of m k = (case get_str m k of Some s \<Rightarrow> s | None \<Rightarrow> '''')"

definition int_of :: "json_map \<Rightarrow> string \<Rightarrow> int" where
  "int_of m k = (case get_num m k of Some (Fin q) \<Rightarrow> \<lfloor>q\<rfloor> | _ \<Rightarrow> 0)"

definition float_of :: "json_map \<Rightarrow> string \<Rightarrow> f64" where
  "float_of m k = (case get_num m k of Some x \<Rightarrow> x | None \<Rightarrow> f_int 0)"

definition obj_of :: "json_map \<Rightarrow> string \<Rightarrow> json_map" where
  "obj_of m k = (case get_obj m k of Some o' \<Rightarrow> o' | None \<Rightarrow> [])"

definition type_error :: go_err where
  "type_error = Err ''json: cannot unmarshal''"

text \<open>A body as an object; null is one without fields.\<close>

definition decode_obj :: "'w cli_env \<Rightarrow> string \<Rightarrow> go_err + json_map" where
  "decode_obj C text = (case ce_parse C text of Inl e \<Rightarrow> Inl e | Inr (JObj m) \<Rightarrow> Inr m | Inr JNull \<Rightarrow> Inr [] | Inr _ \<Rightarrow> Inl type_error)"

text \<open>The objects of a field that is an array; null elements are objects without fields.\<close>

fun objs :: "json list \<Rightarrow> json_map list option" where
  "objs [] = Some []"
| "objs (JObj m # xs) = map_option ((#) m) (objs xs)"
| "objs (JNull # xs) = map_option ((#) []) (objs xs)"
| "objs (_ # xs) = None"

definition objs_of :: "json_map \<Rightarrow> string \<Rightarrow> json_map list option" where
  "objs_of m k = (case map_of m k of None \<Rightarrow> Some [] | Some JNull \<Rightarrow> Some [] | Some (JArr xs) \<Rightarrow> objs xs | _ \<Rightarrow> None)"

section \<open>Keys\<close>

definition rate_fields :: "(string \<times> kind) list" where
  "rate_fields = [(''requests'', KInt), (''window_seconds'', KInt)]"

definition key_fits :: "json_map \<Rightarrow> bool" where
  "key_fits m = (fits_struct [(''name'', KText), (''key_hash'', KText), (''ttl_seconds'', KInt), (''rate_limit'', KObj)] m \<and>
     fits_struct rate_fields (obj_of m ''rate_limit''))"

definition key_lines :: "json_map \<Rightarrow> string list" where
  "key_lines m =
     (let hash = text_of m ''key_hash''; ttl = int_of m ''ttl_seconds''; rl = obj_of m ''rate_limit''
      in [''  '' @ text_of m ''name'',
          ''    Hash: '' @ take 16 hash @ ''...'',
          ''    TTL: '' @ (if ttl > 0 then show_int (ttl div 86400) @ '' days'' else ''no expiration'')] @
         (if int_of rl ''requests'' > 0
          then [''    Rate Limit: '' @ show_int (int_of rl ''requests'') @ '' req / '' @ show_int (int_of rl ''window_seconds'') @ '' sec''] else []) @
         [''''])"

definition key_list_out :: "'w cli_env \<Rightarrow> string \<Rightarrow> string list \<times> go_err option" where
  "key_list_out C text = (case decode_obj C text of Inl e \<Rightarrow> ([], Some e)
     | Inr m \<Rightarrow> (case objs_of m ''keys'' of None \<Rightarrow> ([], Some type_error)
         | Some ks \<Rightarrow> if \<not> fits_struct [(''status'', KText)] m \<or> \<not> list_all key_fits ks then ([], Some type_error)
             else if ks = [] then ([''API Keys:'', ''========='', ''  No keys found''], None)
             else ([''API Keys:'', ''=========''] @ concat (map key_lines ks), None)))"

definition runKeyList :: "'w cli_env \<Rightarrow> cli_flags \<Rightarrow> 'w cli" where
  "runKeyList C F = admin_call C F ''GET'' ''/api/keys'' None (\<lambda>status text. key_list_out C text)"

definition quoted :: "string \<Rightarrow> string" where
  "quoted s = [CHR 0x22] @ s @ [CHR 0x22]"

definition key_body :: "string \<Rightarrow> int \<Rightarrow> string" where
  "key_body name ttl = ''{'' @ quoted ''name'' @ '':'' @ quoted name @ '','' @ quoted ''ttl_days'' @ '':'' @ show_int ttl @ ''}''"

definition runKeyCreate :: "'w cli_env \<Rightarrow> cli_flags \<Rightarrow> int \<Rightarrow> string \<Rightarrow> 'w cli" where
  "runKeyCreate C F ttl name = admin_call C F ''POST'' ''/api/keys'' (Some (key_body name ttl)) (\<lambda>status text.
     if status \<noteq> 200 \<and> status \<noteq> 201 then ([], Some (Err (''failed to create key: '' @ text)))
     else (case decode_obj C text of Inl e \<Rightarrow> ([], Some e)
       | Inr m \<Rightarrow> if \<not> fits_struct [(''key'', KText)] m then ([], Some type_error)
           else ([''API Key created: '' @ text_of m ''key'', ''Make sure to copy it - you won't be able to see it again!''], None)))"

text \<open>A command whose answer is only a status.\<close>

definition status_only :: "string \<Rightarrow> string list \<Rightarrow> int \<Rightarrow> string \<Rightarrow> string list \<times> go_err option" where
  "status_only failure lines status text =
     (if status \<noteq> 200 then ([], Some (Err (failure @ '' (status '' @ show_int status @ '')''))) else (lines, None))"

definition runKeyDelete :: "'w cli_env \<Rightarrow> cli_flags \<Rightarrow> string \<Rightarrow> 'w cli" where
  "runKeyDelete C F key = admin_call C F ''DELETE'' ''/api/keys'' (Some (''{'' @ quoted ''key'' @ '':'' @ quoted key @ ''}''))
     (status_only ''failed to delete key'' [''API Key deleted''])"

definition runKeySetRateLimit :: "'w cli_env \<Rightarrow> cli_flags \<Rightarrow> int \<Rightarrow> int \<Rightarrow> string \<Rightarrow> 'w cli" where
  "runKeySetRateLimit C F requests secs key = admin_call C F ''POST'' ''/api/keys/ratelimit''
     (Some (''{'' @ quoted ''key'' @ '':'' @ quoted key @ '','' @ quoted ''requests'' @ '':'' @ show_int requests @ '','' @ quoted ''window_seconds'' @ '':'' @ show_int secs @ ''}''))
     (status_only ''failed to set rate limit'' [''Rate limit set: '' @ show_int requests @ '' req / '' @ show_int secs @ '' sec''])"

section \<open>Nodes\<close>

definition node_fields :: "(string \<times> kind) list" where
  "node_fields = map (\<lambda>f. (f, KText)) [''node_id'', ''node_type'', ''country'', ''city'', ''isp'', ''ip'', ''os'', ''last_seen'']"

definition node_fits :: "json_map \<Rightarrow> bool" where
  "node_fits m = (fits_struct [(''id'', KText), (''node'', KObj)] m \<and> fits_struct node_fields (obj_of m ''node''))"

definition node_lines :: "json_map \<Rightarrow> string list" where
  "node_lines m = (let n = obj_of m ''node'' in
     [''  '' @ text_of m ''id'' @ '' ('' @ text_of n ''node_type'' @ '')'',
      ''    Country: '' @ text_of n ''country'' @ '' | City: '' @ text_of n ''city'' @ '' | ISP: '' @ text_of n ''isp'',
      ''    IP: '' @ text_of n ''ip'' @ '' | OS: '' @ text_of n ''os'' @ '' | Last Seen: '' @ text_of n ''last_seen'', ''''])"

definition runNodeList :: "'w cli_env \<Rightarrow> cli_flags \<Rightarrow> 'w cli" where
  "runNodeList C F = admin_call C F ''GET'' ''/api/admin/nodes'' None (\<lambda>status text.
     if status \<noteq> 200 then ([], Some (Err (''API returned status '' @ show_int status)))
     else (case decode_obj C text of Inl e \<Rightarrow> ([], Some e)
       | Inr m \<Rightarrow> (case objs_of m ''nodes'' of None \<Rightarrow> ([], Some type_error)
           | Some ns \<Rightarrow> if \<not> fits_struct [(''status'', KText)] m \<or> \<not> list_all node_fits ns then ([], Some type_error)
               else if ns = [] then ([''Registered Nodes:'', ''================='', ''  No nodes registered''], None)
               else ([''Registered Nodes:'', ''=================''] @ concat (map node_lines ns), None))))"

record node_flags =
  nf_type :: string
  nf_ip :: string
  nf_country :: string
  nf_city :: string
  nf_isp :: string
  nf_os :: string

definition node_body :: "node_flags \<Rightarrow> string \<Rightarrow> string" where
  "node_body N nodeID = ''{'' @ join_sep '','' (map (\<lambda>(k, v). quoted k @ '':'' @ quoted v)
     [(''node_id'', nodeID), (''node_type'', nf_type N), (''ip'', nf_ip N), (''country'', nf_country N), (''city'', nf_city N),
      (''isp'', nf_isp N), (''os'', nf_os N)]) @ ''}''"

definition node_said :: "string \<Rightarrow> string \<Rightarrow> string" where
  "node_said nodeID what = ''Node '' @ [CHR 0x27] @ nodeID @ [CHR 0x27] @ '' '' @ what @ '' successfully''"

definition runNodeRegister :: "'w cli_env \<Rightarrow> cli_flags \<Rightarrow> node_flags \<Rightarrow> string \<Rightarrow> 'w cli" where
  "runNodeRegister C F N nodeID = admin_call C F ''POST'' ''/api/admin/nodes'' (Some (node_body N nodeID)) (\<lambda>status text.
     if status \<noteq> 200 \<and> status \<noteq> 201 then ([], Some (Err (''failed to register node: '' @ text)))
     else ([node_said nodeID ''registered''], None))"

definition runNodeDeregister :: "'w cli_env \<Rightarrow> cli_flags \<Rightarrow> string \<Rightarrow> 'w cli" where
  "runNodeDeregister C F nodeID = admin_call C F ''DELETE'' (''/api/admin/nodes/'' @ nodeID) None
     (status_only ''failed to deregister node'' [node_said nodeID ''deregistered''])"

definition node_status_out :: "'w cli_env \<Rightarrow> int \<Rightarrow> string \<Rightarrow> string list \<times> go_err option" where
  "node_status_out C status text =
     (if status \<noteq> 200 then ([], Some (Err (''node not found (status '' @ show_int status @ '')'')))
      else (case decode_obj C text of Inl e \<Rightarrow> ([], Some e)
        | Inr m \<Rightarrow> if \<not> fits_struct [(''status'', KText)] m \<or> \<not> node_fits m then ([], Some type_error)
            else let n = obj_of m ''node'' in
              ([''Node: '' @ text_of m ''id'',
                ''  Type: '' @ text_of n ''node_type'' @ '' | Country: '' @ text_of n ''country'' @ '' | City: '' @ text_of n ''city'',
                ''  ISP: '' @ text_of n ''isp'' @ '' | IP: '' @ text_of n ''ip'',
                ''  OS: '' @ text_of n ''os'' @ '' | Last Seen: '' @ text_of n ''last_seen''], None)))"

definition runNodeStatus :: "'w cli_env \<Rightarrow> cli_flags \<Rightarrow> string \<Rightarrow> 'w cli" where
  "runNodeStatus C F nodeID = admin_call C F ''GET'' (''/api/admin/nodes/'' @ nodeID) None (node_status_out C)"

section \<open>Status\<close>

text \<open>A body that does not decode is taken for an empty map; of a map of texts, what is not a text is not stored.\<close>

definition runHealth :: "'w cli_env \<Rightarrow> cli_flags \<Rightarrow> 'w cli" where
  "runHealth C F = plain_get C F ''/health'' (\<lambda>e. Err (''failed to connect to gateway: '' @ err_text e)) (\<lambda>status text.
     if status \<noteq> 200 then ([], Some (Err (''gateway unhealthy (status '' @ show_int status @ '')'')))
     else let m = (case decode_obj C text of Inl _ \<Rightarrow> [] | Inr m \<Rightarrow> m) in
       ([''Gateway Status:'', ''==============='', ''  Status: '' @ text_of m ''status'', ''  Version: '' @ text_of m ''version''], None))"

definition runMetrics :: "'w cli_env \<Rightarrow> cli_flags \<Rightarrow> 'w cli" where
  "runMetrics C F = plain_get C F ''/metrics'' (\<lambda>e. e) (\<lambda>status text. ([''Metrics:'', ''========'', text], None))"

definition runStatus :: "'w cli_env \<Rightarrow> cli_flags \<Rightarrow> 'w cli" where
  "runStatus C F w = (case runHealth C F w of
       ((ls, Some e), w1) \<Rightarrow> ((ls, Some e), w1)
     | ((ls, None), w1) \<Rightarrow> (case runMetrics C F w1 of ((ms, e), w2) \<Rightarrow> ((ls @ [''''] @ ms, e), w2)))"

definition capacity_fields :: "(string \<times> kind) list" where
  "capacity_fields = [(''status'', KText), (''total_nodes'', KInt), (''healthy_nodes'', KInt), (''unhealthy_nodes'', KInt), (''critical_nodes'', KInt),
     (''warning_nodes'', KInt), (''avg_utilization'', KFloat)]"

definition runCapacity :: "'w cli_env \<Rightarrow> cli_flags \<Rightarrow> 'w cli" where
  "runCapacity C F = admin_call C F ''GET'' ''/api/admin/capacity'' None (\<lambda>status text.
     (case decode_obj C text of Inl e \<Rightarrow> ([], Some e)
      | Inr m \<Rightarrow> if \<not> fits_struct capacity_fields m then ([], Some type_error)
          else ([''Capacity Report:'', ''================='',
            ''  Total Nodes:     '' @ show_int (int_of m ''total_nodes''), ''  Healthy:        '' @ show_int (int_of m ''healthy_nodes''),
            ''  Unhealthy:     '' @ show_int (int_of m ''unhealthy_nodes''), ''  Critical:       '' @ show_int (int_of m ''critical_nodes''),
            ''  Warning:       '' @ show_int (int_of m ''warning_nodes''), ''  Avg Utilization: '' @ ce_dec C (float_of m ''avg_utilization'') @ ''%''], None)))"

definition cli_main :: "go_err option \<Rightarrow> string option \<times> int" where
  "cli_main outcome = (case outcome of Some e \<Rightarrow> (Some (err_text e), 1) | None \<Rightarrow> (None, 0))"

section \<open>What a user is shown\<close>

text \<open>The answer to a list of keys as the gateway writes it.\<close>

type_synonym list_answer = "(string \<times> string) list list resp"

definition keys_answer :: "list_answer \<Rightarrow> json" where
  "keys_answer a = (case snd a of Inl e \<Rightarrow> JObj [(''error'', JStr e)]
     | Inr ks \<Rightarrow> JObj [(''status'', JStr ''success''), (''keys'', JArr (map (\<lambda>m. JObj (map (\<lambda>(k, v). (k, JStr v)) m)) ks))])"

lemma objs_map [simp]: "objs (map (\<lambda>m. JObj (f m)) ms) = Some (map f ms)"
  by (induction ms) simp_all

lemma map_of_texts: "map_of (map (\<lambda>(k, v). (k, JStr v)) m) x = map_option JStr (map_of m x)"
  by (induction m) auto

text \<open>Listing the keys shows, for every key that the gateway lists, its name, no hash and no expiry, whatever the key has; and when the
  gateway answers with an error, it reports that there are no keys, and no error.\<close>

theorem key_list_blind:
  assumes "ce_newReq C r = None" and "ce_do C r w = (Inr (fst a, text), w1)" and "ce_parse C text = Inr (keys_answer a)"
    and "r = \<lparr>cq_method = ''GET'', cq_url = cf_baseURL F @ ''/api/keys'', cq_body = None, cq_adminKey = Some (cf_adminKey F)\<rparr>"
    and "\<forall>ks. snd a = Inr ks \<longrightarrow> (\<forall>m \<in> set ks. map_of m ''key_hash'' = None \<and> map_of m ''ttl_seconds'' = None \<and> map_of m ''rate_limit'' = None)"
  shows "runKeyList C F w = (case snd a of
      Inl _ \<Rightarrow> (([''API Keys:'', ''========='', ''  No keys found''], None), w1)
    | Inr ks \<Rightarrow> (([''API Keys:'', ''========='']  @ (if ks = [] then [''  No keys found''] else
        concat (map (\<lambda>m. [''  '' @ or_empty (map_of m ''name''), ''    Hash: ...'', ''    TTL: no expiration'', '''']) ks)), None), w1))"
proof -
  have run: "runKeyList C F w = (key_list_out C text, w1)"
    using assms(1,2,4) by (simp add: runKeyList_def admin_call_def Let_def)
  show ?thesis
  proof (cases "snd a")
    case (Inl e)
    then show ?thesis using run assms(3)
      by (simp add: key_list_out_def decode_obj_def keys_answer_def objs_of_def fits_struct_def)
  next
    case (Inr ks)
    let ?j = "\<lambda>m. map (\<lambda>(k, v). (k, JStr v)) m"
    have d: "decode_obj C text = Inr [(''status'', JStr ''success''), (''keys'', JArr (map (\<lambda>m. JObj (?j m)) ks))]"
      using assms(3) Inr by (simp add: decode_obj_def keys_answer_def)
    have f: "key_fits (?j m)" and l: "key_lines (?j m) = [''  '' @ or_empty (map_of m ''name''), ''    Hash: ...'', ''    TTL: no expiration'', '''']"
      if "m \<in> set ks" for m
    proof -
      have n: "map_of m ''key_hash'' = None" "map_of m ''ttl_seconds'' = None" "map_of m ''rate_limit'' = None" using assms(5) Inr that by auto
      show "key_fits (?j m)" by (simp add: key_fits_def fits_struct_def map_of_texts n obj_of_def get_obj_def rate_fields_def split: option.split)
      show "key_lines (?j m) = [''  '' @ or_empty (map_of m ''name''), ''    Hash: ...'', ''    TTL: no expiration'', '''']"
        by (simp add: key_lines_def text_of_def int_of_def obj_of_def json_get_defs map_of_texts n or_empty_def Let_def split: option.split)
    qed
    have cc: "concat (map (key_lines \<circ> ?j) ks) =
        concat (map (\<lambda>m. [''  '' @ or_empty (map_of m ''name''), ''    Hash: ...'', ''    TTL: no expiration'', '''']) ks)"
      by (rule arg_cong [of _ _ concat], rule map_cong) (use l in simp_all)
    with run d f Inr show ?thesis
      by (simp add: key_list_out_def objs_of_def fits_struct_def list_all_iff cc)
  qed
qed

definition cli_demo :: "list_answer \<Rightarrow> unit cli_env" where
  "cli_demo a = \<lparr>ce_newReq = (\<lambda>_. None), ce_do = (\<lambda>_ w. (Inr (fst a, ''json''), w)), ce_parse = (\<lambda>_. Inr (keys_answer a)), ce_dec = (\<lambda>_. '''')\<rparr>"

theorem key_list_blind_witness:
  "fst (runKeyList (cli_demo (401, Inl ''Missing admin key'')) \<lparr>cf_adminKey = '''', cf_baseURL = ''http://g''\<rparr> ()) =
     ([''API Keys:'', ''========='', ''  No keys found''], None) \<and>
   fst (runKeyList (cli_demo (200, Inr [[(''hash'', ''9f''), (''name'', ''ci''), (''expires_at'', ''1'')]])) \<lparr>cf_adminKey = ''k'', cf_baseURL = ''http://g''\<rparr> ()) =
     ([''API Keys:'', ''========='', ''  ci'', ''    Hash: ...'', ''    TTL: no expiration'', ''''], None)"
proof
  let ?F = "\<lparr>cf_adminKey = '''', cf_baseURL = ''http://g''\<rparr>" and ?a = "(401, Inl ''Missing admin key'') :: list_answer"
  have "ce_newReq (cli_demo ?a) r = None" "ce_do (cli_demo ?a) r () = (Inr (fst ?a, ''json''), ())" "ce_parse (cli_demo ?a) ''json'' = Inr (keys_answer ?a)" for r
    by (simp_all add: cli_demo_def)
  note k = key_list_blind [OF this, of _ ?F]
  show "fst (runKeyList (cli_demo ?a) ?F ()) = ([''API Keys:'', ''========='', ''  No keys found''], None)"
    by (subst k [OF refl]) simp_all
next
  let ?F = "\<lparr>cf_adminKey = ''k'', cf_baseURL = ''http://g''\<rparr>"
    and ?a = "(200, Inr [[(''hash'', ''9f''), (''name'', ''ci''), (''expires_at'', ''1'')]]) :: list_answer"
  have "ce_newReq (cli_demo ?a) r = None" "ce_do (cli_demo ?a) r () = (Inr (fst ?a, ''json''), ())" "ce_parse (cli_demo ?a) ''json'' = Inr (keys_answer ?a)" for r
    by (simp_all add: cli_demo_def)
  note k = key_list_blind [OF this, of _ ?F]
  show "fst (runKeyList (cli_demo ?a) ?F ()) = ([''API Keys:'', ''========='', ''  ci'', ''    Hash: ...'', ''    TTL: no expiration'', ''''], None)"
    by (subst k [OF refl]) (simp_all add: or_empty_def)
qed

end
