(* ===== verification/Spec2Isabelle.thy ===== *)
theory Spec2Isabelle
  imports Gateway Rbac Latency Subnet Sessions Retry Dedup Events Webhooks Hub Geo_IP Client_Limits Request_Id
    Validation Capacity Federation Audit_Log Analytics Migrations
    Payout Jwt Peer_Server Peer_Sdk Os_Metrics Node_Groups Benchmark Serving Batch Peer_Api Config
    Quota_Calendar Loops Telemetry Admin_Tools Identifiers Redis_Connect Route_Tables
    Gateway_Config Routes Admin_Nodes Admin_Keys Web_Ui Logger Backup Sdk_Go Startup Cli
begin

text \<open>
  ProxyMesh: a hybrid mesh of proxies. Clients send requests to the gateway (\<open>gateway/\<close>), which
  authenticates them, limits their rate, checks their target and asks the matchmaker
  (\<open>matchmaker/\<close>) for an exit node; nodes register with the matchmaker and report their health,
  load and latency; everything shared between instances is in Redis. Around them are the
  administrators (\<open>admin/rbac\<close>), the subnets of datacenter nodes (\<open>internal/subnet\<close>), the
  federation of gateways (\<open>federation/\<close>) and the migrations of the data (\<open>internal/migrations\<close>).

  \<^bold>\<open>Conventions.\<close>
  \<^item> An \<open>int\<close> or \<open>int64\<close> is an \<open>int\<close> wrapped by \<open>i64\<close> after every operation that the code performs
    on it; a \<open>float64\<close> is an \<open>f64\<close>, rounded after every operation. An instant and a duration are
    numbers of nanoseconds; the current time is an argument.
  \<^item> A struct is a record, an enumeration a datatype, a map a partial function, a slice a list. The
    order in which Go ranges over a map is an argument where it can be seen.
  \<^item> An operation takes the state it reads and returns the state it leaves. An error is a value of
    \<open>go_err\<close> in a sum or an option; a panic is \<open>None\<close> in a result that is otherwise \<open>Some\<close>.
  \<^item> Redis is a parameter: a record of its commands over a server state \<open>'r\<close>. A nil client is \<open>None\<close>.
    A claim that depends on what a command does has that as a hypothesis, which leaves open when keys with an expiry
    go, and its witness uses the small server of \<open>Redis_Mem\<close>. JSON, hashes, addresses of version 6 and formatted times are parameters too.
  \<^item> An operation that holds a lock throughout is one step. Where the code releases a lock in between,
    or works on channels, the pieces are the steps of an \<open>inductive\<close> relation, over which invariants
    are proved for every interleaving (\<open>Conn_Pool\<close>, \<open>Rate_Limit\<close>, \<open>Hub\<close>, \<open>Gateway_Config\<close>) or a bad one is exhibited.

  \<^bold>\<open>Libraries.\<close>
  \<^item> \<open>Prelude\<close>: integers, strings, maps, expiry sweeps, bounded histories, runs of operations; the locales
    for a table with expiring entries and for a simulation, with their general lemmas.
  \<^item> \<open>Go_Float\<close>: binary64, its rounding as a locale and the instance for \<open>round64\<close>. \<open>Go_Sort\<close>: the sorts
    that the code writes out. \<open>Go_Chan\<close>: buffered channels, and tables of channels that are never closed twice
    or sent to after they are closed. \<open>Go_Slice\<close>: slices over shared arrays. \<open>Go_Net\<close>: addresses. \<open>Http\<close>: requests, middlewares and replies.
    \<open>Redis_Api\<close>, \<open>Redis_Mem\<close>: the server and its instance. \<open>Json\<close>: decoded JSON values.
    \<open>Go_Time\<close>: the calendar of Go, by which every day has one date, and what adding a month to a date does.

  \<^bold>\<open>The request path.\<close>
  \<^item> \<open>Rate_Limit\<close> (\<open>ratelimit.go\<close>, \<open>redis_ratelimit.go\<close>, \<open>rate_limit_tiers.go\<close>): the three limiters and the race
    on the shared limit of the tiers. \<open>Compliance\<close> (\<open>compliance.go\<close>): blocked domains against a reference definition.
  \<^item> \<open>Keys\<close> (\<open>apikey.go\<close>, \<open>keyquota.go\<close>): keys, expiry, quotas. \<open>Quota_Calendar\<close>: when a quota starts
    again, and the month that some dates skip. \<open>Identifiers\<close>: identifiers made of counters and of random bytes. \<open>Conn_Pool\<close> (\<open>connpool.go\<close>): the pool under
    concurrent use: its bound, the conservation of connections, the send on a closed channel.
  \<^item> \<open>Gateway\<close> (\<open>service.go\<close>): the middleware chain, the proxy handler, the load of nodes, the circuit breaker of
    the gateway over that of the matchmaker. \<open>Gateway_Config\<close>: the running configuration, its change field by field and
    that what runs is what it says, with either limiter, except in the interleavings in which two changes overlap. \<open>Routes\<close> (\<open>service.go\<close>, \<open>webui.go\<close>, \<open>admin.go\<close>,
    \<open>peer_api.go\<close>): which middlewares run for which route. \<open>Route_Tables\<close>: the routes that components bring along and
    the program does not register, and which of them exclude each other.
  \<^item> \<open>Retry\<close> (\<open>retry.go\<close>, \<open>cache.go\<close>), \<open>Dedup\<close> (\<open>request_dedup.go\<close>, \<open>dedup_tiers.go\<close>, \<open>cache.go\<close>), \<open>Client_Limits\<close>
    (\<open>client_ratelimit.go\<close>, \<open>ddos_shaper.go\<close>, \<open>replay_limits.go\<close>), \<open>Request_Id\<close> (\<open>requestid.go\<close>), \<open>Validation\<close>
    (\<open>validation.go\<close>), \<open>Geo_IP\<close> (\<open>geoip.go\<close>), \<open>Batch\<close> (\<open>batch.go\<close>, \<open>request_logger.go\<close>), \<open>Serving\<close> (\<open>shutdown.go\<close>,
    \<open>slow_client.go\<close>, \<open>deprecation.go\<close>): what a request meets before and around the proxy handler.
  \<^item> \<open>Jwt\<close> (\<open>jwt/\<close>): tokens, of which a refreshed one lives as long as each refresh is in time; the signing library is
    trusted with claims that JSON keeps: valid UTF-8 and times of whole seconds.

  \<^bold>\<open>The nodes.\<close>
  \<^item> \<open>Node_Store\<close> (\<open>redis_client.go\<close>, \<open>cooldown.go\<close>), \<open>Matchmaker\<close> (\<open>matchmaker/service.go\<close>): registration, heartbeats,
    circuit breakers and selection, which returns only eligible nodes of the highest weight.
  \<^item> \<open>Health\<close> (\<open>peer_health.go\<close>, \<open>health_history.go\<close>, \<open>health/service.go\<close>), \<open>Latency\<close> (\<open>latency.go\<close>), \<open>Capacity\<close>
    (\<open>capacity.go\<close>, \<open>scaling_policy.go\<close>, \<open>qos_metrics.go\<close>): scores, windows, queues, capacity and advice.
  \<^item> \<open>Sessions\<close> (\<open>session_persist.go\<close>, \<open>schema_session.go\<close>), \<open>Subnet\<close> (\<open>internal/subnet\<close>), \<open>Federation\<close>. \<open>Loops\<close>: the
    goroutines that work at every tick, as a locale of what a tick keeps, and the channels that stop them. \<open>Redis_Connect\<close>: the client of Redis.
    \<open>Admin_Tools\<close>: the routes of schemas, administrators' sessions, pool settings and the history of health.
  \<^item> \<open>Node_Groups\<close> (\<open>node_groups.go\<close>): groups refine a table of lists, whatever arrays their slices share.
    \<open>Benchmark\<close> (\<open>benchmark.go\<close>): percentiles.
  \<^item> \<open>Peer_Server\<close> (\<open>internal/grpc/server.go\<close>), \<open>Peer_Sdk\<close> (\<open>peer-sdk/\<close>): the two ends of a node's connection; the
    loops of the client are the steps of a relation, over which it is proved when it can connect again. \<open>Os_Metrics\<close>
    (\<open>peer-sdk/metrics_*.go\<close>): what a node reads off its own machine, down to the wrapped differences of counters.
    \<open>Telemetry\<close>: the two ends of a telemetry stream, run against each other.
  \<^item> \<open>Peer_Api\<close> (\<open>peer_api.go\<close>), \<open>Payout\<close> (\<open>payout/\<close>): what the owner of a node sees and is paid; whose a token is
    is read off the log of the requests, and the stream of telemetry is followed into the history of payouts.

  \<^bold>\<open>Observers and administration.\<close>
  \<^item> \<open>Hub\<close> (\<open>websocket.go\<close>), \<open>Events\<close> (\<open>broadcast.go\<close>), \<open>Webhooks\<close> (\<open>timeout_webhook.go\<close>): channels of
    subscribers; the hub never panics under any interleaving of its handlers and of the two loops that serve it, step by step
    of what they share, and the broadcaster is the product of its connections.
  \<^item> \<open>Audit_Log\<close> (\<open>audit.go\<close>, \<open>cost_audit.go\<close>), \<open>Analytics\<close> (\<open>analytics.go\<close>, \<open>key_analytics.go\<close>), \<open>Rbac\<close> (\<open>admin/rbac\<close>),
    \<open>Migrations\<close> (\<open>internal/migrations\<close>), \<open>Config\<close> (\<open>internal/config\<close>): loading and reloading.
  \<^item> \<open>Admin_Nodes\<close>, \<open>Admin_Keys\<close> (\<open>admin.go\<close>), \<open>Web_Ui\<close> (\<open>webui.go\<close>): the handlers of the administrators and of the web
    interface over the services they call, with what their routes let a stranger do to keys and to the whole database.
  \<^item> \<open>Logger\<close> (\<open>logger.go\<close>, \<open>metrics.go\<close>, \<open>prometheus.go\<close>): what is logged, the counters as text and their pusher.
    \<open>Startup\<close> (\<open>main.go\<close>, \<open>tracing.go\<close>, the server of \<open>service.go\<close>): starting, failing to start and stopping.

  \<^bold>\<open>Programs around it.\<close>
  \<^item> \<open>Backup\<close> (\<open>scripts/backup.go\<close>): a restore brings back the values of the five types that a backup knows, their texts as
    JSON keeps them, without the expiry. \<open>Sdk_Go\<close>
    (\<open>sdk/go\<close>): the Go client against the middleware of \<open>Peer_Api\<close>. \<open>Cli\<close> (\<open>cmd/cli\<close>): the command line against
    the answers of \<open>Admin_Keys\<close>.

  \<^bold>\<open>Fuel and termination.\<close> No definition takes fuel: loops over data are structural, the retry loops have a
  measure, and background loops (\<open>cleanupLoop\<close> and the like) are one function per tick.

  \<^bold>\<open>Not modelled.\<close> The code that the protocol compiler generates; reading the files and running the commands of
  \<open>peer-sdk/metrics_*.go\<close>, and the load on Windows, which is a number in any notation that \<open>ParseFloat\<close> knows; what exports the
  spans of the tracer; static files and templates; the framework of the command line and the texts of its help; writing and
  compressing the bodies of responses; types that no code uses (\<open>ProxyRequest\<close>, \<open>ProxyResponse\<close> and \<open>User\<close> in
  \<open>internal/models\<close>); methods that only return a field or call the method of the same name of a component that is modelled.
  Locations have one offset the year round.
\<close>

end
